(* ===== verification/Prelude.thy ===== *)
theory Prelude
  imports Main "HOL-Library.Word"
begin

text \<open>
  Shared vocabulary of the development: machine integer types, the result type of fallible
  code, C string and buffer access, first-match scans over slot arrays, and the interfaces
  (locales) that several components implement.

  A byte buffer is a list of \<open>8 word\<close>; an access outside of it is the value \<open>Fault\<close>, so that
  memory safety is a theorem about the model and not a convention. \<open>size_t\<close> is a \<open>nat\<close>, and a
  subtraction of two of them is written \<open>size_sub\<close>, which wraps at \<open>2 ^ 32\<close> as the 32-bit
  target does.
\<close>

section \<open>Machine types and results\<close>

type_synonym u8 = "8 word"
type_synonym u16 = "16 word"
type_synonym u32 = "32 word"
type_synonym u64 = "64 word"
type_synonym cstring = "u8 list"

named_theorems res_simps "equations of the result type"
named_theorems buf_simps "equations of buffer reads and writes"

datatype ('e, 'a) res = Ok 'a | Err 'e | Fault

text \<open>Code without error values of its own: it delivers or touches memory it must not.\<close>

type_synonym 'a mem = "(unit, 'a) res"

fun rbind :: "('e, 'a) res \<Rightarrow> ('a \<Rightarrow> ('e, 'b) res) \<Rightarrow> ('e, 'b) res" where
  "rbind (Ok x) f = f x"
| "rbind (Err e) f = Err e"
| "rbind Fault f = Fault"

lemma rbind_eq_Ok [res_simps]: "rbind m f = Ok y \<longleftrightarrow> (\<exists>x. m = Ok x \<and> f x = Ok y)"
  by (cases m) auto

lemma rbind_eq_Fault [res_simps]:
  "rbind m f = Fault \<longleftrightarrow> m = Fault \<or> (\<exists>x. m = Ok x \<and> f x = Fault)"
  by (cases m) auto

lemma rbind_eq_Err [res_simps]:
  "rbind m f = Err e \<longleftrightarrow> m = Err e \<or> (\<exists>x. m = Ok x \<and> f x = Err e)"
  by (cases m) auto

text \<open>A \<open>for\<close> loop whose body may fail.\<close>

fun rfold :: "('a \<Rightarrow> 's \<Rightarrow> ('e, 's) res) \<Rightarrow> 'a list \<Rightarrow> 's \<Rightarrow> ('e, 's) res" where
  "rfold f [] s = Ok s"
| "rfold f (x # xs) s = rbind (f x s) (rfold f xs)"

lemma rfold_append: "rfold f (xs @ ys) s = rbind (rfold f xs s) (rfold f ys)"
proof (induction xs arbitrary: s)
  case (Cons x xs)
  then show ?case by (cases "f x s") simp_all
qed simp

lemma rfold_map: "rfold f (map g xs) = rfold (\<lambda>x. f (g x)) xs"
proof (induction xs)
  case (Cons x xs)
  show ?case by (rule ext) (simp add: Cons)
qed (simp add: fun_eq_iff)

lemma rfold_nested: "rfold (\<lambda>x. rfold f (g x)) xs s = rfold f (concat (map g xs)) s"
proof (induction xs arbitrary: s)
  case (Cons x xs)
  then have "rfold (\<lambda>x. rfold f (g x)) xs = rfold f (concat (map g xs))" by (simp add: fun_eq_iff)
  then show ?case by (simp add: rfold_append)
qed simp

lemma rbind_neq_Fault:
  "m \<noteq> Fault \<Longrightarrow> (\<And>x. m = Ok x \<Longrightarrow> f x \<noteq> Fault) \<Longrightarrow> rbind m f \<noteq> Fault"
  by (cases m) auto

section \<open>\<open>size_t\<close> arithmetic and buffers\<close>

definition size_sub :: "nat \<Rightarrow> nat \<Rightarrow> nat" where
  "size_sub a b = (if b \<le> a then a - b else a + 2 ^ 32 - b)"

lemma size_sub_le [simp]: "b \<le> a \<Longrightarrow> size_sub a b = a - b"
  by (simp add: size_sub_def)

definition byte_at :: "u8 list \<Rightarrow> nat \<Rightarrow> ('e, u8) res" where
  "byte_at data i = (if i < length data then Ok (data ! i) else Fault)"

definition bytes_at :: "u8 list \<Rightarrow> nat \<Rightarrow> nat \<Rightarrow> ('e, u8 list) res" where
  "bytes_at data off n = (if off + n \<le> length data then Ok (take n (drop off data)) else Fault)"

lemma byte_at_Ok [buf_simps]: "i < length data \<Longrightarrow> byte_at data i = Ok (data ! i)"
  by (simp add: byte_at_def)

lemma bytes_at_Ok [buf_simps]: "off + n \<le> length data \<Longrightarrow> bytes_at data off n = Ok (take n (drop off data))"
  by (simp add: bytes_at_def)

lemma byte_at_eq_Fault: "byte_at data i = Fault \<longleftrightarrow> length data \<le> i"
  by (simp add: byte_at_def not_less)

lemma bytes_at_eq_Fault: "bytes_at data off n = Fault \<longleftrightarrow> length data < off + n"
  by (simp add: bytes_at_def not_le)

lemma byte_at_not_Err [simp]: "byte_at data i \<noteq> Err e" "bytes_at data off n \<noteq> Err e"
  by (simp_all add: byte_at_def bytes_at_def)

text \<open>\<open>memcpy\<close> of \<open>bs\<close> into \<open>data\<close> at \<open>off\<close>, for a target that lies inside the buffer.\<close>

definition buf_write :: "u8 list \<Rightarrow> nat \<Rightarrow> u8 list \<Rightarrow> u8 list" where
  "buf_write data off bs = take off data @ bs @ drop (off + length bs) data"

lemma length_buf_write [simp]:
  "off + length bs \<le> length data \<Longrightarrow> length (buf_write data off bs) = length data"
  by (simp add: buf_write_def)

lemma drop_buf_write [buf_simps]:
  "off + length bs \<le> c \<Longrightarrow> c \<le> length data \<Longrightarrow> drop c (buf_write data off bs) = drop c data"
  by (simp add: buf_write_def)

lemma take_buf_write [buf_simps]:
  "off + length bs \<le> length data \<Longrightarrow> take (off + length bs) (buf_write data off bs) = take off data @ bs"
  by (simp add: buf_write_def)

lemma buf_write_Nil [simp]: "buf_write data off [] = data"
  by (simp add: buf_write_def)

section \<open>C strings\<close>

text \<open>
  A C string is the list of its bytes before the terminator. \<open>cstr\<close> is what a reader of a
  \<open>char\<close> array sees of it; \<open>bytes_of\<close> turns a literal of the source into bytes.
\<close>

definition cstr :: "u8 list \<Rightarrow> cstring" where
  "cstr bs = takeWhile (\<lambda>b. b \<noteq> 0) bs"

definition bytes_of :: "string \<Rightarrow> cstring" where
  "bytes_of s = map of_char s"

definition c_tolower :: "u8 \<Rightarrow> u8" where
  "c_tolower c = (if 65 \<le> c \<and> c \<le> 90 then c + 32 else c)"

definition strcaseeq :: "cstring \<Rightarrow> cstring \<Rightarrow> bool" where
  "strcaseeq a b \<longleftrightarrow> map c_tolower a = map c_tolower b"

text \<open>\<open>snprintf\<close> into a buffer: the text as far as it fits.\<close>

definition slash :: u8 where "slash = 47"

definition snprintf :: "nat \<Rightarrow> cstring \<Rightarrow> cstring" where
  "snprintf out_size s = take (out_size - 1) s"

lemma cstr_id: "0 \<notin> set bs \<Longrightarrow> cstr bs = bs"
  by (auto simp: cstr_def takeWhile_eq_all_conv)

lemma cstr_no_nul [simp]: "0 \<notin> set (cstr bs)"
  by (auto simp: cstr_def dest: set_takeWhileD)

lemma cstr_cstr [simp]: "cstr (cstr bs) = cstr bs"
  by (simp add: cstr_id)

lemma strcaseeq_refl [simp]: "strcaseeq a a"
  and strcaseeq_sym: "strcaseeq a b \<Longrightarrow> strcaseeq b a"
  and strcaseeq_trans: "strcaseeq a b \<Longrightarrow> strcaseeq b c \<Longrightarrow> strcaseeq a c"
  by (auto simp: strcaseeq_def)

lemma strcaseeq_length: "strcaseeq a b \<Longrightarrow> length a = length b"
  by (auto simp: strcaseeq_def dest: map_eq_imp_length_eq)

section \<open>First-match scans\<close>

text \<open>
  The loop \<open>for (i = 0; i < N; ++i) if (P (xs[i])) return i;\<close> over a fixed array.
\<close>

fun find_idx :: "('a \<Rightarrow> bool) \<Rightarrow> 'a list \<Rightarrow> nat option" where
  "find_idx P [] = None"
| "find_idx P (x # xs) = (if P x then Some 0 else map_option Suc (find_idx P xs))"

lemma find_idx_None [simp]: "find_idx P xs = None \<longleftrightarrow> (\<forall>x \<in> set xs. \<not> P x)"
  by (induction xs) auto

lemma find_idx_SomeD:
  "find_idx P xs = Some i \<Longrightarrow> i < length xs \<and> P (xs ! i) \<and> (\<forall>j < i. \<not> P (xs ! j))"
proof (induction xs arbitrary: i)
  case Nil
  then show ?case by simp
next
  case (Cons x xs)
  show ?case
  proof (cases "P x")
    case True
    with Cons.prems show ?thesis by simp
  next
    case False
    with Cons.prems obtain k where "find_idx P xs = Some k" "i = Suc k" by auto
    with Cons.IH[of k] False show ?thesis by (auto simp: nth_Cons split: nat.splits)
  qed
qed

lemma find_idx_SomeI:
  "i < length xs \<Longrightarrow> P (xs ! i) \<Longrightarrow> (\<And>j. j < i \<Longrightarrow> \<not> P (xs ! j)) \<Longrightarrow> find_idx P xs = Some i"
proof (induction xs arbitrary: i)
  case Nil
  then show ?case by simp
next
  case (Cons x xs)
  show ?case
  proof (cases i)
    case 0
    with Cons.prems show ?thesis by simp
  next
    case (Suc k)
    have "\<not> P x" using Cons.prems(3)[of 0] Suc by simp
    moreover have "\<not> P (xs ! j)" if "j < k" for j
      using Cons.prems(3)[of "Suc j"] that Suc by simp
    with Cons.prems Suc have "find_idx P xs = Some k"
      by (intro Cons.IH) auto
    ultimately show ?thesis using Suc by simp
  qed
qed

section \<open>Interfaces\<close>

text \<open>
  A component whose operations are events on a state and that keeps an invariant: whatever
  sequence of events a client issues, the invariant holds afterwards.
\<close>

locale invariant_machine =
  fixes step :: "'e \<Rightarrow> 's \<Rightarrow> 's" and inv :: "'s \<Rightarrow> bool"
  assumes step_inv: "inv s \<Longrightarrow> inv (step e s)"
begin

lemma run_inv: "inv s \<Longrightarrow> inv (fold step es s)"
  by (induction es arbitrary: s) (auto intro: step_inv)

lemma run_append_inv: "inv (fold step es s) \<Longrightarrow> inv (fold step (es @ es') s)"
  by (simp add: run_inv)

end

text \<open>
  A fixed array of slots whose index is the handle of an object: how sockets, searches and
  publishers are kept. An allocation takes the first slot not in use, or fails and leaves the
  objects alone; a release frees one slot.
\<close>

definition live_slots :: "('a \<Rightarrow> bool) \<Rightarrow> 'a list \<Rightarrow> nat set" where
  "live_slots used xs = {j. j < length xs \<and> used (xs ! j)}"

lemma finite_live_slots [simp]: "finite (live_slots used xs)"
  by (simp add: live_slots_def)

lemma card_live_slots: "card (live_slots used xs) \<le> length xs"
proof -
  have "live_slots used xs \<subseteq> {..<length xs}" by (auto simp: live_slots_def)
  from card_mono[OF _ this] show ?thesis by simp
qed

locale slot_table =
  fixes used :: "'a \<Rightarrow> bool"
    and slots :: "'s \<Rightarrow> 'a list"
    and alloc :: "'v \<Rightarrow> 's \<Rightarrow> nat option \<times> 's"
    and release :: "nat \<Rightarrow> 's \<Rightarrow> 's"
  assumes alloc_Some: "alloc v s = (Some i, s') \<Longrightarrow>
      find_idx (\<lambda>x. \<not> used x) (slots s) = Some i \<and> length (slots s') = length (slots s) \<and>
      used (slots s' ! i) \<and> (\<forall>j < length (slots s). j \<noteq> i \<longrightarrow> slots s' ! j = slots s ! j)"
    and alloc_None: "alloc v s = (None, s') \<Longrightarrow> length (slots s') = length (slots s) \<and>
      (\<forall>j < length (slots s). (used (slots s ! j) \<longrightarrow> slots s' ! j = slots s ! j) \<and>
        (\<not> used (slots s ! j) \<longrightarrow> \<not> used (slots s' ! j)))"
    and release_slots: "length (slots (release i s)) = length (slots s) \<and>
      (\<forall>j < length (slots s). j \<noteq> i \<longrightarrow> slots (release i s) ! j = slots s ! j)"
    and release_unused: "i < length (slots s) \<Longrightarrow> \<not> used (slots (release i s) ! i)"
begin

lemma alloc_fresh:
  assumes "alloc v s = (Some i, s')"
  shows "i \<notin> live_slots used (slots s)" and "live_slots used (slots s') = insert i (live_slots used (slots s))"
proof -
  note A = alloc_Some[OF assms]
  note F = find_idx_SomeD[OF conjunct1[OF A]]
  from F show "i \<notin> live_slots used (slots s)" by (simp add: live_slots_def)
  show "live_slots used (slots s') = insert i (live_slots used (slots s))"
  proof (rule set_eqI)
    fix j
    show "j \<in> live_slots used (slots s') \<longleftrightarrow> j \<in> insert i (live_slots used (slots s))"
      using A F by (cases "j = i") (auto simp: live_slots_def)
  qed
qed

lemma alloc_keeps_objects:
  "alloc v s = (r, s') \<Longrightarrow> j \<in> live_slots used (slots s) \<Longrightarrow> slots s' ! j = slots s ! j"
proof (cases r)
  case None
  assume a: "alloc v s = (r, s')" "j \<in> live_slots used (slots s)"
  with alloc_None[of v s s'] None show ?thesis by (auto simp: live_slots_def)
next
  case (Some i)
  assume a: "alloc v s = (r, s')" "j \<in> live_slots used (slots s)"
  with Some alloc_fresh(1)[of v s i s'] have "j \<noteq> i" by auto
  with alloc_Some[of v s i s'] a Some show ?thesis by (auto simp: live_slots_def)
qed

lemma alloc_failed: "alloc v s = (None, s') \<Longrightarrow> live_slots used (slots s') = live_slots used (slots s)"
  using alloc_None[of v s s'] by (auto simp: live_slots_def)

lemma release_live: "live_slots used (slots (release i s)) = live_slots used (slots s) - {i}"
proof (rule set_eqI)
  fix j
  show "j \<in> live_slots used (slots (release i s)) \<longleftrightarrow> j \<in> live_slots used (slots s) - {i}"
    using release_slots[of i s] release_unused[of i s] by (cases "j = i") (auto simp: live_slots_def)
qed

lemma alloc_full_fails:
  assumes "live_slots used (slots s) = {..<length (slots s)}"
  shows "fst (alloc v s) = None"
proof (cases "fst (alloc v s)")
  case (Some i)
  with alloc_Some[of v s i "snd (alloc v s)"] have "find_idx (\<lambda>x. \<not> used x) (slots s) = Some i"
    by (metis prod.collapse)
  with find_idx_SomeD[OF this] assms show ?thesis by (auto simp: live_slots_def set_eq_iff)
qed simp

end

section \<open>Word and arithmetic facts\<close>

lemma unat_u8: "unat b < 256" for b :: u8
  using unsigned_less[of b, where 'a = nat] by simp

lemma unat_u16: "unat b < 65536" for b :: u16
  using unsigned_less[of b, where 'a = nat] by simp

lemma unat_u32: "unat b < 4294967296" for b :: u32
  using unsigned_less[of b, where 'a = nat] by simp

definition clamp :: "int \<Rightarrow> int \<Rightarrow> int \<Rightarrow> int" where
  "clamp lo hi v = (if v < lo then lo else if v > hi then hi else v)"

lemma clamp_bounds: "lo \<le> hi \<Longrightarrow> lo \<le> clamp lo hi v \<and> clamp lo hi v \<le> hi"
  by (simp add: clamp_def)

text \<open>Integer division of C: the quotient is truncated towards zero.\<close>

definition c_div :: "int \<Rightarrow> int \<Rightarrow> int" where
  "c_div a b = sgn a * sgn b * (\<bar>a\<bar> div \<bar>b\<bar>)"

lemma c_div_nonneg: "0 \<le> a \<Longrightarrow> 0 < b \<Longrightarrow> c_div a b = a div b"
  by (cases "a = 0") (simp_all add: c_div_def)

lemma c_div_neg: "a < 0 \<Longrightarrow> 0 < b \<Longrightarrow> c_div a b = - ((- a) div b)"
  by (simp add: c_div_def)

text \<open>The conversion to a 32-bit signed integer.\<close>

definition i32 :: "int \<Rightarrow> int" where
  "i32 x = (x + 2 ^ 31) mod 2 ^ 32 - 2 ^ 31"

lemma i32_id: "- (2 ^ 31) \<le> x \<Longrightarrow> x < 2 ^ 31 \<Longrightarrow> i32 x = x"
  by (simp add: i32_def)

lemma i32_bounds: "- (2 ^ 31) \<le> i32 x \<and> i32 x < 2 ^ 31"
  by (simp add: i32_def)

end
