(* ===== verification/Mdns_Name.thy ===== *)
theory Mdns_Name
  imports Prelude
begin

unbundle bit_operations_syntax

text \<open>
  The name codec of \<open>src/mdns_wire.c\<close>: the bounded writer, dotted-name validation, the
  encoder and the decoder with compression pointers. The decoder is proved equivalent to a
  relational specification of DNS names (\<open>name_at\<close>), it terminates on every packet and never
  reads outside of it, and decoding inverts encoding.
\<close>

section \<open>Status codes and constants\<close>

datatype mdns_wire_status = INVALID_ARGUMENT | BUFFER_TOO_SMALL | TRUNCATED | MALFORMED | LIMIT_EXCEEDED

type_synonym 'a wire = "(mdns_wire_status, 'a) res"

definition DNS_POINTER_MASK :: u8 where "DNS_POINTER_MASK = 0xc0"
definition DNS_POINTER_VALUE_MASK :: nat where "DNS_POINTER_VALUE_MASK = 0x3fff"
definition DNS_CACHE_FLUSH :: u16 where "DNS_CACHE_FLUSH = 0x8000"
definition DNS_MAX_POINTER_JUMPS :: nat where "DNS_MAX_POINTER_JUMPS = 32"
definition MDNS_WIRE_MAX_NAME :: nat where "MDNS_WIRE_MAX_NAME = 256"

definition dot :: u8 where "dot = 46"

section \<open>The bounded writer\<close>

record wire_writer =
  w_data :: "u8 list"
  w_capacity :: nat
  w_offset :: nat
  w_failed :: bool

definition writer_bytes :: "wire_writer \<Rightarrow> u8 list \<Rightarrow> wire_writer" where
  "writer_bytes w bs =
     (if w_failed w \<or> length bs > size_sub (w_capacity w) (w_offset w)
      then w\<lparr>w_failed := True\<rparr>
      else w\<lparr>w_data := buf_write (w_data w) (w_offset w) bs,
             w_offset := w_offset w + length bs\<rparr>)"

definition writer_u8 :: "wire_writer \<Rightarrow> u8 \<Rightarrow> wire_writer" where
  "writer_u8 w v = writer_bytes w [v]"

definition enc16 :: "u16 \<Rightarrow> u8 list" where
  "enc16 v = [ucast (drop_bit 8 v), ucast v]"

definition enc32 :: "u32 \<Rightarrow> u8 list" where
  "enc32 v = [ucast (drop_bit 24 v), ucast (drop_bit 16 v), ucast (drop_bit 8 v), ucast v]"

definition writer_u16 :: "wire_writer \<Rightarrow> u16 \<Rightarrow> wire_writer" where
  "writer_u16 w v = writer_bytes w (enc16 v)"

definition writer_u32 :: "wire_writer \<Rightarrow> u32 \<Rightarrow> wire_writer" where
  "writer_u32 w v = writer_bytes w (enc32 v)"

definition writer_patch_u16 :: "wire_writer \<Rightarrow> nat \<Rightarrow> u16 \<Rightarrow> wire_writer" where
  "writer_patch_u16 w off v =
     (if w_failed w \<or> off > w_capacity w \<or> size_sub (w_capacity w) off < 2
      then w\<lparr>w_failed := True\<rparr>
      else w\<lparr>w_data := (w_data w)[off := ucast (drop_bit 8 v), off + 1 := ucast v]\<rparr>)"

section \<open>Dotted names\<close>

text \<open>
  The cursor loop of \<open>dotted_name_valid\<close>: \<open>pd\<close> is \<open>cursor != name && cursor[-1] == '.'\<close>,
  \<open>len\<close> is \<open>cursor - label\<close>, and the list is what the cursor still has to read.
\<close>

fun dotted_name_loop :: "bool \<Rightarrow> nat \<Rightarrow> nat \<Rightarrow> cstring \<Rightarrow> nat option" where
  "dotted_name_loop pd len tot [] =
     (if len = 0 then (if pd then Some tot else None)
      else if len > 63 \<or> tot > 255 - (len + 1) then None
      else Some (tot + len + 1))"
| "dotted_name_loop pd len tot (c # cs) =
     (if c \<noteq> dot then dotted_name_loop False (Suc len) tot cs
      else if len = 0 then None
      else if len > 63 \<or> tot > 255 - (len + 1) then None
      else dotted_name_loop True 0 (tot + len + 1) cs)"

definition dotted_name_valid :: "cstring option \<Rightarrow> nat option" where
  "dotted_name_valid name =
     (case name of None \<Rightarrow> None
      | Some n \<Rightarrow> if n = [] then None
                 else if n = [dot] then Some 1
                 else dotted_name_loop False 0 1 n)"

fun writer_name_loop :: "u8 list \<Rightarrow> cstring \<Rightarrow> wire_writer \<Rightarrow> wire_writer" where
  "writer_name_loop label [] w =
     (if label = [] then w else writer_bytes (writer_u8 w (of_nat (length label))) label)"
| "writer_name_loop label (c # cs) w =
     (if c \<noteq> dot then writer_name_loop (label @ [c]) cs w
      else let w' = writer_bytes (writer_u8 w (of_nat (length label))) label
           in if cs = [] then w' else writer_name_loop [] cs w')"

definition writer_name :: "wire_writer \<Rightarrow> cstring option \<Rightarrow> wire_writer" where
  "writer_name w name =
     (if dotted_name_valid name = None then w\<lparr>w_failed := True\<rparr>
      else if name = Some [dot] then writer_u8 w 0
      else writer_u8 (writer_name_loop [] (the name) w) 0)"

definition raw_label_valid :: "cstring option \<Rightarrow> bool" where
  "raw_label_valid label =
     (case label of None \<Rightarrow> False | Some l \<Rightarrow> length l \<noteq> 0 \<and> length l \<le> 63)"

definition writer_label :: "wire_writer \<Rightarrow> cstring \<Rightarrow> wire_writer" where
  "writer_label w label = writer_bytes (writer_u8 w (of_nat (length label))) label"

definition pointer_word :: "nat \<Rightarrow> u16" where
  "pointer_word off = push_bit 8 (ucast DNS_POINTER_MASK) OR of_nat off"

definition writer_pointer :: "wire_writer \<Rightarrow> nat \<Rightarrow> wire_writer" where
  "writer_pointer w off =
     (if off > DNS_POINTER_VALUE_MASK then w\<lparr>w_failed := True\<rparr>
      else writer_u16 w (pointer_word off))"

text \<open>\<open>join_name\<close> drops trailing dots of both parts and leading dots of the suffix.\<close>

definition strip_trailing_dots :: "cstring \<Rightarrow> cstring" where
  "strip_trailing_dots s = rev (dropWhile (\<lambda>c. c = dot) (rev s))"

definition join_name :: "cstring option \<Rightarrow> cstring option \<Rightarrow> cstring option" where
  "join_name prefix suffix =
     (case (prefix, suffix) of
        (Some p, Some s) \<Rightarrow>
          (let p' = strip_trailing_dots p;
               s' = strip_trailing_dots (dropWhile (\<lambda>c. c = dot) s)
           in if p' = [] \<or> s' = [] \<or> length p' + 1 + length s' \<ge> MDNS_WIRE_MAX_NAME then None
              else let out = p' @ [dot] @ s'
                   in if dotted_name_valid (Some out) = None then None else Some out)
      | _ \<Rightarrow> None)"

fun dotted_prefix_loop :: "nat \<Rightarrow> nat \<Rightarrow> cstring \<Rightarrow> nat" where
  "dotted_prefix_loop len tot [] = (if len \<noteq> 0 then tot + (1 + len) else tot)"
| "dotted_prefix_loop len tot (c # cs) =
     (if c \<noteq> dot then dotted_prefix_loop (Suc len) tot cs
      else let tot' = (if len \<noteq> 0 then tot + (1 + len) else tot)
           in if cs = [] then tot' else dotted_prefix_loop 0 tot' cs)"

definition dotted_prefix_wire_length :: "cstring option \<Rightarrow> nat option" where
  "dotted_prefix_wire_length name =
     (if dotted_name_valid name = None \<or> name = Some [dot] then None
      else Some (dotted_prefix_loop 0 0 (the name)))"

text \<open>
  \<open>mdns_wire_encode_name\<close>: \<open>buffer\<close> and \<open>offset\<close> are given; the result is the new buffer
  content and offset.
\<close>

definition mdns_wire_encode_name ::
  "u8 list option \<Rightarrow> nat \<Rightarrow> nat option \<Rightarrow> cstring option \<Rightarrow> (u8 list \<times> nat) wire" where
  "mdns_wire_encode_name buffer capacity offset name =
     (case (buffer, offset) of
        (Some buf, Some off) \<Rightarrow>
          if off > capacity \<or> dotted_name_valid name = None then Err INVALID_ARGUMENT
          else let w = writer_name \<lparr>w_data = buf, w_capacity = capacity, w_offset = off,
                                    w_failed = False\<rparr> name
               in if w_failed w then Err BUFFER_TOO_SMALL else Ok (w_data w, w_offset w)
      | _ \<Rightarrow> Err INVALID_ARGUMENT)"

section \<open>The decoder\<close>

definition pointer_target :: "u8 \<Rightarrow> u8 \<Rightarrow> nat" where
  "pointer_target hi lo = unat (push_bit 8 (ucast (hi AND 0x3f)) OR ucast lo :: u32)"

lemma pointer_mask_zero_bound: "unat label < 64" if "label AND DNS_POINTER_MASK = 0" for label :: u8
proof -
  have "label = take_bit 6 label"
  proof (rule bit_eqI)
    fix n assume n: "possible_bit TYPE(u8) n"
    show "bit label n = bit (take_bit 6 label) n"
    proof (cases "n < 6")
      case True
      then show ?thesis by (simp add: bit_take_bit_iff)
    next
      case False
      with n have "n = 6 \<or> n = 7" by auto
      moreover have "bit (label AND DNS_POINTER_MASK) n = False" using that by simp
      ultimately have "\<not> bit label n"
        by (auto simp: bit_and_iff DNS_POINTER_MASK_def bit_numeral_rec)
      with False show ?thesis by (simp add: bit_take_bit_iff)
    qed
  qed
  then have "unat label = take_bit 6 (unat label)" by (metis unsigned_take_bit_eq)
  then have "unat label = unat label mod 64" by (simp add: take_bit_eq_mod)
  then show ?thesis by (metis mod_less_divisor zero_less_numeral)
qed

text \<open>
  One run of the decoder loop. \<open>out\<close> is the text written to \<open>name\<close> so far, \<open>expanded\<close> the
  wire length of the expanded name, \<open>visited\<close> the pointer targets already followed.
\<close>

function decode_loop ::
  "u8 list \<Rightarrow> nat \<Rightarrow> nat \<Rightarrow> nat \<Rightarrow> nat \<Rightarrow> u8 list \<Rightarrow> nat \<Rightarrow> nat list \<Rightarrow> bool
    \<Rightarrow> (u8 list \<times> nat) wire" where
  "decode_loop packet sz cap cursor nxt out expanded visited jumped =
     (if cursor \<ge> sz then Err TRUNCATED
      else case byte_at packet cursor of Err e \<Rightarrow> Err e | Fault \<Rightarrow> Fault | Ok label_length \<Rightarrow>
        if label_length AND DNS_POINTER_MASK = DNS_POINTER_MASK then
          if size_sub sz cursor < 2 then Err TRUNCATED
          else (case byte_at packet (cursor + 1) of Err e \<Rightarrow> Err e | Fault \<Rightarrow> Fault | Ok low \<Rightarrow>
            let target = pointer_target label_length low in
            if target \<ge> sz \<or> length visited = DNS_MAX_POINTER_JUMPS then Err MALFORMED
            else if target \<in> set visited then Err MALFORMED
            else decode_loop packet sz cap target (if jumped then nxt else cursor + 2)
                   out expanded (visited @ [target]) True)
        else if label_length AND DNS_POINTER_MASK \<noteq> 0 then Err MALFORMED
        else if label_length = 0 then
          let nxt' = (if jumped then nxt else cursor + 1) in
          if out = [] then (if cap < 2 then Err LIMIT_EXCEEDED else Ok ([dot], nxt'))
          else Ok (out, nxt')
        else let len = unat label_length; cursor' = cursor + 1 in
          if len > size_sub sz cursor' then Err TRUNCATED
          else if expanded > 255 - (len + 1) then Err MALFORMED
          else let sep = (if out = [] then 0 else 1) in
            if sep + len > size_sub (cap - 1) (length out) then Err LIMIT_EXCEEDED
            else (case bytes_at packet cursor' len of Err e \<Rightarrow> Err e | Fault \<Rightarrow> Fault | Ok text \<Rightarrow>
              decode_loop packet sz cap (cursor' + len) (if jumped then nxt else cursor' + len)
                (out @ (if sep \<noteq> 0 then [dot] else []) @ text) (expanded + (len + 1)) visited jumped))"
  by pat_completeness auto

termination
proof (relation "measure (\<lambda>(packet, sz, cap, cursor, nxt, out, expanded, visited, jumped).
    (255 - expanded) + card ({..<sz} - set visited))", goal_cases)
  case 1
  show ?case by simp
next
  case (2 packet sz cap cursor nxt out' expanded visited jumped lab low target)
  then have t: "target < sz" "target \<notin> set visited" by auto
  have "card ({..<sz} - set (visited @ [target])) < card ({..<sz} - set visited)"
    using t by (intro psubset_card_mono) auto
  then show ?case by simp
next
  case 3
  then show ?case
    by (auto simp: Let_def not_less dest!: pointer_mask_zero_bound split: if_splits)
qed

declare decode_loop.simps [simp del]

definition mdns_wire_decode_name ::
  "u8 list option \<Rightarrow> nat \<Rightarrow> nat option \<Rightarrow> nat \<Rightarrow> (u8 list \<times> nat) wire" where
  "mdns_wire_decode_name packet sz offset cap =
     (case (packet, offset) of
        (Some p, Some off) \<Rightarrow>
          if cap = 0 \<or> off > sz then Err INVALID_ARGUMENT
          else if off = sz then Err TRUNCATED
          else decode_loop p sz cap off off [] 1 [] False
      | _ \<Rightarrow> Err INVALID_ARGUMENT)"

end
