(* ===== verification/Mdns_Packet.thy ===== *)
theory Mdns_Packet
  imports Mdns_Name
begin

unbundle bit_operations_syntax

text \<open>
  The packet layer of \<open>src/mdns_wire.c\<close> and its data types from \<open>include/mdns_wire.h\<close>: the
  parser of questions and resource records, and the builders of queries and service responses.
  An input pointer that the code tests for \<open>NULL\<close> is an \<open>option\<close>; the output pointers are taken
  to be valid, and an output is part of the result. The tag \<open>data_kind\<close> and the union \<open>data\<close> of a
  record are one datatype.
\<close>

section \<open>Data\<close>

datatype mdns_wire_section = ANSWER | AUTHORITY | ADDITIONAL

record mdns_wire_question =
  q_name :: cstring
  q_type :: u16
  q_class_code :: u16
  q_unicast_response :: bool

datatype mdns_wire_rdata =
    RDATA_NONE
  | RDATA_A "u8 list"
  | RDATA_PTR cstring
  | RDATA_TXT (txt_bytes: "u8 list") (txt_string_count: nat)
  | RDATA_SRV (srv_priority: u16) (srv_weight: u16) (srv_port: u16) (srv_target: cstring)

record mdns_wire_record =
  r_owner :: cstring
  r_section :: mdns_wire_section
  r_type :: u16
  r_class_code :: u16
  r_cache_flush :: bool
  r_ttl :: u32
  r_rdata_length :: u16
  r_data :: mdns_wire_rdata

record mdns_wire_packet =
  p_id :: u16
  p_flags :: u16
  p_declared_question_count :: u16
  p_declared_answer_count :: u16
  p_declared_authority_count :: u16
  p_declared_additional_count :: u16
  p_questions :: "mdns_wire_question list"
  p_records :: "mdns_wire_record list"

definition MDNS_WIRE_HEADER_SIZE :: nat where "MDNS_WIRE_HEADER_SIZE = 12"
definition MDNS_WIRE_MAX_QUESTIONS :: nat where "MDNS_WIRE_MAX_QUESTIONS = 8"
definition MDNS_WIRE_MAX_RECORDS :: nat where "MDNS_WIRE_MAX_RECORDS = 32"
definition MDNS_WIRE_MAX_TXT_BYTES :: nat where "MDNS_WIRE_MAX_TXT_BYTES = 1024"
definition MDNS_WIRE_CLASS_IN :: u16 where "MDNS_WIRE_CLASS_IN = 1"
definition MDNS_WIRE_TYPE_A :: u16 where "MDNS_WIRE_TYPE_A = 1"
definition MDNS_WIRE_TYPE_PTR :: u16 where "MDNS_WIRE_TYPE_PTR = 12"
definition MDNS_WIRE_TYPE_TXT :: u16 where "MDNS_WIRE_TYPE_TXT = 16"
definition MDNS_WIRE_TYPE_SRV :: u16 where "MDNS_WIRE_TYPE_SRV = 33"

lemmas mdns_type_defs = MDNS_WIRE_CLASS_IN_def MDNS_WIRE_TYPE_A_def MDNS_WIRE_TYPE_PTR_def
  MDNS_WIRE_TYPE_TXT_def MDNS_WIRE_TYPE_SRV_def

section \<open>Reading fields\<close>

definition dec16 :: "u8 \<Rightarrow> u8 \<Rightarrow> u16" where
  "dec16 hi lo = push_bit 8 (ucast hi) OR ucast lo"

definition dec32 :: "u8 \<Rightarrow> u8 \<Rightarrow> u8 \<Rightarrow> u8 \<Rightarrow> u32" where
  "dec32 a b c d = push_bit 24 (ucast a) OR push_bit 16 (ucast b) OR push_bit 8 (ucast c) OR ucast d"

definition read_u16 :: "u8 list \<Rightarrow> nat \<Rightarrow> nat \<Rightarrow> (u16 \<times> nat) wire" where
  "read_u16 data sz off =
     (if size_sub sz off < 2 then Err TRUNCATED
      else rbind (byte_at data off) (\<lambda>a. rbind (byte_at data (off + 1)) (\<lambda>b.
        Ok (dec16 a b, off + 2))))"

definition read_u32 :: "u8 list \<Rightarrow> nat \<Rightarrow> nat \<Rightarrow> (u32 \<times> nat) wire" where
  "read_u32 data sz off =
     (if size_sub sz off < 4 then Err TRUNCATED
      else rbind (byte_at data off) (\<lambda>a. rbind (byte_at data (off + 1)) (\<lambda>b.
        rbind (byte_at data (off + 2)) (\<lambda>c. rbind (byte_at data (off + 3)) (\<lambda>d.
        Ok (dec32 a b c d, off + 4))))))"

definition decode_name_at :: "u8 list \<Rightarrow> nat \<Rightarrow> nat \<Rightarrow> (cstring \<times> nat) wire" where
  "decode_name_at data sz off = mdns_wire_decode_name (Some data) sz (Some off) MDNS_WIRE_MAX_NAME"

section \<open>The parser\<close>

definition parse_question :: "u8 list \<Rightarrow> nat \<Rightarrow> nat \<Rightarrow> (mdns_wire_question \<times> nat) wire" where
  "parse_question data sz off =
     rbind (decode_name_at data sz off) (\<lambda>(name, o1).
     rbind (read_u16 data sz o1) (\<lambda>(ty, o2).
     rbind (read_u16 data sz o2) (\<lambda>(raw_class, o3).
     Ok (\<lparr>q_name = name, q_type = ty, q_class_code = raw_class AND NOT DNS_CACHE_FLUSH,
          q_unicast_response = (raw_class AND DNS_CACHE_FLUSH \<noteq> 0)\<rparr>, o3))))"

function parse_txt_loop :: "u8 list \<Rightarrow> nat \<Rightarrow> nat \<Rightarrow> nat \<Rightarrow> nat wire" where
  "parse_txt_loop data endp cursor cnt =
     (if cursor < endp then
        (case byte_at data cursor of Err e \<Rightarrow> Err e | Fault \<Rightarrow> Fault | Ok b \<Rightarrow>
           (let n = unat b; cursor' = cursor + 1 in
            if n > size_sub endp cursor' then Err MALFORMED
            else parse_txt_loop data endp (cursor' + n) (cnt + 1)))
      else Ok cnt)"
  by pat_completeness auto
termination
  by (relation "measure (\<lambda>(data, endp, cursor, cnt). endp - cursor)") auto

declare parse_txt_loop.simps [simp del]

definition parse_txt :: "u8 list \<Rightarrow> nat \<Rightarrow> nat \<Rightarrow> mdns_wire_rdata wire" where
  "parse_txt data start endp =
     (let len = size_sub endp start in
      if len > MDNS_WIRE_MAX_TXT_BYTES then Err LIMIT_EXCEEDED
      else rbind (parse_txt_loop data endp start 0) (\<lambda>cnt.
        if cnt > 65535 then Err LIMIT_EXCEEDED
        else rbind (bytes_at data start len) (\<lambda>bs. Ok (RDATA_TXT bs cnt))))"

text \<open>The \<open>switch (record->type)\<close> of \<open>parse_record\<close>.\<close>

definition parse_rdata :: "u8 list \<Rightarrow> nat \<Rightarrow> u16 \<Rightarrow> nat \<Rightarrow> nat \<Rightarrow> mdns_wire_rdata wire" where
  "parse_rdata data sz ty rdlen start =
     (let endp = start + rdlen in
      if ty = MDNS_WIRE_TYPE_A then
        (if rdlen \<noteq> 4 then Err MALFORMED else rbind (bytes_at data start 4) (\<lambda>bs. Ok (RDATA_A bs)))
      else if ty = MDNS_WIRE_TYPE_PTR then
        rbind (decode_name_at data sz start) (\<lambda>(target, o1).
          if o1 \<noteq> endp then Err MALFORMED else Ok (RDATA_PTR target))
      else if ty = MDNS_WIRE_TYPE_TXT then parse_txt data start endp
      else if ty = MDNS_WIRE_TYPE_SRV then
        (if rdlen < 7 then Err MALFORMED
         else rbind (read_u16 data endp start) (\<lambda>(priority, o1).
           rbind (read_u16 data endp o1) (\<lambda>(weight, o2).
           rbind (read_u16 data endp o2) (\<lambda>(port, o3).
           rbind (decode_name_at data sz o3) (\<lambda>(target, o4).
             if o4 \<noteq> endp then Err MALFORMED else Ok (RDATA_SRV priority weight port target))))))
      else Ok RDATA_NONE)"

definition parse_record ::
  "u8 list \<Rightarrow> nat \<Rightarrow> mdns_wire_section \<Rightarrow> nat \<Rightarrow> (mdns_wire_record \<times> nat) wire" where
  "parse_record data sz section off =
     rbind (decode_name_at data sz off) (\<lambda>(owner, o1).
     rbind (read_u16 data sz o1) (\<lambda>(ty, o2).
     rbind (read_u16 data sz o2) (\<lambda>(raw_class, o3).
     rbind (read_u32 data sz o3) (\<lambda>(ttl, o4).
     rbind (read_u16 data sz o4) (\<lambda>(rdlen, start).
       if unat rdlen > size_sub sz start then Err TRUNCATED
       else rbind (parse_rdata data sz ty (unat rdlen) start) (\<lambda>rd.
         Ok (\<lparr>r_owner = owner, r_section = section, r_type = ty,
              r_class_code = raw_class AND NOT DNS_CACHE_FLUSH,
              r_cache_flush = (raw_class AND DNS_CACHE_FLUSH \<noteq> 0),
              r_ttl = ttl, r_rdata_length = rdlen, r_data = rd\<rparr>, start + unat rdlen)))))))"

text \<open>
  The two counting loops of \<open>mdns_wire_parse_packet\<close>: every declared entry is parsed, and the
  entries beyond the capacity of the packet are discarded.
\<close>

fun parse_questions ::
  "nat \<Rightarrow> u8 list \<Rightarrow> nat \<Rightarrow> nat \<Rightarrow> mdns_wire_question list \<Rightarrow> (mdns_wire_question list \<times> nat) wire" where
  "parse_questions 0 data sz off qs = Ok (qs, off)"
| "parse_questions (Suc n) data sz off qs =
     rbind (parse_question data sz off) (\<lambda>(q, off').
       parse_questions n data sz off' (if length qs < MDNS_WIRE_MAX_QUESTIONS then qs @ [q] else qs))"

fun parse_records ::
  "nat \<Rightarrow> u8 list \<Rightarrow> nat \<Rightarrow> mdns_wire_section \<Rightarrow> nat \<Rightarrow> mdns_wire_record list
    \<Rightarrow> (mdns_wire_record list \<times> nat) wire" where
  "parse_records 0 data sz section off rs = Ok (rs, off)"
| "parse_records (Suc n) data sz section off rs =
     rbind (parse_record data sz section off) (\<lambda>(r, off').
       parse_records n data sz section off' (if length rs < MDNS_WIRE_MAX_RECORDS then rs @ [r] else rs))"

definition mdns_wire_parse_packet :: "u8 list option \<Rightarrow> nat \<Rightarrow> mdns_wire_packet wire" where
  "mdns_wire_parse_packet data_ptr sz =
     (case data_ptr of None \<Rightarrow> Err INVALID_ARGUMENT
      | Some data \<Rightarrow>
        if sz < MDNS_WIRE_HEADER_SIZE then Err TRUNCATED
        else
          rbind (read_u16 data sz 0) (\<lambda>(pid, o1).
          rbind (read_u16 data sz o1) (\<lambda>(flags, o2).
          rbind (read_u16 data sz o2) (\<lambda>(qd, o3).
          rbind (read_u16 data sz o3) (\<lambda>(an, o4).
          rbind (read_u16 data sz o4) (\<lambda>(ns, o5).
          rbind (read_u16 data sz o5) (\<lambda>(ar, o6).
          rbind (parse_questions (unat qd) data sz o6 []) (\<lambda>(qs, o7).
          rbind (parse_records (unat an) data sz ANSWER o7 []) (\<lambda>(rs1, o8).
          rbind (parse_records (unat ns) data sz AUTHORITY o8 rs1) (\<lambda>(rs2, o9).
          rbind (parse_records (unat ar) data sz ADDITIONAL o9 rs2) (\<lambda>(rs3, o10).
            Ok \<lparr>p_id = pid, p_flags = flags, p_declared_question_count = qd,
                p_declared_answer_count = an, p_declared_authority_count = ns,
                p_declared_additional_count = ar, p_questions = qs, p_records = rs3\<rparr>)))))))))))"

text \<open>\<open>mdns_wire_txt_at\<close>: the string is the slice of \<open>bytes\<close> that the code points to.\<close>

function txt_at_loop :: "u8 list \<Rightarrow> nat \<Rightarrow> nat \<Rightarrow> nat \<Rightarrow> u8 list option" where
  "txt_at_loop bs index current off =
     (if current \<le> index then
        (if off \<ge> length bs then None
         else let n = unat (bs ! off); off' = off + 1 in
           if n > length bs - off' then None
           else if current = index then Some (take n (drop off' bs))
           else txt_at_loop bs index (current + 1) (off' + n))
      else None)"
  by pat_completeness auto
termination
  by (relation "measure (\<lambda>(bs, index, current, off). Suc index - current)") auto

declare txt_at_loop.simps [simp del]

definition mdns_wire_txt_at :: "mdns_wire_rdata \<Rightarrow> nat \<Rightarrow> u8 list option" where
  "mdns_wire_txt_at rd index =
     (case rd of
        RDATA_TXT bs cnt \<Rightarrow> if index \<ge> cnt then None else txt_at_loop bs index 0 0
      | _ \<Rightarrow> None)"

section \<open>The builders\<close>

definition mdns_wire_build_query ::
  "u8 list option \<Rightarrow> nat \<Rightarrow> cstring option \<Rightarrow> u16 \<Rightarrow> bool \<Rightarrow> (u8 list \<times> nat) wire" where
  "mdns_wire_build_query buffer capacity name ty unicast_response =
     (case buffer of None \<Rightarrow> Err INVALID_ARGUMENT
      | Some buf \<Rightarrow>
        if dotted_name_valid name = None \<or> ty = 0 then Err INVALID_ARGUMENT
        else
          let w0 = \<lparr>w_data = buf, w_capacity = capacity, w_offset = 0, w_failed = False\<rparr>;
              w1 = writer_u16 w0 0; w2 = writer_u16 w1 0; w3 = writer_u16 w2 1;
              w4 = writer_u16 w3 0; w5 = writer_u16 w4 0; w6 = writer_u16 w5 0;
              w7 = writer_name w6 name; w8 = writer_u16 w7 ty;
              w9 = writer_u16 w8 (MDNS_WIRE_CLASS_IN OR (if unicast_response then DNS_CACHE_FLUSH else 0))
          in if w_failed w9 then Err BUFFER_TOO_SMALL else Ok (w_data w9, w_offset w9))"

definition mdns_wire_build_ptr_query ::
  "u8 list option \<Rightarrow> nat \<Rightarrow> cstring option \<Rightarrow> cstring option \<Rightarrow> bool \<Rightarrow> (u8 list \<times> nat) wire" where
  "mdns_wire_build_ptr_query buffer capacity service_type domain unicast_response =
     (case buffer of None \<Rightarrow> Err INVALID_ARGUMENT
      | Some buf \<Rightarrow>
        (case join_name service_type domain of None \<Rightarrow> Err INVALID_ARGUMENT
         | Some service_name \<Rightarrow>
             mdns_wire_build_query (Some buf) capacity (Some service_name) MDNS_WIRE_TYPE_PTR
               unicast_response))"

record mdns_wire_txt_string =
  ts_data :: "u8 list option"
  ts_length :: nat

record mdns_wire_service =
  sv_service_type :: "cstring option"
  sv_domain :: "cstring option"
  sv_instance :: "cstring option"
  sv_host :: "cstring option"
  sv_port :: u16
  sv_ipv4 :: "u8 list"
  sv_txt :: "mdns_wire_txt_string list option"
  sv_txt_count :: nat

record mdns_wire_response_options =
  ro_header_flags :: u16
  ro_ttl :: u32
  ro_cache_flush :: bool
  ro_goodbye :: bool

text \<open>The entries \<open>txt[0] .. txt[txt_count - 1]\<close>, and the bytes one of them points to.\<close>

definition sv_txt_views :: "mdns_wire_service \<Rightarrow> mdns_wire_txt_string list" where
  "sv_txt_views s = (case sv_txt s of None \<Rightarrow> [] | Some ts \<Rightarrow> take (sv_txt_count s) ts)"

definition ts_bytes :: "mdns_wire_txt_string \<Rightarrow> u8 list" where
  "ts_bytes t = (case ts_data t of None \<Rightarrow> [] | Some d \<Rightarrow> take (ts_length t) d)"

fun service_txt_valid :: "nat \<Rightarrow> mdns_wire_txt_string list \<Rightarrow> bool" where
  "service_txt_valid txt_length [] = True"
| "service_txt_valid txt_length (t # ts) =
     (if ts_length t > 255 \<or> (ts_length t \<noteq> 0 \<and> ts_data t = None) \<or>
         txt_length > 65535 - (ts_length t + 1) then False
      else service_txt_valid (txt_length + (ts_length t + 1)) ts)"

definition service_valid :: "mdns_wire_service option \<Rightarrow> bool" where
  "service_valid service =
     (case service of None \<Rightarrow> False
      | Some s \<Rightarrow>
        if \<not> raw_label_valid (sv_instance s) \<or> \<not> raw_label_valid (sv_host s) \<or>
           sv_txt_count s > 65535 \<or> (sv_txt_count s \<noteq> 0 \<and> sv_txt s = None) then False
        else if join_name (sv_service_type s) (sv_domain s) = None then False
        else service_txt_valid 0 (sv_txt_views s))"

definition writer_record_header ::
  "wire_writer \<Rightarrow> u16 \<Rightarrow> u16 \<Rightarrow> u32 \<Rightarrow> wire_writer \<times> nat \<times> nat" where
  "writer_record_header w ty class_code ttl =
     (let w1 = writer_u16 w ty; w2 = writer_u16 w1 class_code; w3 = writer_u32 w2 ttl;
          length_offset = w_offset w3; w4 = writer_u16 w3 0
      in (w4, length_offset, w_offset w4))"

definition writer_finish_record :: "wire_writer \<Rightarrow> nat \<Rightarrow> nat \<Rightarrow> wire_writer" where
  "writer_finish_record w length_offset rdata_offset =
     (if w_failed w \<or> w_offset w < rdata_offset \<or> w_offset w - rdata_offset > 65535
      then w\<lparr>w_failed := True\<rparr>
      else writer_patch_u16 w length_offset (of_nat (w_offset w - rdata_offset)))"

fun writer_txt_strings :: "wire_writer \<Rightarrow> mdns_wire_txt_string list \<Rightarrow> wire_writer" where
  "writer_txt_strings w [] = w"
| "writer_txt_strings w (t # ts) =
     writer_txt_strings (writer_bytes (writer_u8 w (of_nat (ts_length t))) (ts_bytes t)) ts"

definition mdns_wire_build_service_response ::
  "u8 list option \<Rightarrow> nat \<Rightarrow> mdns_wire_service option \<Rightarrow> mdns_wire_response_options option
    \<Rightarrow> (u8 list \<times> nat) wire" where
  "mdns_wire_build_service_response buffer capacity service options =
     (case (buffer, options) of (Some buf, Some opt) \<Rightarrow>
        if \<not> service_valid service then Err INVALID_ARGUMENT
        else let s = the service in
        (case join_name (sv_service_type s) (sv_domain s) of None \<Rightarrow> Err INVALID_ARGUMENT
         | Some service_name \<Rightarrow>
        (case dotted_prefix_wire_length (sv_service_type s) of None \<Rightarrow> Err INVALID_ARGUMENT
         | Some service_prefix_length \<Rightarrow>
           let ttl = (if ro_goodbye opt then 0 else ro_ttl opt);
               unique_class = MDNS_WIRE_CLASS_IN OR (if ro_cache_flush opt then DNS_CACHE_FLUSH else 0);
               w0 = \<lparr>w_data = buf, w_capacity = capacity, w_offset = 0, w_failed = False\<rparr>;
               w1 = writer_u16 w0 0; w2 = writer_u16 w1 (ro_header_flags opt);
               w3 = writer_u16 w2 0; w4 = writer_u16 w3 1;
               w5 = writer_u16 w4 0; w6 = writer_u16 w5 3;
               service_offset = w_offset w6;
               w7 = writer_name w6 (Some service_name);
               domain_offset = service_offset + service_prefix_length;
               (w8, l1, d1) = writer_record_header w7 MDNS_WIRE_TYPE_PTR MDNS_WIRE_CLASS_IN ttl;
               instance_offset = w_offset w8;
               w9 = writer_label w8 (the (sv_instance s));
               w10 = writer_pointer w9 service_offset;
               w11 = writer_finish_record w10 l1 d1;
               w12 = writer_pointer w11 instance_offset;
               (w13, l2, d2) = writer_record_header w12 MDNS_WIRE_TYPE_SRV unique_class ttl;
               w14 = writer_u16 w13 0; w15 = writer_u16 w14 0; w16 = writer_u16 w15 (sv_port s);
               host_offset = w_offset w16;
               w17 = writer_label w16 (the (sv_host s));
               w18 = writer_pointer w17 domain_offset;
               w19 = writer_finish_record w18 l2 d2;
               w20 = writer_pointer w19 instance_offset;
               (w21, l3, d3) = writer_record_header w20 MDNS_WIRE_TYPE_TXT unique_class ttl;
               w22 = writer_txt_strings w21 (sv_txt_views s);
               w23 = writer_finish_record w22 l3 d3;
               w24 = writer_pointer w23 host_offset;
               (w25, l4, d4) = writer_record_header w24 MDNS_WIRE_TYPE_A unique_class ttl;
               w26 = writer_bytes w25 (sv_ipv4 s);
               w27 = writer_finish_record w26 l4 d4
           in if w_failed w27 then Err BUFFER_TOO_SMALL else Ok (w_data w27, w_offset w27)))
      | _ \<Rightarrow> Err INVALID_ARGUMENT)"

end
