(* ===== verification/Mdns_Name_Correct.thy ===== *)
theory Mdns_Name_Correct
  imports Mdns_Name
begin

unbundle bit_operations_syntax

text \<open>
  Correctness of the name codec. \<open>name_at\<close> is the specification of a (compressed) DNS name at
  a position of a packet: its labels, the pointer targets followed and the position after it.
  The decoder returns exactly the names the specification allows within the limits of the
  protocol.
\<close>

section \<open>Specification of names on the wire\<close>

inductive name_at :: "u8 list \<Rightarrow> nat \<Rightarrow> nat \<Rightarrow> u8 list list \<Rightarrow> nat list \<Rightarrow> nat \<Rightarrow> bool"
  for p :: "u8 list" and sz :: nat where
  root: "pos < sz \<Longrightarrow> p ! pos = 0 \<Longrightarrow> name_at p sz pos [] [] (pos + 1)"
| label: "pos < sz \<Longrightarrow> p ! pos \<noteq> 0 \<Longrightarrow> p ! pos AND DNS_POINTER_MASK = 0 \<Longrightarrow>
    pos + 1 + unat (p ! pos) \<le> sz \<Longrightarrow>
    l = take (unat (p ! pos)) (drop (pos + 1) p) \<Longrightarrow>
    name_at p sz (pos + 1 + unat (p ! pos)) ls ts e \<Longrightarrow>
    name_at p sz pos (l # ls) ts e"
| pointer: "pos + 2 \<le> sz \<Longrightarrow> p ! pos AND DNS_POINTER_MASK = DNS_POINTER_MASK \<Longrightarrow>
    t = pointer_target (p ! pos) (p ! (pos + 1)) \<Longrightarrow> t < sz \<Longrightarrow>
    name_at p sz t ls ts e \<Longrightarrow>
    name_at p sz pos ls (t # ts) (pos + 2)"

fun append_labels :: "u8 list \<Rightarrow> u8 list list \<Rightarrow> u8 list" where
  "append_labels out [] = out"
| "append_labels out (l # ls) = append_labels (out @ (if out = [] then [] else [dot]) @ l) ls"

definition name_text :: "u8 list list \<Rightarrow> u8 list" where
  "name_text ls = (if ls = [] then [dot] else append_labels [] ls)"

definition labels_size :: "u8 list list \<Rightarrow> nat" where
  "labels_size ls = sum_list (map (\<lambda>l. length l + 1) ls)"

lemma labels_size_simps [simp]:
  "labels_size [] = 0" "labels_size (l # ls) = length l + 1 + labels_size ls"
  "labels_size (ls @ ls') = labels_size ls + labels_size ls'"
  by (simp_all add: labels_size_def)

lemma name_at_bounds: "name_at p sz pos ls ts e \<Longrightarrow> pos < e \<and> e \<le> sz"
  by (induction rule: name_at.induct) auto

lemma name_at_labels_nonempty:
  "name_at p sz pos ls ts e \<Longrightarrow> sz \<le> length p \<Longrightarrow> \<forall>l \<in> set ls. l \<noteq> [] \<and> length l < 64"
proof (induction rule: name_at.induct)
  case (label pos l ls ts e)
  have "unat (p ! pos) \<noteq> 0" using label(2) by (simp add: unat_eq_zero)
  with label pointer_mask_zero_bound[of "p ! pos"] show ?case by auto
qed simp_all

lemma append_labels_eq_Nil: "\<forall>l \<in> set ls. l \<noteq> [] \<Longrightarrow> append_labels out ls = [] \<longleftrightarrow> out = [] \<and> ls = []"
  by (induction ls arbitrary: out) auto

lemma length_append_labels_ge: "length out \<le> length (append_labels out ls)"
proof (induction ls arbitrary: out)
  case (Cons l ls)
  have "length out \<le> length (out @ (if out = [] then [] else [dot]) @ l)" by simp
  also have "\<dots> \<le> length (append_labels (out @ (if out = [] then [] else [dot]) @ l) ls)"
    by (rule Cons.IH)
  also have "\<dots> = length (append_labels out (l # ls))" by simp
  finally show ?case .
qed simp

lemma length_append_labels:
  "out \<noteq> [] \<Longrightarrow> length (append_labels out ls) = length out + labels_size ls"
  by (induction ls arbitrary: out) auto

lemma length_name_text:
  "\<forall>l \<in> set ls. l \<noteq> [] \<Longrightarrow> length (name_text ls) = (if ls = [] then 1 else labels_size ls - 1)"
  by (cases ls) (auto simp: name_text_def length_append_labels)

section \<open>One step of the decoder loop\<close>

lemma decode_root:
  assumes "pos < sz" "sz \<le> length p" "p ! pos = 0"
  shows "decode_loop p sz cap pos nxt out ex vis j =
    (let nxt' = (if j then nxt else pos + 1) in
     if out = [] then (if cap < 2 then Err LIMIT_EXCEEDED else Ok ([dot], nxt')) else Ok (out, nxt'))"
  using assms by (subst decode_loop.simps) (simp add: byte_at_def DNS_POINTER_MASK_def)

lemma mask_neq_zero: "DNS_POINTER_MASK \<noteq> 0"
  by (simp add: DNS_POINTER_MASK_def)

lemma decode_label:
  assumes "pos < sz" "sz \<le> length p" "p ! pos \<noteq> 0" "p ! pos AND DNS_POINTER_MASK = 0"
    "pos + 1 + unat (p ! pos) \<le> sz"
  shows "decode_loop p sz cap pos nxt out ex vis j =
    (let n = unat (p ! pos) in
     if ex > 255 - (n + 1) then Err MALFORMED
     else if (if out = [] then 0 else 1) + n > size_sub (cap - 1) (length out) then Err LIMIT_EXCEEDED
     else decode_loop p sz cap (pos + 1 + n) (if j then nxt else pos + 1 + n)
            (out @ (if out = [] then [] else [dot]) @ take n (drop (pos + 1) p)) (ex + (n + 1)) vis j)"
proof -
  let ?b = "p ! pos"
  have a: "(sz \<le> pos) = False" "byte_at p pos = Ok ?b"
    "(?b AND DNS_POINTER_MASK = DNS_POINTER_MASK) = False" "(?b AND DNS_POINTER_MASK \<noteq> 0) = False"
    "(?b = 0) = False" "(unat ?b > size_sub sz (pos + 1)) = False"
    "bytes_at p (pos + 1) (unat ?b) = Ok (take (unat ?b) (drop (pos + 1) p))"
    using assms mask_neq_zero by (simp_all add: byte_at_def bytes_at_def)
  have i: "((if out = [] then 0 else 1 :: nat) \<noteq> 0) = (out \<noteq> [])"
    "(if out \<noteq> [] then [dot] else []) = (if out = [] then [] else [dot])"
    by simp_all
  show ?thesis
    by (subst decode_loop.simps) (simp only: a i if_False if_True res.case Let_def)
qed

lemma decode_pointer:
  assumes "pos + 2 \<le> sz" "sz \<le> length p" "p ! pos AND DNS_POINTER_MASK = DNS_POINTER_MASK"
    "t = pointer_target (p ! pos) (p ! (pos + 1))"
  shows "decode_loop p sz cap pos nxt out ex vis j =
    (if t \<ge> sz \<or> length vis = DNS_MAX_POINTER_JUMPS then Err MALFORMED
     else if t \<in> set vis then Err MALFORMED
     else decode_loop p sz cap t (if j then nxt else pos + 2) out ex (vis @ [t]) True)"
proof -
  have a: "(sz \<le> pos) = False" "byte_at p pos = Ok (p ! pos)"
    "(size_sub sz pos < 2) = False" "byte_at p (pos + 1) = Ok (p ! (pos + 1))"
    using assms by (simp_all add: byte_at_def)
  show ?thesis
    by (subst decode_loop.simps) (simp only: a assms(3,4) if_False if_True res.case Let_def simp_thms)
qed

text \<open>What a step that does not fail tells about the bytes at the cursor.\<close>

lemma decode_step_cases:
  assumes "decode_loop p sz cap pos nxt out ex vis j = r" and "sz \<le> length p"
    and "\<forall>e. r \<noteq> Err e"
  obtains (ptr) "pos + 2 \<le> sz" "p ! pos AND DNS_POINTER_MASK = DNS_POINTER_MASK"
  | (root) "pos < sz" "p ! pos = 0"
  | (lab) "pos < sz" "p ! pos AND DNS_POINTER_MASK = 0" "p ! pos \<noteq> 0" "pos + 1 + unat (p ! pos) \<le> sz"
proof -
  have pos: "pos < sz"
    using assms(1,3) by (subst (asm) decode_loop.simps) (cases "pos < sz", auto)
  have at: "byte_at p pos = Ok (p ! pos)" "(sz \<le> pos) = False"
    using pos assms(2) by (simp_all add: byte_at_def)
  note unf = assms(1)[symmetric, unfolded decode_loop.simps[of p sz cap pos], unfolded at if_False res.case]
  consider (a) "p ! pos AND DNS_POINTER_MASK = DNS_POINTER_MASK"
    | (b) "p ! pos AND DNS_POINTER_MASK \<noteq> DNS_POINTER_MASK" "p ! pos AND DNS_POINTER_MASK \<noteq> 0"
    | (c) "p ! pos = 0"
    | (d) "p ! pos AND DNS_POINTER_MASK = 0" "p ! pos \<noteq> 0"
    by blast
  then show thesis
  proof cases
    case a
    have "\<not> size_sub sz pos < 2" using unf a assms(3) by auto
    with pos a show thesis by (intro ptr) simp_all
  next
    case b
    with unf assms(3) show thesis by auto
  next
    case c
    with pos root show thesis by blast
  next
    case d
    have "\<not> unat (p ! pos) > size_sub sz (pos + 1)"
      using unf d assms(3) mask_neq_zero by (auto simp: Let_def)
    with pos d show thesis by (intro lab) simp_all
  qed
qed

section \<open>Completeness: every allowed name is decoded\<close>

lemma decode_complete:
  assumes "name_at p sz pos ls ts e" and "sz \<le> length p"
    and "distinct (vis @ ts)" and "length (vis @ ts) \<le> DNS_MAX_POINTER_JUMPS"
    and "ex + labels_size ls \<le> 255"
    and "length (append_labels out ls) < cap" and "2 \<le> cap"
  shows "decode_loop p sz cap pos nxt out ex vis j =
    Ok (if append_labels out ls = [] then [dot] else append_labels out ls, if j then nxt else e)"
  using assms
proof (induction arbitrary: nxt out ex vis j rule: name_at.induct)
  case (root pos)
  then show ?case by (simp add: decode_root Let_def)
next
  case (label pos l ls ts e)
  let ?n = "unat (p ! pos)"
  have len: "length l = ?n" using label by simp
  have "length (out @ (if out = [] then [] else [dot]) @ l) \<le> length (append_labels out (l # ls))"
    using length_append_labels_ge[of "out @ (if out = [] then [] else [dot]) @ l" ls] by simp
  with label.prems len have "(if out = [] then 0 else 1) + ?n \<le> size_sub (cap - 1) (length out)"
    by (auto split: if_splits)
  with label len show ?case
    by (subst decode_label) (auto simp: Let_def not_less)
next
  case (pointer pos t ls ts e)
  then have "length vis \<noteq> DNS_MAX_POINTER_JUMPS" "t \<notin> set vis" by auto
  with pointer show ?case
    by (subst decode_pointer[OF pointer(1) _ pointer(2) pointer(3)]) auto
qed

section \<open>Soundness: nothing else is decoded\<close>

lemma decode_sound:
  assumes "decode_loop p sz cap pos nxt out ex vis j = Ok (name, e)" and "sz \<le> length p"
    and "distinct vis" and "length vis \<le> DNS_MAX_POINTER_JUMPS"
    and "length out < cap" and "ex \<le> 255"
  shows "\<exists>ls ts e'. name_at p sz pos ls ts e' \<and> distinct (vis @ ts) \<and>
    length (vis @ ts) \<le> DNS_MAX_POINTER_JUMPS \<and> ex + labels_size ls \<le> 255 \<and>
    name = (if append_labels out ls = [] then [dot] else append_labels out ls) \<and>
    length name < cap \<and> e = (if j then nxt else e')"
  using assms
proof (induction "(255 - ex) + card ({..<sz} - set vis)"
    arbitrary: pos nxt out ex vis j rule: less_induct)
  case less
  note prems = less.prems
  from prems(1,2) show ?case
  proof (rule decode_step_cases)
    assume ptr: "pos + 2 \<le> sz" "p ! pos AND DNS_POINTER_MASK = DNS_POINTER_MASK"
    define t where "t = pointer_target (p ! pos) (p ! (pos + 1))"
    note step = decode_pointer[OF ptr(1) prems(2) ptr(2) t_def]
    from prems(1) have c: "t < sz" "length vis \<noteq> DNS_MAX_POINTER_JUMPS" "t \<notin> set vis"
      and rec: "decode_loop p sz cap t (if j then nxt else pos + 2) out ex (vis @ [t]) True = Ok (name, e)"
      by (auto simp: step split: if_splits)
    have "card ({..<sz} - set (vis @ [t])) < card ({..<sz} - set vis)"
      using c by (intro psubset_card_mono) auto
    then have "(255 - ex) + card ({..<sz} - set (vis @ [t])) < (255 - ex) + card ({..<sz} - set vis)"
      by simp
    from less.hyps[OF this rec prems(2)] prems c
    obtain ls ts e' where r: "name_at p sz t ls ts e'" "distinct ((vis @ [t]) @ ts)"
      "length ((vis @ [t]) @ ts) \<le> DNS_MAX_POINTER_JUMPS" "ex + labels_size ls \<le> 255"
      "name = (if append_labels out ls = [] then [dot] else append_labels out ls)"
      "length name < cap" "e = (if j then nxt else pos + 2)" by auto
    with name_at.pointer[OF ptr t_def c(1) r(1)] show ?case
      by (intro exI[of _ ls] exI[of _ "t # ts"] exI[of _ "pos + 2"]) auto
  next
    assume root: "pos < sz" "p ! pos = 0"
    from prems(1) have "(let nxt' = (if j then nxt else pos + 1) in
       if out = [] then (if cap < 2 then Err LIMIT_EXCEEDED else Ok ([dot], nxt'))
       else Ok (out, nxt')) = Ok (name, e)"
      by (simp only: decode_root[OF root(1) prems(2) root(2)])
    then show ?case
      using name_at.root[of pos sz p] root prems
      by (intro exI[of _ "[]"] exI[of _ "pos + 1"]) (auto simp: Let_def split: if_splits)
  next
    assume lab: "pos < sz" "p ! pos AND DNS_POINTER_MASK = 0" "p ! pos \<noteq> 0"
      "pos + 1 + unat (p ! pos) \<le> sz"
    define n where "n = unat (p ! pos)"
    define l where "l = take n (drop (pos + 1) p)"
    have ll: "length l = n" using lab prems(2) by (simp add: l_def n_def)
    let ?out = "out @ (if out = [] then [] else [dot]) @ l"
    note step = decode_label[OF lab(1) prems(2) lab(3,2,4)]
    have n64: "n < 64" using pointer_mask_zero_bound[OF lab(2)] by (simp add: n_def)
    from prems(1) n64 have c: "ex + (n + 1) \<le> 255"
      "(if out = [] then 0 else 1) + n \<le> size_sub (cap - 1) (length out)"
      and rec: "decode_loop p sz cap (pos + 1 + n) (if j then nxt else pos + 1 + n) ?out (ex + (n + 1)) vis j
        = Ok (name, e)"
      by (auto simp: step Let_def n_def l_def split: if_splits)
    have "(255 - (ex + (n + 1))) + card ({..<sz} - set vis) < (255 - ex) + card ({..<sz} - set vis)"
      using c by simp
    moreover have "length ?out < cap" using c(2) ll prems(5) by (cases "out = []") auto
    ultimately obtain ls ts e' where r: "name_at p sz (pos + 1 + n) ls ts e'" "distinct (vis @ ts)"
      "length (vis @ ts) \<le> DNS_MAX_POINTER_JUMPS" "ex + (n + 1) + labels_size ls \<le> 255"
      "name = (if append_labels ?out ls = [] then [dot] else append_labels ?out ls)"
      "length name < cap" "e = (if j then (if j then nxt else pos + 1 + n) else e')"
      using less.hyps[OF _ rec prems(2-4) _ c(1)] by blast
    have "name_at p sz pos (l # ls) ts e'"
      by (rule name_at.label) (use lab r(1) in \<open>auto simp: n_def l_def\<close>)
    with r ll show ?case
      by (intro exI[of _ "l # ls"] exI[of _ ts] exI[of _ e']) auto
  qed simp
qed

section \<open>Memory safety\<close>

lemma decode_no_fault:
  assumes "sz \<le> length p"
  shows "decode_loop p sz cap pos nxt out ex vis j \<noteq> Fault"
proof (induction "(255 - ex) + card ({..<sz} - set vis)"
    arbitrary: pos nxt out ex vis j rule: less_induct)
  case less
  show ?case
  proof
    assume f: "decode_loop p sz cap pos nxt out ex vis j = Fault"
    from f assms show False
    proof (rule decode_step_cases)
      assume ptr: "pos + 2 \<le> sz" "p ! pos AND DNS_POINTER_MASK = DNS_POINTER_MASK"
      define t where "t = pointer_target (p ! pos) (p ! (pos + 1))"
      from f have c: "t < sz" "t \<notin> set vis"
        and rec: "decode_loop p sz cap t (if j then nxt else pos + 2) out ex (vis @ [t]) True = Fault"
        by (auto simp: decode_pointer[OF ptr(1) assms ptr(2) t_def] split: if_splits)
      have "card ({..<sz} - set (vis @ [t])) < card ({..<sz} - set vis)"
        using c by (intro psubset_card_mono) auto
      then show False using less rec by (metis add_less_cancel_left)
    next
      assume "pos < sz" "p ! pos = 0"
      with f assms show False by (auto simp: decode_root Let_def split: if_splits)
    next
      assume lab: "pos < sz" "p ! pos AND DNS_POINTER_MASK = 0" "p ! pos \<noteq> 0"
        "pos + 1 + unat (p ! pos) \<le> sz"
      have "unat (p ! pos) < 64" using pointer_mask_zero_bound[OF lab(2)] .
      with f lab assms less show False
        by (auto simp: decode_label Let_def split: if_splits)
    qed simp
  qed
qed

section \<open>The writer appends\<close>

text \<open>
  A writer is well formed when its offset lies in the capacity and the capacity in the buffer;
  what it has produced is \<open>written\<close>.
\<close>

definition writer_ok :: "wire_writer \<Rightarrow> bool" where
  "writer_ok w \<longleftrightarrow> w_offset w \<le> w_capacity w \<and> w_capacity w \<le> length (w_data w)"

definition written :: "wire_writer \<Rightarrow> u8 list" where
  "written w = take (w_offset w) (w_data w)"

text \<open>
  \<open>emits w bs w'\<close>: from \<open>w\<close> the writer reached \<open>w'\<close> by appending \<open>bs\<close>, or failed for lack of
  room; it never touched a byte at or behind the capacity.
\<close>

definition emits :: "wire_writer \<Rightarrow> u8 list \<Rightarrow> wire_writer \<Rightarrow> bool" where
  "emits w bs w' \<longleftrightarrow> writer_ok w' \<and> w_capacity w' = w_capacity w \<and> length (w_data w') = length (w_data w) \<and>
     drop (w_capacity w) (w_data w') = drop (w_capacity w) (w_data w) \<and>
     (if w_failed w \<or> length bs > w_capacity w - w_offset w then w_failed w'
      else \<not> w_failed w' \<and> w_offset w' = w_offset w + length bs \<and> written w' = written w @ bs)"

lemma length_written: "writer_ok w \<Longrightarrow> length (written w) = w_offset w"
  by (simp add: writer_ok_def written_def)

lemma emits_writer_bytes: "writer_ok w \<Longrightarrow> emits w bs (writer_bytes w bs)"
  by (auto simp: emits_def writer_ok_def writer_bytes_def written_def take_buf_write drop_buf_write)

lemma emits_trans:
  assumes "emits w a w1" and "emits w1 b w2" and "writer_ok w"
  shows "emits w (a @ b) w2"
  using assms by (auto simp: emits_def writer_ok_def split: if_splits)

lemma emits_Nil: "writer_ok w \<Longrightarrow> emits w [] w"
  by (simp add: emits_def)

lemma emits_ok: "emits w bs w' \<Longrightarrow> writer_ok w'"
  by (simp add: emits_def)

lemma emits_u8: "writer_ok w \<Longrightarrow> emits w [v] (writer_u8 w v)"
  and emits_u16: "writer_ok w \<Longrightarrow> emits w (enc16 x) (writer_u16 w x)"
  and emits_u32: "writer_ok w \<Longrightarrow> emits w (enc32 y) (writer_u32 w y)"
  by (simp_all add: writer_u8_def writer_u16_def writer_u32_def emits_writer_bytes)

definition label_wire :: "u8 list \<Rightarrow> u8 list" where
  "label_wire l = of_nat (length l) # l"

lemma emits_label: "writer_ok w \<Longrightarrow> emits w (label_wire l) (writer_bytes (writer_u8 w (of_nat (length l))) l)"
  using emits_trans[OF emits_u8 emits_writer_bytes[OF emits_ok[OF emits_u8]]]
  by (simp add: label_wire_def)

section \<open>Names as label lists\<close>

text \<open>
  The labels of a dotted text, read as the encoder reads it: a dot ends a label, a trailing
  dot adds none.
\<close>

fun split_labels :: "u8 list \<Rightarrow> cstring \<Rightarrow> u8 list list" where
  "split_labels l [] = (if l = [] then [] else [l])"
| "split_labels l (c # cs) =
     (if c \<noteq> dot then split_labels (l @ [c]) cs else l # (if cs = [] then [] else split_labels [] cs))"

definition labels_of :: "cstring \<Rightarrow> u8 list list" where
  "labels_of n = (if n = [dot] then [] else split_labels [] n)"

definition name_wire :: "u8 list list \<Rightarrow> u8 list" where
  "name_wire ls = concat (map label_wire ls) @ [0]"

definition labels_valid :: "u8 list list \<Rightarrow> bool" where
  "labels_valid ls \<longleftrightarrow> (\<forall>l \<in> set ls. l \<noteq> [] \<and> length l \<le> 63) \<and> labels_size ls \<le> 254"

lemma length_concat_label_wire: "length (concat (map label_wire ls)) = labels_size ls"
  by (induction ls) (auto simp: label_wire_def)

lemma length_name_wire: "length (name_wire ls) = labels_size ls + 1"
  by (simp add: name_wire_def length_concat_label_wire)

lemma split_labels_nonempty_iff: "split_labels l cs = [] \<longleftrightarrow> l = [] \<and> cs = []"
  by (induction l cs rule: split_labels.induct) auto

text \<open>The validation loop computes the wire length of the labels and rejects the rest.\<close>

lemma dotted_name_loop_spec:
  "length l = len \<Longrightarrow> (pd \<longrightarrow> len = 0) \<Longrightarrow> (l @ cs \<noteq> [] \<or> pd) \<Longrightarrow>
   dotted_name_loop pd len tot cs =
     (if (\<forall>x \<in> set (split_labels l cs). x \<noteq> [] \<and> length x \<le> 63) \<and>
         tot + labels_size (split_labels l cs) \<le> (if split_labels l cs = [] then tot else 255)
      then Some (tot + labels_size (split_labels l cs)) else None)"
proof (induction pd len tot cs arbitrary: l rule: dotted_name_loop.induct)
  case (1 pd len tot)
  show ?case
  proof (cases "l = []")
    case True
    with 1 show ?thesis by simp
  next
    case False
    with 1(1) have "len \<noteq> 0" by auto
    moreover have "(\<not> (len > 63 \<or> tot > 255 - (len + 1))) \<longleftrightarrow> len \<le> 63 \<and> tot + (len + 1) \<le> 255"
      by linarith
    ultimately show ?thesis using False 1(1) by auto
  qed
next
  case (2 pd len tot c cs)
  show ?case
  proof (cases "c = dot")
    case False
    with "2.IH"(1)[OF False, of "l @ [c]"] "2.prems" show ?thesis by simp
  next
    case True
    show ?thesis
    proof (cases "len = 0 \<or> len > 63 \<or> tot > 255 - (len + 1)")
      case bad: True
      let ?r = "if cs = [] then [] else split_labels [] cs"
      have sp: "split_labels l (c # cs) = l # ?r" using True by simp
      have n: "\<not> (l \<noteq> [] \<and> length l \<le> 63 \<and> tot + labels_size (l # ?r) \<le> 255)"
      proof (rule notI, elim conjE)
        assume a: "l \<noteq> []" "length l \<le> 63" "tot + labels_size (l # ?r) \<le> 255"
        from a(3) have "tot + (length l + 1) \<le> 255" unfolding labels_size_simps(2) by linarith
        moreover from a(1) have "length l \<noteq> 0" by simp
        ultimately show False using bad a(2) unfolding "2.prems"(1)[symmetric] by linarith
      qed
      have none: "dotted_name_loop pd len tot (c # cs) = None"
        using bad True by (simp only: dotted_name_loop.simps) (elim disjE, simp_all)
      have "\<not> ((\<forall>x \<in> set (l # ?r). x \<noteq> [] \<and> length x \<le> 63) \<and>
          tot + labels_size (l # ?r) \<le> (if l # ?r = [] then tot else 255))"
        using n by (simp only: list.distinct if_False list.set insert_iff) blast
      then show ?thesis unfolding sp none by (simp only: if_False)
    next
      case ok: False
      then have "dotted_name_loop pd len tot (c # cs) = dotted_name_loop True 0 (tot + len + 1) cs"
        using True by simp
      also have "\<dots> = (if (\<forall>x \<in> set (split_labels [] cs). x \<noteq> [] \<and> length x \<le> 63) \<and>
          tot + len + 1 + labels_size (split_labels [] cs) \<le>
            (if split_labels [] cs = [] then tot + len + 1 else 255)
        then Some (tot + len + 1 + labels_size (split_labels [] cs)) else None)"
        using ok True by (intro "2.IH"(2)) auto
      finally have e: "dotted_name_loop pd len tot (c # cs) = \<dots>" .
      have l: "l \<noteq> []" "length l \<le> 63" "length l = len" "tot + len + 1 \<le> 255"
        using ok "2.prems"(1) by auto
      show ?thesis
      proof (cases "cs = []")
        case c: True
        with True l show ?thesis unfolding e by simp
      next
        case c: False
        then have "split_labels [] cs \<noteq> []" by (simp add: split_labels_nonempty_iff)
        with c True l show ?thesis unfolding e by simp
      qed
    qed
  qed
qed

lemma dotted_name_valid_iff:
  "dotted_name_valid name = (case name of None \<Rightarrow> None
     | Some n \<Rightarrow> if n \<noteq> [] \<and> labels_valid (labels_of n) then Some (length (name_wire (labels_of n)))
                else None)"
proof (cases name)
  case None
  then show ?thesis by (simp add: dotted_name_valid_def)
next
  case (Some n)
  show ?thesis
  proof (cases "n = [] \<or> n = [dot]")
    case True
    with Some show ?thesis
      by (auto simp: dotted_name_valid_def labels_of_def labels_valid_def name_wire_def)
  next
    case False
    with Some dotted_name_loop_spec[of "[]" 0 False n 1] show ?thesis
      by (auto simp: dotted_name_valid_def labels_of_def labels_valid_def length_name_wire
          split_labels_nonempty_iff)
  qed
qed

lemma emits_name_loop:
  "writer_ok w \<Longrightarrow> emits w (concat (map label_wire (split_labels l cs))) (writer_name_loop l cs w)"
proof (induction l cs w rule: writer_name_loop.induct)
  case (1 l w)
  then show ?case using emits_Nil emits_label by auto
next
  case (2 l c cs w)
  show ?case
  proof (cases "c \<noteq> dot \<or> cs = []")
    case True
    with 2 emits_label[of w l] show ?thesis by (auto simp: Let_def)
  next
    case False
    let ?w = "writer_bytes (writer_u8 w (of_nat (length l))) l"
    have e: "emits w (label_wire l) ?w" by (rule emits_label[OF "2.prems"])
    with False "2.IH"(2)[OF _ refl, OF _ _ emits_ok[OF e]] "2.prems" show ?thesis
      by (auto simp: Let_def intro: emits_trans[OF e])
  qed
qed

lemma emits_writer_name:
  assumes "writer_ok w" and "dotted_name_valid (Some n) \<noteq> None"
  shows "emits w (name_wire (labels_of n)) (writer_name w (Some n))"
proof (cases "n = [dot]")
  case True
  with assms emits_u8[OF assms(1), of 0] show ?thesis
    by (auto simp: writer_name_def labels_of_def name_wire_def)
next
  case False
  have e: "emits w (concat (map label_wire (split_labels [] n))) (writer_name_loop [] n w)"
    by (rule emits_name_loop[OF assms(1)])
  with False assms show ?thesis
    by (auto simp: writer_name_def labels_of_def name_wire_def
        intro: emits_trans[OF e emits_u8[OF emits_ok[OF e]]])
qed

section \<open>Round trip\<close>

lemma label_length_byte:
  assumes "0 < n" and "n \<le> 63"
  shows "unat (of_nat n :: u8) = n" and "(of_nat n :: u8) \<noteq> 0"
    and "(of_nat n :: u8) AND DNS_POINTER_MASK = 0"
proof -
  show u: "unat (of_nat n :: u8) = n" using assms by (simp add: unat_of_nat)
  then show "(of_nat n :: u8) \<noteq> 0" using assms by (metis unat_0 less_numeral_extra(3))
  have t: "take_bit 6 (of_nat n :: u8) = of_nat n"
    using assms u by (intro word_unat_eq_iff[THEN iffD2])
      (simp add: unsigned_take_bit_eq take_bit_nat_eq_self_iff)
  show "(of_nat n :: u8) AND DNS_POINTER_MASK = 0"
  proof (rule bit_eqI)
    fix k assume k: "possible_bit TYPE(u8) k"
    have "\<not> bit (of_nat n :: u8) k" if "6 \<le> k"
      using that by (subst t[symmetric]) (auto simp: bit_take_bit_iff)
    moreover have "\<not> bit DNS_POINTER_MASK k" if "k < 6"
    proof -
      have e: "DNS_POINTER_MASK = push_bit 6 3" by (simp add: DNS_POINTER_MASK_def)
      show ?thesis unfolding e bit_push_bit_iff using that by simp
    qed
    ultimately show "bit ((of_nat n :: u8) AND DNS_POINTER_MASK) k = bit (0 :: u8) k"
      by (cases "k < 6") (auto simp: bit_and_iff)
  qed
qed

text \<open>Labels written at a position, followed by a name: the whole is a name.\<close>

lemma name_at_labels:
  assumes "name_at p sz (pos + labels_size ls) ls' ts e" and "sz \<le> length p"
    and "take (labels_size ls) (drop pos p) = concat (map label_wire ls)"
    and "\<forall>l \<in> set ls. l \<noteq> [] \<and> length l \<le> 63"
  shows "name_at p sz pos (ls @ ls') ts e"
  using assms
proof (induction ls arbitrary: pos)
  case Nil
  then show ?case by simp
next
  case (Cons l ls)
  have fit: "pos + labels_size (l # ls) < sz" using name_at_bounds[OF Cons.prems(1)] by simp
  have all: "take (labels_size (l # ls)) (drop pos p) = label_wire l @ concat (map label_wire ls)"
    using Cons.prems(3) by simp
  have "p ! pos = take (labels_size (l # ls)) (drop pos p) ! 0"
    using fit Cons.prems(2) by simp
  also have "\<dots> = of_nat (length l)" unfolding all by (simp add: label_wire_def)
  finally have b: "p ! pos = of_nat (length l)" .
  have nl: "0 < length l" "length l \<le> 63" using Cons.prems(4) by auto
  note lb = label_length_byte[OF nl]
  have "take (length l) (drop (pos + 1) p) =
      take (length l) (drop 1 (take (labels_size (l # ls)) (drop pos p)))"
    by (simp add: drop_take)
  also have "\<dots> = l" unfolding all by (simp add: label_wire_def)
  finally have t: "take (unat (p ! pos)) (drop (pos + 1) p) = l" using b lb by simp
  have "take (labels_size ls) (drop (pos + 1 + length l) p) =
      drop (1 + length l) (take (labels_size (l # ls)) (drop pos p))"
    by (simp add: drop_take ac_simps)
  also have "\<dots> = concat (map label_wire ls)" unfolding all by (simp add: label_wire_def)
  finally have r: "take (labels_size ls) (drop (pos + 1 + length l) p) = concat (map label_wire ls)" .
  have "name_at p sz (pos + 1 + length l) (ls @ ls') ts e"
    using Cons.prems r by (intro Cons.IH) (simp_all add: ac_simps)
  then have "name_at p sz pos (l # (ls @ ls')) ts e"
    using fit b lb t nl by (intro name_at.label) simp_all
  then show ?case by simp
qed

lemma name_at_wire:
  assumes "take (labels_size ls + 1) (drop pos p) = name_wire ls" and "pos + labels_size ls < sz"
    and "sz \<le> length p" and "\<forall>l \<in> set ls. l \<noteq> [] \<and> length l \<le> 63"
  shows "name_at p sz pos ls [] (pos + labels_size ls + 1)"
proof -
  have w: "take (labels_size ls + 1) (drop pos p) = concat (map label_wire ls) @ [0]"
    using assms(1) by (simp add: name_wire_def)
  have "p ! (pos + labels_size ls) = drop pos p ! labels_size ls"
    using assms(2,3) by simp
  also have "\<dots> = take (labels_size ls + 1) (drop pos p) ! labels_size ls"
    by simp
  also have "\<dots> = 0" unfolding w by (simp add: nth_append length_concat_label_wire)
  finally have z: "name_at p sz (pos + labels_size ls) [] [] (pos + labels_size ls + 1)"
    using assms by (intro name_at.root) simp_all
  have "take (labels_size ls) (drop pos p) = take (labels_size ls) (take (labels_size ls + 1) (drop pos p))"
    by simp
  also have "\<dots> = concat (map label_wire ls)" unfolding w by (simp add: length_concat_label_wire)
  finally show ?thesis using name_at_labels[OF z assms(3) _ assms(4)] by simp
qed

text \<open>The text of a name with its trailing dot dropped.\<close>

definition chop_dot :: "cstring \<Rightarrow> cstring" where
  "chop_dot n = (if n \<noteq> [dot] \<and> n \<noteq> [] \<and> last n = dot then butlast n else n)"

lemma append_split_labels:
  "\<forall>x \<in> set (split_labels l cs). x \<noteq> [] \<Longrightarrow> dot \<notin> set l \<Longrightarrow> l @ cs \<noteq> [] \<Longrightarrow>
   append_labels out (split_labels l cs) =
     out @ (if out = [] then [] else [dot]) @ (if last (l @ cs) = dot then butlast (l @ cs) else l @ cs)"
proof (induction l cs arbitrary: out rule: split_labels.induct)
  case (1 l)
  from "1"(3) have l: "l \<noteq> []" by simp
  have "last l \<noteq> dot"
  proof
    assume "last l = dot"
    with last_in_set[OF l] "1"(2) show False by simp
  qed
  with l show ?case by (simp only: split_labels.simps if_False append_labels.simps append_Nil2)
next
  case (2 l c cs)
  show ?case
  proof (cases "c = dot")
    case False
    then have sp: "split_labels l (c # cs) = split_labels (l @ [c]) cs" by simp
    have "append_labels out (split_labels (l @ [c]) cs) = out @ (if out = [] then [] else [dot]) @
        (if last ((l @ [c]) @ cs) = dot then butlast ((l @ [c]) @ cs) else (l @ [c]) @ cs)"
      using "2.prems"(2) False by (intro "2.IH"(1) "2.prems"(1)[unfolded sp]) simp_all
    then show ?thesis unfolding sp by (simp only: append_assoc append.simps)
  next
    case True
    let ?o = "out @ (if out = [] then [] else [dot]) @ l"
    let ?r = "if cs = [] then [] else split_labels [] cs"
    have sp: "split_labels l (c # cs) = l # ?r" using True by simp
    have l: "l \<noteq> []" using "2.prems"(1) unfolding sp by simp
    show ?thesis
    proof (cases "cs = []")
      case c: True
      with True show ?thesis unfolding sp by (simp add: butlast_append)
    next
      case c: False
      have "append_labels ?o (split_labels [] cs) = ?o @ (if ?o = [] then [] else [dot]) @
          (if last ([] @ cs) = dot then butlast ([] @ cs) else [] @ cs)"
      proof (rule "2.IH"(2))
        show "\<forall>x \<in> set (split_labels [] cs). x \<noteq> []" using "2.prems"(1) c unfolding sp by simp
      qed (use True c in simp_all)
      then show ?thesis using c l True unfolding sp by (simp add: butlast_append)
    qed
  qed
qed

lemma name_text_labels_of:
  assumes "dotted_name_valid (Some n) \<noteq> None"
  shows "name_text (labels_of n) = chop_dot n"
proof (cases "n = [dot]")
  case True
  then show ?thesis by (simp add: labels_of_def name_text_def chop_dot_def)
next
  case False
  from assms have "n \<noteq> []" "labels_valid (labels_of n)"
    by (auto simp: dotted_name_valid_iff split: if_splits)
  with False append_split_labels[of "[]" n "[]"] show ?thesis
    by (auto simp: labels_of_def name_text_def chop_dot_def labels_valid_def split_labels_nonempty_iff)
qed

lemma decode_of_name_at:
  assumes "name_at p sz pos ls ts e" and "sz \<le> length p" and "distinct ts"
    and "length ts \<le> DNS_MAX_POINTER_JUMPS" and "labels_size ls \<le> 254"
  shows "mdns_wire_decode_name (Some p) sz (Some pos) MDNS_WIRE_MAX_NAME = Ok (name_text ls, e)"
proof -
  have ne: "\<forall>l \<in> set ls. l \<noteq> []" using name_at_labels_nonempty[OF assms(1,2)] by auto
  have "length (append_labels [] ls) < MDNS_WIRE_MAX_NAME"
    using length_name_text[OF ne] assms(5)
    by (cases "ls = []") (auto simp: name_text_def MDNS_WIRE_MAX_NAME_def)
  with decode_complete[OF assms(1,2), of "[]" 1 "[]" MDNS_WIRE_MAX_NAME pos False] assms
    name_at_bounds[OF assms(1)] append_labels_eq_Nil[OF ne, of "[]"]
  show ?thesis
    by (auto simp: mdns_wire_decode_name_def name_text_def MDNS_WIRE_MAX_NAME_def)
qed

lemma labels_valid_of: "dotted_name_valid (Some n) \<noteq> None \<Longrightarrow> labels_valid (labels_of n)"
  by (auto simp: dotted_name_valid_iff split: if_splits)

end
