(* ===== verification/Mdns_Packet_Correct.thy ===== *)
theory Mdns_Packet_Correct
  imports Mdns_Packet Mdns_Name_Correct
begin

unbundle bit_operations_syntax

text \<open>
  Correctness of the packet layer: memory safety and the bounds of a parsed packet, the TXT
  accessor, and what the parser makes of the bytes the builders write.
\<close>

section \<open>Fields\<close>

lemma dec_enc16: "dec16 (ucast (drop_bit 8 v)) (ucast v) = v"
proof (rule bit_eqI)
  fix n assume "possible_bit TYPE(u16) n"
  then have "n < 16" by simp
  then show "bit (dec16 (ucast (drop_bit 8 v)) (ucast v)) n = bit v n"
    by (cases "n < 8")
      (auto simp: dec16_def bit_or_iff bit_push_bit_iff bit_unsigned_iff bit_drop_bit_eq)
qed

lemma dec_enc32:
  "dec32 (ucast (drop_bit 24 v)) (ucast (drop_bit 16 v)) (ucast (drop_bit 8 v)) (ucast v) = v"
proof (rule bit_eqI)
  fix n assume "possible_bit TYPE(u32) n"
  then have n: "n < 32" by simp
  consider "n < 8" | "8 \<le> n" "n < 16" | "16 \<le> n" "n < 24" | "24 \<le> n" by linarith
  then show "bit (dec32 (ucast (drop_bit 24 v)) (ucast (drop_bit 16 v)) (ucast (drop_bit 8 v)) (ucast v)) n
      = bit v n"
    using n by cases
      (auto simp: dec32_def bit_or_iff bit_push_bit_iff bit_unsigned_iff bit_drop_bit_eq)
qed

text \<open>\<open>has data off bs\<close>: the bytes \<open>bs\<close> stand in \<open>data\<close> at \<open>off\<close>.\<close>

definition has :: "u8 list \<Rightarrow> nat \<Rightarrow> u8 list \<Rightarrow> bool" where
  "has data off bs \<longleftrightarrow> off + length bs \<le> length data \<and> take (length bs) (drop off data) = bs"

lemma has_append: "has data off (a @ b) \<longleftrightarrow> has data off a \<and> has data (off + length a) b"
proof -
  have "take (length a + length b) (drop off data) =
      take (length a) (drop off data) @ take (length b) (drop (off + length a) data)"
    by (simp add: take_add add.commute)
  then show ?thesis
    by (auto simp: has_def append_eq_append_conv)
qed

lemma has_nth: "has data off bs \<Longrightarrow> i < length bs \<Longrightarrow> data ! (off + i) = bs ! i"
  by (metis has_def nth_take nth_drop add_leE)

lemma has_len: "has data off bs \<Longrightarrow> off + length bs \<le> length data"
  by (simp add: has_def)

lemma length_enc [simp]: "length (enc16 v) = 2" "length (enc32 x) = 4"
  by (simp_all add: enc16_def enc32_def)

lemma read_u16_has:
  assumes "has data off (enc16 v)" and "off + 2 \<le> sz"
  shows "read_u16 data sz off = Ok (v, off + 2)"
  using assms has_nth[OF assms(1), of 0] has_nth[OF assms(1), of 1] has_len[OF assms(1)]
  by (simp add: read_u16_def byte_at_def enc16_def dec_enc16)

lemma read_u32_has:
  assumes "has data off (enc32 v)" and "off + 4 \<le> sz"
  shows "read_u32 data sz off = Ok (v, off + 4)"
  using assms has_nth[OF assms(1), of 0] has_nth[OF assms(1), of 1] has_nth[OF assms(1), of 2]
    has_nth[OF assms(1), of 3] has_len[OF assms(1)]
  by (simp add: read_u32_def byte_at_def enc32_def dec_enc32)

lemma read_u16_bounds:
  "read_u16 data sz off = Ok (v, o') \<Longrightarrow> off \<le> sz \<Longrightarrow> o' = off + 2 \<and> o' \<le> sz"
  by (auto simp: read_u16_def res_simps split: if_splits)

lemma read_u32_bounds:
  "read_u32 data sz off = Ok (v, o') \<Longrightarrow> off \<le> sz \<Longrightarrow> o' = off + 4 \<and> o' \<le> sz"
  by (auto simp: read_u32_def res_simps split: if_splits)

lemma read_u16_no_fault: "off \<le> sz \<Longrightarrow> sz \<le> length data \<Longrightarrow> read_u16 data sz off \<noteq> Fault"
  and read_u32_no_fault: "off \<le> sz \<Longrightarrow> sz \<le> length data \<Longrightarrow> read_u32 data sz off \<noteq> Fault"
  by (auto simp: read_u16_def read_u32_def res_simps byte_at_def)

section \<open>Names inside a packet\<close>

lemma decode_name_at_no_fault: "sz \<le> length data \<Longrightarrow> decode_name_at data sz off \<noteq> Fault"
  by (auto simp: decode_name_at_def mdns_wire_decode_name_def decode_no_fault)

text \<open>The decoder against its specification, in both directions.\<close>

lemma decode_name_at_iff:
  assumes "sz \<le> length data" and "off \<le> sz"
  shows "decode_name_at data sz off = Ok (name, e) \<longleftrightarrow>
    (\<exists>ls ts. name_at data sz off ls ts e \<and> distinct ts \<and> length ts \<le> DNS_MAX_POINTER_JUMPS \<and>
      labels_size ls \<le> 254 \<and> name = name_text ls)"
proof
  assume "decode_name_at data sz off = Ok (name, e)"
  then have "decode_loop data sz MDNS_WIRE_MAX_NAME off off [] 1 [] False = Ok (name, e)"
    by (auto simp: decode_name_at_def mdns_wire_decode_name_def split: if_splits)
  from decode_sound[OF this assms(1)]
  obtain ls ts where *: "name_at data sz off ls ts e" "distinct ts"
    "length ts \<le> DNS_MAX_POINTER_JUMPS" "labels_size ls \<le> 254"
    "name = (if append_labels [] ls = [] then [dot] else append_labels [] ls)"
    by (auto simp: MDNS_WIRE_MAX_NAME_def)
  with append_labels_eq_Nil[of ls "[]"] name_at_labels_nonempty[OF *(1) assms(1)]
  show "\<exists>ls ts. name_at data sz off ls ts e \<and> distinct ts \<and> length ts \<le> DNS_MAX_POINTER_JUMPS \<and>
      labels_size ls \<le> 254 \<and> name = name_text ls"
    by (intro exI[of _ ls] exI[of _ ts]) (auto simp: name_text_def)
next
  assume "\<exists>ls ts. name_at data sz off ls ts e \<and> distinct ts \<and> length ts \<le> DNS_MAX_POINTER_JUMPS \<and>
      labels_size ls \<le> 254 \<and> name = name_text ls"
  with decode_of_name_at assms show "decode_name_at data sz off = Ok (name, e)"
    by (auto simp: decode_name_at_def)
qed

lemma decode_name_at_bounds:
  assumes "decode_name_at data sz off = Ok (name, e)" and "sz \<le> length data" and "off \<le> sz"
  shows "off < e" and "e \<le> sz" and "length name < MDNS_WIRE_MAX_NAME" and "name \<noteq> []"
proof -
  from assms decode_name_at_iff obtain ls ts where n: "name_at data sz off ls ts e"
    "labels_size ls \<le> 254" "name = name_text ls" by blast
  from name_at_bounds[OF n(1)] show "off < e" "e \<le> sz" by auto
  have ne: "\<forall>l \<in> set ls. l \<noteq> []" using name_at_labels_nonempty[OF n(1) assms(2)] by auto
  from length_name_text[OF ne] n show "length name < MDNS_WIRE_MAX_NAME"
    by (auto simp: MDNS_WIRE_MAX_NAME_def split: if_splits)
  from append_labels_eq_Nil[OF ne, of "[]"] n(3) show "name \<noteq> []" by (auto simp: name_text_def)
qed

lemma name_at_has:
  assumes "has data off (name_wire ls)" and "off + length (name_wire ls) \<le> sz" and "sz \<le> length data"
    and "labels_valid ls"
  shows "name_at data sz off ls [] (off + length (name_wire ls))"
  using name_at_wire[of ls off data sz] assms
  by (simp add: has_def length_name_wire labels_valid_def add.assoc)

lemma pointer_bytes:
  assumes "t \<le> DNS_POINTER_VALUE_MASK"
  shows "ucast (drop_bit 8 (pointer_word t)) AND DNS_POINTER_MASK = DNS_POINTER_MASK"
    and "pointer_target (ucast (drop_bit 8 (pointer_word t))) (ucast (pointer_word t)) = t"
proof -
  have t14: "take_bit 14 t = t"
    using assms by (simp add: DNS_POINTER_VALUE_MASK_def take_bit_nat_eq_self_iff)
  have tb: "bit t n \<Longrightarrow> n < 14" for n
    by (subst (asm) t14[symmetric]) (simp add: bit_take_bit_iff)
  have m: "DNS_POINTER_MASK = push_bit 6 3" by (simp add: DNS_POINTER_MASK_def)
  have three: "bit (3 :: u8) k \<longleftrightarrow> k = 0 \<or> k = 1" for k
  proof -
    have "(3 :: u8) = mask 2" by (simp add: mask_eq_exp_minus_1)
    then show ?thesis by (simp only: bit_mask_iff) auto
  qed
  have mk: "bit DNS_POINTER_MASK k \<longleftrightarrow> k = 6 \<or> k = 7" for k
    unfolding m bit_push_bit_iff three by auto
  have pw: "bit (pointer_word t) n \<longleftrightarrow> n < 16 \<and> (n = 14 \<or> n = 15 \<or> bit t n)" for n
  proof -
    show ?thesis
      unfolding pointer_word_def
      by (auto simp: mk bit_or_iff bit_push_bit_iff bit_unsigned_iff bit_of_nat_iff dest: tb)
  qed
  show "ucast (drop_bit 8 (pointer_word t)) AND DNS_POINTER_MASK = DNS_POINTER_MASK"
  proof (rule bit_eqI)
    fix n assume "possible_bit TYPE(u8) n"
    then have "n < 8" by simp
    then show "bit (ucast (drop_bit 8 (pointer_word t)) AND DNS_POINTER_MASK) n = bit DNS_POINTER_MASK n"
      by (auto simp: bit_and_iff bit_unsigned_iff bit_drop_bit_eq pw mk)
  qed
  have "(push_bit 8 (ucast ((ucast (drop_bit 8 (pointer_word t)) :: u8) AND 0x3f)) OR
      ucast (ucast (pointer_word t) :: u8) :: u32) = of_nat t"
  proof (rule bit_eqI)
    fix n assume "possible_bit TYPE(u32) n"
    then have "n < 32" by simp
    have f63: "bit (0x3f :: u8) k \<longleftrightarrow> k < 6" for k
    proof -
      have "(0x3f :: u8) = mask 6" by (simp add: mask_eq_exp_minus_1)
      then show ?thesis by (simp only: bit_mask_iff) auto
    qed
    show "bit (push_bit 8 (ucast ((ucast (drop_bit 8 (pointer_word t)) :: u8) AND 0x3f)) OR
      ucast (ucast (pointer_word t) :: u8) :: u32) n = bit (of_nat t :: u32) n"
      unfolding bit_or_iff bit_push_bit_iff bit_unsigned_iff bit_and_iff bit_drop_bit_eq f63 pw bit_of_nat_iff
      using tb[of n] \<open>n < 32\<close> by (cases "n < 8") auto
  qed
  then show "pointer_target (ucast (drop_bit 8 (pointer_word t))) (ucast (pointer_word t)) = t"
    using assms by (simp add: pointer_target_def unat_of_nat DNS_POINTER_VALUE_MASK_def)
qed

lemma name_at_pointer_has:
  assumes "has data off (enc16 (pointer_word t))" and "off + 2 \<le> sz" and "t \<le> DNS_POINTER_VALUE_MASK"
    and "t < sz" and "name_at data sz t ls ts e"
  shows "name_at data sz off ls (t # ts) (off + 2)"
proof -
  have "data ! off = ucast (drop_bit 8 (pointer_word t))" "data ! (off + 1) = ucast (pointer_word t)"
    using has_nth[OF assms(1), of 0] has_nth[OF assms(1), of 1] by (simp_all add: enc16_def)
  with pointer_bytes[OF assms(3)] assms show ?thesis
    by (intro name_at.pointer) simp_all
qed

lemma name_at_label_has:
  assumes "has data off (label_wire l)" and "l \<noteq> []" "length l \<le> 63" and "sz \<le> length data"
    and "name_at data sz (off + length (label_wire l)) ls ts e"
  shows "name_at data sz off (l # ls) ts e"
  using name_at_labels[of data sz off "[l]" ls ts e] assms
  by (simp add: has_def label_wire_def)

section \<open>Memory safety and bounds of the parser\<close>

text \<open>
  \<open>in_range sz off m\<close>: the step \<open>m\<close>, started at \<open>off\<close>, does not read outside of the packet and
  ends at an offset between \<open>off\<close> and the end.
\<close>

definition in_range :: "nat \<Rightarrow> nat \<Rightarrow> ('a \<times> nat) wire \<Rightarrow> bool" where
  "in_range sz off m \<longleftrightarrow> m \<noteq> Fault \<and> (\<forall>v o'. m = Ok (v, o') \<longrightarrow> off \<le> o' \<and> o' \<le> sz)"

lemma in_range_bind:
  assumes "in_range sz off m" and "\<And>v o'. m = Ok (v, o') \<Longrightarrow> off \<le> o' \<Longrightarrow> o' \<le> sz \<Longrightarrow> in_range sz o' (f (v, o'))"
  shows "in_range sz off (rbind m f)"
  using assms by (cases m) (fastforce simp: in_range_def)+

lemma in_range_Ok: "off \<le> o' \<Longrightarrow> o' \<le> sz \<Longrightarrow> in_range sz off (Ok (v, o'))"
  and in_range_Err: "in_range sz off (Err e)"
  by (simp_all add: in_range_def)

lemma in_range_read_u16: "off \<le> sz \<Longrightarrow> sz \<le> length data \<Longrightarrow> in_range sz off (read_u16 data sz off)"
  using read_u16_no_fault read_u16_bounds by (fastforce simp: in_range_def)

lemma in_range_read_u32: "off \<le> sz \<Longrightarrow> sz \<le> length data \<Longrightarrow> in_range sz off (read_u32 data sz off)"
  using read_u32_no_fault read_u32_bounds by (fastforce simp: in_range_def)

lemma in_range_decode_name:
  "off \<le> sz \<Longrightarrow> sz \<le> length data \<Longrightarrow> in_range sz off (decode_name_at data sz off)"
  using decode_name_at_no_fault decode_name_at_bounds by (fastforce simp: in_range_def)

lemmas in_range_steps = in_range_read_u16 in_range_read_u32 in_range_decode_name

lemma in_range_parse_question:
  assumes "off \<le> sz" and "sz \<le> length data"
  shows "in_range sz off (parse_question data sz off)"
  unfolding parse_question_def using assms
  by (intro in_range_bind in_range_steps; simp; intro in_range_bind in_range_steps; simp;
      intro in_range_bind in_range_steps; simp add: in_range_Ok)

lemma parse_txt_loop_no_fault:
  "endp \<le> length data \<Longrightarrow> parse_txt_loop data endp cursor cnt \<noteq> Fault"
proof (induction data endp cursor cnt rule: parse_txt_loop.induct)
  case (1 data endp cursor cnt)
  show ?case
  proof (cases "cursor < endp")
    case True
    with 1 show ?thesis
      by (subst parse_txt_loop.simps) (simp add: byte_at_def Let_def)
  next
    case False
    then show ?thesis by (subst parse_txt_loop.simps) simp
  qed
qed

lemma parse_txt_no_fault:
  "start \<le> endp \<Longrightarrow> endp \<le> length data \<Longrightarrow> parse_txt data start endp \<noteq> Fault"
  by (auto simp: parse_txt_def Let_def res_simps parse_txt_loop_no_fault bytes_at_eq_Fault)

text \<open>What the parser stores of record data, against the type and the length it declares.\<close>

definition rdata_ok :: "u16 \<Rightarrow> mdns_wire_rdata \<Rightarrow> bool" where
  "rdata_ok ty rd \<longleftrightarrow> (case rd of
       RDATA_NONE \<Rightarrow> ty \<notin> {MDNS_WIRE_TYPE_A, MDNS_WIRE_TYPE_PTR, MDNS_WIRE_TYPE_TXT, MDNS_WIRE_TYPE_SRV}
     | RDATA_A bs \<Rightarrow> ty = MDNS_WIRE_TYPE_A \<and> length bs = 4
     | RDATA_PTR n \<Rightarrow> ty = MDNS_WIRE_TYPE_PTR \<and> length n < MDNS_WIRE_MAX_NAME
     | RDATA_TXT bs cnt \<Rightarrow> ty = MDNS_WIRE_TYPE_TXT \<and> length bs \<le> MDNS_WIRE_MAX_TXT_BYTES \<and> cnt \<le> length bs
     | RDATA_SRV a b c n \<Rightarrow> ty = MDNS_WIRE_TYPE_SRV \<and> length n < MDNS_WIRE_MAX_NAME)"

lemma parse_txt_loop_cnt:
  "parse_txt_loop data endp cursor cnt = Ok c \<Longrightarrow> cursor \<le> endp \<Longrightarrow> c \<le> cnt + (endp - cursor)"
proof (induction data endp cursor cnt rule: parse_txt_loop.induct)
  case (1 data endp cursor cnt)
  show ?case
  proof (cases "cursor < endp")
    case True
    with "1.prems"(1) obtain b where b: "byte_at data cursor = (Ok b :: u8 wire)"
      "unat b \<le> endp - (cursor + 1)"
      "parse_txt_loop data endp (cursor + 1 + unat b) (cnt + 1) = Ok c"
      by (subst (asm) parse_txt_loop.simps) (auto simp: Let_def split: res.splits if_splits)
    from "1.IH"[OF True b(1) refl refl] b True
    have "c \<le> cnt + 1 + (endp - (cursor + 1 + unat b))" by simp
    with True show ?thesis by linarith
  next
    case False
    with 1 show ?thesis by (subst (asm) parse_txt_loop.simps) simp
  qed
qed

lemma parse_rdata_no_fault:
  assumes "start + rdlen \<le> sz" and "sz \<le> length data"
  shows "parse_rdata data sz ty rdlen start \<noteq> Fault"
proof -
  have srv: "in_range sz start (rbind (read_u16 data (start + rdlen) start) (\<lambda>(priority, o1).
      rbind (read_u16 data (start + rdlen) o1) (\<lambda>(weight, o2).
      rbind (read_u16 data (start + rdlen) o2) (\<lambda>(port, o3).
      rbind (decode_name_at data sz o3) (\<lambda>(target, o4).
        if o4 \<noteq> start + rdlen then Err MALFORMED
        else Ok (RDATA_SRV priority weight port target, o4))))))" if "7 \<le> rdlen"
  proof -
    have r: "in_range sz k (read_u16 data (start + rdlen) k)" if "k \<le> start + rdlen" for k
      using in_range_read_u16[OF that, of data] assms by (fastforce simp: in_range_def)
    have b: "o' \<le> start + rdlen" if "read_u16 data (start + rdlen) k = Ok (v, o')" "k \<le> start + rdlen" for k v o'
      using read_u16_bounds[OF that] by simp
    show ?thesis
      using assms that
      by (intro in_range_bind r in_range_decode_name; clarsimp;
          intro in_range_bind r in_range_decode_name; (clarsimp dest!: b)?;
          (intro in_range_bind r in_range_decode_name; (clarsimp dest!: b)?)?;
          (intro in_range_bind r in_range_decode_name; (clarsimp dest!: b simp: in_range_Ok in_range_Err)?)?)
  qed
  then have srv': "7 \<le> rdlen \<Longrightarrow> rbind (read_u16 data (start + rdlen) start) (\<lambda>(priority, o1).
      rbind (read_u16 data (start + rdlen) o1) (\<lambda>(weight, o2).
      rbind (read_u16 data (start + rdlen) o2) (\<lambda>(port, o3).
      rbind (decode_name_at data sz o3) (\<lambda>(target, o4).
        if o4 \<noteq> start + rdlen then Err MALFORMED
        else Ok (RDATA_SRV priority weight port target))))) \<noteq> Fault"
    by (fastforce simp: in_range_def res_simps split: if_splits)
  have "decode_name_at data sz start \<noteq> Fault"
    using assms by (intro decode_name_at_no_fault) simp
  with srv' assms parse_txt_no_fault[of start "start + rdlen" data] show ?thesis
    by (auto simp: parse_rdata_def Let_def res_simps bytes_at_eq_Fault split: if_splits)
qed

lemma in_range_parse_record:
  assumes "off \<le> sz" and "sz \<le> length data"
  shows "in_range sz off (parse_record data sz section off)"
proof -
  have pf: "start \<le> sz \<Longrightarrow> \<not> sz - start < rdlen \<Longrightarrow> parse_rdata data sz ty rdlen start \<noteq> Fault" for start rdlen ty
    using assms by (intro parse_rdata_no_fault) simp_all
  show ?thesis
    unfolding parse_record_def using assms
    by (intro in_range_bind in_range_steps; simp; intro in_range_bind in_range_steps; simp;
        intro in_range_bind in_range_steps; simp; intro in_range_bind in_range_steps; simp;
        intro in_range_bind in_range_steps; auto simp: in_range_def res_simps pf)
qed

end
