(* ===== verification/Mdns_Roundtrip.thy ===== *)
theory Mdns_Roundtrip
  imports Mdns_Packet_Correct
begin

unbundle bit_operations_syntax

text \<open>
  The properties of \<open>src/mdns_wire.c\<close>: the decoder equals its specification, no packet makes the
  parser read out of range, TXT strings can all be read back, and what the query and service
  builders write is parsed as what they were given.
\<close>

section \<open>The whole parser\<close>

lemma in_range_parse_questions:
  "off \<le> sz \<Longrightarrow> sz \<le> length data \<Longrightarrow> in_range sz off (parse_questions n data sz off qs)"
  by (induction n arbitrary: off qs)
    (auto intro!: in_range_bind in_range_parse_question simp: in_range_Ok)

lemma in_range_parse_records:
  "off \<le> sz \<Longrightarrow> sz \<le> length data \<Longrightarrow> in_range sz off (parse_records n data sz section off rs)"
  by (induction n arbitrary: off rs)
    (auto intro!: in_range_bind in_range_parse_record simp: in_range_Ok)

lemma in_range_finish: "in_range sz off m \<Longrightarrow> off \<le> sz \<Longrightarrow>
    (\<And>v o'. m = Ok (v, o') \<Longrightarrow> off \<le> o' \<Longrightarrow> o' \<le> sz \<Longrightarrow> f (v, o') \<noteq> Fault) \<Longrightarrow> rbind m f \<noteq> Fault"
  by (cases m) (auto simp: in_range_def)

lemma parse_packet_no_fault:
  assumes "sz \<le> length data"
  shows "mdns_wire_parse_packet (Some data) sz \<noteq> Fault"
proof (cases "sz < MDNS_WIRE_HEADER_SIZE")
  case True
  then show ?thesis by (simp add: mdns_wire_parse_packet_def)
next
  case False
  note r = in_range_finish[OF in_range_read_u16[OF _ assms]]
    and q = in_range_finish[OF in_range_parse_questions[OF _ assms]]
    and p = in_range_finish[OF in_range_parse_records[OF _ assms]]
  from False show ?thesis
    unfolding mdns_wire_parse_packet_def
    by (simp, intro r q p; simp?; intro r q p; simp?; intro r q p; simp?; intro r q p; simp?;
        intro r q p; simp?; intro r q p; simp?; intro r q p; simp?; intro r q p; simp?;
        intro r q p; simp?; intro r q p; simp?)
qed

lemma parse_questions_bound:
  "parse_questions n data sz off qs = Ok (qs', o') \<Longrightarrow> length qs \<le> MDNS_WIRE_MAX_QUESTIONS \<Longrightarrow>
   length qs' = min (length qs + n) MDNS_WIRE_MAX_QUESTIONS"
proof (induction n arbitrary: off qs)
  case 0
  then show ?case by simp
next
  case (Suc n)
  from Suc.prems(1) obtain q o1 where "parse_questions n data sz o1
      (if length qs < MDNS_WIRE_MAX_QUESTIONS then qs @ [q] else qs) = Ok (qs', o')"
    by (auto simp: res_simps)
  from Suc.IH[OF this] Suc.prems(2) show ?case by auto
qed

definition record_ok :: "mdns_wire_record \<Rightarrow> bool" where
  "record_ok r \<longleftrightarrow> length (r_owner r) < MDNS_WIRE_MAX_NAME \<and> rdata_ok (r_type r) (r_data r) \<and>
     \<not> bit (r_class_code r) 15"

lemma bit_cache_flush: "bit DNS_CACHE_FLUSH n \<longleftrightarrow> n = 15"
proof -
  have e: "DNS_CACHE_FLUSH = push_bit 15 1" by (simp add: DNS_CACHE_FLUSH_def)
  show ?thesis unfolding e bit_push_bit_iff bit_1_iff by auto
qed

lemma parse_rdata_ok:
  assumes "parse_rdata data sz ty rdlen start = Ok rd" and "start + rdlen \<le> sz" and "sz \<le> length data"
  shows "rdata_ok ty rd"
proof -
  have dn: "length n < MDNS_WIRE_MAX_NAME" if "decode_name_at data sz off = Ok (n, e)" for off n e
  proof (cases "off \<le> sz")
    case True
    then show ?thesis using decode_name_at_bounds[OF that assms(3)] by simp
  next
    case False
    then show ?thesis using that by (simp add: decode_name_at_def mdns_wire_decode_name_def)
  qed
  have tx: "length bs \<le> MDNS_WIRE_MAX_TXT_BYTES \<and> cnt \<le> length bs"
    if "parse_txt data start (start + rdlen) = Ok (RDATA_TXT bs cnt)" for bs cnt
    using that parse_txt_loop_cnt[of data "start + rdlen" start 0 cnt] assms(2,3)
    by (auto simp: parse_txt_def Let_def res_simps bytes_at_def split: if_splits)
  have "\<exists>bs cnt. rd = RDATA_TXT bs cnt" if "parse_txt data start (start + rdlen) = Ok rd"
    using that by (auto simp: parse_txt_def Let_def res_simps split: if_splits)
  with assms dn tx show ?thesis
    by (fastforce simp: parse_rdata_def Let_def res_simps rdata_ok_def mdns_type_defs bytes_at_def
        split: if_splits)
qed

lemma parse_record_ok:
  assumes "parse_record data sz section off = Ok (r, o')" and "off \<le> sz" and "sz \<le> length data"
  shows "record_ok r"
proof -
  from assms(1) obtain owner o1 ty o2 rc o3 ttl o4 rdlen start rd where
    s: "decode_name_at data sz off = Ok (owner, o1)" "read_u16 data sz o1 = Ok (ty, o2)"
      "read_u16 data sz o2 = Ok (rc, o3)" "read_u32 data sz o3 = Ok (ttl, o4)"
      "read_u16 data sz o4 = Ok (rdlen, start)" "\<not> unat rdlen > size_sub sz start"
      "parse_rdata data sz ty (unat rdlen) start = Ok rd"
    and r: "r_owner r = owner" "r_type r = ty" "r_data r = rd" "r_class_code r = rc AND NOT DNS_CACHE_FLUSH"
    by (auto simp: parse_record_def res_simps split: if_splits prod.splits)
  note b1 = decode_name_at_bounds[OF s(1) assms(3,2)]
  note b2 = read_u16_bounds[OF s(2) b1(2)]
  note b3 = read_u16_bounds[OF s(3) conjunct2[OF b2]]
  note b4 = read_u32_bounds[OF s(4) conjunct2[OF b3]]
  note b5 = read_u16_bounds[OF s(5) conjunct2[OF b4]]
  have "start + unat rdlen \<le> sz"
    using conjunct2[OF b5] s(6) size_sub_le[OF conjunct2[OF b5]] by linarith
  from parse_rdata_ok[OF s(7) this assms(3)] b1(3) r show ?thesis
    by (simp add: record_ok_def bit_and_iff bit_not_iff bit_cache_flush)
qed

lemma parse_records_ok:
  "parse_records n data sz section off rs = Ok (rs', o') \<Longrightarrow> off \<le> sz \<Longrightarrow> sz \<le> length data \<Longrightarrow>
   length rs \<le> MDNS_WIRE_MAX_RECORDS \<Longrightarrow> \<forall>r \<in> set rs. record_ok r \<Longrightarrow>
   o' \<le> sz \<and> length rs' = min (length rs + n) MDNS_WIRE_MAX_RECORDS \<and> (\<forall>r \<in> set rs'. record_ok r)"
proof (induction n arbitrary: off rs)
  case 0
  then show ?case by simp
next
  case (Suc n)
  from Suc.prems(1) obtain r o1 where r: "parse_record data sz section off = Ok (r, o1)"
    and rec: "parse_records n data sz section o1
      (if length rs < MDNS_WIRE_MAX_RECORDS then rs @ [r] else rs) = Ok (rs', o')"
    by (auto simp: res_simps)
  have "o1 \<le> sz" using in_range_parse_record[OF Suc.prems(2,3), of "section"] r by (simp add: in_range_def)
  moreover have "\<forall>x \<in> set (if length rs < MDNS_WIRE_MAX_RECORDS then rs @ [r] else rs). record_ok x"
    using parse_record_ok[OF r Suc.prems(2,3)] Suc.prems(5) by simp
  ultimately have "o' \<le> sz \<and> length rs' = min (length (if length rs < MDNS_WIRE_MAX_RECORDS then rs @ [r]
      else rs) + n) MDNS_WIRE_MAX_RECORDS \<and> (\<forall>r \<in> set rs'. record_ok r)"
    using Suc.prems(3,4) by (intro Suc.IH[OF rec]) simp_all
  then show ?case using Suc.prems(4) by (cases "length rs < MDNS_WIRE_MAX_RECORDS") simp_all
qed

section \<open>TXT strings\<close>

text \<open>The strings of a TXT record: length byte and content, repeated until the end.\<close>

definition txt_wire :: "u8 list list \<Rightarrow> u8 list" where
  "txt_wire ss = concat (map label_wire ss)"

lemma txt_wire_simps [simp]: "txt_wire [] = []" "txt_wire (s # ss) = label_wire s @ txt_wire ss"
  by (simp_all add: txt_wire_def)

lemma unat_of_nat_u8: "n \<le> 255 \<Longrightarrow> unat (of_nat n :: u8) = n"
  by (simp add: unat_of_nat)

text \<open>A buffer that the validation loop accepts is such a list of strings, and conversely.\<close>

lemma parse_txt_loop_complete:
  assumes "has data off (txt_wire ss)" and "\<forall>s \<in> set ss. length s \<le> 255"
  shows "parse_txt_loop data (off + length (txt_wire ss)) off cnt = Ok (cnt + length ss)"
  using assms
proof (induction ss arbitrary: off cnt)
  case Nil
  then show ?case by (subst parse_txt_loop.simps) simp
next
  case (Cons s ss)
  from Cons.prems(1) have h: "has data off (label_wire s)"
    and t: "has data (off + length (label_wire s)) (txt_wire ss)" by (simp_all add: has_append)
  have b: "byte_at data off = (Ok (of_nat (length s)) :: u8 wire)"
    using has_nth[OF h, of 0] has_len[OF h] by (simp add: byte_at_def label_wire_def)
  have u: "unat (of_nat (length s) :: u8) = length s" using Cons.prems(2) by (simp add: unat_of_nat_u8)
  have "parse_txt_loop data (off + length (txt_wire (s # ss))) off cnt =
      parse_txt_loop data (off + length (txt_wire (s # ss))) (off + length (label_wire s)) (cnt + 1)"
    by (subst parse_txt_loop.simps) (simp add: b u Let_def label_wire_def)
  also have "\<dots> = Ok (cnt + 1 + length ss)"
    using Cons.IH[OF t, of "cnt + 1"] Cons.prems(2) by (simp add: add.assoc)
  finally show ?case by simp
qed

lemma parse_txt_loop_sound:
  "parse_txt_loop data endp cursor cnt = Ok c \<Longrightarrow> cursor \<le> endp \<Longrightarrow> endp \<le> length data \<Longrightarrow>
   \<exists>ss. take (endp - cursor) (drop cursor data) = txt_wire ss \<and> c = cnt + length ss \<and>
     (\<forall>s \<in> set ss. length s \<le> 255)"
proof (induction data endp cursor cnt rule: parse_txt_loop.induct)
  case (1 data endp cursor cnt)
  show ?case
  proof (cases "cursor < endp")
    case True
    with "1.prems"(1,3) have b: "unat (data ! cursor) \<le> endp - (cursor + 1)"
      and rec: "parse_txt_loop data endp (cursor + 1 + unat (data ! cursor)) (cnt + 1) = Ok c"
      by (subst (asm) parse_txt_loop.simps, auto simp: byte_at_def Let_def split: if_splits)+
    let ?n = "unat (data ! cursor)"
    have at: "byte_at data cursor = (Ok (data ! cursor) :: u8 wire)"
      using True "1.prems" by (simp add: byte_at_def)
    have "\<exists>ss. take (endp - (cursor + 1 + ?n)) (drop (cursor + 1 + ?n) data) = txt_wire ss \<and>
        c = cnt + 1 + length ss \<and> (\<forall>s \<in> set ss. length s \<le> 255)"
    proof (rule "1.IH"[OF True at refl refl])
      show "\<not> ?n > size_sub endp (cursor + 1)" using b True by simp
      show "parse_txt_loop data endp (cursor + 1 + ?n) (cnt + 1) = Ok c" by (rule rec)
      show "cursor + 1 + ?n \<le> endp" using b True by linarith
    qed (rule "1.prems"(3))
    then obtain ss where ss: "take (endp - (cursor + 1 + ?n)) (drop (cursor + 1 + ?n) data) = txt_wire ss"
      "c = cnt + 1 + length ss" "\<forall>s \<in> set ss. length s \<le> 255" by blast
    define s where "s = take ?n (drop (cursor + 1) data)"
    have ls: "length s = ?n" using b True "1.prems" by (simp add: s_def)
    have "take (endp - cursor) (drop cursor data) =
        data ! cursor # take (endp - (cursor + 1)) (drop (cursor + 1) data)"
      using True "1.prems"(3) by (simp add: Cons_nth_drop_Suc[symmetric] Suc_diff_Suc take_Cons')
    also have "take (endp - (cursor + 1)) (drop (cursor + 1) data) =
        s @ take (endp - (cursor + 1 + ?n)) (drop (cursor + 1 + ?n) data)"
    proof -
      have e: "endp - (cursor + 1) = ?n + (endp - (cursor + 1 + ?n))" using b by linarith
      show ?thesis unfolding e take_add s_def by (simp add: add.commute add.left_commute)
    qed
    finally have "take (endp - cursor) (drop cursor data) = txt_wire (s # ss)"
      using ss ls by (simp add: label_wire_def)
    moreover have "length s \<le> 255" using ls unat_u8[of "data ! cursor"] by simp
    ultimately show ?thesis using ss by (intro exI[of _ "s # ss"]) auto
  next
    case False
    with "1.prems" show ?thesis
      by (subst (asm) parse_txt_loop.simps) (auto intro!: exI[of _ "[]"])
  qed
qed

lemma txt_at_loop_wire:
  assumes "\<forall>s \<in> set ss. length s \<le> 255" and "i < length ss" and "current \<le> index" "i = index - current"
    and "bs = pre @ txt_wire ss" and "off = length pre"
  shows "txt_at_loop bs index current off = Some (ss ! i)"
  using assms
proof (induction ss arbitrary: i current pre off)
  case Nil
  then show ?case by simp
next
  case (Cons s ss)
  have u: "unat (of_nat (length s) :: u8) = length s" using Cons.prems(1) by (simp add: unat_of_nat_u8)
  have at: "bs ! off = of_nat (length s)" "off < length bs"
    using Cons.prems(5,6) by (simp_all add: label_wire_def)
  have d: "take (length s) (drop (off + 1) bs) = s" "length s \<le> length bs - (off + 1)"
    using Cons.prems(5,6) by (simp_all add: label_wire_def)
  show ?case
  proof (cases "current = index")
    case True
    with Cons.prems at d u show ?thesis by (subst txt_at_loop.simps) (simp add: Let_def)
  next
    case False
    with Cons.prems have i: "i = Suc (i - 1)" "i - 1 < length ss" "current + 1 \<le> index"
      "i - 1 = index - (current + 1)" by auto
    have "txt_at_loop bs index (current + 1) (off + 1 + length s) = Some (ss ! (i - 1))"
      using Cons.prems i by (intro Cons.IH[where pre = "pre @ label_wire s"]) (auto simp: label_wire_def)
    with False Cons.prems at d u have "txt_at_loop bs index current off = Some (ss ! (i - 1))"
      by (subst txt_at_loop.simps) (simp add: Let_def)
    with i(1) show ?thesis by (metis nth_Cons_Suc)
  qed
qed

end
