(* ===== verification/Mdns_Builders.thy ===== *)
theory Mdns_Builders
  imports Mdns_Roundtrip
begin

unbundle bit_operations_syntax

text \<open>
  What the builders of \<open>src/mdns_wire.c\<close> write: the byte image of a query and of a service
  response, records with their patched lengths, and pointers to earlier names.
\<close>

section \<open>Chains of writer steps\<close>

definition fresh_writer :: "u8 list \<Rightarrow> nat \<Rightarrow> wire_writer" where
  "fresh_writer buf capacity = \<lparr>w_data = buf, w_capacity = capacity, w_offset = 0, w_failed = False\<rparr>"

lemma fresh_writer_ok: "capacity \<le> length buf \<Longrightarrow> writer_ok (fresh_writer buf capacity)"
  by (simp add: writer_ok_def fresh_writer_def)

lemma emits_fresh:
  assumes "emits (fresh_writer buf capacity) bs w" and "capacity \<le> length buf"
  shows "w_failed w \<longleftrightarrow> capacity < length bs"
    and "\<not> w_failed w \<Longrightarrow> w_offset w = length bs \<and> length bs \<le> capacity \<and> has (w_data w) 0 bs \<and>
      length (w_data w) = length buf \<and> drop capacity (w_data w) = drop capacity buf"
  using assms by (auto simp: emits_def fresh_writer_def written_def writer_ok_def has_def split: if_splits)

lemma emits_step:
  assumes "emits w a w1" and "writer_ok w" and "\<And>v. writer_ok v \<Longrightarrow> emits v b (f v)"
  shows "emits w (a @ b) (f w1)"
  using emits_trans[OF assms(1) assms(3)[OF emits_ok[OF assms(1)]] assms(2)] .

text \<open>A pointer to a position the writer passed earlier.\<close>

lemma emits_pointer_at:
  assumes "emits w0 pre wk" and "emits wk mid w" and "w_offset w0 = 0" and "\<not> w_failed w0"
    and "length pre \<le> DNS_POINTER_VALUE_MASK" and "writer_ok w"
  shows "emits w (enc16 (pointer_word (length pre))) (writer_pointer w (w_offset wk))"
proof (cases "w_failed w")
  case True
  with assms(6) show ?thesis
    by (auto simp: emits_def writer_pointer_def writer_u16_def writer_bytes_def writer_ok_def)
next
  case False
  with assms have "w_offset wk = length pre"
    by (auto simp: emits_def split: if_splits)
  with assms emits_u16[OF assms(6)] show ?thesis by (simp add: writer_pointer_def)
qed

section \<open>Records\<close>

definition rec_wire :: "u16 \<Rightarrow> u16 \<Rightarrow> u32 \<Rightarrow> u8 list \<Rightarrow> u8 list" where
  "rec_wire ty cl ttl body = enc16 ty @ enc16 cl @ enc32 ttl @ enc16 (of_nat (length body)) @ body"

lemma length_rec_wire [simp]: "length (rec_wire ty cl ttl body) = 10 + length body"
  by (simp add: rec_wire_def)

lemma emits_record_header:
  assumes "writer_ok w" and "writer_record_header w ty cl ttl = (w1, l, d)"
  shows "emits w (enc16 ty @ enc16 cl @ enc32 ttl @ enc16 0) w1"
    and "\<not> w_failed w1 \<Longrightarrow> l = w_offset w + 8 \<and> d = w_offset w + 10"
proof -
  let ?a = "writer_u16 w ty" let ?b = "writer_u16 ?a cl" let ?c = "writer_u32 ?b ttl"
  have w1: "w1 = writer_u16 ?c 0" "l = w_offset ?c" "d = w_offset w1"
    using assms(2) by (auto simp: writer_record_header_def Let_def)
  have c: "emits w ((enc16 ty @ enc16 cl) @ enc32 ttl) ?c"
    by (intro emits_step[OF emits_step[OF emits_u16]] emits_u16 emits_u32 assms(1))
  have e: "emits w (((enc16 ty @ enc16 cl) @ enc32 ttl) @ enc16 0) w1"
    unfolding w1(1) by (intro emits_step[OF c] emits_u16 assms(1))
  then show "emits w (enc16 ty @ enc16 cl @ enc32 ttl @ enc16 0) w1" by simp
  assume nf: "\<not> w_failed w1"
  with e c w1 show "l = w_offset w + 8 \<and> d = w_offset w + 10"
    by (auto simp: emits_def split: if_splits)
qed

lemma patch_written:
  assumes "written w = A @ [x, y] @ B" and "writer_ok w" and "\<not> w_failed w" and "off = length A"
  shows "written (writer_patch_u16 w off v) = A @ enc16 v @ B"
    and "\<not> w_failed (writer_patch_u16 w off v)"
proof -
  have len: "w_offset w = length A + 2 + length B" using length_written[OF assms(2)] assms(1) by simp
  have le: "w_offset w \<le> w_capacity w" using assms(2) by (simp add: writer_ok_def)
  have ok: "\<not> w_failed w" "off \<le> w_capacity w" "2 \<le> w_capacity w - off"
    using assms(3,4) len le by simp_all
  then show "\<not> w_failed (writer_patch_u16 w off v)" by (simp add: writer_patch_u16_def)
  have "written (writer_patch_u16 w off v) = (written w)[off := ucast (drop_bit 8 v), off + 1 := ucast v]"
    using ok by (simp add: writer_patch_u16_def written_def take_update_swap)
  also have "\<dots> = A @ enc16 v @ B"
    by (simp add: assms(1,4) enc16_def list_update_append)
  finally show "written (writer_patch_u16 w off v) = A @ enc16 v @ B" .
qed

lemma patch_frame [simp]:
  "w_offset (writer_patch_u16 w off v) = w_offset w" "w_capacity (writer_patch_u16 w off v) = w_capacity w"
  "length (w_data (writer_patch_u16 w off v)) = length (w_data w)"
  by (simp_all add: writer_patch_u16_def)

lemma patch_drop [simp]: "drop (w_capacity w) (w_data (writer_patch_u16 w off v)) = drop (w_capacity w) (w_data w)"
proof (cases "w_failed w \<or> off > w_capacity w \<or> size_sub (w_capacity w) off < 2")
  case True
  then show ?thesis unfolding writer_patch_u16_def by (simp only: if_True) simp
next
  case False
  then have "off + 1 < w_capacity w" by (auto simp: size_sub_def split: if_splits)
  then show ?thesis by (simp add: writer_patch_u16_def)
qed

lemma emits_record:
  assumes "writer_ok w" and "writer_record_header w ty cl ttl = (w1, l, d)"
    and "emits w1 body w2" and "length body \<le> 65535"
  shows "emits w (rec_wire ty cl ttl body) (writer_finish_record w2 l d)"
proof -
  note h = emits_record_header[OF assms(1,2)]
  have t: "emits w ((enc16 ty @ enc16 cl @ enc32 ttl @ enc16 0) @ body) w2"
    by (rule emits_trans[OF h(1) assms(3,1)])
  have ok2: "writer_ok w2" by (rule emits_ok[OF t])
  show ?thesis
  proof (cases "w_failed w2")
    case True
    with t ok2 show ?thesis
      by (auto simp: emits_def writer_finish_record_def writer_ok_def rec_wire_def split: if_splits)
  next
    case False
    with assms(3) have nf1: "\<not> w_failed w1" by (auto simp: emits_def split: if_splits)
    note ld = h(2)[OF nf1]
    from t False have off: "w_offset w2 = w_offset w + 10 + length body" "\<not> w_failed w"
      and wr: "written w2 = (written w @ enc16 ty @ enc16 cl @ enc32 ttl) @ [0, 0] @ body"
      by (auto simp: emits_def enc16_def split: if_splits)
    have l: "l = length (written w @ enc16 ty @ enc16 cl @ enc32 ttl)"
      using ld length_written[OF assms(1)] by simp
    have fin: "writer_finish_record w2 l d = writer_patch_u16 w2 l (of_nat (length body))"
      using False off ld assms(4) by (simp add: writer_finish_record_def)
    have cap: "w_capacity w2 = w_capacity w" using t by (simp add: emits_def)
    note dr = patch_drop[of w2 l "of_nat (length body)", unfolded cap]
    note p = patch_written[OF wr ok2 False l, of "of_nat (length body)"]
    from t p ok2 off False dr show ?thesis
      unfolding fin by (auto simp: emits_def rec_wire_def writer_ok_def split: if_splits)
  qed
qed

lemma emits_txt_strings:
  "writer_ok w \<Longrightarrow> \<forall>t \<in> set ts. length (ts_bytes t) = ts_length t \<Longrightarrow>
   emits w (txt_wire (map ts_bytes ts)) (writer_txt_strings w ts)"
proof (induction ts arbitrary: w)
  case Nil
  then show ?case by (simp add: emits_Nil)
next
  case (Cons t ts)
  let ?w = "writer_bytes (writer_u8 w (of_nat (ts_length t))) (ts_bytes t)"
  have e: "emits w (label_wire (ts_bytes t)) ?w"
    using emits_label[OF Cons.prems(1), of "ts_bytes t"] Cons.prems(2) by simp
  with Cons.IH[OF emits_ok[OF e]] Cons.prems show ?case
    by (auto intro: emits_trans[OF e])
qed

section \<open>Joined names\<close>

lemma split_labels_append_dot:
  "l @ cs \<noteq> [] \<Longrightarrow> last (l @ cs) \<noteq> dot \<Longrightarrow>
   split_labels l (cs @ dot # rest) = split_labels l cs @ (if rest = [] then [] else split_labels [] rest)"
proof (induction l cs rule: split_labels.induct)
  case (1 l)
  then show ?case by simp
next
  case (2 l c cs)
  show ?case
  proof (cases "c = dot")
    case False
    with "2.IH"(1)[OF False] "2.prems" show ?thesis by simp
  next
    case True
    with "2.prems" have cs: "cs \<noteq> []" by auto
    with True "2.IH"(2) "2.prems" show ?thesis by simp
  qed
qed

lemma strip_trailing_dots_decomp: "\<exists>k. s = strip_trailing_dots s @ replicate k dot"
proof -
  have "rev s = takeWhile (\<lambda>c. c = dot) (rev s) @ dropWhile (\<lambda>c. c = dot) (rev s)" by simp
  moreover have "takeWhile (\<lambda>c. c = dot) (rev s) = replicate (length (takeWhile (\<lambda>c. c = dot) (rev s))) dot"
    by (metis (mono_tags, lifting) replicate_length_same set_takeWhileD)
  ultimately have "s = rev (dropWhile (\<lambda>c. c = dot) (rev s)) @
      rev (replicate (length (takeWhile (\<lambda>c. c = dot) (rev s))) dot)"
    by (metis rev_append rev_rev_ident)
  then show ?thesis by (auto simp: strip_trailing_dots_def)
qed

lemma last_strip_trailing_dots:
  assumes "strip_trailing_dots s \<noteq> []"
  shows "last (strip_trailing_dots s) \<noteq> dot"
proof -
  let ?d = "dropWhile (\<lambda>c. c = dot) (rev s)"
  from assms have d: "?d \<noteq> []" unfolding strip_trailing_dots_def by blast
  have "last (strip_trailing_dots s) = hd ?d"
    unfolding strip_trailing_dots_def by (rule last_rev)
  with hd_dropWhile[OF d] show ?thesis by simp
qed

lemma labels_of_strip:
  assumes "dotted_name_valid (Some p) \<noteq> None" and "strip_trailing_dots p \<noteq> []"
  shows "labels_of (strip_trailing_dots p) = labels_of p"
proof -
  obtain k where k: "p = strip_trailing_dots p @ replicate k dot"
    using strip_trailing_dots_decomp by blast
  let ?q = "strip_trailing_dots p"
  have q: "last ([] @ ?q) \<noteq> dot" using last_strip_trailing_dots[OF assms(2)] by simp
  have nd: "?q \<noteq> [dot]" using q by auto
  have nv: "\<forall>l \<in> set (labels_of p). l \<noteq> []"
    using labels_valid_of[OF assms(1)] by (simp add: labels_valid_def)
  have pnd: "p \<noteq> [dot]"
  proof
    assume "p = [dot]"
    then have "?q = []" by (simp add: strip_trailing_dots_def)
    with assms(2) show False by simp
  qed
  show ?thesis
  proof (cases k)
    case 0
    with k show ?thesis by simp
  next
    case (Suc j)
    have "split_labels [] p = split_labels [] ?q @
        (if replicate j dot = [] then [] else split_labels [] (replicate j dot))"
      using split_labels_append_dot[of "[]" ?q "replicate j dot"] q assms(2) k Suc by simp
    moreover have "j = 0"
    proof (rule ccontr)
      assume "j \<noteq> 0"
      then obtain i where "j = Suc i" by (cases j) auto
      with calculation have "[] \<in> set (split_labels [] p)" by simp
      moreover have "labels_of p = split_labels [] p" using pnd by (simp add: labels_of_def)
      ultimately show False using nv by metis
    qed
    ultimately show ?thesis using nd pnd by (simp add: labels_of_def)
  qed
qed

lemma join_name_Some:
  assumes "join_name (Some p) (Some s) = Some out"
  shows "dotted_name_valid (Some out) \<noteq> None" and "chop_dot out = out"
    and "dotted_name_valid (Some p) \<noteq> None \<Longrightarrow>
      labels_of out = labels_of p @ labels_of (strip_trailing_dots (dropWhile (\<lambda>c. c = dot) s))"
proof -
  let ?p = "strip_trailing_dots p" and ?s = "strip_trailing_dots (dropWhile (\<lambda>c. c = dot) s)"
  from assms have o: "out = ?p @ [dot] @ ?s" "?p \<noteq> []" "?s \<noteq> []"
    and v: "dotted_name_valid (Some out) \<noteq> None"
    by (auto simp: join_name_def Let_def split: if_splits)
  show "dotted_name_valid (Some out) \<noteq> None" by (rule v)
  have ls: "last ?s \<noteq> dot" by (rule last_strip_trailing_dots[OF o(3)])
  have lp: "last ([] @ ?p) \<noteq> dot" using last_strip_trailing_dots[OF o(2)] by simp
  from o ls show "chop_dot out = out" by (simp add: chop_dot_def)
  assume vp: "dotted_name_valid (Some p) \<noteq> None"
  have "length out \<noteq> length [dot]" using o(2) unfolding o(1) by (cases ?p) simp_all
  then have nd: "out \<noteq> [dot]" "?p \<noteq> [dot]" "?s \<noteq> [dot]" using ls lp by auto
  have "split_labels [] out = split_labels [] ?p @ split_labels [] ?s"
    using split_labels_append_dot[of "[]" ?p ?s] lp o by simp
  with nd labels_of_strip[OF vp o(2)] show "labels_of out = labels_of p @ labels_of ?s"
    by (simp add: labels_of_def)
qed

lemma dotted_prefix_loop_spec:
  "\<forall>x \<in> set (split_labels l cs). x \<noteq> [] \<Longrightarrow>
   dotted_prefix_loop (length l) tot cs = tot + labels_size (split_labels l cs)"
proof (induction l cs arbitrary: tot rule: split_labels.induct)
  case (1 l)
  show ?case by simp
next
  case (2 l c cs)
  show ?case
  proof (cases "c = dot")
    case False
    with "2.IH"(1)[OF False, of tot] "2.prems" show ?thesis by simp
  next
    case True
    with "2.prems" have l: "l \<noteq> []" by simp
    show ?thesis
    proof (cases "cs = []")
      case c: True
      with True l show ?thesis by (simp add: Let_def)
    next
      case c: False
      have "\<not> c \<noteq> dot" using True by simp
      from "2.IH"(2)[OF this c, of "tot + (1 + length l)"] "2.prems" True c l show ?thesis
        by (simp add: Let_def)
    qed
  qed
qed

lemma dotted_prefix_wire_length_Some:
  assumes "dotted_prefix_wire_length (Some p) = Some n"
  shows "dotted_name_valid (Some p) \<noteq> None" and "n = labels_size (labels_of p)"
proof -
  from assms show v: "dotted_name_valid (Some p) \<noteq> None"
    by (auto simp: dotted_prefix_wire_length_def split: if_splits)
  from assms have p: "p \<noteq> [dot]" "n = dotted_prefix_loop 0 0 p"
    by (auto simp: dotted_prefix_wire_length_def split: if_splits)
  have "\<forall>x \<in> set (split_labels [] p). x \<noteq> []"
    using labels_valid_of[OF v] p(1) by (simp add: labels_valid_def labels_of_def)
  from dotted_prefix_loop_spec[OF this, of 0] p show "n = labels_size (labels_of p)"
    by (simp add: labels_of_def)
qed

end
