(* ===== verification/Mdns_Service.thy ===== *)
theory Mdns_Service
  imports Mdns_Builders
begin

unbundle bit_operations_syntax

text \<open>
  Round trips of whole packets: a query and a service response written by the builders of
  \<open>src/mdns_wire.c\<close> are read back by \<open>mdns_wire_parse_packet\<close> as what they were built from.
\<close>

text \<open>Offsets stay in the form \<open>off + n\<close>.\<close>

declare add_2_eq_Suc [simp del] add_2_eq_Suc' [simp del]

section \<open>Reading one record\<close>

lemma class_bits:
  "(MDNS_WIRE_CLASS_IN OR (if b then DNS_CACHE_FLUSH else 0)) AND NOT DNS_CACHE_FLUSH = MDNS_WIRE_CLASS_IN"
  "((MDNS_WIRE_CLASS_IN OR (if b then DNS_CACHE_FLUSH else 0)) AND DNS_CACHE_FLUSH \<noteq> 0) = b"
  "MDNS_WIRE_CLASS_IN AND NOT DNS_CACHE_FLUSH = MDNS_WIRE_CLASS_IN"
  "MDNS_WIRE_CLASS_IN AND DNS_CACHE_FLUSH = 0"
  by (simp_all add: MDNS_WIRE_CLASS_IN_def DNS_CACHE_FLUSH_def)

lemma parse_record_has:
  assumes owner: "decode_name_at data sz off0 = Ok (owner, off)"
    and h: "has data off (rec_wire ty cl ttl body)" and b: "off + 10 + length body \<le> sz"
    and len: "length body \<le> 65535"
    and rd: "parse_rdata data sz ty (length body) (off + 10) = Ok rd"
  shows "parse_record data sz section off0 =
    Ok (\<lparr>r_owner = owner, r_section = section, r_type = ty,
         r_class_code = cl AND NOT DNS_CACHE_FLUSH, r_cache_flush = (cl AND DNS_CACHE_FLUSH \<noteq> 0),
         r_ttl = ttl, r_rdata_length = of_nat (length body), r_data = rd\<rparr>, off + 10 + length body)"
proof -
  have hs: "has data off (enc16 ty)" "has data (off + 2) (enc16 cl)" "has data (off + 4) (enc32 ttl)"
    "has data (off + 8) (enc16 (of_nat (length body)))"
    using h by (simp_all add: rec_wire_def has_append ac_simps)
  have un: "unat (of_nat (length body) :: u16) = length body" using len by (simp add: unat_of_nat)
  show ?thesis
    using owner read_u16_has[OF hs(1), of sz] read_u16_has[OF hs(2), of sz] read_u32_has[OF hs(3), of sz]
      read_u16_has[OF hs(4), of sz] rd b un
    by (simp add: parse_record_def ac_simps)
qed

section \<open>Queries\<close>

definition query_wire :: "cstring \<Rightarrow> u16 \<Rightarrow> bool \<Rightarrow> u8 list" where
  "query_wire n ty u =
     enc16 0 @ enc16 0 @ enc16 1 @ enc16 0 @ enc16 0 @ enc16 0 @ name_wire (labels_of n) @ enc16 ty @
     enc16 (MDNS_WIRE_CLASS_IN OR (if u then DNS_CACHE_FLUSH else 0))"

lemma build_query_wire:
  assumes "capacity \<le> length buf"
  shows "mdns_wire_build_query (Some buf) capacity (Some n) ty u = Err INVALID_ARGUMENT \<longleftrightarrow>
      dotted_name_valid (Some n) = None \<or> ty = 0"
    and "mdns_wire_build_query (Some buf) capacity (Some n) ty u = Err BUFFER_TOO_SMALL \<longleftrightarrow>
      dotted_name_valid (Some n) \<noteq> None \<and> ty \<noteq> 0 \<and> capacity < length (query_wire n ty u)"
    and "mdns_wire_build_query (Some buf) capacity (Some n) ty u \<noteq> Fault"
    and "mdns_wire_build_query (Some buf) capacity (Some n) ty u = Ok (buf', sz) \<Longrightarrow>
      sz = length (query_wire n ty u) \<and> sz \<le> capacity \<and> has buf' 0 (query_wire n ty u) \<and>
      length buf' = length buf \<and> drop capacity buf' = drop capacity buf"
proof -
  let ?c = "MDNS_WIRE_CLASS_IN OR (if u then DNS_CACHE_FLUSH else 0)"
  define w6 where "w6 = writer_u16 (writer_u16 (writer_u16 (writer_u16 (writer_u16 (writer_u16
    (fresh_writer buf capacity) 0) 0) 1) 0) 0) 0"
  define w9 where "w9 = writer_u16 (writer_u16 (writer_name w6 (Some n)) ty) ?c"
  note ok = fresh_writer_ok[OF assms]
  have eq: "mdns_wire_build_query (Some buf) capacity (Some n) ty u =
      (if dotted_name_valid (Some n) = None \<or> ty = 0 then Err INVALID_ARGUMENT
       else if w_failed w9 then Err BUFFER_TOO_SMALL else Ok (w_data w9, w_offset w9))"
    by (simp add: mdns_wire_build_query_def Let_def w9_def w6_def fresh_writer_def)
  have e6: "emits (fresh_writer buf capacity)
      (((((enc16 0 @ enc16 0) @ enc16 1) @ enc16 0) @ enc16 0) @ enc16 0) w6"
    unfolding w6_def by (intro emits_step[OF _ ok emits_u16] emits_u16[OF ok])
  have e9: "emits (fresh_writer buf capacity) (query_wire n ty u) w9"
    if v: "dotted_name_valid (Some n) \<noteq> None"
  proof -
    have "emits (fresh_writer buf capacity)
        (((((((enc16 0 @ enc16 0) @ enc16 1) @ enc16 0) @ enc16 0) @ enc16 0) @
          name_wire (labels_of n) @ enc16 ty) @ enc16 ?c) w9"
      unfolding w9_def append_assoc[symmetric]
      by (intro emits_step[OF _ ok emits_u16] emits_step[OF e6 ok emits_writer_name[OF _ v], unfolded append_assoc[symmetric]])
    then show ?thesis by (simp add: query_wire_def)
  qed
  show "mdns_wire_build_query (Some buf) capacity (Some n) ty u = Err INVALID_ARGUMENT \<longleftrightarrow>
      dotted_name_valid (Some n) = None \<or> ty = 0"
    and "mdns_wire_build_query (Some buf) capacity (Some n) ty u \<noteq> Fault"
    unfolding eq by auto
  show "mdns_wire_build_query (Some buf) capacity (Some n) ty u = Err BUFFER_TOO_SMALL \<longleftrightarrow>
      dotted_name_valid (Some n) \<noteq> None \<and> ty \<noteq> 0 \<and> capacity < length (query_wire n ty u)"
    using emits_fresh(1)[OF e9 assms] unfolding eq by auto
  assume "mdns_wire_build_query (Some buf) capacity (Some n) ty u = Ok (buf', sz)"
  then have "dotted_name_valid (Some n) \<noteq> None" "\<not> w_failed w9" "buf' = w_data w9" "sz = w_offset w9"
    unfolding eq by (auto split: if_splits)
  with emits_fresh(2)[OF e9 assms]
  show "sz = length (query_wire n ty u) \<and> sz \<le> capacity \<and> has buf' 0 (query_wire n ty u) \<and>
      length buf' = length buf \<and> drop capacity buf' = drop capacity buf"
    by simp
qed

lemma parse_query:
  assumes "has data 0 (query_wire n ty u)" and "sz = length (query_wire n ty u)"
    and v: "dotted_name_valid (Some n) \<noteq> None"
  shows "mdns_wire_parse_packet (Some data) sz =
    Ok \<lparr>p_id = 0, p_flags = 0, p_declared_question_count = 1, p_declared_answer_count = 0,
        p_declared_authority_count = 0, p_declared_additional_count = 0,
        p_questions = [\<lparr>q_name = chop_dot n, q_type = ty, q_class_code = MDNS_WIRE_CLASS_IN,
                        q_unicast_response = u\<rparr>],
        p_records = []\<rparr>"
proof -
  let ?l = "length (name_wire (labels_of n))" and ?c = "MDNS_WIRE_CLASS_IN OR (if u then DNS_CACHE_FLUSH else 0)"
  have sz: "sz = 12 + ?l + 4" "sz \<le> length data"
    using assms(1,2) has_len[OF assms(1)] by (simp_all add: query_wire_def)
  have hs: "has data 0 (enc16 0)" "has data 2 (enc16 0)" "has data 4 (enc16 1)" "has data 6 (enc16 0)"
    "has data 8 (enc16 0)" "has data 10 (enc16 0)" "has data 12 (name_wire (labels_of n))"
    "has data (12 + ?l) (enc16 ty)" "has data (14 + ?l) (enc16 ?c)"
    using assms(1) unfolding query_wire_def
    by (simp_all add: has_append ac_simps split del: if_split)
  have nm: "decode_name_at data sz 12 = Ok (chop_dot n, 12 + ?l)"
    using decode_of_name_at[OF name_at_has[OF hs(7)]] labels_valid_of[OF v] sz name_text_labels_of[OF v]
    by (simp add: decode_name_at_def labels_valid_def)
  have pq: "parse_question data sz 12 = Ok (\<lparr>q_name = chop_dot n, q_type = ty,
      q_class_code = MDNS_WIRE_CLASS_IN, q_unicast_response = u\<rparr>, sz)"
    using nm read_u16_has[OF hs(8), of sz] read_u16_has[OF hs(9), of sz] sz
    by (simp add: parse_question_def class_bits)
  show ?thesis
    using read_u16_has[OF hs(1), of sz] read_u16_has[OF hs(2), of sz] read_u16_has[OF hs(3), of sz]
      read_u16_has[OF hs(4), of sz] read_u16_has[OF hs(5), of sz] read_u16_has[OF hs(6), of sz] pq sz
    by (simp add: mdns_wire_parse_packet_def MDNS_WIRE_HEADER_SIZE_def MDNS_WIRE_MAX_QUESTIONS_def)
qed

section \<open>Service responses\<close>

text \<open>
  The byte image of a service response: the service name stands at offset 12, the instance name
  at \<open>resp_instance_at\<close>, the host name at \<open>resp_host_at\<close>, and the domain inside the service name.
\<close>

definition resp_flush :: "mdns_wire_response_options \<Rightarrow> u16" where
  "resp_flush opt = (MDNS_WIRE_CLASS_IN OR (if ro_cache_flush opt then DNS_CACHE_FLUSH else 0))"

definition resp_ttl :: "mdns_wire_response_options \<Rightarrow> u32" where
  "resp_ttl opt = (if ro_goodbye opt then 0 else ro_ttl opt)"

definition resp_instance_at :: "u8 list list \<Rightarrow> nat" where
  "resp_instance_at sl = 12 + length (name_wire sl) + 10"

definition resp_host_at :: "u8 list list \<Rightarrow> cstring \<Rightarrow> nat" where
  "resp_host_at sl inst = resp_instance_at sl + length (label_wire inst) + 2 + 2 + 10 + 6"

definition resp_header :: "mdns_wire_response_options \<Rightarrow> u8 list" where
  "resp_header opt = enc16 0 @ enc16 (ro_header_flags opt) @ enc16 0 @ enc16 1 @ enc16 0 @ enc16 3"

definition resp_ptr_body :: "cstring \<Rightarrow> u8 list" where
  "resp_ptr_body inst = label_wire inst @ enc16 (pointer_word 12)"

definition resp_srv_body :: "u16 \<Rightarrow> cstring \<Rightarrow> nat \<Rightarrow> u8 list" where
  "resp_srv_body port host pl = enc16 0 @ enc16 0 @ enc16 port @ label_wire host @ enc16 (pointer_word (12 + pl))"

definition resp_wire ::
  "mdns_wire_response_options \<Rightarrow> u8 list list \<Rightarrow> nat \<Rightarrow> cstring \<Rightarrow> cstring \<Rightarrow> u16 \<Rightarrow> u8 list list \<Rightarrow> u8 list \<Rightarrow> u8 list" where
  "resp_wire opt sl pl inst host port txts ip =
     resp_header opt @
     name_wire sl @ rec_wire MDNS_WIRE_TYPE_PTR MDNS_WIRE_CLASS_IN (resp_ttl opt) (resp_ptr_body inst) @
     enc16 (pointer_word (resp_instance_at sl)) @
     rec_wire MDNS_WIRE_TYPE_SRV (resp_flush opt) (resp_ttl opt) (resp_srv_body port host pl) @
     enc16 (pointer_word (resp_instance_at sl)) @
     rec_wire MDNS_WIRE_TYPE_TXT (resp_flush opt) (resp_ttl opt) (txt_wire txts) @
     enc16 (pointer_word (resp_host_at sl inst)) @
     rec_wire MDNS_WIRE_TYPE_A (resp_flush opt) (resp_ttl opt) ip"

lemma length_label_wire [simp]: "length (label_wire l) = length l + 1"
  by (simp add: label_wire_def)

lemma emits_writer_label: "writer_ok w \<Longrightarrow> emits w (label_wire l) (writer_label w l)"
  using emits_label by (simp add: writer_label_def)

lemma emits_failed: "emits w bs w' \<Longrightarrow> w_failed w \<Longrightarrow> w_failed w'"
  by (simp add: emits_def)

lemma emits_pointer_to:
  assumes "emits w0 bs w" and "writer_ok w0" and "\<not> w_failed w \<Longrightarrow> t' = t" and "t \<le> DNS_POINTER_VALUE_MASK"
  shows "emits w0 (bs @ enc16 (pointer_word t)) (writer_pointer w t')"
proof (cases "w_failed w")
  case True
  with emits_ok[OF assms(1)] have "emits w (enc16 (pointer_word t)) (writer_pointer w t')"
    by (auto simp: emits_def writer_pointer_def writer_u16_def writer_bytes_def writer_ok_def)
  then show ?thesis by (rule emits_trans[OF assms(1) _ assms(2)])
next
  case False
  with assms(3,4) emits_u16[OF emits_ok[OF assms(1)]]
  have "emits w (enc16 (pointer_word t)) (writer_pointer w t')" by (simp add: writer_pointer_def)
  then show ?thesis by (rule emits_trans[OF assms(1) _ assms(2)])
qed

lemma emits_whole_record:
  assumes "emits w0 bs w" and "writer_ok w0" and "writer_record_header w ty cl ttl = (w1, l, d)"
    and "emits w1 body w2" and "length body \<le> 65535"
  shows "emits w0 (bs @ rec_wire ty cl ttl body) (writer_finish_record w2 l d)"
  by (rule emits_trans[OF assms(1) emits_record[OF emits_ok[OF assms(1)] assms(3-5)] assms(2)])

lemma failed_stays:
  "w_failed w \<Longrightarrow> w_failed (writer_pointer w t)"
  "w_failed w \<Longrightarrow> w_failed (writer_finish_record w l d)"
  by (simp_all add: writer_finish_record_def writer_pointer_def writer_u16_def writer_bytes_def)

lemma emits_fresh_offset:
  "emits (fresh_writer buf capacity) bs w \<Longrightarrow> \<not> w_failed w \<Longrightarrow> w_offset w = length bs"
  by (auto simp: emits_def fresh_writer_def split: if_splits)

lemma service_txt_length:
  "service_txt_valid n ts \<Longrightarrow> \<forall>t \<in> set ts. length (ts_bytes t) = ts_length t \<Longrightarrow> n \<le> 65535 \<Longrightarrow>
   n + length (txt_wire (map ts_bytes ts)) \<le> 65535 \<and> (\<forall>x \<in> set (map ts_bytes ts). length x \<le> 255)"
proof (induction n ts rule: service_txt_valid.induct)
  case (2 n t ts)
  have c: "ts_length t \<le> 255" "n \<le> 65535 - (ts_length t + 1)" "service_txt_valid (n + (ts_length t + 1)) ts"
    using "2.prems"(1) by (auto split: if_splits)
  from "2.prems"(1) have nn: "\<not> (255 < ts_length t \<or> ts_length t \<noteq> 0 \<and> ts_data t = None \<or>
      65535 - (ts_length t + 1) < n)" by (auto split: if_splits)
  have le: "n + (ts_length t + 1) \<le> 65535" using c(1,2) by linarith
  from "2.IH"[OF nn c(3) _ le] "2.prems"(2) c(1) show ?case by simp
qed simp

text \<open>The builder writes exactly this image.\<close>

lemma build_response_wire:
  assumes cap: "capacity \<le> length buf" and sv: "service_valid (Some s)"
    and j: "join_name (sv_service_type s) (sv_domain s) = Some sn"
    and pl: "dotted_prefix_wire_length (sv_service_type s) = Some pl" and pl_le: "pl \<le> 254"
    and ts: "\<forall>t \<in> set (sv_txt_views s). length (ts_bytes t) = ts_length t"
    and ip: "length (sv_ipv4 s) = 4"
  shows "\<exists>w. mdns_wire_build_service_response (Some buf) capacity (Some s) (Some opt) =
      (if w_failed w then Err BUFFER_TOO_SMALL else Ok (w_data w, w_offset w)) \<and>
    emits (fresh_writer buf capacity) (resp_wire opt (labels_of sn) pl (the (sv_instance s))
      (the (sv_host s)) (sv_port s) (map ts_bytes (sv_txt_views s)) (sv_ipv4 s)) w"
proof -
  let ?F = "fresh_writer buf capacity" and ?sl = "labels_of sn"
  let ?inst = "the (sv_instance s)" and ?host = "the (sv_host s)"
  let ?ttl = "resp_ttl opt" and ?uc = "resp_flush opt"
  have inst: "length ?inst \<le> 63" and host: "length ?host \<le> 63"
    and tv: "service_txt_valid 0 (sv_txt_views s)"
    using sv by (auto simp: service_valid_def raw_label_valid_def split: if_splits option.splits)
  obtain p d where "sv_service_type s = Some p" "sv_domain s = Some d"
    using j by (auto simp: join_name_def split: option.splits)
  with j join_name_Some have v: "dotted_name_valid (Some sn) \<noteq> None" by metis
  have nl: "length (name_wire ?sl) \<le> 255"
    using labels_valid_of[OF v] by (simp add: labels_valid_def length_name_wire)
  note ok = fresh_writer_ok[OF cap]
  define w6 where "w6 = writer_u16 (writer_u16 (writer_u16 (writer_u16 (writer_u16 (writer_u16
    ?F 0) (ro_header_flags opt)) 0) 1) 0) 3"
  define w7 where "w7 = writer_name w6 (Some sn)"
  obtain w8 l1 d1 where h1: "writer_record_header w7 MDNS_WIRE_TYPE_PTR MDNS_WIRE_CLASS_IN ?ttl = (w8, l1, d1)"
    by (cases "writer_record_header w7 MDNS_WIRE_TYPE_PTR MDNS_WIRE_CLASS_IN ?ttl") auto
  define w10 where "w10 = writer_pointer (writer_label w8 ?inst) (w_offset w6)"
  define w11 where "w11 = writer_finish_record w10 l1 d1"
  define w12 where "w12 = writer_pointer w11 (w_offset w8)"
  obtain w13 l2 d2 where h2: "writer_record_header w12 MDNS_WIRE_TYPE_SRV ?uc ?ttl = (w13, l2, d2)"
    by (cases "writer_record_header w12 MDNS_WIRE_TYPE_SRV ?uc ?ttl") auto
  define w16 where "w16 = writer_u16 (writer_u16 (writer_u16 w13 0) 0) (sv_port s)"
  define w18 where "w18 = writer_pointer (writer_label w16 ?host) (w_offset w6 + pl)"
  define w19 where "w19 = writer_finish_record w18 l2 d2"
  define w20 where "w20 = writer_pointer w19 (w_offset w8)"
  obtain w21 l3 d3 where h3: "writer_record_header w20 MDNS_WIRE_TYPE_TXT ?uc ?ttl = (w21, l3, d3)"
    by (cases "writer_record_header w20 MDNS_WIRE_TYPE_TXT ?uc ?ttl") auto
  define w22 where "w22 = writer_txt_strings w21 (sv_txt_views s)"
  define w23 where "w23 = writer_finish_record w22 l3 d3"
  define w24 where "w24 = writer_pointer w23 (w_offset w16)"
  obtain w25 l4 d4 where h4: "writer_record_header w24 MDNS_WIRE_TYPE_A ?uc ?ttl = (w25, l4, d4)"
    by (cases "writer_record_header w24 MDNS_WIRE_TYPE_A ?uc ?ttl") auto
  define w27 where "w27 = writer_finish_record (writer_bytes w25 (sv_ipv4 s)) l4 d4"
  have eq: "mdns_wire_build_service_response (Some buf) capacity (Some s) (Some opt) =
      (if w_failed w27 then Err BUFFER_TOO_SMALL else Ok (w_data w27, w_offset w27))"
    using sv j pl h1 h2 h3 h4
    by (simp add: mdns_wire_build_service_response_def Let_def w6_def[symmetric, unfolded fresh_writer_def]
        w7_def[symmetric] w10_def[symmetric] w11_def[symmetric] w12_def[symmetric] w16_def[symmetric]
        w18_def[symmetric] w19_def[symmetric] w20_def[symmetric] w22_def[symmetric] w23_def[symmetric]
        w24_def[symmetric] w27_def[symmetric] resp_ttl_def[symmetric] resp_flush_def[symmetric])
  have e6: "emits ?F (resp_header opt) w6"
  proof -
    have "emits ?F (((((enc16 0 @ enc16 (ro_header_flags opt)) @ enc16 0) @ enc16 1) @ enc16 0) @ enc16 3) w6"
      unfolding w6_def by (intro emits_step[OF _ ok emits_u16] emits_u16[OF ok])
    then show ?thesis by (simp add: resp_header_def)
  qed
  note ok6 = emits_ok[OF e6]
  have s7: "emits w6 (name_wire ?sl) w7" unfolding w7_def by (rule emits_writer_name[OF ok6 v])
  note e7 = emits_trans[OF e6 s7 ok] and s8 = emits_record_header(1)[OF emits_ok[OF s7] h1]
  note e8 = emits_trans[OF e7 s8 ok] and ok8 = emits_ok[OF s8]
  note f68 = emits_failed[OF s8, OF emits_failed[OF s7]]
  have o6: "\<not> w_failed w8 \<Longrightarrow> w_offset w6 = 12"
    using emits_fresh_offset[OF e6] f68 by (auto simp: resp_header_def)
  have o8: "\<not> w_failed w8 \<Longrightarrow> w_offset w8 = resp_instance_at ?sl"
    using emits_fresh_offset[OF e8] by (simp add: resp_header_def resp_instance_at_def)
  note lab10 = emits_writer_label[OF ok8, of ?inst]
  have s10: "emits w8 (resp_ptr_body ?inst) w10"
    unfolding w10_def resp_ptr_body_def
    using o6 emits_failed[OF lab10]
    by (intro emits_pointer_to[OF lab10 ok8]) (auto simp: DNS_POINTER_VALUE_MASK_def)
  have e11: "emits ?F ((resp_header opt @ name_wire ?sl) @
      rec_wire MDNS_WIRE_TYPE_PTR MDNS_WIRE_CLASS_IN ?ttl (resp_ptr_body ?inst)) w11"
    unfolding w11_def using inst by (intro emits_whole_record[OF e7 ok h1 s10]) (simp add: resp_ptr_body_def)
  have f8: "w_failed w8 \<Longrightarrow> w_failed w11" unfolding w11_def by (intro failed_stays emits_failed[OF s10])
  have ia: "resp_instance_at ?sl \<le> DNS_POINTER_VALUE_MASK"
    using nl by (simp add: resp_instance_at_def DNS_POINTER_VALUE_MASK_def)
  have e12: "emits ?F (((resp_header opt @ name_wire ?sl) @
      rec_wire MDNS_WIRE_TYPE_PTR MDNS_WIRE_CLASS_IN ?ttl (resp_ptr_body ?inst)) @
      enc16 (pointer_word (resp_instance_at ?sl))) w12" (is "emits ?F ?b12 w12")
    unfolding w12_def using o8 f8 by (intro emits_pointer_to[OF e11 ok _ ia]) auto
  note s13 = emits_record_header(1)[OF emits_ok[OF e12] h2]
  note ok13 = emits_ok[OF s13]
  have s16: "emits w13 ((enc16 0 @ enc16 0) @ enc16 (sv_port s)) w16"
    unfolding w16_def by (intro emits_step[OF _ ok13 emits_u16] emits_u16[OF ok13])
  note ok16 = emits_ok[OF s16]
  have o16: "\<not> w_failed w16 \<Longrightarrow> w_offset w16 = resp_host_at ?sl ?inst"
    using emits_fresh_offset[OF emits_trans[OF emits_trans[OF e12 s13 ok] s16 ok]]
    by (simp add: resp_header_def resp_instance_at_def resp_host_at_def resp_ptr_body_def)
  have f12: "w_failed w8 \<Longrightarrow> w_failed w12" unfolding w12_def by (intro failed_stays f8)
  have f16: "w_failed w8 \<Longrightarrow> w_failed w16" by (intro emits_failed[OF s16] emits_failed[OF s13] f12)
  note s17 = emits_writer_label[OF ok16, of ?host]
  note e17 = emits_trans[OF s16 s17 ok13]
  have s18: "emits w13 (resp_srv_body (sv_port s) ?host pl) w18"
  proof -
    have "emits w13 ((((enc16 0 @ enc16 0) @ enc16 (sv_port s)) @ label_wire ?host) @
        enc16 (pointer_word (12 + pl))) w18"
      unfolding w18_def using o6 f16 emits_failed[OF s17] pl_le
      by (intro emits_pointer_to[OF e17 ok13]) (auto simp: DNS_POINTER_VALUE_MASK_def)
    then show ?thesis by (simp add: resp_srv_body_def)
  qed
  have e19: "emits ?F (?b12 @ rec_wire MDNS_WIRE_TYPE_SRV ?uc ?ttl (resp_srv_body (sv_port s) ?host pl)) w19"
    unfolding w19_def using host by (intro emits_whole_record[OF e12 ok h2 s18]) (simp add: resp_srv_body_def)
  have f19: "w_failed w16 \<Longrightarrow> w_failed w19"
    unfolding w19_def w18_def by (intro failed_stays emits_failed[OF s17])
  have e20: "emits ?F ((?b12 @ rec_wire MDNS_WIRE_TYPE_SRV ?uc ?ttl (resp_srv_body (sv_port s) ?host pl)) @
      enc16 (pointer_word (resp_instance_at ?sl))) w20" (is "emits ?F ?b20 w20")
    unfolding w20_def using o8 f16 f19 by (intro emits_pointer_to[OF e19 ok _ ia]) auto
  note s21 = emits_record_header(1)[OF emits_ok[OF e20] h3]
  note tl = service_txt_length[OF tv ts]
  have s22: "emits w21 (txt_wire (map ts_bytes (sv_txt_views s))) w22"
    unfolding w22_def by (rule emits_txt_strings[OF emits_ok[OF s21] ts])
  have e23: "emits ?F (?b20 @ rec_wire MDNS_WIRE_TYPE_TXT ?uc ?ttl (txt_wire (map ts_bytes (sv_txt_views s)))) w23"
    unfolding w23_def using tl by (intro emits_whole_record[OF e20 ok h3 s22]) simp
  have f23: "w_failed w16 \<Longrightarrow> w_failed w23"
    unfolding w23_def by (intro failed_stays(2) emits_failed[OF s22] emits_failed[OF s21])
      (auto simp: w20_def intro: failed_stays f19)
  have ha: "resp_host_at ?sl ?inst \<le> DNS_POINTER_VALUE_MASK"
    using nl inst by (simp add: resp_host_at_def resp_instance_at_def DNS_POINTER_VALUE_MASK_def)
  have e24: "emits ?F ((?b20 @ rec_wire MDNS_WIRE_TYPE_TXT ?uc ?ttl (txt_wire (map ts_bytes (sv_txt_views s)))) @
      enc16 (pointer_word (resp_host_at ?sl ?inst))) w24" (is "emits ?F ?b24 w24")
    unfolding w24_def using o16 f23 by (intro emits_pointer_to[OF e23 ok _ ha]) auto
  have e27: "emits ?F (?b24 @ rec_wire MDNS_WIRE_TYPE_A ?uc ?ttl (sv_ipv4 s)) w27"
    unfolding w27_def using ip
    by (intro emits_whole_record[OF e24 ok h4 emits_writer_bytes[OF emits_ok[OF emits_record_header(1)[OF emits_ok[OF e24] h4]]]])
      simp
  show ?thesis
    by (rule exI[of _ w27]) (use eq e27 in \<open>simp add: resp_wire_def\<close>)
qed

text \<open>The records a service response carries, by section.\<close>

definition response_record ::
  "mdns_wire_response_options \<Rightarrow> cstring \<Rightarrow> mdns_wire_section \<Rightarrow> u16 \<Rightarrow> bool \<Rightarrow> nat \<Rightarrow> mdns_wire_rdata
    \<Rightarrow> mdns_wire_record" where
  "response_record opt owner sec ty flush n rd =
     \<lparr>r_owner = owner, r_section = sec, r_type = ty, r_class_code = MDNS_WIRE_CLASS_IN,
      r_cache_flush = flush, r_ttl = resp_ttl opt, r_rdata_length = of_nat n, r_data = rd\<rparr>"

definition response_packet ::
  "mdns_wire_response_options \<Rightarrow> cstring \<Rightarrow> cstring \<Rightarrow> cstring \<Rightarrow> nat \<Rightarrow> nat \<Rightarrow> u16 \<Rightarrow> u8 list list \<Rightarrow> u8 list
    \<Rightarrow> mdns_wire_packet" where
  "response_packet opt service_name instance_name host_name il hl port txts ip =
     \<lparr>p_id = 0, p_flags = ro_header_flags opt, p_declared_question_count = 0, p_declared_answer_count = 1,
      p_declared_authority_count = 0, p_declared_additional_count = 3, p_questions = [],
      p_records =
        [response_record opt service_name ANSWER MDNS_WIRE_TYPE_PTR False (il + 3) (RDATA_PTR instance_name),
         response_record opt instance_name ADDITIONAL MDNS_WIRE_TYPE_SRV (ro_cache_flush opt) (hl + 9)
           (RDATA_SRV 0 0 port host_name),
         response_record opt instance_name ADDITIONAL MDNS_WIRE_TYPE_TXT (ro_cache_flush opt)
           (length (txt_wire txts)) (RDATA_TXT (txt_wire txts) (length txts)),
         response_record opt host_name ADDITIONAL MDNS_WIRE_TYPE_A (ro_cache_flush opt) 4 (RDATA_A ip)]\<rparr>"

lemma decode_at_name:
  assumes "name_at data sz pos ls ts e" and "sz \<le> length data" and "distinct ts" and "length ts \<le> 2"
    and "labels_size ls \<le> 254"
  shows "decode_name_at data sz pos = Ok (name_text ls, e)"
  using decode_of_name_at[OF assms(1-3)] assms(4,5) by (simp add: decode_name_at_def DNS_MAX_POINTER_JUMPS_def)

lemmas parse_rdata_types =
  parse_rdata_def[where ty = MDNS_WIRE_TYPE_A] parse_rdata_def[where ty = MDNS_WIRE_TYPE_PTR]
  parse_rdata_def[where ty = MDNS_WIRE_TYPE_TXT] parse_rdata_def[where ty = MDNS_WIRE_TYPE_SRV]

lemma mdns_types_distinct:
  "MDNS_WIRE_TYPE_PTR \<noteq> MDNS_WIRE_TYPE_A" "MDNS_WIRE_TYPE_TXT \<noteq> MDNS_WIRE_TYPE_A"
  "MDNS_WIRE_TYPE_SRV \<noteq> MDNS_WIRE_TYPE_A" "MDNS_WIRE_TYPE_TXT \<noteq> MDNS_WIRE_TYPE_PTR"
  "MDNS_WIRE_TYPE_SRV \<noteq> MDNS_WIRE_TYPE_PTR" "MDNS_WIRE_TYPE_SRV \<noteq> MDNS_WIRE_TYPE_TXT"
  by (simp_all add: mdns_type_defs)

lemma has_bytes_at: "has data off bs \<Longrightarrow> length bs = n \<Longrightarrow> (bytes_at data off n :: u8 list wire) = Ok bs"
  by (auto simp: has_def bytes_at_def)

lemma parse_txt_has:
  assumes "has data off (txt_wire txts)" and "\<forall>x \<in> set txts. length x \<le> 255"
    and "length (txt_wire txts) \<le> MDNS_WIRE_MAX_TXT_BYTES" and "endp = off + length (txt_wire txts)"
  shows "parse_txt data off endp = Ok (RDATA_TXT (txt_wire txts) (length txts))"
proof -
  have l: "length txts \<le> length (txt_wire txts)" by (induction txts) auto
  show ?thesis
    using parse_txt_loop_complete[OF assms(1,2), of 0] assms(3,4) l
    by (simp add: parse_txt_def MDNS_WIRE_MAX_TXT_BYTES_def has_bytes_at[OF assms(1) refl])
qed

lemma parse_response:
  assumes h: "has data 0 (resp_wire opt (PS @ DS) (labels_size PS) inst host port txts ip)"
    and sz: "sz = length (resp_wire opt (PS @ DS) (labels_size PS) inst host port txts ip)"
    and lv: "labels_valid (PS @ DS)" and inst: "inst \<noteq> []" "length inst \<le> 63"
    and host: "host \<noteq> []" "length host \<le> 63"
    and ls: "labels_size (inst # PS @ DS) \<le> 254" "labels_size (host # DS) \<le> 254"
    and tx: "\<forall>x \<in> set txts. length x \<le> 255" "length (txt_wire txts) \<le> MDNS_WIRE_MAX_TXT_BYTES"
    and ip: "length ip = 4"
  shows "mdns_wire_parse_packet (Some data) sz = Ok (response_packet opt (name_text (PS @ DS))
    (name_text (inst # PS @ DS)) (name_text (host # DS)) (length inst) (length host) port txts ip)"
proof -
  let ?sl = "PS @ DS" and ?t = "resp_ttl opt" and ?c = "resp_flush opt"
  let ?r1 = "rec_wire MDNS_WIRE_TYPE_PTR MDNS_WIRE_CLASS_IN ?t (resp_ptr_body inst)"
    and ?r2 = "rec_wire MDNS_WIRE_TYPE_SRV ?c ?t (resp_srv_body port host (labels_size PS))"
    and ?r3 = "rec_wire MDNS_WIRE_TYPE_TXT ?c ?t (txt_wire txts)" and ?r4 = "rec_wire MDNS_WIRE_TYPE_A ?c ?t ip"
  define n where "n = length (name_wire ?sl)"
  define i where "i = length inst"
  define k where "k = length host"
  define x where "x = length (txt_wire txts)"
  have n: "n = labels_size PS + labels_size DS + 1" "n \<le> 255"
    using lv by (simp_all add: n_def length_name_wire labels_valid_def)
  have lens: "resp_instance_at ?sl = 22 + n" "resp_host_at ?sl inst = 43 + n + i"
    "length ?r1 = 13 + i" "length ?r2 = 19 + k" "length ?r3 = 10 + x" "length ?r4 = 14"
    using ip by (simp_all add: resp_instance_at_def resp_host_at_def resp_ptr_body_def resp_srv_body_def
        n_def i_def k_def x_def)
  have szv: "sz = 74 + n + i + k + x" "sz \<le> length data"
    using sz has_len[OF h] lens n_def by (simp_all add: resp_wire_def resp_header_def)
  have hs: "has data 0 (resp_header opt)" "has data 12 (name_wire ?sl)" "has data (12 + n) ?r1"
    "has data (25 + n + i) (enc16 (pointer_word (22 + n)))" "has data (27 + n + i) ?r2"
    "has data (46 + n + i + k) (enc16 (pointer_word (22 + n)))" "has data (48 + n + i + k) ?r3"
    "has data (58 + n + i + k + x) (enc16 (pointer_word (43 + n + i)))"
    "has data (60 + n + i + k + x) ?r4"
    using h lens n_def ip by (simp_all add: resp_wire_def has_append resp_header_def ac_simps)
  have b1: "has data (22 + n) (label_wire inst)" "has data (23 + n + i) (enc16 (pointer_word 12))"
    using hs(3) by (simp_all add: rec_wire_def resp_ptr_body_def has_append i_def ac_simps)
  have b2: "has data (37 + n + i) (enc16 0)" "has data (39 + n + i) (enc16 0)" "has data (41 + n + i) (enc16 port)"
    "has data (43 + n + i) (label_wire host)" "has data (44 + n + i + k) (enc16 (pointer_word (12 + labels_size PS)))"
    using hs(5) by (simp_all add: rec_wire_def resp_srv_body_def has_append k_def ac_simps)
  have b3: "has data (58 + n + i + k) (txt_wire txts)" and b4: "has data (70 + n + i + k + x) ip"
    using hs(7,9) by (simp_all add: rec_wire_def has_append ac_simps)
  have bnd: "22 + n \<le> DNS_POINTER_VALUE_MASK" "43 + n + i \<le> DNS_POINTER_VALUE_MASK"
    "12 + labels_size PS \<le> DNS_POINTER_VALUE_MASK" "12 \<le> DNS_POINTER_VALUE_MASK"
    using n inst(2) by (simp_all add: DNS_POINTER_VALUE_MASK_def i_def)
  have nS: "name_at data sz 12 ?sl [] (12 + n)"
    using name_at_has[OF hs(2) _ szv(2) lv] szv(1) n_def by simp
  have "has data (12 + labels_size PS) (name_wire DS)"
    using hs(2) by (simp add: name_wire_def has_append length_concat_label_wire)
  from name_at_has[OF this _ szv(2)]
  have nD: "name_at data sz (12 + labels_size PS) DS [] (12 + n)"
    using lv szv(1) n(1) by (simp add: labels_valid_def length_name_wire)
  have nI: "name_at data sz (22 + n) (inst # ?sl) [12] (25 + n + i)"
    using name_at_pointer_has[OF b1(2) _ bnd(4) _ nS] szv(1) inst i_def
    by (intro name_at_label_has[OF b1(1) inst szv(2)]) (simp_all add: ac_simps)
  have nH: "name_at data sz (43 + n + i) (host # DS) [12 + labels_size PS] (46 + n + i + k)"
    using name_at_pointer_has[OF b2(5) _ bnd(3) _ nD] szv(1) n(1) k_def
    by (intro name_at_label_has[OF b2(4) host szv(2)]) (simp_all add: ac_simps)
  have nI1: "name_at data sz (25 + n + i) (inst # ?sl) [22 + n, 12] (27 + n + i)"
    and nI2: "name_at data sz (46 + n + i + k) (inst # ?sl) [22 + n, 12] (48 + n + i + k)"
    and nH2: "name_at data sz (58 + n + i + k + x) (host # DS) [43 + n + i, 12 + labels_size PS] (60 + n + i + k + x)"
    using name_at_pointer_has[OF hs(4) _ bnd(1) _ nI] name_at_pointer_has[OF hs(6) _ bnd(1) _ nI]
      name_at_pointer_has[OF hs(8) _ bnd(2) _ nH] szv(1) by (simp_all add: ac_simps)
  have lS: "labels_size ?sl \<le> 254" using lv by (simp add: labels_valid_def)
  note dS = decode_at_name[OF nS szv(2) _ _ lS, simplified]
    and dI = decode_at_name[OF nI szv(2) _ _ ls(1), simplified]
    and dH = decode_at_name[OF nH szv(2) _ _ ls(2), simplified]
    and dI1 = decode_at_name[OF nI1 szv(2) _ _ ls(1), simplified]
    and dI2 = decode_at_name[OF nI2 szv(2) _ _ ls(1), simplified]
  have dH2: "decode_name_at data sz (58 + n + i + k + x) = Ok (name_text (host # DS), 60 + n + i + k + x)"
    using decode_at_name[OF nH2 szv(2) _ _ ls(2)] n(1) by simp
  have lb: "length (resp_ptr_body inst) = 3 + i" "length (resp_srv_body port host (labels_size PS)) = 9 + k"
    by (simp_all add: resp_ptr_body_def resp_srv_body_def i_def k_def)
  have ik: "i \<le> 63" "k \<le> 63" "x \<le> 1024"
    using inst host tx(2) by (simp_all add: i_def k_def x_def MDNS_WIRE_MAX_TXT_BYTES_def)
  note r = response_record_def resp_flush_def class_bits i_def[symmetric] k_def[symmetric] x_def[symmetric]
  have p1: "parse_record data sz ANSWER 12 = Ok (response_record opt (name_text ?sl) ANSWER MDNS_WIRE_TYPE_PTR
      False (i + 3) (RDATA_PTR (name_text (inst # ?sl))), 25 + n + i)"
    using parse_record_has[OF dS hs(3), of "RDATA_PTR (name_text (inst # ?sl))" ANSWER] lb dI szv(1) ik
    by (simp add: parse_rdata_types mdns_types_distinct r add.assoc add.commute add.left_commute)
  have p2: "parse_record data sz ADDITIONAL (25 + n + i) = Ok (response_record opt (name_text (inst # ?sl))
      ADDITIONAL MDNS_WIRE_TYPE_SRV (ro_cache_flush opt) (k + 9) (RDATA_SRV 0 0 port (name_text (host # DS))),
      46 + n + i + k)"
    using parse_record_has[OF dI1 hs(5), of "RDATA_SRV 0 0 port (name_text (host # DS))" ADDITIONAL]
      lb dH szv(1) ik read_u16_has[OF b2(1), of "46 + n + i + k"] read_u16_has[OF b2(2), of "46 + n + i + k"]
      read_u16_has[OF b2(3), of "46 + n + i + k"]
    by (simp add: parse_rdata_types mdns_types_distinct r add.assoc add.commute add.left_commute split del: if_split)
  have p3: "parse_record data sz ADDITIONAL (46 + n + i + k) = Ok (response_record opt (name_text (inst # ?sl))
      ADDITIONAL MDNS_WIRE_TYPE_TXT (ro_cache_flush opt) x (RDATA_TXT (txt_wire txts) (length txts)),
      58 + n + i + k + x)"
    using parse_record_has[OF dI2 hs(7), of "RDATA_TXT (txt_wire txts) (length txts)" ADDITIONAL]
      szv(1) ik parse_txt_has[OF b3 tx(1,2) refl]
    by (simp add: parse_rdata_types mdns_types_distinct r add.assoc add.commute add.left_commute split del: if_split)
  have r4: "parse_rdata data sz MDNS_WIRE_TYPE_A (length ip) (60 + n + i + k + x + 10) = Ok (RDATA_A ip)"
    using has_bytes_at[OF b4 ip] ip by (simp add: parse_rdata_types add.assoc add.commute add.left_commute)
  have p4: "parse_record data sz ADDITIONAL (58 + n + i + k + x) = Ok (response_record opt (name_text (host # DS))
      ADDITIONAL MDNS_WIRE_TYPE_A (ro_cache_flush opt) 4 (RDATA_A ip), 74 + n + i + k + x)"
    using parse_record_has[OF dH2 hs(9) _ _ r4, of ADDITIONAL] szv(1) ip
    by (simp add: r add.assoc add.commute add.left_commute split del: if_split)
  have p3r: "parse_records 3 = parse_records (Suc (Suc (Suc 0)))" by (simp add: numeral_3_eq_3)
  have hh: "has data 0 (enc16 0)" "has data 2 (enc16 (ro_header_flags opt))" "has data 4 (enc16 0)"
    "has data 6 (enc16 1)" "has data 8 (enc16 0)" "has data 10 (enc16 3)"
    using hs(1) by (simp_all add: resp_header_def has_append ac_simps)
  show ?thesis
    using read_u16_has[OF hh(1), of sz] read_u16_has[OF hh(2), of sz] read_u16_has[OF hh(3), of sz]
      read_u16_has[OF hh(4), of sz] read_u16_has[OF hh(5), of sz] read_u16_has[OF hh(6), of sz] p1 p2 p3 p4 szv(1)
    by (simp add: mdns_wire_parse_packet_def MDNS_WIRE_HEADER_SIZE_def MDNS_WIRE_MAX_RECORDS_def
        response_packet_def i_def[symmetric] k_def[symmetric] x_def[symmetric] p3r)
qed

end
