(* ===== verification/Mdns_Properties.thy ===== *)
theory Mdns_Properties
  imports Mdns_Service
begin

text \<open>
  The properties of the mDNS codec (\<open>src/mdns_wire.c\<close>), each followed by its witness.
\<close>

section \<open>Helpers\<close>

lemma emits_from:
  assumes "emits \<lparr>w_data = buf, w_capacity = capacity, w_offset = off, w_failed = False\<rparr> bs w"
    and "capacity \<le> length buf" and "off \<le> capacity"
  shows "w_failed w \<longleftrightarrow> capacity - off < length bs"
    and "\<not> w_failed w \<Longrightarrow> w_offset w = off + length bs \<and> has (w_data w) off bs \<and>
      length (w_data w) = length buf \<and> take off (w_data w) = take off buf \<and>
      drop capacity (w_data w) = drop capacity buf"
proof -
  from assms show "w_failed w \<longleftrightarrow> capacity - off < length bs"
    by (auto simp: emits_def split: if_splits)
  assume nf: "\<not> w_failed w"
  with assms have w: "w_offset w = off + length bs" "length (w_data w) = length buf"
    "off + length bs \<le> length buf" "take (off + length bs) (w_data w) = take off buf @ bs"
    "drop capacity (w_data w) = drop capacity buf"
    by (auto simp: emits_def written_def writer_ok_def split: if_splits)
  have "take (length bs) (drop off (w_data w)) = drop off (take (off + length bs) (w_data w))"
    by (simp add: drop_take)
  also have "\<dots> = bs" using w assms(2,3) by simp
  finally have h: "has (w_data w) off bs" using w by (simp add: has_def)
  have "take off (w_data w) = take off (take (off + length bs) (w_data w))" by simp
  also have "\<dots> = take off buf" using w assms(2,3) by simp
  finally show "w_offset w = off + length bs \<and> has (w_data w) off bs \<and> length (w_data w) = length buf \<and>
      take off (w_data w) = take off buf \<and> drop capacity (w_data w) = drop capacity buf"
    using w h by simp
qed

lemma append_labels_split:
  "y \<noteq> [] \<Longrightarrow> append_labels (x @ y) zs = x @ append_labels y zs"
  by (induction zs arbitrary: y) simp_all

lemma name_text_prefix_label:
  assumes "l \<noteq> []" and "ls \<noteq> []" and "\<forall>x \<in> set ls. x \<noteq> []"
  shows "name_text (l # ls) = l @ [dot] @ name_text ls"
proof -
  obtain m ms where ls: "ls = m # ms" using assms(2) by (cases ls) auto
  with assms append_labels_split[of m "l @ [dot]" ms] show ?thesis by (simp add: name_text_def)
qed

lemma labels_of_suffix:
  assumes "dotted_name_valid (Some out) \<noteq> None" and "labels_of out = ps @ labels_of d"
    and "d \<noteq> []" and "last d \<noteq> dot"
  shows "dotted_name_valid (Some d) \<noteq> None" and "name_text (labels_of d) = d" and "labels_of d \<noteq> []"
proof -
  have "labels_valid (labels_of d)"
    using labels_valid_of[OF assms(1)] assms(2) by (simp add: labels_valid_def)
  with assms(3) show v: "dotted_name_valid (Some d) \<noteq> None" by (simp add: dotted_name_valid_iff)
  from name_text_labels_of[OF v] assms(4) show "name_text (labels_of d) = d"
    by (auto simp: chop_dot_def)
  from assms(3,4) show "labels_of d \<noteq> []"
    by (auto simp: labels_of_def split_labels_nonempty_iff)
qed

section \<open>The name codec\<close>

text \<open>C3: \<open>mdns_wire_decode_name\<close> with a 256-byte output accepts exactly the names of the DNS
  wire format: labels of at most 63 bytes, compression pointers to places inside the packet, none
  followed twice and at most 32 of them, an expanded wire length of at most 255; and it returns
  their dotted text and the offset behind the name.\<close>

theorem decode_name_meets_spec:
  assumes "sz \<le> length data" and "off \<le> sz"
  shows "mdns_wire_decode_name (Some data) sz (Some off) MDNS_WIRE_MAX_NAME = Ok (name, e) \<longleftrightarrow>
    (\<exists>ls ts. name_at data sz off ls ts e \<and> distinct ts \<and> length ts \<le> DNS_MAX_POINTER_JUMPS \<and>
      labels_size ls \<le> 254 \<and> name = name_text ls)"
  using decode_name_at_iff[OF assms] by (simp add: decode_name_at_def)

text \<open>A pointer that points at itself: no name can be read there.\<close>

theorem decode_name_meets_spec_witness:
  "\<not> (\<exists>ls ts. name_at [0xc0, 0] 2 0 ls ts 2 \<and> distinct ts \<and> length ts \<le> DNS_MAX_POINTER_JUMPS \<and>
      labels_size ls \<le> 254 \<and> [dot] = name_text ls)"
proof -
  have "mdns_wire_decode_name (Some [0xc0, 0]) 2 (Some 0) MDNS_WIRE_MAX_NAME = Err MALFORMED"
    by code_simp
  then show ?thesis using decode_name_meets_spec[of 2 "[0xc0, 0]" 0 "[dot]" 2] by simp
qed

text \<open>C8: encoding a name reports an invalid name or offset, or a buffer that is too small,
  exactly then; otherwise it changes no byte before the offset or behind the capacity, and the
  decoder reads the same name back (without a trailing dot) and ends where the encoder ended.\<close>

theorem encode_decode_name:
  assumes "capacity \<le> length buf"
  shows "case mdns_wire_encode_name (Some buf) capacity (Some off) (Some n) of
      Err e \<Rightarrow> e = (if capacity < off \<or> dotted_name_valid (Some n) = None then INVALID_ARGUMENT else BUFFER_TOO_SMALL) \<and>
        (e = BUFFER_TOO_SMALL \<longrightarrow> capacity < off + the (dotted_name_valid (Some n)))
    | Ok (buf', off') \<Rightarrow>
        off' = off + the (dotted_name_valid (Some n)) \<and> off' \<le> capacity \<and>
        take off buf' = take off buf \<and> drop capacity buf' = drop capacity buf \<and> length buf' = length buf \<and>
        mdns_wire_decode_name (Some buf') off' (Some off) MDNS_WIRE_MAX_NAME = Ok (chop_dot n, off')
    | Fault \<Rightarrow> False"
proof (cases "off \<le> capacity \<and> dotted_name_valid (Some n) \<noteq> None")
  case False
  then show ?thesis by (auto simp: mdns_wire_encode_name_def)
next
  case True
  let ?start = "\<lparr>w_data = buf, w_capacity = capacity, w_offset = off, w_failed = False\<rparr>"
  let ?w = "writer_name ?start (Some n)" and ?bs = "name_wire (labels_of n)"
  have e: "emits ?start ?bs ?w"
    using True assms by (intro emits_writer_name) (auto simp: writer_ok_def)
  have off: "off \<le> capacity" and v: "dotted_name_valid (Some n) \<noteq> None" using True by auto
  note f = emits_from[OF e assms off]
  have len: "the (dotted_name_valid (Some n)) = length ?bs"
    using v by (auto simp: dotted_name_valid_iff split: if_splits)
  have enc: "mdns_wire_encode_name (Some buf) capacity (Some off) (Some n) =
      (if w_failed ?w then Err BUFFER_TOO_SMALL else Ok (w_data ?w, w_offset ?w))"
    using True by (auto simp: mdns_wire_encode_name_def Let_def)
  show ?thesis
  proof (cases "w_failed ?w")
    case True
    with enc f(1) off v len show ?thesis by auto
  next
    case False
    note w = f(2)[OF False]
    have ok: "writer_ok ?w" using emits_ok[OF e] .
    have lv: "labels_valid (labels_of n)" by (rule labels_valid_of[OF v])
    have "name_at (w_data ?w) (off + length ?bs) off (labels_of n) [] (off + length ?bs)"
      using w assms off by (intro name_at_has[OF _ _ _ lv]) (auto dest: has_len)
    from decode_of_name_at[OF this] w lv name_text_labels_of[OF v]
    have "mdns_wire_decode_name (Some (w_data ?w)) (off + length ?bs) (Some off) MDNS_WIRE_MAX_NAME =
        Ok (chop_dot n, off + length ?bs)"
      by (auto simp: labels_valid_def dest: has_len)
    with False enc w f(1) off len show ?thesis by auto
  qed
qed

theorem encode_decode_name_witness:
  "case mdns_wire_encode_name (Some (replicate 16 7)) 16 (Some 2) (Some (bytes_of ''a.bc.'')) of
      Err e \<Rightarrow> False
    | Ok (buf', off') \<Rightarrow> off' = 8 \<and> take 8 buf' = [7, 7, 1, 97, 2, 98, 99, 0] \<and>
        mdns_wire_decode_name (Some buf') off' (Some 2) MDNS_WIRE_MAX_NAME = Ok (bytes_of ''a.bc'', off')
    | Fault \<Rightarrow> False"
proof -
  have e: "mdns_wire_encode_name (Some (replicate 16 7)) 16 (Some 2) (Some (bytes_of ''a.bc.'')) =
      Ok ([7, 7, 1, 97, 2, 98, 99, 0] @ replicate 8 7, 8)"
    by code_simp
  have "chop_dot (bytes_of ''a.bc.'') = bytes_of ''a.bc''" by code_simp
  with encode_decode_name[of 16 "replicate 16 7" 2 "bytes_of ''a.bc.''"] show ?thesis
    unfolding e by simp
qed

section \<open>The packet parser\<close>

text \<open>C4: parsing is memory safe and bounded: on any bytes and any size up to the buffer's, the
  parser reads no byte outside of the packet, and a packet it accepts carries the declared
  questions and records up to the fixed capacities, each record with an owner name that fits its
  buffer and rdata of the shape its type asks for.\<close>

theorem parse_packet_safe:
  assumes "sz \<le> length data"
  shows "case mdns_wire_parse_packet (Some data) sz of
      Ok p \<Rightarrow> length (p_questions p) = min (unat (p_declared_question_count p)) MDNS_WIRE_MAX_QUESTIONS \<and>
        length (p_records p) = min (unat (p_declared_answer_count p) + unat (p_declared_authority_count p) +
          unat (p_declared_additional_count p)) MDNS_WIRE_MAX_RECORDS \<and>
        (\<forall>r \<in> set (p_records p). record_ok r)
    | Err e \<Rightarrow> True | Fault \<Rightarrow> False"
proof (cases "mdns_wire_parse_packet (Some data) sz")
  case (Ok p)
  then obtain qs o7 rs1 o8 rs2 o9 rs3 o10 where
    r: "12 \<le> sz" "parse_questions (unat (p_declared_question_count p)) data sz 12 [] = Ok (qs, o7)"
    "parse_records (unat (p_declared_answer_count p)) data sz ANSWER o7 [] = Ok (rs1, o8)"
    "parse_records (unat (p_declared_authority_count p)) data sz AUTHORITY o8 rs1 = Ok (rs2, o9)"
    "parse_records (unat (p_declared_additional_count p)) data sz ADDITIONAL o9 rs2 = Ok (rs3, o10)"
    "p_questions p = qs" "p_records p = rs3"
    by (auto simp: mdns_wire_parse_packet_def res_simps MDNS_WIRE_HEADER_SIZE_def read_u16_def split: if_splits)
  have o7: "o7 \<le> sz" using in_range_parse_questions[OF r(1) assms, of _ "[]"] r(2) by (simp add: in_range_def)
  have q: "length qs = min (unat (p_declared_question_count p)) MDNS_WIRE_MAX_QUESTIONS"
    using parse_questions_bound[OF r(2)] by simp
  note a = parse_records_ok[OF r(3) o7 assms, simplified]
  note b = parse_records_ok[OF r(4) _ assms, simplified]
  note c = parse_records_ok[OF r(5) _ assms, simplified]
  from a b c q r Ok show ?thesis by auto
qed (use parse_packet_no_fault[OF assms] in auto)

theorem parse_packet_safe_witness:
  "mdns_wire_parse_packet (Some [0,0, 0,0, 0,1, 0,0, 0,0, 0,0, 0xc0, 12]) 14 \<noteq> Fault"
  using parse_packet_safe[of 14 "[0,0, 0,0, 0,1, 0,0, 0,0, 0,0, 0xc0, 12]"]
  by (auto split: res.splits)

text \<open>the rdata of a TXT record that the parser accepts is a list of length-prefixed
  strings, and \<open>mdns_wire_txt_at\<close> returns each of them at its index and nothing at any other.\<close>

theorem txt_strings_by_index:
  assumes "parse_txt data start endp = Ok rd" and "start \<le> endp" and "endp \<le> length data"
  shows "\<exists>ss. take (endp - start) (drop start data) = txt_wire ss \<and> length (txt_wire ss) \<le> MDNS_WIRE_MAX_TXT_BYTES \<and>
    (\<forall>i. mdns_wire_txt_at rd i = (if i < length ss then Some (ss ! i) else None))"
proof -
  from assms obtain c where c: "parse_txt_loop data endp start 0 = Ok c"
    and rd: "rd = RDATA_TXT (take (endp - start) (drop start data)) c"
    and le: "endp - start \<le> MDNS_WIRE_MAX_TXT_BYTES"
    by (auto simp: parse_txt_def Let_def res_simps bytes_at_def split: if_splits)
  from parse_txt_loop_sound[OF c assms(2,3)] obtain ss where ss:
    "take (endp - start) (drop start data) = txt_wire ss" "c = length ss" "\<forall>s \<in> set ss. length s \<le> 255"
    by auto
  have "mdns_wire_txt_at rd i = (if i < length ss then Some (ss ! i) else None)" for i
    using txt_at_loop_wire[OF ss(3), of i 0 i "txt_wire ss" "[]" 0] rd ss
    by (simp add: mdns_wire_txt_at_def not_less)
  moreover have "length (txt_wire ss) \<le> MDNS_WIRE_MAX_TXT_BYTES"
    using ss(1) le assms(2,3) by (metis length_drop length_take min.cobounded2 le_trans min.commute)
  ultimately show ?thesis using ss(1) by blast
qed

theorem txt_strings_by_index_witness:
  "\<exists>ss. take 5 (drop 1 [9, 1, 65, 2, 66, 67]) = txt_wire ss \<and> length (txt_wire ss) \<le> MDNS_WIRE_MAX_TXT_BYTES \<and>
    (\<forall>i. mdns_wire_txt_at (RDATA_TXT [1, 65, 2, 66, 67] 2) i = (if i < length ss then Some (ss ! i) else None))"
proof -
  have "parse_txt [9, 1, 65, 2, 66, 67] 1 6 = Ok (RDATA_TXT [1, 65, 2, 66, 67] 2)"
    by (simp add: parse_txt_def parse_txt_loop.simps byte_at_def bytes_at_def MDNS_WIRE_MAX_TXT_BYTES_def)
  from txt_strings_by_index[OF this] show ?thesis by simp
qed

section \<open>Round trips of packets\<close>

text \<open>a query that \<open>mdns_wire_build_query\<close> writes fits the capacity, leaves the bytes behind
  it alone, and is parsed back as one question with the name, the type, class IN and the
  unicast-response bit it was built from.\<close>

theorem query_roundtrip:
  assumes "mdns_wire_build_query (Some buf) capacity (Some n) ty u = Ok (buf', sz)"
    and "capacity \<le> length buf"
  shows "sz \<le> capacity \<and> drop capacity buf' = drop capacity buf \<and>
    mdns_wire_parse_packet (Some buf') sz =
    Ok \<lparr>p_id = 0, p_flags = 0, p_declared_question_count = 1, p_declared_answer_count = 0,
        p_declared_authority_count = 0, p_declared_additional_count = 0,
        p_questions = [\<lparr>q_name = chop_dot n, q_type = ty, q_class_code = MDNS_WIRE_CLASS_IN,
                        q_unicast_response = u\<rparr>],
        p_records = []\<rparr>"
proof -
  have v: "dotted_name_valid (Some n) \<noteq> None"
    using assms(1) by (auto simp: mdns_wire_build_query_def split: if_splits)
  from build_query_wire(4)[OF assms(2,1)] parse_query[of buf' n ty u sz, OF _ _ v] show ?thesis by simp
qed

theorem query_roundtrip_witness:
  "\<exists>buf' sz. mdns_wire_build_query (Some (replicate 24 0)) 24 (Some (bytes_of ''a.b'')) 12 True = Ok (buf', sz) \<and>
     (\<exists>p. mdns_wire_parse_packet (Some buf') sz = Ok p \<and> length (p_questions p) = 1)"
proof -
  have b: "mdns_wire_build_query (Some (replicate 24 0)) 24 (Some (bytes_of ''a.b'')) 12 True =
      Ok ([0,0,0,0,0,1,0,0,0,0,0,0,1,97,1,98,0,0,12,0x80,1,0,0,0], 21)"
    by code_simp
  from query_roundtrip[OF b] b show ?thesis by (intro exI conjI) auto
qed

text \<open>The memory a service refers to: an address of four bytes, and a buffer behind every string.\<close>

definition service_memory :: "mdns_wire_service \<Rightarrow> bool" where
  "service_memory s \<longleftrightarrow> length (sv_ipv4 s) = 4 \<and>
     (\<forall>t \<in> set (sv_txt_views s). length (ts_bytes t) = ts_length t)"

text \<open>C5: the response \<open>mdns_wire_build_service_response\<close> writes for a service whose names and TXT
  data keep within the limits of the format is parsed back as exactly the PTR, SRV, TXT and A
  records of that service, compressed names included; it fits the capacity and leaves the bytes
  behind it alone.\<close>

theorem service_response_roundtrip:
  assumes "mdns_wire_build_service_response (Some buf) capacity (Some s) (Some opt) = Ok (buf', sz)"
    and "capacity \<le> length buf" and "service_memory s"
    and "sv_service_type s = Some st" and "sv_domain s = Some dm"
    and "sv_instance s = Some inst" and "sv_host s = Some host"
    and "domain = strip_trailing_dots (dropWhile (\<lambda>c. c = dot) dm)"
    and "join_name (Some st) (Some dm) = Some sn"
    and "length inst + 1 + length sn + 1 \<le> 254" and "length host + 1 + length domain + 1 \<le> 254"
    and "txts = map ts_bytes (sv_txt_views s)" and "length (txt_wire txts) \<le> MDNS_WIRE_MAX_TXT_BYTES"
  shows "sz \<le> capacity \<and> drop capacity buf' = drop capacity buf \<and>
    mdns_wire_parse_packet (Some buf') sz =
      Ok (response_packet opt sn (inst @ [dot] @ sn) (host @ [dot] @ domain)
        (length inst) (length host) (sv_port s) txts (sv_ipv4 s))"
proof -
  have sv: "service_valid (Some s)"
    by (rule ccontr) (use assms(1) in \<open>simp add: mdns_wire_build_service_response_def\<close>)
  have "dotted_prefix_wire_length (Some st) \<noteq> None"
  proof
    assume "dotted_prefix_wire_length (Some st) = None"
    with assms(1,4,5,9) sv show False by (simp add: mdns_wire_build_service_response_def Let_def)
  qed
  then obtain pl where pl: "dotted_prefix_wire_length (Some st) = Some pl" by blast
  note P = dotted_prefix_wire_length_Some[OF pl]
  note j = join_name_Some[OF assms(9)]
  have sl: "labels_of sn = labels_of st @ labels_of domain" using j(3) P(1) assms(8) by simp
  have lv: "labels_valid (labels_of st @ labels_of domain)" using labels_valid_of[OF j(1)] sl by simp
  have pl_eq: "pl = labels_size (labels_of st)" by (rule P(2))
  have "pl \<le> 254" using lv pl_eq by (simp add: labels_valid_def)
  note W = build_response_wire[OF assms(2) sv _ _ this, unfolded assms(4,5), OF assms(9) pl]
  obtain w where w: "mdns_wire_build_service_response (Some buf) capacity (Some s) (Some opt) =
      (if w_failed w then Err BUFFER_TOO_SMALL else Ok (w_data w, w_offset w))"
    "emits (fresh_writer buf capacity) (resp_wire opt (labels_of st @ labels_of domain)
      (labels_size (labels_of st)) inst host (sv_port s) txts (sv_ipv4 s)) w" (is "emits _ ?bs w")
    using W[of opt] assms(3,6,7,12) sl pl_eq by (auto simp: service_memory_def)
  from w(1) assms(1) have nf: "\<not> w_failed w" and buf: "buf' = w_data w" "sz = w_offset w"
    by (auto split: if_splits)
  note F = emits_fresh(2)[OF w(2) assms(2) nf]
  have dl: "domain \<noteq> []" "last domain \<noteq> dot"
    using assms(8,9) last_strip_trailing_dots by (auto simp: join_name_def Let_def split: if_splits)
  note D = labels_of_suffix[OF j(1) sl dl]
  have ne: "\<forall>x \<in> set (labels_of st @ labels_of domain). x \<noteq> []" using lv by (simp add: labels_valid_def)
  have snt: "name_text (labels_of st @ labels_of domain) = sn"
    using name_text_labels_of[OF j(1)] j(2) sl by simp
  have il: "inst \<noteq> []" "length inst \<le> 63" "host \<noteq> []" "length host \<le> 63"
    using sv assms(6,7) by (auto simp: service_valid_def raw_label_valid_def split: if_splits)
  have tx: "\<forall>x \<in> set txts. length x \<le> 255"
    using service_txt_length(1)[of 0 "sv_txt_views s"] sv assms(3,12)
    by (auto simp: service_valid_def service_memory_def split: if_splits)
  have sz1: "labels_size (labels_of st @ labels_of domain) = length sn + 1"
    using length_name_text[OF ne] snt D(3) by (cases "labels_of domain") auto
  have sz2: "labels_size (labels_of domain) = length domain + 1"
    using length_name_text[of "labels_of domain"] ne D(2,3) by (cases "labels_of domain") auto
  have t1: "name_text (inst # labels_of st @ labels_of domain) = inst @ [dot] @ sn"
    and t2: "name_text (host # labels_of domain) = host @ [dot] @ domain"
    using name_text_prefix_label[OF il(1), of "labels_of st @ labels_of domain"]
      name_text_prefix_label[OF il(3) D(3)] ne snt D(2,3) by auto
  have s1: "labels_size (inst # labels_of st @ labels_of domain) \<le> 254"
    and s2: "labels_size (host # labels_of domain) \<le> 254"
    using sz1 sz2 assms(10,11) by simp_all
  have ip: "length (sv_ipv4 s) = 4" using assms(3) by (simp add: service_memory_def)
  have "mdns_wire_parse_packet (Some buf') sz = Ok (response_packet opt
      (name_text (labels_of st @ labels_of domain)) (name_text (inst # labels_of st @ labels_of domain))
      (name_text (host # labels_of domain)) (length inst) (length host) (sv_port s) txts (sv_ipv4 s))"
    using F buf by (intro parse_response[OF _ _ lv il s1 s2 tx assms(13) ip]) simp_all
  with F buf show ?thesis unfolding t1 t2 snt by simp
qed

definition sample_service :: mdns_wire_service where
  "sample_service = \<lparr>sv_service_type = Some (bytes_of ''_z._udp''), sv_domain = Some (bytes_of ''lan.''),
     sv_instance = Some (bytes_of ''g''), sv_host = Some (bytes_of ''h''), sv_port = 3074,
     sv_ipv4 = [10, 0, 0, 1], sv_txt = Some [\<lparr>ts_data = Some [65], ts_length = 1\<rparr>], sv_txt_count = 1\<rparr>"

definition sample_options :: mdns_wire_response_options where
  "sample_options = \<lparr>ro_header_flags = 0x8400, ro_ttl = 120, ro_cache_flush = True, ro_goodbye = False\<rparr>"

lemma sample_build:
  "\<exists>buf' sz. mdns_wire_build_service_response (Some (replicate 256 0)) 256 (Some sample_service)
     (Some sample_options) = Ok (buf', sz)"
proof -
  have j: "join_name (sv_service_type sample_service) (sv_domain sample_service) = Some (bytes_of ''_z._udp.lan'')"
    and pl: "dotted_prefix_wire_length (sv_service_type sample_service) = Some 8"
    and lo: "labels_of (bytes_of ''_z._udp.lan'') = [bytes_of ''_z'', bytes_of ''_udp'', bytes_of ''lan'']"
    by code_simp+
  have v: "service_valid (Some sample_service)"
    using j by (simp add: service_valid_def sample_service_def raw_label_valid_def sv_txt_views_def bytes_of_def)
  have t: "sv_txt_views sample_service = [\<lparr>ts_data = Some [65], ts_length = 1\<rparr>]"
    "ts_bytes \<lparr>ts_data = Some [65], ts_length = 1\<rparr> = [65]"
    by (simp_all add: sv_txt_views_def sample_service_def ts_bytes_def)
  have c: "(256::nat) \<le> length (replicate 256 (0::u8))" by simp
  obtain w where w: "mdns_wire_build_service_response (Some (replicate 256 0)) 256 (Some sample_service)
      (Some sample_options) = (if w_failed w then Err BUFFER_TOO_SMALL else Ok (w_data w, w_offset w))"
    "emits (fresh_writer (replicate 256 0) 256) (resp_wire sample_options
       (labels_of (bytes_of ''_z._udp.lan'')) 8 (the (sv_instance sample_service))
       (the (sv_host sample_service)) (sv_port sample_service) (map ts_bytes (sv_txt_views sample_service))
       (sv_ipv4 sample_service)) w" (is "emits _ ?bs w")
    using build_response_wire[OF c v j pl, of sample_options] t by (auto simp: sample_service_def)
  have "length ?bs \<le> 256"
    unfolding lo t(1) by (simp add: resp_wire_def resp_header_def resp_ptr_body_def resp_srv_body_def name_wire_def ts_bytes_def
        sample_service_def bytes_of_def)
  with emits_fresh(1)[OF w(2) c] have "\<not> w_failed w" by simp
  with w(1) show ?thesis by simp
qed

theorem service_response_roundtrip_witness:
  "\<exists>buf' sz. mdns_wire_build_service_response (Some (replicate 256 0)) 256 (Some sample_service)
       (Some sample_options) = Ok (buf', sz) \<and> sz \<le> 256 \<and>
     mdns_wire_parse_packet (Some buf') sz = Ok (response_packet sample_options (bytes_of ''_z._udp.lan'')
       (bytes_of ''g._z._udp.lan'') (bytes_of ''h.lan'') 1 1 3074 [[65]] [10, 0, 0, 1])"
proof -
  obtain buf' sz where b: "mdns_wire_build_service_response (Some (replicate 256 0)) 256 (Some sample_service)
      (Some sample_options) = Ok (buf', sz)" using sample_build by blast
  have m: "service_memory sample_service" "map ts_bytes (sv_txt_views sample_service) = [[65]]"
    by (simp_all add: service_memory_def sv_txt_views_def sample_service_def ts_bytes_def)
  have j: "join_name (Some (bytes_of ''_z._udp'')) (Some (bytes_of ''lan.'')) = Some (bytes_of ''_z._udp.lan'')"
    and d: "strip_trailing_dots (dropWhile (\<lambda>c. c = dot) (bytes_of ''lan.'')) = bytes_of ''lan''"
    and n: "bytes_of ''g'' @ [dot] @ bytes_of ''_z._udp.lan'' = bytes_of ''g._z._udp.lan''"
      "bytes_of ''h'' @ [dot] @ bytes_of ''lan'' = bytes_of ''h.lan''"
    by code_simp+
  have f: "sv_service_type sample_service = Some (bytes_of ''_z._udp'')" "sv_domain sample_service = Some (bytes_of ''lan.'')"
    "sv_instance sample_service = Some (bytes_of ''g'')" "sv_host sample_service = Some (bytes_of ''h'')"
    "sv_port sample_service = 3074" "sv_ipv4 sample_service = [10, 0, 0, 1]"
    by (simp_all add: sample_service_def)
  have l: "length (bytes_of ''g'') = 1" "length (bytes_of ''h'') = 1" "length (bytes_of ''lan'') = 3"
    "length (bytes_of ''_z._udp.lan'') = 11" by (simp_all add: bytes_of_def)
  from service_response_roundtrip[OF b _ m(1) f(1-4) d[symmetric] j _ _ m(2)[symmetric]] n b f l
  show ?thesis
    by (intro exI[of _ buf'] exI[of _ sz]) (simp add: MDNS_WIRE_MAX_TXT_BYTES_def)
qed

end
