(* ===== verification/Timer.thy ===== *)
theory Timer
  imports Prelude
begin

text \<open>
  The timer queue of \<open>src/s3e_timer.c\<close>. The linked list \<open>g_timers\<close> is a list of events, the
  counter \<open>g_timer_sequence\<close> is kept at its 64 bits, and pointers are 32-bit words with 0 for
  \<open>NULL\<close>. The clock and the outcome of \<open>calloc\<close> are inputs of an operation. What a callback does
  is not code of the program: it is a parameter that answers, for the events fired before and the
  event being fired, with the timer calls the callback makes.
\<close>

section \<open>State and operations\<close>

type_synonym ptr = u32

record timer_event =
  te_due_ms :: u64
  te_sequence :: u64
  te_callback :: ptr
  te_user_data :: ptr

record timer_state =
  g_timers :: "timer_event list"
  g_timer_sequence :: u64

definition S3E_TIMER_SUCCESS :: int where "S3E_TIMER_SUCCESS = 0"
definition S3E_TIMER_ERROR :: int where "S3E_TIMER_ERROR = 1"
definition S3E_TIMER_MAX_EVENTS :: nat where "S3E_TIMER_MAX_EVENTS = 32"

lemmas timer_consts = S3E_TIMER_SUCCESS_def S3E_TIMER_ERROR_def S3E_TIMER_MAX_EVENTS_def

definition te_key :: "timer_event \<Rightarrow> ptr \<times> ptr" where
  "te_key t = (te_callback t, te_user_data t)"

text \<open>\<open>timer_elapsed_ms\<close>: the new value of \<open>g_host_start_us\<close> and the elapsed milliseconds.\<close>

definition timer_elapsed_ms :: "u64 \<Rightarrow> u64 \<Rightarrow> u64 \<times> u64" where
  "timer_elapsed_ms now g_host_start_us =
     (let start = (if g_host_start_us = 0 \<or> now < g_host_start_us then now else g_host_start_us)
      in (start, (now - start) div 1000))"

definition s3eTimerGetUST :: "u64 \<Rightarrow> u64 \<Rightarrow> u64 \<times> u64" where
  "s3eTimerGetUST = timer_elapsed_ms"

definition s3eTimerGetMs :: "u64 \<Rightarrow> u64 \<Rightarrow> u64 \<times> u64" where
  "s3eTimerGetMs = timer_elapsed_ms"

definition s3eTimerGetInt :: "u32 \<Rightarrow> int" where
  "s3eTimerGetInt key = (if key = 0 then 1 else -1)"

fun remove_timer_locked :: "ptr \<Rightarrow> ptr \<Rightarrow> timer_event list \<Rightarrow> timer_event option \<times> timer_event list" where
  "remove_timer_locked cb ud [] = (None, [])"
| "remove_timer_locked cb ud (t # ts) =
     (if te_callback t = cb \<and> te_user_data t = ud then (Some t, ts)
      else let (found, rest) = remove_timer_locked cb ud ts in (found, t # rest))"

definition timer_count_locked :: "timer_event list \<Rightarrow> nat" where
  "timer_count_locked ts = length ts"

text \<open>The insertion loop at the end of \<open>s3eTimerSetTimer\<close>: behind every event due no later.\<close>

fun insert_timer :: "timer_event \<Rightarrow> timer_event list \<Rightarrow> timer_event list" where
  "insert_timer t [] = [t]"
| "insert_timer t (x # xs) = (if te_due_ms x \<le> te_due_ms t then x # insert_timer t xs else t # x # xs)"

definition next_sequence :: "u64 \<Rightarrow> u64" where
  "next_sequence n = (if n + 1 = 0 then 1 else n + 1)"

definition s3eTimerSetTimer ::
  "u64 \<Rightarrow> bool \<Rightarrow> u32 \<Rightarrow> ptr \<Rightarrow> ptr \<Rightarrow> timer_state \<Rightarrow> int \<times> timer_state" where
  "s3eTimerSetTimer clock calloc_ok period_ms callback user_data st =
     (let (timer, rest) = remove_timer_locked callback user_data (g_timers st);
          st1 = st\<lparr>g_timers := rest\<rparr>
      in if callback = 0 then (S3E_TIMER_ERROR, st1)
         else if timer = None \<and> timer_count_locked rest \<ge> S3E_TIMER_MAX_EVENTS then (S3E_TIMER_ERROR, st1)
         else if timer = None \<and> \<not> calloc_ok then (S3E_TIMER_ERROR, st1)
         else
           let sq = next_sequence (g_timer_sequence st);
               t = \<lparr>te_due_ms = clock + ucast period_ms, te_sequence = sq,
                    te_callback = callback, te_user_data = user_data\<rparr>
           in (S3E_TIMER_SUCCESS, \<lparr>g_timers = insert_timer t rest, g_timer_sequence = sq\<rparr>))"

definition s3eTimerCancelTimer :: "ptr \<Rightarrow> ptr \<Rightarrow> timer_state \<Rightarrow> int \<times> timer_state" where
  "s3eTimerCancelTimer callback user_data st =
     (if callback = 0 then (S3E_TIMER_ERROR, st)
      else let (timer, rest) = remove_timer_locked callback user_data (g_timers st)
           in (if timer = None then S3E_TIMER_ERROR else S3E_TIMER_SUCCESS, st\<lparr>g_timers := rest\<rparr>))"

datatype timer_call =
    SetTimer (call_clock: u64) (call_calloc_ok: bool) (call_period: u32) (call_cb: ptr) (call_ud: ptr)
  | CancelTimer (call_cb: ptr) (call_ud: ptr)

fun timer_step :: "timer_call \<Rightarrow> timer_state \<Rightarrow> timer_state" where
  "timer_step (SetTimer clock ok p cb ud) st = snd (s3eTimerSetTimer clock ok p cb ud st)"
| "timer_step (CancelTimer cb ud) st = snd (s3eTimerCancelTimer cb ud st)"

text \<open>
  \<open>dispatch_due_timers\<close>: \<open>now\<close> and the sequence limit are read once. The result lists the events
  fired; the fuel bounds the rounds of the loop.
\<close>

fun dispatch_loop ::
  "(timer_event list \<Rightarrow> timer_event \<Rightarrow> timer_call list) \<Rightarrow> u64 \<Rightarrow> u64 \<Rightarrow> nat \<Rightarrow> timer_event list
    \<Rightarrow> timer_state \<Rightarrow> (timer_event list \<times> timer_state) option" where
  "dispatch_loop body now limit 0 fired st = None"
| "dispatch_loop body now limit (Suc fuel) fired st =
     (case g_timers st of
        [] \<Rightarrow> Some (fired, st)
      | t # rest \<Rightarrow>
          if te_due_ms t > now \<or> te_sequence t > limit then Some (fired, st)
          else dispatch_loop body now limit fuel (fired @ [t])
                 (fold timer_step (body fired t) (st\<lparr>g_timers := rest\<rparr>)))"

definition dispatch_due_timers ::
  "(timer_event list \<Rightarrow> timer_event \<Rightarrow> timer_call list) \<Rightarrow> nat \<Rightarrow> u64 \<Rightarrow> timer_state
    \<Rightarrow> (timer_event list \<times> timer_state) option" where
  "dispatch_due_timers body fuel now st = dispatch_loop body now (g_timer_sequence st) fuel [] st"

text \<open>\<open>s3eTimerGetUTC\<close> from the two fields of the \<open>timespec\<close>, and the local time offset.\<close>

definition s3eTimerGetUTC :: "u32 \<Rightarrow> u32 \<Rightarrow> u64" where
  "s3eTimerGetUTC tv_sec tv_nsec = scast tv_sec * 1000 + scast tv_nsec div 1000000"

definition s3eTimerGetLocaltimeOffset ::
  "(u32 \<Rightarrow> u32 option) \<Rightarrow> u32 \<Rightarrow> u64 option \<Rightarrow> u64" where
  "s3eTimerGetLocaltimeOffset gmtoff_at time_now utc_ms =
     (let go = (\<lambda>now. case gmtoff_at now of None \<Rightarrow> 0 | Some off \<Rightarrow> scast off * 1000)
      in case utc_ms of
           Some ms \<Rightarrow>
             let seconds = ms div 1000; now = ucast seconds :: u32
             in if scast now \<noteq> seconds then 0 else go now
         | None \<Rightarrow> if time_now = -1 then 0 else go time_now)"

section \<open>The invariant\<close>

text \<open>Ordered by due time, one event per callback and user data, at most 32, no \<open>NULL\<close> callback.\<close>

definition timers_ok :: "timer_event list \<Rightarrow> bool" where
  "timers_ok ts \<longleftrightarrow> sorted (map te_due_ms ts) \<and> distinct (map te_key ts) \<and>
     length ts \<le> S3E_TIMER_MAX_EVENTS \<and> (\<forall>t \<in> set ts. te_callback t \<noteq> 0)"

lemma remove_timer_spec:
  "remove_timer_locked cb ud ts = (found, rest) \<Longrightarrow> distinct (map te_key ts) \<Longrightarrow>
   rest = filter (\<lambda>t. te_key t \<noteq> (cb, ud)) ts \<and>
   (case found of None \<Rightarrow> (cb, ud) \<notin> te_key ` set ts
    | Some t \<Rightarrow> t \<in> set ts \<and> te_key t = (cb, ud) \<and> length ts = Suc (length rest))"
proof (induction ts arbitrary: found rest)
  case Nil
  then show ?case by simp
next
  case (Cons t ts)
  show ?case
  proof (cases "te_callback t = cb \<and> te_user_data t = ud")
    case True
    then have k: "te_key t = (cb, ud)" by (simp add: te_key_def)
    with Cons.prems True have "filter (\<lambda>t. te_key t \<noteq> (cb, ud)) ts = ts"
      by (auto simp: filter_id_conv image_iff)
    with True Cons.prems k show ?thesis by auto
  next
    case False
    then have k: "te_key t \<noteq> (cb, ud)" by (simp add: te_key_def)
    obtain f r where fr: "remove_timer_locked cb ud ts = (f, r)" by fastforce
    with Cons.IH[OF fr] Cons.prems False k show ?thesis by (auto split: option.splits)
  qed
qed

lemma set_insert_timer [simp]: "set (insert_timer t ts) = insert t (set ts)"
  by (induction ts) auto

lemma length_insert_timer [simp]: "length (insert_timer t ts) = Suc (length ts)"
  by (induction ts) auto

lemma sorted_insert_timer:
  "sorted (map te_due_ms ts) \<Longrightarrow> sorted (map te_due_ms (insert_timer t ts))"
  by (induction ts) (auto simp: not_le intro: less_imp_le order_trans)

lemma distinct_insert_timer:
  "distinct (map te_key ts) \<Longrightarrow> te_key t \<notin> te_key ` set ts \<Longrightarrow> distinct (map te_key (insert_timer t ts))"
  by (induction ts) auto

lemma timers_ok_filter: "timers_ok ts \<Longrightarrow> timers_ok (filter P ts)"
  by (auto simp: timers_ok_def sorted_filter distinct_map_filter intro: order_trans[OF length_filter_le])

lemma timers_ok_tl: "timers_ok (t # ts) \<Longrightarrow> timers_ok ts"
  by (simp add: timers_ok_def)

lemma set_timer_ok:
  assumes "timers_ok (g_timers st)"
  shows "timers_ok (g_timers (snd (s3eTimerSetTimer clock ok p cb ud st)))"
proof -
  obtain found rest where r: "remove_timer_locked cb ud (g_timers st) = (found, rest)" by fastforce
  have d: "distinct (map te_key (g_timers st))" using assms by (simp add: timers_ok_def)
  note R = remove_timer_spec[OF r d]
  have ok: "timers_ok rest" using R timers_ok_filter[OF assms] by metis
  show ?thesis
  proof (cases "cb = 0 \<or> found = None \<and> (timer_count_locked rest \<ge> S3E_TIMER_MAX_EVENTS \<or> \<not> ok)")
    case True
    with r ok show ?thesis by (auto simp: s3eTimerSetTimer_def Let_def)
  next
    case False
    have len: "Suc (length rest) \<le> S3E_TIMER_MAX_EVENTS"
      using False R assms by (cases found) (auto simp: timers_ok_def timer_count_locked_def)
    have nk: "(cb, ud) \<notin> te_key ` set rest" using R by auto
    with False r ok len show ?thesis
      by (auto simp: s3eTimerSetTimer_def Let_def timers_ok_def te_key_def
          intro!: sorted_insert_timer distinct_insert_timer)
  qed
qed

lemma cancel_timer_ok:
  assumes "timers_ok (g_timers st)"
  shows "timers_ok (g_timers (snd (s3eTimerCancelTimer cb ud st)))"
proof -
  obtain found rest where r: "remove_timer_locked cb ud (g_timers st) = (found, rest)" by fastforce
  have d: "distinct (map te_key (g_timers st))" using assms by (simp add: timers_ok_def)
  from remove_timer_spec[OF r d] timers_ok_filter[OF assms] have "timers_ok rest" by metis
  with assms r show ?thesis by (simp add: s3eTimerCancelTimer_def)
qed

interpretation timer_machine: invariant_machine timer_step "\<lambda>st. timers_ok (g_timers st)"
proof
  fix st :: timer_state and e
  assume "timers_ok (g_timers st)"
  then show "timers_ok (g_timers (timer_step e st))"
    by (cases e) (simp_all add: set_timer_ok cancel_timer_ok)
qed

lemma dispatch_loop_ok:
  "timers_ok (g_timers st) \<Longrightarrow> dispatch_loop body now limit fuel fired st = Some (fired', st') \<Longrightarrow>
   timers_ok (g_timers st')"
proof (induction body now limit fuel fired st rule: dispatch_loop.induct)
  case (2 body now limit fuel fired st)
  show ?case
  proof (cases "g_timers st")
    case Nil
    with "2.prems" show ?thesis by simp
  next
    case (Cons t rest)
    show ?thesis
    proof (cases "te_due_ms t > now \<or> te_sequence t > limit")
      case True
      with Cons "2.prems" show ?thesis by simp
    next
      case False
      have "timers_ok (g_timers (fold timer_step (body fired t) (st\<lparr>g_timers := rest\<rparr>)))"
        using "2.prems"(1) Cons by (intro timer_machine.run_inv) (auto intro: timers_ok_tl)
      with "2.IH"[OF Cons False] "2.prems"(2) Cons False show ?thesis by simp
    qed
  qed
qed simp

section \<open>What one call changes\<close>

text \<open>The event a call stores, the key it touches.\<close>

definition call_key :: "timer_call \<Rightarrow> ptr \<times> ptr" where
  "call_key c = (call_cb c, call_ud c)"

lemma next_sequence_less: "unat n + 1 < 2 ^ 64 \<Longrightarrow> n < next_sequence n \<and> unat (next_sequence n) = unat n + 1"
proof -
  assume n: "unat n + 1 < 2 ^ 64"
  have u: "unat (n + 1) = unat n + 1" using n by (simp add: unat_word_ariths)
  then have "n + 1 \<noteq> 0" by (metis Suc_eq_plus1 nat.distinct(1) unat_0)
  then show ?thesis using u by (simp add: next_sequence_def word_less_nat_alt)
qed

lemma timer_step_cases [consumes 1, case_names removed same inserted]:
  assumes d: "distinct (map te_key (g_timers st))"
  obtains (removed) "g_timers (timer_step c st) = filter (\<lambda>t. te_key t \<noteq> call_key c) (g_timers st)"
      "g_timer_sequence (timer_step c st) = g_timer_sequence st"
    | (same) "timer_step c st = st"
    | (inserted) clock ok p cb ud t where "c = SetTimer clock ok p cb ud"
      "g_timers (timer_step c st) = insert_timer t (filter (\<lambda>t. te_key t \<noteq> call_key c) (g_timers st))"
      "g_timer_sequence (timer_step c st) = next_sequence (g_timer_sequence st)"
      "te_sequence t = next_sequence (g_timer_sequence st)" "te_due_ms t = clock + ucast p"
      "te_key t = call_key c"
proof -
  obtain found rest where r: "remove_timer_locked (call_cb c) (call_ud c) (g_timers st) = (found, rest)"
    by fastforce
  have rest: "rest = filter (\<lambda>t. te_key t \<noteq> call_key c) (g_timers st)"
    using remove_timer_spec[OF r d] by (simp add: call_key_def)
  show thesis
  proof (cases c)
    case (SetTimer clock ok p cb ud)
    with r rest show thesis
      by (cases "cb = 0 \<or> found = None \<and> (timer_count_locked rest \<ge> S3E_TIMER_MAX_EVENTS \<or> \<not> ok)")
        (auto simp: s3eTimerSetTimer_def Let_def te_key_def call_key_def intro: removed inserted)
  next
    case (CancelTimer cb ud)
    with r rest show thesis
      by (cases "cb = 0") (auto simp: s3eTimerCancelTimer_def intro: removed same)
  qed
qed

section \<open>Dispatch\<close>

text \<open>
  \<open>pending limit now ts\<close>: no event set after the limit stands before an older one that is due.
  \<open>in_time now c\<close>: the clock did not run backwards and the due time of the call does not wrap.
\<close>

definition pending :: "u64 \<Rightarrow> u64 \<Rightarrow> timer_event list \<Rightarrow> bool" where
  "pending limit now =
     sorted_wrt (\<lambda>a b. limit < te_sequence a \<longrightarrow> te_sequence b \<le> limit \<longrightarrow> now < te_due_ms b)"

fun in_time :: "u64 \<Rightarrow> timer_call \<Rightarrow> bool" where
  "in_time now (SetTimer clock ok p cb ud) \<longleftrightarrow> now \<le> clock \<and> unat clock + unat p < 2 ^ 64"
| "in_time now (CancelTimer cb ud) \<longleftrightarrow> True"

lemma in_time_due: "in_time now (SetTimer clock ok p cb ud) \<Longrightarrow> now \<le> clock + ucast p"
proof -
  assume a: "in_time now (SetTimer clock ok p cb ud)"
  have p: "unat (ucast p :: u64) = unat p"
    using unat_u32[of p] by (simp add: unsigned_ucast_eq take_bit_nat_eq_self)
  with a have "unat (clock + ucast p) = unat clock + unat p" by (simp add: unat_word_ariths)
  with a show ?thesis by (simp add: word_le_nat_alt)
qed

lemma pending_insert:
  "pending limit now ts \<Longrightarrow> sorted (map te_due_ms ts) \<Longrightarrow> now \<le> te_due_ms t \<Longrightarrow> limit < te_sequence t \<Longrightarrow>
   pending limit now (insert_timer t ts)"
proof (induction ts)
  case Nil
  then show ?case by (simp add: pending_def)
next
  case (Cons x xs)
  show ?case
  proof (cases "te_due_ms x \<le> te_due_ms t")
    case True
    with Cons show ?thesis by (auto simp: pending_def not_less[symmetric])
  next
    case False
    then have "now < te_due_ms x" using Cons.prems(3) by simp
    moreover have "\<forall>y \<in> set xs. te_due_ms x \<le> te_due_ms y" using Cons.prems(2) by simp
    ultimately show ?thesis using Cons.prems(1) False by (auto simp: pending_def intro: less_le_trans)
  qed
qed

text \<open>One timer call during a dispatch: older events are at most removed, and only by their key.\<close>

definition older :: "u64 \<Rightarrow> timer_state \<Rightarrow> timer_event set" where
  "older limit st = {t \<in> set (g_timers st). te_sequence t \<le> limit}"

definition disp_inv :: "u64 \<Rightarrow> u64 \<Rightarrow> nat \<Rightarrow> timer_state \<Rightarrow> bool" where
  "disp_inv limit now n st \<longleftrightarrow> timers_ok (g_timers st) \<and> limit \<le> g_timer_sequence st \<and>
     unat (g_timer_sequence st) + n < 2 ^ 64 \<and> pending limit now (g_timers st)"

lemma disp_step:
  assumes inv: "disp_inv limit now (Suc n) st" and time: "in_time now c"
  shows "disp_inv limit now n (timer_step c st)" and "older limit (timer_step c st) \<subseteq> older limit st"
    and "e \<in> older limit st \<Longrightarrow> te_key e \<noteq> call_key c \<Longrightarrow> e \<in> older limit (timer_step c st)"
proof -
  have d: "distinct (map te_key (g_timers st))" and so: "sorted (map te_due_ms (g_timers st))"
    using inv by (auto simp: disp_inv_def timers_ok_def)
  have tok: "timers_ok (g_timers (timer_step c st))"
    using inv by (intro timer_machine.step_inv) (simp add: disp_inv_def)
  have nx: "g_timer_sequence st < next_sequence (g_timer_sequence st)"
    "unat (next_sequence (g_timer_sequence st)) = unat (g_timer_sequence st) + 1"
    using next_sequence_less[of "g_timer_sequence st"] inv by (auto simp: disp_inv_def)
  have pf: "pending limit now (filter P (g_timers st))" for P
    using inv by (auto simp: disp_inv_def pending_def sorted_wrt_filter)
  have "disp_inv limit now n (timer_step c st) \<and> older limit (timer_step c st) \<subseteq> older limit st \<and>
      (\<forall>e \<in> older limit st. te_key e \<noteq> call_key c \<longrightarrow> e \<in> older limit (timer_step c st))"
    using d
  proof (cases rule: timer_step_cases[where c = c])
    case removed
    with inv tok pf show ?thesis by (auto simp: disp_inv_def older_def)
  next
    case same
    with inv show ?thesis by (auto simp: disp_inv_def)
  next
    case (inserted clock ok p cb ud t)
    have lt: "limit < te_sequence t" using inserted(4) nx inv by (auto simp: disp_inv_def)
    have due: "now \<le> te_due_ms t" using in_time_due time inserted(1,5) by simp
    have "pending limit now (g_timers (timer_step c st))"
      unfolding inserted(2) using lt due so by (intro pending_insert pf sorted_filter) auto
    with inserted inv tok nx lt show ?thesis
      by (auto simp: disp_inv_def older_def)
  qed
  then show "disp_inv limit now n (timer_step c st)" and "older limit (timer_step c st) \<subseteq> older limit st"
    and "e \<in> older limit st \<Longrightarrow> te_key e \<noteq> call_key c \<Longrightarrow> e \<in> older limit (timer_step c st)"
    by auto
qed

lemma disp_steps:
  "disp_inv limit now (length cs + n) st \<Longrightarrow> \<forall>c \<in> set cs. in_time now c \<Longrightarrow>
   disp_inv limit now n (fold timer_step cs st) \<and> older limit (fold timer_step cs st) \<subseteq> older limit st \<and>
   (\<forall>e \<in> older limit st. te_key e \<notin> call_key ` set cs \<longrightarrow> e \<in> older limit (fold timer_step cs st))"
proof (induction cs arbitrary: st)
  case Nil
  then show ?case by simp
next
  case (Cons c cs)
  have i: "disp_inv limit now (Suc (length cs + n)) st" "in_time now c" using Cons.prems by auto
  note D = disp_step[OF i]
  from Cons.IH[OF D(1)] Cons.prems(2) D(2,3) show ?case by fastforce
qed

text \<open>The history of a dispatch: what was fired, in order, and what became of the older events.\<close>

definition touched ::
  "(timer_event list \<Rightarrow> timer_event \<Rightarrow> timer_call list) \<Rightarrow> timer_event list \<Rightarrow> timer_event \<Rightarrow> bool" where
  "touched body fired e \<longleftrightarrow>
     (\<exists>before t after. fired = before @ t # after \<and> te_key e \<in> call_key ` set (body before t))"

lemma touched_append: "touched body fired e \<Longrightarrow> touched body (fired @ fs) e"
  unfolding touched_def by (metis append.assoc append_Cons)

lemma touched_last: "te_key e \<in> call_key ` set (body fired t) \<Longrightarrow> touched body (fired @ [t]) e"
  unfolding touched_def by blast

definition disp_hist ::
  "(timer_event list \<Rightarrow> timer_event \<Rightarrow> timer_call list) \<Rightarrow> u64 \<Rightarrow> u64 \<Rightarrow> timer_event set
    \<Rightarrow> timer_event list \<Rightarrow> timer_state \<Rightarrow> bool" where
  "disp_hist body limit now start fired st \<longleftrightarrow>
     distinct fired \<and> sorted (map te_due_ms fired) \<and> set fired \<subseteq> start \<and> older limit st \<subseteq> start \<and>
     set fired \<inter> older limit st = {} \<and> (\<forall>f \<in> set fired. te_due_ms f \<le> now) \<and>
     (\<forall>f \<in> set fired. \<forall>e \<in> older limit st. te_due_ms f \<le> te_due_ms e) \<and>
     (\<forall>e \<in> start. e \<in> set fired \<or> e \<in> older limit st \<or> touched body fired e)"

lemma disp_round:
  assumes hist: "disp_hist body limit now start fired st" and ts: "g_timers st = t # rest"
    and due: "te_due_ms t \<le> now" "te_sequence t \<le> limit"
    and inv: "disp_inv limit now (length (body fired t) + n) st" and time: "\<forall>c \<in> set (body fired t). in_time now c"
    and st': "st' = fold timer_step (body fired t) (st\<lparr>g_timers := rest\<rparr>)"
  shows "disp_inv limit now n st'" and "older limit st' \<subset> older limit st"
    and "disp_hist body limit now start (fired @ [t]) st'"
proof -
  let ?s1 = "st\<lparr>g_timers := rest\<rparr>"
  have "disp_inv limit now (length (body fired t) + n) ?s1"
    using inv ts by (auto simp: disp_inv_def pending_def dest: timers_ok_tl)
  note D = disp_steps[OF this time, folded st']
  have tn: "t \<notin> set rest" using inv ts by (auto simp: disp_inv_def timers_ok_def)
  have o1: "older limit st = insert t (older limit ?s1)" "t \<notin> older limit ?s1"
    using ts due(2) tn by (auto simp: older_def)
  show "disp_inv limit now n st'" using D by blast
  show "older limit st' \<subset> older limit st" using D o1 by blast
  have tle: "\<forall>e \<in> older limit ?s1. te_due_ms t \<le> te_due_ms e"
    using inv ts by (auto simp: disp_inv_def timers_ok_def older_def)
  have to: "t \<in> older limit st" and sub: "older limit st' \<subseteq> older limit st" "t \<notin> older limit st'"
    using o1 D by blast+
  have "\<forall>e \<in> start. e \<in> set (fired @ [t]) \<or> e \<in> older limit st' \<or> touched body (fired @ [t]) e"
  proof
    fix e assume "e \<in> start"
    with hist consider "e \<in> set fired" | "e \<in> older limit st" | "touched body fired e"
      by (auto simp: disp_hist_def)
    then show "e \<in> set (fired @ [t]) \<or> e \<in> older limit st' \<or> touched body (fired @ [t]) e"
      using D o1 by cases (auto intro: touched_append touched_last)
  qed
  moreover have "sorted (map te_due_ms (fired @ [t]))"
    using hist to by (auto simp: disp_hist_def sorted_append)
  moreover have "t \<notin> set fired" "t \<in> start" "set fired \<inter> older limit st' = {}" "older limit st' \<subseteq> start"
    using hist to sub by (auto simp: disp_hist_def)
  moreover have "\<forall>e \<in> older limit st'. te_due_ms t \<le> te_due_ms e" using tle D by blast
  ultimately show "disp_hist body limit now start (fired @ [t]) st'"
    using hist sub due(1) by (auto simp: disp_hist_def)
qed

lemma dispatch_loop_done:
  assumes body: "\<And>h t. length (body h t) \<le> k \<and> (\<forall>c \<in> set (body h t). in_time now c)"
  shows "disp_inv limit now (k * m) st \<Longrightarrow> disp_hist body limit now start fired st \<Longrightarrow>
    card (older limit st) \<le> m \<Longrightarrow> m < fuel \<Longrightarrow>
    \<exists>fired' st'. dispatch_loop body now limit fuel fired st = Some (fired', st') \<and>
      disp_hist body limit now start fired' st' \<and> (\<forall>e \<in> older limit st'. now < te_due_ms e)"
proof (induction fuel arbitrary: m fired st)
  case 0
  then show ?case by simp
next
  case (Suc fuel)
  show ?case
  proof (cases "g_timers st")
    case Nil
    with Suc.prems show ?thesis by (auto simp: older_def)
  next
    case (Cons t rest)
    show ?thesis
    proof (cases "te_due_ms t > now \<or> te_sequence t > limit")
      case True
      have "\<forall>e \<in> older limit st. now < te_due_ms e"
        using Suc.prems(1) Cons True
        by (auto simp: disp_inv_def older_def timers_ok_def pending_def intro: less_le_trans)
      with True Cons Suc.prems show ?thesis by auto
    next
      case False
      let ?s = "fold timer_step (body fired t) (st\<lparr>g_timers := rest\<rparr>)"
      have due: "te_due_ms t \<le> now" "te_sequence t \<le> limit" using False by auto
      have fin: "finite (older limit st)" by (simp add: older_def)
      have "t \<in> older limit st" using Cons due by (simp add: older_def)
      with fin have "0 < card (older limit st)" using card_gt_0_iff by blast
      with Suc.prems obtain j where j: "m = Suc j" by (cases m) auto
      have len: "length (body fired t) + (k * m - length (body fired t)) = k * m"
        using body[of fired t] j by (simp add: trans_le_add1)
      have i: "disp_inv limit now (length (body fired t) + (k * m - length (body fired t))) st"
        unfolding len by (rule Suc.prems(1))
      note R = disp_round[OF Suc.prems(2) Cons due i _ refl]
      have le: "k * j \<le> k * m - length (body fired t)" using conjunct1[OF body[of fired t]] unfolding j mult_Suc_right by linarith
      have "disp_inv limit now (k * j) ?s" using R(1) body[of fired t] le by (auto simp: disp_inv_def)
      moreover have "card (older limit ?s) \<le> j"
        using psubset_card_mono[OF fin R(2)] body[of fired t] Suc.prems(3) j by auto
      ultimately show ?thesis
        using Suc.IH[of j ?s "fired @ [t]"] R(3) body[of fired t] Suc.prems(4) j Cons False by auto
    qed
  qed
qed

section \<open>Properties\<close>



text \<open>Two due timers and one that is not; the first re-arms itself with period 0 and cancels nothing.\<close>

definition sample_body :: "timer_event list \<Rightarrow> timer_event \<Rightarrow> timer_call list" where
  "sample_body h t = (if te_callback t = 1 then [SetTimer 60 True 0 1 0] else [])"

definition sample_timers :: timer_state where
  "sample_timers = fold timer_step [SetTimer 0 True 50 2 0, SetTimer 10 True 20 1 0, SetTimer 10 True 90 3 0]
     \<lparr>g_timers = [], g_timer_sequence = 0\<rparr>"


end
