(* ===== verification/Zeroconf_State.thy ===== *)
theory Zeroconf_State
  imports Mdns_Properties
begin

text \<open>
  The data of \<open>src/s3e_zeroconf.c\<close> and its functions that do not call back into the guest:
  searches with the services they discovered and the addresses they know, publishers, and the
  service identifiers on the heap.

  The static variables of the file are the record \<open>zc_state\<close>. A \<open>struct zero_conf_service_id *\<close> is
  a natural number, and \<open>zc_heap\<close> holds the guest tokens of the identifiers that are allocated;
  \<open>zc_heap_error\<close> is set when an identifier is freed or read that is not allocated. A search or a
  publisher handle is its index. A character array is its C string, and an array of TXT records
  is the list of its first \<open>txt_count\<close> strings: the code zeroes the rest, so that \<open>memcmp\<close> of two
  arrays with equal counts compares these lists. The platform layer (\<open>include/zeroconf_platform.h\<close>),
  \<open>malloc\<close>, \<open>gethostname\<close> and \<open>getpid\<close> are the parameter \<open>pf\<close>, whose answers may depend on how
  many platform calls were made before (\<open>zc_tick\<close>); the packets sent are logged in \<open>zc_sent\<close> and
  the guest callbacks in \<open>zc_log\<close>.
\<close>

section \<open>Constants and data\<close>

definition ZERO_CONF_MAX_SEARCHES :: nat where "ZERO_CONF_MAX_SEARCHES = 4"
definition ZERO_CONF_MAX_PUBLISHERS :: nat where "ZERO_CONF_MAX_PUBLISHERS = 4"
definition ZERO_CONF_MAX_DISCOVERED :: nat where "ZERO_CONF_MAX_DISCOVERED = 64"
definition ZERO_CONF_MAX_ADDRESSES :: nat where "ZERO_CONF_MAX_ADDRESSES = 32"
definition ZERO_CONF_MAX_TXT_RECORDS :: nat where "ZERO_CONF_MAX_TXT_RECORDS = 16"
definition ZERO_CONF_TXT_RECORD_SIZE :: nat where "ZERO_CONF_TXT_RECORD_SIZE = 256"
definition ZERO_CONF_PACKET_SIZE :: nat where "ZERO_CONF_PACKET_SIZE = 2048"
definition ZERO_CONF_DEFAULT_TTL_SECONDS :: u32 where "ZERO_CONF_DEFAULT_TTL_SECONDS = 120"
definition ZERO_CONF_QUERY_INTERVAL_MS :: u64 where "ZERO_CONF_QUERY_INTERVAL_MS = 2000"
definition ZERO_CONF_FOLLOWUP_QUERY_INTERVAL_MS :: u64 where "ZERO_CONF_FOLLOWUP_QUERY_INTERVAL_MS = 1000"
definition ZERO_CONF_ANNOUNCE_INTERVAL_MS :: u64 where "ZERO_CONF_ANNOUNCE_INTERVAL_MS = 60000"
definition ZERO_CONF_TXT_UPDATE_INTERVAL_MS :: u64 where "ZERO_CONF_TXT_UPDATE_INTERVAL_MS = 1000"
definition MDNS_WIRE_RESPONSE_FLAGS :: u16 where "MDNS_WIRE_RESPONSE_FLAGS = 0x8400"
definition MDNS_WIRE_FLAG_QR :: u16 where "MDNS_WIRE_FLAG_QR = 0x8000"

lemmas zc_sizes = ZERO_CONF_MAX_SEARCHES_def ZERO_CONF_MAX_PUBLISHERS_def ZERO_CONF_MAX_DISCOVERED_def
  ZERO_CONF_MAX_ADDRESSES_def ZERO_CONF_MAX_TXT_RECORDS_def

type_synonym ptr = u32

record zero_conf_address =
  za_host :: cstring
  za_ipv4 :: "u8 list"
  za_expires_at_ms :: u64
  za_in_use :: bool

record zero_conf_discovered =
  zd_service_id :: "nat option"
  zd_instance_fqdn :: cstring
  zd_name :: cstring
  zd_host :: cstring
  zd_ipv4 :: "u8 list"
  zd_port :: u16
  zd_txt :: "cstring list"
  zd_ptr_expires_at_ms :: u64
  zd_srv_expires_at_ms :: u64
  zd_txt_expires_at_ms :: u64
  zd_a_expires_at_ms :: u64
  zd_next_srv_query_ms :: u64
  zd_next_txt_query_ms :: u64
  zd_next_a_query_ms :: u64
  zd_change_sequence :: u64
  zd_in_use :: bool
  zd_has_ptr :: bool
  zd_has_srv :: bool
  zd_has_txt :: bool
  zd_has_ipv4 :: bool
  zd_notified :: bool
  zd_remove :: bool
  zd_endpoint_changed :: bool
  zd_txt_changed :: bool

record zero_conf_search =
  zs_generation :: u32
  zs_service_type :: cstring
  zs_domain :: cstring
  zs_service_fqdn :: cstring
  zs_found_callback :: ptr
  zs_update_callback :: ptr
  zs_lost_callback :: ptr
  zs_user_data :: ptr
  zs_next_query_ms :: u64
  zs_discovered :: "zero_conf_discovered list"
  zs_addresses :: "zero_conf_address list"
  zs_in_use :: bool

record zero_conf_publisher =
  zp_generation :: u32
  zp_name :: cstring
  zp_service_type :: cstring
  zp_domain :: cstring
  zp_service_fqdn :: cstring
  zp_instance_fqdn :: cstring
  zp_host :: cstring
  zp_host_fqdn :: cstring
  zp_ipv4 :: "u8 list"
  zp_port :: u16
  zp_txt :: "cstring list"
  zp_announced_txt :: "cstring list"
  zp_next_announce_ms :: u64
  zp_last_announce_ms :: u64
  zp_txt_update_due_ms :: u64
  zp_txt_update_pending :: bool
  zp_in_use :: bool

text \<open>The structures after \<open>memset(.., 0, sizeof ..)\<close>.\<close>

definition zero_address :: zero_conf_address where
  "zero_address = \<lparr>za_host = [], za_ipv4 = replicate 4 0, za_expires_at_ms = 0, za_in_use = False\<rparr>"

definition zero_discovered :: zero_conf_discovered where
  "zero_discovered = \<lparr>zd_service_id = None, zd_instance_fqdn = [], zd_name = [], zd_host = [],
     zd_ipv4 = replicate 4 0, zd_port = 0, zd_txt = [], zd_ptr_expires_at_ms = 0,
     zd_srv_expires_at_ms = 0, zd_txt_expires_at_ms = 0, zd_a_expires_at_ms = 0,
     zd_next_srv_query_ms = 0, zd_next_txt_query_ms = 0, zd_next_a_query_ms = 0,
     zd_change_sequence = 0, zd_in_use = False, zd_has_ptr = False, zd_has_srv = False,
     zd_has_txt = False, zd_has_ipv4 = False, zd_notified = False, zd_remove = False,
     zd_endpoint_changed = False, zd_txt_changed = False\<rparr>"

definition zero_search :: zero_conf_search where
  "zero_search = \<lparr>zs_generation = 0, zs_service_type = [], zs_domain = [], zs_service_fqdn = [],
     zs_found_callback = 0, zs_update_callback = 0, zs_lost_callback = 0, zs_user_data = 0,
     zs_next_query_ms = 0, zs_discovered = replicate ZERO_CONF_MAX_DISCOVERED zero_discovered,
     zs_addresses = replicate ZERO_CONF_MAX_ADDRESSES zero_address, zs_in_use = False\<rparr>"

definition zero_publisher :: zero_conf_publisher where
  "zero_publisher = \<lparr>zp_generation = 0, zp_name = [], zp_service_type = [], zp_domain = [],
     zp_service_fqdn = [], zp_instance_fqdn = [], zp_host = [], zp_host_fqdn = [],
     zp_ipv4 = replicate 4 0, zp_port = 0, zp_txt = [], zp_announced_txt = [],
     zp_next_announce_ms = 0, zp_last_announce_ms = 0, zp_txt_update_due_ms = 0,
     zp_txt_update_pending = False, zp_in_use = False\<rparr>"

text \<open>What a callback is given: the data of a found service, the TXT of an update, a lost identifier.\<close>

record found_data =
  fd_service_id :: "nat option"
  fd_name :: cstring
  fd_service_type :: cstring
  fd_domain :: cstring
  fd_host :: cstring
  fd_port :: u16
  fd_txt_records :: "cstring list"
  fd_ipv4_address :: "u8 list"

datatype zc_event =
    Found (ev_search: nat) (ev_callback: ptr) (ev_data: found_data) (ev_user_data: ptr)
  | Updated (ev_search: nat) (ev_callback: ptr) (ev_id: "nat option") (ev_txt: "cstring list") (ev_user_data: ptr)
  | Lost (ev_search: nat) (ev_callback: ptr) (ev_id: "nat option") (ev_user_data: ptr)

type_synonym sockaddr = "u8 list"

record zc_state =
  g_searches :: "zero_conf_search list"
  g_publishers :: "zero_conf_publisher list"
  g_mdns_fd :: bool
  g_zero_conf_pumping :: bool
  g_search_generation :: u32
  g_publisher_generation :: u32
  g_identity_generation :: u32
  g_mdns_interface :: "u8 list option"
  g_callback_depth :: nat
  g_retired_service_ids :: "nat list"
  zc_heap :: "nat \<Rightarrow> u32 option"
  zc_next_id :: nat
  zc_heap_error :: bool
  zc_tick :: nat
  zc_sent :: "(u8 list \<times> sockaddr option) list"
  zc_log :: "zc_event list"

record zc_platform =
  pf_now_ms :: "nat \<Rightarrow> u64"
  pf_malloc :: "nat \<Rightarrow> bool"
  pf_select_ipv4 :: "nat \<Rightarrow> u8 list option"
  pf_open_socket :: "nat \<Rightarrow> u8 list option"
  pf_send :: "nat \<Rightarrow> u8 list \<Rightarrow> sockaddr option \<Rightarrow> bool"
  pf_receive :: "nat \<Rightarrow> (u8 list \<times> sockaddr) option"
  pf_hostname :: "nat \<Rightarrow> cstring option"
  pf_getpid :: u32

section \<open>State access\<close>

definition put_search :: "nat \<Rightarrow> (zero_conf_search \<Rightarrow> zero_conf_search) \<Rightarrow> zc_state \<Rightarrow> zc_state" where
  "put_search i f st = st\<lparr>g_searches := (g_searches st)[i := f (g_searches st ! i)]\<rparr>"

definition put_publisher :: "nat \<Rightarrow> (zero_conf_publisher \<Rightarrow> zero_conf_publisher) \<Rightarrow> zc_state \<Rightarrow> zc_state" where
  "put_publisher i f st = st\<lparr>g_publishers := (g_publishers st)[i := f (g_publishers st ! i)]\<rparr>"

definition entry_at :: "zc_state \<Rightarrow> nat \<Rightarrow> nat \<Rightarrow> zero_conf_discovered" where
  "entry_at st i k = zs_discovered (g_searches st ! i) ! k"

definition put_entry ::
  "nat \<Rightarrow> nat \<Rightarrow> (zero_conf_discovered \<Rightarrow> zero_conf_discovered) \<Rightarrow> zc_state \<Rightarrow> zc_state" where
  "put_entry i k f = put_search i (\<lambda>s. s\<lparr>zs_discovered := (zs_discovered s)[k := f (zs_discovered s ! k)]\<rparr>)"

definition put_address ::
  "nat \<Rightarrow> nat \<Rightarrow> (zero_conf_address \<Rightarrow> zero_conf_address) \<Rightarrow> zc_state \<Rightarrow> zc_state" where
  "put_address i k f = put_search i (\<lambda>s. s\<lparr>zs_addresses := (zs_addresses s)[k := f (zs_addresses s ! k)]\<rparr>)"

definition tick :: "zc_state \<Rightarrow> zc_state" where
  "tick st = st\<lparr>zc_tick := zc_tick st + 1\<rparr>"

definition zero_conf_now_ms :: "zc_platform \<Rightarrow> zc_state \<Rightarrow> u64 \<times> zc_state" where
  "zero_conf_now_ms pf st = (pf_now_ms pf (zc_tick st), tick st)"

definition mark_discovered_changed :: "zero_conf_discovered \<Rightarrow> zero_conf_discovered" where
  "mark_discovered_changed e =
     (let n = zd_change_sequence e + 1 in e\<lparr>zd_change_sequence := if n = 0 then n + 1 else n\<rparr>)"

definition expiry_from_ttl :: "u64 \<Rightarrow> u32 \<Rightarrow> u64" where
  "expiry_from_ttl now ttl =
     (let milliseconds = ucast ttl * 1000 in if - 1 - now < milliseconds then - 1 else now + milliseconds)"

section \<open>Service identifiers\<close>

definition next_generation :: "u32 \<Rightarrow> u32" where
  "next_generation g = (if g + 1 = 0 then 1 else g + 1)"

definition allocate_service_id :: "zc_platform \<Rightarrow> zc_state \<Rightarrow> nat option \<times> zc_state" where
  "allocate_service_id pf st =
     (if \<not> pf_malloc pf (zc_tick st) then (None, tick st)
      else let n = zc_next_id st; g = next_generation (g_identity_generation st)
           in (Some n, (tick st)\<lparr>zc_heap := (zc_heap st)(n \<mapsto> g), zc_next_id := n + 1,
                                 g_identity_generation := g\<rparr>))"

definition free_service_id :: "nat option \<Rightarrow> zc_state \<Rightarrow> zc_state" where
  "free_service_id sid st =
     (case sid of None \<Rightarrow> st
      | Some n \<Rightarrow> st\<lparr>zc_heap := (zc_heap st)(n := None),
                     zc_heap_error := (zc_heap_error st \<or> zc_heap st n = None)\<rparr>)"

definition flush_retired_service_ids :: "zc_state \<Rightarrow> zc_state" where
  "flush_retired_service_ids st =
     (if g_callback_depth st \<noteq> 0 then st
      else fold (\<lambda>n. free_service_id (Some n)) (g_retired_service_ids st) st \<lparr>g_retired_service_ids := []\<rparr>)"

text \<open>\<open>retire_service_id\<close>: the caller clears its own pointer.\<close>

definition retire_service_id :: "nat option \<Rightarrow> zc_state \<Rightarrow> zc_state" where
  "retire_service_id sid st =
     (case sid of None \<Rightarrow> st
      | Some n \<Rightarrow> if g_callback_depth st = 0 then free_service_id (Some n) st
                 else st\<lparr>g_retired_service_ids := n # g_retired_service_ids st\<rparr>)"

definition callback_enter :: "zc_state \<Rightarrow> zc_state" where
  "callback_enter st = st\<lparr>g_callback_depth := g_callback_depth st + 1\<rparr>"

definition callback_leave :: "zc_state \<Rightarrow> zc_state" where
  "callback_leave st =
     flush_retired_service_ids (if g_callback_depth st \<noteq> 0 then st\<lparr>g_callback_depth := g_callback_depth st - 1\<rparr> else st)"

text \<open>Reading \<open>service_id->guest_token\<close>: the pointer handed to the guest.\<close>

definition read_service_id :: "nat option \<Rightarrow> zc_state \<Rightarrow> zc_state" where
  "read_service_id sid st =
     (case sid of None \<Rightarrow> st
      | Some n \<Rightarrow> st\<lparr>zc_heap_error := (zc_heap_error st \<or> zc_heap st n = None)\<rparr>)"

section \<open>Names\<close>

definition copy_dns_component :: "nat \<Rightarrow> cstring option \<Rightarrow> cstring option \<Rightarrow> cstring option" where
  "copy_dns_component capacity input fallback =
     (case (case input of Some v \<Rightarrow> if v \<noteq> [] then Some v else fallback | None \<Rightarrow> fallback) of
        None \<Rightarrow> None
      | Some value \<Rightarrow>
          let v = strip_trailing_dots (dropWhile (\<lambda>c. c = dot) value)
          in if v = [] \<or> length v \<ge> capacity then None else Some v)"

definition join_dns_name :: "nat \<Rightarrow> cstring \<Rightarrow> cstring \<Rightarrow> cstring option" where
  "join_dns_name capacity left right =
     (if left = [] \<or> right = [] \<or> length left + 1 + length right \<ge> capacity then None
      else Some (left @ [dot] @ right))"

definition name_matches :: "cstring \<Rightarrow> cstring \<Rightarrow> bool" where
  "name_matches left right \<longleftrightarrow> strcaseeq left right"

definition effective_service_port :: "zero_conf_search \<Rightarrow> u16 \<Rightarrow> u16" where
  "effective_service_port s advertised_port =
     (if advertised_port = 2560 \<and> name_matches (zs_service_type s) (bytes_of ''_PROJECT_KIWI._tcp'') \<and>
         name_matches (zs_domain s) (bytes_of ''local'') then 10 else advertised_port)"

definition instance_name_for_search :: "zero_conf_search \<Rightarrow> cstring \<Rightarrow> nat \<Rightarrow> cstring option" where
  "instance_name_for_search s instance_fqdn capacity =
     (let il = length instance_fqdn; sl = length (zs_service_fqdn s)
      in if il \<le> sl + 1 \<or> instance_fqdn ! (il - sl - 1) \<noteq> dot \<or>
            \<not> strcaseeq (drop (il - sl) instance_fqdn) (zs_service_fqdn s) then None
         else let name_length = il - sl - 1
              in if name_length = 0 \<or> name_length \<ge> capacity then None
                 else Some (take name_length instance_fqdn))"

definition c_isalnum :: "u8 \<Rightarrow> bool" where
  "c_isalnum c \<longleftrightarrow> (48 \<le> c \<and> c \<le> 57) \<or> (65 \<le> c \<and> c \<le> 90) \<or> (97 \<le> c \<and> c \<le> 122)"

definition hyphen :: u8 where "hyphen = 45"

fun sanitize_host :: "cstring \<Rightarrow> cstring \<Rightarrow> cstring" where
  "sanitize_host out [] = out"
| "sanitize_host out (c # cs) =
     (if length out + 1 < 40 then
        (if c_isalnum c \<or> c = hyphen then sanitize_host (out @ [c_tolower c]) cs
         else if out \<noteq> [] \<and> last out \<noteq> hyphen then sanitize_host (out @ [hyphen]) cs
         else sanitize_host out cs)
      else out)"

fun hex_digits :: "nat \<Rightarrow> cstring" where
  "hex_digits n = (if n < 16 then [] else hex_digits (n div 16)) @
     [let d = n mod 16 in of_nat (if d < 10 then 48 + d else 87 + d)]"

declare hex_digits.simps [simp del]

definition make_host_label :: "zc_platform \<Rightarrow> zc_state \<Rightarrow> cstring" where
  "make_host_label pf st =
     (let system_name = (case pf_hostname pf (zc_tick st) of Some n \<Rightarrow> take 127 n | None \<Rightarrow> bytes_of ''device'');
          s = rev (dropWhile (\<lambda>c. c = hyphen) (rev (sanitize_host [] system_name)));
          sanitized = (if s = [] then bytes_of ''device'' else s)
      in take 63 (bytes_of ''codboz-'' @ sanitized @ [hyphen] @ hex_digits (unat (pf_getpid pf) mod 65536)))"

section \<open>Sockets and packets\<close>

definition ensure_mdns_socket :: "zc_platform \<Rightarrow> zc_state \<Rightarrow> bool \<times> zc_state" where
  "ensure_mdns_socket pf st =
     (if g_mdns_fd st then (True, st)
      else case pf_open_socket pf (zc_tick st) of
             None \<Rightarrow> (False, tick st)
           | Some ipv4 \<Rightarrow> (True, (tick st)\<lparr>g_mdns_fd := True, g_mdns_interface := Some ipv4\<rparr>))"

definition find_local_ipv4 :: "zc_platform \<Rightarrow> zc_state \<Rightarrow> u8 list option \<times> zc_state" where
  "find_local_ipv4 pf st =
     (case g_mdns_interface st of
        Some ipv4 \<Rightarrow> (Some ipv4, st)
      | None \<Rightarrow> (case pf_select_ipv4 pf (zc_tick st) of
                   None \<Rightarrow> (None, tick st)
                 | Some ipv4 \<Rightarrow> (Some ipv4, (tick st)\<lparr>g_mdns_interface := Some ipv4\<rparr>)))"

definition send_packet_to :: "zc_platform \<Rightarrow> u8 list \<Rightarrow> sockaddr option \<Rightarrow> zc_state \<Rightarrow> bool \<times> zc_state" where
  "send_packet_to pf packet destination st =
     (pf_send pf (zc_tick st) packet destination, (tick st)\<lparr>zc_sent := zc_sent st @ [(packet, destination)]\<rparr>)"

definition send_record_query :: "zc_platform \<Rightarrow> cstring \<Rightarrow> u16 \<Rightarrow> zc_state \<Rightarrow> bool \<times> zc_state" where
  "send_record_query pf name ty st =
     (case mdns_wire_build_query (Some (replicate 512 0)) 512 (Some name) ty False of
        Ok (packet, n) \<Rightarrow> send_packet_to pf (take n packet) None st
      | _ \<Rightarrow> (False, st))"

definition send_query :: "zc_platform \<Rightarrow> zero_conf_search \<Rightarrow> zc_state \<Rightarrow> bool \<times> zc_state" where
  "send_query pf s = send_record_query pf (zs_service_fqdn s) MDNS_WIRE_TYPE_PTR"

definition publisher_txt_views :: "zero_conf_publisher \<Rightarrow> mdns_wire_txt_string list" where
  "publisher_txt_views p = map (\<lambda>t. \<lparr>ts_data = Some t, ts_length = length t\<rparr>) (zp_txt p)"

definition mark_publisher_txt_announced :: "zero_conf_publisher \<Rightarrow> zero_conf_publisher" where
  "mark_publisher_txt_announced p =
     p\<lparr>zp_announced_txt := zp_txt p, zp_txt_update_pending := False, zp_txt_update_due_ms := 0\<rparr>"

definition publication_service :: "zero_conf_publisher \<Rightarrow> mdns_wire_service" where
  "publication_service p =
     \<lparr>sv_service_type = Some (zp_service_type p), sv_domain = Some (zp_domain p),
      sv_instance = Some (zp_name p), sv_host = Some (zp_host p), sv_port = zp_port p,
      sv_ipv4 = zp_ipv4 p, sv_txt = Some (publisher_txt_views p), sv_txt_count = length (zp_txt p)\<rparr>"

definition publication_options :: "bool \<Rightarrow> mdns_wire_response_options" where
  "publication_options goodbye =
     \<lparr>ro_header_flags = MDNS_WIRE_RESPONSE_FLAGS, ro_ttl = ZERO_CONF_DEFAULT_TTL_SECONDS,
      ro_cache_flush = (\<not> goodbye), ro_goodbye = goodbye\<rparr>"

definition send_publication ::
  "zc_platform \<Rightarrow> zero_conf_publisher \<Rightarrow> bool \<Rightarrow> sockaddr option \<Rightarrow> zc_state \<Rightarrow> bool \<times> zc_state" where
  "send_publication pf p goodbye destination st =
     (case mdns_wire_build_service_response (Some (replicate ZERO_CONF_PACKET_SIZE 0)) ZERO_CONF_PACKET_SIZE
             (Some (publication_service p)) (Some (publication_options goodbye)) of
        Ok (packet, n) \<Rightarrow> send_packet_to pf (take n packet) destination st
      | _ \<Rightarrow> (False, st))"

text \<open>\<open>copy_txt_records\<close>: \<open>records\<close> is the guest's array, \<open>None\<close> for a null pointer.\<close>

definition copy_txt_records :: "nat \<Rightarrow> cstring option list option \<Rightarrow> cstring list option" where
  "copy_txt_records count records =
     (if count > ZERO_CONF_MAX_TXT_RECORDS \<or> (count \<noteq> 0 \<and> records = None) then None
      else let rs = (if count = 0 then [] else take count (the records))
           in if (\<exists>r \<in> set rs. r = None \<or> length (the r) \<ge> ZERO_CONF_TXT_RECORD_SIZE) then None
              else Some (map the rs))"

end
