(* ===== verification/Zeroconf.thy ===== *)
theory Zeroconf
  imports Zeroconf_State
begin

unbundle bit_operations_syntax

text \<open>
  The operations of \<open>src/s3e_zeroconf.c\<close>: applying the records of a response to a search,
  expiry, dispatching changes to the guest, answering queries, and the API functions. The guest
  is the parameter \<open>guest\<close>: for every callback it answers with the API calls it makes, which run
  while the callback is active. (A call of \<open>s3e_zero_conf_pump\<close> from a callback returns at once
  and is left out.)
\<close>

section \<open>Discovered services and addresses\<close>

definition txt_records_equal :: "cstring list \<Rightarrow> cstring list \<Rightarrow> bool" where
  "txt_records_equal left right \<longleftrightarrow> length left = length right \<and> left = right"

definition clear_discovered :: "nat \<Rightarrow> nat \<Rightarrow> zc_state \<Rightarrow> zc_state" where
  "clear_discovered i k st =
     put_entry i k (\<lambda>_. zero_discovered) (retire_service_id (zd_service_id (entry_at st i k)) st)"

definition find_discovered :: "zero_conf_search \<Rightarrow> cstring \<Rightarrow> nat option" where
  "find_discovered s instance_fqdn =
     find_idx (\<lambda>e. zd_in_use e \<and> name_matches (zd_instance_fqdn e) instance_fqdn) (zs_discovered s)"

definition allocate_discovered ::
  "zc_platform \<Rightarrow> nat \<Rightarrow> cstring \<Rightarrow> zc_state \<Rightarrow> nat option \<times> zc_state" where
  "allocate_discovered pf i instance_fqdn st =
     (let s = g_searches st ! i in
      case find_discovered s instance_fqdn of
        Some k \<Rightarrow> (Some k, st)
      | None \<Rightarrow>
          (case find_idx (\<lambda>e. \<not> zd_in_use e) (zs_discovered s) of
             None \<Rightarrow> (None, st)
           | Some k \<Rightarrow>
               let st1 = put_entry i k (\<lambda>_. zero_discovered) st
               in if length instance_fqdn \<ge> MDNS_WIRE_MAX_NAME then (None, st1)
                  else (case instance_name_for_search s instance_fqdn MDNS_WIRE_MAX_NAME of
                          None \<Rightarrow> (None, st1)
                        | Some name \<Rightarrow>
                            let st2 = put_entry i k (\<lambda>e. e\<lparr>zd_name := name\<rparr>) st1
                            in (case allocate_service_id pf st2 of
                                  (None, st3) \<Rightarrow> (None, st3)
                                | (Some n, st3) \<Rightarrow>
                                    (Some k, put_entry i k (\<lambda>e. e\<lparr>zd_service_id := Some n,
                                       zd_instance_fqdn := instance_fqdn, zd_in_use := True\<rparr>) st3)))))"

definition discovered_complete :: "zero_conf_discovered \<Rightarrow> bool" where
  "discovered_complete e \<longleftrightarrow> zd_has_ptr e \<and> zd_has_srv e \<and> zd_has_txt e \<and> zd_has_ipv4 e"

definition find_address :: "zero_conf_search \<Rightarrow> cstring \<Rightarrow> nat option" where
  "find_address s host = find_idx (\<lambda>a. za_in_use a \<and> name_matches (za_host a) host) (zs_addresses s)"

definition allocate_address :: "nat \<Rightarrow> cstring \<Rightarrow> zc_state \<Rightarrow> nat option \<times> zc_state" where
  "allocate_address i host st =
     (let s = g_searches st ! i in
      case find_address s host of
        Some k \<Rightarrow> (Some k, st)
      | None \<Rightarrow>
          (case find_idx (\<lambda>a. \<not> za_in_use a) (zs_addresses s) of
             None \<Rightarrow> (None, st)
           | Some k \<Rightarrow>
               if length host = 0 \<or> length host \<ge> MDNS_WIRE_MAX_NAME then (None, st)
               else (Some k, put_address i k (\<lambda>_. zero_address\<lparr>za_host := host, za_in_use := True\<rparr>) st)))"

definition apply_cached_address :: "zero_conf_search \<Rightarrow> u64 \<Rightarrow> zero_conf_discovered \<Rightarrow> zero_conf_discovered" where
  "apply_cached_address s now e =
     (if \<not> zd_has_srv e then e
      else case find_address s (zd_host e) of
             None \<Rightarrow> e
           | Some k \<Rightarrow>
               let a = zs_addresses s ! k
               in if za_expires_at_ms a = 0 \<or> za_expires_at_ms a \<le> now then e
                  else let e1 = mark_discovered_changed e
                       in e1\<lparr>zd_endpoint_changed := (zd_endpoint_changed e1 \<or>
                               (zd_has_ipv4 e1 \<and> zd_ipv4 e1 \<noteq> za_ipv4 a)),
                             zd_ipv4 := za_ipv4 a, zd_a_expires_at_ms := za_expires_at_ms a,
                             zd_has_ipv4 := True\<rparr>)"

section \<open>Applying the records of a response\<close>

definition apply_ptr_record ::
  "zc_platform \<Rightarrow> nat \<Rightarrow> u64 \<Rightarrow> mdns_wire_record \<Rightarrow> zc_state \<Rightarrow> zc_state" where
  "apply_ptr_record pf i now r st =
     (case r_data r of
        RDATA_PTR target \<Rightarrow>
          if r_class_code r \<noteq> MDNS_WIRE_CLASS_IN \<or>
             \<not> name_matches (r_owner r) (zs_service_fqdn (g_searches st ! i)) then st
          else if r_ttl r = 0 then
            (case find_discovered (g_searches st ! i) target of
               None \<Rightarrow> st
             | Some k \<Rightarrow> put_entry i k (\<lambda>e. (mark_discovered_changed e)
                           \<lparr>zd_has_ptr := False, zd_ptr_expires_at_ms := 0, zd_remove := True\<rparr>) st)
          else
            (case allocate_discovered pf i target st of
               (None, st1) \<Rightarrow> st1
             | (Some k, st1) \<Rightarrow> put_entry i k (\<lambda>e. (mark_discovered_changed e)
                 \<lparr>zd_has_ptr := True, zd_ptr_expires_at_ms := expiry_from_ttl now (r_ttl r),
                  zd_remove := False\<rparr>) st1)
      | _ \<Rightarrow> st)"

definition apply_ptr_records ::
  "zc_platform \<Rightarrow> nat \<Rightarrow> u64 \<Rightarrow> mdns_wire_packet \<Rightarrow> zc_state \<Rightarrow> zc_state" where
  "apply_ptr_records pf i now p st = fold (apply_ptr_record pf i now) (p_records p) st"

text \<open>The strings of a TXT record as C strings, when each can be one.\<close>

definition txt_record_strings :: "mdns_wire_rdata \<Rightarrow> nat \<Rightarrow> cstring list option" where
  "txt_record_strings rd count =
     (let items = map (mdns_wire_txt_at rd) [0..<count]
      in if (\<exists>x \<in> set items. x = None \<or> length (the x) \<ge> ZERO_CONF_TXT_RECORD_SIZE \<or> 0 \<in> set (the x)) then None
         else Some (map the items))"

definition forget_srv :: "zero_conf_discovered \<Rightarrow> zero_conf_discovered" where
  "forget_srv e = e\<lparr>zd_has_srv := False, zd_srv_expires_at_ms := 0, zd_next_srv_query_ms := 0\<rparr>"

definition forget_txt :: "zero_conf_discovered \<Rightarrow> zero_conf_discovered" where
  "forget_txt e = e\<lparr>zd_has_txt := False, zd_txt_expires_at_ms := 0, zd_next_txt_query_ms := 0\<rparr>"

definition forget_ipv4 :: "zero_conf_discovered \<Rightarrow> zero_conf_discovered" where
  "forget_ipv4 e = e\<lparr>zd_has_ipv4 := False, zd_a_expires_at_ms := 0, zd_next_a_query_ms := 0\<rparr>"

definition update_srv ::
  "zero_conf_search \<Rightarrow> u64 \<Rightarrow> u32 \<Rightarrow> u16 \<Rightarrow> cstring \<Rightarrow> zero_conf_discovered \<Rightarrow> zero_conf_discovered" where
  "update_srv s now ttl advertised_port target e =
     (let e1 = mark_discovered_changed e;
          port = effective_service_port s advertised_port;
          host_changed = (zd_host e1 \<noteq> [] \<and> \<not> name_matches (zd_host e1) target);
          e2 = (if zd_has_srv e1 \<and> (zd_port e1 \<noteq> port \<or> host_changed)
                then e1\<lparr>zd_endpoint_changed := True\<rparr> else e1);
          e3 = (if host_changed then forget_ipv4 e2 else e2);
          e4 = e3\<lparr>zd_port := port, zd_host := take (MDNS_WIRE_MAX_NAME - 1) target, zd_has_srv := True,
                  zd_srv_expires_at_ms := expiry_from_ttl now ttl\<rparr>
      in apply_cached_address s now e4)"

definition update_txt ::
  "u64 \<Rightarrow> u32 \<Rightarrow> cstring list \<Rightarrow> zero_conf_discovered \<Rightarrow> zero_conf_discovered" where
  "update_txt now ttl updated e =
     (let e1 = mark_discovered_changed e
      in e1\<lparr>zd_txt_changed := (zd_txt_changed e1 \<or> (zd_has_txt e1 \<and> zd_txt e1 \<noteq> updated)),
            zd_txt := updated, zd_has_txt := True, zd_txt_expires_at_ms := expiry_from_ttl now ttl\<rparr>)"

definition apply_service_record ::
  "zc_platform \<Rightarrow> nat \<Rightarrow> u64 \<Rightarrow> mdns_wire_record \<Rightarrow> zc_state \<Rightarrow> zc_state" where
  "apply_service_record pf i now r st =
     (let s = g_searches st ! i;
          is_srv = (case r_data r of RDATA_SRV _ _ _ _ \<Rightarrow> True | _ \<Rightarrow> False);
          is_txt = (case r_data r of RDATA_TXT _ _ \<Rightarrow> True | _ \<Rightarrow> False)
      in if r_class_code r \<noteq> MDNS_WIRE_CLASS_IN \<or> (\<not> is_srv \<and> \<not> is_txt) then st
         else
           let (found, st1) =
                 (case find_discovered s (r_owner r) of
                    Some k \<Rightarrow> (Some k, st)
                  | None \<Rightarrow> if r_ttl r = 0 \<or>
                               instance_name_for_search s (r_owner r) MDNS_WIRE_MAX_NAME = None then (None, st)
                            else allocate_discovered pf i (r_owner r) st)
           in case found of None \<Rightarrow> st1
              | Some k \<Rightarrow>
                  if r_ttl r = 0 then
                    put_entry i k (\<lambda>e. (if is_srv then forget_srv else forget_txt) (mark_discovered_changed e)) st1
                  else
                    (case r_data r of
                       RDATA_SRV _ _ port target \<Rightarrow>
                         put_entry i k (update_srv (g_searches st1 ! i) now (r_ttl r) port target) st1
                     | RDATA_TXT _ count \<Rightarrow>
                         if count > ZERO_CONF_MAX_TXT_RECORDS then st1
                         else (case txt_record_strings (r_data r) count of
                                 None \<Rightarrow> st1
                               | Some updated \<Rightarrow> put_entry i k (update_txt now (r_ttl r) updated) st1)
                     | _ \<Rightarrow> st1))"

definition apply_service_records ::
  "zc_platform \<Rightarrow> nat \<Rightarrow> u64 \<Rightarrow> mdns_wire_packet \<Rightarrow> zc_state \<Rightarrow> zc_state" where
  "apply_service_records pf i now p st = fold (apply_service_record pf i now) (p_records p) st"

text \<open>The inner loops of \<open>apply_address_records\<close> over the entries of the search.\<close>

definition forget_host_address :: "cstring \<Rightarrow> zero_conf_discovered \<Rightarrow> zero_conf_discovered" where
  "forget_host_address owner e =
     (if zd_in_use e \<and> zd_has_srv e \<and> name_matches (zd_host e) owner
      then forget_ipv4 (mark_discovered_changed e) else e)"

definition update_host_address ::
  "cstring \<Rightarrow> u8 list \<Rightarrow> u64 \<Rightarrow> zero_conf_discovered \<Rightarrow> zero_conf_discovered" where
  "update_host_address owner ipv4 expires e =
     (if \<not> zd_in_use e \<or> \<not> zd_has_srv e \<or> \<not> name_matches (zd_host e) owner then e
      else let e1 = mark_discovered_changed e
           in e1\<lparr>zd_endpoint_changed := (zd_endpoint_changed e1 \<or> (zd_has_ipv4 e1 \<and> zd_ipv4 e1 \<noteq> ipv4)),
                 zd_ipv4 := ipv4, zd_has_ipv4 := True, zd_a_expires_at_ms := expires\<rparr>)"

definition map_entries ::
  "nat \<Rightarrow> (zero_conf_discovered \<Rightarrow> zero_conf_discovered) \<Rightarrow> zc_state \<Rightarrow> zc_state" where
  "map_entries i f = put_search i (\<lambda>s. s\<lparr>zs_discovered := map f (zs_discovered s)\<rparr>)"

definition apply_address_record :: "nat \<Rightarrow> u64 \<Rightarrow> mdns_wire_record \<Rightarrow> zc_state \<Rightarrow> zc_state" where
  "apply_address_record i now r st =
     (case r_data r of
        RDATA_A ipv4 \<Rightarrow>
          if r_class_code r \<noteq> MDNS_WIRE_CLASS_IN then st
          else if r_ttl r = 0 then
            map_entries i (forget_host_address (r_owner r))
              (case find_address (g_searches st ! i) (r_owner r) of
                 None \<Rightarrow> st | Some k \<Rightarrow> put_address i k (\<lambda>_. zero_address) st)
          else
            (case allocate_address i (r_owner r) st of
               (None, st1) \<Rightarrow> st1
             | (Some k, st1) \<Rightarrow>
                 let expires = expiry_from_ttl now (r_ttl r)
                 in map_entries i (update_host_address (r_owner r) ipv4 expires)
                      (put_address i k (\<lambda>a. a\<lparr>za_ipv4 := ipv4, za_expires_at_ms := expires\<rparr>) st1))
      | _ \<Rightarrow> st)"

definition apply_address_records :: "nat \<Rightarrow> u64 \<Rightarrow> mdns_wire_packet \<Rightarrow> zc_state \<Rightarrow> zc_state" where
  "apply_address_records i now p st = fold (apply_address_record i now) (p_records p) st"

section \<open>Follow-up queries\<close>

definition followup_entry :: "zc_platform \<Rightarrow> nat \<Rightarrow> u64 \<Rightarrow> nat \<Rightarrow> zc_state \<Rightarrow> zc_state" where
  "followup_entry pf i now k st =
     (let e = entry_at st i k; again = now + ZERO_CONF_FOLLOWUP_QUERY_INTERVAL_MS in
      if \<not> zd_in_use e \<or> zd_remove e \<or> \<not> zd_has_ptr e then st
      else
        let st1 = (if \<not> zd_has_srv e \<and> now \<ge> zd_next_srv_query_ms e
                   then put_entry i k (\<lambda>e. e\<lparr>zd_next_srv_query_ms := again\<rparr>)
                          (snd (send_record_query pf (zd_instance_fqdn e) MDNS_WIRE_TYPE_SRV st)) else st);
            st2 = (if \<not> zd_has_txt e \<and> now \<ge> zd_next_txt_query_ms e
                   then put_entry i k (\<lambda>e. e\<lparr>zd_next_txt_query_ms := again\<rparr>)
                          (snd (send_record_query pf (zd_instance_fqdn e) MDNS_WIRE_TYPE_TXT st1)) else st1)
        in if zd_has_srv e \<and> \<not> zd_has_ipv4 e \<and> now \<ge> zd_next_a_query_ms e
           then put_entry i k (\<lambda>e. e\<lparr>zd_next_a_query_ms := again\<rparr>)
                  (snd (send_record_query pf (zd_host e) MDNS_WIRE_TYPE_A st2)) else st2)"

definition send_followup_queries :: "zc_platform \<Rightarrow> nat \<Rightarrow> u64 \<Rightarrow> zc_state \<Rightarrow> zc_state" where
  "send_followup_queries pf i now st = fold (followup_entry pf i now) [0..<ZERO_CONF_MAX_DISCOVERED] st"

section \<open>The API\<close>

definition resolve_search :: "zc_state \<Rightarrow> nat \<Rightarrow> nat option" where
  "resolve_search st handle =
     (if handle < length (g_searches st) \<and> zs_in_use (g_searches st ! handle) then Some handle else None)"

definition resolve_publisher :: "zc_state \<Rightarrow> nat \<Rightarrow> nat option" where
  "resolve_publisher st handle =
     (if handle < length (g_publishers st) \<and> zp_in_use (g_publishers st ! handle) then Some handle else None)"

definition clear_search :: "nat \<Rightarrow> zc_state \<Rightarrow> zc_state" where
  "clear_search i st =
     put_search i (\<lambda>_. zero_search)
       (fold (\<lambda>e. retire_service_id (zd_service_id e)) (zs_discovered (g_searches st ! i)) st)"

record search_args =
  sa_service_type :: "cstring option"
  sa_domain :: "cstring option"
  sa_found :: ptr
  sa_update :: ptr
  sa_lost :: ptr
  sa_user_data :: ptr

definition s3eZeroConfStartSearch :: "zc_platform \<Rightarrow> search_args \<Rightarrow> zc_state \<Rightarrow> nat option \<times> zc_state" where
  "s3eZeroConfStartSearch pf a st =
     (if sa_service_type a = None then (None, st)
      else case find_idx (\<lambda>s. \<not> zs_in_use s) (g_searches st) of
        None \<Rightarrow> (None, st)
      | Some i \<Rightarrow>
          let st1 = put_search i (\<lambda>_. zero_search) st in
          (case copy_dns_component MDNS_WIRE_MAX_NAME (sa_service_type a) None of
             None \<Rightarrow> (None, st1)
           | Some ty \<Rightarrow>
          let st2 = put_search i (\<lambda>s. s\<lparr>zs_service_type := ty\<rparr>) st1 in
          (case copy_dns_component MDNS_WIRE_MAX_NAME (sa_domain a) (Some (bytes_of ''local'')) of
             None \<Rightarrow> (None, st2)
           | Some domn \<Rightarrow>
          let st3 = put_search i (\<lambda>s. s\<lparr>zs_domain := domn\<rparr>) st2 in
          (case join_dns_name MDNS_WIRE_MAX_NAME ty domn of
             None \<Rightarrow> (None, st3)
           | Some fqdn \<Rightarrow>
          let st4 = put_search i (\<lambda>s. s\<lparr>zs_service_fqdn := fqdn\<rparr>) st3 in
          (case ensure_mdns_socket pf st4 of
             (False, st5) \<Rightarrow> (None, put_search i (\<lambda>_. zero_search) st5)
           | (True, st5) \<Rightarrow>
               let g = next_generation (g_search_generation st5);
                   st6 = put_search i (\<lambda>s. s\<lparr>zs_generation := g, zs_found_callback := sa_found a,
                           zs_update_callback := sa_update a, zs_lost_callback := sa_lost a,
                           zs_user_data := sa_user_data a, zs_in_use := True\<rparr>)
                         (st5\<lparr>g_search_generation := g\<rparr>);
                   (now, st7) = zero_conf_now_ms pf st6;
                   st8 = snd (send_query pf (g_searches st7 ! i) st7)
               in (Some i, put_search i (\<lambda>s. s\<lparr>zs_next_query_ms := now + ZERO_CONF_QUERY_INTERVAL_MS\<rparr>) st8))))))"

definition s3eZeroConfStopSearch :: "nat \<Rightarrow> zc_state \<Rightarrow> zc_state" where
  "s3eZeroConfStopSearch handle st =
     (case resolve_search st handle of None \<Rightarrow> st | Some i \<Rightarrow> clear_search i st)"

record publish_args =
  pa_port :: u16
  pa_name :: "cstring option"
  pa_service_type :: "cstring option"
  pa_domain :: "cstring option"
  pa_txt_count :: nat
  pa_txt_records :: "cstring option list option"

definition ntohs :: "u16 \<Rightarrow> u16" where
  "ntohs v = push_bit 8 v OR drop_bit 8 v"

text \<open>The fields \<open>s3eZeroConfPublish\<close> copies before it takes the slot, and the ones it derives.\<close>

definition publisher_fields :: "publish_args \<Rightarrow> zero_conf_publisher option" where
  "publisher_fields a =
     (case copy_dns_component 65 (pa_name a) None of None \<Rightarrow> None | Some name \<Rightarrow>
     (case copy_dns_component MDNS_WIRE_MAX_NAME (pa_service_type a) None of None \<Rightarrow> None | Some ty \<Rightarrow>
     (case copy_dns_component MDNS_WIRE_MAX_NAME (pa_domain a) (Some (bytes_of ''local'')) of
        None \<Rightarrow> None | Some domn \<Rightarrow>
     (case copy_txt_records (pa_txt_count a) (pa_txt_records a) of None \<Rightarrow> None | Some txt \<Rightarrow>
        Some (zero_publisher\<lparr>zp_name := name, zp_service_type := ty, zp_domain := domn, zp_txt := txt\<rparr>)))))"

definition s3eZeroConfPublish :: "zc_platform \<Rightarrow> publish_args \<Rightarrow> zc_state \<Rightarrow> nat option \<times> zc_state" where
  "s3eZeroConfPublish pf a st =
     (if pa_port a = 0 \<or> pa_name a = None \<or> pa_name a = Some [] \<or> pa_service_type a = None \<or>
         length (the (pa_name a)) > 64 then (None, st)
      else case find_idx (\<lambda>p. \<not> zp_in_use p) (g_publishers st) of
        None \<Rightarrow> (None, st)
      | Some i \<Rightarrow>
          let failed = (\<lambda>st. (None, put_publisher i (\<lambda>_. zero_publisher) st)) in
          (case publisher_fields a of
             None \<Rightarrow> failed st
           | Some p \<Rightarrow>
          let g = next_generation (g_publisher_generation st);
              st1 = st\<lparr>g_publisher_generation := g\<rparr>;
              p1 = p\<lparr>zp_port := ntohs (pa_port a), zp_generation := g, zp_in_use := True\<rparr> in
          if length (zp_name p) > 63 then failed st1
          else (case ensure_mdns_socket pf st1 of
             (False, st2) \<Rightarrow> failed st2
           | (True, st2) \<Rightarrow>
          (case join_dns_name MDNS_WIRE_MAX_NAME (zp_service_type p) (zp_domain p) of
             None \<Rightarrow> failed st2
           | Some service_fqdn \<Rightarrow>
          (case join_dns_name MDNS_WIRE_MAX_NAME (zp_name p) service_fqdn of
             None \<Rightarrow> failed st2
           | Some instance_fqdn \<Rightarrow>
          (case find_local_ipv4 pf st2 of
             (None, st3) \<Rightarrow> failed st3
           | (Some ipv4, st3) \<Rightarrow>
          let host = make_host_label pf st3 in
          (case join_dns_name MDNS_WIRE_MAX_NAME host (zp_domain p) of
             None \<Rightarrow> failed st3
           | Some host_fqdn \<Rightarrow>
               let p2 = p1\<lparr>zp_service_fqdn := service_fqdn, zp_instance_fqdn := instance_fqdn,
                           zp_ipv4 := ipv4, zp_host := host, zp_host_fqdn := host_fqdn\<rparr>;
                   (now, st4) = zero_conf_now_ms pf (put_publisher i (\<lambda>_. p2) st3);
                   st5 = snd (send_publication pf p2 False None st4)
               in (Some i, put_publisher i (\<lambda>q. (mark_publisher_txt_announced q)
                     \<lparr>zp_last_announce_ms := now,
                      zp_next_announce_ms := now + ZERO_CONF_ANNOUNCE_INTERVAL_MS\<rparr>) st5))))))))"

definition s3eZeroConfUpdateTxtRecord ::
  "zc_platform \<Rightarrow> nat \<Rightarrow> nat \<Rightarrow> cstring option list option \<Rightarrow> zc_state \<Rightarrow> bool \<times> zc_state" where
  "s3eZeroConfUpdateTxtRecord pf handle txt_count txt_records st =
     (case (resolve_publisher st handle, copy_txt_records txt_count txt_records) of
        (Some i, Some updated) \<Rightarrow>
          let p = g_publishers st ! i in
          if txt_records_equal (zp_txt p) updated then (True, st)
          else
            let st1 = put_publisher i (\<lambda>p. p\<lparr>zp_txt := updated\<rparr>) st in
            if txt_records_equal updated (zp_announced_txt p) then
              (True, put_publisher i (\<lambda>p. p\<lparr>zp_txt_update_pending := False, zp_txt_update_due_ms := 0\<rparr>) st1)
            else if \<not> zp_txt_update_pending p then
              let (now, st2) = zero_conf_now_ms pf st1;
                  earliest = zp_last_announce_ms p + ZERO_CONF_TXT_UPDATE_INTERVAL_MS
              in (True, put_publisher i (\<lambda>p. p\<lparr>zp_txt_update_due_ms := (if now > earliest then now else earliest),
                          zp_txt_update_pending := True\<rparr>) st2)
            else (True, st1)
      | _ \<Rightarrow> (False, st))"

definition s3eZeroConfUnpublish :: "zc_platform \<Rightarrow> nat \<Rightarrow> zc_state \<Rightarrow> bool \<times> zc_state" where
  "s3eZeroConfUnpublish pf handle st =
     (case resolve_publisher st handle of
        None \<Rightarrow> (False, st)
      | Some i \<Rightarrow> (True, put_publisher i (\<lambda>_. zero_publisher)
                     (snd (send_publication pf (g_publishers st ! i) True None st))))"

datatype zc_call =
    StartSearch search_args
  | StopSearch nat
  | Publish publish_args
  | UpdateTxt nat nat "cstring option list option"
  | Unpublish nat

fun zc_call_step :: "zc_platform \<Rightarrow> zc_call \<Rightarrow> zc_state \<Rightarrow> zc_state" where
  "zc_call_step pf (StartSearch a) st = snd (s3eZeroConfStartSearch pf a st)"
| "zc_call_step pf (StopSearch h) st = s3eZeroConfStopSearch h st"
| "zc_call_step pf (Publish a) st = snd (s3eZeroConfPublish pf a st)"
| "zc_call_step pf (UpdateTxt h n rs) st = snd (s3eZeroConfUpdateTxtRecord pf h n rs st)"
| "zc_call_step pf (Unpublish h) st = snd (s3eZeroConfUnpublish pf h st)"

section \<open>Callbacks\<close>

type_synonym zc_guest = "zc_state \<Rightarrow> zc_event \<Rightarrow> zc_call list"

definition run_callback :: "zc_platform \<Rightarrow> zc_guest \<Rightarrow> zc_event \<Rightarrow> zc_state \<Rightarrow> zc_state" where
  "run_callback pf guest ev st =
     (let st1 = callback_enter (st\<lparr>zc_log := zc_log st @ [ev]\<rparr>)
      in callback_leave (fold (zc_call_step pf) (guest st1 ev) st1))"

definition found_data_of :: "zero_conf_search \<Rightarrow> zero_conf_discovered \<Rightarrow> found_data" where
  "found_data_of s e =
     \<lparr>fd_service_id = zd_service_id e, fd_name = zd_name e, fd_service_type = zs_service_type s,
      fd_domain = zs_domain s, fd_host = zd_host e, fd_port = ntohs (zd_port e),
      fd_txt_records = zd_txt e, fd_ipv4_address = zd_ipv4 e\<rparr>"

definition dispatch_found :: "zc_platform \<Rightarrow> zc_guest \<Rightarrow> nat \<Rightarrow> nat \<Rightarrow> zc_state \<Rightarrow> zc_state" where
  "dispatch_found pf guest i k st =
     (let s = g_searches st ! i; e = entry_at st i k;
          st1 = put_entry i k (\<lambda>e. e\<lparr>zd_notified := True\<rparr>) st
      in if zs_found_callback s = 0 then st1
         else run_callback pf guest (Found i (zs_found_callback s) (found_data_of s e) (zs_user_data s))
                (read_service_id (zd_service_id e) st1))"

definition dispatch_update :: "zc_platform \<Rightarrow> zc_guest \<Rightarrow> nat \<Rightarrow> nat \<Rightarrow> zc_state \<Rightarrow> zc_state" where
  "dispatch_update pf guest i k st =
     (let s = g_searches st ! i; e = entry_at st i k
      in if zs_update_callback s = 0 then st
         else run_callback pf guest (Updated i (zs_update_callback s) (zd_service_id e) (zd_txt e) (zs_user_data s))
                (read_service_id (zd_service_id e) st))"

definition dispatch_lost ::
  "zc_platform \<Rightarrow> zc_guest \<Rightarrow> nat \<Rightarrow> nat \<Rightarrow> nat option \<Rightarrow> zc_state \<Rightarrow> zc_state" where
  "dispatch_lost pf guest i k service_id st =
     (let s = g_searches st ! i; st1 = put_entry i k (\<lambda>e. e\<lparr>zd_notified := False\<rparr>) st
      in if zs_lost_callback s = 0 then st1
         else run_callback pf guest (Lost i (zs_lost_callback s) service_id (zs_user_data s)) st1)"

datatype rotation = Rotated | No_replacement | Search_gone

definition rotate_service_id_after_lost ::
  "zc_platform \<Rightarrow> zc_guest \<Rightarrow> nat \<Rightarrow> nat \<Rightarrow> u32 \<Rightarrow> zc_state \<Rightarrow> rotation \<times> zc_state" where
  "rotate_service_id_after_lost pf guest i k search_generation st =
     (case allocate_service_id pf st of
        (None, st1) \<Rightarrow> (No_replacement, st1)
      | (Some n, st1) \<Rightarrow>
          let retired = zd_service_id (entry_at st1 i k);
              st2 = put_entry i k (\<lambda>e. e\<lparr>zd_service_id := Some n\<rparr>) st1;
              st3 = dispatch_lost pf guest i k retired (read_service_id retired st2);
              st4 = retire_service_id retired st3;
              s = g_searches st3 ! i
          in (if \<not> zs_in_use s \<or> zs_generation s \<noteq> search_generation then Search_gone else Rotated, st4))"

text \<open>The last statement of the dispatch loop: the change flags are cleared when nothing changed meanwhile.\<close>

definition clear_change_flags :: "nat \<Rightarrow> nat \<Rightarrow> u64 \<Rightarrow> zc_state \<Rightarrow> zc_state" where
  "clear_change_flags i k change_sequence =
     put_entry i k (\<lambda>e. if zd_change_sequence e = change_sequence
       then e\<lparr>zd_endpoint_changed := False, zd_txt_changed := False\<rparr> else e)"

text \<open>One round of \<open>dispatch_search_changes\<close>; the flag says that the function returns.\<close>

definition dispatch_entry ::
  "zc_platform \<Rightarrow> zc_guest \<Rightarrow> nat \<Rightarrow> u32 \<Rightarrow> nat \<Rightarrow> zc_state \<Rightarrow> bool \<times> zc_state" where
  "dispatch_entry pf guest i generation k st =
     (let e = entry_at st i k; change_sequence = zd_change_sequence e;
          rotate = rotate_service_id_after_lost pf guest i k generation;
          finish = (\<lambda>st. let s = g_searches st ! i
                         in if \<not> zs_in_use s \<or> zs_generation s \<noteq> generation then (True, st)
                            else (False, clear_change_flags i k change_sequence st))
      in if \<not> zd_in_use e then (False, st)
         else if zd_remove e then
           (case (if zd_notified e then rotate st else (Rotated, st)) of
              (Search_gone, st1) \<Rightarrow> (True, st1)
            | (No_replacement, st1) \<Rightarrow> (False, st1)
            | (Rotated, st1) \<Rightarrow>
                if \<not> zd_remove (entry_at st1 i k) then (False, st1)
                else (False, clear_discovered i k st1))
         else if \<not> discovered_complete e then
           (case (if zd_notified e then rotate st else (Rotated, st)) of
              (Search_gone, st1) \<Rightarrow> (True, st1)
            | (No_replacement, st1) \<Rightarrow> (False, st1)
            | (Rotated, st1) \<Rightarrow> (False, clear_change_flags i k change_sequence st1))
         else if \<not> zd_notified e then finish (dispatch_found pf guest i k st)
         else if zd_endpoint_changed e then
           (case rotate st of
              (Search_gone, st1) \<Rightarrow> (True, st1)
            | (No_replacement, st1) \<Rightarrow> (False, st1)
            | (Rotated, st1) \<Rightarrow>
                finish (if \<not> zd_notified (entry_at st1 i k) then dispatch_found pf guest i k st1 else st1))
         else if zd_txt_changed e then finish (dispatch_update pf guest i k st)
         else finish st)"

fun dispatch_entries ::
  "zc_platform \<Rightarrow> zc_guest \<Rightarrow> nat \<Rightarrow> u32 \<Rightarrow> nat list \<Rightarrow> zc_state \<Rightarrow> zc_state" where
  "dispatch_entries pf guest i generation [] st = st"
| "dispatch_entries pf guest i generation (k # ks) st =
     (case dispatch_entry pf guest i generation k st of
        (True, st1) \<Rightarrow> st1
      | (False, st1) \<Rightarrow> dispatch_entries pf guest i generation ks st1)"

definition dispatch_search_changes :: "zc_platform \<Rightarrow> zc_guest \<Rightarrow> nat \<Rightarrow> zc_state \<Rightarrow> zc_state" where
  "dispatch_search_changes pf guest i st =
     dispatch_entries pf guest i (zs_generation (g_searches st ! i)) [0..<ZERO_CONF_MAX_DISCOVERED] st"

section \<open>Packets, expiry and the pump\<close>

definition question_matches :: "zero_conf_publisher \<Rightarrow> mdns_wire_question \<Rightarrow> bool" where
  "question_matches p q \<longleftrightarrow> q_class_code q = MDNS_WIRE_CLASS_IN \<and>
     ((q_type q = MDNS_WIRE_TYPE_PTR \<and> name_matches (q_name q) (zp_service_fqdn p)) \<or>
      (q_type q = MDNS_WIRE_TYPE_SRV \<and> name_matches (q_name q) (zp_instance_fqdn p)) \<or>
      (q_type q = MDNS_WIRE_TYPE_TXT \<and> name_matches (q_name q) (zp_instance_fqdn p)) \<or>
      (q_type q = MDNS_WIRE_TYPE_A \<and> name_matches (q_name q) (zp_host_fqdn p)) \<or>
      (q_type q = 255 \<and> (name_matches (q_name q) (zp_service_fqdn p) \<or>
         name_matches (q_name q) (zp_instance_fqdn p) \<or> name_matches (q_name q) (zp_host_fqdn p))))"

text \<open>The result and the flag \<open>unicast_response\<close>.\<close>

definition publisher_matches_query :: "zero_conf_publisher \<Rightarrow> mdns_wire_packet \<Rightarrow> bool \<times> bool" where
  "publisher_matches_query p packet =
     (let qs = filter (question_matches p) (p_questions packet)
      in (qs \<noteq> [], \<exists>q \<in> set qs. q_unicast_response q))"

definition process_response_search ::
  "zc_platform \<Rightarrow> zc_guest \<Rightarrow> mdns_wire_packet \<Rightarrow> u64 \<Rightarrow> nat \<Rightarrow> zc_state \<Rightarrow> zc_state" where
  "process_response_search pf guest packet now i st =
     (if \<not> zs_in_use (g_searches st ! i) then st
      else dispatch_search_changes pf guest i
             (send_followup_queries pf i now
               (apply_address_records i now packet
                 (apply_service_records pf i now packet
                   (apply_ptr_records pf i now packet st)))))"

definition answer_query ::
  "zc_platform \<Rightarrow> mdns_wire_packet \<Rightarrow> sockaddr option \<Rightarrow> nat \<Rightarrow> zc_state \<Rightarrow> zc_state" where
  "answer_query pf packet source i st =
     (let p = g_publishers st ! i; (matched, unicast_response) = publisher_matches_query p packet
      in if zp_in_use p \<and> matched
         then snd (send_publication pf p False (if unicast_response then source else None) st) else st)"

definition s3e_zero_conf_process_packet ::
  "zc_platform \<Rightarrow> zc_guest \<Rightarrow> u8 list option \<Rightarrow> nat \<Rightarrow> sockaddr option \<Rightarrow> zc_state \<Rightarrow> zc_state" where
  "s3e_zero_conf_process_packet pf guest data data_size source st =
     (if data = None \<or> data_size = 0 then st
      else if \<not> pf_malloc pf (zc_tick st) then tick st
      else case mdns_wire_parse_packet data data_size of
        Ok packet \<Rightarrow>
          if p_flags packet AND MDNS_WIRE_FLAG_QR \<noteq> 0 then
            let (now, st1) = zero_conf_now_ms pf (tick st)
            in fold (process_response_search pf guest packet now) [0..<ZERO_CONF_MAX_SEARCHES] st1
          else fold (answer_query pf packet source) [0..<ZERO_CONF_MAX_PUBLISHERS] (tick st)
      | _ \<Rightarrow> tick st)"

definition expire_address :: "u64 \<Rightarrow> zero_conf_address \<Rightarrow> zero_conf_address" where
  "expire_address now a =
     (if za_in_use a \<and> za_expires_at_ms a \<noteq> 0 \<and> za_expires_at_ms a \<le> now then zero_address else a)"

definition expire_entry :: "u64 \<Rightarrow> zero_conf_discovered \<Rightarrow> zero_conf_discovered" where
  "expire_entry now e =
     (if \<not> zd_in_use e then e
      else
        let e1 = (if zd_has_ptr e \<and> zd_ptr_expires_at_ms e \<noteq> 0 \<and> zd_ptr_expires_at_ms e \<le> now
                  then (mark_discovered_changed e)\<lparr>zd_has_ptr := False, zd_ptr_expires_at_ms := 0, zd_remove := True\<rparr>
                  else e);
            e2 = (if zd_has_srv e1 \<and> zd_srv_expires_at_ms e1 \<noteq> 0 \<and> zd_srv_expires_at_ms e1 \<le> now
                  then forget_srv (mark_discovered_changed e1) else e1);
            e3 = (if zd_has_txt e2 \<and> zd_txt_expires_at_ms e2 \<noteq> 0 \<and> zd_txt_expires_at_ms e2 \<le> now
                  then forget_txt (mark_discovered_changed e2) else e2);
            e4 = (if zd_has_ipv4 e3 \<and> zd_a_expires_at_ms e3 \<noteq> 0 \<and> zd_a_expires_at_ms e3 \<le> now
                  then forget_ipv4 (mark_discovered_changed e3) else e3)
        in if \<not> zd_has_ptr e4 \<and> \<not> zd_has_srv e4 \<and> \<not> zd_has_txt e4
           then (mark_discovered_changed e4)\<lparr>zd_remove := True\<rparr> else e4)"

definition expire_search :: "zc_platform \<Rightarrow> zc_guest \<Rightarrow> u64 \<Rightarrow> nat \<Rightarrow> zc_state \<Rightarrow> zc_state" where
  "expire_search pf guest now i st =
     (if \<not> zs_in_use (g_searches st ! i) then st
      else dispatch_search_changes pf guest i
             (send_followup_queries pf i now
               (put_search i (\<lambda>s. s\<lparr>zs_addresses := map (expire_address now) (zs_addresses s),
                                   zs_discovered := map (expire_entry now) (zs_discovered s)\<rparr>) st)))"

definition expire_discovered :: "zc_platform \<Rightarrow> zc_guest \<Rightarrow> u64 \<Rightarrow> zc_state \<Rightarrow> zc_state" where
  "expire_discovered pf guest now st = fold (expire_search pf guest now) [0..<ZERO_CONF_MAX_SEARCHES] st"

text \<open>At most 32 packets are received in one pump.\<close>

fun receive_packets :: "zc_platform \<Rightarrow> zc_guest \<Rightarrow> nat \<Rightarrow> zc_state \<Rightarrow> zc_state" where
  "receive_packets pf guest 0 st = st"
| "receive_packets pf guest (Suc n) st =
     (if \<not> g_mdns_fd st then st
      else case pf_receive pf (zc_tick st) of
             None \<Rightarrow> tick st
           | Some (data, source) \<Rightarrow>
               if data = [] then tick st
               else receive_packets pf guest n
                      (s3e_zero_conf_process_packet pf guest (Some (take ZERO_CONF_PACKET_SIZE data))
                        (min (length data) ZERO_CONF_PACKET_SIZE) (Some source) (tick st)))"

definition pump_search :: "zc_platform \<Rightarrow> u64 \<Rightarrow> nat \<Rightarrow> zc_state \<Rightarrow> zc_state" where
  "pump_search pf now i st =
     (let s = g_searches st ! i in
      if zs_in_use s \<and> now \<ge> zs_next_query_ms s
      then put_search i (\<lambda>s. s\<lparr>zs_next_query_ms := now + ZERO_CONF_QUERY_INTERVAL_MS\<rparr>)
             (snd (send_query pf s st))
      else st)"

definition pump_publisher :: "zc_platform \<Rightarrow> u64 \<Rightarrow> nat \<Rightarrow> zc_state \<Rightarrow> zc_state" where
  "pump_publisher pf now i st =
     (let p = g_publishers st ! i in
      if \<not> zp_in_use p then st
      else if zp_txt_update_pending p \<and> now \<ge> zp_txt_update_due_ms p then
        (case send_publication pf p False None st of
           (True, st1) \<Rightarrow> put_publisher i (\<lambda>p. (mark_publisher_txt_announced p)
             \<lparr>zp_last_announce_ms := now, zp_next_announce_ms := now + ZERO_CONF_ANNOUNCE_INTERVAL_MS\<rparr>) st1
         | (False, st1) \<Rightarrow> put_publisher i (\<lambda>p. p\<lparr>zp_txt_update_due_ms := now + ZERO_CONF_TXT_UPDATE_INTERVAL_MS\<rparr>) st1)
      else if now \<ge> zp_next_announce_ms p then
        let (found, st1) = find_local_ipv4 pf st;
            st2 = (case found of None \<Rightarrow> st1 | Some ipv4 \<Rightarrow> put_publisher i (\<lambda>p. p\<lparr>zp_ipv4 := ipv4\<rparr>) st1);
            (sent, st3) = send_publication pf (g_publishers st2 ! i) False None st2;
            st4 = (if sent then put_publisher i (\<lambda>p. (mark_publisher_txt_announced p)\<lparr>zp_last_announce_ms := now\<rparr>) st3
                   else st3)
        in put_publisher i (\<lambda>p. p\<lparr>zp_next_announce_ms := now + ZERO_CONF_ANNOUNCE_INTERVAL_MS\<rparr>) st4
      else st)"

definition s3e_zero_conf_pump :: "zc_platform \<Rightarrow> zc_guest \<Rightarrow> zc_state \<Rightarrow> zc_state" where
  "s3e_zero_conf_pump pf guest st =
     (if g_zero_conf_pumping st \<or> g_callback_depth st \<noteq> 0 then st
      else
        let (now, st1) = zero_conf_now_ms pf (st\<lparr>g_zero_conf_pumping := True\<rparr>);
            st2 = receive_packets pf guest 32 st1;
            st3 = expire_discovered pf guest now st2;
            st4 = fold (pump_search pf now) [0..<ZERO_CONF_MAX_SEARCHES] st3;
            st5 = fold (pump_publisher pf now) [0..<ZERO_CONF_MAX_PUBLISHERS] st4
        in st5\<lparr>g_zero_conf_pumping := False\<rparr>)"

definition goodbye_publisher :: "zc_platform \<Rightarrow> nat \<Rightarrow> zc_state \<Rightarrow> zc_state" where
  "goodbye_publisher pf i st =
     (if zp_in_use (g_publishers st ! i) then snd (send_publication pf (g_publishers st ! i) True None st) else st)"

definition s3e_zero_conf_shutdown :: "zc_platform \<Rightarrow> zc_state \<Rightarrow> zc_state" where
  "s3e_zero_conf_shutdown pf st =
     (let st1 = fold (goodbye_publisher pf) [0..<ZERO_CONF_MAX_PUBLISHERS] st;
          st2 = st1\<lparr>g_publishers := replicate ZERO_CONF_MAX_PUBLISHERS zero_publisher\<rparr>;
          st3 = fold clear_search [0..<ZERO_CONF_MAX_SEARCHES] st2;
          st4 = flush_retired_service_ids st3
      in st4\<lparr>g_mdns_fd := False, g_mdns_interface := None, g_zero_conf_pumping := False\<rparr>)"

definition zc_initial :: zc_state where
  "zc_initial = \<lparr>g_searches = replicate ZERO_CONF_MAX_SEARCHES zero_search,
     g_publishers = replicate ZERO_CONF_MAX_PUBLISHERS zero_publisher, g_mdns_fd = False,
     g_zero_conf_pumping = False, g_search_generation = 0, g_publisher_generation = 0,
     g_identity_generation = 0, g_mdns_interface = None, g_callback_depth = 0,
     g_retired_service_ids = [], zc_heap = (\<lambda>_. None), zc_next_id = 0, zc_heap_error = False,
     zc_tick = 0, zc_sent = [], zc_log = []\<rparr>"

datatype zc_input = Call zc_call | Pump | Packet "u8 list" sockaddr | Shutdown

text \<open>What the host drives: API calls of the guest outside of callbacks, the pump, a packet, shutdown.\<close>

fun zc_step :: "zc_platform \<Rightarrow> zc_guest \<Rightarrow> zc_input \<Rightarrow> zc_state \<Rightarrow> zc_state" where
  "zc_step pf guest (Call c) st = zc_call_step pf c st"
| "zc_step pf guest Pump st = s3e_zero_conf_pump pf guest st"
| "zc_step pf guest (Packet data source) st =
     s3e_zero_conf_process_packet pf guest (Some data) (length data) (Some source) st"
| "zc_step pf guest Shutdown st = s3e_zero_conf_shutdown pf st"

end
