(* ===== verification/Zeroconf_Ids.thy ===== *)
theory Zeroconf_Ids
  imports Zeroconf "HOL-Library.Multiset"
begin

text \<open>
  The invariant of the zeroconf component: the tables keep their shape, what a search knows is
  consistent with its service, and every service identifier on the heap is referenced exactly
  once, so that none is freed twice, used after it was freed, or leaked. This theory states it
  and shows that the updates below the level of the API and of the callbacks keep it.
\<close>

section \<open>References to service identifiers\<close>

definition id_refs :: "nat option \<Rightarrow> nat multiset" where
  "id_refs x = (case x of None \<Rightarrow> {#} | Some n \<Rightarrow> {#n#})"

lemma id_refs_simps [simp]: "id_refs None = {#}" "id_refs (Some n) = {#n#}"
  by (simp_all add: id_refs_def)

definition search_ids :: "zero_conf_search \<Rightarrow> nat multiset" where
  "search_ids s = (\<Sum>e \<leftarrow> zs_discovered s. id_refs (zd_service_id e))"

definition zc_ids :: "zc_state \<Rightarrow> nat multiset" where
  "zc_ids st = (\<Sum>s \<leftarrow> g_searches st. search_ids s) + mset (g_retired_service_ids st)"

lemma sum_list_update_refs:
  "k < length xs \<Longrightarrow> sum_list (map f (xs[k := y])) + f (xs ! k) = sum_list (map f xs) + (f y :: 'a multiset)"
proof (induction xs arbitrary: k)
  case (Cons x xs)
  then show ?case by (cases k) (auto simp: ac_simps)
qed simp

text \<open>
  The heap: the identifiers referenced, together with the ones \<open>x\<close> held by local variables, are
  the allocated ones, each once.
\<close>

definition heap_ok :: "nat multiset \<Rightarrow> zc_state \<Rightarrow> bool" where
  "heap_ok x st \<longleftrightarrow> finite (dom (zc_heap st)) \<and> zc_ids st + x = mset_set (dom (zc_heap st)) \<and>
     (\<forall>n \<in> dom (zc_heap st). n < zc_next_id st) \<and> \<not> zc_heap_error st"

section \<open>Well-formed searches\<close>

definition entry_ok :: "zero_conf_search \<Rightarrow> zero_conf_discovered \<Rightarrow> bool" where
  "entry_ok s e \<longleftrightarrow> (zd_in_use e \<longleftrightarrow> zd_service_id e \<noteq> None) \<and>
     (zd_in_use e \<longrightarrow> instance_name_for_search s (zd_instance_fqdn e) MDNS_WIRE_MAX_NAME = Some (zd_name e) \<and>
       length (zd_instance_fqdn e) < MDNS_WIRE_MAX_NAME)"

definition distinct_names :: "('a \<Rightarrow> bool) \<Rightarrow> ('a \<Rightarrow> cstring) \<Rightarrow> 'a list \<Rightarrow> bool" where
  "distinct_names used name xs \<longleftrightarrow>
     (\<forall>j < length xs. \<forall>k < length xs. used (xs ! j) \<longrightarrow> used (xs ! k) \<longrightarrow>
        name_matches (name (xs ! j)) (name (xs ! k)) \<longrightarrow> j = k)"

definition search_ok :: "zero_conf_search \<Rightarrow> bool" where
  "search_ok s \<longleftrightarrow> length (zs_discovered s) = ZERO_CONF_MAX_DISCOVERED \<and>
     length (zs_addresses s) = ZERO_CONF_MAX_ADDRESSES \<and> (\<forall>e \<in> set (zs_discovered s). entry_ok s e) \<and>
     (\<not> zs_in_use s \<longrightarrow> (\<forall>e \<in> set (zs_discovered s). \<not> zd_in_use e)) \<and>
     distinct_names zd_in_use zd_instance_fqdn (zs_discovered s) \<and>
     distinct_names za_in_use za_host (zs_addresses s)"

definition publisher_ok :: "zero_conf_publisher \<Rightarrow> bool" where
  "publisher_ok p \<longleftrightarrow> length (zp_txt p) \<le> ZERO_CONF_MAX_TXT_RECORDS \<and>
     (\<forall>t \<in> set (zp_txt p). length t < ZERO_CONF_TXT_RECORD_SIZE)"

definition zc_ok :: "nat multiset \<Rightarrow> zc_state \<Rightarrow> bool" where
  "zc_ok x st \<longleftrightarrow> heap_ok x st \<and> length (g_searches st) = ZERO_CONF_MAX_SEARCHES \<and>
     length (g_publishers st) = ZERO_CONF_MAX_PUBLISHERS \<and>
     (\<forall>s \<in> set (g_searches st). search_ok s) \<and> (\<forall>p \<in> set (g_publishers st). publisher_ok p) \<and>
     (g_callback_depth st = 0 \<longrightarrow> g_retired_service_ids st = [])"

lemma zc_ok_heap: "zc_ok x st \<Longrightarrow> heap_ok x st"
  by (simp add: zc_ok_def)

lemma zc_ok_search: "zc_ok x st \<Longrightarrow> i < ZERO_CONF_MAX_SEARCHES \<Longrightarrow> search_ok (g_searches st ! i)"
  by (simp add: zc_ok_def)

lemma zc_ok_lengths: "zc_ok x st \<Longrightarrow> length (g_searches st) = ZERO_CONF_MAX_SEARCHES"
  "zc_ok x st \<Longrightarrow> length (g_publishers st) = ZERO_CONF_MAX_PUBLISHERS"
  by (simp_all add: zc_ok_def)

lemma distinct_names_upd:
  assumes "distinct_names used name xs"
    and "used y \<Longrightarrow> \<forall>j < length xs. j \<noteq> k \<longrightarrow> used (xs ! j) \<longrightarrow> \<not> name_matches (name (xs ! j)) (name y)"
  shows "distinct_names used name (xs[k := y])"
proof -
  have sym: "name_matches a b \<Longrightarrow> name_matches b a" for a b
    using strcaseeq_sym by (simp add: name_matches_def)
  note D = assms(1)[unfolded distinct_names_def, rule_format]
  note Y = assms(2)[rule_format]
  have "j = m" if *: "j < length xs" "m < length xs" "used (xs[k := y] ! j)" "used (xs[k := y] ! m)"
    "name_matches (name (xs[k := y] ! j)) (name (xs[k := y] ! m))" for j m
  proof (cases "j = k")
    case True
    show ?thesis
    proof (rule ccontr)
      assume "j \<noteq> m"
      with True * have "used y" "used (xs ! m)" "name_matches (name y) (name (xs ! m))" "m \<noteq> k"
        by simp_all
      with Y[of m] *(2) sym show False by blast
    qed
  next
    case False
    show ?thesis
    proof (cases "m = k")
      case True
      with False * have "used y" "used (xs ! j)" "name_matches (name (xs ! j)) (name y)" by simp_all
      with Y[of j] *(1) False show ?thesis by blast
    next
      case m: False
      with False * have "used (xs ! j)" "used (xs ! m)" "name_matches (name (xs ! j)) (name (xs ! m))"
        by simp_all
      with D[of j m] *(1,2) show ?thesis by blast
    qed
  qed
  then show ?thesis unfolding distinct_names_def length_list_update by blast
qed

lemma distinct_names_map:
  assumes "distinct_names used name xs" and "\<And>x. x \<in> set xs \<Longrightarrow> used (f x) \<Longrightarrow> used x \<and> name (f x) = name x"
  shows "distinct_names used name (map f xs)"
  using assms unfolding distinct_names_def by (metis length_map nth_map nth_mem)

lemma distinct_names_unused: "\<forall>x \<in> set xs. \<not> used x \<Longrightarrow> distinct_names used name xs"
  by (simp add: distinct_names_def)

lemma sum_list_replicate_empty [simp]: "sum_list (replicate n {#}) = {#}"
  by (induction n) simp_all

lemma zero_search_ok: "search_ok zero_search"
  by (simp add: search_ok_def zero_search_def zero_discovered_def zero_address_def entry_ok_def
      distinct_names_unused)

lemma search_ids_zero [simp]: "search_ids zero_search = {#}"
  by (simp add: search_ids_def zero_search_def zero_discovered_def)

lemma search_ids_unused: "search_ok s \<Longrightarrow> \<not> zs_in_use s \<Longrightarrow> search_ids s = {#}"
proof -
  assume a: "search_ok s" "\<not> zs_in_use s"
  then have "\<forall>e \<in> set (zs_discovered s). id_refs (zd_service_id e) = {#}"
    by (auto simp: search_ok_def entry_ok_def)
  then have "map (\<lambda>e. id_refs (zd_service_id e)) (zs_discovered s) =
      map (\<lambda>e. {#}) (zs_discovered s)" by simp
  then show ?thesis by (simp add: search_ids_def map_replicate_const)
qed

section \<open>Updates of one search\<close>

lemma g_put_search [simp]:
  "g_publishers (put_search i f st) = g_publishers st" "zc_heap (put_search i f st) = zc_heap st"
  "zc_next_id (put_search i f st) = zc_next_id st" "zc_heap_error (put_search i f st) = zc_heap_error st"
  "g_retired_service_ids (put_search i f st) = g_retired_service_ids st"
  "g_callback_depth (put_search i f st) = g_callback_depth st"
  "g_searches (put_search i f st) = (g_searches st)[i := f (g_searches st ! i)]"
  by (simp_all add: put_search_def)

lemma zc_ids_put_search:
  "i < length (g_searches st) \<Longrightarrow>
   zc_ids (put_search i f st) + search_ids (g_searches st ! i) = zc_ids st + search_ids (f (g_searches st ! i))"
  using sum_list_update_refs[of i "g_searches st" search_ids "f (g_searches st ! i)"]
  by (simp add: zc_ids_def ac_simps)

lemma zc_ok_put_search:
  assumes "zc_ok x st" and "i < ZERO_CONF_MAX_SEARCHES" and "search_ok (f (g_searches st ! i))"
    and "search_ids (f (g_searches st ! i)) + y = search_ids (g_searches st ! i) + x"
  shows "zc_ok y (put_search i f st)"
proof -
  have i: "i < length (g_searches st)" using assms(1,2) by (simp add: zc_ok_def)
  have "zc_ids (put_search i f st) + y + search_ids (g_searches st ! i) =
      zc_ids st + search_ids (f (g_searches st ! i)) + y"
    using zc_ids_put_search[OF i, of f] by (simp add: ac_simps)
  also have "\<dots> = zc_ids st + x + search_ids (g_searches st ! i)"
    using assms(4) by (simp add: ac_simps)
  finally have "zc_ids (put_search i f st) + y = zc_ids st + x" by simp
  with assms show ?thesis
    by (auto simp: zc_ok_def heap_ok_def dest!: set_update_subset_insert[THEN subsetD])
qed

text \<open>Updates of an entry that keep its identity.\<close>

definition keeps_identity :: "(zero_conf_discovered \<Rightarrow> zero_conf_discovered) \<Rightarrow> bool" where
  "keeps_identity f \<longleftrightarrow> (\<forall>e. zd_service_id (f e) = zd_service_id e \<and> zd_in_use (f e) = zd_in_use e \<and>
     zd_instance_fqdn (f e) = zd_instance_fqdn e \<and> zd_name (f e) = zd_name e)"

lemma search_ok_map:
  assumes "search_ok s" and "keeps_identity f"
  shows "search_ok (s\<lparr>zs_discovered := map f (zs_discovered s)\<rparr>)"
    and "search_ids (s\<lparr>zs_discovered := map f (zs_discovered s)\<rparr>) = search_ids s"
proof -
  have "instance_name_for_search (s\<lparr>zs_discovered := ds\<rparr>) = instance_name_for_search s" for ds
    by (rule ext)+ (simp add: instance_name_for_search_def)
  with assms show "search_ok (s\<lparr>zs_discovered := map f (zs_discovered s)\<rparr>)"
    by (auto simp: search_ok_def entry_ok_def keeps_identity_def intro!: distinct_names_map)
  show "search_ids (s\<lparr>zs_discovered := map f (zs_discovered s)\<rparr>) = search_ids s"
    using assms(2) by (simp add: search_ids_def keeps_identity_def comp_def)
qed

lemma search_ok_entry:
  assumes "search_ok s" and "k < ZERO_CONF_MAX_DISCOVERED"
    and "entry_ok s e" and "zd_in_use e \<Longrightarrow> zs_in_use s"
    and "zd_in_use e \<Longrightarrow> \<forall>j < ZERO_CONF_MAX_DISCOVERED. j \<noteq> k \<longrightarrow> zd_in_use (zs_discovered s ! j) \<longrightarrow>
      \<not> name_matches (zd_instance_fqdn (zs_discovered s ! j)) (zd_instance_fqdn e)"
  shows "search_ok (s\<lparr>zs_discovered := (zs_discovered s)[k := e]\<rparr>)"
proof -
  have "instance_name_for_search (s\<lparr>zs_discovered := ds\<rparr>) = instance_name_for_search s" for ds
    by (rule ext)+ (simp add: instance_name_for_search_def)
  then have "entry_ok (s\<lparr>zs_discovered := ds\<rparr>) = entry_ok s" for ds
    by (intro ext) (simp add: entry_ok_def)
  with assms show ?thesis
    by (auto simp: search_ok_def dest!: set_update_subset_insert[THEN subsetD] intro!: distinct_names_upd)
qed

lemma search_ids_entry:
  assumes "k < length (zs_discovered s)"
  shows "search_ids (s\<lparr>zs_discovered := (zs_discovered s)[k := e]\<rparr>) + id_refs (zd_service_id (zs_discovered s ! k)) =
    search_ids s + id_refs (zd_service_id e)"
  using sum_list_update_refs[OF assms, of "\<lambda>e. id_refs (zd_service_id e)" e] by (simp add: search_ids_def)

lemma map_entries_ok:
  assumes "zc_ok x st" and "i < ZERO_CONF_MAX_SEARCHES" and "keeps_identity f"
  shows "zc_ok x (map_entries i f st)"
  unfolding map_entries_def using assms search_ok_map[OF zc_ok_search[OF assms(1,2)] assms(3)]
  by (intro zc_ok_put_search) simp_all

lemma search_ok_keep:
  assumes "search_ok s" and "k < ZERO_CONF_MAX_DISCOVERED" and "keeps_identity f"
  shows "search_ok (s\<lparr>zs_discovered := (zs_discovered s)[k := f (zs_discovered s ! k)]\<rparr>)"
proof -
  let ?e = "zs_discovered s ! k"
  have e: "?e \<in> set (zs_discovered s)" using assms(1,2) by (simp add: search_ok_def)
  have id: "zd_service_id (f ?e) = zd_service_id ?e" "zd_in_use (f ?e) = zd_in_use ?e"
    "zd_instance_fqdn (f ?e) = zd_instance_fqdn ?e" "zd_name (f ?e) = zd_name ?e"
    using assms(3) by (simp_all add: keeps_identity_def)
  show ?thesis
    using assms(1,2) e by (intro search_ok_entry) (auto simp: search_ok_def entry_ok_def id distinct_names_def)
qed

lemma put_entry_ok:
  assumes "zc_ok x st" and "i < ZERO_CONF_MAX_SEARCHES" and "k < ZERO_CONF_MAX_DISCOVERED" and "keeps_identity f"
  shows "zc_ok x (put_entry i k f st)"
proof -
  let ?s = "g_searches st ! i"
  have s: "search_ok ?s" by (rule zc_ok_search[OF assms(1,2)])
  have "k < length (zs_discovered ?s)" using s assms(3) by (simp add: search_ok_def)
  from search_ids_entry[OF this, of "f (zs_discovered ?s ! k)"] assms(4)
  show ?thesis
    unfolding put_entry_def using s assms search_ok_keep[OF s assms(3,4)]
    by (intro zc_ok_put_search) (simp_all add: keeps_identity_def)
qed

lemma put_address_ok:
  assumes "zc_ok x st" and "i < ZERO_CONF_MAX_SEARCHES"
    and "let a = f (zs_addresses (g_searches st ! i) ! k) in za_in_use a \<longrightarrow>
      (\<forall>j < ZERO_CONF_MAX_ADDRESSES. j \<noteq> k \<longrightarrow> za_in_use (zs_addresses (g_searches st ! i) ! j) \<longrightarrow>
         \<not> name_matches (za_host (zs_addresses (g_searches st ! i) ! j)) (za_host a))"
  shows "zc_ok x (put_address i k f st)"
proof -
  let ?s = "g_searches st ! i"
  have s: "search_ok ?s" by (rule zc_ok_search[OF assms(1,2)])
  have "entry_ok (?s\<lparr>zs_addresses := as\<rparr>) = entry_ok ?s" for as
    by (intro ext) (simp add: entry_ok_def instance_name_for_search_def)
  with s assms(3) have "search_ok (?s\<lparr>zs_addresses := (zs_addresses ?s)[k := f (zs_addresses ?s ! k)]\<rparr>)"
    by (auto simp: search_ok_def Let_def intro!: distinct_names_upd)
  with assms(1,2) show ?thesis
    unfolding put_address_def by (intro zc_ok_put_search) (simp_all add: search_ids_def)
qed

section \<open>Steps that touch neither tables nor identifiers\<close>

definition same_core :: "zc_state \<Rightarrow> zc_state \<Rightarrow> bool" where
  "same_core st st' \<longleftrightarrow> g_searches st' = g_searches st \<and> g_publishers st' = g_publishers st \<and>
     g_callback_depth st' = g_callback_depth st \<and> g_retired_service_ids st' = g_retired_service_ids st \<and>
     zc_heap st' = zc_heap st \<and> zc_next_id st' = zc_next_id st \<and> zc_heap_error st' = zc_heap_error st"

lemma same_core_ok: "same_core st st' \<Longrightarrow> zc_ok x st \<Longrightarrow> zc_ok x st'"
  by (simp add: same_core_def zc_ok_def heap_ok_def zc_ids_def)

lemma same_coreD: "same_core st st' \<Longrightarrow> g_searches st' = g_searches st"
  "same_core st st' \<Longrightarrow> g_publishers st' = g_publishers st"
  "same_core st st' \<Longrightarrow> g_callback_depth st' = g_callback_depth st"
  by (simp_all add: same_core_def)

lemma same_core_refl [simp]: "same_core st st"
  by (simp add: same_core_def)

lemma same_core_trans: "same_core a b \<Longrightarrow> same_core b c \<Longrightarrow> same_core a c"
  by (simp add: same_core_def)

lemma same_core_tick [simp]: "same_core st (tick st)"
  by (simp add: same_core_def tick_def)

lemma same_core_send_packet: "same_core st (snd (send_packet_to pf packet dest st))"
  by (simp add: same_core_def send_packet_to_def tick_def)

lemma same_core_send_record: "same_core st (snd (send_record_query pf name ty st))"
  by (auto simp: send_record_query_def same_core_send_packet split: res.splits)

lemma same_core_send_query: "same_core st (snd (send_query pf s st))"
  by (simp add: send_query_def same_core_send_record)

lemma same_core_publication: "same_core st (snd (send_publication pf p goodbye dest st))"
  by (auto simp: send_publication_def same_core_send_packet split: res.splits)

lemma same_core_ensure: "same_core st (snd (ensure_mdns_socket pf st))"
  by (auto simp: ensure_mdns_socket_def same_core_def tick_def split: option.splits)

lemma same_core_find_local: "same_core st (snd (find_local_ipv4 pf st))"
  by (auto simp: find_local_ipv4_def same_core_def tick_def split: option.splits)

lemma same_core_now: "same_core st (snd (zero_conf_now_ms pf st))"
  by (simp add: zero_conf_now_ms_def)

lemmas same_core_steps = same_core_send_record same_core_send_query same_core_publication
  same_core_ensure same_core_find_local same_core_now

section \<open>The life of an identifier\<close>

lemma zc_ok_mem: "zc_ok x st \<Longrightarrow> n \<in># zc_ids st + x \<longleftrightarrow> n \<in> dom (zc_heap st)"
proof -
  assume "zc_ok x st"
  then have "zc_ids st + x = mset_set (dom (zc_heap st))" "finite (dom (zc_heap st))"
    by (simp_all add: zc_ok_def heap_ok_def)
  then show ?thesis by (simp only: elem_mset_set)
qed

lemma allocate_id_Some:
  assumes "zc_ok x st" and "allocate_service_id pf st = (Some n, st')"
  shows "zc_ok (x + {#n#}) st'" and "g_searches st' = g_searches st" and "g_publishers st' = g_publishers st"
    and "g_callback_depth st' = g_callback_depth st" and "g_retired_service_ids st' = g_retired_service_ids st"
    and "n \<notin># zc_ids st"
proof -
  from assms(2) have n: "n = zc_next_id st" and st': "g_searches st' = g_searches st"
    "g_publishers st' = g_publishers st" "g_callback_depth st' = g_callback_depth st"
    "g_retired_service_ids st' = g_retired_service_ids st" "dom (zc_heap st') = insert n (dom (zc_heap st))"
    "zc_next_id st' = n + 1" "zc_heap_error st' = zc_heap_error st"
    by (auto simp: allocate_service_id_def Let_def tick_def split: if_splits)
  have new: "n \<notin> dom (zc_heap st)" using assms(1) n by (auto simp: zc_ok_def heap_ok_def)
  have ids: "zc_ids st' = zc_ids st" using st' by (simp add: zc_ids_def)
  show "zc_ok (x + {#n#}) st'"
    using assms(1) st' new ids n by (auto simp: zc_ok_def heap_ok_def less_Suc_eq)
  show "g_searches st' = g_searches st" "g_publishers st' = g_publishers st"
    "g_callback_depth st' = g_callback_depth st" "g_retired_service_ids st' = g_retired_service_ids st"
    by (rule st')+
  show "n \<notin># zc_ids st"
    using zc_ok_mem[OF assms(1), of n] new by auto
qed

lemma allocate_id_None: "zc_ok x st \<Longrightarrow> allocate_service_id pf st = (None, st') \<Longrightarrow> zc_ok x st' \<and> same_core st st'"
  by (auto simp: allocate_service_id_def Let_def intro: same_core_ok[OF same_core_tick] split: if_splits)

lemma heap_free:
  assumes "finite (dom (zc_heap st))" and "R + {#n#} = mset_set (dom (zc_heap st))"
  shows "R = mset_set (dom (zc_heap (free_service_id (Some n) st)))"
    and "zc_heap_error (free_service_id (Some n) st) = zc_heap_error st"
    and "dom (zc_heap (free_service_id (Some n) st)) = dom (zc_heap st) - {n}"
proof -
  have "n \<in># R + {#n#}" by simp
  then have "n \<in># mset_set (dom (zc_heap st))" unfolding assms(2) .
  then have n: "n \<in> dom (zc_heap st)" using assms(1) by simp
  show d: "dom (zc_heap (free_service_id (Some n) st)) = dom (zc_heap st) - {n}"
    by (auto simp: free_service_id_def)
  from n show "zc_heap_error (free_service_id (Some n) st) = zc_heap_error st"
    by (auto simp: free_service_id_def)
  have "add_mset n R = add_mset n (mset_set (dom (zc_heap st) - {n}))"
    using assms n by (simp add: mset_set.remove)
  then show "R = mset_set (dom (zc_heap (free_service_id (Some n) st)))" unfolding d by simp
qed

lemma free_frame [simp]:
  "g_searches (free_service_id sid st) = g_searches st" "g_publishers (free_service_id sid st) = g_publishers st"
  "g_callback_depth (free_service_id sid st) = g_callback_depth st"
  "g_retired_service_ids (free_service_id sid st) = g_retired_service_ids st"
  "zc_next_id (free_service_id sid st) = zc_next_id st"
  by (auto simp: free_service_id_def split: option.splits)

lemma retire_id_ok:
  assumes "zc_ok (x + id_refs sid) st"
  shows "zc_ok x (retire_service_id sid st)"
proof (cases sid)
  case None
  with assms show ?thesis by (simp add: retire_service_id_def)
next
  case (Some n)
  show ?thesis
  proof (cases "g_callback_depth st = 0")
    case True
    have "(zc_ids st + x) + {#n#} = mset_set (dom (zc_heap st))" "finite (dom (zc_heap st))"
      using assms Some by (auto simp: zc_ok_def heap_ok_def ac_simps)
    from heap_free[OF this(2,1)] assms Some True show ?thesis
      by (auto simp: retire_service_id_def zc_ok_def heap_ok_def zc_ids_def)
  next
    case False
    with assms Some show ?thesis
      by (simp add: retire_service_id_def zc_ok_def heap_ok_def zc_ids_def ac_simps)
  qed
qed

lemma retire_frame [simp]:
  "g_searches (retire_service_id sid st) = g_searches st" "g_publishers (retire_service_id sid st) = g_publishers st"
  "g_callback_depth (retire_service_id sid st) = g_callback_depth st"
  by (auto simp: retire_service_id_def split: option.splits)

lemma free_all_ok:
  "finite (dom (zc_heap st)) \<Longrightarrow> R + mset ns = mset_set (dom (zc_heap st)) \<Longrightarrow> \<forall>n \<in> dom (zc_heap st). n < b \<Longrightarrow>
   let st' = fold (\<lambda>n. free_service_id (Some n)) ns st in
     R = mset_set (dom (zc_heap st')) \<and> finite (dom (zc_heap st')) \<and> (\<forall>n \<in> dom (zc_heap st'). n < b) \<and>
     zc_heap_error st' = zc_heap_error st \<and> g_searches st' = g_searches st \<and> g_publishers st' = g_publishers st \<and>
     g_callback_depth st' = g_callback_depth st \<and> zc_next_id st' = zc_next_id st"
proof (induction ns arbitrary: st)
  case Nil
  then show ?case by simp
next
  case (Cons n ns)
  have "(R + mset ns) + {#n#} = mset_set (dom (zc_heap st))" using Cons.prems(2) by (simp add: ac_simps)
  note H = heap_free[OF Cons.prems(1) this]
  from Cons.IH[of "free_service_id (Some n) st"] H Cons.prems(1,3) show ?case
    by (simp add: Let_def)
qed

lemma callback_leave_ok:
  assumes "zc_ok x st" and "g_callback_depth st \<noteq> 0"
  shows "zc_ok x (callback_leave st)" and "g_searches (callback_leave st) = g_searches st"
    and "g_publishers (callback_leave st) = g_publishers st"
    and "g_callback_depth (callback_leave st) = g_callback_depth st - 1"
proof -
  let ?s = "st\<lparr>g_callback_depth := g_callback_depth st - 1\<rparr>"
  have l: "callback_leave st = flush_retired_service_ids ?s" using assms(2) by (simp add: callback_leave_def)
  have h: "finite (dom (zc_heap ?s))" "((\<Sum>s \<leftarrow> g_searches st. search_ids s) + x) + mset (g_retired_service_ids st) =
      mset_set (dom (zc_heap ?s))" "\<forall>n \<in> dom (zc_heap ?s). n < zc_next_id st"
    using assms(1) by (auto simp: zc_ok_def heap_ok_def zc_ids_def ac_simps)
  note F = free_all_ok[OF h, unfolded Let_def]
  from assms F show "zc_ok x (callback_leave st)" "g_searches (callback_leave st) = g_searches st"
    "g_publishers (callback_leave st) = g_publishers st"
    "g_callback_depth (callback_leave st) = g_callback_depth st - 1"
    unfolding l flush_retired_service_ids_def
    by (auto simp: zc_ok_def heap_ok_def zc_ids_def)
qed

lemma callback_enter_ok: "zc_ok x st \<Longrightarrow> zc_ok x (callback_enter st)"
  by (simp add: callback_enter_def zc_ok_def heap_ok_def zc_ids_def)

lemma read_id_ok:
  assumes "zc_ok x st" and "\<forall>n. sid = Some n \<longrightarrow> n \<in># zc_ids st + x"
  shows "zc_ok x (read_service_id sid st)" and "same_core st (read_service_id sid st)"
proof -
  have "zc_heap st n \<noteq> None" if "sid = Some n" for n
    using zc_ok_mem[OF assms(1), of n] assms(2) that by auto
  then have "zc_heap_error (read_service_id sid st) = zc_heap_error st"
    by (cases sid) (auto simp: read_service_id_def)
  then show "same_core st (read_service_id sid st)"
    by (cases sid) (auto simp: same_core_def read_service_id_def)
  with assms(1) show "zc_ok x (read_service_id sid st)" by (rule same_core_ok[rotated])
qed

end
