(* ===== verification/Zeroconf_Inv.thy ===== *)
theory Zeroconf_Inv
  imports Zeroconf_Ids
begin

unbundle bit_operations_syntax

text \<open>
  Every operation of the zeroconf component keeps its invariant \<open>zc_ok\<close>, whatever API calls the
  guest makes from its callbacks.
\<close>

section \<open>Entries of one search\<close>

lemma in_sum_refs: "n \<in># sum_list (map f xs) \<longleftrightarrow> (\<exists>x \<in> set xs. n \<in># f x)"
  by (induction xs) auto

lemma entry_id_mem:
  assumes "zc_ok x st" and "i < ZERO_CONF_MAX_SEARCHES" and "k < ZERO_CONF_MAX_DISCOVERED"
    and "zd_service_id (entry_at st i k) = Some n"
  shows "n \<in># zc_ids st"
proof -
  have s: "g_searches st ! i \<in> set (g_searches st)" using assms(1,2) by (simp add: zc_ok_def)
  have e: "entry_at st i k \<in> set (zs_discovered (g_searches st ! i))"
    using zc_ok_search[OF assms(1,2)] assms(3) by (simp add: search_ok_def entry_at_def)
  have "n \<in># search_ids (g_searches st ! i)"
    using e assms(4) by (force simp: search_ids_def in_sum_refs)
  with s show ?thesis by (auto simp: zc_ids_def in_sum_refs)
qed

text \<open>The steps on search \<open>i\<close> between two callbacks keep the invariant and the search in use.\<close>

definition active :: "nat multiset \<Rightarrow> nat \<Rightarrow> zc_state \<Rightarrow> bool" where
  "active x i st \<longleftrightarrow> zc_ok x st \<and> i < ZERO_CONF_MAX_SEARCHES \<and> zs_in_use (g_searches st ! i)"

lemma active_core: "same_core st st' \<Longrightarrow> active x i st \<Longrightarrow> active x i st'"
  using same_core_ok[of st st' x] by (simp add: active_def same_coreD)

lemma active_put_search:
  "active x i st \<Longrightarrow> search_ok (f (g_searches st ! i)) \<Longrightarrow> zs_in_use (f (g_searches st ! i)) \<Longrightarrow>
   search_ids (f (g_searches st ! i)) + y = search_ids (g_searches st ! i) + x \<Longrightarrow> active y i (put_search i f st)"
  by (auto simp: active_def zc_ok_lengths intro: zc_ok_put_search)

lemma active_put_entry:
  "active x i st \<Longrightarrow> k < ZERO_CONF_MAX_DISCOVERED \<Longrightarrow> keeps_identity f \<Longrightarrow> active x i (put_entry i k f st)"
  using put_entry_ok[of x st i k f] by (auto simp: active_def put_entry_def zc_ok_lengths)

lemma active_map_entries: "active x i st \<Longrightarrow> keeps_identity f \<Longrightarrow> active x i (map_entries i f st)"
  using map_entries_ok[of x st i f] by (auto simp: active_def map_entries_def zc_ok_lengths)

lemma mark_fields [simp]:
  "zd_service_id (mark_discovered_changed e) = zd_service_id e" "zd_in_use (mark_discovered_changed e) = zd_in_use e"
  "zd_instance_fqdn (mark_discovered_changed e) = zd_instance_fqdn e" "zd_name (mark_discovered_changed e) = zd_name e"
  "zd_host (mark_discovered_changed e) = zd_host e" "zd_has_srv (mark_discovered_changed e) = zd_has_srv e"
  "zd_has_ptr (mark_discovered_changed e) = zd_has_ptr e" "zd_has_txt (mark_discovered_changed e) = zd_has_txt e"
  "zd_has_ipv4 (mark_discovered_changed e) = zd_has_ipv4 e" "zd_notified (mark_discovered_changed e) = zd_notified e"
  "zd_remove (mark_discovered_changed e) = zd_remove e" "zd_ipv4 (mark_discovered_changed e) = zd_ipv4 e"
  "zd_port (mark_discovered_changed e) = zd_port e" "zd_txt (mark_discovered_changed e) = zd_txt e"
  "zd_endpoint_changed (mark_discovered_changed e) = zd_endpoint_changed e"
  "zd_txt_changed (mark_discovered_changed e) = zd_txt_changed e"
  "zd_ptr_expires_at_ms (mark_discovered_changed e) = zd_ptr_expires_at_ms e"
  "zd_srv_expires_at_ms (mark_discovered_changed e) = zd_srv_expires_at_ms e"
  "zd_txt_expires_at_ms (mark_discovered_changed e) = zd_txt_expires_at_ms e"
  "zd_a_expires_at_ms (mark_discovered_changed e) = zd_a_expires_at_ms e"
  by (simp_all add: mark_discovered_changed_def Let_def)

lemma cached_identity:
  "zd_service_id (apply_cached_address s now e) = zd_service_id e"
  "zd_in_use (apply_cached_address s now e) = zd_in_use e"
  "zd_instance_fqdn (apply_cached_address s now e) = zd_instance_fqdn e"
  "zd_name (apply_cached_address s now e) = zd_name e"
  by (auto simp: apply_cached_address_def Let_def split: option.splits)

lemma keeps_updates:
  "keeps_identity (update_srv s now ttl port target)" "keeps_identity (update_txt now ttl updated)"
  "keeps_identity (forget_host_address owner)" "keeps_identity (update_host_address owner ipv4 expires)"
  "keeps_identity (expire_entry now)"
  "keeps_identity (\<lambda>e. forget_srv (mark_discovered_changed e))"
  "keeps_identity (\<lambda>e. forget_txt (mark_discovered_changed e))"
  by (auto simp: keeps_identity_def update_srv_def update_txt_def forget_host_address_def update_host_address_def
      expire_entry_def forget_srv_def forget_txt_def forget_ipv4_def cached_identity Let_def)

lemma instance_name_Some:
  "instance_name_for_search s f c = Some n \<Longrightarrow>
   \<exists>suffix. f = n @ [dot] @ suffix \<and> name_matches suffix (zs_service_fqdn s) \<and> n \<noteq> [] \<and> length n < c"
proof -
  assume a: "instance_name_for_search s f c = Some n"
  let ?il = "length f" and ?sl = "length (zs_service_fqdn s)"
  from a have h: "?sl + 1 < ?il" "f ! (?il - ?sl - 1) = dot" "strcaseeq (drop (?il - ?sl) f) (zs_service_fqdn s)"
    "n = take (?il - ?sl - 1) f" "?il - ?sl - 1 < c"
    by (auto simp: instance_name_for_search_def Let_def split: if_splits)
  have "f = take (?il - ?sl - 1) f @ drop (?il - ?sl - 1) f" by simp
  also have "drop (?il - ?sl - 1) f = f ! (?il - ?sl - 1) # drop (?il - ?sl) f"
    using h(1) Cons_nth_drop_Suc[of "?il - ?sl - 1" f] by (simp add: Suc_diff_Suc)
  finally have "f = n @ [dot] @ drop (?il - ?sl) f" using h by simp
  with h show ?thesis by (intro exI[of _ "drop (?il - ?sl) f"]) (auto simp: name_matches_def)
qed

lemma find_discovered_SomeD:
  "find_discovered s f = Some k \<Longrightarrow> k < length (zs_discovered s) \<and> zd_in_use (zs_discovered s ! k) \<and>
     name_matches (zd_instance_fqdn (zs_discovered s ! k)) f"
  using find_idx_SomeD by (fastforce simp: find_discovered_def)

text \<open>\<open>allocate_discovered\<close>: the entry it returns is in use and carries the name it was asked for.\<close>

lemma zero_discovered_fields [simp]: "zd_service_id zero_discovered = None" "zd_in_use zero_discovered = False"
  by (simp_all add: zero_discovered_def)

lemma put_put_entry: "put_entry i k g (put_entry i k f st) =
    (if i < length (g_searches st) \<and> k < length (zs_discovered (g_searches st ! i))
     then put_entry i k (\<lambda>e. g (f e)) st else put_entry i k g (put_entry i k f st))"
  by (simp add: put_entry_def put_search_def)

lemma clear_slot_ok:
  assumes "active x i st" and "k < ZERO_CONF_MAX_DISCOVERED" and "\<not> zd_in_use (entry_at st i k)"
    and "\<not> zd_in_use e" and "zd_service_id e = None"
  shows "active x i (put_entry i k (\<lambda>_. e) st)"
proof -
  let ?s = "g_searches st ! i"
  have s: "search_ok ?s" using assms(1) zc_ok_search by (auto simp: active_def)
  have k: "k < length (zs_discovered ?s)" using s assms(2) by (simp add: search_ok_def)
  have "zs_discovered ?s ! k \<in> set (zs_discovered ?s)" using k by simp
  then have "zd_service_id (zs_discovered ?s ! k) = None"
    using s assms(3) by (auto simp: search_ok_def entry_ok_def entry_at_def)
  with search_ids_entry[OF k, of e] assms(5)
  have "search_ids (?s\<lparr>zs_discovered := (zs_discovered ?s)[k := e]\<rparr>) = search_ids ?s" by simp
  moreover have "search_ok (?s\<lparr>zs_discovered := (zs_discovered ?s)[k := e]\<rparr>)"
    using assms(4,5) by (intro search_ok_entry[OF s assms(2)]) (simp_all add: entry_ok_def)
  ultimately show ?thesis
    unfolding put_entry_def using assms(1) by (intro active_put_search) (simp_all add: active_def)
qed

lemma allocate_discovered_ok:
  assumes a: "active x i st" and r: "allocate_discovered pf i f st = (found, st')"
  shows "active x i st'"
    and "found = Some k \<Longrightarrow> k < ZERO_CONF_MAX_DISCOVERED"
proof -
  let ?s = "g_searches st ! i"
  have s: "search_ok ?s" and i: "i < length (g_searches st)" and iu: "zs_in_use ?s"
    using a zc_ok_search by (auto simp: active_def zc_ok_lengths)
  have len: "length (zs_discovered ?s) = ZERO_CONF_MAX_DISCOVERED" using s by (simp add: search_ok_def)
  have "active x i st' \<and> (\<forall>k. found = Some k \<longrightarrow> k < ZERO_CONF_MAX_DISCOVERED)"
  proof (cases "find_discovered ?s f")
    case (Some k)
    with r a find_discovered_SomeD[OF Some] len show ?thesis by (auto simp: allocate_discovered_def)
  next
    case none: None
    show ?thesis
    proof (cases "find_idx (\<lambda>e. \<not> zd_in_use e) (zs_discovered ?s)")
      case None
      with none r a show ?thesis by (auto simp: allocate_discovered_def)
    next
      case (Some k)
      then have k: "k < ZERO_CONF_MAX_DISCOVERED" "\<not> zd_in_use (entry_at st i k)"
        using find_idx_SomeD[OF Some] len by (simp_all add: entry_at_def)
      let ?st1 = "put_entry i k (\<lambda>_. zero_discovered) st"
      have st1: "active x i ?st1" by (rule clear_slot_ok[OF a k]) simp_all
      show ?thesis
      proof (cases "instance_name_for_search ?s f MDNS_WIRE_MAX_NAME")
        case None
        with none Some r st1 show ?thesis by (auto simp: allocate_discovered_def Let_def split: if_splits)
      next
        case name: (Some name)
        define e0 where "e0 = zero_discovered\<lparr>zd_name := name\<rparr>"
        have st2eq: "put_entry i k (\<lambda>e. e\<lparr>zd_name := name\<rparr>) ?st1 = put_entry i k (\<lambda>_. e0) st"
          using i k len by (simp add: put_put_entry e0_def)
        have st2: "active x i (put_entry i k (\<lambda>_. e0) st)"
          by (rule clear_slot_ok[OF a k]) (simp_all add: e0_def)
        obtain n st3 where al: "allocate_service_id pf (put_entry i k (\<lambda>_. e0) st) = (n, st3)"
          by fastforce
        show ?thesis
        proof (cases "length f \<ge> MDNS_WIRE_MAX_NAME \<or> n = None")
          case True
          have "active x i st3" if "n = None"
            using allocate_id_None[of x "put_entry i k (\<lambda>_. e0) st" pf st3] al st2 that active_core
            by (auto simp: active_def)
          with True none Some name r st1 al st2eq show ?thesis
            by (auto simp: allocate_discovered_def Let_def split: if_splits)
        next
          case False
          then obtain m where m: "n = Some m" and lf: "length f < MDNS_WIRE_MAX_NAME" by auto
          let ?upd = "\<lambda>e. e\<lparr>zd_service_id := Some m, zd_instance_fqdn := f, zd_in_use := True\<rparr>"
          have zc2: "zc_ok x (put_entry i k (\<lambda>_. e0) st)" using st2 by (simp add: active_def)
          note A = allocate_id_Some[OF zc2 al[unfolded m]]
          let ?s3 = "g_searches st3 ! i"
          have s3: "?s3 = ?s\<lparr>zs_discovered := (zs_discovered ?s)[k := e0]\<rparr>"
            using A(2) i by (simp add: put_entry_def)
          have act3: "active (x + {#m#}) i st3" using A(1,2) st2 by (simp add: active_def)
          have ok3: "search_ok ?s3" using act3 zc_ok_search by (auto simp: active_def)
          have nm: "instance_name_for_search ?s3 f MDNS_WIRE_MAX_NAME = Some name"
            using name by (simp add: s3 instance_name_for_search_def)
          have e3: "zs_discovered ?s3 ! k = e0" using k len by (simp add: s3)
          have dis: "\<forall>j < ZERO_CONF_MAX_DISCOVERED. j \<noteq> k \<longrightarrow> zd_in_use (zs_discovered ?s3 ! j) \<longrightarrow>
              \<not> name_matches (zd_instance_fqdn (zs_discovered ?s3 ! j)) f"
            using none len by (auto simp: s3 find_discovered_def)
          have "search_ok (?s3\<lparr>zs_discovered := (zs_discovered ?s3)[k := ?upd e0]\<rparr>)"
            using nm dis lf iu by (intro search_ok_entry[OF ok3 k(1)]) (auto simp: entry_ok_def e0_def s3)
          moreover have "search_ids (?s3\<lparr>zs_discovered := (zs_discovered ?s3)[k := ?upd e0]\<rparr>) = search_ids ?s3 + {#m#}"
            using search_ids_entry[of k ?s3 "?upd e0"] k len by (simp add: s3 e0_def)
          ultimately have "active x i (put_entry i k ?upd st3)"
            unfolding put_entry_def using act3 e3 by (intro active_put_search[OF act3]) (simp_all add: s3 iu ac_simps)
          with none Some name r al st2eq m lf k show ?thesis
            by (auto simp: allocate_discovered_def Let_def)
        qed
      qed
    qed
  qed
  then show "active x i st'" "found = Some k \<Longrightarrow> k < ZERO_CONF_MAX_DISCOVERED" by auto
qed

section \<open>Applying records\<close>

lemma active_len: "active x i st \<Longrightarrow> find_discovered (g_searches st ! i) f = Some k \<Longrightarrow> k < ZERO_CONF_MAX_DISCOVERED"
  using find_discovered_SomeD[of "g_searches st ! i" f k] zc_ok_search[of x st i]
  by (auto simp: active_def search_ok_def)

lemma active_ptr_record: "active x i st \<Longrightarrow> active x i (apply_ptr_record pf i now r st)"
proof -
  assume a: "active x i st"
  have kp: "keeps_identity (\<lambda>e. (mark_discovered_changed e)
      \<lparr>zd_has_ptr := b, zd_ptr_expires_at_ms := t, zd_remove := c\<rparr>)" for b t c
    by (simp add: keeps_identity_def)
  show ?thesis
  proof (cases "r_data r")
    case (RDATA_PTR target)
    obtain found st1 where al: "allocate_discovered pf i target st = (found, st1)" by fastforce
    note A = allocate_discovered_ok[OF a al]
    from RDATA_PTR a A al active_len[OF a] show ?thesis
      by (auto simp: apply_ptr_record_def intro!: active_put_entry kp split: option.splits)
  qed (use a in \<open>simp_all add: apply_ptr_record_def\<close>)
qed

lemma active_service_record: "active x i st \<Longrightarrow> active x i (apply_service_record pf i now r st)"
proof -
  assume a: "active x i st"
  let ?is_srv = "case r_data r of RDATA_SRV _ _ _ _ \<Rightarrow> True | _ \<Rightarrow> False"
  let ?is_txt = "case r_data r of RDATA_TXT _ _ \<Rightarrow> True | _ \<Rightarrow> False"
  define fs where "fs = (case find_discovered (g_searches st ! i) (r_owner r) of
      Some k \<Rightarrow> (Some k, st)
    | None \<Rightarrow> if r_ttl r = 0 \<or> instance_name_for_search (g_searches st ! i) (r_owner r) MDNS_WIRE_MAX_NAME = None
              then (None, st) else allocate_discovered pf i (r_owner r) st)"
  obtain found st1 where f: "fs = (found, st1)" by fastforce
  have F: "active x i st1 \<and> (\<forall>k. found = Some k \<longrightarrow> k < ZERO_CONF_MAX_DISCOVERED)"
    using a f allocate_discovered_ok[OF a, of pf "r_owner r" found st1] active_len[OF a]
    by (auto simp: fs_def split: option.splits if_splits)
  have P: "active x i (put_entry i k g st1)" if "found = Some k" "keeps_identity g" for k g
    using F that by (intro active_put_entry) auto
  show ?thesis
    using a F unfolding apply_service_record_def Let_def fs_def[symmetric] f prod.case
    by (auto intro!: P keeps_updates split: option.splits mdns_wire_rdata.splits)
qed

lemma active_put_address:
  assumes "active x i st" and "let a = f (zs_addresses (g_searches st ! i) ! k) in za_in_use a \<longrightarrow>
      (\<forall>j < ZERO_CONF_MAX_ADDRESSES. j \<noteq> k \<longrightarrow> za_in_use (zs_addresses (g_searches st ! i) ! j) \<longrightarrow>
         \<not> name_matches (za_host (zs_addresses (g_searches st ! i) ! j)) (za_host a))"
  shows "active x i (put_address i k f st)"
  using assms put_address_ok[of x st i f k] by (auto simp: active_def put_address_def zc_ok_lengths)

lemma find_address_SomeD:
  "find_address s h = Some k \<Longrightarrow> k < length (zs_addresses s) \<and> za_in_use (zs_addresses s ! k) \<and>
     name_matches (za_host (zs_addresses s ! k)) h"
  using find_idx_SomeD by (fastforce simp: find_address_def)

lemma allocate_address_ok:
  assumes a: "active x i st" and r: "allocate_address i h st = (found, st')"
  shows "active x i st'"
    and "found = Some k \<Longrightarrow> k < ZERO_CONF_MAX_ADDRESSES \<and> za_in_use (zs_addresses (g_searches st' ! i) ! k)"
proof -
  let ?s = "g_searches st ! i"
  have s: "search_ok ?s" and i: "i < length (g_searches st)"
    using a zc_ok_search by (auto simp: active_def zc_ok_lengths)
  have len: "length (zs_addresses ?s) = ZERO_CONF_MAX_ADDRESSES" using s by (simp add: search_ok_def)
  have "active x i st' \<and> (\<forall>k. found = Some k \<longrightarrow>
      k < ZERO_CONF_MAX_ADDRESSES \<and> za_in_use (zs_addresses (g_searches st' ! i) ! k))"
  proof (cases "find_address ?s h")
    case (Some k)
    with r a find_address_SomeD[OF Some] len show ?thesis by (auto simp: allocate_address_def)
  next
    case none: None
    then have no: "\<forall>j < ZERO_CONF_MAX_ADDRESSES. za_in_use (zs_addresses ?s ! j) \<longrightarrow>
        \<not> name_matches (za_host (zs_addresses ?s ! j)) h"
      using len by (auto simp: find_address_def)
    show ?thesis
    proof (cases "find_idx (\<lambda>a. \<not> za_in_use a) (zs_addresses ?s)")
      case None
      with none r a show ?thesis by (auto simp: allocate_address_def)
    next
      case (Some k)
      then have k: "k < ZERO_CONF_MAX_ADDRESSES" using find_idx_SomeD[OF Some] len by simp
      let ?a = "zero_address\<lparr>za_host := h, za_in_use := True\<rparr>"
      have "active x i (put_address i k (\<lambda>_. ?a) st)"
        using no by (intro active_put_address[OF a]) (simp add: Let_def)
      with none Some r a k len i show ?thesis
        by (auto simp: allocate_address_def put_address_def split: if_splits)
    qed
  qed
  then show "active x i st'"
    and "found = Some k \<Longrightarrow> k < ZERO_CONF_MAX_ADDRESSES \<and> za_in_use (zs_addresses (g_searches st' ! i) ! k)"
    by auto
qed

lemma active_address_record: "active x i st \<Longrightarrow> active x i (apply_address_record i now r st)"
proof -
  assume a: "active x i st"
  show ?thesis
  proof (cases "r_data r")
    case (RDATA_A ipv4)
    obtain found st1 where al: "allocate_address i (r_owner r) st = (found, st1)" by fastforce
    note A = allocate_address_ok[OF a al]
    have p1: "active x i (put_address i k (\<lambda>_. zero_address) st)" for k
      by (rule active_put_address[OF a]) (simp add: zero_address_def)
    have p2: "active x i (put_address i k (\<lambda>a. a\<lparr>za_ipv4 := ipv4, za_expires_at_ms := t\<rparr>) st1)"
      if "found = Some k" for k t
    proof -
      have "search_ok (g_searches st1 ! i)" using A(1) zc_ok_search by (auto simp: active_def)
      with A(2)[OF that] show ?thesis
        by (intro active_put_address[OF A(1)]) (auto simp: Let_def search_ok_def distinct_names_def)
    qed
    from RDATA_A a A(1) al p1 p2 show ?thesis
      by (auto simp: apply_address_record_def Let_def intro!: active_map_entries keeps_updates split: option.splits)
  qed (use a in \<open>simp_all add: apply_address_record_def\<close>)
qed

lemma active_fold: "(\<And>r s. active x i s \<Longrightarrow> active x i (f r s)) \<Longrightarrow> active x i st \<Longrightarrow> active x i (fold f rs st)"
  by (induction rs arbitrary: st) auto

lemma active_followup: "active x i st \<Longrightarrow> k < ZERO_CONF_MAX_DISCOVERED \<Longrightarrow> active x i (followup_entry pf i now k st)"
proof -
  assume a: "active x i st" and k: "k < ZERO_CONF_MAX_DISCOVERED"
  have s: "active x i (put_entry i k (\<lambda>e. e\<lparr>zd_next_srv_query_ms := t\<rparr>) (snd (send_record_query pf n ty st)))"
    "active x i (put_entry i k (\<lambda>e. e\<lparr>zd_next_txt_query_ms := t\<rparr>) (snd (send_record_query pf n ty st)))"
    "active x i (put_entry i k (\<lambda>e. e\<lparr>zd_next_a_query_ms := t\<rparr>) (snd (send_record_query pf n ty st)))"
    if "active x i st" for t n ty st
    using that k by (auto intro!: active_put_entry active_core[OF same_core_send_record] simp: keeps_identity_def)
  show ?thesis using a unfolding followup_entry_def Let_def by (auto intro!: s)
qed

lemma active_followups: "active x i st \<Longrightarrow> active x i (send_followup_queries pf i now st)"
  unfolding send_followup_queries_def
  by (rule fold_invariant[where Q = "\<lambda>k. k < ZERO_CONF_MAX_DISCOVERED"]) (auto intro: active_followup)

section \<open>The API\<close>

lemma zc_ok_generation [simp]:
  "zc_ok x (st\<lparr>g_search_generation := g\<rparr>) = zc_ok x st" "zc_ok x (st\<lparr>g_publisher_generation := g\<rparr>) = zc_ok x st"
  "zc_ok x (st\<lparr>g_zero_conf_pumping := b\<rparr>) = zc_ok x st" "zc_ok x (st\<lparr>zc_log := l\<rparr>) = zc_ok x st"
  "zc_ok x (st\<lparr>g_mdns_fd := b, g_mdns_interface := v\<rparr>) = zc_ok x st"
  by (simp_all add: zc_ok_def heap_ok_def zc_ids_def)

lemma zc_ok_put_publisher: "zc_ok x st \<Longrightarrow> (\<And>p. publisher_ok p \<Longrightarrow> publisher_ok (f p)) \<Longrightarrow> zc_ok x (put_publisher i f st)"
proof (cases "i < length (g_publishers st)")
  case True
  assume a: "zc_ok x st" "\<And>p. publisher_ok p \<Longrightarrow> publisher_ok (f p)"
  then have "publisher_ok (f (g_publishers st ! i))" using True by (auto simp: zc_ok_def)
  with a show ?thesis
    by (auto simp: zc_ok_def put_publisher_def heap_ok_def zc_ids_def dest!: set_update_subset_insert[THEN subsetD])
next
  case False
  assume "zc_ok x st"
  with False show ?thesis by (simp add: put_publisher_def list_update_beyond)
qed

lemma zero_publisher_ok: "publisher_ok zero_publisher"
  by (simp add: publisher_ok_def zero_publisher_def)

lemma depth_put [simp]: "g_callback_depth (put_publisher i f st) = g_callback_depth st"
  "g_searches (put_publisher i f st) = g_searches st"
  by (simp_all add: put_publisher_def)

text \<open>An operation that keeps the invariant and the callback depth.\<close>

definition keeps_ok :: "nat multiset \<Rightarrow> zc_state \<Rightarrow> zc_state \<Rightarrow> bool" where
  "keeps_ok x st st' \<longleftrightarrow> zc_ok x st' \<and> g_callback_depth st' = g_callback_depth st"

lemma keeps_core: "same_core st st' \<Longrightarrow> zc_ok x st \<Longrightarrow> keeps_ok x st st'"
  using same_core_ok[of st st' x] by (simp add: keeps_ok_def same_coreD)

lemma keeps_trans: "keeps_ok x a b \<Longrightarrow> keeps_ok x b c \<Longrightarrow> keeps_ok x a c"
  by (simp add: keeps_ok_def)

lemma keeps_ok_zc: "keeps_ok x a b \<Longrightarrow> zc_ok x b"
  by (simp add: keeps_ok_def)

text \<open>A search slot that knows nothing yet: what \<open>s3eZeroConfStartSearch\<close> fills in.\<close>

definition blank :: "zero_conf_search \<Rightarrow> bool" where
  "blank s \<longleftrightarrow> zs_discovered s = replicate ZERO_CONF_MAX_DISCOVERED zero_discovered \<and>
     zs_addresses s = replicate ZERO_CONF_MAX_ADDRESSES zero_address"

lemma blank_ok: "blank s \<Longrightarrow> search_ok s" "blank s \<Longrightarrow> search_ids s = {#}"
  by (auto simp: blank_def search_ok_def search_ids_def zero_address_def entry_ok_def distinct_names_unused)

lemma blank_zero: "blank zero_search"
  by (simp add: blank_def zero_search_def)

definition filling :: "nat multiset \<Rightarrow> nat \<Rightarrow> nat \<Rightarrow> zc_state \<Rightarrow> bool" where
  "filling x d i st \<longleftrightarrow> zc_ok x st \<and> i < ZERO_CONF_MAX_SEARCHES \<and> blank (g_searches st ! i) \<and> g_callback_depth st = d"

lemma filling_put: "filling x d i st \<Longrightarrow> (blank (g_searches st ! i) \<Longrightarrow> blank (f (g_searches st ! i))) \<Longrightarrow>
    filling x d i (put_search i f st)"
  using zc_ok_put_search[of x st i f x] by (auto simp: filling_def blank_ok zc_ok_lengths)

lemma filling_core: "same_core st st' \<Longrightarrow> filling x d i st \<Longrightarrow> filling x d i st'"
  using same_core_ok[of st st' x] by (simp add: filling_def same_coreD)

lemma filling_generation: "filling x d i st \<Longrightarrow> filling x d i (st\<lparr>g_search_generation := g\<rparr>)"
  by (simp add: filling_def)

lemma filling_keeps: "filling x (g_callback_depth st) i st' \<Longrightarrow> keeps_ok x st st'"
  by (simp add: filling_def keeps_ok_def)

lemma start_search_ok: "zc_ok x st \<Longrightarrow> keeps_ok x st (snd (s3eZeroConfStartSearch pf a st))"
proof (cases "find_idx (\<lambda>s. \<not> zs_in_use s) (g_searches st)")
  case None
  assume "zc_ok x st"
  with None show ?thesis by (simp add: s3eZeroConfStartSearch_def keeps_ok_def del: find_idx_None)
next
  case (Some i)
  assume ok: "zc_ok x st"
  have i: "i < ZERO_CONF_MAX_SEARCHES" "\<not> zs_in_use (g_searches st ! i)"
    using find_idx_SomeD[OF Some] ok by (simp_all add: zc_ok_lengths)
  let ?d = "g_callback_depth st"
  have f1: "filling x ?d i (put_search i (\<lambda>_. zero_search) st)"
    using zc_ok_put_search[OF ok i(1), of "\<lambda>_. zero_search" x] search_ids_unused[OF zc_ok_search[OF ok i(1)] i(2)]
      i ok by (simp add: filling_def zero_search_ok blank_zero zc_ok_lengths)
  have z: "filling x ?d i (put_search i (\<lambda>_. zero_search) st')" if "filling x ?d i st'" for st'
    using that by (intro filling_put) (simp_all add: blank_zero)
  have E: "filling x ?d i (snd (ensure_mdns_socket pf st'))" if "filling x ?d i st'" for st'
    by (rule filling_core[OF same_core_ensure that])
  have T: "filling x ?d i (put_search i (\<lambda>s. s\<lparr>zs_next_query_ms := q\<rparr>) (snd (send_query pf s st')))"
    if "filling x ?d i st'" for st' s q
    using filling_core[OF same_core_send_query that] by (intro filling_put) (auto simp: blank_def)
  have F: "filling x ?d i (put_search i (\<lambda>s. s\<lparr>zs_generation := g, zs_found_callback := c1,
      zs_update_callback := c2, zs_lost_callback := c3, zs_user_data := u, zs_in_use := True\<rparr>)
      (st'\<lparr>g_search_generation := g\<rparr>))" if "filling x ?d i st'" for st' g c1 c2 c3 u
    using filling_generation[OF that] by (intro filling_put) (auto simp: blank_def)
  define st4 where "st4 ty dm fq = put_search i (\<lambda>s. s\<lparr>zs_service_fqdn := fq\<rparr>) (put_search i (\<lambda>s. s\<lparr>zs_domain := dm\<rparr>)
      (put_search i (\<lambda>s. s\<lparr>zs_service_type := ty\<rparr>) (put_search i (\<lambda>_. zero_search) st)))" for ty dm fq
  have f2: "filling x ?d i (put_search i (\<lambda>s. s\<lparr>zs_service_type := ty\<rparr>) (put_search i (\<lambda>_. zero_search) st))" for ty
    by (rule filling_put[OF f1]) (simp add: blank_def)
  have f3: "filling x ?d i (put_search i (\<lambda>s. s\<lparr>zs_domain := dm\<rparr>)
      (put_search i (\<lambda>s. s\<lparr>zs_service_type := ty\<rparr>) (put_search i (\<lambda>_. zero_search) st)))" for ty dm
    by (rule filling_put[OF f2]) (simp add: blank_def)
  have f4: "filling x ?d i (st4 ty dm fq)" for ty dm fq
    unfolding st4_def by (rule filling_put[OF f3]) (simp add: blank_def)
  have E4: "filling x ?d i st5" if "ensure_mdns_socket pf (st4 ty dm fq) = (b, st5)" for ty dm fq b st5
    using E[OF f4[of ty dm fq]] that by simp
  have N': "filling x ?d i st7" if "zero_conf_now_ms pf st' = (n, st7)" "filling x ?d i st'" for st' n st7
    using filling_core[OF same_core_now[of st' pf] that(2)] that(1) by simp
  have "filling x ?d i (snd (s3eZeroConfStartSearch pf a st)) \<or> snd (s3eZeroConfStartSearch pf a st) = st"
    unfolding s3eZeroConfStartSearch_def Some Let_def
    using f1 f2 f3 by (auto dest!: E4[unfolded st4_def] intro: z T[OF N'[OF _ F]] split: option.splits prod.splits bool.splits)
  with ok show ?thesis by (auto simp: filling_def keeps_ok_def)
qed

lemma clear_search_ok:
  assumes "zc_ok x st" and "i < ZERO_CONF_MAX_SEARCHES"
  shows "keeps_ok x st (clear_search i st)"
proof -
  let ?es = "zs_discovered (g_searches st ! i)"
  have F: "zc_ok (x + (\<Sum>e \<leftarrow> es. id_refs (zd_service_id e))) s \<Longrightarrow>
      let s' = fold (\<lambda>e. retire_service_id (zd_service_id e)) es s
      in zc_ok x s' \<and> g_searches s' = g_searches s \<and> g_callback_depth s' = g_callback_depth s" for es s
  proof (induction es arbitrary: s)
    case Nil
    then show ?case by simp
  next
    case (Cons e es)
    have "zc_ok ((x + (\<Sum>e \<leftarrow> es. id_refs (zd_service_id e))) + id_refs (zd_service_id e)) s"
      using Cons.prems by (simp add: ac_simps)
    from Cons.IH[OF retire_id_ok[OF this]] show ?case by (simp add: Let_def)
  qed
  let ?y = "search_ids (g_searches st ! i)"
  text \<open>Clearing the table entry first and retiring afterwards gives the same state.\<close>
  have comm: "put_search i (\<lambda>_. zero_search) (retire_service_id sid s) =
      retire_service_id sid (put_search i (\<lambda>_. zero_search) s)" for sid s
    by (cases sid) (auto simp: retire_service_id_def free_service_id_def put_search_def)
  have comms: "put_search i (\<lambda>_. zero_search) (fold (\<lambda>e. retire_service_id (zd_service_id e)) es s) =
      fold (\<lambda>e. retire_service_id (zd_service_id e)) es (put_search i (\<lambda>_. zero_search) s)" for es s
    by (induction es arbitrary: s) (simp_all add: comm)
  have "zc_ok (x + ?y) (put_search i (\<lambda>_. zero_search) st)"
    using assms by (intro zc_ok_put_search[OF assms]) (simp_all add: zero_search_ok ac_simps)
  from F[OF this[unfolded search_ids_def]] show ?thesis
    unfolding clear_search_def comms by (simp add: Let_def keeps_ok_def)
qed

lemma stop_search_ok: "zc_ok x st \<Longrightarrow> keeps_ok x st (s3eZeroConfStopSearch h st)"
  by (auto simp: s3eZeroConfStopSearch_def resolve_search_def keeps_ok_def zc_ok_lengths
      intro: clear_search_ok[unfolded keeps_ok_def, THEN conjunct1] clear_search_ok[unfolded keeps_ok_def, THEN conjunct2]
      split: option.splits)

lemma keeps_put_publisher:
  "keeps_ok x st st' \<Longrightarrow> (\<And>p. publisher_ok p \<Longrightarrow> publisher_ok (f p)) \<Longrightarrow> keeps_ok x st (put_publisher i f st')"
  by (simp add: keeps_ok_def zc_ok_put_publisher)

lemma keeps_then_core: "keeps_ok x st st' \<Longrightarrow> same_core st' st'' \<Longrightarrow> keeps_ok x st st''"
  using same_core_ok[of st' st'' x] by (simp add: keeps_ok_def same_coreD)

lemma copy_txt_ok:
  "copy_txt_records n rs = Some ts \<Longrightarrow>
   length ts \<le> ZERO_CONF_MAX_TXT_RECORDS \<and> (\<forall>t \<in> set ts. length t < ZERO_CONF_TXT_RECORD_SIZE)"
  by (auto simp: copy_txt_records_def Let_def not_le split: if_splits dest: in_set_takeD)

lemma publish_ok:
  assumes ok: "zc_ok x st"
  shows "keeps_ok x st (snd (s3eZeroConfPublish pf a st))"
proof -
  let ?K = "keeps_ok x st"
  have st: "?K st" using ok by (simp add: keeps_ok_def)
  have gen: "?K (st\<lparr>g_publisher_generation := g\<rparr>)" for g using ok by (simp add: keeps_ok_def)
  have fail: "?K (put_publisher i (\<lambda>_. zero_publisher) s)" if "?K s" for i s
    using that by (intro keeps_put_publisher) (simp_all add: zero_publisher_ok)
  have ens: "?K s'" if "ensure_mdns_socket pf s = (b, s')" "?K s" for b s s'
    using keeps_then_core[OF that(2) same_core_ensure[of s pf]] that(1) by simp
  have loc: "?K s'" if "find_local_ipv4 pf s = (b, s')" "?K s" for b s s'
    using keeps_then_core[OF that(2) same_core_find_local[of s pf]] that(1) by simp
  have fin: "?K (put_publisher i (\<lambda>q. (mark_publisher_txt_announced q)
      \<lparr>zp_last_announce_ms := now, zp_next_announce_ms := t\<rparr>) (snd (send_publication pf p False None s')))"
    if "zero_conf_now_ms pf (put_publisher i (\<lambda>_. p') s) = (n, s')" "?K s" "publisher_ok p'" for i now t p p' s s' n
  proof -
    have "?K (put_publisher i (\<lambda>_. p') s)" using that by (intro keeps_put_publisher) simp_all
    from keeps_then_core[OF this same_core_now[of _ pf]] that(1) have "?K s'" by simp
    from keeps_then_core[OF this same_core_publication] show ?thesis
      by (intro keeps_put_publisher) (auto simp: mark_publisher_txt_announced_def publisher_ok_def)
  qed
  have pok: "publisher_ok (p\<lparr>zp_port := po, zp_generation := g, zp_in_use := b, zp_service_fqdn := f1,
      zp_instance_fqdn := f2, zp_ipv4 := ip, zp_host := h, zp_host_fqdn := f3\<rparr>)"
    if "publisher_fields a = Some p" for p po g b f1 f2 ip h f3
    using that copy_txt_ok by (fastforce simp: publisher_fields_def publisher_ok_def split: option.splits)
  show ?thesis
    unfolding s3eZeroConfPublish_def Let_def
    by (auto simp: st intro!: fail gen intro: ens loc fin[OF _ _ pok] dest!: ens loc
        split: option.splits prod.splits bool.splits)
qed

lemma update_txt_record_ok:
  assumes ok: "zc_ok x st"
  shows "keeps_ok x st (snd (s3eZeroConfUpdateTxtRecord pf h n rs st))"
proof -
  let ?K = "keeps_ok x st"
  have st: "?K st" using ok by (simp add: keeps_ok_def)
  have upd: "?K (put_publisher i (\<lambda>p. p\<lparr>zp_txt := ts\<rparr>) st)" if "copy_txt_records n rs = Some ts" for i ts
    using copy_txt_ok[OF that] by (intro keeps_put_publisher[OF st]) (simp add: publisher_ok_def)
  have flag: "?K (put_publisher i (\<lambda>p. p\<lparr>zp_txt_update_pending := b, zp_txt_update_due_ms := t\<rparr>) s)"
    "?K (put_publisher i (\<lambda>p. p\<lparr>zp_txt_update_due_ms := t, zp_txt_update_pending := b\<rparr>) s)" if "?K s" for i b t s
    using that by (auto intro!: keeps_put_publisher simp: publisher_ok_def)
  have now: "?K s'" if "zero_conf_now_ms pf s = (m, s')" "?K s" for m s s'
    using keeps_then_core[OF that(2) same_core_now[of s pf]] that(1) by simp
  show ?thesis
    unfolding s3eZeroConfUpdateTxtRecord_def Let_def
    by (auto simp: st intro!: upd flag intro: now[OF _ upd] split: option.splits prod.splits)
qed

lemma unpublish_ok: "zc_ok x st \<Longrightarrow> keeps_ok x st (snd (s3eZeroConfUnpublish pf h st))"
  using keeps_core[OF same_core_publication]
  by (auto simp: s3eZeroConfUnpublish_def keeps_ok_def zero_publisher_ok split: option.splits
      intro!: keeps_put_publisher[unfolded keeps_ok_def, THEN conjunct1])

lemma zc_call_ok: "zc_ok x st \<Longrightarrow> keeps_ok x st (zc_call_step pf c st)"
  by (cases c) (simp_all add: start_search_ok stop_search_ok publish_ok update_txt_record_ok unpublish_ok)

lemma zc_calls_ok: "zc_ok x st \<Longrightarrow> keeps_ok x st (fold (zc_call_step pf) cs st)"
proof (induction cs arbitrary: st)
  case Nil
  then show ?case by (simp add: keeps_ok_def)
next
  case (Cons c cs)
  from zc_call_ok[OF Cons.prems] Cons.IH show ?case
    by (auto intro: keeps_trans simp: keeps_ok_def)
qed

section \<open>Callbacks and dispatch\<close>

lemma run_callback_ok:
  assumes "zc_ok x st"
  shows "keeps_ok x st (run_callback pf guest ev st)"
proof -
  let ?s = "callback_enter (st\<lparr>zc_log := zc_log st @ [ev]\<rparr>)"
  have "zc_ok x ?s" using assms by (intro callback_enter_ok) simp
  note K = zc_calls_ok[OF this, of pf "guest ?s ev"]
  have d: "g_callback_depth (fold (zc_call_step pf) (guest ?s ev) ?s) = Suc (g_callback_depth st)"
    using K by (simp add: keeps_ok_def callback_enter_def)
  from callback_leave_ok[OF keeps_ok_zc[OF K]] d show ?thesis
    by (simp add: run_callback_def Let_def keeps_ok_def)
qed

lemma depth_put_entry [simp]: "g_callback_depth (put_entry i k f st) = g_callback_depth st"
  by (simp add: put_entry_def)

lemma keeps_put_entry:
  "zc_ok x st \<Longrightarrow> i < ZERO_CONF_MAX_SEARCHES \<Longrightarrow> k < ZERO_CONF_MAX_DISCOVERED \<Longrightarrow> keeps_identity f \<Longrightarrow>
   keeps_ok x st (put_entry i k f st)"
  by (simp add: keeps_ok_def put_entry_ok)

lemma entry_put_entry:
  "zc_ok x st \<Longrightarrow> i < ZERO_CONF_MAX_SEARCHES \<Longrightarrow> k < ZERO_CONF_MAX_DISCOVERED \<Longrightarrow>
   entry_at (put_entry i k f st) i k = f (entry_at st i k)"
  using zc_ok_search[of x st i] by (simp add: put_entry_def entry_at_def zc_ok_lengths search_ok_def)

lemma keeps_flag: "keeps_identity (\<lambda>e. e\<lparr>zd_notified := b\<rparr>)"
  by (simp add: keeps_identity_def)

lemma read_own_id:
  "zc_ok x st \<Longrightarrow> i < ZERO_CONF_MAX_SEARCHES \<Longrightarrow> k < ZERO_CONF_MAX_DISCOVERED \<Longrightarrow>
   zd_service_id (entry_at st i k) = sid \<Longrightarrow> zc_ok x (read_service_id sid st) \<and> same_core st (read_service_id sid st)"
  using read_id_ok[of x st sid] entry_id_mem[of x st i k] by auto

lemma dispatch_found_ok:
  assumes ok: "zc_ok x st" and ik: "i < ZERO_CONF_MAX_SEARCHES" "k < ZERO_CONF_MAX_DISCOVERED"
  shows "keeps_ok x st (dispatch_found pf guest i k st)"
proof -
  let ?s1 = "put_entry i k (\<lambda>e. e\<lparr>zd_notified := True\<rparr>) st"
  have k1: "keeps_ok x st ?s1" by (rule keeps_put_entry[OF ok ik keeps_flag])
  have "zd_service_id (entry_at ?s1 i k) = zd_service_id (entry_at st i k)"
    using ok ik by (simp add: entry_put_entry)
  note R = read_own_id[OF keeps_ok_zc[OF k1] ik this]
  show ?thesis
    unfolding dispatch_found_def Let_def
    using k1 R run_callback_ok[of x "read_service_id (zd_service_id (entry_at st i k)) ?s1" pf guest]
    by (auto simp: keeps_ok_def same_core_def)
qed

lemma dispatch_update_ok:
  assumes ok: "zc_ok x st" and ik: "i < ZERO_CONF_MAX_SEARCHES" "k < ZERO_CONF_MAX_DISCOVERED"
  shows "keeps_ok x st (dispatch_update pf guest i k st)"
proof -
  note R = read_own_id[OF ok ik refl]
  show ?thesis
    unfolding dispatch_update_def Let_def
    using ok R run_callback_ok[of x "read_service_id (zd_service_id (entry_at st i k)) st" pf guest]
    by (auto simp: keeps_ok_def same_core_def)
qed

lemma dispatch_lost_ok:
  assumes ok: "zc_ok x st" and ik: "i < ZERO_CONF_MAX_SEARCHES" "k < ZERO_CONF_MAX_DISCOVERED"
  shows "keeps_ok x st (dispatch_lost pf guest i k sid st)"
proof -
  let ?s1 = "put_entry i k (\<lambda>e. e\<lparr>zd_notified := False\<rparr>) st"
  have k1: "keeps_ok x st ?s1" by (rule keeps_put_entry[OF ok ik keeps_flag])
  show ?thesis
    unfolding dispatch_lost_def Let_def
    using k1 run_callback_ok[OF keeps_ok_zc[OF k1], of pf guest] by (auto simp: keeps_ok_def)
qed

lemma retire_keeps: "zc_ok (x + id_refs sid) st \<Longrightarrow> keeps_ok x st (retire_service_id sid st)"
  by (simp add: keeps_ok_def retire_id_ok)

lemma swap_id_ok:
  assumes ok: "zc_ok (x + {#n#}) st" and ik: "i < ZERO_CONF_MAX_SEARCHES" "k < ZERO_CONF_MAX_DISCOVERED"
    and used: "zd_in_use (entry_at st i k)"
  shows "zc_ok (x + id_refs (zd_service_id (entry_at st i k)))
    (put_entry i k (\<lambda>e. e\<lparr>zd_service_id := Some n\<rparr>) st)"
proof -
  let ?s = "g_searches st ! i" and ?e = "entry_at st i k"
  have s: "search_ok ?s" by (rule zc_ok_search[OF ok ik(1)])
  have k: "k < length (zs_discovered ?s)" and e: "?e \<in> set (zs_discovered ?s)"
    using s ik(2) by (simp_all add: search_ok_def entry_at_def)
  have iu: "zs_in_use ?s" and eo: "entry_ok ?s ?e" using s e used by (auto simp: search_ok_def)
  have "search_ok (?s\<lparr>zs_discovered := (zs_discovered ?s)[k := ?e\<lparr>zd_service_id := Some n\<rparr>]\<rparr>)"
    using s eo used iu k ik
    by (intro search_ok_entry[OF s ik(2)]) (auto simp: entry_ok_def search_ok_def distinct_names_def entry_at_def)
  with search_ids_entry[OF k, of "?e\<lparr>zd_service_id := Some n\<rparr>"] show ?thesis
    unfolding put_entry_def using ik(1)
    by (intro zc_ok_put_search[OF ok]) (simp_all add: entry_at_def[symmetric] ac_simps)
qed

lemma clear_discovered_ok:
  assumes ok: "zc_ok x st" and ik: "i < ZERO_CONF_MAX_SEARCHES" "k < ZERO_CONF_MAX_DISCOVERED"
  shows "keeps_ok x st (clear_discovered i k st)"
proof -
  let ?s = "g_searches st ! i" and ?sid = "zd_service_id (entry_at st i k)"
  have s: "search_ok ?s" by (rule zc_ok_search[OF ok ik(1)])
  have k: "k < length (zs_discovered ?s)" using s ik(2) by (simp add: search_ok_def)
  have "search_ok (?s\<lparr>zs_discovered := (zs_discovered ?s)[k := zero_discovered]\<rparr>)"
    by (intro search_ok_entry[OF s ik(2)]) (simp_all add: entry_ok_def)
  with search_ids_entry[OF k, of zero_discovered]
  have c: "zc_ok (x + id_refs ?sid) (put_entry i k (\<lambda>_. zero_discovered) st)"
    unfolding put_entry_def using ik(1)
    by (intro zc_ok_put_search[OF ok]) (simp_all add: entry_at_def ac_simps)
  have comm: "put_entry i k (\<lambda>_. zero_discovered) (retire_service_id sid st) =
      retire_service_id sid (put_entry i k (\<lambda>_. zero_discovered) st)" for sid
    by (cases sid) (auto simp: retire_service_id_def free_service_id_def put_entry_def put_search_def)
  from retire_keeps[OF c] show ?thesis
    unfolding clear_discovered_def comm by (simp add: keeps_ok_def)
qed

lemma rotate_ok:
  assumes ok: "zc_ok x st" and ik: "i < ZERO_CONF_MAX_SEARCHES" "k < ZERO_CONF_MAX_DISCOVERED"
    and used: "zd_in_use (entry_at st i k)"
  shows "keeps_ok x st (snd (rotate_service_id_after_lost pf guest i k g st))"
proof -
  obtain r st1 where al: "allocate_service_id pf st = (r, st1)" by fastforce
  show ?thesis
  proof (cases r)
    case None
    with al allocate_id_None[OF ok, of pf st1] show ?thesis
      by (auto simp: rotate_service_id_after_lost_def keeps_ok_def same_core_def)
  next
    case (Some n)
    note A = allocate_id_Some[OF ok al[unfolded Some]]
    have e1: "entry_at st1 i k = entry_at st i k" using A(2) by (simp add: entry_at_def)
    let ?sid = "zd_service_id (entry_at st1 i k)"
    let ?s2 = "put_entry i k (\<lambda>e. e\<lparr>zd_service_id := Some n\<rparr>) st1"
    have s2: "zc_ok (x + id_refs ?sid) ?s2" using swap_id_ok[OF A(1) ik] used e1 by simp
    have rd: "zc_ok (x + id_refs ?sid) (read_service_id ?sid ?s2)" "same_core ?s2 (read_service_id ?sid ?s2)"
      using read_id_ok[OF s2, of ?sid] by auto
    note L = dispatch_lost_ok[OF rd(1) ik, of pf guest ?sid]
    note R = retire_keeps[OF keeps_ok_zc[OF L]]
    show ?thesis
      using al Some R L rd(2) A(4)
      by (auto simp: rotate_service_id_after_lost_def Let_def keeps_ok_def same_core_def)
  qed
qed

lemma keeps_clear_flags:
  "zc_ok x st \<Longrightarrow> i < ZERO_CONF_MAX_SEARCHES \<Longrightarrow> k < ZERO_CONF_MAX_DISCOVERED \<Longrightarrow>
   keeps_ok x st (clear_change_flags i k c st)"
  unfolding clear_change_flags_def by (intro keeps_put_entry) (auto simp: keeps_identity_def)

lemma dispatch_entry_ok:
  assumes ok: "zc_ok x st" and ik: "i < ZERO_CONF_MAX_SEARCHES" "k < ZERO_CONF_MAX_DISCOVERED"
  shows "keeps_ok x st (snd (dispatch_entry pf guest i g k st))"
proof -
  let ?K = "keeps_ok x st"
  have st: "?K st" using ok by (simp add: keeps_ok_def)
  obtain r s1 where R: "rotate_service_id_after_lost pf guest i k g st = (r, s1)" by fastforce
  have K1: "zd_in_use (entry_at st i k) \<Longrightarrow> ?K s1"
    using rotate_ok[OF ok ik, of pf guest g] R by simp
  have fl: "?K (clear_change_flags i k c s)" if "?K s" for c s
    using keeps_trans[OF that keeps_clear_flags[OF keeps_ok_zc[OF that] ik]] .
  have cl: "?K (clear_discovered i k s)" if "?K s" for s
    using keeps_trans[OF that clear_discovered_ok[OF keeps_ok_zc[OF that] ik]] .
  have df: "?K (dispatch_found pf guest i k s)" if "?K s" for s
    using keeps_trans[OF that dispatch_found_ok[OF keeps_ok_zc[OF that] ik]] .
  have du: "?K (dispatch_update pf guest i k s)" if "?K s" for s
    using keeps_trans[OF that dispatch_update_ok[OF keeps_ok_zc[OF that] ik]] .
  show ?thesis
    unfolding dispatch_entry_def Let_def R
    by (cases r) (simp_all add: st fl cl df du K1)
qed

lemma dispatch_entries_ok:
  "zc_ok x st \<Longrightarrow> i < ZERO_CONF_MAX_SEARCHES \<Longrightarrow> \<forall>k \<in> set ks. k < ZERO_CONF_MAX_DISCOVERED \<Longrightarrow>
   keeps_ok x st (dispatch_entries pf guest i g ks st)"
proof (induction ks arbitrary: st)
  case Nil
  then show ?case by (simp add: keeps_ok_def)
next
  case (Cons k ks)
  obtain b st1 where d: "dispatch_entry pf guest i g k st = (b, st1)" by fastforce
  have k1: "keeps_ok x st st1" using dispatch_entry_ok[OF Cons.prems(1,2), of k pf guest g] Cons.prems(3) d by simp
  with d Cons.IH[OF keeps_ok_zc[OF k1] Cons.prems(2)] Cons.prems(3) show ?case
    by (auto intro: keeps_trans split: bool.splits)
qed

lemma dispatch_changes_ok:
  "zc_ok x st \<Longrightarrow> i < ZERO_CONF_MAX_SEARCHES \<Longrightarrow> keeps_ok x st (dispatch_search_changes pf guest i st)"
  unfolding dispatch_search_changes_def by (rule dispatch_entries_ok) simp_all

section \<open>Packets, expiry and the pump\<close>

lemma keeps_fold:
  assumes "\<And>r s. r \<in> set rs \<Longrightarrow> zc_ok x s \<Longrightarrow> keeps_ok x s (f r s)" and "zc_ok x st"
  shows "keeps_ok x st (fold f rs st)"
  using assms
proof (induction rs arbitrary: st)
  case Nil
  then show ?case by (simp add: keeps_ok_def)
next
  case (Cons r rs)
  have k1: "keeps_ok x st (f r st)" using Cons.prems by simp
  from keeps_trans[OF k1 Cons.IH[OF Cons.prems(1) keeps_ok_zc[OF k1]]] show ?case by simp
qed

text \<open>The steps between two callbacks leave the callback depth alone.\<close>

lemma depth_steps [simp]:
  "g_callback_depth (map_entries i f st) = g_callback_depth st"
  "g_callback_depth (put_address i k f' st) = g_callback_depth st"
  "g_callback_depth (tick st) = g_callback_depth st"
  by (simp_all add: map_entries_def put_address_def tick_def)

lemma depth_allocate: "g_callback_depth (snd (allocate_service_id pf st)) = g_callback_depth st"
  by (simp add: allocate_service_id_def tick_def Let_def)

lemma depth_send [simp]: "g_callback_depth (snd (send_record_query pf n ty st)) = g_callback_depth st"
  using same_coreD(3)[OF same_core_send_record] .

lemma depth_allocate_discovered: "allocate_discovered pf i f st = (r, st') \<Longrightarrow> g_callback_depth st' = g_callback_depth st"
  using depth_allocate[of pf]
  by (auto simp: allocate_discovered_def Let_def split: option.splits if_splits prod.splits) (metis depth_put_entry snd_conv)+

lemma depth_allocate_address: "allocate_address i h st = (r, st') \<Longrightarrow> g_callback_depth st' = g_callback_depth st"
  by (auto simp: allocate_address_def Let_def split: option.splits if_splits)

lemma depth_ptr_record: "g_callback_depth (apply_ptr_record pf i now r st) = g_callback_depth st"
  by (auto simp: apply_ptr_record_def dest: depth_allocate_discovered split: mdns_wire_rdata.splits option.splits prod.splits)

lemma depth_service_record: "g_callback_depth (apply_service_record pf i now r st) = g_callback_depth st"
  by (auto simp: apply_service_record_def Let_def dest: depth_allocate_discovered
      split: mdns_wire_rdata.splits option.splits prod.splits if_splits)

lemma depth_address_record: "g_callback_depth (apply_address_record i now r st) = g_callback_depth st"
  by (auto simp: apply_address_record_def Let_def dest: depth_allocate_address
      split: mdns_wire_rdata.splits option.splits prod.splits)

lemma depth_followup: "g_callback_depth (followup_entry pf i now k st) = g_callback_depth st"
  by (simp add: followup_entry_def Let_def)

lemma depth_fold: "(\<And>r s. g_callback_depth (f r s) = g_callback_depth s) \<Longrightarrow>
    g_callback_depth (fold f rs st) = g_callback_depth st"
  by (induction rs arbitrary: st) simp_all

lemma process_response_ok:
  assumes ok: "zc_ok x st" and i: "i < ZERO_CONF_MAX_SEARCHES"
  shows "keeps_ok x st (process_response_search pf guest packet now i st)"
proof (cases "zs_in_use (g_searches st ! i)")
  case False
  with ok show ?thesis by (simp add: process_response_search_def keeps_ok_def)
next
  case True
  let ?s = "send_followup_queries pf i now (apply_address_records i now packet
      (apply_service_records pf i now packet (apply_ptr_records pf i now packet st)))"
  have "active x i st" using ok i True by (simp add: active_def)
  then have "active x i ?s"
    unfolding apply_address_records_def apply_service_records_def apply_ptr_records_def
    by (intro active_followups active_fold active_ptr_record active_service_record active_address_record)
  moreover have "g_callback_depth ?s = g_callback_depth st"
    unfolding send_followup_queries_def apply_address_records_def apply_service_records_def apply_ptr_records_def
    by (simp add: depth_fold depth_followup depth_address_record depth_service_record depth_ptr_record)
  ultimately show ?thesis
    using True dispatch_changes_ok[of x ?s i pf guest] by (simp add: process_response_search_def active_def keeps_ok_def)
qed

lemma answer_query_ok: "zc_ok x st \<Longrightarrow> keeps_ok x st (answer_query pf packet source i st)"
  using keeps_core[OF same_core_publication, of x st]
  by (auto simp: answer_query_def Let_def keeps_ok_def split: prod.splits)

lemma process_packet_ok:
  assumes ok: "zc_ok x st"
  shows "keeps_ok x st (s3e_zero_conf_process_packet pf guest data sz source st)"
proof -
  have t: "keeps_ok x st (tick st)" by (rule keeps_core[OF same_core_tick ok])
  have n: "keeps_ok x st s'" if "zero_conf_now_ms pf (tick st) = (m, s')" for m s'
    using keeps_then_core[OF t same_core_now[of _ pf]] that by simp
  have "keeps_ok x s (fold (process_response_search pf guest packet now) [0..<ZERO_CONF_MAX_SEARCHES] s)"
    if "zc_ok x s" for packet now s
    using that by (intro keeps_fold process_response_ok) auto
  then have r: "keeps_ok x st (fold (process_response_search pf guest packet now) [0..<ZERO_CONF_MAX_SEARCHES] s)"
    if "keeps_ok x st s" for packet now s using that keeps_trans keeps_ok_zc by blast
  have "keeps_ok x (tick st) (fold (answer_query pf packet source) [0..<ZERO_CONF_MAX_PUBLISHERS] (tick st))" for packet
    using keeps_ok_zc[OF t] by (intro keeps_fold answer_query_ok) auto
  then have q: "keeps_ok x st (fold (answer_query pf packet source) [0..<ZERO_CONF_MAX_PUBLISHERS] (tick st))" for packet
    using t keeps_trans by blast
  have "keeps_ok x st st" using ok by (simp add: keeps_ok_def)
  with t q show ?thesis
    by (auto simp: s3e_zero_conf_process_packet_def split: res.splits prod.splits intro!: r dest: n)
qed

lemma expire_search_ok:
  assumes ok: "zc_ok x st" and i: "i < ZERO_CONF_MAX_SEARCHES"
  shows "keeps_ok x st (expire_search pf guest now i st)"
proof (cases "zs_in_use (g_searches st ! i)")
  case False
  with ok show ?thesis by (simp add: expire_search_def keeps_ok_def)
next
  case True
  let ?f = "\<lambda>s. s\<lparr>zs_addresses := map (expire_address now) (zs_addresses s),
      zs_discovered := map (expire_entry now) (zs_discovered s)\<rparr>"
  let ?s = "g_searches st ! i"
  have s: "search_ok ?s" by (rule zc_ok_search[OF ok i])
  have "entry_ok (?s\<lparr>zs_addresses := as\<rparr>) = entry_ok ?s" for as
    by (intro ext) (simp add: entry_ok_def instance_name_for_search_def)
  with s have "search_ok (?s\<lparr>zs_addresses := map (expire_address now) (zs_addresses ?s)\<rparr>)"
    by (auto simp: search_ok_def expire_address_def zero_address_def intro!: distinct_names_map split: if_splits)
  from search_ok_map[OF this keeps_updates(5)[of now]]
  have "search_ok (?f ?s)" "search_ids (?f ?s) = search_ids ?s" by (simp_all add: search_ids_def)
  then have "active x i (put_search i ?f st)"
    using ok i True by (intro active_put_search) (simp_all add: active_def)
  then have a: "active x i (send_followup_queries pf i now (put_search i ?f st))" by (rule active_followups)
  have "g_callback_depth (send_followup_queries pf i now (put_search i ?f st)) = g_callback_depth st"
    by (simp add: send_followup_queries_def depth_fold depth_followup)
  with a True dispatch_changes_ok[of x _ i pf guest] show ?thesis
    by (auto simp: expire_search_def active_def keeps_ok_def)
qed

lemma expire_ok: "zc_ok x st \<Longrightarrow> keeps_ok x st (expire_discovered pf guest now st)"
  unfolding expire_discovered_def by (intro keeps_fold expire_search_ok) auto

lemma receive_ok: "zc_ok x st \<Longrightarrow> keeps_ok x st (receive_packets pf guest n st)"
proof (induction n arbitrary: st)
  case 0
  then show ?case by (simp add: keeps_ok_def)
next
  case (Suc n)
  have t: "keeps_ok x st (tick st)" by (rule keeps_core[OF same_core_tick Suc.prems])
  have p: "keeps_ok x st (receive_packets pf guest n (s3e_zero_conf_process_packet pf guest d sz so (tick st)))" for d sz so
    using keeps_trans[OF t process_packet_ok[OF keeps_ok_zc[OF t]]] Suc.IH keeps_trans keeps_ok_zc by blast
  have "keeps_ok x st st" using Suc.prems by (simp add: keeps_ok_def)
  with t p show ?case by (auto split: option.splits)
qed

lemma pump_search_ok: "zc_ok x st \<Longrightarrow> i < ZERO_CONF_MAX_SEARCHES \<Longrightarrow> keeps_ok x st (pump_search pf now i st)"
proof -
  assume ok: "zc_ok x st" and i: "i < ZERO_CONF_MAX_SEARCHES"
  let ?s = "snd (send_query pf (g_searches st ! i) st)"
  have k: "keeps_ok x st ?s" by (rule keeps_core[OF same_core_send_query ok])
  let ?n = "(g_searches ?s ! i)\<lparr>zs_next_query_ms := now + ZERO_CONF_QUERY_INTERVAL_MS\<rparr>"
  have "search_ok (g_searches ?s ! i)" by (rule zc_ok_search[OF keeps_ok_zc[OF k] i])
  moreover have "entry_ok ?n = entry_ok (g_searches ?s ! i)"
    by (intro ext) (simp add: entry_ok_def instance_name_for_search_def)
  ultimately have "search_ok ?n" by (simp add: search_ok_def)
  then have "zc_ok x (put_search i (\<lambda>s. s\<lparr>zs_next_query_ms := now + ZERO_CONF_QUERY_INTERVAL_MS\<rparr>) ?s)"
    by (intro zc_ok_put_search[OF keeps_ok_zc[OF k] i]) (simp_all add: search_ids_def)
  with k ok show ?thesis by (simp add: pump_search_def Let_def keeps_ok_def)
qed

lemma pump_publisher_ok: "zc_ok x st \<Longrightarrow> keeps_ok x st (pump_publisher pf now i st)"
proof -
  assume ok: "zc_ok x st"
  let ?K = "keeps_ok x st"
  have st: "?K st" using ok by (simp add: keeps_ok_def)
  have pub: "?K s'" if "send_publication pf p False None s = (b, s')" "?K s" for p b s s'
    using keeps_then_core[OF that(2) same_core_publication[of s pf p False None]] that(1) by simp
  have loc: "?K s'" if "find_local_ipv4 pf s = (b, s')" "?K s" for b s s'
    using keeps_then_core[OF that(2) same_core_find_local[of s pf]] that(1) by simp
  have put: "?K (put_publisher i f s)" if "?K s" "\<And>p. zp_txt (f p) = zp_txt p" for f s
    using that by (intro keeps_put_publisher) (simp_all add: publisher_ok_def)
  show ?thesis
  proof (cases "zp_txt_update_pending (g_publishers st ! i) \<and> now \<ge> zp_txt_update_due_ms (g_publishers st ! i)")
    case True
    obtain b s1 where p: "send_publication pf (g_publishers st ! i) False None st = (b, s1)" by fastforce
    from True st put pub[OF p st] show ?thesis
      by (simp add: pump_publisher_def Let_def p mark_publisher_txt_announced_def split: bool.splits)
  next
    case False
    obtain f s1 where l: "find_local_ipv4 pf st = (f, s1)" by fastforce
    define s2 where "s2 = (case f of None \<Rightarrow> s1 | Some ipv4 \<Rightarrow> put_publisher i (\<lambda>p. p\<lparr>zp_ipv4 := ipv4\<rparr>) s1)"
    have k2: "?K s2" using put loc[OF l st] by (simp add: s2_def split: option.splits)
    obtain b s3 where p: "send_publication pf (g_publishers s2 ! i) False None s2 = (b, s3)" by fastforce
    from False st put pub[OF p k2] show ?thesis
      by (auto simp: pump_publisher_def Let_def l s2_def[symmetric] p mark_publisher_txt_announced_def)
  qed
qed

lemma pump_ok:
  assumes ok: "zc_ok x st"
  shows "keeps_ok x st (s3e_zero_conf_pump pf guest st)"
proof -
  let ?K = "keeps_ok x st"
  obtain now st1 where n: "zero_conf_now_ms pf (st\<lparr>g_zero_conf_pumping := True\<rparr>) = (now, st1)" by fastforce
  have "?K (st\<lparr>g_zero_conf_pumping := True\<rparr>)" using ok by (simp add: keeps_ok_def)
  from keeps_then_core[OF this same_core_now[of _ pf]] n have k1: "?K st1" by simp
  note k2 = keeps_trans[OF k1 receive_ok[OF keeps_ok_zc[OF k1], of pf guest 32]]
  note k3 = keeps_trans[OF k2 expire_ok[OF keeps_ok_zc[OF k2], of pf guest now]]
  let ?s3 = "expire_discovered pf guest now (receive_packets pf guest 32 st1)"
  let ?s4 = "fold (pump_search pf now) [0..<ZERO_CONF_MAX_SEARCHES] ?s3"
  have "keeps_ok x ?s3 ?s4" using keeps_ok_zc[OF k3] by (intro keeps_fold pump_search_ok) auto
  note k4 = keeps_trans[OF k3 this]
  have "keeps_ok x ?s4 (fold (pump_publisher pf now) [0..<ZERO_CONF_MAX_PUBLISHERS] ?s4)"
    using keeps_ok_zc[OF k4] by (intro keeps_fold pump_publisher_ok) auto
  note k5 = keeps_trans[OF k4 this]
  from k5 ok show ?thesis by (simp add: s3e_zero_conf_pump_def n keeps_ok_def)
qed

lemma flush_keeps:
  assumes "zc_ok x st"
  shows "flush_retired_service_ids st = st"
proof -
  have "g_callback_depth st \<noteq> 0 \<or> g_retired_service_ids st = []" using assms by (auto simp: zc_ok_def)
  then show ?thesis by (auto simp: flush_retired_service_ids_def)
qed

lemma shutdown_ok:
  assumes ok: "zc_ok x st"
  shows "keeps_ok x st (s3e_zero_conf_shutdown pf st)"
proof -
  let ?s1 = "fold (goodbye_publisher pf) [0..<ZERO_CONF_MAX_PUBLISHERS] st"
  have "keeps_ok x s (goodbye_publisher pf i s)" if "zc_ok x s" for i s
    using keeps_core[OF same_core_publication that] that by (simp add: goodbye_publisher_def keeps_ok_def)
  then have k1: "keeps_ok x st ?s1" using ok by (intro keeps_fold) auto
  let ?s2 = "?s1\<lparr>g_publishers := replicate ZERO_CONF_MAX_PUBLISHERS zero_publisher\<rparr>"
  have k2: "keeps_ok x st ?s2"
    using k1 by (auto simp: keeps_ok_def zc_ok_def heap_ok_def zc_ids_def zero_publisher_ok)
  let ?s3 = "fold clear_search [0..<ZERO_CONF_MAX_SEARCHES] ?s2"
  have "keeps_ok x ?s2 ?s3" using keeps_ok_zc[OF k2] by (intro keeps_fold clear_search_ok) auto
  from keeps_trans[OF k2 this] have k3: "keeps_ok x st ?s3" .
  from k3 flush_keeps[OF keeps_ok_zc[OF k3]] show ?thesis
    by (simp add: s3e_zero_conf_shutdown_def Let_def keeps_ok_def)
qed

text \<open>The whole component: it keeps its invariant whatever the guest and the network do.\<close>

lemma zc_initial_ok: "zc_ok {#} zc_initial"
  by (auto simp: zc_ok_def heap_ok_def zc_ids_def zc_initial_def zero_search_ok zero_publisher_ok)

interpretation zeroconf_machine: invariant_machine "zc_step pf guest" "zc_ok {#}" for pf guest
proof
  fix st :: zc_state and e
  assume ok: "zc_ok {#} st"
  have "keeps_ok {#} st (zc_step pf guest e st)"
    by (cases e) (simp_all add: zc_call_ok[OF ok] pump_ok[OF ok] process_packet_ok[OF ok] shutdown_ok[OF ok])
  then show "zc_ok {#} (zc_step pf guest e st)" by (rule keeps_ok_zc)
qed

end
