(* ===== verification/Zeroconf_Properties.thy ===== *)
theory Zeroconf_Properties
  imports Zeroconf_Inv
begin

unbundle bit_operations_syntax

text \<open>
  The properties of \<open>src/s3e_zeroconf.c\<close>: the life of service identifiers, the tables, search and
  publisher handles, expiry, and TXT updates.
\<close>

section \<open>Search and publisher handles\<close>

lemma put_search_slots:
  "length (g_searches (put_search i f st)) = length (g_searches st)"
  "j \<noteq> i \<Longrightarrow> g_searches (put_search i f st) ! j = g_searches st ! j"
  by simp_all

lemma start_search_slots:
  assumes "s3eZeroConfStartSearch pf a st = (r, st')"
  shows "length (g_searches st') = length (g_searches st)"
    and "r = Some i \<Longrightarrow> find_idx (\<lambda>s. \<not> zs_in_use s) (g_searches st) = Some i \<and> zs_in_use (g_searches st' ! i) \<and>
      (\<forall>j. j \<noteq> i \<longrightarrow> g_searches st' ! j = g_searches st ! j)"
    and "r = None \<Longrightarrow> j < length (g_searches st) \<Longrightarrow>
      (zs_in_use (g_searches st ! j) \<longrightarrow> g_searches st' ! j = g_searches st ! j) \<and>
      (\<not> zs_in_use (g_searches st ! j) \<longrightarrow> \<not> zs_in_use (g_searches st' ! j))"
proof -
  have e: "g_searches s' = g_searches s" if "ensure_mdns_socket pf s = (b, s')" for s b s'
    using same_coreD(1)[OF same_core_ensure[of s pf]] that by simp
  have n: "g_searches s' = g_searches s" if "zero_conf_now_ms pf s = (b, s')" for s b s'
    using same_coreD(1)[OF same_core_now[of s pf]] that by simp
  have q: "g_searches (snd (send_query pf x s)) = g_searches s" for x s
    by (rule same_coreD(1)[OF same_core_send_query])
  have "length (g_searches st') = length (g_searches st) \<and>
    (case r of
       Some i \<Rightarrow> find_idx (\<lambda>s. \<not> zs_in_use s) (g_searches st) = Some i \<and> zs_in_use (g_searches st' ! i) \<and>
         (\<forall>j. j \<noteq> i \<longrightarrow> g_searches st' ! j = g_searches st ! j)
     | None \<Rightarrow> \<forall>j < length (g_searches st).
         (zs_in_use (g_searches st ! j) \<longrightarrow> g_searches st' ! j = g_searches st ! j) \<and>
         (\<not> zs_in_use (g_searches st ! j) \<longrightarrow> \<not> zs_in_use (g_searches st' ! j)))"
  proof (cases "find_idx (\<lambda>s. \<not> zs_in_use s) (g_searches st)")
    case None
    with assms show ?thesis by (auto simp: s3eZeroConfStartSearch_def simp del: find_idx_None split: if_splits)
  next
    case (Some i)
    note F = find_idx_SomeD[OF Some]
    from assms F show ?thesis
      unfolding s3eZeroConfStartSearch_def Some Let_def
      by (auto simp: q zero_search_def nth_list_update split: option.splits prod.splits bool.splits if_splits
          dest!: e n)
  qed
  then show "length (g_searches st') = length (g_searches st)"
    and "r = Some i \<Longrightarrow> find_idx (\<lambda>s. \<not> zs_in_use s) (g_searches st) = Some i \<and> zs_in_use (g_searches st' ! i) \<and>
      (\<forall>j. j \<noteq> i \<longrightarrow> g_searches st' ! j = g_searches st ! j)"
    and "r = None \<Longrightarrow> j < length (g_searches st) \<Longrightarrow>
      (zs_in_use (g_searches st ! j) \<longrightarrow> g_searches st' ! j = g_searches st ! j) \<and>
      (\<not> zs_in_use (g_searches st ! j) \<longrightarrow> \<not> zs_in_use (g_searches st' ! j))"
    by (auto split: option.splits)
qed

lemma clear_search_slots: "g_searches (clear_search i st) = (g_searches st)[i := zero_search]"
proof -
  have "g_searches (fold (\<lambda>e. retire_service_id (zd_service_id e)) es s) = g_searches s"
    for es :: "zero_conf_discovered list" and s
    by (induction es arbitrary: s) simp_all
  then show ?thesis by (simp add: clear_search_def)
qed

lemma stop_search_slots:
  "g_searches (s3eZeroConfStopSearch h st) =
     (if h < length (g_searches st) \<and> zs_in_use (g_searches st ! h)
      then (g_searches st)[h := zero_search] else g_searches st)"
  by (simp add: s3eZeroConfStopSearch_def resolve_search_def clear_search_slots)

interpretation search_handles: slot_table zs_in_use g_searches "s3eZeroConfStartSearch pf" s3eZeroConfStopSearch for pf
proof
  fix a :: search_args and st st' :: zc_state and i :: nat
  show "find_idx (\<lambda>x. \<not> zs_in_use x) (g_searches st) = Some i \<and> length (g_searches st') = length (g_searches st) \<and>
      zs_in_use (g_searches st' ! i) \<and>
      (\<forall>j < length (g_searches st). j \<noteq> i \<longrightarrow> g_searches st' ! j = g_searches st ! j)"
    if "s3eZeroConfStartSearch pf a st = (Some i, st')"
    using start_search_slots(1)[OF that] start_search_slots(2)[OF that, of i] by simp
  show "length (g_searches st') = length (g_searches st) \<and>
      (\<forall>j < length (g_searches st). (zs_in_use (g_searches st ! j) \<longrightarrow> g_searches st' ! j = g_searches st ! j) \<and>
        (\<not> zs_in_use (g_searches st ! j) \<longrightarrow> \<not> zs_in_use (g_searches st' ! j)))"
    if "s3eZeroConfStartSearch pf a st = (None, st')"
    using start_search_slots(1)[OF that] start_search_slots(3)[OF that refl] by simp
  show "length (g_searches (s3eZeroConfStopSearch i st)) = length (g_searches st) \<and>
      (\<forall>j < length (g_searches st). j \<noteq> i \<longrightarrow> g_searches (s3eZeroConfStopSearch i st) ! j = g_searches st ! j)"
    by (simp add: stop_search_slots)
  show "\<not> zs_in_use (g_searches (s3eZeroConfStopSearch i st) ! i)" if "i < length (g_searches st)"
    using that by (simp add: stop_search_slots zero_search_def)
qed

lemma g_put_publisher [simp]:
  "g_publishers (put_publisher i f st) = (g_publishers st)[i := f (g_publishers st ! i)]"
  by (simp add: put_publisher_def)

lemma publish_slots:
  assumes "s3eZeroConfPublish pf a st = (r, st')"
  shows "length (g_publishers st') = length (g_publishers st)"
    and "r = Some i \<Longrightarrow> find_idx (\<lambda>p. \<not> zp_in_use p) (g_publishers st) = Some i \<and> zp_in_use (g_publishers st' ! i) \<and>
      (\<forall>j. j \<noteq> i \<longrightarrow> g_publishers st' ! j = g_publishers st ! j)"
    and "r = None \<Longrightarrow> j < length (g_publishers st) \<Longrightarrow>
      (zp_in_use (g_publishers st ! j) \<longrightarrow> g_publishers st' ! j = g_publishers st ! j) \<and>
      (\<not> zp_in_use (g_publishers st ! j) \<longrightarrow> \<not> zp_in_use (g_publishers st' ! j))"
proof -
  have e: "g_publishers s' = g_publishers s" if "ensure_mdns_socket pf s = (b, s')" for s b s'
    using same_coreD(2)[OF same_core_ensure[of s pf]] that by simp
  have n: "g_publishers s' = g_publishers s" if "zero_conf_now_ms pf s = (b, s')" for s b s'
    using same_coreD(2)[OF same_core_now[of s pf]] that by simp
  have l: "g_publishers s' = g_publishers s" if "find_local_ipv4 pf s = (b, s')" for s b s'
    using same_coreD(2)[OF same_core_find_local[of s pf]] that by simp
  have q: "g_publishers (snd (send_publication pf x b d s)) = g_publishers s" for x b d s
    by (rule same_coreD(2)[OF same_core_publication])
  have "length (g_publishers st') = length (g_publishers st) \<and>
    (case r of
       Some i \<Rightarrow> find_idx (\<lambda>p. \<not> zp_in_use p) (g_publishers st) = Some i \<and> zp_in_use (g_publishers st' ! i) \<and>
         (\<forall>j. j \<noteq> i \<longrightarrow> g_publishers st' ! j = g_publishers st ! j)
     | None \<Rightarrow> \<forall>j < length (g_publishers st).
         (zp_in_use (g_publishers st ! j) \<longrightarrow> g_publishers st' ! j = g_publishers st ! j) \<and>
         (\<not> zp_in_use (g_publishers st ! j) \<longrightarrow> \<not> zp_in_use (g_publishers st' ! j)))"
  proof (cases "find_idx (\<lambda>p. \<not> zp_in_use p) (g_publishers st)")
    case None
    with assms show ?thesis by (auto simp: s3eZeroConfPublish_def simp del: find_idx_None split: if_splits)
  next
    case (Some i)
    note F = find_idx_SomeD[OF Some]
    from assms F show ?thesis
      unfolding s3eZeroConfPublish_def Some Let_def
      by (auto simp: q zero_publisher_def mark_publisher_txt_announced_def nth_list_update
          split: option.splits prod.splits bool.splits if_splits dest!: e n l)
  qed
  then show "length (g_publishers st') = length (g_publishers st)"
    and "r = Some i \<Longrightarrow> find_idx (\<lambda>p. \<not> zp_in_use p) (g_publishers st) = Some i \<and> zp_in_use (g_publishers st' ! i) \<and>
      (\<forall>j. j \<noteq> i \<longrightarrow> g_publishers st' ! j = g_publishers st ! j)"
    and "r = None \<Longrightarrow> j < length (g_publishers st) \<Longrightarrow>
      (zp_in_use (g_publishers st ! j) \<longrightarrow> g_publishers st' ! j = g_publishers st ! j) \<and>
      (\<not> zp_in_use (g_publishers st ! j) \<longrightarrow> \<not> zp_in_use (g_publishers st' ! j))"
    by (auto split: option.splits)
qed

lemma unpublish_slots:
  "g_publishers (snd (s3eZeroConfUnpublish pf h st)) =
     (if h < length (g_publishers st) \<and> zp_in_use (g_publishers st ! h)
      then (g_publishers st)[h := zero_publisher] else g_publishers st)"
  using same_coreD(2)[OF same_core_publication]
  by (simp add: s3eZeroConfUnpublish_def resolve_publisher_def)

interpretation publisher_handles: slot_table zp_in_use g_publishers "s3eZeroConfPublish pf"
    "\<lambda>h st. snd (s3eZeroConfUnpublish pf h st)" for pf
proof
  fix a :: publish_args and st st' :: zc_state and i :: nat
  show "find_idx (\<lambda>x. \<not> zp_in_use x) (g_publishers st) = Some i \<and>
      length (g_publishers st') = length (g_publishers st) \<and> zp_in_use (g_publishers st' ! i) \<and>
      (\<forall>j < length (g_publishers st). j \<noteq> i \<longrightarrow> g_publishers st' ! j = g_publishers st ! j)"
    if "s3eZeroConfPublish pf a st = (Some i, st')"
    using publish_slots(1)[OF that] publish_slots(2)[OF that, of i] by simp
  show "length (g_publishers st') = length (g_publishers st) \<and>
      (\<forall>j < length (g_publishers st). (zp_in_use (g_publishers st ! j) \<longrightarrow> g_publishers st' ! j = g_publishers st ! j) \<and>
        (\<not> zp_in_use (g_publishers st ! j) \<longrightarrow> \<not> zp_in_use (g_publishers st' ! j)))"
    if "s3eZeroConfPublish pf a st = (None, st')"
    using publish_slots(1)[OF that] publish_slots(3)[OF that refl] by simp
  show "length (g_publishers (snd (s3eZeroConfUnpublish pf i st))) = length (g_publishers st) \<and>
      (\<forall>j < length (g_publishers st). j \<noteq> i \<longrightarrow>
        g_publishers (snd (s3eZeroConfUnpublish pf i st)) ! j = g_publishers st ! j)"
    by (simp add: unpublish_slots)
  show "\<not> zp_in_use (g_publishers (snd (s3eZeroConfUnpublish pf i st)) ! i)" if "i < length (g_publishers st)"
    using that by (simp add: unpublish_slots zero_publisher_def)
qed

section \<open>Properties\<close>

lemma fold_update_all: "fold (\<lambda>i xs. xs[i := z]) [0..<length xs] xs = replicate (length xs) z"
proof -
  have "length (fold (\<lambda>i xs. xs[i := z]) [0..<n] xs) = length xs \<and>
      (\<forall>j < n. j < length xs \<longrightarrow> fold (\<lambda>i xs. xs[i := z]) [0..<n] xs ! j = z)" for n
    by (induction n) (auto simp: nth_list_update less_Suc_eq)
  from this[of "length xs"] show ?thesis by (intro nth_equalityI) auto
qed

lemma zc_run_ok: "zc_ok {#} (fold (zc_step pf guest) inputs zc_initial)"
  by (rule zeroconf_machine.run_inv[OF zc_initial_ok])

lemma depth_step: "zc_ok {#} st \<Longrightarrow> g_callback_depth (zc_step pf guest e st) = g_callback_depth st"
  using zc_call_ok[of "{#}" st pf] pump_ok[of "{#}" st pf guest] process_packet_ok[of "{#}" st pf guest]
    shutdown_ok[of "{#}" st pf]
  by (cases e) (simp_all add: keeps_ok_def)

lemma depth_run: "g_callback_depth (fold (zc_step pf guest) inputs zc_initial) = 0"
proof -
  have "g_callback_depth (fold (zc_step pf guest) es st) = g_callback_depth st" if "zc_ok {#} st" for es st
    using that
  proof (induction es arbitrary: st)
    case (Cons e es)
    from Cons.IH[OF zeroconf_machine.step_inv[OF Cons.prems]] depth_step[OF Cons.prems] show ?case by simp
  qed simp
  from this[OF zc_initial_ok] show ?thesis by (simp add: zc_initial_def)
qed

text \<open>C1: whatever packets arrive and whatever API calls the guest makes, from its callbacks or
  outside of them, no service identifier is freed twice or read after it was freed, and the
  identifiers on the heap are exactly those of the services known to the searches, each of them
  referenced once.\<close>

theorem service_ids_memory_safe:
  "let st = fold (zc_step pf guest) inputs zc_initial
   in \<not> zc_heap_error st \<and> g_retired_service_ids st = [] \<and>
      (\<Sum>s \<leftarrow> g_searches st. search_ids s) = mset_set (dom (zc_heap st))"
  using zc_run_ok[of pf guest inputs] depth_run[of pf guest inputs]
  by (auto simp: Let_def zc_ok_def heap_ok_def zc_ids_def)

text \<open>A shutdown outside of all callbacks.\<close>

lemma shutdown_releases:
  assumes zc: "zc_ok {#} st" and depth: "g_callback_depth st = 0"
  shows "dom (zc_heap (s3e_zero_conf_shutdown pf st)) = {} \<and> \<not> zc_heap_error (s3e_zero_conf_shutdown pf st) \<and>
    live_slots zs_in_use (g_searches (s3e_zero_conf_shutdown pf st)) = {} \<and>
    live_slots zp_in_use (g_publishers (s3e_zero_conf_shutdown pf st)) = {} \<and> \<not> g_mdns_fd (s3e_zero_conf_shutdown pf st)"
proof -
  let ?sh = "s3e_zero_conf_shutdown pf st"
  let ?s1 = "(fold (goodbye_publisher pf) [0..<ZERO_CONF_MAX_PUBLISHERS] st)
      \<lparr>g_publishers := replicate ZERO_CONF_MAX_PUBLISHERS zero_publisher\<rparr>"
  have k: "keeps_ok {#} st ?sh" by (rule shutdown_ok[OF zc])
  then have ok: "zc_ok {#} ?sh" and d: "g_callback_depth ?sh = 0"
    using depth by (simp_all add: keeps_ok_def)
  have cl: "g_searches (fold clear_search is s) = fold (\<lambda>i xs. xs[i := zero_search]) is (g_searches s)" for "is" s
    by (induction "is" arbitrary: s) (simp_all add: clear_search_slots)
  have pb: "g_publishers (fold clear_search is s) = g_publishers s" for "is" s
  proof (induction "is" arbitrary: s)
    case (Cons i "is")
    have "g_publishers (fold (\<lambda>e. retire_service_id (zd_service_id e)) es s) = g_publishers s"
      for es :: "zero_conf_discovered list" and s by (induction es arbitrary: s) simp_all
    with Cons show ?case by (simp add: clear_search_def)
  qed simp
  have fl: "g_searches (flush_retired_service_ids s) = g_searches s \<and>
      g_publishers (flush_retired_service_ids s) = g_publishers s" for s
  proof -
    have "g_searches (fold (\<lambda>n. free_service_id (Some n)) ns s) = g_searches s \<and>
        g_publishers (fold (\<lambda>n. free_service_id (Some n)) ns s) = g_publishers s" for ns s
      by (induction ns arbitrary: s) simp_all
    then show ?thesis by (simp add: flush_retired_service_ids_def)
  qed
  have "length (g_searches ?s1) = ZERO_CONF_MAX_SEARCHES"
  proof -
    have "g_searches (fold (goodbye_publisher pf) is s) = g_searches s" for "is" s
      using same_coreD(1)[OF same_core_publication] by (induction "is" arbitrary: s) (simp_all add: goodbye_publisher_def)
    then show ?thesis using zc by (simp add: zc_ok_def)
  qed
  then have gs: "g_searches ?sh = replicate ZERO_CONF_MAX_SEARCHES zero_search"
    using fold_update_all[of zero_search "g_searches ?s1"] by (simp add: s3e_zero_conf_shutdown_def Let_def fl cl)
  have gp: "g_publishers ?sh = replicate ZERO_CONF_MAX_PUBLISHERS zero_publisher"
    by (simp add: s3e_zero_conf_shutdown_def Let_def fl pb)
  have "zc_ids ?sh = {#}" using ok d gs by (simp add: zc_ids_def zc_ok_def map_replicate)
  with ok have "mset_set (dom (zc_heap ?sh)) = {#}" "finite (dom (zc_heap ?sh))"
    by (simp_all add: zc_ok_def heap_ok_def)
  then have "dom (zc_heap ?sh) = {}" by (metis mset_set_empty_iff)
  with ok gs gp show ?thesis
    by (simp add: Let_def zc_ok_def heap_ok_def live_slots_def zero_search_def zero_publisher_def)
      (simp add: s3e_zero_conf_shutdown_def Let_def)
qed

text \<open>shutting down releases every service identifier, stops every search and publisher and
  closes the socket.\<close>

theorem shutdown_releases_all:
  "let st = s3e_zero_conf_shutdown pf (fold (zc_step pf guest) inputs zc_initial)
   in dom (zc_heap st) = {} \<and> \<not> zc_heap_error st \<and> live_slots zs_in_use (g_searches st) = {} \<and>
      live_slots zp_in_use (g_publishers st) = {} \<and> \<not> g_mdns_fd st"
  using shutdown_releases[OF zc_run_ok depth_run] by (simp add: Let_def)

text \<open>a search handle that \<open>s3eZeroConfStartSearch\<close> returns was free, and every running search
  is left as it was; a failed start changes no search; stopping frees exactly its handle. The
  same holds of publishers, and there are never more than four of each.\<close>

theorem handles_are_exclusive:
  "(case s3eZeroConfStartSearch pf a st of (r, st') \<Rightarrow>
      live_slots zs_in_use (g_searches st') = (case r of None \<Rightarrow> {} | Some i \<Rightarrow> {i}) \<union> live_slots zs_in_use (g_searches st) \<and>
      (case r of None \<Rightarrow> {} | Some i \<Rightarrow> {i}) \<inter> live_slots zs_in_use (g_searches st) = {} \<and>
      map (\<lambda>j. g_searches st' ! j) (sorted_list_of_set (live_slots zs_in_use (g_searches st))) =
      map (\<lambda>j. g_searches st ! j) (sorted_list_of_set (live_slots zs_in_use (g_searches st)))) \<and>
   live_slots zs_in_use (g_searches (s3eZeroConfStopSearch h st)) = live_slots zs_in_use (g_searches st) - {h} \<and>
   (case s3eZeroConfPublish pf b st of (r, st') \<Rightarrow>
      live_slots zp_in_use (g_publishers st') = (case r of None \<Rightarrow> {} | Some i \<Rightarrow> {i}) \<union> live_slots zp_in_use (g_publishers st) \<and>
      (case r of None \<Rightarrow> {} | Some i \<Rightarrow> {i}) \<inter> live_slots zp_in_use (g_publishers st) = {} \<and>
      map (\<lambda>j. g_publishers st' ! j) (sorted_list_of_set (live_slots zp_in_use (g_publishers st))) =
      map (\<lambda>j. g_publishers st ! j) (sorted_list_of_set (live_slots zp_in_use (g_publishers st)))) \<and>
   live_slots zp_in_use (g_publishers (snd (s3eZeroConfUnpublish pf h st))) = live_slots zp_in_use (g_publishers st) - {h} \<and>
   card (live_slots zs_in_use (g_searches (fold (zc_step pf guest) inputs zc_initial))) \<le> 4 \<and>
   card (live_slots zp_in_use (g_publishers (fold (zc_step pf guest) inputs zc_initial))) \<le> 4"
proof -
  let ?run = "fold (zc_step pf guest) inputs zc_initial"
  obtain r1 s1 where r1: "s3eZeroConfStartSearch pf a st = (r1, s1)" by fastforce
  obtain r2 s2 where r2: "s3eZeroConfPublish pf b st = (r2, s2)" by fastforce
  have "length (g_searches ?run) = 4" "length (g_publishers ?run) = 4"
    using zc_run_ok[of pf guest inputs] by (simp_all add: zc_ok_def zc_sizes)
  then have c: "card (live_slots zs_in_use (g_searches ?run)) \<le> 4" "card (live_slots zp_in_use (g_publishers ?run)) \<le> 4"
    using card_live_slots[of zs_in_use "g_searches ?run"] card_live_slots[of zp_in_use "g_publishers ?run"] by simp_all
  have a: "live_slots zs_in_use (g_searches s1) = (case r1 of None \<Rightarrow> {} | Some i \<Rightarrow> {i}) \<union> live_slots zs_in_use (g_searches st)"
    "(case r1 of None \<Rightarrow> {} | Some i \<Rightarrow> {i}) \<inter> live_slots zs_in_use (g_searches st) = {}"
    using r1 search_handles.alloc_fresh[of pf a st _ s1] search_handles.alloc_failed[of pf a st s1]
    by (auto split: option.splits)
  have b: "live_slots zp_in_use (g_publishers s2) = (case r2 of None \<Rightarrow> {} | Some i \<Rightarrow> {i}) \<union> live_slots zp_in_use (g_publishers st)"
    "(case r2 of None \<Rightarrow> {} | Some i \<Rightarrow> {i}) \<inter> live_slots zp_in_use (g_publishers st) = {}"
    using r2 publisher_handles.alloc_fresh[of pf b st _ s2] publisher_handles.alloc_failed[of pf b st s2]
    by (auto split: option.splits)
  have k: "g_searches s1 ! j = g_searches st ! j" if "j \<in> live_slots zs_in_use (g_searches st)" for j
    by (rule search_handles.alloc_keeps_objects[OF r1 that])
  have l: "g_publishers s2 ! j = g_publishers st ! j" if "j \<in> live_slots zp_in_use (g_publishers st)" for j
    by (rule publisher_handles.alloc_keeps_objects[OF r2 that])
  show ?thesis
    unfolding r1 r2 prod.case using a b c k l
    by (simp add: search_handles.release_live publisher_handles.release_live)
qed

text \<open>the tables are consistent at every moment: a service that a search lists carries a name
  under the search's service type, no two listed services or cached hosts have names that differ
  in case only, a search that is not running lists nothing, and a publisher's TXT data has at most
  16 records of less than 256 bytes.\<close>

theorem tables_consistent:
  "let st = fold (zc_step pf guest) inputs zc_initial
   in length (g_searches st) = ZERO_CONF_MAX_SEARCHES \<and> list_all search_ok (g_searches st) \<and>
      length (g_publishers st) = ZERO_CONF_MAX_PUBLISHERS \<and> list_all publisher_ok (g_publishers st)"
  using zc_run_ok[of pf guest inputs] by (simp add: Let_def zc_ok_def list_all_iff)

section \<open>Announcing TXT data\<close>

lemma publishers_put [simp]:
  "g_publishers (put_entry i k f st) = g_publishers st" "g_publishers (put_address i k f' st) = g_publishers st"
  "g_publishers (map_entries i f st) = g_publishers st" "g_publishers (tick st) = g_publishers st"
  by (simp_all add: put_entry_def put_address_def map_entries_def tick_def)

lemma publishers_send [simp]: "g_publishers (snd (send_record_query pf n ty st)) = g_publishers st"
  "g_publishers (snd (send_query pf s st)) = g_publishers st"
  "g_publishers (snd (send_publication pf p b d st)) = g_publishers st"
  by (rule same_coreD(2)[OF same_core_send_record] same_coreD(2)[OF same_core_send_query]
      same_coreD(2)[OF same_core_publication])+

lemma publishers_allocate: "allocate_service_id pf st = (r, st') \<Longrightarrow> g_publishers st' = g_publishers st"
  "allocate_address i h st = (r2, st') \<Longrightarrow> g_publishers st' = g_publishers st"
  by (auto simp: allocate_service_id_def allocate_address_def tick_def Let_def split: if_splits option.splits)

lemma publishers_allocate_discovered:
  "allocate_discovered pf i f st = (r, st') \<Longrightarrow> g_publishers st' = g_publishers st"
  by (auto simp: allocate_discovered_def Let_def dest!: publishers_allocate(1) split: option.splits if_splits prod.splits)

lemma publishers_fold: "(\<And>r s. g_publishers (f r s) = g_publishers s) \<Longrightarrow> g_publishers (fold f rs st) = g_publishers st"
  by (induction rs arbitrary: st) simp_all

lemma publishers_records:
  "g_publishers (apply_ptr_record pf i now r st) = g_publishers st"
  "g_publishers (apply_service_record pf i now r st) = g_publishers st"
  "g_publishers (apply_address_record i now r st) = g_publishers st"
  "g_publishers (followup_entry pf i now k st) = g_publishers st"
  by (auto simp: apply_ptr_record_def apply_service_record_def apply_address_record_def followup_entry_def Let_def
      dest: publishers_allocate_discovered publishers_allocate
      split: mdns_wire_rdata.splits option.splits prod.splits if_splits)

lemma publishers_frame:
  "g_publishers (apply_ptr_records pf i now packet st) = g_publishers st"
  "g_publishers (apply_service_records pf i now packet st) = g_publishers st"
  "g_publishers (apply_address_records i now packet st) = g_publishers st"
  "g_publishers (send_followup_queries pf i now st) = g_publishers st"
  "g_publishers (put_search i f st) = g_publishers st"
  "g_publishers (fold (answer_query pf packet source) is st) = g_publishers st"
  by (simp_all add: apply_ptr_records_def apply_service_records_def apply_address_records_def
      send_followup_queries_def publishers_fold publishers_records answer_query_def split_beta Let_def)

text \<open>
  Observations of the publishers: a predicate of the publisher table that the API calls keep is
  kept by everything the host does between two rounds of announcements, callbacks included.
\<close>

locale publisher_observer =
  fixes pf :: zc_platform and Q :: "zero_conf_publisher list \<Rightarrow> bool"
  assumes call_keeps: "Q (g_publishers st) \<Longrightarrow> Q (g_publishers (zc_call_step pf c st))"
begin

lemma calls_keep: "Q (g_publishers st) \<Longrightarrow> Q (g_publishers (fold (zc_call_step pf) cs st))"
  by (induction cs arbitrary: st) (simp_all add: call_keeps)

lemma callback_keeps: "Q (g_publishers st) \<Longrightarrow> Q (g_publishers (run_callback pf guest ev st))"
proof -
  have fl: "g_publishers (fold (\<lambda>n. free_service_id (Some n)) ns s) = g_publishers s" for ns s
    by (induction ns arbitrary: s) simp_all
  have cl: "g_publishers (callback_leave s) = g_publishers s" for s
    by (simp add: callback_leave_def flush_retired_service_ids_def fl)
  assume "Q (g_publishers st)"
  then show ?thesis by (simp add: run_callback_def Let_def cl calls_keep callback_enter_def)
qed

lemma read_frame: "g_publishers (read_service_id sid st) = g_publishers st"
  by (simp add: read_service_id_def split: option.splits)

lemma rotate_keeps:
  "Q (g_publishers st) \<Longrightarrow> rotate_service_id_after_lost pf guest i k g st = (r, st') \<Longrightarrow> Q (g_publishers st')"
proof -
  have al: "g_publishers s' = g_publishers s" if "allocate_service_id pf s = (x, s')" for s x s'
    using that by (auto simp: allocate_service_id_def tick_def Let_def split: if_splits)
  have lost: "Q (g_publishers s) \<Longrightarrow> Q (g_publishers (dispatch_lost pf guest i k sid s))" for s sid
    by (auto simp: dispatch_lost_def Let_def intro!: callback_keeps)
  show "Q (g_publishers st) \<Longrightarrow> rotate_service_id_after_lost pf guest i k g st = (r, st') \<Longrightarrow> Q (g_publishers st')"
    by (auto simp: rotate_service_id_after_lost_def Let_def read_frame
        intro!: lost dest!: al split: option.splits prod.splits)
qed

lemma found_keeps: "Q (g_publishers st) \<Longrightarrow> Q (g_publishers (dispatch_found pf guest i k st))"
  by (auto simp: dispatch_found_def Let_def read_frame intro!: callback_keeps)

lemma update_keeps: "Q (g_publishers st) \<Longrightarrow> Q (g_publishers (dispatch_update pf guest i k st))"
  by (auto simp: dispatch_update_def Let_def read_frame intro!: callback_keeps)

lemma entry_keeps:
  assumes q: "Q (g_publishers st)"
  shows "Q (g_publishers (snd (dispatch_entry pf guest i g k st)))"
proof -
  obtain r s1 where R: "rotate_service_id_after_lost pf guest i k g st = (r, s1)" by fastforce
  note q1 = rotate_keeps[OF q R]
  show ?thesis
    unfolding dispatch_entry_def Let_def R
    by (cases r) (simp_all add: q q1 found_keeps update_keeps clear_change_flags_def clear_discovered_def)
qed

lemma entries_keep: "Q (g_publishers st) \<Longrightarrow> Q (g_publishers (dispatch_entries pf guest i g ks st))"
proof (induction ks arbitrary: st)
  case (Cons k ks)
  then show ?case using entry_keeps[OF Cons.prems, of guest i g k]
    by (auto split: prod.splits bool.splits)
qed simp

lemma process_response_keeps:
  "Q (g_publishers st) \<Longrightarrow> Q (g_publishers (process_response_search pf guest packet now i st))"
  by (simp add: process_response_search_def dispatch_search_changes_def publishers_frame entries_keep)

lemma expire_keeps: "Q (g_publishers st) \<Longrightarrow> Q (g_publishers (expire_search pf guest now i st))"
  by (simp add: expire_search_def dispatch_search_changes_def publishers_frame entries_keep)

lemma fold_keeps:
  "(\<And>r s. Q (g_publishers s) \<Longrightarrow> Q (g_publishers (f r s))) \<Longrightarrow> Q (g_publishers st) \<Longrightarrow> Q (g_publishers (fold f rs st))"
  by (induction rs arbitrary: st) simp_all

lemma packet_keeps:
  "Q (g_publishers st) \<Longrightarrow> Q (g_publishers (s3e_zero_conf_process_packet pf guest data n source st))"
proof -
  assume q: "Q (g_publishers st)"
  have now: "g_publishers s' = g_publishers st" if "zero_conf_now_ms pf (tick st) = (m, s')" for m s'
    using that by (auto simp: zero_conf_now_ms_def tick_def)
  have t: "g_publishers (tick st) = g_publishers st" by (simp add: tick_def)
  show ?thesis
    using q by (auto simp: s3e_zero_conf_process_packet_def t publishers_frame dest: now
        intro!: fold_keeps process_response_keeps split: res.splits prod.splits)
qed

lemma receive_keeps: "Q (g_publishers st) \<Longrightarrow> Q (g_publishers (receive_packets pf guest n st))"
proof (induction n arbitrary: st)
  case (Suc n)
  have t: "g_publishers (tick st) = g_publishers st" by (simp add: tick_def)
  from Suc show ?case by (auto simp: t packet_keeps split: option.splits)
qed simp

end

text \<open>A running publisher has an update pending exactly when its TXT data is not what it announced last.\<close>

definition txt_tracked :: "zero_conf_publisher \<Rightarrow> bool" where
  "txt_tracked p \<longleftrightarrow> (zp_in_use p \<longrightarrow> (zp_txt_update_pending p \<longleftrightarrow> zp_txt p \<noteq> zp_announced_txt p))"

lemma txt_tracked_announced: "txt_tracked ((mark_publisher_txt_announced p)\<lparr>zp_last_announce_ms := a, zp_next_announce_ms := b\<rparr>)"
  "txt_tracked (mark_publisher_txt_announced p)" "txt_tracked ((mark_publisher_txt_announced p)\<lparr>zp_last_announce_ms := a\<rparr>)"
  "txt_tracked zero_publisher"
  by (simp_all add: txt_tracked_def mark_publisher_txt_announced_def zero_publisher_def)

lemma list_all_update: "list_all P xs \<Longrightarrow> P x \<Longrightarrow> list_all P (xs[i := x])"
  by (auto simp: list_all_iff dest!: set_update_subset_insert[THEN subsetD])

lemma publish_tracked:
  assumes "list_all txt_tracked (g_publishers st)"
  shows "list_all txt_tracked (g_publishers (snd (s3eZeroConfPublish pf a st)))"
proof -
  have e: "g_publishers s' = g_publishers s" if "ensure_mdns_socket pf s = (b, s')" for s b s'
    using same_coreD(2)[OF same_core_ensure[of s pf]] that by simp
  have n: "g_publishers s' = g_publishers s" if "zero_conf_now_ms pf s = (b, s')" for s b s'
    using same_coreD(2)[OF same_core_now[of s pf]] that by simp
  have l: "g_publishers s' = g_publishers s" if "find_local_ipv4 pf s = (b, s')" for s b s'
    using same_coreD(2)[OF same_core_find_local[of s pf]] that by simp
  show ?thesis
    unfolding s3eZeroConfPublish_def Let_def using assms
    by (auto dest!: e n l simp: list_all_update txt_tracked_announced
        split: option.splits prod.splits bool.splits)
qed

lemma txt_records_equal_iff: "txt_records_equal a b \<longleftrightarrow> a = b"
  by (auto simp: txt_records_equal_def)

lemma update_tracked:
  assumes "list_all txt_tracked (g_publishers st)"
  shows "list_all txt_tracked (g_publishers (snd (s3eZeroConfUpdateTxtRecord pf h n rs st)))"
proof -
  have now: "g_publishers s' = g_publishers s" if "zero_conf_now_ms pf s = (b, s')" for s b s'
    using same_coreD(2)[OF same_core_now[of s pf]] that by simp
  show ?thesis
  proof (cases "resolve_publisher st h = None \<or> copy_txt_records n rs = None")
    case True
    with assms show ?thesis by (auto simp: s3eZeroConfUpdateTxtRecord_def split: option.splits)
  next
    case False
    then obtain i ts where r: "resolve_publisher st h = Some i" "copy_txt_records n rs = Some ts" by auto
    then have i: "i < length (g_publishers st)" "zp_in_use (g_publishers st ! i)"
      by (auto simp: resolve_publisher_def split: if_splits)
    then have p: "txt_tracked (g_publishers st ! i)" using assms by (simp add: list_all_length)
    from r i p assms show ?thesis
      by (auto dest!: now simp: s3eZeroConfUpdateTxtRecord_def Let_def txt_records_equal_iff txt_tracked_def
          list_all_update split: prod.splits)
  qed
qed

interpretation txt_observer: publisher_observer pf "list_all txt_tracked" for pf
proof
  fix st :: zc_state and c
  assume q: "list_all txt_tracked (g_publishers st)"
  have "g_publishers (fold (\<lambda>e. retire_service_id (zd_service_id e)) es s) = g_publishers s"
    for es :: "zero_conf_discovered list" and s by (induction es arbitrary: s) simp_all
  then have stop: "g_publishers (s3eZeroConfStopSearch h st) = g_publishers st" for h
    by (simp add: s3eZeroConfStopSearch_def clear_search_def split: option.splits)
  have e: "g_publishers s' = g_publishers s" if "ensure_mdns_socket pf s = (b, s')" for s b s'
    using same_coreD(2)[OF same_core_ensure[of s pf]] that by simp
  have n: "g_publishers s' = g_publishers s" if "zero_conf_now_ms pf s = (b, s')" for s b s'
    using same_coreD(2)[OF same_core_now[of s pf]] that by simp
  have start: "g_publishers (snd (s3eZeroConfStartSearch pf a st)) = g_publishers st" for a
    unfolding s3eZeroConfStartSearch_def Let_def
    by (auto dest!: e n split: option.splits prod.splits bool.splits)
  have unp: "list_all txt_tracked (g_publishers (snd (s3eZeroConfUnpublish pf h st)))" for h
    using q by (auto simp: unpublish_slots intro!: list_all_update txt_tracked_announced)
  show "list_all txt_tracked (g_publishers (zc_call_step pf c st))"
    using q by (cases c) (simp_all add: start stop publish_tracked update_tracked unp)
qed

lemma pump_publisher_tracked:
  assumes "list_all txt_tracked (g_publishers st)"
  shows "list_all txt_tracked (g_publishers (pump_publisher pf now i st))"
proof (cases "i < length (g_publishers st)")
  case False
  then have "xs[i := x] = xs" if "length xs = length (g_publishers st)" for xs :: "zero_conf_publisher list" and x
    using that by (simp add: list_update_beyond)
  with assms show ?thesis
    using same_coreD(2)[OF same_core_find_local[of st pf]]
    by (auto simp: pump_publisher_def Let_def split_beta publishers_send split: bool.splits option.splits)
next
  case True
  let ?p = "g_publishers st ! i"
  have p: "txt_tracked ?p" using assms True by (simp add: list_all_length)
  have pub: "g_publishers s' = g_publishers s" if "send_publication pf q False None s = (b, s')" for q b s s'
    using publishers_send(3)[of pf q False None s] that by simp
  have loc: "g_publishers s' = g_publishers st" if "find_local_ipv4 pf st = (b, s')" for b s'
    using same_coreD(2)[OF same_core_find_local[of st pf]] that by simp
  obtain f s1 where l: "find_local_ipv4 pf st = (f, s1)" by fastforce
  define s2 where "s2 = (case f of None \<Rightarrow> s1 | Some ipv4 \<Rightarrow> put_publisher i (\<lambda>p. p\<lparr>zp_ipv4 := ipv4\<rparr>) s1)"
  have k2: "\<exists>ip. g_publishers s2 = (g_publishers st)[i := ?p\<lparr>zp_ipv4 := ip\<rparr>]"
    using loc[OF l] by (cases f) (auto simp: s2_def intro: exI[of _ "zp_ipv4 ?p"])
  show ?thesis
    using assms p True k2
    by (auto simp: pump_publisher_def Let_def l s2_def[symmetric] txt_tracked_announced
        intro!: list_all_update dest!: pub split: prod.splits bool.splits)
      (auto simp: txt_tracked_def mark_publisher_txt_announced_def)
qed


end
