(* ===== verification/Zeroconf_Expiry.thy ===== *)
theory Zeroconf_Expiry
  imports Zeroconf_Properties
begin

unbundle bit_operations_syntax

text \<open>
  Expiry in \<open>src/s3e_zeroconf.c\<close>: after \<open>expire_discovered\<close> no running search holds a record whose
  time is over, whatever the guest does when it is told of the services that went away.
\<close>

section \<open>Observing what a search knows\<close>

text \<open>
  A predicate of a search that holds of a search that knows nothing, and that dispatching and the
  API keep, because they only flag entries, change their identifiers or clear them.
\<close>

definition same_records :: "zero_conf_discovered \<Rightarrow> zero_conf_discovered \<Rightarrow> bool" where
  "same_records e e' \<longleftrightarrow> zd_in_use e' = zd_in_use e \<and>
     zd_has_ptr e' = zd_has_ptr e \<and> zd_has_srv e' = zd_has_srv e \<and>
     zd_has_txt e' = zd_has_txt e \<and> zd_has_ipv4 e' = zd_has_ipv4 e \<and>
     zd_ptr_expires_at_ms e' = zd_ptr_expires_at_ms e \<and> zd_srv_expires_at_ms e' = zd_srv_expires_at_ms e \<and>
     zd_txt_expires_at_ms e' = zd_txt_expires_at_ms e \<and> zd_a_expires_at_ms e' = zd_a_expires_at_ms e"

lemma nth_update: "j < length xs \<Longrightarrow> xs[i := x] ! j = (if i = j then x else xs ! j)"
  by simp

lemma searches_frame:
  "g_searches (snd (ensure_mdns_socket pf st)) = g_searches st" "g_searches (snd (zero_conf_now_ms pf st)) = g_searches st"
  "g_searches (snd (find_local_ipv4 pf st)) = g_searches st" "g_searches (snd (send_query pf s st)) = g_searches st"
  "g_searches (snd (send_publication pf p b d st)) = g_searches st"
  by (rule same_coreD(1), rule same_core_steps)+

lemma publish_searches: "g_searches (snd (s3eZeroConfPublish pf a st)) = g_searches st"
  unfolding s3eZeroConfPublish_def Let_def
  by (simp add: split_beta searches_frame split: option.split bool.split)

lemma update_searches: "g_searches (snd (s3eZeroConfUpdateTxtRecord pf h m rs st)) = g_searches st"
  unfolding s3eZeroConfUpdateTxtRecord_def Let_def
  by (simp add: split_beta searches_frame split: option.split)

lemma unpublish_searches: "g_searches (snd (s3eZeroConfUnpublish pf h st)) = g_searches st"
  by (simp add: s3eZeroConfUnpublish_def searches_frame split: option.split)

definition only_slot :: "nat \<Rightarrow> zc_state \<Rightarrow> zc_state \<Rightarrow> bool" where
  "only_slot i st st' \<longleftrightarrow> length (g_searches st') = length (g_searches st) \<and> blank (g_searches st' ! i) \<and>
     (\<forall>j < length (g_searches st). j \<noteq> i \<longrightarrow> g_searches st' ! j = g_searches st ! j)"

lemma only_slot_put:
  "only_slot i st st' \<Longrightarrow> i < length (g_searches st) \<Longrightarrow> (\<And>s. blank s \<Longrightarrow> blank (f s)) \<Longrightarrow> only_slot i st (put_search i f st')"
  by (simp add: only_slot_def)

lemma only_slot_frame: "g_searches s = g_searches st' \<Longrightarrow> only_slot i st s = only_slot i st st'"
  by (simp add: only_slot_def)

text \<open>Starting a search changes at most one slot, and that to one that knows nothing.\<close>

lemma start_search_blank:
  "j < length (g_searches st) \<Longrightarrow> g_searches (snd (s3eZeroConfStartSearch pf a st)) ! j = g_searches st ! j \<or>
   blank (g_searches (snd (s3eZeroConfStartSearch pf a st)) ! j)"
proof (cases "find_idx (\<lambda>s. \<not> zs_in_use s) (g_searches st)")
  case None
  then show ?thesis by (simp add: s3eZeroConfStartSearch_def del: find_idx_None)
next
  case (Some i)
  assume j: "j < length (g_searches st)"
  have i: "i < length (g_searches st)" using find_idx_SomeD[OF Some] by simp
  have z: "only_slot i st (put_search i (\<lambda>_. zero_search) s)"
    if "only_slot i st s" for s using that i blank_zero by (intro only_slot_put) auto
  have z0: "only_slot i st (put_search i (\<lambda>_. zero_search) st)"
    using i blank_zero by (simp add: only_slot_def)
  have g: "only_slot i st (s\<lparr>g_search_generation := x\<rparr>) = only_slot i st s" for s x
    by (rule only_slot_frame) simp
  have "only_slot i st (snd (s3eZeroConfStartSearch pf a st)) \<or> snd (s3eZeroConfStartSearch pf a st) = st"
    unfolding s3eZeroConfStartSearch_def Some Let_def split_beta
    by (auto simp: only_slot_frame[OF searches_frame(1)] only_slot_frame[OF searches_frame(2)]
        only_slot_frame[OF searches_frame(4)] g blank_def i
        intro!: z z0 only_slot_put[OF _ i] split: option.split bool.split)
  with j show ?thesis by (auto simp: only_slot_def)
qed

locale search_observer =
  fixes Q :: "zero_conf_search \<Rightarrow> bool"
  assumes blank_holds: "blank s \<Longrightarrow> Q s"
    and entry_keeps: "Q s \<Longrightarrow> (\<And>e. e' = zero_discovered \<or> same_records (zs_discovered s ! k) e') \<Longrightarrow>
      Q (s\<lparr>zs_discovered := (zs_discovered s)[k := e']\<rparr>)"
    and meta_keeps: "Q s \<Longrightarrow> zs_discovered s' = zs_discovered s \<Longrightarrow> zs_addresses s' = zs_addresses s \<Longrightarrow>
      zs_in_use s' = zs_in_use s \<Longrightarrow> Q s'"
begin

definition all_hold :: "zc_state \<Rightarrow> nat set \<Rightarrow> bool" where
  "all_hold st I \<longleftrightarrow> (\<forall>i \<in> I. i < length (g_searches st) \<longrightarrow> Q (g_searches st ! i))"

lemma hold_same: "g_searches st' = g_searches st \<Longrightarrow> all_hold st' I = all_hold st I"
  by (simp add: all_hold_def)

lemma hold_put_search:
  "all_hold st I \<Longrightarrow> (Q (g_searches st ! i) \<Longrightarrow> Q (f (g_searches st ! i))) \<Longrightarrow> all_hold (put_search i f st) I"
  by (auto simp: all_hold_def nth_update)

lemma hold_put_entry:
  "all_hold st I \<Longrightarrow> (\<And>e. f e = zero_discovered \<or> same_records e (f e)) \<Longrightarrow> all_hold (put_entry i k f st) I"
  unfolding put_entry_def by (rule hold_put_search) (auto intro: entry_keeps)

lemma hold_start:
  assumes "all_hold st I"
  shows "all_hold (snd (s3eZeroConfStartSearch pf a st)) I"
proof -
  have l: "length (g_searches (snd (s3eZeroConfStartSearch pf a st))) = length (g_searches st)"
    using start_search_slots(1)[OF surjective_pairing] .
  show ?thesis
    unfolding all_hold_def l
  proof (intro ballI impI)
    fix i assume "i \<in> I" "i < length (g_searches st)"
    with assms start_search_blank[of i st pf a] blank_holds
    show "Q (g_searches (snd (s3eZeroConfStartSearch pf a st)) ! i)" by (auto simp: all_hold_def)
  qed
qed

lemma hold_call: "all_hold st I \<Longrightarrow> all_hold (zc_call_step pf c st) I"
proof (cases c)
  case (StopSearch h)
  assume "all_hold st I"
  with StopSearch show ?thesis
    by (auto simp: all_hold_def stop_search_slots nth_update blank_holds blank_zero)
qed (simp_all add: hold_start hold_same[OF publish_searches] hold_same[OF update_searches] hold_same[OF unpublish_searches])

lemma hold_callback: "all_hold st I \<Longrightarrow> all_hold (run_callback pf guest ev st) I"
proof -
  assume q: "all_hold st I"
  have calls: "all_hold s I \<Longrightarrow> all_hold (fold (zc_call_step pf) cs s) I" for cs s
    by (induction cs arbitrary: s) (simp_all add: hold_call)
  have fl: "g_searches (fold (\<lambda>n. free_service_id (Some n)) ns s) = g_searches s" for ns s
    by (induction ns arbitrary: s) simp_all
  have cl: "g_searches (callback_leave s) = g_searches s" for s
    by (simp add: callback_leave_def flush_retired_service_ids_def fl)
  have "all_hold (callback_enter (st\<lparr>zc_log := zc_log st @ [ev]\<rparr>)) I"
    using q by (subst hold_same[of _ st]) (simp_all add: callback_enter_def)
  from calls[OF this] show ?thesis by (simp add: run_callback_def Let_def hold_same[OF cl])
qed

lemma hold_read: "all_hold (read_service_id sid st) I = all_hold st I"
  by (rule hold_same) (simp add: read_service_id_def split: option.splits)

lemma hold_notified: "all_hold st I \<Longrightarrow> all_hold (put_entry i k (\<lambda>e. e\<lparr>zd_notified := b\<rparr>) st) I"
  by (rule hold_put_entry) (simp_all add: same_records_def)

lemma hold_dispatch:
  "all_hold st I \<Longrightarrow> all_hold (dispatch_found pf guest i k st) I"
  "all_hold st I \<Longrightarrow> all_hold (dispatch_update pf guest i k st) I"
  "all_hold st I \<Longrightarrow> all_hold (dispatch_lost pf guest i k sid st) I"
  "all_hold st I \<Longrightarrow> all_hold (clear_change_flags i k c st) I"
  "all_hold st I \<Longrightarrow> all_hold (clear_discovered i k st) I"
  by (auto simp: dispatch_found_def dispatch_update_def dispatch_lost_def clear_change_flags_def
      clear_discovered_def Let_def hold_read same_records_def
      hold_same[OF retire_frame(1)] intro!: hold_callback hold_notified hold_put_entry)

lemma hold_rotate:
  assumes q: "all_hold st I" and R: "rotate_service_id_after_lost pf guest i k g st = (r, st')"
  shows "all_hold st' I"
proof -
  obtain n s1 where al: "allocate_service_id pf st = (n, s1)" by fastforce
  have "g_searches s1 = g_searches st"
    using al by (auto simp: allocate_service_id_def tick_def Let_def split: if_splits)
  with q have q1: "all_hold s1 I" by (simp add: hold_same[of s1 st])
  have "all_hold (put_entry i k (\<lambda>e. e\<lparr>zd_service_id := x\<rparr>) s1) I" for x
    using q1 by (rule hold_put_entry) (simp add: same_records_def)
  then show ?thesis
    using R q1 al by (cases n) (auto simp: rotate_service_id_after_lost_def Let_def hold_read hold_same[OF retire_frame(1)]
        intro!: hold_dispatch(3))
qed

lemma hold_entry:
  assumes q: "all_hold st I"
  shows "all_hold (snd (dispatch_entry pf guest i g k st)) I"
proof -
  obtain r s1 where R: "rotate_service_id_after_lost pf guest i k g st = (r, s1)" by fastforce
  note q1 = hold_rotate[OF q R]
  show ?thesis
    unfolding dispatch_entry_def Let_def R
    by (cases r) (simp_all add: q q1 hold_dispatch)
qed

lemma hold_entries: "all_hold st I \<Longrightarrow> all_hold (dispatch_entries pf guest i g ks st) I"
proof (induction ks arbitrary: st)
  case (Cons k ks)
  then show ?case using hold_entry[OF Cons.prems, of pf guest i g k]
    by (auto split: prod.splits bool.splits)
qed simp

lemma hold_changes: "all_hold st I \<Longrightarrow> all_hold (dispatch_search_changes pf guest i st) I"
  by (simp add: dispatch_search_changes_def hold_entries)

lemma hold_followups: "all_hold st I \<Longrightarrow> all_hold (send_followup_queries pf i now st) I"
proof -
  have s: "all_hold (put_entry i k (\<lambda>e. e\<lparr>zd_next_srv_query_ms := t\<rparr>) (snd (send_record_query pf n ty st))) I"
    "all_hold (put_entry i k (\<lambda>e. e\<lparr>zd_next_txt_query_ms := t\<rparr>) (snd (send_record_query pf n ty st))) I"
    "all_hold (put_entry i k (\<lambda>e. e\<lparr>zd_next_a_query_ms := t\<rparr>) (snd (send_record_query pf n ty st))) I"
    if "all_hold st I" for t n ty st k
    using that hold_same[OF same_coreD(1)[OF same_core_send_record[of st pf n ty]]]
    by (auto intro!: hold_put_entry simp: same_records_def)
  have f: "all_hold st I \<Longrightarrow> all_hold (followup_entry pf i now k st) I" for k st
    unfolding followup_entry_def Let_def by (auto intro!: s)
  have "all_hold st I \<Longrightarrow> all_hold (fold (followup_entry pf i now) ks st) I" for ks st
    by (induction ks arbitrary: st) (auto intro: f)
  then show "all_hold st I \<Longrightarrow> all_hold (send_followup_queries pf i now st) I"
    by (simp add: send_followup_queries_def)
qed

end

section \<open>No stale record survives\<close>

definition fresh_until :: "u64 \<Rightarrow> bool \<Rightarrow> u64 \<Rightarrow> bool" where
  "fresh_until now known expires \<longleftrightarrow> \<not> known \<or> expires = 0 \<or> now < expires"

definition entry_fresh :: "u64 \<Rightarrow> zero_conf_discovered \<Rightarrow> bool" where
  "entry_fresh now e \<longleftrightarrow> \<not> zd_in_use e \<or>
     (fresh_until now (zd_has_ptr e) (zd_ptr_expires_at_ms e) \<and> fresh_until now (zd_has_srv e) (zd_srv_expires_at_ms e) \<and>
      fresh_until now (zd_has_txt e) (zd_txt_expires_at_ms e) \<and> fresh_until now (zd_has_ipv4 e) (zd_a_expires_at_ms e))"

definition search_fresh :: "u64 \<Rightarrow> zero_conf_search \<Rightarrow> bool" where
  "search_fresh now s \<longleftrightarrow> \<not> zs_in_use s \<or>
     (list_all (entry_fresh now) (zs_discovered s) \<and>
      list_all (\<lambda>a. fresh_until now (za_in_use a) (za_expires_at_ms a)) (zs_addresses s))"

lemma expire_entry_fresh: "entry_fresh now (expire_entry now e)"
  by (auto simp: entry_fresh_def fresh_until_def expire_entry_def forget_srv_def forget_txt_def forget_ipv4_def Let_def)

lemma expire_address_fresh: "fresh_until now (za_in_use (expire_address now a)) (za_expires_at_ms (expire_address now a))"
  by (auto simp: fresh_until_def expire_address_def zero_address_def)

interpretation fresh_observer: search_observer "search_fresh now" for now
proof
  show "search_fresh now s" if "blank s" for s
    using that by (simp add: search_fresh_def blank_def list_all_iff entry_fresh_def fresh_until_def zero_address_def)
  show "search_fresh now (s\<lparr>zs_discovered := (zs_discovered s)[k := e']\<rparr>)"
    if q: "search_fresh now s" and e: "\<And>e. e' = zero_discovered \<or> same_records (zs_discovered s ! k) e'" for s k e'
  proof (cases "zs_in_use s \<and> k < length (zs_discovered s)")
    case True
    then have "entry_fresh now (zs_discovered s ! k)" using q by (simp add: search_fresh_def list_all_length)
    with e have "entry_fresh now e'" by (auto simp: entry_fresh_def same_records_def)
    with q True show ?thesis by (simp add: search_fresh_def list_all_update)
  next
    case False
    with q show ?thesis by (auto simp: search_fresh_def list_update_beyond)
  qed
  show "search_fresh now s'" if "search_fresh now s" "zs_discovered s' = zs_discovered s"
    "zs_addresses s' = zs_addresses s" "zs_in_use s' = zs_in_use s" for s s'
    using that by (simp add: search_fresh_def)
qed

lemma expire_search_fresh:
  assumes "fresh_observer.all_hold now st I" and "length (g_searches st) = ZERO_CONF_MAX_SEARCHES"
  shows "fresh_observer.all_hold now (expire_search pf guest now i st) (insert i I)"
proof (cases "zs_in_use (g_searches st ! i)")
  case False
  with assms show ?thesis
    by (auto simp: expire_search_def fresh_observer.all_hold_def search_fresh_def)
next
  case True
  let ?s = "put_search i (\<lambda>s. s\<lparr>zs_addresses := map (expire_address now) (zs_addresses s),
      zs_discovered := map (expire_entry now) (zs_discovered s)\<rparr>) st"
  have "fresh_observer.all_hold now ?s (insert i I)"
    using assms expire_entry_fresh expire_address_fresh
    by (auto simp: fresh_observer.all_hold_def nth_update search_fresh_def list_all_length)
  from fresh_observer.hold_changes[OF fresh_observer.hold_followups[OF this]] True show ?thesis
    by (simp add: expire_search_def)
qed

text \<open>C9: when \<open>expire_discovered\<close> returns, no running search holds a PTR, SRV, TXT or A record or a
  cached address whose expiry has passed, whatever calls the guest made when it was told of the
  services that were lost.\<close>

theorem expiry_leaves_nothing_stale:
  "list_all (search_fresh now)
     (g_searches (expire_discovered pf guest now (fold (zc_step pf guest) inputs zc_initial)))"
proof -
  let ?st = "fold (zc_step pf guest) inputs zc_initial"
  have len: "length (g_searches (fold (expire_search pf guest now) is ?st)) = ZERO_CONF_MAX_SEARCHES"
    if "\<forall>i \<in> set is. i < ZERO_CONF_MAX_SEARCHES" for "is"
  proof -
    have "keeps_ok {#} ?st (fold (expire_search pf guest now) is ?st)"
      using that by (intro keeps_fold expire_search_ok zc_run_ok) auto
    then show ?thesis by (simp add: keeps_ok_def zc_ok_def)
  qed
  have "n \<le> ZERO_CONF_MAX_SEARCHES \<Longrightarrow>
      fresh_observer.all_hold now (fold (expire_search pf guest now) [0..<n] ?st) {..<n}" for n
  proof (induction n)
    case 0
    show ?case by (simp add: fresh_observer.all_hold_def)
  next
    case (Suc n)
    then have "fresh_observer.all_hold now (fold (expire_search pf guest now) [0..<n] ?st) {..<n}" by simp
    from expire_search_fresh[OF this len, of pf guest n] Suc.prems show ?case
      by (simp add: lessThan_Suc)
  qed
  then have A: "fresh_observer.all_hold now (fold (expire_search pf guest now) [0..<ZERO_CONF_MAX_SEARCHES] ?st)
      {..<ZERO_CONF_MAX_SEARCHES}" by blast
  have L: "length (g_searches (fold (expire_search pf guest now) [0..<ZERO_CONF_MAX_SEARCHES] ?st)) =
      ZERO_CONF_MAX_SEARCHES" by (rule len) simp
  show ?thesis
    using A unfolding expire_discovered_def list_all_length L fresh_observer.all_hold_def by blast
qed

end
