(* ===== verification/Display.thy ===== *)
theory Display
  imports Prelude
begin

text \<open>
  The display geometry of the host (\<open>src/s3e_host.c\<close>): the drawable, the surface the guest sees
  inside of it, its pixel buffer, and the pointer position the host resets with the size. The
  arithmetic is the 32-bit unsigned arithmetic of the code; \<open>calloc\<close> is a parameter that says
  whether a number of pixels can be allocated.
\<close>

section \<open>State\<close>

record fbdev_window =
  fb_width :: u16
  fb_height :: u16

record surface_geometry =
  sg_x :: u16
  sg_y :: u16
  sg_width :: u16
  sg_height :: u16

text \<open>The globals of \<open>s3e_host.c\<close> that the display and the input component share.\<close>

record host_display =
  g_native_window :: fbdev_window
  g_surface :: surface_geometry
  g_surface_pixels :: "nat option"
  g_pointer_x :: int
  g_pointer_y :: int

definition display_initial :: host_display where
  "display_initial = \<lparr>g_native_window = \<lparr>fb_width = 640, fb_height = 480\<rparr>,
     g_surface = \<lparr>sg_x = 0, sg_y = 0, sg_width = 640, sg_height = 480\<rparr>,
     g_surface_pixels = None, g_pointer_x = 110, g_pointer_y = 150\<rparr>"

section \<open>\<open>s3e_host_set_display_size\<close>\<close>

definition SIZE_MAX :: nat where "SIZE_MAX = 2 ^ 32 - 1"

definition surface_size :: "u32 \<Rightarrow> u32 \<Rightarrow> u32 \<times> u32" where
  "surface_size width height =
     (let minimum_height = (width * 3 + 2) div 4; maximum_width = (height * 16 + 4) div 9
      in if height > minimum_height then (width, minimum_height)
         else if width > maximum_width + 1 then (maximum_width, height)
         else (width, height))"

definition s3e_host_set_display_size ::
  "(nat \<Rightarrow> bool) \<Rightarrow> u32 \<Rightarrow> u32 \<Rightarrow> 'a host_display_scheme \<Rightarrow> bool \<times> 'a host_display_scheme" where
  "s3e_host_set_display_size calloc_ok width height st =
     (if width = 0 \<or> height = 0 \<or> width > 65535 \<or> height > 65535 then (False, st)
      else let (surface_width, surface_height) = surface_size width height in
        if unat surface_width > SIZE_MAX div unat surface_height \<or>
           unat (surface_width * surface_height) > SIZE_MAX div 4 then (False, st)
        else let n = unat surface_width * unat surface_height in
          if \<not> calloc_ok n then (False, st)
          else (True, st\<lparr>g_surface_pixels := Some n,
            g_native_window := \<lparr>fb_width = ucast width, fb_height = ucast height\<rparr>,
            g_surface := \<lparr>sg_x = ucast ((width - surface_width) div 2),
              sg_y = ucast ((height - surface_height) div 2),
              sg_width = ucast surface_width, sg_height = ucast surface_height\<rparr>,
            g_pointer_x := int (unat surface_width * 110 div 640),
            g_pointer_y := int (unat surface_height * 150 div 480)\<rparr>))"

text \<open>The window extent the input component clamps to (\<open>window_width\<close>, \<open>window_height\<close>).\<close>

definition window_width :: "'a host_display_scheme \<Rightarrow> int" where
  "window_width st = (if sg_width (g_surface st) > 0 then uint (sg_width (g_surface st)) else 640)"

definition window_height :: "'a host_display_scheme \<Rightarrow> int" where
  "window_height st = (if sg_height (g_surface st) > 0 then uint (sg_height (g_surface st)) else 480)"

text \<open>\<open>s3eSurfaceGetInt\<close> and \<open>s3eGLGetInt\<close> report the surface.\<close>

definition s3eSurfaceGetInt :: "u32 \<Rightarrow> 'a host_display_scheme \<Rightarrow> int" where
  "s3eSurfaceGetInt key st =
     (if key = 0 then uint (sg_width (g_surface st))
      else if key = 1 then uint (sg_height (g_surface st))
      else if key = 2 then uint (sg_width (g_surface st)) * 4
      else if key = 3 then 4 else 0)"

definition s3eGLGetInt :: "u32 \<Rightarrow> 'a host_display_scheme \<Rightarrow> int" where
  "s3eGLGetInt key st =
     (if key = 0 then uint (sg_width (g_surface st))
      else if key = 1 then uint (sg_height (g_surface st))
      else if key = 2 then 2 else 0)"

section \<open>Lemmas\<close>

text \<open>The products of the size computation stay below \<open>2 ^ 32\<close>.\<close>

lemma unat_scaled:
  assumes "unat w \<le> 65535" and "c \<le> 1000" and "d \<le> 1000"
  shows "unat (w * of_nat c + of_nat d :: u32) = unat w * c + d"
proof -
  have "unat w * c \<le> 65535 * 1000" using assms by (intro mult_mono) auto
  with assms show ?thesis by (simp add: unat_word_ariths unat_of_nat take_bit_eq_mod)
qed

text \<open>What the computation does in plain natural numbers.\<close>

definition fitted :: "nat \<Rightarrow> nat \<Rightarrow> nat \<times> nat" where
  "fitted w h = (if h > (w * 3 + 2) div 4 then (w, (w * 3 + 2) div 4)
     else if w > (h * 16 + 4) div 9 + 1 then ((h * 16 + 4) div 9, h) else (w, h))"

lemma surface_size_fitted:
  assumes "unat w \<le> 65535" and "unat h \<le> 65535"
  shows "map_prod unat unat (surface_size w h) = fitted (unat w) (unat h)"
proof -
  have a: "unat ((w * 3 + 2) div 4 :: u32) = (unat w * 3 + 2) div 4"
    using unat_scaled[OF assms(1), of 3 2] by (simp add: unat_div)
  have b: "unat ((h * 16 + 4) div 9 :: u32) = (unat h * 16 + 4) div 9"
    using unat_scaled[OF assms(2), of 16 4] by (simp add: unat_div)
  have "unat ((h * 16 + 4) div 9 + 1 :: u32) = (unat h * 16 + 4) div 9 + 1"
    using b assms(2) by (simp add: unat_word_ariths)
  with a b show ?thesis
    by (simp add: surface_size_def fitted_def Let_def word_less_nat_alt)
qed

lemma fitted_bounds:
  assumes "0 < w" and "0 < h" and "fitted w h = (sw, sh)"
  shows "0 < sw" "sw \<le> w" "0 < sh" "sh \<le> h"
  using assms by (auto simp: fitted_def split: if_splits)

lemma fitted_aspect:
  assumes "0 < w" and "0 < h" and "fitted w h = (sw, sh)"
  shows "4 * sh \<le> 3 * sw + 2" and "9 * sw \<le> 16 * sh + 13" and "sw = w \<or> sh = h"
  using assms by (auto simp: fitted_def split: if_splits)

lemma unat_ucast_u16: "unat x \<le> 65535 \<Longrightarrow> unat (ucast x :: u16) = unat x" for x :: u32
  by (simp add: unsigned_ucast_eq take_bit_eq_mod)

text \<open>How the geometry of a display is to look like: the surface lies centred in the drawable, its
  aspect is between 4:3 and 16:9 up to the rounding of one pixel row or column, its buffer has
  one pixel per position and the pointer is inside.\<close>

definition display_ok :: "'a host_display_scheme \<Rightarrow> bool" where
  "display_ok st \<longleftrightarrow>
     (let g = g_surface st; w = unat (sg_width g); h = unat (sg_height g);
          W = unat (fb_width (g_native_window st)); H = unat (fb_height (g_native_window st))
      in 0 < w \<and> 0 < h \<and> unat (sg_x g) = (W - w) div 2 \<and> unat (sg_y g) = (H - h) div 2 \<and>
         unat (sg_x g) + w \<le> W \<and> unat (sg_y g) + h \<le> H \<and> (w = W \<or> h = H) \<and>
         4 * h \<le> 3 * w + 2 \<and> 9 * w \<le> 16 * h + 13 \<and>
         (g_surface_pixels st = None \<or> g_surface_pixels st = Some (w * h)) \<and>
         0 \<le> g_pointer_x st \<and> g_pointer_x st < window_width st \<and>
         0 \<le> g_pointer_y st \<and> g_pointer_y st < window_height st)"

lemma display_initial_ok: "display_ok display_initial"
  by (simp add: display_ok_def display_initial_def window_width_def window_height_def)

lemma set_display_size_accepts:
  assumes w: "0 < unat w" "unat w \<le> 65535" and h: "0 < unat h" "unat h \<le> 65535"
  shows "s3e_host_set_display_size ok w h st =
    (let (sw, sh) = fitted (unat w) (unat h) in
     if sw * sh > SIZE_MAX div 4 \<or> \<not> ok (sw * sh) then (False, st)
     else (True, st\<lparr>g_surface_pixels := Some (sw * sh),
       g_native_window := \<lparr>fb_width = ucast w, fb_height = ucast h\<rparr>,
       g_surface := \<lparr>sg_x = of_nat ((unat w - sw) div 2), sg_y = of_nat ((unat h - sh) div 2),
         sg_width = of_nat sw, sg_height = of_nat sh\<rparr>,
       g_pointer_x := int (sw * 110 div 640), g_pointer_y := int (sh * 150 div 480)\<rparr>))"
proof -
  obtain ws hs where S: "surface_size w h = (ws, hs)" by (cases "surface_size w h")
  have F: "fitted (unat w) (unat h) = (unat ws, unat hs)"
    using surface_size_fitted[OF w(2) h(2)] S by simp
  note B = fitted_bounds[OF w(1) h(1) F]
  have prod: "unat ws * unat hs \<le> 65535 * 65535" using B w h by (intro mult_mono) auto
  have u: "unat (ws * hs) = unat ws * unat hs" using prod by (simp add: unat_word_ariths)
  have c: "\<not> unat ws > SIZE_MAX div unat hs"
    using B prod unfolding not_less less_eq_div_iff_mult_less_eq[OF B(3)] SIZE_MAX_def by simp
  have d: "unat ((x - y) div 2 :: u32) = (unat x - unat y) div 2" if "unat y \<le> unat x" for x y
    using that by (simp add: unat_div unat_sub word_le_nat_alt)
  have e: "(ucast ((x - y) div 2 :: u32) :: u16) = of_nat ((unat x - unat y) div 2)"
    if "unat y \<le> unat x" for x y :: u32
    using d[OF that] by (metis of_nat_unat)
  have "\<not> (w = 0 \<or> h = 0 \<or> w > 65535 \<or> h > 65535)"
    using w h by (auto simp: word_less_nat_alt)
  then show ?thesis
    using u c e[OF B(2)] e[OF B(4)]
    by (simp add: s3e_host_set_display_size_def S F Let_def of_nat_unat)
qed

lemma of_nat_u16: "n \<le> 65535 \<Longrightarrow> unat (of_nat n :: u16) = n"
  by (simp add: unat_of_nat take_bit_eq_mod)

lemma display_size_accepted:
  assumes "s3e_host_set_display_size ok w h st = (r, st')"
  shows "(r \<longleftrightarrow> 0 < unat w \<and> unat w \<le> 65535 \<and> 0 < unat h \<and> unat h \<le> 65535 \<and>
            (case fitted (unat w) (unat h) of (sw, sh) \<Rightarrow> sw * sh \<le> SIZE_MAX div 4 \<and> ok (sw * sh))) \<and>
         (if r then display_ok st' \<and> unat (fb_width (g_native_window st')) = unat w \<and>
                    unat (fb_height (g_native_window st')) = unat h \<and> g_surface_pixels st' \<noteq> None
          else st' = st)"
proof (cases "0 < unat w \<and> unat w \<le> 65535 \<and> 0 < unat h \<and> unat h \<le> 65535")
  case False
  then have "w = 0 \<or> h = 0 \<or> w > 65535 \<or> h > 65535"
    by (auto simp: word_less_nat_alt unat_eq_0)
  with False assms show ?thesis by (auto simp: s3e_host_set_display_size_def)
next
  case True
  obtain sw sh where F: "fitted (unat w) (unat h) = (sw, sh)" by (cases "fitted (unat w) (unat h)")
  note B = fitted_bounds[OF _ _ F] and A = fitted_aspect[OF _ _ F]
  have n: "unat (of_nat sw :: u16) = sw" "unat (of_nat sh :: u16) = sh"
    "unat (of_nat ((unat w - sw) div 2) :: u16) = (unat w - sw) div 2"
    "unat (of_nat ((unat h - sh) div 2) :: u16) = (unat h - sh) div 2"
    "unat (ucast w :: u16) = unat w" "unat (ucast h :: u16) = unat h"
    using B True by (auto intro!: of_nat_u16 unat_ucast_u16)
  have p: "int (sw * 110 div 640) < int sw" "int (sh * 150 div 480) < int sh" using B True by auto
  have i: "uint (of_nat sw :: u16) = int sw" "uint (of_nat sh :: u16) = int sh"
    using n by (metis uint_nat)+
  show ?thesis
  proof (cases "sw * sh > SIZE_MAX div 4 \<or> \<not> ok (sw * sh)")
    case True
    with assms \<open>0 < unat w \<and> _\<close> show ?thesis by (auto simp: set_display_size_accepts F)
  next
    case False
    with assms True have st: "r" "st' = st\<lparr>g_surface_pixels := Some (sw * sh),
       g_native_window := \<lparr>fb_width = ucast w, fb_height = ucast h\<rparr>,
       g_surface := \<lparr>sg_x = of_nat ((unat w - sw) div 2), sg_y = of_nat ((unat h - sh) div 2),
         sg_width = of_nat sw, sg_height = of_nat sh\<rparr>,
       g_pointer_x := int (sw * 110 div 640), g_pointer_y := int (sh * 150 div 480)\<rparr>"
      by (simp_all add: set_display_size_accepts F)
    have "display_ok st'"
      using B A True p
      by (simp add: st(2) display_ok_def n i window_width_def window_height_def word_less_nat_alt)
        (simp add: Let_def, linarith)
    with False True st(1) F show ?thesis by (simp add: st(2) n)
  qed
qed

lemma set_display_size_ok:
  "display_ok st \<Longrightarrow> display_ok (snd (s3e_host_set_display_size ok w h st))"
  using display_size_accepted[of ok w h st "fst (s3e_host_set_display_size ok w h st)"
      "snd (s3e_host_set_display_size ok w h st)"] by (auto split: if_splits)

text \<open>C15: setting the display size fails and changes nothing when a side is 0 or above 65535 or the
  pixel buffer cannot be had; otherwise the surface is centred in the drawable, fills one of its
  directions, keeps an aspect between 4:3 and 16:9, has a buffer of one pixel per position, and the
  pointer lies inside.\<close>

theorem display_size_fits:
  assumes "s3e_host_set_display_size ok w h st = (r, st')"
  shows "(r \<longleftrightarrow> 0 < unat w \<and> unat w \<le> 65535 \<and> 0 < unat h \<and> unat h \<le> 65535 \<and>
            (case fitted (unat w) (unat h) of (sw, sh) \<Rightarrow> sw * sh \<le> SIZE_MAX div 4 \<and> ok (sw * sh))) \<and>
         (if r then display_ok st' \<and> unat (fb_width (g_native_window st')) = unat w \<and>
                    unat (fb_height (g_native_window st')) = unat h \<and> g_surface_pixels st' \<noteq> None
          else st' = st)"
  using assms by (rule display_size_accepted)

lemma display_size_fits_witness:
  "fst (s3e_host_set_display_size (\<lambda>n. True) 1280 720 display_initial) \<and>
   display_ok (snd (s3e_host_set_display_size (\<lambda>n. True) 1280 720 display_initial))"
  using display_size_fits[of "\<lambda>n. True" 1280 720 display_initial
    "fst (s3e_host_set_display_size (\<lambda>n. True) 1280 720 display_initial)"
    "snd (s3e_host_set_display_size (\<lambda>n. True) 1280 720 display_initial)"]
  by (simp add: fitted_def SIZE_MAX_def)

end
