(* ===== verification/Input.thy ===== *)
theory Input
  imports Display
begin

unbundle bit_operations_syntax

text \<open>
  The input component (\<open>src/s3e_input.c\<close> and the touchpad calls of \<open>src/s3e_runtime.c\<close>): the
  controller behind SDL is polled, and its buttons and sticks become either a cursor with one
  button or the keys and touchpads of the guest's gameplay bindings.

  SDL is code the repository only loads: what it reports at one poll is the record \<open>sdl_env\<close>. The
  guest's callbacks are a function \<open>guest\<close> from the state and the event to the calls the callback
  makes; they run while \<open>g_input_pumping\<close> is set, so the pump inside of such a call returns at
  once. The tail call \<open>dispatch_due_timers\<close> of the two update functions runs timer callbacks,
  whose calls are further inputs of the machine at the end of this theory.
  \<open>in_log\<close> is a history variable that no operation reads: the events raised so far, newest first,
  whether or not a callback is registered for them, and the snapshots of the keyboard.
\<close>

section \<open>Constants\<close>

definition SDL_BUTTON_A :: nat where "SDL_BUTTON_A = 0"
definition SDL_BUTTON_B :: nat where "SDL_BUTTON_B = 1"
definition SDL_BUTTON_X :: nat where "SDL_BUTTON_X = 2"
definition SDL_BUTTON_Y :: nat where "SDL_BUTTON_Y = 3"
definition SDL_BUTTON_BACK :: nat where "SDL_BUTTON_BACK = 4"
definition SDL_BUTTON_START :: nat where "SDL_BUTTON_START = 6"
definition SDL_BUTTON_LEFTSHOULDER :: nat where "SDL_BUTTON_LEFTSHOULDER = 9"
definition SDL_BUTTON_RIGHTSHOULDER :: nat where "SDL_BUTTON_RIGHTSHOULDER = 10"
definition SDL_BUTTON_DPAD_UP :: nat where "SDL_BUTTON_DPAD_UP = 11"
definition SDL_BUTTON_DPAD_DOWN :: nat where "SDL_BUTTON_DPAD_DOWN = 12"
definition SDL_BUTTON_DPAD_LEFT :: nat where "SDL_BUTTON_DPAD_LEFT = 13"
definition SDL_BUTTON_DPAD_RIGHT :: nat where "SDL_BUTTON_DPAD_RIGHT = 14"

definition SDL_AXIS_LEFTX :: nat where "SDL_AXIS_LEFTX = 0"
definition SDL_AXIS_LEFTY :: nat where "SDL_AXIS_LEFTY = 1"
definition SDL_AXIS_RIGHTX :: nat where "SDL_AXIS_RIGHTX = 2"
definition SDL_AXIS_RIGHTY :: nat where "SDL_AXIS_RIGHTY = 3"
definition SDL_AXIS_TRIGGERLEFT :: nat where "SDL_AXIS_TRIGGERLEFT = 4"
definition SDL_AXIS_TRIGGERRIGHT :: nat where "SDL_AXIS_TRIGGERRIGHT = 5"

definition SDL_HAT_UP :: u8 where "SDL_HAT_UP = 1"
definition SDL_HAT_RIGHT :: u8 where "SDL_HAT_RIGHT = 2"
definition SDL_HAT_DOWN :: u8 where "SDL_HAT_DOWN = 4"
definition SDL_HAT_LEFT :: u8 where "SDL_HAT_LEFT = 8"

definition POINTER_STATE_UP :: u8 where "POINTER_STATE_UP = 0"
definition POINTER_STATE_DOWN :: u8 where "POINTER_STATE_DOWN = 1"
definition POINTER_STATE_PRESSED :: u8 where "POINTER_STATE_PRESSED = 2"
definition POINTER_STATE_RELEASED :: u8 where "POINTER_STATE_RELEASED = 4"

definition KEY_STATE_DOWN :: u8 where "KEY_STATE_DOWN = 1"
definition KEY_STATE_PRESSED :: u8 where "KEY_STATE_PRESSED = 2"
definition KEY_STATE_RELEASED :: u8 where "KEY_STATE_RELEASED = 4"

definition KEYBOARD_KEY_COUNT :: nat where "KEYBOARD_KEY_COUNT = 256"
definition TOUCHPAD_COUNT :: nat where "TOUCHPAD_COUNT = 2"
definition CONTROLLER_RESCAN_MS :: u64 where "CONTROLLER_RESCAN_MS = 1000"
definition AXIS_DEADZONE :: int where "AXIS_DEADZONE = 9000"
definition XPERIA_AXIS_DEADZONE :: int where "XPERIA_AXIS_DEADZONE = 6000"
definition TRIGGER_PRESS_THRESHOLD :: int where "TRIGGER_PRESS_THRESHOLD = 16384"
definition TRIGGER_RELEASE_THRESHOLD :: int where "TRIGGER_RELEASE_THRESHOLD = 12288"
definition XPERIA_TOUCHPAD_WIDTH :: int where "XPERIA_TOUCHPAD_WIDTH = 960"
definition XPERIA_TOUCHPAD_HEIGHT :: int where "XPERIA_TOUCHPAD_HEIGHT = 544"

text \<open>The keys a controller control drives (\<open>KEYMAP_*\<close>).\<close>

definition KEYMAP_ACTION :: "nat list" where "KEYMAP_ACTION = [78]"
definition KEYMAP_RELOAD :: "nat list" where "KEYMAP_RELOAD = [126]"
definition KEYMAP_MELEE :: "nat list" where "KEYMAP_MELEE = [89]"
definition KEYMAP_GRENADE :: "nat list" where "KEYMAP_GRENADE = [90]"
definition KEYMAP_AIM :: "nat list" where "KEYMAP_AIM = [74]"
definition KEYMAP_SHOOT :: "nat list" where "KEYMAP_SHOOT = [75]"
definition KEYMAP_TACTICAL :: "nat list" where "KEYMAP_TACTICAL = [10]"
definition KEYMAP_CROUCH :: "nat list" where "KEYMAP_CROUCH = [12]"
definition KEYMAP_ALT_FIRE :: "nat list" where "KEYMAP_ALT_FIRE = [9]"
definition KEYMAP_CHANGE_WEAPON :: "nat list" where "KEYMAP_CHANGE_WEAPON = [11]"
definition KEYMAP_START :: "nat list" where "KEYMAP_START = [72]"

lemmas keymap_defs = KEYMAP_ACTION_def KEYMAP_RELOAD_def KEYMAP_MELEE_def KEYMAP_GRENADE_def
  KEYMAP_AIM_def KEYMAP_SHOOT_def KEYMAP_TACTICAL_def KEYMAP_CROUCH_def KEYMAP_ALT_FIRE_def
  KEYMAP_CHANGE_WEAPON_def KEYMAP_START_def

section \<open>State\<close>

type_synonym ptr = u32

record callback_slot =
  cb_callback :: ptr
  cb_user_data :: ptr

record keyboard_callback_slot =
  kb_id :: u32
  kb_callback :: ptr
  kb_user_data :: ptr

text \<open>The event structures passed to the guest, with the fields in their order.\<close>

datatype input_event =
    Pointer_button int int int int
  | Pointer_motion int int
  | Pointer_touch int int int int
  | Pointer_touch_motion int int int
  | Key_event int int
  | Touchpad_button int int int int
  | Touchpad_motion int int int

text \<open>What the history variable records: an event raised for the guest, or the moments at which the
  guest took a snapshot of the keyboard or cleared it.\<close>

datatype input_log = Raised input_event | Published | Cleared

record input_state = host_display +
  g_pointer_down :: bool
  g_pointer_states :: "u8 list"
  g_cursor_active :: bool
  g_pointer_callbacks :: "callback_slot list"
  g_touchpad_callbacks :: "callback_slot list"
  g_keyboard_callbacks :: "keyboard_callback_slot list"
  g_sdl2 :: bool
  g_sdl_tried :: bool
  g_sdl_initialized :: bool
  g_controller :: ptr
  g_joystick :: ptr
  g_input_pumping :: bool
  g_prev_select :: bool
  g_prev_a :: bool
  g_input_last_ms :: u64
  g_controller_scan_ms :: u64
  g_last_joystick_count :: int
  g_hat_mask :: u8
  g_trigger_down :: "bool list"
  g_keyboard_live :: "u8 list"
  g_keyboard_published :: "u8 list"
  g_touchpad_active :: "bool list"
  g_touchpad_x :: "int list"
  g_touchpad_y :: "int list"
  g_touchpad_state :: "u8 list"
  in_log :: "input_log list"

text \<open>
  What SDL reports during one poll. A pointer is a word, 0 is \<open>NULL\<close>; \<open>sdl_joystick\<close> is 0 for
  every controller and \<open>sdl_hats\<close> is \<open>None\<close> when the optional symbols are missing.
\<close>

record sdl_env =
  sdl_found :: bool
  sdl_symbols_ok :: bool
  sdl_init_ok :: bool
  sdl_now :: u64
  sdl_num_joysticks :: int
  sdl_is_game_controller :: "nat \<Rightarrow> bool"
  sdl_open :: "nat \<Rightarrow> ptr"
  sdl_attached :: "ptr \<Rightarrow> bool"
  sdl_joystick :: "ptr \<Rightarrow> ptr"
  sdl_hats :: "ptr \<Rightarrow> u8 list option"
  sdl_axis :: "ptr \<Rightarrow> nat \<Rightarrow> 16 word"
  sdl_button :: "ptr \<Rightarrow> nat \<Rightarrow> u8"

section \<open>Calls of the guest that need no poll\<close>

definition s3eKeyboardRegister :: "u32 \<Rightarrow> ptr \<Rightarrow> ptr \<Rightarrow> input_state \<Rightarrow> input_state" where
  "s3eKeyboardRegister ident callback user_data st =
     (case find_idx (\<lambda>s. kb_callback s = callback \<and> kb_id s = ident) (g_keyboard_callbacks st) of
        Some i \<Rightarrow> st\<lparr>g_keyboard_callbacks := (g_keyboard_callbacks st)
                   [i := (g_keyboard_callbacks st ! i)\<lparr>kb_user_data := user_data\<rparr>]\<rparr>
      | None \<Rightarrow>
          (case find_idx (\<lambda>s. kb_callback s = 0) (g_keyboard_callbacks st) of
             None \<Rightarrow> st
           | Some i \<Rightarrow> st\<lparr>g_keyboard_callbacks := (g_keyboard_callbacks st)
                   [i := \<lparr>kb_id = ident, kb_callback = callback, kb_user_data = user_data\<rparr>]\<rparr>))"

definition unregister_slot :: "u32 \<Rightarrow> ptr \<Rightarrow> keyboard_callback_slot \<Rightarrow> keyboard_callback_slot" where
  "unregister_slot ident callback s =
     (if kb_callback s \<noteq> 0 \<and> kb_id s = ident \<and> (callback = 0 \<or> callback = kb_callback s)
      then s\<lparr>kb_callback := 0, kb_user_data := 0\<rparr> else s)"

definition s3eKeyboardUnRegister :: "u32 \<Rightarrow> ptr \<Rightarrow> input_state \<Rightarrow> input_state" where
  "s3eKeyboardUnRegister ident callback st =
     st\<lparr>g_keyboard_callbacks := map (unregister_slot ident callback) (g_keyboard_callbacks st)\<rparr>"

definition set_slot :: "u32 \<Rightarrow> ptr \<Rightarrow> ptr \<Rightarrow> callback_slot list \<Rightarrow> callback_slot list" where
  "set_slot ident callback user_data slots =
     (if unat ident < length slots
      then slots[unat ident := \<lparr>cb_callback = callback, cb_user_data = user_data\<rparr>] else slots)"

definition clear_slot :: "u32 \<Rightarrow> ptr \<Rightarrow> callback_slot list \<Rightarrow> callback_slot list" where
  "clear_slot ident callback slots =
     (if unat ident < length slots \<and> (callback = 0 \<or> callback = cb_callback (slots ! unat ident))
      then slots[unat ident := \<lparr>cb_callback = 0, cb_user_data = 0\<rparr>] else slots)"

definition s3ePointerRegister :: "u32 \<Rightarrow> ptr \<Rightarrow> ptr \<Rightarrow> input_state \<Rightarrow> input_state" where
  "s3ePointerRegister ident callback user_data st =
     st\<lparr>g_pointer_callbacks := set_slot ident callback user_data (g_pointer_callbacks st)\<rparr>"

definition s3ePointerUnRegister :: "u32 \<Rightarrow> ptr \<Rightarrow> input_state \<Rightarrow> input_state" where
  "s3ePointerUnRegister ident callback st =
     st\<lparr>g_pointer_callbacks := clear_slot ident callback (g_pointer_callbacks st)\<rparr>"

definition s3eTouchpadRegister :: "u32 \<Rightarrow> ptr \<Rightarrow> ptr \<Rightarrow> input_state \<Rightarrow> input_state" where
  "s3eTouchpadRegister ident callback user_data st =
     st\<lparr>g_touchpad_callbacks := set_slot ident callback user_data (g_touchpad_callbacks st)\<rparr>"

definition s3eTouchpadUnRegister :: "u32 \<Rightarrow> ptr \<Rightarrow> input_state \<Rightarrow> input_state" where
  "s3eTouchpadUnRegister ident callback st =
     st\<lparr>g_touchpad_callbacks := clear_slot ident callback (g_touchpad_callbacks st)\<rparr>"

definition input_reset_triggers :: "input_state \<Rightarrow> input_state" where
  "input_reset_triggers st = st\<lparr>g_trigger_down := [False, False]\<rparr>"

definition s3eKeyboardClearState :: "input_state \<Rightarrow> input_state" where
  "s3eKeyboardClearState st =
     input_reset_triggers (st\<lparr>g_keyboard_live := replicate KEYBOARD_KEY_COUNT 0,
       g_keyboard_published := replicate KEYBOARD_KEY_COUNT 0, in_log := Cleared # in_log st\<rparr>)"

definition keyboard_publish :: "input_state \<Rightarrow> input_state" where
  "keyboard_publish st = st\<lparr>g_keyboard_published := g_keyboard_live st,
     g_keyboard_live := map (\<lambda>k. k AND NOT (KEY_STATE_PRESSED OR KEY_STATE_RELEASED)) (g_keyboard_live st),
     in_log := Published # in_log st\<rparr>"

definition settle_state :: "u8 \<Rightarrow> u8" where
  "settle_state s = (if s = POINTER_STATE_PRESSED then POINTER_STATE_DOWN
     else if s = POINTER_STATE_RELEASED then POINTER_STATE_UP else s)"

definition pointer_clear_transitions :: "input_state \<Rightarrow> input_state" where
  "pointer_clear_transitions st = st\<lparr>g_pointer_states := map settle_state (g_pointer_states st),
     g_touchpad_state := map settle_state (g_touchpad_state st)\<rparr>"

section \<open>Callbacks into the guest\<close>

datatype input_call =
    Keyboard_Register u32 ptr ptr
  | Keyboard_UnRegister u32 ptr
  | Keyboard_ClearState
  | Keyboard_Update_pumping
  | Pointer_Register u32 ptr ptr
  | Pointer_UnRegister u32 ptr
  | Pointer_Update_pumping
  | Touchpad_Register u32 ptr ptr
  | Touchpad_UnRegister u32 ptr

fun input_call_step :: "input_call \<Rightarrow> input_state \<Rightarrow> input_state" where
  "input_call_step (Keyboard_Register ident cb ud) st = s3eKeyboardRegister ident cb ud st"
| "input_call_step (Keyboard_UnRegister ident cb) st = s3eKeyboardUnRegister ident cb st"
| "input_call_step Keyboard_ClearState st = s3eKeyboardClearState st"
| "input_call_step Keyboard_Update_pumping st = keyboard_publish st"
| "input_call_step (Pointer_Register ident cb ud) st = s3ePointerRegister ident cb ud st"
| "input_call_step (Pointer_UnRegister ident cb) st = s3ePointerUnRegister ident cb st"
| "input_call_step Pointer_Update_pumping st = pointer_clear_transitions st"
| "input_call_step (Touchpad_Register ident cb ud) st = s3eTouchpadRegister ident cb ud st"
| "input_call_step (Touchpad_UnRegister ident cb) st = s3eTouchpadUnRegister ident cb st"

type_synonym in_guest = "input_state \<Rightarrow> ptr \<Rightarrow> ptr \<Rightarrow> input_event \<Rightarrow> input_call list"

definition run_callback :: "in_guest \<Rightarrow> ptr \<Rightarrow> ptr \<Rightarrow> input_event \<Rightarrow> input_state \<Rightarrow> input_state" where
  "run_callback guest callback user_data ev st =
     fold input_call_step (guest st callback user_data ev) st"

definition raise_event :: "input_event \<Rightarrow> input_state \<Rightarrow> input_state" where
  "raise_event ev st = st\<lparr>in_log := Raised ev # in_log st\<rparr>"

definition pointer_dispatch :: "in_guest \<Rightarrow> nat \<Rightarrow> input_event \<Rightarrow> input_state \<Rightarrow> input_state" where
  "pointer_dispatch guest ident ev st =
     (let st = raise_event ev st in
      if ident \<ge> length (g_pointer_callbacks st) then st
      else let slot = g_pointer_callbacks st ! ident in
        if cb_callback slot = 0 then st
        else run_callback guest (cb_callback slot) (cb_user_data slot) ev st)"

definition touchpad_dispatch :: "in_guest \<Rightarrow> nat \<Rightarrow> input_event \<Rightarrow> input_state \<Rightarrow> input_state" where
  "touchpad_dispatch guest ident ev st =
     (let st = raise_event ev st in
      if ident \<ge> length (g_touchpad_callbacks st) then st
      else let slot = g_touchpad_callbacks st ! ident in
        if cb_callback slot = 0 then st
        else run_callback guest (cb_callback slot) (cb_user_data slot) ev st)"

definition keyboard_dispatch_slot :: "in_guest \<Rightarrow> input_event \<Rightarrow> nat \<Rightarrow> input_state \<Rightarrow> input_state" where
  "keyboard_dispatch_slot guest ev i st =
     (let slot = g_keyboard_callbacks st ! i in
      if kb_callback slot \<noteq> 0 \<and> kb_id slot = 0
      then run_callback guest (kb_callback slot) (kb_user_data slot) ev st else st)"

definition keyboard_dispatch_event :: "in_guest \<Rightarrow> nat \<Rightarrow> bool \<Rightarrow> input_state \<Rightarrow> input_state" where
  "keyboard_dispatch_event guest key pressed st =
     (let ev = Key_event (int key) (if pressed then 1 else 0)
      in fold (keyboard_dispatch_slot guest ev) [0..<length (g_keyboard_callbacks st)] (raise_event ev st))"

section \<open>Pointer, keyboard and touchpads\<close>

definition pointer_set_down :: "bool \<Rightarrow> input_state \<Rightarrow> input_state" where
  "pointer_set_down down st =
     (if down then st\<lparr>g_pointer_states := (g_pointer_states st)
            [0 := if g_pointer_down st then POINTER_STATE_DOWN else POINTER_STATE_PRESSED],
          g_pointer_down := True\<rparr>
      else st\<lparr>g_pointer_states := (g_pointer_states st)
            [0 := if g_pointer_down st then POINTER_STATE_RELEASED else POINTER_STATE_UP],
          g_pointer_down := False\<rparr>)"

definition pointer_dispatch_button :: "in_guest \<Rightarrow> nat \<Rightarrow> bool \<Rightarrow> input_state \<Rightarrow> input_state" where
  "pointer_dispatch_button guest button pressed st =
     (let p = if pressed then 1 else 0; x = g_pointer_x st; y = g_pointer_y st;
          st = pointer_dispatch guest 0 (Pointer_button (int button) p x y) st
      in pointer_dispatch guest 2 (Pointer_touch (int button) p x y) st)"

definition pointer_dispatch_motion :: "in_guest \<Rightarrow> input_state \<Rightarrow> input_state" where
  "pointer_dispatch_motion guest st =
     (let x = g_pointer_x st; y = g_pointer_y st;
          st = pointer_dispatch guest 1 (Pointer_motion x y) st
      in pointer_dispatch guest 3 (Pointer_touch_motion 0 x y) st)"

definition input_release_pointer :: "in_guest \<Rightarrow> input_state \<Rightarrow> input_state" where
  "input_release_pointer guest st =
     (if g_pointer_down st then pointer_dispatch_button guest 0 False (pointer_set_down False st) else st)"

definition keyboard_set_key :: "in_guest \<Rightarrow> nat \<Rightarrow> bool \<Rightarrow> bool \<Rightarrow> input_state \<Rightarrow> input_state" where
  "keyboard_set_key guest key down dispatch_callback st =
     (if key \<ge> KEYBOARD_KEY_COUNT then st
      else let live = g_keyboard_live st ! key; was_down = (live AND KEY_STATE_DOWN \<noteq> 0) in
        if was_down = down then st
        else let live' = (if down then live OR (KEY_STATE_DOWN OR KEY_STATE_PRESSED)
                          else (live AND NOT KEY_STATE_DOWN) OR KEY_STATE_RELEASED);
                 st = st\<lparr>g_keyboard_live := (g_keyboard_live st)[key := live']\<rparr>
             in if dispatch_callback then keyboard_dispatch_event guest key down st else st)"

definition keyboard_set_keys :: "in_guest \<Rightarrow> nat list \<Rightarrow> bool \<Rightarrow> bool \<Rightarrow> input_state \<Rightarrow> input_state" where
  "keyboard_set_keys guest keys down dispatch_callback st =
     fold (\<lambda>key. keyboard_set_key guest key down dispatch_callback) keys st"

definition game_action_apply :: "in_guest \<Rightarrow> bool \<Rightarrow> nat list \<Rightarrow> input_state \<Rightarrow> input_state" where
  "game_action_apply guest down keys st = keyboard_set_keys guest keys down True st"

definition release_key :: "in_guest \<Rightarrow> nat \<Rightarrow> input_state \<Rightarrow> input_state" where
  "release_key guest key st =
     (if g_keyboard_live st ! key AND KEY_STATE_DOWN \<noteq> 0 then keyboard_set_key guest key False True st
      else st)"

definition keyboard_release_all :: "in_guest \<Rightarrow> input_state \<Rightarrow> input_state" where
  "keyboard_release_all guest st = fold (release_key guest) [0..<KEYBOARD_KEY_COUNT] st"

definition touchpad_dispatch_button :: "in_guest \<Rightarrow> nat \<Rightarrow> int \<Rightarrow> int \<Rightarrow> int \<Rightarrow> input_state \<Rightarrow> input_state" where
  "touchpad_dispatch_button guest ident pressed x y st =
     touchpad_dispatch guest 0 (Touchpad_button (int ident) pressed x y) st"

definition touchpad_dispatch_motion :: "in_guest \<Rightarrow> nat \<Rightarrow> int \<Rightarrow> int \<Rightarrow> input_state \<Rightarrow> input_state" where
  "touchpad_dispatch_motion guest ident x y st =
     touchpad_dispatch guest 1 (Touchpad_motion (int ident) x y) st"

definition touchpad_release :: "in_guest \<Rightarrow> nat \<Rightarrow> input_state \<Rightarrow> input_state" where
  "touchpad_release guest ident st =
     (if ident \<ge> TOUCHPAD_COUNT \<or> \<not> g_touchpad_active st ! ident then st
      else touchpad_dispatch_button guest ident 0 (g_touchpad_x st ! ident) (g_touchpad_y st ! ident)
        (st\<lparr>g_touchpad_active := (g_touchpad_active st)[ident := False],
           g_touchpad_state := (g_touchpad_state st)[ident := POINTER_STATE_RELEASED]\<rparr>))"

definition touchpad_release_all :: "in_guest \<Rightarrow> input_state \<Rightarrow> input_state" where
  "touchpad_release_all guest st = fold (touchpad_release guest) [0..<TOUCHPAD_COUNT] st"

definition clamp_value :: "int \<Rightarrow> int \<Rightarrow> int" where
  "clamp_value v upper_exclusive =
     (if v < 0 then 0 else if v \<ge> upper_exclusive then upper_exclusive - 1 else v)"

definition clamp_pointer_x :: "int \<Rightarrow> input_state \<Rightarrow> int" where
  "clamp_pointer_x x st = clamp_value x (window_width st)"

definition clamp_pointer_y :: "int \<Rightarrow> input_state \<Rightarrow> int" where
  "clamp_pointer_y y st = clamp_value y (window_height st)"

definition touchpad_x_from_axis :: "int \<Rightarrow> int \<Rightarrow> int \<Rightarrow> int" where
  "touchpad_x_from_axis center radius axis =
     clamp_value (center + i32 (c_div (axis * radius) 32767)) XPERIA_TOUCHPAD_WIDTH"

definition touchpad_y_from_axis :: "int \<Rightarrow> int \<Rightarrow> int \<Rightarrow> int" where
  "touchpad_y_from_axis center radius axis =
     clamp_value (center + i32 (c_div (axis * radius) 32767)) XPERIA_TOUCHPAD_HEIGHT"

definition touchpad_update_stick ::
  "in_guest \<Rightarrow> nat \<Rightarrow> int \<Rightarrow> int \<Rightarrow> int \<Rightarrow> int \<Rightarrow> int \<Rightarrow> int \<Rightarrow> input_state \<Rightarrow> input_state" where
  "touchpad_update_stick guest ident x_axis y_axis center_x center_y radius_x radius_y st =
     (if ident \<ge> TOUCHPAD_COUNT then st
      else if x_axis = 0 \<and> y_axis = 0 then touchpad_release guest ident st
      else let x = touchpad_x_from_axis center_x radius_x x_axis;
               y = touchpad_y_from_axis center_y radius_y y_axis
           in if \<not> g_touchpad_active st ! ident then
                touchpad_dispatch_button guest ident 1 x y (touchpad_dispatch_motion guest ident x y
                  (st\<lparr>g_touchpad_active := (g_touchpad_active st)[ident := True],
                     g_touchpad_x := (g_touchpad_x st)[ident := x], g_touchpad_y := (g_touchpad_y st)[ident := y],
                     g_touchpad_state := (g_touchpad_state st)[ident := POINTER_STATE_PRESSED]\<rparr>))
              else if g_touchpad_x st ! ident \<noteq> x \<or> g_touchpad_y st ! ident \<noteq> y then
                touchpad_dispatch_motion guest ident x y
                  (st\<lparr>g_touchpad_x := (g_touchpad_x st)[ident := x], g_touchpad_y := (g_touchpad_y st)[ident := y]\<rparr>)
              else st)"

section \<open>Reading the controller\<close>

definition input_current_hat_mask :: "sdl_env \<Rightarrow> input_state \<Rightarrow> u8" where
  "input_current_hat_mask env st =
     (if g_joystick st = 0 then 0
      else case sdl_hats env (g_joystick st) of None \<Rightarrow> 0
        | Some hats \<Rightarrow> fold (\<lambda>h acc. acc OR h) hats 0)"

definition input_button :: "sdl_env \<Rightarrow> nat \<Rightarrow> input_state \<Rightarrow> bool" where
  "input_button env button st \<longleftrightarrow> g_controller st \<noteq> 0 \<and> sdl_button env (g_controller st) button \<noteq> 0"

definition input_axis_raw :: "sdl_env \<Rightarrow> nat \<Rightarrow> input_state \<Rightarrow> int" where
  "input_axis_raw env axis st = (if g_controller st = 0 then 0 else sint (sdl_axis env (g_controller st) axis))"

definition input_trigger :: "sdl_env \<Rightarrow> nat \<Rightarrow> nat \<Rightarrow> input_state \<Rightarrow> bool \<times> input_state" where
  "input_trigger env axis trigger st =
     (let v = input_axis_raw env axis st;
          d = (if g_trigger_down st ! trigger then \<not> v < TRIGGER_RELEASE_THRESHOLD
               else v > TRIGGER_PRESS_THRESHOLD)
      in (d, st\<lparr>g_trigger_down := (g_trigger_down st)[trigger := d]\<rparr>))"

definition input_hat :: "u8 \<Rightarrow> input_state \<Rightarrow> bool" where
  "input_hat hat st \<longleftrightarrow> g_hat_mask st AND hat \<noteq> 0"

definition input_dpad_up :: "sdl_env \<Rightarrow> input_state \<Rightarrow> bool" where
  "input_dpad_up env st \<longleftrightarrow> input_button env SDL_BUTTON_DPAD_UP st \<or> input_hat SDL_HAT_UP st"

definition input_dpad_down :: "sdl_env \<Rightarrow> input_state \<Rightarrow> bool" where
  "input_dpad_down env st \<longleftrightarrow> input_button env SDL_BUTTON_DPAD_DOWN st \<or> input_hat SDL_HAT_DOWN st"

definition input_dpad_left :: "sdl_env \<Rightarrow> input_state \<Rightarrow> bool" where
  "input_dpad_left env st \<longleftrightarrow> input_button env SDL_BUTTON_DPAD_LEFT st \<or> input_hat SDL_HAT_LEFT st"

definition input_dpad_right :: "sdl_env \<Rightarrow> input_state \<Rightarrow> bool" where
  "input_dpad_right env st \<longleftrightarrow> input_button env SDL_BUTTON_DPAD_RIGHT st \<or> input_hat SDL_HAT_RIGHT st"

definition input_axis_deadzone :: "sdl_env \<Rightarrow> nat \<Rightarrow> int \<Rightarrow> input_state \<Rightarrow> int" where
  "input_axis_deadzone env axis deadzone st =
     (let v = input_axis_raw env axis st in if v < - deadzone \<or> v > deadzone then v else 0)"

definition input_axis :: "sdl_env \<Rightarrow> nat \<Rightarrow> input_state \<Rightarrow> int" where
  "input_axis env axis st = input_axis_deadzone env axis AXIS_DEADZONE st"

definition input_xperia_axis :: "sdl_env \<Rightarrow> nat \<Rightarrow> input_state \<Rightarrow> int" where
  "input_xperia_axis env axis st = input_axis_deadzone env axis XPERIA_AXIS_DEADZONE st"

section \<open>Cursor mode and game mode\<close>

definition cursor_axes :: "sdl_env \<Rightarrow> input_state \<Rightarrow> int \<times> int" where
  "cursor_axes env st =
     (if input_dpad_left env st then -32767 else if input_dpad_right env st then 32767
      else input_axis env SDL_AXIS_LEFTX st,
      if input_dpad_up env st then -32767 else if input_dpad_down env st then 32767
      else input_axis env SDL_AXIS_LEFTY st)"

definition cursor_step :: "int \<Rightarrow> u64 \<Rightarrow> int \<Rightarrow> int" where
  "cursor_step axis dt speed = i32 (c_div (c_div (axis * uint dt * speed) 32767) 1000)"

definition cursor_motion :: "sdl_env \<Rightarrow> in_guest \<Rightarrow> u64 \<Rightarrow> input_state \<Rightarrow> input_state" where
  "cursor_motion env guest dt st =
     (let (x_axis, y_axis) = cursor_axes env st in
      if x_axis \<noteq> 0 \<or> y_axis \<noteq> 0 then
        let x_speed = i32 (c_div (900 * window_width st) 640);
            y_speed = i32 (c_div (900 * window_height st) 480);
            x = clamp_pointer_x (g_pointer_x st + cursor_step x_axis dt x_speed) st;
            y = clamp_pointer_y (g_pointer_y st + cursor_step y_axis dt y_speed) st;
            st' = st\<lparr>g_pointer_x := x, g_pointer_y := y\<rparr>
        in if x \<noteq> g_pointer_x st \<or> y \<noteq> g_pointer_y st then pointer_dispatch_motion guest st' else st'
      else st)"

definition input_update_cursor :: "sdl_env \<Rightarrow> in_guest \<Rightarrow> u64 \<Rightarrow> input_state \<Rightarrow> input_state" where
  "input_update_cursor env guest dt st =
     (let st = cursor_motion env guest dt st;
          a = input_button env SDL_BUTTON_A st;
          st = (if a \<noteq> g_prev_a st then pointer_dispatch_button guest 0 a (pointer_set_down a st) else st)
      in st\<lparr>g_prev_a := a\<rparr>)"

text \<open>A shoulder button or, when it is up, the trigger beside it (C's \<open>||\<close> reads it only then).\<close>

definition shoulder_or_trigger ::
  "sdl_env \<Rightarrow> in_guest \<Rightarrow> nat \<Rightarrow> nat \<Rightarrow> nat \<Rightarrow> nat list \<Rightarrow> input_state \<Rightarrow> input_state" where
  "shoulder_or_trigger env guest button axis trigger keys st =
     (if input_button env button st then game_action_apply guest True keys st
      else let (d, st) = input_trigger env axis trigger st in game_action_apply guest d keys st)"

definition input_update_game_keys :: "sdl_env \<Rightarrow> in_guest \<Rightarrow> input_state \<Rightarrow> input_state" where
  "input_update_game_keys env guest st =
     (let st = st\<lparr>g_prev_a := input_button env SDL_BUTTON_A st\<rparr>;
          st = game_action_apply guest (input_button env SDL_BUTTON_A st) KEYMAP_ACTION st;
          st = game_action_apply guest (input_button env SDL_BUTTON_B st) KEYMAP_RELOAD st;
          st = game_action_apply guest (input_button env SDL_BUTTON_X st) KEYMAP_MELEE st;
          st = game_action_apply guest (input_button env SDL_BUTTON_Y st) KEYMAP_GRENADE st;
          st = shoulder_or_trigger env guest SDL_BUTTON_LEFTSHOULDER SDL_AXIS_TRIGGERLEFT 0 KEYMAP_AIM st;
          st = shoulder_or_trigger env guest SDL_BUTTON_RIGHTSHOULDER SDL_AXIS_TRIGGERRIGHT 1 KEYMAP_SHOOT st;
          st = game_action_apply guest (input_button env SDL_BUTTON_START st) KEYMAP_START st;
          st = game_action_apply guest (input_dpad_up env st) KEYMAP_TACTICAL st;
          st = game_action_apply guest (input_dpad_down env st) KEYMAP_CROUCH st;
          st = game_action_apply guest (input_dpad_left env st) KEYMAP_ALT_FIRE st
      in game_action_apply guest (input_dpad_right env st) KEYMAP_CHANGE_WEAPON st)"

definition input_update_game_touchpads :: "sdl_env \<Rightarrow> in_guest \<Rightarrow> input_state \<Rightarrow> input_state" where
  "input_update_game_touchpads env guest st =
     (let width = XPERIA_TOUCHPAD_WIDTH; height = XPERIA_TOUCHPAD_HEIGHT;
          center_y = c_div height 2; look_radius = c_div width 8;
          st = touchpad_update_stick guest 0 (input_xperia_axis env SDL_AXIS_LEFTX st)
                 (input_xperia_axis env SDL_AXIS_LEFTY st) (c_div width 5) center_y (c_div width 5)
                 (c_div height 2) st
      in touchpad_update_stick guest 1 (input_xperia_axis env SDL_AXIS_RIGHTX st)
           (input_xperia_axis env SDL_AXIS_RIGHTY st) (c_div (width * 4) 5) center_y look_radius
           look_radius st)"

section \<open>The controller and the pump\<close>

fun scan_joysticks :: "sdl_env \<Rightarrow> nat list \<Rightarrow> input_state \<Rightarrow> input_state" where
  "scan_joysticks env [] st = st"
| "scan_joysticks env (i # is) st =
     (if \<not> sdl_is_game_controller env i then scan_joysticks env is st
      else let st = st\<lparr>g_controller := sdl_open env i\<rparr> in
        if g_controller st = 0 then scan_joysticks env is st
        else st\<lparr>g_joystick := sdl_joystick env (g_controller st)\<rparr>)"

definition input_scan_controllers :: "sdl_env \<Rightarrow> input_state \<Rightarrow> input_state" where
  "input_scan_controllers env st =
     scan_joysticks env [0..<nat (sdl_num_joysticks env)] (st\<lparr>g_last_joystick_count := sdl_num_joysticks env\<rparr>)"

definition input_open :: "sdl_env \<Rightarrow> input_state \<Rightarrow> input_state" where
  "input_open env st =
     (if g_sdl_tried st then st
      else let st = st\<lparr>g_sdl_tried := True, g_sdl2 := sdl_found env\<rparr> in
        if \<not> sdl_found env \<or> \<not> sdl_symbols_ok env \<or> \<not> sdl_init_ok env then st
        else st\<lparr>g_sdl_initialized := True\<rparr>)"

definition input_close_controller :: "in_guest \<Rightarrow> input_state \<Rightarrow> input_state" where
  "input_close_controller guest st =
     (let st = input_reset_triggers (keyboard_release_all guest (touchpad_release_all guest
                 (input_release_pointer guest st)))
      in st\<lparr>g_prev_select := False, g_prev_a := False, g_input_last_ms := 0, g_hat_mask := 0,
           g_controller := 0, g_joystick := 0\<rparr>)"

definition input_refresh_controller :: "sdl_env \<Rightarrow> in_guest \<Rightarrow> u64 \<Rightarrow> input_state \<Rightarrow> input_state" where
  "input_refresh_controller env guest now st =
     (let st = (if g_controller st \<noteq> 0 \<and> \<not> sdl_attached env (g_controller st)
                then (input_close_controller guest st)\<lparr>g_controller_scan_ms := 0, g_last_joystick_count := -1\<rparr>
                else st)
      in if g_controller st = 0 \<and>
            (g_controller_scan_ms st = 0 \<or> now - g_controller_scan_ms st \<ge> CONTROLLER_RESCAN_MS)
         then input_scan_controllers env (st\<lparr>g_controller_scan_ms := now\<rparr>) else st)"

definition toggle_cursor :: "in_guest \<Rightarrow> bool \<Rightarrow> input_state \<Rightarrow> input_state" where
  "toggle_cursor guest sel st =
     (let st = (if sel \<and> \<not> g_prev_select st then
                  let st' = (if g_cursor_active st then input_release_pointer guest st
                             else input_reset_triggers (keyboard_release_all guest (touchpad_release_all guest st)))
                  in st'\<lparr>g_cursor_active := \<not> g_cursor_active st'\<rparr>
                else st)
      in st\<lparr>g_prev_select := sel\<rparr>)"

definition apply_mode :: "sdl_env \<Rightarrow> in_guest \<Rightarrow> u64 \<Rightarrow> input_state \<Rightarrow> input_state" where
  "apply_mode env guest dt st =
     (if g_cursor_active st
      then input_update_cursor env guest dt
             (input_reset_triggers (keyboard_release_all guest (touchpad_release_all guest st)))
      else input_update_game_keys env guest (input_update_game_touchpads env guest
             (input_release_pointer guest st)))"

definition pump_clock :: "u64 \<Rightarrow> input_state \<Rightarrow> u64 \<times> input_state" where
  "pump_clock now st =
     (let last_ms = (if g_input_last_ms st = 0 then now else g_input_last_ms st);
          dt = now - last_ms
      in (if dt > 50 then 50 else dt, st\<lparr>g_input_last_ms := now\<rparr>))"

definition input_pump :: "sdl_env \<Rightarrow> in_guest \<Rightarrow> input_state \<Rightarrow> input_state" where
  "input_pump env guest st =
     (if g_input_pumping st then st
      else
        let st = input_open env (st\<lparr>g_input_pumping := True\<rparr>);
            st = (if \<not> g_sdl_initialized st then st
                  else let st = input_refresh_controller env guest (sdl_now env) st in
                    if g_controller st = 0 then st
                    else let st = st\<lparr>g_hat_mask := input_current_hat_mask env st\<rparr>;
                             (dt, st) = pump_clock (sdl_now env) st;
                             st = toggle_cursor guest (input_button env SDL_BUTTON_BACK st) st
                         in apply_mode env guest dt st)
        in st\<lparr>g_input_pumping := False\<rparr>)"

definition input_shutdown :: "in_guest \<Rightarrow> input_state \<Rightarrow> input_state" where
  "input_shutdown guest st =
     (input_close_controller guest st)\<lparr>g_sdl2 := False, g_sdl_tried := False, g_sdl_initialized := False,
       g_input_pumping := False, g_controller_scan_ms := 0, g_last_joystick_count := -1\<rparr>"

section \<open>The guest's interface\<close>

definition s3eKeyboardUpdate :: "sdl_env \<Rightarrow> in_guest \<Rightarrow> input_state \<Rightarrow> input_state" where
  "s3eKeyboardUpdate env guest st = keyboard_publish (input_pump env guest st)"

definition s3ePointerUpdate :: "sdl_env \<Rightarrow> in_guest \<Rightarrow> input_state \<Rightarrow> input_state" where
  "s3ePointerUpdate env guest st = input_pump env guest (pointer_clear_transitions st)"

definition keyboard_abs_target :: "nat \<Rightarrow> nat" where
  "keyboard_abs_target key =
     (if key = 200 then 28 else if key = 201 then 40 else if key = 202 then 29
      else if key = 203 then 44 else if key = 204 then 42 else if key = 205 then 48
      else if key = 206 then 18 else if key = 207 then 14 else if key = 208 then 28
      else if key = 209 then 72 else if key = 210 then 40 else key)"

definition s3eKeyboardGetState :: "u32 \<Rightarrow> input_state \<Rightarrow> u8" where
  "s3eKeyboardGetState key st =
     (let target = keyboard_abs_target (unat key)
      in if target < KEYBOARD_KEY_COUNT then g_keyboard_published st ! target else 0)"

definition s3eKeyboardAnyKey :: "input_state \<Rightarrow> nat" where
  "s3eKeyboardAnyKey st =
     (case find_idx (\<lambda>k. k AND KEY_STATE_PRESSED \<noteq> 0) (g_keyboard_published st) of
        Some i \<Rightarrow> i | None \<Rightarrow> 0)"

definition s3eKeyboardGetInt :: "u32 \<Rightarrow> int" where
  "s3eKeyboardGetInt key = (if key = 0 \<or> key = 2 then 1 else if key \<in> {1, 4, 5, 6} then 0 else -1)"

definition s3ePointerGetInt :: "sdl_env \<Rightarrow> in_guest \<Rightarrow> u32 \<Rightarrow> input_state \<Rightarrow> int \<times> input_state" where
  "s3ePointerGetInt env guest key st =
     (let st = input_pump env guest st
      in (if key = 0 then 1 else if key = 1 then g_pointer_x st else if key = 2 then g_pointer_y st else 0, st))"

definition s3ePointerGetState :: "sdl_env \<Rightarrow> in_guest \<Rightarrow> u32 \<Rightarrow> input_state \<Rightarrow> u8 \<times> input_state" where
  "s3ePointerGetState env guest button st =
     (let st = input_pump env guest st
      in (if unat button < length (g_pointer_states st) then g_pointer_states st ! unat button else 0, st))"

definition s3ePointerGetX :: "sdl_env \<Rightarrow> in_guest \<Rightarrow> input_state \<Rightarrow> int \<times> input_state" where
  "s3ePointerGetX env guest st = (let st = input_pump env guest st in (g_pointer_x st, st))"

definition s3ePointerGetY :: "sdl_env \<Rightarrow> in_guest \<Rightarrow> input_state \<Rightarrow> int \<times> input_state" where
  "s3ePointerGetY env guest st = (let st = input_pump env guest st in (g_pointer_y st, st))"

definition s3ePointerGetTouchState :: "sdl_env \<Rightarrow> in_guest \<Rightarrow> u32 \<Rightarrow> input_state \<Rightarrow> u8 \<times> input_state" where
  "s3ePointerGetTouchState env guest touch_id st =
     (let st = input_pump env guest st
      in (if g_cursor_active st \<and> touch_id = 0 then g_pointer_states st ! 0 else 0, st))"

definition s3ePointerGetTouchX :: "sdl_env \<Rightarrow> in_guest \<Rightarrow> u32 \<Rightarrow> input_state \<Rightarrow> int \<times> input_state" where
  "s3ePointerGetTouchX env guest touch_id st =
     (let st = input_pump env guest st
      in (if g_cursor_active st \<and> touch_id = 0 then g_pointer_x st else 0, st))"

definition s3ePointerGetTouchY :: "sdl_env \<Rightarrow> in_guest \<Rightarrow> u32 \<Rightarrow> input_state \<Rightarrow> int \<times> input_state" where
  "s3ePointerGetTouchY env guest touch_id st =
     (let st = input_pump env guest st
      in (if g_cursor_active st \<and> touch_id = 0 then g_pointer_y st else 0, st))"

definition s3ePointerGetPressure :: "sdl_env \<Rightarrow> in_guest \<Rightarrow> u32 \<Rightarrow> input_state \<Rightarrow> int \<times> input_state" where
  "s3ePointerGetPressure env guest button st =
     (let st = input_pump env guest st
      in (if button = 0 \<and> g_pointer_down st then 1 else 0, st))"

definition s3ePointerGetTouchPressure :: "sdl_env \<Rightarrow> in_guest \<Rightarrow> u32 \<Rightarrow> input_state \<Rightarrow> int \<times> input_state" where
  "s3ePointerGetTouchPressure env guest touch_id st =
     (let st = input_pump env guest st
      in (if g_cursor_active st \<and> touch_id = 0 \<and> g_pointer_down st then 1 else 0, st))"

definition s3eTouchpadGetInt :: "u32 \<Rightarrow> int" where
  "s3eTouchpadGetInt key =
     (if key = 0 then 1 else if key = 1 then XPERIA_TOUCHPAD_WIDTH
      else if key = 2 then XPERIA_TOUCHPAD_HEIGHT else -1)"

section \<open>The machine\<close>

definition input_initial :: input_state where
  "input_initial = host_display.extend display_initial
     \<lparr>g_pointer_down = False, g_pointer_states = replicate 5 0, g_cursor_active = True,
      g_pointer_callbacks = replicate 4 \<lparr>cb_callback = 0, cb_user_data = 0\<rparr>,
      g_touchpad_callbacks = replicate 8 \<lparr>cb_callback = 0, cb_user_data = 0\<rparr>,
      g_keyboard_callbacks = replicate 16 \<lparr>kb_id = 0, kb_callback = 0, kb_user_data = 0\<rparr>,
      g_sdl2 = False, g_sdl_tried = False, g_sdl_initialized = False, g_controller = 0, g_joystick = 0,
      g_input_pumping = False, g_prev_select = False, g_prev_a = False, g_input_last_ms = 0,
      g_controller_scan_ms = 0, g_last_joystick_count = -1, g_hat_mask = 0,
      g_trigger_down = [False, False], g_keyboard_live = replicate KEYBOARD_KEY_COUNT 0,
      g_keyboard_published = replicate KEYBOARD_KEY_COUNT 0, g_touchpad_active = [False, False],
      g_touchpad_x = [0, 0], g_touchpad_y = [0, 0], g_touchpad_state = [0, 0], in_log = []\<rparr>"

datatype input_input =
    Input_call input_call
  | Input_pump sdl_env
  | Keyboard_update sdl_env
  | Pointer_update sdl_env
  | Set_display "nat \<Rightarrow> bool" u32 u32
  | Input_shutdown

fun input_step :: "in_guest \<Rightarrow> input_input \<Rightarrow> input_state \<Rightarrow> input_state" where
  "input_step guest (Input_call c) st = input_call_step c st"
| "input_step guest (Input_pump env) st = input_pump env guest st"
| "input_step guest (Keyboard_update env) st = s3eKeyboardUpdate env guest st"
| "input_step guest (Pointer_update env) st = s3ePointerUpdate env guest st"
| "input_step guest (Set_display ok w h) st = snd (s3e_host_set_display_size ok w h st)"
| "input_step guest Input_shutdown st = input_shutdown guest st"

end
