(* ===== verification/Input_Inv.thy ===== *)
theory Input_Inv
  imports Input
begin

text \<open>
  The interface between the input operations and the properties that hold of every state: an
  observation of the state that every primitive update keeps is kept by every operation and by
  every sequence of polls, calls and callbacks (\<open>input_observer\<close>).
\<close>

section \<open>Frames\<close>

text \<open>The state without the fields that only say how the controller is being polled.\<close>

definition bookkeeping_erased :: "input_state \<Rightarrow> input_state" where
  "bookkeeping_erased st = st\<lparr>g_sdl2 := False, g_sdl_tried := False, g_sdl_initialized := False,
     g_controller := 0, g_joystick := 0, g_input_pumping := False, g_prev_select := False, g_prev_a := False,
     g_input_last_ms := 0, g_controller_scan_ms := 0, g_last_joystick_count := 0, g_hat_mask := 0\<rparr>"

definition mapped_keys :: "nat list" where
  "mapped_keys = [78, 126, 89, 90, 74, 75, 72, 10, 12, 9, 11]"

lemma mapped_keys_bound: "k \<in> set mapped_keys \<Longrightarrow> k < KEYBOARD_KEY_COUNT"
  by (auto simp: mapped_keys_def KEYBOARD_KEY_COUNT_def)

definition key_change :: "bool \<Rightarrow> u8 \<Rightarrow> u8" where
  "key_change down live = (if down then live OR (KEY_STATE_DOWN OR KEY_STATE_PRESSED)
     else (live AND NOT KEY_STATE_DOWN) OR KEY_STATE_RELEASED)"

definition key_down :: "u8 \<Rightarrow> bool" where
  "key_down live \<longleftrightarrow> live AND KEY_STATE_DOWN \<noteq> 0"

definition change_key :: "nat \<Rightarrow> bool \<Rightarrow> input_state \<Rightarrow> input_state" where
  "change_key k down st = raise_event (Key_event (int k) (if down then 1 else 0))
     (st\<lparr>g_keyboard_live := (g_keyboard_live st)[k := key_change down (g_keyboard_live st ! k)]\<rparr>)"

definition change_button :: "bool \<Rightarrow> int \<Rightarrow> int \<Rightarrow> input_state \<Rightarrow> input_state" where
  "change_button down x y st = raise_event (Pointer_button 0 (if down then 1 else 0) x y) (pointer_set_down down st)"

fun plain_event :: "input_event \<Rightarrow> bool" where
  "plain_event (Pointer_button i p x y) = False"
| "plain_event (Key_event k p) = False"
| "plain_event e = True"

section \<open>Observers\<close>

locale input_observer =
  fixes Q :: "input_state \<Rightarrow> bool"
  assumes Q_call: "Q st \<Longrightarrow> Q (input_call_step c st)"
    and Q_raise: "Q st \<Longrightarrow> plain_event ev \<Longrightarrow> Q (raise_event ev st)"
    and Q_button: "Q st \<Longrightarrow> Q (change_button down x y st)"
    and Q_key: "Q st \<Longrightarrow> k < KEYBOARD_KEY_COUNT \<Longrightarrow> k \<in> set mapped_keys \<or> key_down (g_keyboard_live st ! k) \<Longrightarrow>
        key_down (g_keyboard_live st ! k) \<noteq> down \<Longrightarrow> Q (change_key k down st)"
    and Q_trigger: "Q st \<Longrightarrow> t < 2 \<Longrightarrow> Q (st\<lparr>g_trigger_down := (g_trigger_down st)[t := d]\<rparr>)"
    and Q_reset: "Q st \<Longrightarrow> Q (input_reset_triggers st)"
    and Q_lift: "Q st \<Longrightarrow> i < TOUCHPAD_COUNT \<Longrightarrow> Q (st\<lparr>g_touchpad_active := (g_touchpad_active st)[i := False],
        g_touchpad_state := (g_touchpad_state st)[i := POINTER_STATE_RELEASED]\<rparr>)"
    and Q_touch: "Q st \<Longrightarrow> i < TOUCHPAD_COUNT \<Longrightarrow> 0 \<le> x \<Longrightarrow> x < XPERIA_TOUCHPAD_WIDTH \<Longrightarrow> 0 \<le> y \<Longrightarrow>
        y < XPERIA_TOUCHPAD_HEIGHT \<Longrightarrow> Q (st\<lparr>g_touchpad_active := (g_touchpad_active st)[i := True],
          g_touchpad_x := (g_touchpad_x st)[i := x], g_touchpad_y := (g_touchpad_y st)[i := y],
          g_touchpad_state := (g_touchpad_state st)[i := POINTER_STATE_PRESSED]\<rparr>)"
    and Q_slide: "Q st \<Longrightarrow> i < TOUCHPAD_COUNT \<Longrightarrow> 0 \<le> x \<Longrightarrow> x < XPERIA_TOUCHPAD_WIDTH \<Longrightarrow> 0 \<le> y \<Longrightarrow>
        y < XPERIA_TOUCHPAD_HEIGHT \<Longrightarrow> Q (st\<lparr>g_touchpad_x := (g_touchpad_x st)[i := x],
          g_touchpad_y := (g_touchpad_y st)[i := y]\<rparr>)"
    and Q_move: "Q st \<Longrightarrow> 0 \<le> x \<Longrightarrow> x < window_width st \<Longrightarrow> 0 \<le> y \<Longrightarrow> y < window_height st \<Longrightarrow>
        Q (st\<lparr>g_pointer_x := x, g_pointer_y := y\<rparr>)"
    and Q_mode: "Q st \<Longrightarrow> Q (st\<lparr>g_cursor_active := b\<rparr>)"
    and Q_book: "Q st \<Longrightarrow> bookkeeping_erased st' = bookkeeping_erased st \<Longrightarrow> Q st'"
    and Q_display: "Q st \<Longrightarrow> Q (snd (s3e_host_set_display_size ok w h st))"
begin

lemma Q_run_callback: "Q st \<Longrightarrow> Q (run_callback guest cb ud ev st)"
proof -
  have "Q st \<Longrightarrow> Q (fold input_call_step cs st)" for cs
    by (induction cs arbitrary: st) (auto intro: Q_call)
  then show "Q st \<Longrightarrow> ?thesis" by (simp add: run_callback_def)
qed

lemma Q_pointer_dispatch: "Q (raise_event ev st) \<Longrightarrow> Q (pointer_dispatch guest i ev st)"
  by (auto simp: pointer_dispatch_def Let_def intro: Q_run_callback)

lemma Q_touchpad_dispatch: "Q (raise_event ev st) \<Longrightarrow> Q (touchpad_dispatch guest i ev st)"
  by (auto simp: touchpad_dispatch_def Let_def intro: Q_run_callback)

lemma Q_keyboard_slots: "Q st \<Longrightarrow> Q (fold (keyboard_dispatch_slot guest ev) is st)"
  by (induction "is" arbitrary: st) (auto simp: keyboard_dispatch_slot_def Let_def intro: Q_run_callback)

lemma Q_set_key:
  assumes "Q st" and "k \<in> set mapped_keys \<or> key_down (g_keyboard_live st ! k)"
  shows "Q (keyboard_set_key guest k down True st)"
proof (cases "k \<ge> KEYBOARD_KEY_COUNT \<or> key_down (g_keyboard_live st ! k) = down")
  case True
  with assms(1) show ?thesis by (auto simp: keyboard_set_key_def key_down_def Let_def)
next
  case False
  then have "Q (change_key k down st)" using assms by (intro Q_key) auto
  with Q_keyboard_slots show ?thesis using False
    by (simp add: keyboard_set_key_def keyboard_dispatch_event_def Let_def change_key_def
        key_change_def key_down_def)
qed

lemma Q_set_keys: "Q st \<Longrightarrow> set keys \<subseteq> set mapped_keys \<Longrightarrow> Q (game_action_apply guest down keys st)"
  unfolding game_action_apply_def keyboard_set_keys_def
  by (induction keys arbitrary: st) (auto intro: Q_set_key)

lemma Q_release_keys: "Q st \<Longrightarrow> Q (keyboard_release_all guest st)"
proof -
  have "Q st \<Longrightarrow> Q (fold (release_key guest) ks st)" for ks
    by (induction ks arbitrary: st) (auto simp: release_key_def intro: Q_set_key[unfolded key_down_def])
  then show "Q st \<Longrightarrow> ?thesis" by (simp add: keyboard_release_all_def)
qed

lemma Q_button_change:
  "Q st \<Longrightarrow> Q (pointer_dispatch_button guest 0 down (pointer_set_down down st))"
  unfolding pointer_dispatch_button_def Let_def
  by (rule Q_pointer_dispatch, rule Q_raise, rule Q_pointer_dispatch)
    (use Q_button[of st down] in \<open>auto simp: change_button_def\<close>)

lemma Q_release_pointer: "Q st \<Longrightarrow> Q (input_release_pointer guest st)"
  by (simp add: input_release_pointer_def Q_button_change)

lemma Q_motion: "Q st \<Longrightarrow> Q (pointer_dispatch_motion guest st)"
  unfolding pointer_dispatch_motion_def Let_def by (intro Q_pointer_dispatch Q_raise) auto

lemma Q_touch_events:
  "Q st \<Longrightarrow> Q (touchpad_dispatch_button guest i p x y st)"
  "Q st \<Longrightarrow> Q (touchpad_dispatch_motion guest i x y st)"
  unfolding touchpad_dispatch_button_def touchpad_dispatch_motion_def
  by (auto intro!: Q_touchpad_dispatch Q_raise)

lemma Q_touchpad_release: "Q st \<Longrightarrow> Q (touchpad_release guest i st)"
  by (auto simp: touchpad_release_def not_le intro!: Q_touch_events(1) Q_lift)

lemma Q_touchpads: "Q st \<Longrightarrow> Q (touchpad_release_all guest st)"
  by (simp add: touchpad_release_all_def TOUCHPAD_COUNT_def upt_rec numeral_2_eq_2 Q_touchpad_release)

lemma Q_stick:
  assumes "Q st"
  shows "Q (touchpad_update_stick guest i ax ay cx cy rx ry st)"
proof -
  have b: "0 \<le> touchpad_x_from_axis cx rx ax" "touchpad_x_from_axis cx rx ax < XPERIA_TOUCHPAD_WIDTH"
    "0 \<le> touchpad_y_from_axis cy ry ay" "touchpad_y_from_axis cy ry ay < XPERIA_TOUCHPAD_HEIGHT"
    by (auto simp: touchpad_x_from_axis_def touchpad_y_from_axis_def clamp_value_def
        XPERIA_TOUCHPAD_WIDTH_def XPERIA_TOUCHPAD_HEIGHT_def)
  have "i < TOUCHPAD_COUNT \<Longrightarrow> ?thesis"
    using Q_touch_events(1)[OF Q_touch_events(2)[OF Q_touch[OF assms _ b]]]
      Q_touch_events(2)[OF Q_slide[OF assms _ b]] Q_touchpad_release[OF assms] assms
    unfolding touchpad_update_stick_def Let_def by presburger
  then show ?thesis using assms by (cases "i < TOUCHPAD_COUNT") (simp_all add: touchpad_update_stick_def)
qed

lemma Q_game_touchpads: "Q st \<Longrightarrow> Q (input_update_game_touchpads env guest st)"
  by (simp add: input_update_game_touchpads_def Let_def Q_stick)

lemma Q_input_trigger: "Q st \<Longrightarrow> t < 2 \<Longrightarrow> Q (snd (input_trigger env axis t st))"
  by (simp add: input_trigger_def Let_def Q_trigger)

lemma Q_shoulder:
  "Q st \<Longrightarrow> t < 2 \<Longrightarrow> set keys \<subseteq> set mapped_keys \<Longrightarrow> Q (shoulder_or_trigger env guest b axis t keys st)"
  using Q_input_trigger[of st t env axis] by (simp add: shoulder_or_trigger_def split_beta Q_set_keys)

lemma Q_game_keys: "Q st \<Longrightarrow> Q (input_update_game_keys env guest st)"
proof -
  assume "Q st"
  then have "Q (st\<lparr>g_prev_a := b\<rparr>)" for b by (rule Q_book) (simp add: bookkeeping_erased_def)
  then show ?thesis
    unfolding input_update_game_keys_def Let_def
    by (intro Q_set_keys Q_shoulder) (auto simp: mapped_keys_def keymap_defs)
qed

lemma window_bounds: "0 < window_width st" "0 < window_height st"
  by (simp_all add: window_width_def window_height_def word_less_def)

lemma Q_cursor: "Q st \<Longrightarrow> Q (input_update_cursor env guest dt st)"
proof -
  assume Q: "Q st"
  have book: "Q s \<Longrightarrow> Q (s\<lparr>g_prev_a := b\<rparr>)" for s b
    by (rule Q_book) (simp_all add: bookkeeping_erased_def)
  have move: "Q (st\<lparr>g_pointer_x := clamp_pointer_x x st, g_pointer_y := clamp_pointer_y y st\<rparr>)" for x y
    using window_bounds[of st] by (intro Q_move[OF Q]) (auto simp: clamp_pointer_x_def clamp_pointer_y_def clamp_value_def)
  have press: "Q s \<Longrightarrow> Q (if c then pointer_dispatch_button guest 0 a (pointer_set_down a s) else s)" for s c a
    by (simp add: Q_button_change)
  have "Q (cursor_motion env guest dt st)"
    unfolding cursor_motion_def Let_def split_beta using Q by (auto intro: Q_motion move)
  then show ?thesis unfolding input_update_cursor_def Let_def by (intro book press)
qed

lemma Q_reset_all: "Q st \<Longrightarrow> Q (input_reset_triggers (keyboard_release_all guest (touchpad_release_all guest st)))"
  by (intro Q_reset Q_release_keys Q_touchpads)

lemma Q_close: "Q st \<Longrightarrow> Q (input_close_controller guest st)"
  unfolding input_close_controller_def Let_def
  by (rule Q_book[OF Q_reset_all[OF Q_release_pointer]]) (simp_all add: bookkeeping_erased_def)

lemma erased_scan: "bookkeeping_erased (scan_joysticks env is st) = bookkeeping_erased st"
  by (induction "is" arbitrary: st) (simp_all add: Let_def bookkeeping_erased_def)

lemma Q_refresh: "Q st \<Longrightarrow> Q (input_refresh_controller env guest now st)"
proof -
  assume Q: "Q st"
  let ?s = "if g_controller st \<noteq> 0 \<and> \<not> sdl_attached env (g_controller st)
    then (input_close_controller guest st)\<lparr>g_controller_scan_ms := 0, g_last_joystick_count := -1\<rparr> else st"
  have "Q ?s" using Q by (auto intro: Q_book[OF Q_close] simp: bookkeeping_erased_def)
  moreover have "Q s \<Longrightarrow> Q (input_scan_controllers env (s\<lparr>g_controller_scan_ms := now\<rparr>))" for s
    by (rule Q_book, assumption) (simp add: input_scan_controllers_def erased_scan, simp add: bookkeeping_erased_def)
  ultimately show ?thesis unfolding input_refresh_controller_def Let_def by presburger
qed

lemma Q_toggle: "Q st \<Longrightarrow> Q (toggle_cursor guest sel st)"
proof -
  assume Q: "Q st"
  have "Q (if sel \<and> \<not> g_prev_select st then
      (if g_cursor_active st then input_release_pointer guest st
       else input_reset_triggers (keyboard_release_all guest (touchpad_release_all guest st)))
      \<lparr>g_cursor_active := c\<rparr> else st)" for c
    using Q by (auto intro: Q_mode Q_release_pointer Q_reset_all)
  then show ?thesis unfolding toggle_cursor_def Let_def
    by (rule Q_book) (simp add: bookkeeping_erased_def)
qed

lemma Q_apply_mode: "Q st \<Longrightarrow> Q (apply_mode env guest dt st)"
  by (simp add: apply_mode_def Q_cursor Q_reset_all Q_game_keys Q_game_touchpads Q_release_pointer)

lemma Q_pump: "Q st \<Longrightarrow> Q (input_pump env guest st)"
proof -
  assume Q: "Q st"
  have open_ok: "Q (input_open env (st\<lparr>g_input_pumping := True\<rparr>))"
    by (rule Q_book[OF Q]) (simp add: input_open_def bookkeeping_erased_def Let_def)
  have hat: "Q s \<Longrightarrow> Q (s\<lparr>g_hat_mask := h\<rparr>)" for s h
    by (rule Q_book) (simp_all add: bookkeeping_erased_def)
  have clock: "Q s \<Longrightarrow> Q (snd (pump_clock now s))" for s now
    by (rule Q_book) (simp_all add: bookkeeping_erased_def pump_clock_def Let_def)
  have fin: "Q s \<Longrightarrow> Q (s\<lparr>g_input_pumping := b\<rparr>)" for s b
    by (rule Q_book) (simp_all add: bookkeeping_erased_def)
  show ?thesis
    unfolding input_pump_def Let_def split_beta
    using Q open_ok by (auto intro!: fin Q_apply_mode Q_toggle clock hat Q_refresh)
qed

lemma Q_shutdown: "Q st \<Longrightarrow> Q (input_shutdown guest st)"
  unfolding input_shutdown_def by (rule Q_book[OF Q_close]) (simp_all add: bookkeeping_erased_def)

lemma Q_step: "Q st \<Longrightarrow> Q (input_step guest e st)"
  using Q_call[of _ Keyboard_Update_pumping] Q_call[of _ Pointer_Update_pumping]
  by (cases e) (auto simp: s3eKeyboardUpdate_def s3ePointerUpdate_def intro: Q_call Q_pump Q_display Q_shutdown)

end

sublocale input_observer \<subseteq> machine: invariant_machine "input_step guest" Q for guest
  by unfold_locales (rule Q_step)

end
