(* ===== verification/Input_Properties.thy ===== *)
theory Input_Properties
  imports Input_Inv
begin

text \<open>
  What the input component promises: well-formed state, the keyboard as a snapshot of the event
  history, the pointer button, the two modes that exclude each other, the trigger hysteresis and
  the arithmetic of the cursor.
\<close>

section \<open>Well-formed state\<close>

definition pointer_values :: "u8 set" where
  "pointer_values = {POINTER_STATE_UP, POINTER_STATE_DOWN, POINTER_STATE_PRESSED, POINTER_STATE_RELEASED}"

lemma pointer_values [simp]:
  "POINTER_STATE_UP \<in> pointer_values" "POINTER_STATE_DOWN \<in> pointer_values"
  "POINTER_STATE_PRESSED \<in> pointer_values" "POINTER_STATE_RELEASED \<in> pointer_values"
  by (simp_all add: pointer_values_def)

definition slots_distinct :: "keyboard_callback_slot list \<Rightarrow> bool" where
  "slots_distinct slots \<longleftrightarrow>
     (\<forall>i < length slots. \<forall>j < length slots. i \<noteq> j \<longrightarrow> kb_callback (slots ! i) \<noteq> 0 \<longrightarrow>
        (kb_id (slots ! i), kb_callback (slots ! i)) \<noteq> (kb_id (slots ! j), kb_callback (slots ! j)))"

definition input_ok :: "input_state \<Rightarrow> bool" where
  "input_ok st \<longleftrightarrow>
     length (g_pointer_states st) = 5 \<and> length (g_trigger_down st) = 2 \<and>
     length (g_keyboard_live st) = KEYBOARD_KEY_COUNT \<and> length (g_keyboard_published st) = KEYBOARD_KEY_COUNT \<and>
     length (g_touchpad_active st) = TOUCHPAD_COUNT \<and> length (g_touchpad_x st) = TOUCHPAD_COUNT \<and>
     length (g_touchpad_y st) = TOUCHPAD_COUNT \<and> length (g_touchpad_state st) = TOUCHPAD_COUNT \<and>
     length (g_pointer_callbacks st) = 4 \<and> length (g_touchpad_callbacks st) = 8 \<and>
     length (g_keyboard_callbacks st) = 16 \<and> slots_distinct (g_keyboard_callbacks st) \<and>
     set (g_pointer_states st) \<subseteq> pointer_values \<and> set (g_touchpad_state st) \<subseteq> pointer_values \<and>
     set (g_touchpad_x st) \<subseteq> {0..<XPERIA_TOUCHPAD_WIDTH} \<and> set (g_touchpad_y st) \<subseteq> {0..<XPERIA_TOUCHPAD_HEIGHT} \<and>
     display_ok st"

lemma slots_distinct_update:
  assumes "slots_distinct slots" and "i < length slots"
    and "kb_callback s \<noteq> 0 \<Longrightarrow> \<forall>j < length slots. j \<noteq> i \<longrightarrow>
      (kb_id s, kb_callback s) \<noteq> (kb_id (slots ! j), kb_callback (slots ! j))"
  shows "slots_distinct (slots[i := s])"
  using assms unfolding slots_distinct_def by (auto simp: nth_list_update) metis+

lemma register_distinct:
  assumes "slots_distinct (g_keyboard_callbacks st)"
  shows "slots_distinct (g_keyboard_callbacks (s3eKeyboardRegister i cb ud st))"
proof (cases "find_idx (\<lambda>s. kb_callback s = cb \<and> kb_id s = i) (g_keyboard_callbacks st)")
  case (Some k)
  note F = find_idx_SomeD[OF Some]
  with assms have "slots_distinct ((g_keyboard_callbacks st)
      [k := (g_keyboard_callbacks st ! k)\<lparr>kb_user_data := ud\<rparr>])"
    by (intro slots_distinct_update) (auto simp: slots_distinct_def)
  with Some show ?thesis by (simp add: s3eKeyboardRegister_def)
next
  case None
  show ?thesis
  proof (cases "find_idx (\<lambda>s. kb_callback s = 0) (g_keyboard_callbacks st)")
    case (Some k)
    note F = find_idx_SomeD[OF Some]
    from None have "\<forall>s \<in> set (g_keyboard_callbacks st). \<not> (kb_callback s = cb \<and> kb_id s = i)" by simp
    then have "\<forall>j < length (g_keyboard_callbacks st).
        \<not> (kb_callback (g_keyboard_callbacks st ! j) = cb \<and> kb_id (g_keyboard_callbacks st ! j) = i)"
      using nth_mem by blast
    with assms F have "slots_distinct ((g_keyboard_callbacks st)
        [k := \<lparr>kb_id = i, kb_callback = cb, kb_user_data = ud\<rparr>])"
      by (intro slots_distinct_update) auto
    with None Some show ?thesis by (simp add: s3eKeyboardRegister_def del: find_idx_None)
  qed (use None assms in \<open>simp add: s3eKeyboardRegister_def del: find_idx_None\<close>)
qed

lemma unregister_distinct:
  "slots_distinct slots \<Longrightarrow> slots_distinct (map (unregister_slot i cb) slots)"
  unfolding slots_distinct_def by (auto simp: unregister_slot_def)

lemma register_length [simp]:
  "length (g_keyboard_callbacks (s3eKeyboardRegister i cb ud st)) = length (g_keyboard_callbacks st)"
  "length (set_slot j cb ud slots) = length slots" "length (clear_slot j cb slots) = length slots"
  by (simp_all add: s3eKeyboardRegister_def set_slot_def clear_slot_def split: option.split)

text \<open>A registration changes nothing but the callback slots.\<close>

lemma register_frame:
  "s3eKeyboardRegister i cb ud st =
     st\<lparr>g_keyboard_callbacks := g_keyboard_callbacks (s3eKeyboardRegister i cb ud st)\<rparr>"
  by (simp add: s3eKeyboardRegister_def split: option.split)

lemma settle_values: "set l \<subseteq> pointer_values \<Longrightarrow> settle_state ` set l \<subseteq> pointer_values"
  by (auto simp: settle_state_def pointer_values_def)

lemma display_ok_input [simp]:
  "display_ok (st\<lparr>g_pointer_down := a1\<rparr>) = display_ok st" "display_ok (st\<lparr>g_pointer_states := a2\<rparr>) = display_ok st"
  "display_ok (st\<lparr>g_cursor_active := a3\<rparr>) = display_ok st" "display_ok (st\<lparr>g_pointer_callbacks := a4\<rparr>) = display_ok st"
  "display_ok (st\<lparr>g_touchpad_callbacks := a5\<rparr>) = display_ok st" "display_ok (st\<lparr>g_keyboard_callbacks := a6\<rparr>) = display_ok st"
  "display_ok (st\<lparr>g_trigger_down := a7\<rparr>) = display_ok st" "display_ok (st\<lparr>g_keyboard_live := a8\<rparr>) = display_ok st"
  "display_ok (st\<lparr>g_keyboard_published := a9\<rparr>) = display_ok st" "display_ok (st\<lparr>g_touchpad_active := b1\<rparr>) = display_ok st"
  "display_ok (st\<lparr>g_touchpad_x := b2\<rparr>) = display_ok st" "display_ok (st\<lparr>g_touchpad_y := b3\<rparr>) = display_ok st"
  "display_ok (st\<lparr>g_touchpad_state := b4\<rparr>) = display_ok st" "display_ok (st\<lparr>in_log := b5\<rparr>) = display_ok st"
  by (simp_all add: display_ok_def window_width_def window_height_def)

lemma input_ok_call: "input_ok st \<Longrightarrow> input_ok (input_call_step c st)"
proof (cases c)
  case (Keyboard_Register i cb ud)
  assume ok: "input_ok st"
  have "input_ok (st\<lparr>g_keyboard_callbacks := g_keyboard_callbacks (s3eKeyboardRegister i cb ud st)\<rparr>)"
    using ok register_distinct by (simp add: input_ok_def)
  then show ?thesis using Keyboard_Register by (simp flip: register_frame)
qed (simp_all add: input_ok_def s3eKeyboardUnRegister_def unregister_distinct s3eKeyboardClearState_def
    input_reset_triggers_def keyboard_publish_def s3ePointerRegister_def s3ePointerUnRegister_def
    pointer_clear_transitions_def s3eTouchpadRegister_def s3eTouchpadUnRegister_def settle_values)

lemma set_update_subset: "set xs \<subseteq> A \<Longrightarrow> x \<in> A \<Longrightarrow> set (xs[i := x]) \<subseteq> A"
  using set_update_subset_insert[of xs i x] by blast

lemma display_ok_eq:
  "g_surface st' = g_surface st \<Longrightarrow> g_native_window st' = g_native_window st \<Longrightarrow>
   g_surface_pixels st' = g_surface_pixels st \<Longrightarrow> g_pointer_x st' = g_pointer_x st \<Longrightarrow>
   g_pointer_y st' = g_pointer_y st \<Longrightarrow> display_ok st' = display_ok st"
  by (simp add: display_ok_def window_width_def window_height_def)

lemma display_ok_move:
  assumes "display_ok st" and "0 \<le> x" "x < window_width st" "0 \<le> y" "y < window_height st"
  shows "display_ok (st\<lparr>g_pointer_x := x, g_pointer_y := y\<rparr>)"
proof -
  have "window_width (st\<lparr>g_pointer_x := x, g_pointer_y := y\<rparr>) = window_width st"
    "window_height (st\<lparr>g_pointer_x := x, g_pointer_y := y\<rparr>) = window_height st"
    by (simp_all add: window_width_def window_height_def)
  with assms show ?thesis by (simp add: display_ok_def Let_def)
qed

text \<open>States that differ in the bookkeeping only: every other field is the same.\<close>

lemma erased_eqD:
  assumes "bookkeeping_erased st' = bookkeeping_erased st"
  shows "g_surface st' = g_surface st" "g_native_window st' = g_native_window st"
    "g_surface_pixels st' = g_surface_pixels st" "g_pointer_x st' = g_pointer_x st" "g_pointer_y st' = g_pointer_y st"
    "g_pointer_down st' = g_pointer_down st" "g_pointer_states st' = g_pointer_states st"
    "g_cursor_active st' = g_cursor_active st" "g_pointer_callbacks st' = g_pointer_callbacks st"
    "g_touchpad_callbacks st' = g_touchpad_callbacks st" "g_keyboard_callbacks st' = g_keyboard_callbacks st"
    "g_trigger_down st' = g_trigger_down st" "g_keyboard_live st' = g_keyboard_live st"
    "g_keyboard_published st' = g_keyboard_published st" "g_touchpad_active st' = g_touchpad_active st"
    "g_touchpad_x st' = g_touchpad_x st" "g_touchpad_y st' = g_touchpad_y st"
    "g_touchpad_state st' = g_touchpad_state st" "in_log st' = in_log st"
  using assms unfolding bookkeeping_erased_def by (cases st; cases st'; simp)+

text \<open>Setting the display size changes the fields of the display only.\<close>

lemma set_display_frame:
  "snd (s3e_host_set_display_size ok w h st) = st\<lparr>
     g_native_window := g_native_window (snd (s3e_host_set_display_size ok w h st)),
     g_surface := g_surface (snd (s3e_host_set_display_size ok w h st)),
     g_surface_pixels := g_surface_pixels (snd (s3e_host_set_display_size ok w h st)),
     g_pointer_x := g_pointer_x (snd (s3e_host_set_display_size ok w h st)),
     g_pointer_y := g_pointer_y (snd (s3e_host_set_display_size ok w h st))\<rparr>" for st :: input_state
  by (auto simp: s3e_host_set_display_size_def Let_def split_beta)

lemma set_display_fields [simp]:
  fixes st :: input_state
  shows "g_pointer_down (snd (s3e_host_set_display_size ok w h st)) = g_pointer_down st"
    "g_pointer_states (snd (s3e_host_set_display_size ok w h st)) = g_pointer_states st"
    "g_keyboard_live (snd (s3e_host_set_display_size ok w h st)) = g_keyboard_live st"
    "g_keyboard_published (snd (s3e_host_set_display_size ok w h st)) = g_keyboard_published st"
    "g_touchpad_active (snd (s3e_host_set_display_size ok w h st)) = g_touchpad_active st"
    "g_trigger_down (snd (s3e_host_set_display_size ok w h st)) = g_trigger_down st"
    "g_cursor_active (snd (s3e_host_set_display_size ok w h st)) = g_cursor_active st"
    "in_log (snd (s3e_host_set_display_size ok w h st)) = in_log st"
    "g_touchpad_x (snd (s3e_host_set_display_size ok w h st)) = g_touchpad_x st"
    "g_touchpad_y (snd (s3e_host_set_display_size ok w h st)) = g_touchpad_y st"
    "g_touchpad_state (snd (s3e_host_set_display_size ok w h st)) = g_touchpad_state st"
    "g_pointer_callbacks (snd (s3e_host_set_display_size ok w h st)) = g_pointer_callbacks st"
    "g_touchpad_callbacks (snd (s3e_host_set_display_size ok w h st)) = g_touchpad_callbacks st"
    "g_keyboard_callbacks (snd (s3e_host_set_display_size ok w h st)) = g_keyboard_callbacks st"
  by (subst set_display_frame, simp)+

lemma input_ok_display: "input_ok st \<Longrightarrow> input_ok (snd (s3e_host_set_display_size ok w h st))"
proof -
  assume ok: "input_ok st"
  let ?r = "s3e_host_set_display_size ok w h st"
  have "display_ok (snd ?r)"
    using ok set_display_size_ok[of st ok w h] by (simp add: input_ok_def)
  then show ?thesis using ok by (simp add: input_ok_def)
qed

interpretation well_formed: input_observer input_ok
proof
  show "input_ok (change_button down x y st)" if "input_ok st" for st down x y
    using that by (simp add: input_ok_def change_button_def raise_event_def pointer_set_down_def
        set_update_subset)
  show "input_ok (st\<lparr>g_touchpad_active := (g_touchpad_active st)[i := False],
        g_touchpad_state := (g_touchpad_state st)[i := POINTER_STATE_RELEASED]\<rparr>)"
    if "input_ok st" for st i
    using that by (simp add: input_ok_def set_update_subset)
  show "input_ok (st\<lparr>g_touchpad_active := (g_touchpad_active st)[i := True],
          g_touchpad_x := (g_touchpad_x st)[i := x], g_touchpad_y := (g_touchpad_y st)[i := y],
          g_touchpad_state := (g_touchpad_state st)[i := POINTER_STATE_PRESSED]\<rparr>)"
    if "input_ok st" "0 \<le> x" "x < XPERIA_TOUCHPAD_WIDTH" "0 \<le> y" "y < XPERIA_TOUCHPAD_HEIGHT" for st i x y
    using that by (simp add: input_ok_def set_update_subset)
  show "input_ok (st\<lparr>g_touchpad_x := (g_touchpad_x st)[i := x], g_touchpad_y := (g_touchpad_y st)[i := y]\<rparr>)"
    if "input_ok st" "0 \<le> x" "x < XPERIA_TOUCHPAD_WIDTH" "0 \<le> y" "y < XPERIA_TOUCHPAD_HEIGHT" for st i x y
    using that by (simp add: input_ok_def set_update_subset)
  show "input_ok (st\<lparr>g_pointer_x := x, g_pointer_y := y\<rparr>)"
    if "input_ok st" "0 \<le> x" "x < window_width st" "0 \<le> y" "y < window_height st" for st x y
    using that display_ok_move[of st x y] by (simp add: input_ok_def)
  show "input_ok st'" if "input_ok st" "bookkeeping_erased st' = bookkeeping_erased st" for st st'
    using that(1) erased_eqD[OF that(2)] display_ok_eq[of st' st] by (simp add: input_ok_def)
qed (erule input_ok_call input_ok_display | simp add: input_ok_def raise_event_def change_key_def
    input_reset_triggers_def)+

lemma input_initial_ok: "input_ok input_initial"
  by (simp add: input_ok_def input_initial_def host_display.defs display_initial_def slots_distinct_def
      pointer_values_def POINTER_STATE_UP_def XPERIA_TOUCHPAD_WIDTH_def XPERIA_TOUCHPAD_HEIGHT_def
      TOUCHPAD_COUNT_def display_ok_def window_width_def window_height_def)

text \<open>C14: whatever the controller reports and whatever the guest calls, from its callbacks or outside of
  them, the pointer stays inside the window and the touches inside the touchpad, the state arrays
  keep their sizes and hold legal values only, no keyboard callback is registered twice under one
  event, and the display geometry stays consistent.\<close>

theorem input_state_well_formed: "input_ok (fold (input_step guest) inputs input_initial)"
  by (rule well_formed.machine.run_inv) (rule input_initial_ok)

section \<open>The keyboard is the history of its events\<close>

text \<open>
  What the guest is to see of a key, computed from the log alone: whether it is down, and whether
  it went down or up since the guest last took a snapshot.
\<close>

fun down_in :: "nat \<Rightarrow> input_log list \<Rightarrow> bool" where
  "down_in k [] = False"
| "down_in k (Cleared # l) = False"
| "down_in k (Raised (Key_event i p) # l) = (if i = int k then p = 1 else down_in k l)"
| "down_in k (e # l) = down_in k l"

definition recent :: "input_log list \<Rightarrow> input_log list" where
  "recent l = takeWhile (\<lambda>e. e \<noteq> Published \<and> e \<noteq> Cleared) l"

definition key_state_of :: "nat \<Rightarrow> input_log list \<Rightarrow> u8" where
  "key_state_of k l = (if down_in k l then 1 else 0) +
     (if Raised (Key_event (int k) 1) \<in> set (recent l) then 2 else 0) +
     (if Raised (Key_event (int k) 0) \<in> set (recent l) then 4 else 0)"

text \<open>The log as it was when the guest took its last snapshot; a cleared keyboard has none.\<close>

definition last_snapshot :: "input_log list \<Rightarrow> input_log list" where
  "last_snapshot l = (case dropWhile (\<lambda>e. e \<noteq> Published \<and> e \<noteq> Cleared) l of Published # l' \<Rightarrow> l' | _ \<Rightarrow> [])"

definition keyboard_history :: "input_state \<Rightarrow> bool" where
  "keyboard_history st \<longleftrightarrow>
     g_keyboard_live st = map (\<lambda>k. key_state_of k (in_log st)) [0..<KEYBOARD_KEY_COUNT] \<and>
     g_keyboard_published st = map (\<lambda>k. key_state_of k (last_snapshot (in_log st))) [0..<KEYBOARD_KEY_COUNT]"

lemma recent_simps [simp]:
  "recent [] = []" "recent (Published # l) = []" "recent (Cleared # l) = []"
  "recent (Raised e # l) = Raised e # recent l"
  by (simp_all add: recent_def)

lemma last_snapshot_simps [simp]:
  "last_snapshot [] = []" "last_snapshot (Published # l) = l" "last_snapshot (Cleared # l) = []"
  "last_snapshot (Raised e # l) = last_snapshot l"
  by (simp_all add: last_snapshot_def)

lemma key_state_of_Nil [simp]: "key_state_of k [] = 0"
  by (simp add: key_state_of_def)

lemma key_state_of_Cleared [simp]: "key_state_of k (Cleared # l) = 0"
  by (simp add: key_state_of_def)

lemma key_state_of_Published:
  "key_state_of k (Published # l) = key_state_of k l AND NOT (KEY_STATE_PRESSED OR KEY_STATE_RELEASED)"
  by (simp add: key_state_of_def KEY_STATE_PRESSED_def KEY_STATE_RELEASED_def)

lemma key_state_of_other:
  "(\<And>p. e \<noteq> Key_event (int k) p) \<Longrightarrow> key_state_of k (Raised e # l) = key_state_of k l"
  by (cases e) (auto simp: key_state_of_def)

lemma key_down_of: "key_down (key_state_of k l) = down_in k l"
  by (simp add: key_down_def key_state_of_def KEY_STATE_DOWN_def)

lemma key_state_of_change:
  "down_in k l \<noteq> down \<Longrightarrow>
   key_state_of k (Raised (Key_event (int k) (if down then 1 else 0)) # l) = key_change down (key_state_of k l)"
  by (simp add: key_change_def key_state_of_def KEY_STATE_DOWN_def KEY_STATE_PRESSED_def KEY_STATE_RELEASED_def)

lemma keyboard_history_same:
  "g_keyboard_live st' = g_keyboard_live st \<Longrightarrow> g_keyboard_published st' = g_keyboard_published st \<Longrightarrow>
   in_log st' = in_log st \<Longrightarrow> keyboard_history st' = keyboard_history st"
  by (simp add: keyboard_history_def)

lemma keyboard_history_raise:
  "keyboard_history st \<Longrightarrow> (\<And>k p. ev \<noteq> Key_event k p) \<Longrightarrow> keyboard_history (raise_event ev st)"
  by (simp add: keyboard_history_def raise_event_def key_state_of_other)

lemma keyboard_history_key:
  assumes "keyboard_history st" and k: "k < KEYBOARD_KEY_COUNT" and "key_down (g_keyboard_live st ! k) \<noteq> down"
  shows "keyboard_history (change_key k down st)"
proof -
  let ?ev = "Raised (Key_event (int k) (if down then 1 else 0))"
  have live: "g_keyboard_live st ! j = key_state_of j (in_log st)" if "j < KEYBOARD_KEY_COUNT" for j
    using assms(1) that by (simp add: keyboard_history_def)
  have "down_in k (in_log st) \<noteq> down" using assms(3) by (simp add: live[OF k] key_down_of)
  note change = key_state_of_change[OF this]
  have "(g_keyboard_live st)[k := key_change down (g_keyboard_live st ! k)] =
      map (\<lambda>j. key_state_of j (?ev # in_log st)) [0..<KEYBOARD_KEY_COUNT]"
  proof (rule nth_equalityI)
    show "length ((g_keyboard_live st)[k := key_change down (g_keyboard_live st ! k)]) =
        length (map (\<lambda>j. key_state_of j (?ev # in_log st)) [0..<KEYBOARD_KEY_COUNT])"
      using assms(1) by (simp add: keyboard_history_def)
    fix j assume "j < length ((g_keyboard_live st)[k := key_change down (g_keyboard_live st ! k)])"
    then have j: "j < KEYBOARD_KEY_COUNT" using assms(1) by (simp add: keyboard_history_def)
    have "key_state_of j (?ev # in_log st) = key_state_of j (in_log st)" if "j \<noteq> k"
      using that by (intro key_state_of_other) auto
    with j change live[OF j] live[OF k] assms(1)
    show "(g_keyboard_live st)[k := key_change down (g_keyboard_live st ! k)] ! j =
        map (\<lambda>j. key_state_of j (?ev # in_log st)) [0..<KEYBOARD_KEY_COUNT] ! j"
      by (cases "j = k") (simp_all add: keyboard_history_def)
  qed
  then show ?thesis using assms(1) by (simp add: keyboard_history_def change_key_def raise_event_def)
qed

lemma keyboard_history_call: "keyboard_history st \<Longrightarrow> keyboard_history (input_call_step c st)"
proof (cases c)
  case (Keyboard_Register i cb ud)
  assume "keyboard_history st"
  then show ?thesis using Keyboard_Register
    by (simp add: s3eKeyboardRegister_def keyboard_history_def split: option.split)
qed (simp_all add: keyboard_history_def s3eKeyboardUnRegister_def s3eKeyboardClearState_def
    input_reset_triggers_def keyboard_publish_def s3ePointerRegister_def s3ePointerUnRegister_def
    pointer_clear_transitions_def s3eTouchpadRegister_def s3eTouchpadUnRegister_def
    key_state_of_Published map_replicate_const)

interpretation keyboard_log: input_observer keyboard_history
proof
  show "keyboard_history (raise_event ev st)" if "keyboard_history st" "plain_event ev" for st ev
    using that by (intro keyboard_history_raise) auto
  show "keyboard_history (change_button down x y st)" if "keyboard_history st" for st down x y
    unfolding change_button_def using that
    by (intro keyboard_history_raise) (simp_all add: pointer_set_down_def keyboard_history_def)
  show "keyboard_history st'" if "keyboard_history st" "bookkeeping_erased st' = bookkeeping_erased st" for st st'
    using that(1) erased_eqD[OF that(2)] keyboard_history_same[of st' st] by simp
qed (erule keyboard_history_call keyboard_history_key | assumption
    | simp add: keyboard_history_def input_reset_triggers_def)+

text \<open>C13: the keyboard state the guest reads is exactly what the history of key events says: a key is
  reported down when its last event was a press, and as pressed or released when an event of that
  kind was raised since the snapshot before, so that no change between two updates is lost.\<close>

theorem keyboard_reports_history:
  "let st = fold (input_step guest) inputs input_initial
   in g_keyboard_live st = map (\<lambda>k. key_state_of k (in_log st)) [0..<KEYBOARD_KEY_COUNT] \<and>
      g_keyboard_published st = map (\<lambda>k. key_state_of k (last_snapshot (in_log st))) [0..<KEYBOARD_KEY_COUNT]"
proof -
  have "keyboard_history input_initial"
    by (simp add: keyboard_history_def input_initial_def host_display.defs map_replicate_const)
  from keyboard_log.machine.run_inv[OF this, of guest inputs] show ?thesis
    by (simp add: keyboard_history_def Let_def)
qed

end
