(* ===== verification/Input_Modes.thy ===== *)
theory Input_Modes
  imports Input_Properties
begin

text \<open>
  The pointer button, the two modes of the controller, the trigger hysteresis, the keys that can
  ever be down, and the range of the cursor arithmetic.
\<close>

lemmas call_defs = s3eKeyboardRegister_def s3eKeyboardUnRegister_def s3eKeyboardClearState_def
  input_reset_triggers_def keyboard_publish_def s3ePointerRegister_def s3ePointerUnRegister_def
  pointer_clear_transitions_def s3eTouchpadRegister_def s3eTouchpadUnRegister_def

section \<open>Keys without a control\<close>

definition unmapped_up :: "input_state \<Rightarrow> bool" where
  "unmapped_up st \<longleftrightarrow>
     length (g_keyboard_live st) = KEYBOARD_KEY_COUNT \<and> length (g_keyboard_published st) = KEYBOARD_KEY_COUNT \<and>
     (\<forall>k < KEYBOARD_KEY_COUNT. k \<notin> set mapped_keys \<longrightarrow> g_keyboard_live st ! k = 0 \<and> g_keyboard_published st ! k = 0)"

lemma key_down_0 [simp]: "\<not> key_down 0"
  by (simp add: key_down_def)

lemma unmapped_up_call: "unmapped_up st \<Longrightarrow> unmapped_up (input_call_step c st)"
  by (cases c) (auto simp: unmapped_up_def call_defs split: option.split)

interpretation unmapped: input_observer unmapped_up
proof
  show "unmapped_up (change_key k down st)"
    if "unmapped_up st" "k < KEYBOARD_KEY_COUNT" "k \<in> set mapped_keys \<or> key_down (g_keyboard_live st ! k)"
    for st k down
  proof -
    have "k \<in> set mapped_keys" using that by (auto simp: unmapped_up_def)
    then show ?thesis using that(1,2) by (auto simp: unmapped_up_def change_key_def raise_event_def nth_list_update)
  qed
  show "unmapped_up st'" if "unmapped_up st" "bookkeeping_erased st' = bookkeeping_erased st" for st st'
    using that(1) erased_eqD[OF that(2)] by (simp add: unmapped_up_def)
qed (erule unmapped_up_call | assumption
    | simp add: unmapped_up_def input_reset_triggers_def raise_event_def change_button_def pointer_set_down_def)+

text \<open>The abstract key codes 200 to 210 (\<open>S3E_KEY_ABS_*\<close>) are translated to the key codes of the
  touch bindings, while the controller drives the Xperia key codes: whatever the player does, every
  abstract key except 209 (the pause key) reads as up.\<close>

theorem abstract_keys_read_up:
  "list_all (\<lambda>key. s3eKeyboardGetState key (fold (input_step guest) inputs input_initial) = 0)
     [200, 201, 202, 203, 204, 205, 206, 207, 208, 210]"
proof -
  have "unmapped_up input_initial"
    by (simp add: unmapped_up_def input_initial_def host_display.defs)
  from unmapped.machine.run_inv[OF this, of guest inputs]
  have "g_keyboard_published (fold (input_step guest) inputs input_initial) ! k = 0"
    if "k < KEYBOARD_KEY_COUNT" "k \<notin> set mapped_keys" for k
    using that by (simp add: unmapped_up_def)
  from this[of 28] this[of 40] this[of 29] this[of 44] this[of 42] this[of 48] this[of 18] this[of 14]
  show ?thesis
    by (simp add: s3eKeyboardGetState_def keyboard_abs_target_def mapped_keys_def KEYBOARD_KEY_COUNT_def Let_def)
qed

section \<open>The pointer button\<close>

fun button_in :: "input_log list \<Rightarrow> bool" where
  "button_in [] = False"
| "button_in (Raised (Pointer_button i p x y) # l) = (p = 1)"
| "button_in (e # l) = button_in l"

definition pointer_history :: "input_state \<Rightarrow> bool" where
  "pointer_history st \<longleftrightarrow> length (g_pointer_states st) = 5 \<and>
     g_pointer_down st = button_in (in_log st) \<and>
     (g_pointer_states st ! 0 \<in> {POINTER_STATE_DOWN, POINTER_STATE_PRESSED} \<longleftrightarrow> g_pointer_down st) \<and>
     (\<forall>b \<in> {1..4}. g_pointer_states st ! b = POINTER_STATE_UP)"

lemmas pointer_state_defs = POINTER_STATE_UP_def POINTER_STATE_DOWN_def POINTER_STATE_PRESSED_def
  POINTER_STATE_RELEASED_def

lemma pointer_history_call: "pointer_history st \<Longrightarrow> pointer_history (input_call_step c st)"
  by (cases c) (auto simp: pointer_history_def call_defs settle_state_def pointer_state_defs split: option.split)

lemma button_in_plain: "plain_event ev \<Longrightarrow> button_in (Raised ev # l) = button_in l"
  by (cases ev) auto

interpretation pointer_log: input_observer pointer_history
proof
  show "pointer_history (change_button down x y st)" if "pointer_history st" for st down x y
    using that by (auto simp: pointer_history_def change_button_def raise_event_def pointer_set_down_def
        pointer_state_defs nth_list_update)
  show "pointer_history st'" if "pointer_history st" "bookkeeping_erased st' = bookkeeping_erased st" for st st'
    using that(1) erased_eqD[OF that(2)] by (simp add: pointer_history_def)
qed (erule pointer_history_call | assumption
    | simp add: pointer_history_def input_reset_triggers_def raise_event_def change_key_def button_in_plain)+

text \<open>the pointer button the guest reads agrees with the last button event it was told of: state
  down or pressed after a press, up or released after a release; the other four buttons are up.\<close>

theorem pointer_reports_history:
  "let st = fold (input_step guest) inputs input_initial
   in (g_pointer_states st ! 0 \<in> {POINTER_STATE_DOWN, POINTER_STATE_PRESSED} \<longleftrightarrow> button_in (in_log st)) \<and>
      (g_pointer_down st \<longleftrightarrow> button_in (in_log st)) \<and>
      list_all (\<lambda>b. g_pointer_states st ! b = POINTER_STATE_UP) [1, 2, 3, 4]"
proof -
  have "pointer_history input_initial"
    by (auto simp: pointer_history_def input_initial_def host_display.defs pointer_state_defs nth_replicate)
  from pointer_log.machine.run_inv[OF this, of guest inputs] show ?thesis
    by (simp add: pointer_history_def Let_def)
qed

section \<open>Cursor mode and game mode exclude each other\<close>

text \<open>No gameplay control is held.\<close>

definition no_game :: "input_state \<Rightarrow> bool" where
  "no_game st \<longleftrightarrow> list_all (\<lambda>k. \<not> key_down k) (g_keyboard_live st) \<and>
     g_touchpad_active st = [False, False] \<and> g_trigger_down st = [False, False]"

lemma key_down_publish [simp]:
  "key_down (k AND NOT (KEY_STATE_PRESSED OR KEY_STATE_RELEASED)) = key_down k"
  "key_down (k AND NOT KEY_STATE_PRESSED AND NOT KEY_STATE_RELEASED) = key_down k"
  by (simp_all add: key_down_def KEY_STATE_DOWN_def KEY_STATE_PRESSED_def KEY_STATE_RELEASED_def and.assoc)

text \<open>What a callback cannot change.\<close>

lemma call_frame:
  "g_pointer_down (input_call_step c st) = g_pointer_down st"
  "g_cursor_active (input_call_step c st) = g_cursor_active st"
  "g_touchpad_active (input_call_step c st) = g_touchpad_active st"
  by (cases c; simp add: call_defs split: option.split)+

lemma call_live:
  "g_keyboard_live (input_call_step c st) \<in> {g_keyboard_live st, replicate KEYBOARD_KEY_COUNT 0,
     map (\<lambda>k. k AND NOT (KEY_STATE_PRESSED OR KEY_STATE_RELEASED)) (g_keyboard_live st)}"
  by (cases c) (simp_all add: call_defs split: option.split)

lemma call_triggers: "g_trigger_down (input_call_step c st) \<in> {g_trigger_down st, [False, False]}"
  by (cases c) (simp_all add: call_defs split: option.split)

text \<open>An observation that callbacks and the raising of events keep.\<close>

locale callback_stable =
  fixes Q :: "input_state \<Rightarrow> bool"
  assumes C_call: "Q st \<Longrightarrow> Q (input_call_step c st)" and C_raise: "Q st \<Longrightarrow> Q (raise_event ev st)"
begin

lemma C_run: "Q st \<Longrightarrow> Q (run_callback guest cb ud ev st)"
proof -
  have "Q st \<Longrightarrow> Q (fold input_call_step cs st)" for cs
    by (induction cs arbitrary: st) (auto intro: C_call)
  then show "Q st \<Longrightarrow> ?thesis" by (simp add: run_callback_def)
qed

lemma C_slots: "Q st \<Longrightarrow> Q (fold (keyboard_dispatch_slot guest ev) is st)"
  by (induction "is" arbitrary: st) (auto simp: keyboard_dispatch_slot_def Let_def intro: C_run)

lemma C_pointer: "Q st \<Longrightarrow> Q (pointer_dispatch guest i ev st)"
  by (auto simp: pointer_dispatch_def Let_def intro: C_run C_raise)

lemma C_dispatch:
  "Q st \<Longrightarrow> Q (touchpad_dispatch guest i ev st)"
  "Q st \<Longrightarrow> Q (keyboard_dispatch_event guest k d st)"
  "Q st \<Longrightarrow> Q (pointer_dispatch_button guest b d st)"
  "Q st \<Longrightarrow> Q (pointer_dispatch_motion guest st)"
  by (auto simp: touchpad_dispatch_def keyboard_dispatch_event_def pointer_dispatch_button_def
      pointer_dispatch_motion_def Let_def intro!: C_run C_raise C_slots C_pointer)

end

text \<open>
  What matters of the modes: the pointer button, the mode, the active touches, a set of keys that
  are up and whether the triggers are known to be up.
\<close>

definition view :: "bool \<Rightarrow> bool \<Rightarrow> bool list \<Rightarrow> nat set \<Rightarrow> bool \<Rightarrow> input_state \<Rightarrow> bool" where
  "view p c a up t st \<longleftrightarrow> g_pointer_down st = p \<and> g_cursor_active st = c \<and> g_touchpad_active st = a \<and>
     length a = TOUCHPAD_COUNT \<and> length (g_keyboard_live st) = KEYBOARD_KEY_COUNT \<and>
     (\<forall>k < KEYBOARD_KEY_COUNT. k \<in> up \<longrightarrow> \<not> key_down (g_keyboard_live st ! k)) \<and>
     (t \<longrightarrow> g_trigger_down st = [False, False])"

interpretation view: callback_stable "view p c a up t" for p c a up t
proof
  show "view p c a up t (input_call_step call st)" if "view p c a up t st" for call st
    using that call_live[of call st] call_triggers[of call st]
    by (auto simp: view_def call_frame)
qed (simp add: view_def raise_event_def)

lemma view_release_pointer:
  "view p c a up t st \<Longrightarrow> view False c a up t (input_release_pointer guest st)"
  unfolding input_release_pointer_def
  by (cases "g_pointer_down st") (auto intro!: view.C_dispatch simp: pointer_set_down_def, simp_all add: view_def)

lemma view_touchpad_release:
  "view p c a up t st \<Longrightarrow> view p c (a[i := False]) up t (touchpad_release guest i st)"
proof (cases "i \<ge> TOUCHPAD_COUNT \<or> \<not> g_touchpad_active st ! i")
  case True
  assume v: "view p c a up t st"
  with True have "a[i := False] = a"
    by (metis (full_types) list_update_beyond list_update_id view_def)
  with v True show ?thesis by (auto simp: touchpad_release_def)
next
  case False
  assume "view p c a up t st"
  with False show ?thesis
    unfolding touchpad_release_def touchpad_dispatch_button_def
    by (auto intro!: view.C_dispatch) (simp add: view_def)
qed

lemma two_updates: "length a = TOUCHPAD_COUNT \<Longrightarrow> a[0 := x, Suc 0 := y] = [x, y]"
  by (cases a; cases "tl a") (auto simp: TOUCHPAD_COUNT_def)

lemma view_touchpads:
  assumes "view p c a up t st"
  shows "view p c [False, False] up t (touchpad_release_all guest st)"
proof -
  have "view p c (a[0 := False, Suc 0 := False]) up t (touchpad_release_all guest st)"
    using view_touchpad_release[OF view_touchpad_release[OF assms, of 0 guest], of "Suc 0" guest]
    by (simp add: touchpad_release_all_def TOUCHPAD_COUNT_def upt_rec numeral_2_eq_2)
  moreover have "length a = TOUCHPAD_COUNT" using assms by (simp add: view_def)
  ultimately show ?thesis by (simp add: two_updates)
qed

lemma key_change_False [simp]: "\<not> key_down (key_change False live)"
  by (simp add: key_down_def key_change_def KEY_STATE_DOWN_def KEY_STATE_RELEASED_def bit.conj_disj_distrib2 and.assoc)

lemma keyboard_set_key_eq:
  "keyboard_set_key guest k down True st =
     (if k \<ge> KEYBOARD_KEY_COUNT \<or> key_down (g_keyboard_live st ! k) = down then st
      else keyboard_dispatch_event guest k down
        (st\<lparr>g_keyboard_live := (g_keyboard_live st)[k := key_change down (g_keyboard_live st ! k)]\<rparr>))"
  by (simp add: keyboard_set_key_def key_down_def key_change_def Let_def)

lemma view_release_key:
  assumes "view p c a up t st"
  shows "view p c a (insert k up) t (release_key guest k st)"
proof (cases "k \<ge> KEYBOARD_KEY_COUNT \<or> \<not> key_down (g_keyboard_live st ! k)")
  case True
  with assms show ?thesis by (auto simp: release_key_def key_down_def[symmetric] keyboard_set_key_eq view_def)
next
  case False
  have "view p c a (insert k up) t
      (st\<lparr>g_keyboard_live := (g_keyboard_live st)[k := key_change False (g_keyboard_live st ! k)]\<rparr>)"
    using assms False by (simp add: view_def nth_list_update)
  with False show ?thesis
    by (simp add: release_key_def key_down_def[symmetric] keyboard_set_key_eq view.C_dispatch)
qed

lemma view_release_keys:
  assumes "view p c a up t st"
  shows "view p c a UNIV t (keyboard_release_all guest st)"
proof -
  have "view p c a (set ks \<union> up) t (fold (release_key guest) ks st)" if "view p c a up t st" for ks up st
    using that
  proof (induction ks arbitrary: st up)
    case (Cons k ks)
    from Cons.IH[OF view_release_key[OF Cons.prems]] show ?case by simp
  qed simp
  from this[OF assms, of "[0..<KEYBOARD_KEY_COUNT]"] show ?thesis
    by (simp add: keyboard_release_all_def view_def)
qed

lemma view_reset: "view p c a up t st \<Longrightarrow> view p c a up True (input_reset_triggers st)"
  by (simp add: view_def input_reset_triggers_def)

lemma view_weaken: "view p c a up t st \<Longrightarrow> up' \<subseteq> up \<Longrightarrow> t' \<longrightarrow> t \<Longrightarrow> view p c a up' t' st"
  by (auto simp: view_def)

lemma view_reset_all:
  "view p c a up t st \<Longrightarrow>
   view p c [False, False] UNIV True
     (input_reset_triggers (keyboard_release_all guest (touchpad_release_all guest st)))"
  by (intro view_reset view_release_keys view_touchpads)

lemma view_book: "view p c a up t st \<Longrightarrow> bookkeeping_erased st' = bookkeeping_erased st \<Longrightarrow> view p c a up t st'"
  using erased_eqD[of st' st] by (simp add: view_def)

section \<open>Each mode releases the controls of the other\<close>

lemma view_cursor:
  assumes "view p c a up t st"
  shows "\<exists>p'. view p' c a up t (input_update_cursor env guest dt st)"
proof -
  have book: "view q c a up t (s\<lparr>g_prev_a := b\<rparr>)" if "view q c a up t s" for q s b
    using that by (rule view_book) (simp add: bookkeeping_erased_def)
  have moved: "view p c a up t (st\<lparr>g_pointer_x := x, g_pointer_y := y\<rparr>)" for x y
    using assms by (simp add: view_def)
  have press: "\<exists>q. view q c a up t (if d then pointer_dispatch_button guest 0 b (pointer_set_down b s) else s)"
    if "view p c a up t s" for d b s
  proof -
    have "view b c a up t (pointer_set_down b s)" using that by (simp add: view_def pointer_set_down_def)
    with that show ?thesis by (auto intro: view.C_dispatch)
  qed
  have "view p c a up t (cursor_motion env guest dt st)"
    unfolding cursor_motion_def Let_def split_beta using assms moved by (auto intro: view.C_dispatch)
  from press[OF this] show ?thesis
    unfolding input_update_cursor_def Let_def by (blast intro: book)
qed

lemma view_stick:
  assumes "view p c a up t st"
  shows "\<exists>a'. view p c a' up t (touchpad_update_stick guest i ax ay cx cy rx ry st)"
proof -
  let ?x = "touchpad_x_from_axis cx rx ax" and ?y = "touchpad_y_from_axis cy ry ay"
  have press: "view p c (a[i := True]) up t (st\<lparr>g_touchpad_active := (g_touchpad_active st)[i := True],
      g_touchpad_x := (g_touchpad_x st)[i := ?x], g_touchpad_y := (g_touchpad_y st)[i := ?y],
      g_touchpad_state := (g_touchpad_state st)[i := POINTER_STATE_PRESSED]\<rparr>)"
    using assms by (simp add: view_def)
  have slide: "view p c a up t (st\<lparr>g_touchpad_x := (g_touchpad_x st)[i := ?x],
      g_touchpad_y := (g_touchpad_y st)[i := ?y]\<rparr>)"
    using assms by (simp add: view_def)
  show ?thesis
    unfolding touchpad_update_stick_def Let_def touchpad_dispatch_button_def touchpad_dispatch_motion_def
    using assms view_touchpad_release[OF assms, of i guest] view.C_dispatch(1)[OF slide, of guest 1]
      view.C_dispatch(1)[OF view.C_dispatch(1)[OF press, of guest 1], of guest 0]
    by (auto simp del: list_update.simps)
qed

lemma view_game_touchpads:
  "view p c a up t st \<Longrightarrow> \<exists>a'. view p c a' up t (input_update_game_touchpads env guest st)"
  unfolding input_update_game_touchpads_def Let_def by (meson view_stick)

lemma view_set_keys: "view p c a up t st \<Longrightarrow> view p c a {} t (game_action_apply guest down keys st)"
proof -
  have "view p c a {} t st \<Longrightarrow> view p c a {} t (keyboard_set_key guest k down True st)" for k st
  proof -
    assume v: "view p c a {} t st"
    then have "view p c a {} t (keyboard_dispatch_event guest k down
        (st\<lparr>g_keyboard_live := (g_keyboard_live st)[k := key_change down (g_keyboard_live st ! k)]\<rparr>))"
      by (intro view.C_dispatch) (simp add: view_def)
    with v show ?thesis by (simp add: keyboard_set_key_eq)
  qed
  then have "view p c a {} t st \<Longrightarrow> view p c a {} t (fold (\<lambda>k. keyboard_set_key guest k down True) keys st)" for st
    by (induction keys arbitrary: st) auto
  then show "view p c a up t st \<Longrightarrow> ?thesis"
    using view_weaken[of p c a up t st "{}" t] by (simp add: game_action_apply_def keyboard_set_keys_def)
qed

lemma view_game_keys:
  assumes "view p c a up t st"
  shows "view p c a {} False (input_update_game_keys env guest st)"
proof -
  have key: "view p c a {} False s \<Longrightarrow> view p c a {} False (game_action_apply guest d ks s)" for d ks s
    by (rule view_set_keys)
  have shoulder: "view p c a {} False s \<Longrightarrow> view p c a {} False (shoulder_or_trigger env guest b ax i ks s)"
    for b ax i ks s
  proof -
    assume v: "view p c a {} False s"
    then have "view p c a {} False (snd (input_trigger env ax i s))"
      by (simp add: view_def input_trigger_def Let_def)
    with v show ?thesis unfolding shoulder_or_trigger_def split_beta Let_def by (simp add: key)
  qed
  have "view p c a {} False (st\<lparr>g_prev_a := b\<rparr>)" for b
    by (rule view_book[OF view_weaken[OF assms]]) (simp_all add: bookkeeping_erased_def)
  then show ?thesis unfolding input_update_game_keys_def Let_def by (intro key shoulder)
qed

text \<open>The modes at the end of a poll.\<close>

definition mode_view :: "input_state \<Rightarrow> bool" where
  "mode_view st \<longleftrightarrow> (\<exists>p c a up t. view p c a up t st \<and> (if c then a = [False, False] \<and> up = UNIV \<and> t else \<not> p))"

lemma mode_view_cursorI: "view p True [False, False] UNIV True st \<Longrightarrow> mode_view st"
  and mode_view_gameI: "view False False a up t st \<Longrightarrow> mode_view st"
  unfolding mode_view_def by (metis (full_types))+

lemma mode_viewI: "view False c [False, False] UNIV True st \<Longrightarrow> mode_view st"
  by (cases c) (auto intro: mode_view_cursorI mode_view_gameI)

lemma mode_viewE: "mode_view st \<Longrightarrow> (\<And>p c a up t. view p c a up t st \<Longrightarrow> thesis) \<Longrightarrow> thesis"
  unfolding mode_view_def by blast

lemma mode_view_apply:
  assumes "view p c a up t st"
  shows "mode_view (apply_mode env guest dt st)"
proof (cases c)
  case True
  with assms have "g_cursor_active st" by (simp add: view_def)
  moreover have "\<exists>p'. view p' True [False, False] UNIV True (input_update_cursor env guest dt
      (input_reset_triggers (keyboard_release_all guest (touchpad_release_all guest st))))"
    using view_cursor[OF view_reset_all[OF assms]] True by simp
  ultimately show ?thesis by (auto simp: apply_mode_def intro: mode_view_cursorI)
next
  case False
  with assms have "\<not> g_cursor_active st" by (simp add: view_def)
  moreover obtain a' where "view False c a' up t
      (input_update_game_touchpads env guest (input_release_pointer guest st))"
    using view_game_touchpads[OF view_release_pointer[OF assms]] by blast
  ultimately show ?thesis
    using view_game_keys[of False c a' up t] False by (auto simp: apply_mode_def intro: mode_view_gameI)
qed

lemma view_toggle:
  assumes "view p c a up t st"
  obtains p' c' a' up' t' where "view p' c' a' up' t' (toggle_cursor guest sel st)"
proof -
  let ?rel = "input_release_pointer guest st"
  let ?rst = "input_reset_triggers (keyboard_release_all guest (touchpad_release_all guest st))"
  have book: "view p c a up t (s\<lparr>g_prev_select := sel\<rparr>)" if "view p c a up t s" for p c a up t s
    using that by (rule view_book) (simp add: bookkeeping_erased_def)
  have mode: "view p b a up t (s\<lparr>g_cursor_active := b\<rparr>)" if "view p c a up t s" for p c a up t s b
    using that by (simp add: view_def)
  consider (stay) "\<not> (sel \<and> \<not> g_prev_select st)" | (leave) "sel \<and> \<not> g_prev_select st" "g_cursor_active st"
    | (enter) "sel \<and> \<not> g_prev_select st" "\<not> g_cursor_active st" by blast
  then show thesis
  proof cases
    case stay
    then have "toggle_cursor guest sel st = st\<lparr>g_prev_select := sel\<rparr>" by (auto simp: toggle_cursor_def Let_def)
    with book[OF assms] that show thesis by metis
  next
    case leave
    then have "toggle_cursor guest sel st = ?rel\<lparr>g_cursor_active := \<not> g_cursor_active ?rel\<rparr>\<lparr>g_prev_select := sel\<rparr>"
      by (auto simp: toggle_cursor_def Let_def)
    with book[OF mode[OF view_release_pointer[OF assms]]] that show thesis by metis
  next
    case enter
    then have "toggle_cursor guest sel st = ?rst\<lparr>g_cursor_active := \<not> g_cursor_active ?rst\<rparr>\<lparr>g_prev_select := sel\<rparr>"
      by (auto simp: toggle_cursor_def Let_def)
    with book[OF mode[OF view_reset_all[OF assms]]] that show thesis by metis
  qed
qed

lemma mode_view_close: "view p c a up t st \<Longrightarrow> view False c [False, False] UNIV True (input_close_controller guest st)"
  unfolding input_close_controller_def Let_def
  by (rule view_book[OF view_reset_all[OF view_release_pointer]]) (simp_all add: bookkeeping_erased_def)

lemma mode_view_book: "mode_view st \<Longrightarrow> bookkeeping_erased st' = bookkeeping_erased st \<Longrightarrow> mode_view st'"
  unfolding mode_view_def using view_book by blast

lemma mode_view_refresh:
  assumes "mode_view st"
  shows "mode_view (input_refresh_controller env guest now st)"
proof -
  let ?s = "if g_controller st \<noteq> 0 \<and> \<not> sdl_attached env (g_controller st)
    then (input_close_controller guest st)\<lparr>g_controller_scan_ms := 0, g_last_joystick_count := -1\<rparr> else st"
  have "mode_view (input_close_controller guest st)"
    using assms by (rule mode_viewE) (rule mode_viewI, rule mode_view_close)
  then have "mode_view ?s" using assms by (auto intro: mode_view_book simp: bookkeeping_erased_def)
  moreover have "mode_view s \<Longrightarrow> mode_view (input_scan_controllers env (s\<lparr>g_controller_scan_ms := now\<rparr>))" for s
    by (rule mode_view_book, assumption)
      (simp add: input_scan_controllers_def keyboard_log.erased_scan, simp add: bookkeeping_erased_def)
  ultimately show ?thesis unfolding input_refresh_controller_def Let_def by presburger
qed

lemma mode_view_pump: "mode_view st \<Longrightarrow> mode_view (input_pump env guest st)"
proof -
  assume m: "mode_view st"
  have open_ok: "mode_view (input_open env (st\<lparr>g_input_pumping := True\<rparr>))"
    by (rule mode_view_book[OF m]) (simp add: input_open_def bookkeeping_erased_def Let_def)
  have clock: "mode_view s \<Longrightarrow> mode_view (snd (pump_clock now (s\<lparr>g_hat_mask := h\<rparr>)))" for s now h
    by (rule mode_view_book, assumption) (simp add: bookkeeping_erased_def pump_clock_def Let_def)
  have fin: "mode_view s \<Longrightarrow> mode_view (s\<lparr>g_input_pumping := b\<rparr>)" for s b
    by (rule mode_view_book, assumption) (simp add: bookkeeping_erased_def)
  have mode: "mode_view s \<Longrightarrow> mode_view (apply_mode env guest dt (toggle_cursor guest sel s))" for s dt sel
    by (erule mode_viewE, erule view_toggle[of _ _ _ _ _ _ guest sel], erule mode_view_apply)
  show ?thesis
    unfolding input_pump_def Let_def split_beta
    using m open_ok by (auto intro!: fin mode clock mode_view_refresh)
qed

lemma mode_view_call: "mode_view st \<Longrightarrow> mode_view (input_call_step c st)"
  unfolding mode_view_def using view.C_call by blast

lemma mode_view_step: "mode_view st \<Longrightarrow> mode_view (input_step guest e st)"
proof (cases e)
  case Input_shutdown
  assume "mode_view st"
  then have "mode_view (input_close_controller guest st)"
    by (rule mode_viewE) (rule mode_viewI, rule mode_view_close)
  then have "mode_view (input_shutdown guest st)"
    unfolding input_shutdown_def by (rule mode_view_book) (simp add: bookkeeping_erased_def)
  with Input_shutdown show ?thesis by simp
next
  case (Set_display ok w h)
  assume "mode_view st"
  moreover have "view p c a up t st \<Longrightarrow> view p c a up t (snd (s3e_host_set_display_size ok w h st))" for p c a up t
    by (simp add: view_def)
  ultimately have "mode_view (snd (s3e_host_set_display_size ok w h st))"
    unfolding mode_view_def by blast
  with Set_display show ?thesis by simp
qed (use mode_view_call[of _ Keyboard_Update_pumping] mode_view_call[of st Pointer_Update_pumping] in
  \<open>auto simp: s3eKeyboardUpdate_def s3ePointerUpdate_def intro: mode_view_call mode_view_pump\<close>)

interpretation modes: invariant_machine "input_step guest" mode_view for guest
  by unfold_locales (rule mode_view_step)

text \<open>C12: the cursor and the gameplay controls exclude each other: after every poll, call and display
  change, however the callbacks interfere, no key is down, no touch is active and no trigger is held
  while the cursor is shown, and the pointer button is up while it is not.\<close>

theorem modes_exclude_each_other:
  "let st = fold (input_step guest) inputs input_initial
   in if g_cursor_active st then no_game st else \<not> g_pointer_down st"
proof -
  have "view False True [False, False] UNIV True input_initial"
    by (simp add: view_def input_initial_def host_display.defs TOUCHPAD_COUNT_def)
  then have "mode_view input_initial" by (rule mode_viewI)
  from modes.run_inv[OF this, of guest inputs] show ?thesis
    by (auto simp: mode_view_def view_def no_game_def Let_def list_all_length split: if_splits)
qed

section \<open>Trigger hysteresis\<close>

definition trigger_samples :: "sdl_env list \<Rightarrow> nat \<Rightarrow> input_state \<Rightarrow> int list" where
  "trigger_samples envs axis st = map (\<lambda>env. input_axis_raw env axis st) envs"

text \<open>over any series of samples a trigger is down exactly when the last sample outside of the band
  from 12288 to 16384 was above it; samples inside of the band change nothing, so a trigger that
  rests there does not flicker.\<close>

theorem trigger_hysteresis:
  assumes "t < length (g_trigger_down st)"
  shows "g_trigger_down (fold (\<lambda>env s. snd (input_trigger env axis t s)) envs st) ! t =
    (case dropWhile (\<lambda>v. TRIGGER_RELEASE_THRESHOLD \<le> v \<and> v \<le> TRIGGER_PRESS_THRESHOLD)
       (rev (trigger_samples envs axis st)) of
       [] \<Rightarrow> g_trigger_down st ! t | v # _ \<Rightarrow> v > TRIGGER_PRESS_THRESHOLD)"
  using assms
proof (induction envs rule: rev_induct)
  case Nil
  then show ?case by (simp add: trigger_samples_def)
next
  case (snoc env envs)
  let ?s = "fold (\<lambda>env s. snd (input_trigger env axis t s)) envs st"
  have "length (g_trigger_down ?s) = length (g_trigger_down st) \<and> g_controller ?s = g_controller st"
    by (induction envs arbitrary: st) (simp_all add: input_trigger_def Let_def)
  then have "t < length (g_trigger_down ?s)" "input_axis_raw env axis ?s = input_axis_raw env axis st"
    using snoc.prems by (simp_all add: input_axis_raw_def)
  with snoc show ?case
    by (auto simp: trigger_samples_def input_trigger_def Let_def
        TRIGGER_RELEASE_THRESHOLD_def TRIGGER_PRESS_THRESHOLD_def)
qed

lemma trigger_hysteresis_witness:
  "g_trigger_down (fold (\<lambda>env s. snd (input_trigger env SDL_AXIS_TRIGGERLEFT 0 s)) [] input_initial) ! 0 = False"
  using trigger_hysteresis[of 0 input_initial SDL_AXIS_TRIGGERLEFT "[]"]
  by (simp add: input_initial_def host_display.defs trigger_samples_def)

section \<open>The arithmetic of the cursor\<close>

lemma abs_c_div: "0 < b \<Longrightarrow> \<bar>c_div a b\<bar> = \<bar>a\<bar> div b"
  by (auto simp: c_div_def abs_mult abs_sgn_eq pos_imp_zdiv_nonneg_iff)

lemma cursor_range:
  fixes dt :: u64
  assumes "\<bar>axis\<bar> \<le> 32768" and "dt \<le> 50" and "0 \<le> extent" and "extent \<le> 65535" and "d = 640 \<or> d = 480"
  shows "c_div (900 * extent) d \<in> {0..122878}" and "\<bar>axis * uint dt * c_div (900 * extent) d\<bar> < 2 ^ 63"
    and "\<bar>c_div (c_div (axis * uint dt * c_div (900 * extent) d) 32767) 1000\<bar> \<le> 6145"
proof -
  let ?s = "c_div (900 * extent) d"
  have d: "?s = 900 * extent div d" using assms by (intro c_div_nonneg) auto
  show s: "?s \<in> {0..122878}" unfolding d using assms(3-5) by auto
  have dt: "uint dt \<le> 50" using assms(2) by (simp add: word_le_def)
  have "\<bar>axis * uint dt * ?s\<bar> = \<bar>axis\<bar> * uint dt * ?s" using s by (simp add: abs_mult)
  also have "\<dots> \<le> 32768 * 50 * 122878"
    using s assms(1) dt by (intro mult_mono) auto
  finally have b: "\<bar>axis * uint dt * ?s\<bar> \<le> 32768 * 50 * 122878" .
  then show "\<bar>axis * uint dt * ?s\<bar> < 2 ^ 63" by simp
  have "\<bar>axis * uint dt * ?s\<bar> div 32767 div 1000 \<le> 32768 * 50 * 122878 div 32767 div 1000"
    using b by (intro zdiv_mono1) auto
  then show "\<bar>c_div (c_div (axis * uint dt * ?s) 32767) 1000\<bar> \<le> 6145"
    by (simp add: abs_c_div)
qed

lemma small_sum: "\<bar>a\<bar> \<le> 6145 \<Longrightarrow> 0 \<le> p \<Longrightarrow> p < 65535 \<Longrightarrow> \<bar>p + a\<bar> < 2 ^ 31" for a p :: int
  by simp

lemma cursor_axes_range: "\<bar>fst (cursor_axes env st)\<bar> \<le> 32768" "\<bar>snd (cursor_axes env st)\<bar> \<le> 32768"
proof -
  have "\<bar>sint (w :: 16 word)\<bar> \<le> 32768" for w
    using sint_range_size[of w] by (auto simp: word_size abs_le_iff)
  then show "\<bar>fst (cursor_axes env st)\<bar> \<le> 32768" "\<bar>snd (cursor_axes env st)\<bar> \<le> 32768"
    by (simp_all add: cursor_axes_def input_axis_def input_axis_deadzone_def input_axis_raw_def Let_def)
qed

lemma window_range: "0 \<le> window_width st" "window_width st \<le> 65535" "0 \<le> window_height st" "window_height st \<le> 65535"
proof -
  have "uint (w :: u16) \<le> 65535" for w using uint_bounded[of w] by simp
  then show "0 \<le> window_width st" "window_width st \<le> 65535" "0 \<le> window_height st" "window_height st \<le> 65535"
    by (simp_all add: window_width_def window_height_def)
qed

text \<open>the cursor arithmetic never overflows: with the stick anywhere, the display as large as it can
  be and any time between two polls, the 64-bit product fits, the conversions to 32 bits lose
  nothing, and the new position is computed without overflow.\<close>

theorem cursor_arithmetic_fits:
  "let st = fold (input_step guest) inputs input_initial; dt = fst (pump_clock now st);
       (ax, ay) = cursor_axes env st;
       sx = c_div (900 * window_width st) 640; sy = c_div (900 * window_height st) 480
   in i32 sx = sx \<and> i32 sy = sy \<and> \<bar>ax * uint dt * sx\<bar> < 2 ^ 63 \<and> \<bar>ay * uint dt * sy\<bar> < 2 ^ 63 \<and>
      cursor_step ax dt sx = c_div (c_div (ax * uint dt * sx) 32767) 1000 \<and>
      cursor_step ay dt sy = c_div (c_div (ay * uint dt * sy) 32767) 1000 \<and>
      \<bar>g_pointer_x st + cursor_step ax dt sx\<bar> < 2 ^ 31 \<and> \<bar>g_pointer_y st + cursor_step ay dt sy\<bar> < 2 ^ 31"
proof -
  let ?st = "fold (input_step guest) inputs input_initial"
  obtain ax ay where A: "cursor_axes env ?st = (ax, ay)" by (cases "cursor_axes env ?st")
  have ax: "\<bar>ax\<bar> \<le> 32768" and ay: "\<bar>ay\<bar> \<le> 32768" using cursor_axes_range[of env ?st] A by simp_all
  define dt where "dt = fst (pump_clock now ?st)"
  have dt: "dt \<le> 50" by (auto simp: dt_def pump_clock_def Let_def not_less)
  note X = cursor_range[OF ax dt window_range(1,2)[of ?st] disjI1[OF refl]]
  note Y = cursor_range[OF ay dt window_range(3,4)[of ?st] disjI2[OF refl]]
  have "display_ok ?st" using well_formed.machine.run_inv[OF input_initial_ok] by (simp add: input_ok_def)
  then have p: "0 \<le> g_pointer_x ?st" "g_pointer_x ?st < 65535" "0 \<le> g_pointer_y ?st" "g_pointer_y ?st < 65535"
    using window_range[of ?st] by (auto simp: display_ok_def Let_def)
  have cx: "cursor_step ax dt (c_div (900 * window_width ?st) 640) =
      c_div (c_div (ax * uint dt * c_div (900 * window_width ?st) 640) 32767) 1000"
    using X(3) unfolding cursor_step_def by (intro i32_id) auto
  have cy: "cursor_step ay dt (c_div (900 * window_height ?st) 480) =
      c_div (c_div (ay * uint dt * c_div (900 * window_height ?st) 480) 32767) 1000"
    using Y(3) unfolding cursor_step_def by (intro i32_id) auto
  have ix: "i32 (c_div (900 * window_width ?st) 640) = c_div (900 * window_width ?st) 640"
    using X(1) by (intro i32_id) auto
  have iy: "i32 (c_div (900 * window_height ?st) 480) = c_div (900 * window_height ?st) 480"
    using Y(1) by (intro i32_id) auto
  have sx: "\<bar>g_pointer_x ?st + c_div (c_div (ax * uint dt * c_div (900 * window_width ?st) 640) 32767) 1000\<bar> < 2 ^ 31"
    using small_sum[OF X(3)] p by blast
  have sy: "\<bar>g_pointer_y ?st + c_div (c_div (ay * uint dt * c_div (900 * window_height ?st) 480) 32767) 1000\<bar> < 2 ^ 31"
    using small_sum[OF Y(3)] p by blast
  show ?thesis
    unfolding Let_def A prod.case dt_def[symmetric] cx cy
    using ix iy X(2) Y(2) sx sy by blast
qed

end
