(* ===== verification/Socket_State.thy ===== *)
theory Socket_State
  imports Prelude
begin

unbundle bit_operations_syntax

text \<open>
  Data of the socket component (\<open>src/s3e_socket.c\<close>): the slots behind the guest's handles, the
  error codes, the guest's address structure and its text forms, and the DNS lookup that runs in a
  thread.

  The operating system is the parameter \<open>sock_os\<close>: what a system call returns, as a function of
  how many were made before (\<open>sk_clock\<close>). A descriptor is the identity of an open file, so it is
  never used again after it was closed; \<open>sk_open\<close> holds the open ones and \<open>sk_close_error\<close> is set
  when one is closed that is not open. Lookups live in \<open>dns_heap\<close> under a number that is not used
  again; \<open>dns_heap_error\<close> is set by an access to a freed one. These fields are history variables.
\<close>

section \<open>Error codes\<close>

datatype s3e_socket_error =
    SOCKET_ERR_NONE | SOCKET_ERR_PARAM | SOCKET_ERR_TOO_MANY | SOCKET_ERR_ALREADY_REG
  | SOCKET_ERR_NOT_FOUND | SOCKET_ERR_UNAVAIL | SOCKET_ERR_UNSUPPORTED | SOCKET_ERR_WOULDBLOCK
  | SOCKET_ERR_INPROGRESS | SOCKET_ERR_ALREADY | SOCKET_ERR_NOTSOCK | SOCKET_ERR_MSGSIZE
  | SOCKET_ERR_ADDRINUSE | SOCKET_ERR_NETDOWN | SOCKET_ERR_CONNRESET | SOCKET_ERR_ISCONN
  | SOCKET_ERR_NOTCONN | SOCKET_ERR_SHUTDOWN | SOCKET_ERR_TIMEDOUT | SOCKET_ERR_CONNREFUSED
  | SOCKET_ERR_UNKNOWN_HOST | SOCKET_ERR_NOTPERM

text \<open>The values of \<open>errno\<close> that the code tells apart; on the target \<open>EWOULDBLOCK\<close> is \<open>EAGAIN\<close>.\<close>

datatype errno_t =
    EOK | EPERM | EBADF | EINVAL | EADDRNOTAVAIL | EAGAIN | EACCES | EPIPE | ESHUTDOWN | ENOTSOCK
  | EMSGSIZE | EPFNOSUPPORT | EAFNOSUPPORT | EPROTONOSUPPORT | EADDRINUSE | ENETUNREACH | ENETDOWN
  | EHOSTUNREACH | ECONNABORTED | ECONNRESET | EISCONN | ENOTCONN | ETIMEDOUT | ECONNREFUSED
  | EALREADY | EINPROGRESS | EMFILE | ENFILE | EOTHER nat

fun map_socket_errno :: "errno_t \<Rightarrow> s3e_socket_error" where
  "map_socket_errno EOK = SOCKET_ERR_NONE"
| "map_socket_errno EPERM = SOCKET_ERR_NOTPERM"
| "map_socket_errno EBADF = SOCKET_ERR_PARAM"
| "map_socket_errno EINVAL = SOCKET_ERR_PARAM"
| "map_socket_errno EADDRNOTAVAIL = SOCKET_ERR_PARAM"
| "map_socket_errno EAGAIN = SOCKET_ERR_WOULDBLOCK"
| "map_socket_errno EACCES = SOCKET_ERR_UNAVAIL"
| "map_socket_errno EPIPE = SOCKET_ERR_SHUTDOWN"
| "map_socket_errno ESHUTDOWN = SOCKET_ERR_SHUTDOWN"
| "map_socket_errno ENOTSOCK = SOCKET_ERR_NOTSOCK"
| "map_socket_errno EMSGSIZE = SOCKET_ERR_MSGSIZE"
| "map_socket_errno EPFNOSUPPORT = SOCKET_ERR_UNSUPPORTED"
| "map_socket_errno EAFNOSUPPORT = SOCKET_ERR_UNSUPPORTED"
| "map_socket_errno EPROTONOSUPPORT = SOCKET_ERR_UNSUPPORTED"
| "map_socket_errno EADDRINUSE = SOCKET_ERR_ADDRINUSE"
| "map_socket_errno ENETUNREACH = SOCKET_ERR_NETDOWN"
| "map_socket_errno ENETDOWN = SOCKET_ERR_NETDOWN"
| "map_socket_errno EHOSTUNREACH = SOCKET_ERR_NETDOWN"
| "map_socket_errno ECONNABORTED = SOCKET_ERR_CONNRESET"
| "map_socket_errno ECONNRESET = SOCKET_ERR_CONNRESET"
| "map_socket_errno EISCONN = SOCKET_ERR_ISCONN"
| "map_socket_errno ENOTCONN = SOCKET_ERR_NOTCONN"
| "map_socket_errno ETIMEDOUT = SOCKET_ERR_TIMEDOUT"
| "map_socket_errno ECONNREFUSED = SOCKET_ERR_CONNREFUSED"
| "map_socket_errno EALREADY = SOCKET_ERR_ALREADY"
| "map_socket_errno EINPROGRESS = SOCKET_ERR_INPROGRESS"
| "map_socket_errno EMFILE = SOCKET_ERR_TOO_MANY"
| "map_socket_errno ENFILE = SOCKET_ERR_TOO_MANY"
| "map_socket_errno (EOTHER n) = SOCKET_ERR_UNAVAIL"

section \<open>Addresses\<close>

type_synonym ptr = u32

definition ADDR_IPV4 :: u32 where "ADDR_IPV4 = 1"
definition ADDR_IPV6 :: u32 where "ADDR_IPV6 = 2"
definition ADDR_LOCAL :: u32 where "ADDR_LOCAL = 4"

record s3e_inet_address =
  ia_type :: u32
  ia_ip_address :: u32
  ia_ipv6_address :: "u8 list"
  ia_port :: u16
  ia_string :: cstring

definition zero_inet_address :: s3e_inet_address where
  "zero_inet_address = \<lparr>ia_type = 0, ia_ip_address = 0, ia_ipv6_address = replicate 16 0, ia_port = 0, ia_string = []\<rparr>"

definition AF_INET :: nat where "AF_INET = 2"
definition AF_INET6 :: nat where "AF_INET6 = 10"

text \<open>\<open>struct sockaddr_storage\<close> as far as the code reads it; \<open>sizeof\<close> gives the two lengths.\<close>

record sockaddr_storage =
  ss_family :: nat
  ss_port :: u16
  ss_addr :: u32
  ss_addr6 :: "u8 list"

definition zero_sockaddr :: sockaddr_storage where
  "zero_sockaddr = \<lparr>ss_family = 0, ss_port = 0, ss_addr = 0, ss_addr6 = replicate 16 0\<rparr>"

definition SIZEOF_SOCKADDR_IN :: nat where "SIZEOF_SOCKADDR_IN = 16"
definition SIZEOF_SOCKADDR_IN6 :: nat where "SIZEOF_SOCKADDR_IN6 = 28"

subsection \<open>Text forms\<close>

text \<open>\<open>printf\<close>'s \<open>%u\<close>.\<close>

fun decimal :: "nat \<Rightarrow> cstring" where
  "decimal n = (if n < 10 then [48 + of_nat n] else decimal (n div 10) @ [48 + of_nat (n mod 10)])"

declare decimal.simps [simp del]

text \<open>The bytes of an IPv4 address in memory order, on the little-endian target.\<close>

definition ip_bytes :: "u32 \<Rightarrow> nat list" where
  "ip_bytes a = [unat a mod 256, unat a div 256 mod 256, unat a div 65536 mod 256, unat a div 16777216]"

definition ip_of_bytes :: "nat list \<Rightarrow> u32" where
  "ip_of_bytes bs = of_nat (bs ! 0 + 256 * (bs ! 1) + 65536 * (bs ! 2) + 16777216 * (bs ! 3))"

text \<open>\<open>inet_ntop\<close> and \<open>inet_pton\<close> for \<open>AF_INET\<close>: four decimal numbers, without leading zeros.\<close>

definition inet_ntop4 :: "u32 \<Rightarrow> cstring" where
  "inet_ntop4 a = (case ip_bytes a of [b0, b1, b2, b3] \<Rightarrow>
     decimal b0 @ 46 # decimal b1 @ 46 # decimal b2 @ 46 # decimal b3 | _ \<Rightarrow> [])"

fun pton4 :: "cstring \<Rightarrow> nat list \<Rightarrow> nat option \<Rightarrow> nat list option" where
  "pton4 [] acc cur = (case cur of Some v \<Rightarrow> if length acc = 3 then Some (acc @ [v]) else None | None \<Rightarrow> None)"
| "pton4 (c # cs) acc cur =
     (if 48 \<le> c \<and> c \<le> 57 then
        let d = unat c - 48 in
        case cur of
          None \<Rightarrow> if length acc \<ge> 4 then None else pton4 cs acc (Some d)
        | Some v \<Rightarrow> if v = 0 \<or> v * 10 + d > 255 then None else pton4 cs acc (Some (v * 10 + d))
      else if c = 46 then
        case cur of None \<Rightarrow> None
        | Some v \<Rightarrow> if length acc = 3 then None else pton4 cs (acc @ [v]) None
      else None)"

definition inet_pton4 :: "cstring \<Rightarrow> u32 option" where
  "inet_pton4 s = map_option ip_of_bytes (pton4 s [] None)"

section \<open>Slots, lookups and the state\<close>

definition S3E_SOCKET_HANDLE_FIRST :: nat where "S3E_SOCKET_HANDLE_FIRST = 3000"
definition S3E_SOCKET_SLOT_COUNT :: nat where "S3E_SOCKET_SLOT_COUNT = 32"

record socket_slot =
  sk_fd :: int
  sk_generation :: u32
  sk_type :: u32
  sk_domain :: u32
  sk_connect_callback :: ptr
  sk_connect_user_data :: ptr
  sk_accept_callback :: ptr
  sk_accept_user_data :: ptr
  sk_readable_callback :: ptr
  sk_readable_user_data :: ptr
  sk_writable_callback :: ptr
  sk_writable_user_data :: ptr
  sk_in_use :: bool
  sk_connect_pending :: bool

definition zero_slot :: socket_slot where
  "zero_slot = \<lparr>sk_fd = 0, sk_generation = 0, sk_type = 0, sk_domain = 0, sk_connect_callback = 0,
     sk_connect_user_data = 0, sk_accept_callback = 0, sk_accept_user_data = 0,
     sk_readable_callback = 0, sk_readable_user_data = 0, sk_writable_callback = 0,
     sk_writable_user_data = 0, sk_in_use = False, sk_connect_pending = False\<rparr>"

datatype gai_error = EAI_FAMILY | EAI_NONAME | EAI_OTHER nat

record dns_lookup =
  dl_hostname :: cstring
  dl_address :: ptr
  dl_callback :: ptr
  dl_user_data :: ptr
  dl_port :: u16
  dl_result :: "gai_error + sockaddr_storage \<times> nat"
  dl_done :: bool
  dl_cancelled :: bool
  dl_detached :: bool

text \<open>What a callback of the guest is told: the socket, the result of a connect, or a looked up address.\<close>

datatype sock_event =
    Connect_event ptr u32 bool ptr
  | Accept_event ptr u32 ptr
  | Readable_event ptr u32 ptr
  | Writable_event ptr u32 ptr
  | Lookup_event ptr "s3e_inet_address option" ptr

record sock_state =
  g_socket_slots :: "socket_slot list"
  g_socket_error :: s3e_socket_error
  g_dns_lookup :: "nat option"
  dns_heap :: "nat \<Rightarrow> dns_lookup option"
  dns_next :: nat
  dns_heap_error :: bool
  sk_memory :: "ptr \<Rightarrow> s3e_inet_address"
  sk_clock :: nat
  sk_open :: "nat set"
  sk_next_fd :: nat
  sk_close_error :: bool
  sk_log :: "sock_event list"

record sock_os =
  os_socket :: "nat \<Rightarrow> errno_t"
  os_nonblock :: "nat \<Rightarrow> errno_t"
  os_reuse :: "nat \<Rightarrow> errno_t"
  os_bind :: "nat \<Rightarrow> errno_t"
  os_listen :: "nat \<Rightarrow> errno_t"
  os_connect :: "nat \<Rightarrow> errno_t"
  os_accept :: "nat \<Rightarrow> errno_t + sockaddr_storage \<times> nat"
  os_send :: "nat \<Rightarrow> errno_t + nat"
  os_recv :: "nat \<Rightarrow> errno_t + u8 list"
  os_recvfrom :: "nat \<Rightarrow> errno_t + u8 list \<times> sockaddr_storage \<times> nat"
  os_name :: "nat \<Rightarrow> errno_t + sockaddr_storage \<times> nat"
  os_so_error :: "nat \<Rightarrow> errno_t"
  os_poll :: "nat \<Rightarrow> (int \<times> u16) list \<Rightarrow> u16 list option"
  os_getaddrinfo :: "nat \<Rightarrow> cstring \<Rightarrow> gai_error + (sockaddr_storage \<times> nat) list"
  os_alloc :: "nat \<Rightarrow> bool"
  os_thread :: "nat \<Rightarrow> bool"
  os_detach :: "nat \<Rightarrow> bool"
  os_hostname :: "nat \<Rightarrow> cstring option"
  os_ntop6 :: "u8 list \<Rightarrow> cstring"
  os_multiplayer_host :: "cstring \<Rightarrow> cstring"

definition syscall :: "(nat \<Rightarrow> 'r) \<Rightarrow> sock_state \<Rightarrow> 'r \<times> sock_state" where
  "syscall f st = (f (sk_clock st), st\<lparr>sk_clock := Suc (sk_clock st)\<rparr>)"

definition set_socket_error :: "s3e_socket_error \<Rightarrow> sock_state \<Rightarrow> sock_state" where
  "set_socket_error e st = st\<lparr>g_socket_error := e\<rparr>"

text \<open>A system call that returns a new descriptor, and \<open>close\<close>.\<close>

definition new_fd :: "sock_state \<Rightarrow> int \<times> sock_state" where
  "new_fd st = (int (sk_next_fd st), st\<lparr>sk_open := insert (sk_next_fd st) (sk_open st), sk_next_fd := Suc (sk_next_fd st)\<rparr>)"

definition close_fd :: "int \<Rightarrow> sock_state \<Rightarrow> sock_state" where
  "close_fd fd st =
     (if fd \<ge> 0 \<and> nat fd \<in> sk_open st then st\<lparr>sk_open := sk_open st - {nat fd}\<rparr>
      else st\<lparr>sk_close_error := True\<rparr>)"

definition put_slot :: "nat \<Rightarrow> (socket_slot \<Rightarrow> socket_slot) \<Rightarrow> sock_state \<Rightarrow> sock_state" where
  "put_slot i f st = st\<lparr>g_socket_slots := (g_socket_slots st)[i := f (g_socket_slots st ! i)]\<rparr>"

definition slot_at :: "sock_state \<Rightarrow> nat \<Rightarrow> socket_slot" where
  "slot_at st i = g_socket_slots st ! i"

section \<open>Handles and slots\<close>

definition slot_handle :: "nat \<Rightarrow> ptr" where
  "slot_handle slot = of_nat (S3E_SOCKET_HANDLE_FIRST + slot)"

definition handle_slot :: "ptr \<Rightarrow> sock_state \<Rightarrow> nat option" where
  "handle_slot handle st =
     (if unat handle < S3E_SOCKET_HANDLE_FIRST \<or>
         unat handle \<ge> S3E_SOCKET_HANDLE_FIRST + S3E_SOCKET_SLOT_COUNT then None
      else let slot = unat handle - S3E_SOCKET_HANDLE_FIRST
           in if sk_in_use (slot_at st slot) then Some slot else None)"

definition resolve_socket :: "ptr \<Rightarrow> sock_state \<Rightarrow> nat option \<times> sock_state" where
  "resolve_socket handle st =
     (case handle_slot handle st of
        None \<Rightarrow> (None, set_socket_error SOCKET_ERR_PARAM st) | Some slot \<Rightarrow> (Some slot, st))"

definition next_generation :: "u32 \<Rightarrow> u32" where
  "next_generation g = (if g + 1 = 0 then 1 else g + 1)"

definition allocate_socket_slot :: "int \<Rightarrow> u32 \<Rightarrow> u32 \<Rightarrow> sock_state \<Rightarrow> nat option \<times> sock_state" where
  "allocate_socket_slot fd type domain st =
     (case find_idx (\<lambda>s. \<not> sk_in_use s) (g_socket_slots st) of
        None \<Rightarrow> (None, set_socket_error SOCKET_ERR_TOO_MANY st)
      | Some i \<Rightarrow> (Some i, put_slot i (\<lambda>s. zero_slot\<lparr>sk_fd := fd,
          sk_generation := next_generation (sk_generation s), sk_type := type, sk_domain := domain,
          sk_in_use := True\<rparr>) st))"

definition close_socket_slot :: "nat \<Rightarrow> sock_state \<Rightarrow> sock_state" where
  "close_socket_slot i st =
     (let s = slot_at st i;
          st = (if sk_fd s \<ge> 0 then close_fd (sk_fd s) st else st)
      in put_slot i (\<lambda>_. zero_slot\<lparr>sk_fd := -1, sk_generation := next_generation (sk_generation s)\<rparr>) st)"

definition slot_matches :: "nat \<Rightarrow> u32 \<Rightarrow> sock_state \<Rightarrow> bool" where
  "slot_matches i generation st \<longleftrightarrow> i < S3E_SOCKET_SLOT_COUNT \<and> sk_in_use (slot_at st i) \<and>
     sk_generation (slot_at st i) = generation"

section \<open>Address conversion\<close>

definition address_to_sockaddr ::
  "s3e_inet_address option \<Rightarrow> sock_state \<Rightarrow> (sockaddr_storage \<times> nat) option \<times> sock_state" where
  "address_to_sockaddr address st =
     (case address of
        None \<Rightarrow> (None, set_socket_error SOCKET_ERR_PARAM st)
      | Some a \<Rightarrow>
          if ia_type a AND ADDR_IPV6 \<noteq> 0 then
            (Some (zero_sockaddr\<lparr>ss_family := AF_INET6, ss_port := ia_port a, ss_addr6 := ia_ipv6_address a\<rparr>,
               SIZEOF_SOCKADDR_IN6), st)
          else if ia_type a AND ADDR_LOCAL \<noteq> 0 then (None, set_socket_error SOCKET_ERR_UNSUPPORTED st)
          else (Some (zero_sockaddr\<lparr>ss_family := AF_INET, ss_port := ia_port a, ss_addr := ia_ip_address a\<rparr>,
               SIZEOF_SOCKADDR_IN), st))"

definition sockaddr_to_address :: "sock_os \<Rightarrow> sockaddr_storage \<Rightarrow> nat \<Rightarrow> s3e_inet_address" where
  "sockaddr_to_address os source len =
     (if ss_family source = AF_INET \<and> len \<ge> SIZEOF_SOCKADDR_IN then
        zero_inet_address\<lparr>ia_type := ADDR_IPV4, ia_ip_address := ss_addr source, ia_port := ss_port source,
          ia_string := inet_ntop4 (ss_addr source)\<rparr>
      else if ss_family source = AF_INET6 \<and> len \<ge> SIZEOF_SOCKADDR_IN6 then
        zero_inet_address\<lparr>ia_type := ADDR_IPV6, ia_ipv6_address := ss_addr6 source, ia_port := ss_port source,
          ia_string := os_ntop6 os (ss_addr6 source)\<rparr>
      else zero_inet_address)"

definition address_text :: "sock_os \<Rightarrow> s3e_inet_address \<Rightarrow> cstring" where
  "address_text os a =
     (if ia_type a AND ADDR_IPV6 \<noteq> 0 then os_ntop6 os (ia_ipv6_address a) else inet_ntop4 (ia_ip_address a))"

definition swap16 :: "u16 \<Rightarrow> u16" where
  "swap16 v = push_bit 8 v OR drop_bit 8 v"

definition swap32 :: "u32 \<Rightarrow> u32" where
  "swap32 v = push_bit 24 v OR (push_bit 8 v AND 0xff0000) OR (drop_bit 8 v AND 0xff00) OR drop_bit 24 v"

definition s3eInetHtonl :: "u32 \<Rightarrow> u32" where "s3eInetHtonl v = swap32 v"
definition s3eInetNtohl :: "u32 \<Rightarrow> u32" where "s3eInetNtohl v = swap32 v"
definition s3eInetHtons :: "u16 \<Rightarrow> u16" where "s3eInetHtons v = swap16 v"
definition s3eInetNtohs :: "u16 \<Rightarrow> u16" where "s3eInetNtohs v = swap16 v"

definition s3eInetAton :: "bool \<Rightarrow> cstring option \<Rightarrow> sock_state \<Rightarrow> u32 option \<times> sock_state" where
  "s3eInetAton out address st =
     (case (if out then Option.bind address inet_pton4 else None) of
        None \<Rightarrow> (None, set_socket_error SOCKET_ERR_PARAM st)
      | Some a \<Rightarrow> (Some a, set_socket_error SOCKET_ERR_NONE st))"

text \<open>\<open>buffer\<close> is the size of the guest's buffer, or \<open>None\<close> for a null pointer: then 16 bytes are allocated.\<close>

definition s3eInetNtoa :: "sock_os \<Rightarrow> u32 \<Rightarrow> int option \<Rightarrow> sock_state \<Rightarrow> cstring option \<times> sock_state" where
  "s3eInetNtoa os address buffer st =
     (let (have_buffer, len, st) =
            (case buffer of Some len \<Rightarrow> (True, len, st)
             | None \<Rightarrow> (let (ok, st) = syscall (os_alloc os) st in (ok, 16, st)));
          s = inet_ntop4 address
      in if \<not> have_buffer \<or> len \<le> 0 \<or> int (length s) + 1 > len
         then (None, set_socket_error SOCKET_ERR_PARAM st)
         else (Some s, set_socket_error SOCKET_ERR_NONE st))"

definition s3eInetToString :: "sock_os \<Rightarrow> s3e_inet_address option \<Rightarrow> bool \<Rightarrow> sock_state \<Rightarrow> cstring option \<times> sock_state" where
  "s3eInetToString os address include_port st =
     (case address of
        None \<Rightarrow> (None, set_socket_error SOCKET_ERR_PARAM st)
      | Some a \<Rightarrow>
          (Some (if include_port then
             (if ia_type a AND ADDR_IPV6 \<noteq> 0
              then 91 # address_text os a @ [93, 58] @ decimal (unat (s3eInetNtohs (ia_port a)))
              else address_text os a @ 58 # decimal (unat (s3eInetNtohs (ia_port a))))
             else address_text os a), set_socket_error SOCKET_ERR_NONE st))"

end
