(* ===== verification/Socket.thy ===== *)
theory Socket
  imports Socket_State
begin

text \<open>
  The operations of the socket component (\<open>src/s3e_socket.c\<close>): the guest's calls, the DNS lookup,
  the poll that reports events through one-shot callbacks, and shutdown. The callbacks are run by a
  function \<open>run\<close> over events; it is instantiated at the end of the theory, where a callback makes the
  calls the guest chooses, including calls that pump again, to any depth.
\<close>

section \<open>DNS lookup\<close>

definition free_dns_lookup :: "nat \<Rightarrow> sock_state \<Rightarrow> sock_state" where
  "free_dns_lookup l st =
     (case dns_heap st l of None \<Rightarrow> st\<lparr>dns_heap_error := True\<rparr>
      | Some _ \<Rightarrow> st\<lparr>dns_heap := (dns_heap st)(l := None)\<rparr>)"

definition put_lookup :: "nat \<Rightarrow> (dns_lookup \<Rightarrow> dns_lookup) \<Rightarrow> sock_state \<Rightarrow> sock_state" where
  "put_lookup l f st =
     (case dns_heap st l of None \<Rightarrow> st\<lparr>dns_heap_error := True\<rparr>
      | Some d \<Rightarrow> st\<lparr>dns_heap := (dns_heap st)(l \<mapsto> f d)\<rparr>)"

fun first_inet :: "(sockaddr_storage \<times> nat) list \<Rightarrow> (sockaddr_storage \<times> nat) option" where
  "first_inet [] = None"
| "first_inet ((a, len) # as) =
     (if ss_family a \<noteq> AF_INET \<and> ss_family a \<noteq> AF_INET6 then first_inet as else Some (a, len))"

definition SIZEOF_SOCKADDR_STORAGE :: nat where "SIZEOF_SOCKADDR_STORAGE = 128"

definition resolve_hostname :: "sock_os \<Rightarrow> nat \<Rightarrow> cstring \<Rightarrow> gai_error + sockaddr_storage \<times> nat" where
  "resolve_hostname os n hostname =
     (case os_getaddrinfo os n hostname of
        Inl e \<Rightarrow> Inl e
      | Inr as \<Rightarrow>
          (case first_inet as of
             None \<Rightarrow> Inl EAI_NONAME
           | Some (a, len) \<Rightarrow> if len > SIZEOF_SOCKADDR_STORAGE then Inl EAI_NONAME else Inr (a, len)))"

text \<open>The critical section in which \<open>dns_lookup_thread\<close> stores its result and the free after it.\<close>

definition dns_lookup_thread :: "sock_os \<Rightarrow> nat \<Rightarrow> sock_state \<Rightarrow> sock_state" where
  "dns_lookup_thread os l st =
     (case dns_heap st l of
        None \<Rightarrow> st\<lparr>dns_heap_error := True\<rparr>
      | Some d \<Rightarrow>
          let (r, st) = syscall (\<lambda>n. resolve_hostname os n (dl_hostname d)) st;
              st = put_lookup l (\<lambda>d. d\<lparr>dl_result := r, dl_done := True\<rparr>) st
          in if dl_detached d then free_dns_lookup l st else st)"

definition pump_dns_lookup :: "(sock_event \<Rightarrow> sock_state \<Rightarrow> sock_state) \<Rightarrow> sock_os \<Rightarrow> sock_state \<Rightarrow> sock_state" where
  "pump_dns_lookup run os st =
     (case g_dns_lookup st of
        None \<Rightarrow> st
      | Some l \<Rightarrow>
          (case dns_heap st l of
             None \<Rightarrow> st\<lparr>dns_heap_error := True\<rparr>
           | Some d \<Rightarrow>
               if \<not> dl_done d then st
               else let st = st\<lparr>g_dns_lookup := None\<rparr>;
                        st = (if \<not> dl_cancelled d \<and> dl_callback d \<noteq> 0 then
                               case dl_result d of
                                 Inr (a, len) \<Rightarrow>
                                   let address = (sockaddr_to_address os a len)\<lparr>ia_port := dl_port d\<rparr>;
                                       st = set_socket_error SOCKET_ERR_NONE
                                         (st\<lparr>sk_memory := (sk_memory st)(dl_address d := address)\<rparr>)
                                   in run (Lookup_event (dl_callback d) (Some address) (dl_user_data d)) st
                               | Inl _ \<Rightarrow>
                                   run (Lookup_event (dl_callback d) None (dl_user_data d))
                                     (set_socket_error SOCKET_ERR_UNKNOWN_HOST st)
                              else st)
                    in free_dns_lookup l st))"

text \<open>The part of \<open>s3eInetLookup\<close> after the lookup was allocated.\<close>

definition start_lookup :: "sock_os \<Rightarrow> dns_lookup \<Rightarrow> sock_state \<Rightarrow> bool \<times> sock_state" where
  "start_lookup os lookup st =
     (let l = dns_next st; st = st\<lparr>dns_next := Suc l, dns_heap := (dns_heap st)(l \<mapsto> lookup)\<rparr> in
      if g_dns_lookup st \<noteq> None then
        (False, set_socket_error SOCKET_ERR_ALREADY (free_dns_lookup l st))
      else let st = st\<lparr>g_dns_lookup := Some l\<rparr>; (started, st) = syscall (os_thread os) st in
        if \<not> started then
          (False, set_socket_error SOCKET_ERR_UNAVAIL (free_dns_lookup l (st\<lparr>g_dns_lookup := None\<rparr>)))
        else (True, set_socket_error SOCKET_ERR_NONE st))"

definition s3eInetLookup ::
  "sock_os \<Rightarrow> cstring option \<Rightarrow> ptr \<Rightarrow> ptr \<Rightarrow> ptr \<Rightarrow> sock_state \<Rightarrow> bool \<times> sock_state" where
  "s3eInetLookup os hostname address callback user_data st =
     (if hostname = None \<or> address = 0 then (False, set_socket_error SOCKET_ERR_PARAM st)
      else
        let port = (if ia_port (sk_memory st address) \<noteq> 0 then ia_port (sk_memory st address) else swap16 80);
            host = os_multiplayer_host os (the hostname)
        in if callback = 0 then
             (let (r, st) = syscall (\<lambda>n. resolve_hostname os n host) st in
              case r of
                Inl e \<Rightarrow> (False, set_socket_error (if e = EAI_FAMILY then SOCKET_ERR_PARAM else SOCKET_ERR_UNKNOWN_HOST) st)
              | Inr (a, len) \<Rightarrow>
                  (True, set_socket_error SOCKET_ERR_NONE (st\<lparr>sk_memory := (sk_memory st)
                     (address := (sockaddr_to_address os a len)\<lparr>ia_port := port\<rparr>)\<rparr>)))
           else
             (let (have_memory, st) = syscall (os_alloc os) st in
              if \<not> have_memory then (False, set_socket_error SOCKET_ERR_UNAVAIL st)
              else let (have_name, st) = syscall (os_alloc os) st in
              if \<not> have_name then (False, set_socket_error SOCKET_ERR_UNAVAIL st)
              else start_lookup os
                \<lparr>dl_hostname = host, dl_address = address, dl_callback = callback,
                 dl_user_data = user_data, dl_port = port, dl_result = Inl EAI_NONAME,
                 dl_done = False, dl_cancelled = False, dl_detached = False\<rparr> st))"

definition s3eInetLookupCancel :: "sock_state \<Rightarrow> sock_state" where
  "s3eInetLookupCancel st =
     (case g_dns_lookup st of None \<Rightarrow> st
      | Some l \<Rightarrow> put_lookup l (\<lambda>d. d\<lparr>dl_cancelled := True, dl_callback := 0\<rparr>) st)"

section \<open>Creating, binding and connecting\<close>

definition socket_family :: "u32 \<Rightarrow> nat option" where
  "socket_family domain =
     (if domain = 0 \<or> domain = 2 then Some AF_INET else if domain = 30 then Some AF_INET6 else None)"

definition SOCK_STREAM :: nat where "SOCK_STREAM = 1"
definition SOCK_DGRAM :: nat where "SOCK_DGRAM = 2"
definition SOCK_RAW :: nat where "SOCK_RAW = 3"

definition socket_kind :: "u32 \<Rightarrow> nat option" where
  "socket_kind type = (if type = 0 then Some SOCK_STREAM else if type = 1 then Some SOCK_DGRAM
     else if type = 2 then Some SOCK_RAW else None)"

definition fail_with_errno :: "errno_t \<Rightarrow> sock_state \<Rightarrow> bool \<times> sock_state" where
  "fail_with_errno e st = (False, set_socket_error (map_socket_errno e) st)"

definition s3eSocketCreate :: "sock_os \<Rightarrow> u32 \<Rightarrow> u32 \<Rightarrow> sock_state \<Rightarrow> nat option \<times> sock_state" where
  "s3eSocketCreate os type domain st =
     (if socket_family domain = None \<or> socket_kind type = None
      then (None, set_socket_error SOCKET_ERR_UNSUPPORTED st)
      else let (e, st) = syscall (os_socket os) st in
        if e \<noteq> EOK then (None, set_socket_error (map_socket_errno e) st)
        else let (fd, st) = new_fd st; (e, st) = syscall (os_nonblock os) st in
          if e \<noteq> EOK then (None, set_socket_error (map_socket_errno e) (close_fd fd st))
          else (case allocate_socket_slot fd type domain st of
              (None, st) \<Rightarrow> (None, close_fd fd st)
            | (Some slot, st) \<Rightarrow> (Some slot, set_socket_error SOCKET_ERR_NONE st)))"

definition s3eSocketClose :: "ptr \<Rightarrow> sock_state \<Rightarrow> bool \<times> sock_state" where
  "s3eSocketClose handle st =
     (case handle_slot handle st of
        None \<Rightarrow> (False, set_socket_error SOCKET_ERR_PARAM st)
      | Some slot \<Rightarrow> (True, set_socket_error SOCKET_ERR_NONE (close_socket_slot slot st)))"

definition s3eSocketBind :: "sock_os \<Rightarrow> ptr \<Rightarrow> s3e_inet_address option \<Rightarrow> bool \<Rightarrow> sock_state \<Rightarrow> bool \<times> sock_state" where
  "s3eSocketBind os handle address reuse_address st =
     (case resolve_socket handle st of
        (None, st) \<Rightarrow> (False, st)
      | (Some slot, st) \<Rightarrow>
          (case address_to_sockaddr (Some (case address of None \<Rightarrow> zero_inet_address | Some a \<Rightarrow> a)) st of
             (None, st) \<Rightarrow> (False, st)
           | (Some _, st) \<Rightarrow>
               let (e, st) = (if reuse_address then syscall (os_reuse os) st else (EOK, st)) in
               if e \<noteq> EOK then fail_with_errno e st
               else let (e, st) = syscall (os_bind os) st in
                 if e \<noteq> EOK then fail_with_errno e st
                 else (True, set_socket_error SOCKET_ERR_NONE st)))"

definition s3eSocketListen :: "sock_os \<Rightarrow> ptr \<Rightarrow> sock_state \<Rightarrow> bool \<times> sock_state" where
  "s3eSocketListen os handle st =
     (case resolve_socket handle st of
        (None, st) \<Rightarrow> (False, st)
      | (Some slot, st) \<Rightarrow>
          let (e, st) = syscall (os_listen os) st in
          if e \<noteq> EOK then fail_with_errno e st else (True, set_socket_error SOCKET_ERR_NONE st))"

definition s3eSocketAccept ::
  "sock_os \<Rightarrow> ptr \<Rightarrow> ptr \<Rightarrow> ptr \<Rightarrow> sock_state \<Rightarrow> (nat \<times> s3e_inet_address) option \<times> sock_state" where
  "s3eSocketAccept os handle callback user_data st =
     (case resolve_socket handle st of
        (None, st) \<Rightarrow> (None, st)
      | (Some slot, st) \<Rightarrow>
          let (r, st) = syscall (os_accept os) st in
          case r of
            Inl e \<Rightarrow>
              let st = (if e = EAGAIN \<and> callback \<noteq> 0 then
                  put_slot slot (\<lambda>s. s\<lparr>sk_accept_callback := callback, sk_accept_user_data := user_data,
                    sk_readable_callback := 0, sk_readable_user_data := 0\<rparr>) st else st)
              in (None, set_socket_error (map_socket_errno e) st)
          | Inr (peer, peer_length) \<Rightarrow>
              let (fd, st) = new_fd st; (e, st) = syscall (os_nonblock os) st in
              if e \<noteq> EOK then (None, set_socket_error (map_socket_errno e) (close_fd fd st))
              else (case allocate_socket_slot fd 0 (sk_domain (slot_at st slot)) st of
                  (None, st) \<Rightarrow> (None, close_fd fd st)
                | (Some accepted, st) \<Rightarrow>
                    (Some (accepted, sockaddr_to_address os peer peer_length),
                     set_socket_error SOCKET_ERR_NONE (put_slot slot
                       (\<lambda>s. s\<lparr>sk_accept_callback := 0, sk_accept_user_data := 0\<rparr>) st))))"

definition await_connect :: "bool \<Rightarrow> ptr \<Rightarrow> ptr \<Rightarrow> socket_slot \<Rightarrow> socket_slot" where
  "await_connect pending callback user_data s = s\<lparr>sk_connect_pending := pending,
     sk_connect_callback := callback, sk_connect_user_data := (if callback \<noteq> 0 then user_data else 0)\<rparr>"

definition s3eSocketConnect ::
  "sock_os \<Rightarrow> ptr \<Rightarrow> s3e_inet_address option \<Rightarrow> ptr \<Rightarrow> ptr \<Rightarrow> sock_state \<Rightarrow> bool \<times> sock_state" where
  "s3eSocketConnect os handle address callback user_data st =
     (case resolve_socket handle st of
        (None, st) \<Rightarrow> (False, st)
      | (Some slot, st) \<Rightarrow>
          (case address_to_sockaddr address st of
             (None, st) \<Rightarrow> (False, st)
           | (Some _, st) \<Rightarrow>
               let (e, st) = syscall (os_connect os) st in
               if e = EOK then
                 (True, set_socket_error SOCKET_ERR_NONE
                    (put_slot slot (await_connect (callback \<noteq> 0) callback user_data) st))
               else if e = EINPROGRESS \<or> e = EALREADY then
                 (True, set_socket_error SOCKET_ERR_INPROGRESS
                    (put_slot slot (await_connect True callback user_data) st))
               else fail_with_errno e st))"

section \<open>Sending and receiving\<close>

definition MSG_MORE :: u32 where "MSG_MORE = 0x8000"
definition MSG_NOSIGNAL :: u32 where "MSG_NOSIGNAL = 0x4000"

definition message_flags :: "u32 \<Rightarrow> u32" where
  "message_flags flags = (if flags AND 1 \<noteq> 0 then MSG_MORE else 0)"

definition send_flags :: "u32 \<Rightarrow> u32" where
  "send_flags flags = message_flags flags OR MSG_NOSIGNAL"

text \<open>
  The buffers: \<open>None\<close> is a null pointer. What the system call is given (descriptor, flags, data) is
  its own; its result is the outcome of \<open>os_send\<close> and \<open>os_recv\<close>, with \<open>-1\<close> for a failure.
\<close>

definition s3eSocketSend :: "sock_os \<Rightarrow> ptr \<Rightarrow> u8 list option \<Rightarrow> nat \<Rightarrow> sock_state \<Rightarrow> int \<times> sock_state" where
  "s3eSocketSend os handle buffer len st =
     (case resolve_socket handle st of
        (None, st) \<Rightarrow> (-1, set_socket_error SOCKET_ERR_PARAM st)
      | (Some slot, st) \<Rightarrow>
          if buffer = None \<and> len \<noteq> 0 then (-1, set_socket_error SOCKET_ERR_PARAM st)
          else let (r, st) = syscall (os_send os) st in
            case r of Inl e \<Rightarrow> (-1, set_socket_error (map_socket_errno e) st)
            | Inr n \<Rightarrow> (int n, set_socket_error SOCKET_ERR_NONE st))"

definition s3eSocketSendTo ::
  "sock_os \<Rightarrow> ptr \<Rightarrow> u8 list option \<Rightarrow> nat \<Rightarrow> s3e_inet_address option \<Rightarrow> sock_state \<Rightarrow> int \<times> sock_state" where
  "s3eSocketSendTo os handle buffer len address st =
     (case resolve_socket handle st of
        (None, st) \<Rightarrow> (-1, set_socket_error SOCKET_ERR_PARAM st)
      | (Some slot, st) \<Rightarrow>
          if buffer = None \<and> len \<noteq> 0 then (-1, set_socket_error SOCKET_ERR_PARAM st)
          else case address_to_sockaddr address st of
            (None, st) \<Rightarrow> (-1, st)
          | (Some _, st) \<Rightarrow>
              let (r, st) = syscall (os_send os) st in
              case r of Inl e \<Rightarrow> (-1, set_socket_error (map_socket_errno e) st)
              | Inr n \<Rightarrow> (int n, set_socket_error SOCKET_ERR_NONE st))"

definition s3eSocketRecv ::
  "sock_os \<Rightarrow> ptr \<Rightarrow> bool \<Rightarrow> nat \<Rightarrow> sock_state \<Rightarrow> u8 list option \<times> sock_state" where
  "s3eSocketRecv os handle have_buffer len st =
     (case resolve_socket handle st of
        (None, st) \<Rightarrow> (None, set_socket_error SOCKET_ERR_PARAM st)
      | (Some slot, st) \<Rightarrow>
          if \<not> have_buffer \<and> len \<noteq> 0 then (None, set_socket_error SOCKET_ERR_PARAM st)
          else let (r, st) = syscall (os_recv os) st in
            case r of Inl e \<Rightarrow> (None, set_socket_error (map_socket_errno e) st)
            | Inr bs \<Rightarrow> (Some bs, set_socket_error SOCKET_ERR_NONE st))"

definition s3eSocketRecvFrom ::
  "sock_os \<Rightarrow> ptr \<Rightarrow> bool \<Rightarrow> nat \<Rightarrow> sock_state \<Rightarrow> (u8 list \<times> s3e_inet_address) option \<times> sock_state" where
  "s3eSocketRecvFrom os handle have_buffer len st =
     (case resolve_socket handle st of
        (None, st) \<Rightarrow> (None, set_socket_error SOCKET_ERR_PARAM st)
      | (Some slot, st) \<Rightarrow>
          if \<not> have_buffer \<and> len \<noteq> 0 then (None, set_socket_error SOCKET_ERR_PARAM st)
          else let (r, st) = syscall (os_recvfrom os) st in
            case r of Inl e \<Rightarrow> (None, set_socket_error (map_socket_errno e) st)
            | Inr (bs, source, source_length) \<Rightarrow>
                (Some (bs, sockaddr_to_address os source source_length), set_socket_error SOCKET_ERR_NONE st))"

definition s3eSocketReadable :: "ptr \<Rightarrow> ptr \<Rightarrow> ptr \<Rightarrow> sock_state \<Rightarrow> bool \<times> sock_state" where
  "s3eSocketReadable handle callback user_data st =
     (case resolve_socket handle st of
        (None, st) \<Rightarrow> (False, st)
      | (Some slot, st) \<Rightarrow> (True, set_socket_error SOCKET_ERR_NONE (put_slot slot
          (\<lambda>s. s\<lparr>sk_readable_callback := callback, sk_readable_user_data := (if callback \<noteq> 0 then user_data else 0),
             sk_accept_callback := 0, sk_accept_user_data := 0\<rparr>) st)))"

definition s3eSocketWritable :: "ptr \<Rightarrow> ptr \<Rightarrow> ptr \<Rightarrow> sock_state \<Rightarrow> bool \<times> sock_state" where
  "s3eSocketWritable handle callback user_data st =
     (case resolve_socket handle st of
        (None, st) \<Rightarrow> (False, st)
      | (Some slot, st) \<Rightarrow> (True, set_socket_error SOCKET_ERR_NONE (put_slot slot
          (\<lambda>s. s\<lparr>sk_writable_callback := callback, sk_writable_user_data := (if callback \<noteq> 0 then user_data else 0)\<rparr>) st)))"

definition s3eSocketGetInt :: "u32 \<Rightarrow> sock_state \<Rightarrow> int \<times> sock_state" where
  "s3eSocketGetInt key st =
     (let v = (if key = 0 then Some (int S3E_SOCKET_SLOT_COUNT) else if key = 1 \<or> key = 6 then Some 1
               else if key = 2 then Some 3 else None)
      in case v of None \<Rightarrow> (-1, set_socket_error SOCKET_ERR_PARAM st)
         | Some v \<Rightarrow> (v, set_socket_error SOCKET_ERR_NONE st))"

definition s3eSocketGetString :: "sock_os \<Rightarrow> u32 \<Rightarrow> sock_state \<Rightarrow> cstring option \<times> sock_state" where
  "s3eSocketGetString os key st =
     (if key = 3 \<or> key = 4 then
        let (h, st) = syscall (os_hostname os) st;
            hostname = (case h of None \<Rightarrow> [] | Some s \<Rightarrow> take 255 s)
        in (Some (if key = 3 then tl (dropWhile (\<lambda>c. c \<noteq> 46) hostname) else hostname),
            set_socket_error SOCKET_ERR_NONE st)
      else if key = 5 then (Some [], set_socket_error SOCKET_ERR_NONE st)
      else (None, set_socket_error SOCKET_ERR_PARAM st))"

definition get_socket_name ::
  "sock_os \<Rightarrow> ptr \<Rightarrow> bool \<Rightarrow> sock_state \<Rightarrow> s3e_inet_address option \<times> sock_state" where
  "get_socket_name os handle have_address st =
     (case resolve_socket handle st of
        (None, st) \<Rightarrow> (None, set_socket_error SOCKET_ERR_PARAM st)
      | (Some slot, st) \<Rightarrow>
          if \<not> have_address then (None, set_socket_error SOCKET_ERR_PARAM st)
          else let (r, st) = syscall (os_name os) st in
            case r of Inl e \<Rightarrow> (None, snd (fail_with_errno e st))
            | Inr (a, len) \<Rightarrow> (Some (sockaddr_to_address os a len), set_socket_error SOCKET_ERR_NONE st))"

section \<open>Events\<close>

definition POLLIN :: u16 where "POLLIN = 1"
definition POLLOUT :: u16 where "POLLOUT = 4"
definition POLLERR :: u16 where "POLLERR = 8"
definition POLLHUP :: u16 where "POLLHUP = 16"
definition POLLNVAL :: u16 where "POLLNVAL = 32"

definition in_events :: "u16 \<Rightarrow> bool" where
  "in_events ev \<longleftrightarrow> ev AND (POLLIN OR POLLERR OR POLLHUP OR POLLNVAL) \<noteq> 0"

definition out_events :: "u16 \<Rightarrow> bool" where
  "out_events ev \<longleftrightarrow> ev AND (POLLOUT OR POLLERR OR POLLHUP OR POLLNVAL) \<noteq> 0"

record socket_poll_entry =
  pe_fd :: int
  pe_events :: u16
  pe_slot :: nat
  pe_generation :: u32

text \<open>The four stages of \<open>dispatch_socket_event\<close>; a stage is skipped once the slot stopped matching.\<close>

definition dispatch_connect :: "(sock_event \<Rightarrow> sock_state \<Rightarrow> sock_state) \<Rightarrow> sock_os \<Rightarrow> nat \<Rightarrow> u16 \<Rightarrow> sock_state \<Rightarrow> sock_state" where
  "dispatch_connect run os i events st =
     (let s = slot_at st i in
      if sk_connect_pending s \<and> out_events events then
        let (native_error, st) = syscall (os_so_error os) st;
            st = put_slot i (\<lambda>s. s\<lparr>sk_connect_pending := False, sk_connect_callback := 0, sk_connect_user_data := 0\<rparr>) st;
            st = set_socket_error (map_socket_errno native_error) st
        in if sk_connect_callback s \<noteq> 0
           then run (Connect_event (sk_connect_callback s) (slot_handle i) (native_error = EOK) (sk_connect_user_data s)) st
           else st
      else st)"

definition dispatch_accept :: "(sock_event \<Rightarrow> sock_state \<Rightarrow> sock_state) \<Rightarrow> nat \<Rightarrow> u16 \<Rightarrow> sock_state \<Rightarrow> sock_state" where
  "dispatch_accept run i events st =
     (let s = slot_at st i in
      if sk_accept_callback s \<noteq> 0 \<and> in_events events then
        run (Accept_event (sk_accept_callback s) (slot_handle i) (sk_accept_user_data s))
          (set_socket_error SOCKET_ERR_NONE
            (put_slot i (\<lambda>s. s\<lparr>sk_accept_callback := 0, sk_accept_user_data := 0\<rparr>) st))
      else st)"

definition dispatch_readable :: "(sock_event \<Rightarrow> sock_state \<Rightarrow> sock_state) \<Rightarrow> nat \<Rightarrow> u16 \<Rightarrow> sock_state \<Rightarrow> sock_state" where
  "dispatch_readable run i events st =
     (let s = slot_at st i in
      if sk_readable_callback s \<noteq> 0 \<and> in_events events then
        run (Readable_event (sk_readable_callback s) (slot_handle i) (sk_readable_user_data s))
          (set_socket_error SOCKET_ERR_NONE
            (put_slot i (\<lambda>s. s\<lparr>sk_readable_callback := 0, sk_readable_user_data := 0\<rparr>) st))
      else st)"

definition dispatch_writable :: "(sock_event \<Rightarrow> sock_state \<Rightarrow> sock_state) \<Rightarrow> nat \<Rightarrow> u16 \<Rightarrow> sock_state \<Rightarrow> sock_state" where
  "dispatch_writable run i events st =
     (let s = slot_at st i in
      if sk_writable_callback s \<noteq> 0 \<and> out_events events then
        run (Writable_event (sk_writable_callback s) (slot_handle i) (sk_writable_user_data s))
          (set_socket_error SOCKET_ERR_NONE
            (put_slot i (\<lambda>s. s\<lparr>sk_writable_callback := 0, sk_writable_user_data := 0\<rparr>) st))
      else st)"

definition dispatch_socket_event ::
  "(sock_event \<Rightarrow> sock_state \<Rightarrow> sock_state) \<Rightarrow> sock_os \<Rightarrow> socket_poll_entry \<Rightarrow> u16 \<Rightarrow> sock_state \<Rightarrow> sock_state" where
  "dispatch_socket_event run os entry events st =
     (let i = pe_slot entry; g = pe_generation entry in
      if \<not> slot_matches i g st then st
      else let st = dispatch_connect run os i events st in
      if \<not> slot_matches i g st then st
      else let st = dispatch_accept run i events st in
      if \<not> slot_matches i g st then st
      else let st = dispatch_readable run i events st in
      if \<not> slot_matches i g st then st
      else dispatch_writable run i events st)"

definition interest :: "socket_slot \<Rightarrow> u16" where
  "interest s = (if sk_accept_callback s \<noteq> 0 \<or> sk_readable_callback s \<noteq> 0 then POLLIN else 0) OR
     (if sk_connect_pending s \<or> sk_writable_callback s \<noteq> 0 then POLLOUT else 0)"

definition poll_entries :: "sock_state \<Rightarrow> socket_poll_entry list" where
  "poll_entries st = concat (map (\<lambda>i. let s = slot_at st i in
     if sk_in_use s \<and> interest s \<noteq> 0
     then [\<lparr>pe_fd = sk_fd s, pe_events = interest s, pe_slot = i, pe_generation = sk_generation s\<rparr>]
     else []) [0..<S3E_SOCKET_SLOT_COUNT])"

fun dispatch_entries ::
  "(sock_event \<Rightarrow> sock_state \<Rightarrow> sock_state) \<Rightarrow> sock_os \<Rightarrow> (socket_poll_entry \<times> u16) list \<Rightarrow> sock_state \<Rightarrow> sock_state" where
  "dispatch_entries run os [] st = st"
| "dispatch_entries run os ((entry, revents) # es) st =
     dispatch_entries run os es (if revents = 0 then st else dispatch_socket_event run os entry revents st)"

definition s3e_socket_pump :: "(sock_event \<Rightarrow> sock_state \<Rightarrow> sock_state) \<Rightarrow> sock_os \<Rightarrow> sock_state \<Rightarrow> sock_state" where
  "s3e_socket_pump run os st =
     (let st = pump_dns_lookup run os st; entries = poll_entries st in
      if entries = [] then st
      else let (r, st) = syscall (\<lambda>n. os_poll os n (map (\<lambda>e. (pe_fd e, pe_events e)) entries)) st in
        case r of None \<Rightarrow> st | Some revents \<Rightarrow> dispatch_entries run os (zip entries revents) st)"

definition s3e_socket_shutdown :: "sock_os \<Rightarrow> sock_state \<Rightarrow> sock_state" where
  "s3e_socket_shutdown os st =
     (let st = fold (\<lambda>i st. if sk_in_use (slot_at st i) then close_socket_slot i st else st)
                 [0..<S3E_SOCKET_SLOT_COUNT] st;
          st = (case g_dns_lookup st of
                  None \<Rightarrow> st
                | Some l \<Rightarrow>
                    let st = put_lookup l (\<lambda>d. d\<lparr>dl_cancelled := True, dl_callback := 0\<rparr>) st;
                        done = (case dns_heap st l of None \<Rightarrow> True | Some d \<Rightarrow> dl_done d);
                        (detached, st) = (if done then (False, st) else syscall (os_detach os) st)
                    in if detached then (put_lookup l (\<lambda>d. d\<lparr>dl_detached := True\<rparr>) st)\<lparr>g_dns_lookup := None\<rparr>
                       else let st = (if done then st else dns_lookup_thread os l st)
                            in free_dns_lookup l (st\<lparr>g_dns_lookup := None\<rparr>))
      in set_socket_error SOCKET_ERR_NONE st)"

section \<open>The guest's calls and the machine\<close>

datatype sock_call =
    Sock_Aton bool "cstring option"
  | Sock_Ntoa u32 "int option"
  | Sock_ToString "s3e_inet_address option" bool
  | Sock_Lookup "cstring option" ptr ptr ptr
  | Sock_LookupCancel
  | Sock_Create u32 u32
  | Sock_Close ptr
  | Sock_Bind ptr "s3e_inet_address option" bool
  | Sock_Listen ptr
  | Sock_Accept ptr ptr ptr
  | Sock_Connect ptr "s3e_inet_address option" ptr ptr
  | Sock_Send ptr "u8 list option" nat
  | Sock_SendTo ptr "u8 list option" nat "s3e_inet_address option"
  | Sock_Recv ptr bool nat
  | Sock_RecvFrom ptr bool nat
  | Sock_Readable ptr ptr ptr
  | Sock_Writable ptr ptr ptr
  | Sock_GetInt u32
  | Sock_GetString u32
  | Sock_GetName ptr bool
  | Sock_Memory ptr s3e_inet_address
  | Sock_Yield

text \<open>\<open>Sock_Memory\<close> is the guest writing one of its address structures, \<open>Sock_Yield\<close> any call that pumps.\<close>

fun sock_call_step :: "(sock_state \<Rightarrow> sock_state) \<Rightarrow> sock_os \<Rightarrow> sock_call \<Rightarrow> sock_state \<Rightarrow> sock_state" where
  "sock_call_step pump os (Sock_Aton out a) st = snd (s3eInetAton out a st)"
| "sock_call_step pump os (Sock_Ntoa a b) st = snd (s3eInetNtoa os a b st)"
| "sock_call_step pump os (Sock_ToString a p) st = snd (s3eInetToString os a p st)"
| "sock_call_step pump os (Sock_Lookup h a cb ud) st = snd (s3eInetLookup os h a cb ud st)"
| "sock_call_step pump os Sock_LookupCancel st = s3eInetLookupCancel st"
| "sock_call_step pump os (Sock_Create t d) st = snd (s3eSocketCreate os t d st)"
| "sock_call_step pump os (Sock_Close h) st = snd (s3eSocketClose h st)"
| "sock_call_step pump os (Sock_Bind h a r) st = snd (s3eSocketBind os h a r st)"
| "sock_call_step pump os (Sock_Listen h) st = snd (s3eSocketListen os h st)"
| "sock_call_step pump os (Sock_Accept h cb ud) st = snd (s3eSocketAccept os h cb ud st)"
| "sock_call_step pump os (Sock_Connect h a cb ud) st = snd (s3eSocketConnect os h a cb ud st)"
| "sock_call_step pump os (Sock_Send h b n) st = snd (s3eSocketSend os h b n st)"
| "sock_call_step pump os (Sock_SendTo h b n a) st = snd (s3eSocketSendTo os h b n a st)"
| "sock_call_step pump os (Sock_Recv h b n) st = snd (s3eSocketRecv os h b n st)"
| "sock_call_step pump os (Sock_RecvFrom h b n) st = snd (s3eSocketRecvFrom os h b n st)"
| "sock_call_step pump os (Sock_Readable h cb ud) st = snd (s3eSocketReadable h cb ud st)"
| "sock_call_step pump os (Sock_Writable h cb ud) st = snd (s3eSocketWritable h cb ud st)"
| "sock_call_step pump os (Sock_GetInt k) st = snd (s3eSocketGetInt k st)"
| "sock_call_step pump os (Sock_GetString k) st = snd (s3eSocketGetString os k st)"
| "sock_call_step pump os (Sock_GetName h a) st = snd (get_socket_name os h a st)"
| "sock_call_step pump os (Sock_Memory p a) st = st\<lparr>sk_memory := (sk_memory st)(p := a)\<rparr>"
| "sock_call_step pump os Sock_Yield st = pump st"

type_synonym sock_guest = "sock_state \<Rightarrow> sock_event \<Rightarrow> sock_call list"

text \<open>
  A callback with \<open>d\<close> further levels: the calls it makes may pump, and callbacks run by such a pump
  have one level less; at level 0 a call that pumps finds nothing to report.
\<close>

primrec run_callback :: "nat \<Rightarrow> sock_os \<Rightarrow> sock_guest \<Rightarrow> sock_event \<Rightarrow> sock_state \<Rightarrow> sock_state" where
  "run_callback 0 os guest ev st =
     (let st = st\<lparr>sk_log := ev # sk_log st\<rparr> in fold (sock_call_step (\<lambda>st. st) os) (guest st ev) st)"
| "run_callback (Suc d) os guest ev st =
     (let st = st\<lparr>sk_log := ev # sk_log st\<rparr>
      in fold (sock_call_step (s3e_socket_pump (run_callback d os guest) os) os) (guest st ev) st)"

datatype sock_input = Sock_call sock_call | Sock_pump | Dns_thread nat | Sock_shutdown

text \<open>A DNS thread runs while its lookup is pending or detached.\<close>

definition thread_running :: "nat \<Rightarrow> sock_state \<Rightarrow> bool" where
  "thread_running l st \<longleftrightarrow> (case dns_heap st l of None \<Rightarrow> False | Some d \<Rightarrow> \<not> dl_done d)"

fun sock_step :: "nat \<Rightarrow> sock_os \<Rightarrow> sock_guest \<Rightarrow> sock_input \<Rightarrow> sock_state \<Rightarrow> sock_state" where
  "sock_step d os guest (Sock_call c) st =
     sock_call_step (s3e_socket_pump (run_callback d os guest) os) os c st"
| "sock_step d os guest Sock_pump st = s3e_socket_pump (run_callback d os guest) os st"
| "sock_step d os guest (Dns_thread l) st = (if thread_running l st then dns_lookup_thread os l st else st)"
| "sock_step d os guest Sock_shutdown st = s3e_socket_shutdown os st"

definition sock_initial :: sock_state where
  "sock_initial = \<lparr>g_socket_slots = replicate S3E_SOCKET_SLOT_COUNT zero_slot, g_socket_error = SOCKET_ERR_NONE,
     g_dns_lookup = None, dns_heap = (\<lambda>_. None), dns_next = 0, dns_heap_error = False,
     sk_memory = (\<lambda>_. zero_inet_address), sk_clock = 0, sk_open = {}, sk_next_fd = 0,
     sk_close_error = False, sk_log = []\<rparr>"

text \<open>A system in which every call succeeds, for concrete runs.\<close>

definition sample_os :: sock_os where
  "sample_os = \<lparr>os_socket = (\<lambda>_. EOK), os_nonblock = (\<lambda>_. EOK), os_reuse = (\<lambda>_. EOK), os_bind = (\<lambda>_. EOK),
     os_listen = (\<lambda>_. EOK), os_connect = (\<lambda>_. EINPROGRESS), os_accept = (\<lambda>_. Inl EAGAIN),
     os_send = (\<lambda>_. Inr 0), os_recv = (\<lambda>_. Inr []), os_recvfrom = (\<lambda>_. Inl EAGAIN), os_name = (\<lambda>_. Inl ENOTCONN),
     os_so_error = (\<lambda>_. EOK), os_poll = (\<lambda>_ fds. Some (map snd fds)), os_getaddrinfo = (\<lambda>_ _. Inl EAI_NONAME),
     os_alloc = (\<lambda>_. True), os_thread = (\<lambda>_. True), os_detach = (\<lambda>_. True), os_hostname = (\<lambda>_. None),
     os_ntop6 = (\<lambda>_. []), os_multiplayer_host = (\<lambda>h. h)\<rparr>"

end
