(* ===== verification/Socket_Inv.thy ===== *)
theory Socket_Inv
  imports Socket
begin

text \<open>
  Ownership in the socket component: every open descriptor belongs to exactly one slot, every
  lookup on the heap is the pending one, runs detached, or is being reported. The invariant is kept
  by every call, poll, thread step and callback, to any depth of callbacks that pump again.
\<close>

section \<open>The invariant\<close>

definition used_slots :: "sock_state \<Rightarrow> nat set" where
  "used_slots st = {i. i < S3E_SOCKET_SLOT_COUNT \<and> sk_in_use (slot_at st i)}"

text \<open>\<open>Y\<close> holds the descriptors that an operation has opened and not yet put into a slot.\<close>

definition fd_ok :: "nat set \<Rightarrow> sock_state \<Rightarrow> bool" where
  "fd_ok Y st \<longleftrightarrow> length (g_socket_slots st) = S3E_SOCKET_SLOT_COUNT \<and> \<not> sk_close_error st \<and>
     (\<forall>i \<in> used_slots st. 0 \<le> sk_fd (slot_at st i)) \<and>
     inj_on (\<lambda>i. nat (sk_fd (slot_at st i))) (used_slots st) \<and>
     sk_open st = Y \<union> (\<lambda>i. nat (sk_fd (slot_at st i))) ` used_slots st \<and>
     Y \<inter> (\<lambda>i. nat (sk_fd (slot_at st i))) ` used_slots st = {} \<and>
     (\<forall>n \<in> sk_open st. n < sk_next_fd st)"

text \<open>\<open>X\<close> holds the lookups whose callback is running.\<close>

definition dns_ok :: "nat set \<Rightarrow> sock_state \<Rightarrow> bool" where
  "dns_ok X st \<longleftrightarrow> \<not> dns_heap_error st \<and>
     (\<forall>l d. dns_heap st l = Some d \<longrightarrow> l < dns_next st \<and> (dl_detached d \<longrightarrow> \<not> dl_done d) \<and>
        (l \<in> X \<or> g_dns_lookup st = Some l \<or> dl_detached d)) \<and>
     (\<forall>l \<in> X. \<exists>d. dns_heap st l = Some d \<and> dl_done d) \<and>
     (\<forall>l. g_dns_lookup st = Some l \<longrightarrow> l \<notin> X \<and> (\<exists>d. dns_heap st l = Some d \<and> \<not> dl_detached d))"

definition sock_ok :: "nat set \<Rightarrow> nat set \<Rightarrow> sock_state \<Rightarrow> bool" where
  "sock_ok X Y st \<longleftrightarrow> fd_ok Y st \<and> dns_ok X st"

section \<open>Primitive updates\<close>

lemma slot_at_simps [simp]:
  "slot_at (st\<lparr>g_socket_error := e\<rparr>) = slot_at st" "slot_at (st\<lparr>g_dns_lookup := l\<rparr>) = slot_at st"
  "slot_at (st\<lparr>dns_heap := h\<rparr>) = slot_at st" "slot_at (st\<lparr>dns_next := n\<rparr>) = slot_at st"
  "slot_at (st\<lparr>dns_heap_error := b\<rparr>) = slot_at st" "slot_at (st\<lparr>sk_memory := m\<rparr>) = slot_at st"
  "slot_at (st\<lparr>sk_clock := n\<rparr>) = slot_at st" "slot_at (st\<lparr>sk_open := op\<rparr>) = slot_at st"
  "slot_at (st\<lparr>sk_next_fd := n\<rparr>) = slot_at st" "slot_at (st\<lparr>sk_close_error := b\<rparr>) = slot_at st"
  "slot_at (st\<lparr>sk_log := lg\<rparr>) = slot_at st"
  by (simp_all add: slot_at_def fun_eq_iff)

lemma used_slots_eq: "slot_at st' = slot_at st \<Longrightarrow> used_slots st' = used_slots st"
  by (simp add: used_slots_def)

lemma fd_ok_same:
  "g_socket_slots st' = g_socket_slots st \<Longrightarrow> sk_open st' = sk_open st \<Longrightarrow> sk_next_fd st' = sk_next_fd st \<Longrightarrow>
   sk_close_error st' = sk_close_error st \<Longrightarrow> fd_ok Y st' = fd_ok Y st"
  by (simp add: fd_ok_def used_slots_def slot_at_def)

lemma dns_ok_same:
  "g_dns_lookup st' = g_dns_lookup st \<Longrightarrow> dns_heap st' = dns_heap st \<Longrightarrow> dns_next st' = dns_next st \<Longrightarrow>
   dns_heap_error st' = dns_heap_error st \<Longrightarrow> dns_ok X st' = dns_ok X st"
  by (simp add: dns_ok_def)

lemma fd_ok_simps [simp]:
  "fd_ok Y (st\<lparr>g_socket_error := e\<rparr>) = fd_ok Y st" "fd_ok Y (st\<lparr>g_dns_lookup := l\<rparr>) = fd_ok Y st"
  "fd_ok Y (st\<lparr>dns_heap := h\<rparr>) = fd_ok Y st" "fd_ok Y (st\<lparr>dns_next := n\<rparr>) = fd_ok Y st"
  "fd_ok Y (st\<lparr>dns_heap_error := b\<rparr>) = fd_ok Y st" "fd_ok Y (st\<lparr>sk_memory := m\<rparr>) = fd_ok Y st"
  "fd_ok Y (st\<lparr>sk_clock := n\<rparr>) = fd_ok Y st" "fd_ok Y (st\<lparr>sk_log := lg\<rparr>) = fd_ok Y st"
  by (rule fd_ok_same; simp)+

lemma dns_ok_simps [simp]:
  "dns_ok X (st\<lparr>g_socket_error := e\<rparr>) = dns_ok X st" "dns_ok X (st\<lparr>g_socket_slots := sl\<rparr>) = dns_ok X st"
  "dns_ok X (st\<lparr>sk_memory := m\<rparr>) = dns_ok X st" "dns_ok X (st\<lparr>sk_clock := n\<rparr>) = dns_ok X st"
  "dns_ok X (st\<lparr>sk_log := lg\<rparr>) = dns_ok X st" "dns_ok X (st\<lparr>sk_open := op\<rparr>) = dns_ok X st"
  "dns_ok X (st\<lparr>sk_next_fd := n\<rparr>) = dns_ok X st" "dns_ok X (st\<lparr>sk_close_error := b\<rparr>) = dns_ok X st"
  by (rule dns_ok_same; simp)+

lemma sock_ok_simps [simp]:
  "sock_ok X Y (set_socket_error e st) = sock_ok X Y st"
  "sock_ok X Y (st\<lparr>sk_memory := m\<rparr>) = sock_ok X Y st"
  "sock_ok X Y (st\<lparr>sk_log := lg\<rparr>) = sock_ok X Y st"
  "sock_ok X Y (snd (syscall f st)) = sock_ok X Y st"
  by (simp_all add: sock_ok_def set_socket_error_def syscall_def)

lemma slot_at_put:
  "length (g_socket_slots st) = S3E_SOCKET_SLOT_COUNT \<Longrightarrow> i < S3E_SOCKET_SLOT_COUNT \<Longrightarrow>
   slot_at (put_slot i f st) j = (if j = i then f (slot_at st i) else slot_at st j)"
  by (auto simp: slot_at_def put_slot_def)

lemma put_slot_frame [simp]:
  "sk_open (put_slot i f st) = sk_open st" "sk_next_fd (put_slot i f st) = sk_next_fd st"
  "sk_close_error (put_slot i f st) = sk_close_error st" "g_dns_lookup (put_slot i f st) = g_dns_lookup st"
  "dns_heap (put_slot i f st) = dns_heap st" "dns_next (put_slot i f st) = dns_next st"
  "dns_heap_error (put_slot i f st) = dns_heap_error st" "dns_ok X (put_slot i f st) = dns_ok X st"
  "length (g_socket_slots (put_slot i f st)) = length (g_socket_slots st)"
  by (simp_all add: put_slot_def)

lemma sock_ok_put:
  assumes "sock_ok X Y st" and f: "\<And>s. sk_fd (f s) = sk_fd s" "\<And>s. sk_in_use (f s) = sk_in_use s"
  shows "sock_ok X Y (put_slot i f st)"
proof (cases "i < S3E_SOCKET_SLOT_COUNT")
  case True
  have len: "length (g_socket_slots st) = S3E_SOCKET_SLOT_COUNT" using assms(1) by (simp add: sock_ok_def fd_ok_def)
  have s: "sk_fd (slot_at (put_slot i f st) j) = sk_fd (slot_at st j)"
    "sk_in_use (slot_at (put_slot i f st) j) = sk_in_use (slot_at st j)" for j
    by (simp_all add: slot_at_put[OF len True] f)
  then have "used_slots (put_slot i f st) = used_slots st" by (simp add: used_slots_def)
  with s have "fd_ok Y (put_slot i f st) = fd_ok Y st" by (simp add: fd_ok_def)
  with assms(1) show ?thesis by (simp add: sock_ok_def)
next
  case False
  have "length (g_socket_slots st) = S3E_SOCKET_SLOT_COUNT" using assms(1) by (simp add: sock_ok_def fd_ok_def)
  with False have "put_slot i f st = st" by (simp add: put_slot_def list_update_beyond)
  with assms(1) show ?thesis by simp
qed

lemma sock_ok_new_fd:
  "sock_ok X Y st \<Longrightarrow> sock_ok X (insert (nat (fst (new_fd st))) Y) (snd (new_fd st))"
  "sock_ok X Y st \<Longrightarrow> nat (fst (new_fd st)) \<notin> Y" "0 \<le> fst (new_fd st)"
proof -
  assume ok: "sock_ok X Y st"
  have u: "used_slots (snd (new_fd st)) = used_slots st" "slot_at (snd (new_fd st)) = slot_at st"
    by (simp_all add: new_fd_def used_slots_def)
  from ok have "fd_ok (insert (sk_next_fd st) Y) (snd (new_fd st))"
    by (simp add: sock_ok_def fd_ok_def u) (auto simp: new_fd_def intro: less_SucI)
  with ok show "sock_ok X (insert (nat (fst (new_fd st))) Y) (snd (new_fd st))"
    by (simp add: sock_ok_def new_fd_def)
  from ok show "nat (fst (new_fd st)) \<notin> Y" by (auto simp: new_fd_def sock_ok_def fd_ok_def)
qed (simp add: new_fd_def)

lemma sock_ok_close_fd:
  assumes "sock_ok X (insert (nat fd) Y) st" and "nat fd \<notin> Y" and "0 \<le> fd"
  shows "sock_ok X Y (close_fd fd st)"
proof -
  have o: "nat fd \<in> sk_open st" using assms(1) by (auto simp: sock_ok_def fd_ok_def)
  have u: "used_slots (close_fd fd st) = used_slots st" "slot_at (close_fd fd st) = slot_at st"
    by (simp_all add: close_fd_def used_slots_def)
  have "fd_ok Y (close_fd fd st)"
    using assms o by (simp add: sock_ok_def fd_ok_def u) (auto simp: close_fd_def)
  with assms(1) show ?thesis
    by (simp add: sock_ok_def close_fd_def)
qed

lemma sock_ok_allocate_None:
  "allocate_socket_slot fd t d st = (None, st') \<Longrightarrow> sock_ok X Y st' = sock_ok X Y st"
  by (auto simp: allocate_socket_slot_def split: option.splits)

lemma sock_ok_allocate_Some:
  assumes a: "allocate_socket_slot fd t d st = (Some i, st')" and ok: "sock_ok X (insert (nat fd) Y) st"
    and fd: "nat fd \<notin> Y" "0 \<le> fd"
  shows "sock_ok X Y st'"
proof -
  have len: "length (g_socket_slots st) = S3E_SOCKET_SLOT_COUNT" using ok by (simp add: sock_ok_def fd_ok_def)
  from a have F: "find_idx (\<lambda>s. \<not> sk_in_use s) (g_socket_slots st) = Some i"
    and st': "st' = put_slot i (\<lambda>s. zero_slot\<lparr>sk_fd := fd, sk_generation := next_generation (sk_generation s),
      sk_type := t, sk_domain := d, sk_in_use := True\<rparr>) st"
    by (auto simp: allocate_socket_slot_def simp del: find_idx_None split: option.splits)
  note P = find_idx_SomeD[OF F]
  have i: "i < S3E_SOCKET_SLOT_COUNT" "i \<notin> used_slots st" using P len by (auto simp: used_slots_def slot_at_def)
  have s: "slot_at st' j = (if j = i then zero_slot\<lparr>sk_fd := fd,
      sk_generation := next_generation (sk_generation (slot_at st i)), sk_type := t, sk_domain := d, sk_in_use := True\<rparr>
      else slot_at st j)" for j
    unfolding st' by (rule slot_at_put[OF len i(1)])
  have u: "used_slots st' = insert i (used_slots st)"
    using i by (auto simp: used_slots_def s split: if_splits)
  have img: "(\<lambda>j. nat (sk_fd (slot_at st' j))) ` used_slots st = (\<lambda>j. nat (sk_fd (slot_at st j))) ` used_slots st"
    using i(2) by (intro image_cong) (auto simp: s)
  have inj: "inj_on (\<lambda>j. nat (sk_fd (slot_at st' j))) (used_slots st) =
      inj_on (\<lambda>j. nat (sk_fd (slot_at st j))) (used_slots st)"
    using i(2) by (intro inj_on_cong) (auto simp: s)
  have diff: "used_slots st - {i} = used_slots st" using i(2) by simp
  have si: "sk_fd (slot_at st' i) = fd" by (simp add: s)
  have fr: "sk_open st' = sk_open st" "sk_next_fd st' = sk_next_fd st" "sk_close_error st' = sk_close_error st"
    "length (g_socket_slots st') = length (g_socket_slots st)" by (simp_all add: st')
  have pos: "\<forall>j \<in> used_slots st. 0 \<le> sk_fd (slot_at st' j)"
    using ok i(2) by (auto simp: s sock_ok_def fd_ok_def)
  have "fd_ok Y st'"
    using ok fd i(2) pos unfolding sock_ok_def fd_ok_def u image_insert inj_on_insert diff img si inj fr
    by (auto simp: si)
  with ok show ?thesis by (simp add: sock_ok_def st')
qed

lemma sock_ok_close_slot:
  assumes ok: "sock_ok X Y st" and i: "i \<in> used_slots st"
  shows "sock_ok X Y (close_socket_slot i st)" and "used_slots (close_socket_slot i st) = used_slots st - {i}"
proof -
  have len: "length (g_socket_slots st) = S3E_SOCKET_SLOT_COUNT" using ok by (simp add: sock_ok_def fd_ok_def)
  have i': "i < S3E_SOCKET_SLOT_COUNT" using i by (simp add: used_slots_def)
  let ?fd = "sk_fd (slot_at st i)"
  have fd: "0 \<le> ?fd" "nat ?fd \<in> sk_open st" using ok i by (auto simp: sock_ok_def fd_ok_def)
  let ?c = "st\<lparr>sk_open := sk_open st - {nat ?fd}\<rparr>"
  let ?z = "zero_slot\<lparr>sk_fd := -1, sk_generation := next_generation (sk_generation (slot_at st i))\<rparr>"
  have c: "close_socket_slot i st = put_slot i (\<lambda>_. ?z) ?c"
    using fd by (simp add: close_socket_slot_def close_fd_def Let_def)
  have s: "slot_at (close_socket_slot i st) j = (if j = i then ?z else slot_at st j)" for j
    unfolding c using slot_at_put[of ?c i] len i' by simp
  show u: "used_slots (close_socket_slot i st) = used_slots st - {i}"
    by (auto simp: used_slots_def s zero_slot_def)
  have img: "(\<lambda>j. nat (sk_fd (slot_at (close_socket_slot i st) j))) ` (used_slots st - {i}) =
      (\<lambda>j. nat (sk_fd (slot_at st j))) ` (used_slots st - {i})" by (intro image_cong) (auto simp: s)
  have inj: "inj_on (\<lambda>j. nat (sk_fd (slot_at (close_socket_slot i st) j))) (used_slots st - {i}) =
      inj_on (\<lambda>j. nat (sk_fd (slot_at st j))) (used_slots st - {i})" by (intro inj_on_cong) (auto simp: s)
  have I: "inj_on (\<lambda>j. nat (sk_fd (slot_at st j))) (used_slots st)" using ok by (simp add: sock_ok_def fd_ok_def)
  have minus: "(\<lambda>j. nat (sk_fd (slot_at st j))) ` (used_slots st - {i}) =
      (\<lambda>j. nat (sk_fd (slot_at st j))) ` used_slots st - {nat ?fd}"
    using inj_on_image_set_diff[OF I, of "used_slots st" "{i}"] i by simp
  have fr: "sk_open (close_socket_slot i st) = sk_open st - {nat ?fd}"
    "sk_next_fd (close_socket_slot i st) = sk_next_fd st" "sk_close_error (close_socket_slot i st) = sk_close_error st"
    "length (g_socket_slots (close_socket_slot i st)) = length (g_socket_slots st)" by (simp_all add: c)
  have pos: "\<forall>j \<in> used_slots st - {i}. 0 \<le> sk_fd (slot_at (close_socket_slot i st) j)"
    using ok by (auto simp: s sock_ok_def fd_ok_def)
  have "fd_ok Y (close_socket_slot i st)"
    unfolding fd_ok_def u inj img minus fr
    using ok i pos inj_on_subset[OF I, of "used_slots st - {i}"] by (auto simp: sock_ok_def fd_ok_def)
  with ok show "sock_ok X Y (close_socket_slot i st)"
    by (simp add: sock_ok_def c)
qed

section \<open>Lookups\<close>

lemma sock_ok_put_lookup:
  assumes "sock_ok X Y st" and "dns_heap st l \<noteq> None"
    and f: "\<And>d. dl_done (f d) = dl_done d" "\<And>d. dl_detached (f d) = dl_detached d"
  shows "sock_ok X Y (put_lookup l f st)"
proof -
  obtain d where d: "dns_heap st l = Some d" using assms(2) by auto
  have "dl_done d" if "l \<in> X" using assms(1) that d by (force simp: sock_ok_def dns_ok_def)
  with assms(1) d f show ?thesis by (auto simp: put_lookup_def sock_ok_def dns_ok_def)
qed

lemma sock_ok_pop:
  assumes "sock_ok X Y st" and "g_dns_lookup st = Some l" and "dns_heap st l = Some d" and "dl_done d"
  shows "sock_ok (insert l X) Y (st\<lparr>g_dns_lookup := None\<rparr>)" and "l \<notin> X"
  using assms by (auto simp: sock_ok_def dns_ok_def)

lemma sock_ok_free:
  assumes "sock_ok (insert l X) Y st" and "l \<notin> X"
  shows "sock_ok X Y (free_dns_lookup l st)"
proof -
  obtain d where d: "dns_heap st l = Some d" "dl_done d" using assms(1) by (auto simp: sock_ok_def dns_ok_def)
  with assms show ?thesis
    by (auto simp: free_dns_lookup_def sock_ok_def dns_ok_def)
qed

lemma sock_ok_thread:
  assumes "sock_ok X Y st" and "thread_running l st"
  shows "sock_ok X Y (dns_lookup_thread os l st)"
proof -
  obtain d where d: "dns_heap st l = Some d" "\<not> dl_done d"
    using assms(2) by (auto simp: thread_running_def split: option.splits)
  from assms(1) d have l: "l \<notin> X" "dl_detached d \<Longrightarrow> g_dns_lookup st \<noteq> Some l"
    by (auto simp: sock_ok_def dns_ok_def)
  show ?thesis
    using assms(1) d l
    by (auto simp: dns_lookup_thread_def syscall_def put_lookup_def free_dns_lookup_def Let_def sock_ok_def dns_ok_def)
qed

lemma sock_ok_start:
  assumes "sock_ok X Y st" and "\<not> dl_detached d" and "\<not> dl_done d"
  shows "sock_ok X Y (snd (start_lookup os d st))"
proof -
  have n: "dns_next st \<notin> X" using assms(1) unfolding sock_ok_def dns_ok_def by blast
  show ?thesis
proof (cases "g_dns_lookup st")
  case None
  with n assms show ?thesis
    by (auto simp: start_lookup_def Let_def split_beta syscall_def free_dns_lookup_def set_socket_error_def
        sock_ok_def dns_ok_def less_Suc_eq)
next
  case (Some l)
  with n assms show ?thesis
    by (auto simp: start_lookup_def Let_def free_dns_lookup_def sock_ok_def dns_ok_def less_Suc_eq
        set_socket_error_def)
qed
qed

lemma sock_ok_lookup: "sock_ok X Y st \<Longrightarrow> sock_ok X Y (snd (s3eInetLookup os h a cb ud st))"
  by (auto simp: s3eInetLookup_def Let_def split_beta sock_ok_start split: sum.split)

lemma sock_ok_cancel: "sock_ok X Y st \<Longrightarrow> sock_ok X Y (s3eInetLookupCancel st)"
proof (cases "g_dns_lookup st")
  case (Some l)
  assume ok: "sock_ok X Y st"
  with Some have "dns_heap st l \<noteq> None" by (auto simp: sock_ok_def dns_ok_def)
  with ok Some show ?thesis by (simp add: s3eInetLookupCancel_def sock_ok_put_lookup)
qed (simp add: s3eInetLookupCancel_def)

section \<open>The calls\<close>

lemma sock_ok_resolve [simp]: "sock_ok X Y (snd (resolve_socket h st)) = sock_ok X Y st"
  by (simp add: resolve_socket_def split: option.split)

lemma sock_ok_address [simp]: "sock_ok X Y (snd (address_to_sockaddr a st)) = sock_ok X Y st"
  by (simp add: address_to_sockaddr_def split: option.split)

lemma sock_ok_fail [simp]: "sock_ok X Y (snd (fail_with_errno e st)) = sock_ok X Y st"
  by (simp add: fail_with_errno_def)

lemma syscall_fst_snd: "syscall f st = (r, st') \<Longrightarrow> st' = snd (syscall f st)"
  by simp

lemma sock_ok_allocate:
  assumes ok: "sock_ok X (insert (nat fd) Y) st" and fd: "nat fd \<notin> Y" "0 \<le> fd"
  shows "fst (allocate_socket_slot fd t d st) = None \<Longrightarrow>
      sock_ok X Y (close_fd fd (snd (allocate_socket_slot fd t d st)))"
    and "fst (allocate_socket_slot fd t d st) = Some i \<Longrightarrow> sock_ok X Y (snd (allocate_socket_slot fd t d st))"
proof -
  assume "fst (allocate_socket_slot fd t d st) = None"
  then have "allocate_socket_slot fd t d st = (None, snd (allocate_socket_slot fd t d st))"
    by (simp add: prod_eq_iff)
  from sock_ok_allocate_None[OF this, of X "insert (nat fd) Y"] ok
  show "sock_ok X Y (close_fd fd (snd (allocate_socket_slot fd t d st)))"
    using fd by (intro sock_ok_close_fd) auto
next
  assume "fst (allocate_socket_slot fd t d st) = Some i"
  then have "allocate_socket_slot fd t d st = (Some i, snd (allocate_socket_slot fd t d st))"
    by (simp add: prod_eq_iff)
  from sock_ok_allocate_Some[OF this ok fd] show "sock_ok X Y (snd (allocate_socket_slot fd t d st))" .
qed

lemma sock_ok_create: "sock_ok X Y st \<Longrightarrow> sock_ok X Y (snd (s3eSocketCreate os t d st))"
proof -
  assume ok: "sock_ok X Y st"
  let ?s1 = "snd (syscall (os_socket os) st)"
  let ?s2 = "snd (new_fd ?s1)" and ?fd = "fst (new_fd ?s1)"
  let ?s3 = "snd (syscall (os_nonblock os) ?s2)"
  have n: "sock_ok X (insert (nat ?fd) Y) ?s3" "nat ?fd \<notin> Y" "0 \<le> ?fd"
    using sock_ok_new_fd(1,2)[of X Y ?s1] sock_ok_new_fd(3)[of ?s1] ok by simp_all
  with ok sock_ok_close_fd[OF n] sock_ok_allocate[OF n] show ?thesis
    by (simp add: s3eSocketCreate_def Let_def split_beta split: option.split)
qed

lemma sock_ok_accept: "sock_ok X Y st \<Longrightarrow> sock_ok X Y (snd (s3eSocketAccept os h cb ud st))"
proof -
  assume ok: "sock_ok X Y st"
  let ?s0 = "snd (resolve_socket h st)"
  let ?s1 = "snd (syscall (os_accept os) ?s0)"
  let ?s2 = "snd (new_fd ?s1)" and ?fd = "fst (new_fd ?s1)"
  let ?s3 = "snd (syscall (os_nonblock os) ?s2)"
  have n: "sock_ok X (insert (nat ?fd) Y) ?s3" "nat ?fd \<notin> Y" "0 \<le> ?fd"
    using sock_ok_new_fd(1,2)[of X Y ?s1] sock_ok_new_fd(3)[of ?s1] ok by simp_all
  with ok sock_ok_close_fd[OF n] sock_ok_allocate[OF n] show ?thesis
    by (simp add: s3eSocketAccept_def Let_def split_beta sock_ok_put split: option.split sum.split)
qed

lemma sock_ok_close: "sock_ok X Y st \<Longrightarrow> sock_ok X Y (snd (s3eSocketClose h st))"
  using sock_ok_close_slot(1)[of X Y st]
  by (auto simp: s3eSocketClose_def handle_slot_def used_slots_def Let_def split: option.splits if_splits)

lemma sock_ok_calls:
  "sock_ok X Y st \<Longrightarrow> sock_ok X Y (snd (s3eSocketBind os h a r st))"
  "sock_ok X Y st \<Longrightarrow> sock_ok X Y (snd (s3eSocketListen os h st))"
  "sock_ok X Y st \<Longrightarrow> sock_ok X Y (snd (s3eSocketConnect os h a cb ud st))"
  "sock_ok X Y st \<Longrightarrow> sock_ok X Y (snd (s3eSocketSend os h b n st))"
  "sock_ok X Y st \<Longrightarrow> sock_ok X Y (snd (s3eSocketSendTo os h b n a st))"
  "sock_ok X Y st \<Longrightarrow> sock_ok X Y (snd (s3eSocketRecv os h hb n st))"
  "sock_ok X Y st \<Longrightarrow> sock_ok X Y (snd (s3eSocketRecvFrom os h hb n st))"
  "sock_ok X Y st \<Longrightarrow> sock_ok X Y (snd (s3eSocketReadable h cb ud st))"
  "sock_ok X Y st \<Longrightarrow> sock_ok X Y (snd (s3eSocketWritable h cb ud st))"
  "sock_ok X Y st \<Longrightarrow> sock_ok X Y (snd (get_socket_name os h ha st))"
  by (auto split: option.split sum.split
      simp: split_beta sock_ok_put await_connect_def s3eSocketBind_def s3eSocketListen_def s3eSocketConnect_def s3eSocketSend_def
      s3eSocketSendTo_def s3eSocketRecv_def s3eSocketRecvFrom_def s3eSocketReadable_def
      s3eSocketWritable_def get_socket_name_def Let_def)

lemma sock_ok_text_calls:
  "sock_ok X Y st \<Longrightarrow> sock_ok X Y (snd (s3eInetAton out a st))"
  "sock_ok X Y st \<Longrightarrow> sock_ok X Y (snd (s3eInetNtoa os n b st))"
  "sock_ok X Y st \<Longrightarrow> sock_ok X Y (snd (s3eInetToString os ad p st))"
  "sock_ok X Y st \<Longrightarrow> sock_ok X Y (snd (s3eSocketGetInt k st))"
  "sock_ok X Y st \<Longrightarrow> sock_ok X Y (snd (s3eSocketGetString os k st))"
  by (auto split: option.split simp: split_beta s3eInetAton_def s3eInetNtoa_def s3eInetToString_def
      s3eSocketGetInt_def s3eSocketGetString_def Let_def)

lemma sock_ok_call:
  assumes "sock_ok X {} st" and "\<And>st. sock_ok X {} st \<Longrightarrow> sock_ok X {} (pump st)"
  shows "sock_ok X {} (sock_call_step pump os c st)"
  using assms by (cases c) (simp_all add: sock_ok_text_calls sock_ok_lookup sock_ok_cancel sock_ok_create
      sock_ok_close sock_ok_accept sock_ok_calls)

section \<open>Polls and callbacks\<close>

text \<open>What is asked of the function that runs callbacks: it keeps the invariant, whichever lookups are
  being reported.\<close>

definition run_safe :: "(sock_event \<Rightarrow> sock_state \<Rightarrow> sock_state) \<Rightarrow> bool" where
  "run_safe run \<longleftrightarrow> (\<forall>X ev st. sock_ok X {} st \<longrightarrow> sock_ok X {} (run ev st))"

lemma run_safeD: "run_safe run \<Longrightarrow> sock_ok X {} st \<Longrightarrow> sock_ok X {} (run ev st)"
  by (simp add: run_safe_def)

lemma sock_ok_pump_dns:
  assumes "run_safe run" and ok: "sock_ok X {} st"
  shows "sock_ok X {} (pump_dns_lookup run os st)"
proof (cases "g_dns_lookup st")
  case (Some l)
  with ok obtain d where d: "dns_heap st l = Some d" by (auto simp: sock_ok_def dns_ok_def)
  show ?thesis
  proof (cases "dl_done d")
    case True
    note pop = sock_ok_pop[OF ok Some d True]
    have "sock_ok (insert l X) {} (run ev (set_socket_error e (st\<lparr>g_dns_lookup := None\<rparr>)))"
      "sock_ok (insert l X) {} (run ev (set_socket_error e (st\<lparr>g_dns_lookup := None, sk_memory := m\<rparr>)))" for ev e m
      using pop(1) run_safeD[OF assms(1), of "insert l X"] by simp_all
    with pop True Some d show ?thesis
      by (auto simp: pump_dns_lookup_def Let_def intro!: sock_ok_free split: sum.split)
  qed (use ok Some d in \<open>simp add: pump_dns_lookup_def\<close>)
qed (use ok in \<open>simp add: pump_dns_lookup_def\<close>)

lemma sock_ok_stages:
  assumes run: "run_safe run" and ok: "sock_ok X {} st"
  shows "sock_ok X {} (dispatch_connect run os i ev st)" "sock_ok X {} (dispatch_accept run i ev st)"
    "sock_ok X {} (dispatch_readable run i ev st)" "sock_ok X {} (dispatch_writable run i ev st)"
  using ok by (auto simp: dispatch_connect_def dispatch_accept_def dispatch_readable_def dispatch_writable_def
      Let_def split_beta sock_ok_put intro!: run_safeD[OF run])

lemma sock_ok_dispatch:
  assumes run: "run_safe run" and ok: "sock_ok X {} st"
  shows "sock_ok X {} (dispatch_socket_event run os entry ev st)"
  unfolding dispatch_socket_event_def Let_def using ok by (simp add: sock_ok_stages[OF run])

lemma sock_ok_entries: "run_safe run \<Longrightarrow> sock_ok X {} st \<Longrightarrow> sock_ok X {} (dispatch_entries run os es st)"
  by (induction run os es st rule: dispatch_entries.induct) (auto simp: sock_ok_dispatch)

lemma sock_ok_pump:
  assumes run: "run_safe run" and ok: "sock_ok X {} st"
  shows "sock_ok X {} (s3e_socket_pump run os st)"
  using sock_ok_pump_dns[OF run ok]
  by (auto simp: s3e_socket_pump_def Let_def split_beta sock_ok_entries[OF run] split: option.split)

lemma sock_ok_fold_calls:
  assumes "sock_ok X {} st" and "\<And>st. sock_ok X {} st \<Longrightarrow> sock_ok X {} (pump st)"
  shows "sock_ok X {} (fold (sock_call_step pump os) cs st)"
  using assms by (induction cs arbitrary: st) (auto intro: sock_ok_call)

lemma run_callback_safe: "run_safe (run_callback d os guest)"
proof (induction d)
  case 0
  show ?case by (auto simp: run_safe_def Let_def intro!: sock_ok_fold_calls)
next
  case (Suc d)
  show ?case unfolding run_safe_def
    by (intro allI impI) (simp add: Let_def sock_ok_fold_calls sock_ok_pump[OF Suc])
qed

section \<open>Shutdown\<close>

lemma sock_ok_close_all:
  assumes "set is \<subseteq> {..<S3E_SOCKET_SLOT_COUNT}" and "sock_ok X Y st"
  shows "sock_ok X Y (fold (\<lambda>i st. if sk_in_use (slot_at st i) then close_socket_slot i st else st) is st) \<and>
    used_slots (fold (\<lambda>i st. if sk_in_use (slot_at st i) then close_socket_slot i st else st) is st) =
      used_slots st - set is"
  using assms
proof (induction "is" arbitrary: st)
  case (Cons i "is")
  show ?case
  proof (cases "sk_in_use (slot_at st i)")
    case True
    then have "i \<in> used_slots st" using Cons.prems(1) by (simp add: used_slots_def)
    from Cons.IH[OF _ sock_ok_close_slot(1)[OF Cons.prems(2) this]] sock_ok_close_slot(2)[OF Cons.prems(2) this]
    show ?thesis using True Cons.prems(1) by auto
  next
    case False
    then have "i \<notin> used_slots st" by (simp add: used_slots_def)
    with Cons False show ?thesis by auto
  qed
qed simp

lemma sock_ok_shutdown:
  assumes "sock_ok {} Y st"
  shows "sock_ok {} Y (s3e_socket_shutdown os st)" and "used_slots (s3e_socket_shutdown os st) = {}"
    and "g_dns_lookup (s3e_socket_shutdown os st) = None"
proof -
  let ?c = "fold (\<lambda>i st. if sk_in_use (slot_at st i) then close_socket_slot i st else st) [0..<S3E_SOCKET_SLOT_COUNT] st"
  have "used_slots st - set [0..<S3E_SOCKET_SLOT_COUNT] = {}" by (auto simp: used_slots_def)
  moreover have "set [0..<S3E_SOCKET_SLOT_COUNT] \<subseteq> {..<S3E_SOCKET_SLOT_COUNT}" by auto
  note sock_ok_close_all[OF this assms]
  ultimately have c: "sock_ok {} Y ?c" "used_slots ?c = {}" by simp_all
  define c where "c = ?c"
  note ok = c(1)[folded c_def] and us = c(2)[folded c_def]
  have "sock_ok {} Y (s3e_socket_shutdown os st) \<and> used_slots (s3e_socket_shutdown os st) = {} \<and>
      g_dns_lookup (s3e_socket_shutdown os st) = None"
  proof (cases "g_dns_lookup c")
    case None
    with ok us show ?thesis by (simp add: s3e_socket_shutdown_def c_def[symmetric] set_socket_error_def used_slots_def
          sock_ok_def)
  next
    case (Some l)
    with ok obtain d where d: "dns_heap c l = Some d" "\<not> dl_detached d" "l < dns_next c"
      by (fastforce simp: sock_ok_def dns_ok_def)
    have us': "{i. i < S3E_SOCKET_SLOT_COUNT \<and> sk_in_use (slot_at c i)} = {}" using us by (simp add: used_slots_def)
    show ?thesis
      using ok Some d us'
      by (auto simp: s3e_socket_shutdown_def c_def[symmetric] Let_def split_beta put_lookup_def syscall_def
          free_dns_lookup_def set_socket_error_def dns_lookup_thread_def used_slots_def sock_ok_def dns_ok_def
          split: if_splits)
  qed
  then show "sock_ok {} Y (s3e_socket_shutdown os st)" "used_slots (s3e_socket_shutdown os st) = {}"
    "g_dns_lookup (s3e_socket_shutdown os st) = None" by blast+
qed

section \<open>The machine\<close>

lemma sock_ok_step: "sock_ok {} {} st \<Longrightarrow> sock_ok {} {} (sock_step d os guest e st)"
  by (cases e) (simp_all add: sock_ok_call sock_ok_pump[OF run_callback_safe] sock_ok_thread sock_ok_shutdown)

interpretation socket_machine: invariant_machine "sock_step d os guest" "sock_ok {} {}" for d os guest
  by unfold_locales (rule sock_ok_step)

lemma sock_initial_ok: "sock_ok {} {} sock_initial"
proof -
  have "used_slots sock_initial = {}" by (auto simp: sock_initial_def used_slots_def slot_at_def zero_slot_def)
  then show ?thesis by (simp add: sock_ok_def fd_ok_def dns_ok_def) (simp add: sock_initial_def)
qed

end
