(* ===== verification/Socket_Properties.thy ===== *)
theory Socket_Properties
  imports Socket_Inv
begin

text \<open>
  What the socket component promises: descriptors and lookups are owned, handles are exclusive,
  events of a socket that is gone are dropped, callbacks are one-shot and say what happened, and the
  address conversions are inverse to each other.
\<close>

section \<open>Ownership\<close>

lemma dns_heap_dom:
  assumes "dns_ok {} st"
  shows "dom (dns_heap st) = set_option (g_dns_lookup st) \<union> {l. map_option dl_detached (dns_heap st l) = Some True}"
proof (rule set_eqI)
  fix l
  show "l \<in> dom (dns_heap st) \<longleftrightarrow>
      l \<in> set_option (g_dns_lookup st) \<union> {l. map_option dl_detached (dns_heap st l) = Some True}"
    using assms by (cases "dns_heap st l") (force simp: dns_ok_def)+
qed

text \<open>C11: whatever the guest calls, whatever the system calls return and however deep callbacks pump
  again: no descriptor is closed twice or leaked, the open ones are those of the sockets in use, each
  of one socket; no DNS lookup is used after it was freed or leaked, every one on the heap is the
  pending one or still running after a shutdown.\<close>

theorem sockets_own_descriptors:
  "let st = fold (sock_step d os guest) inputs sock_initial
   in \<not> sk_close_error st \<and> sk_open st = (\<lambda>i. nat (sk_fd (slot_at st i))) ` used_slots st \<and>
      inj_on (\<lambda>i. nat (sk_fd (slot_at st i))) (used_slots st) \<and> \<not> dns_heap_error st \<and>
      dom (dns_heap st) = set_option (g_dns_lookup st) \<union> {l. map_option dl_detached (dns_heap st l) = Some True}"
proof -
  have "sock_ok {} {} (fold (sock_step d os guest) inputs sock_initial)"
    by (rule socket_machine.run_inv[OF sock_initial_ok])
  then show ?thesis using dns_heap_dom by (simp add: Let_def sock_ok_def fd_ok_def dns_ok_def)
qed

text \<open>shutdown closes every descriptor, frees the pending lookup or leaves it to its thread, and
  leaves no socket in use.\<close>

theorem socket_shutdown_releases:
  "let st = s3e_socket_shutdown os (fold (sock_step d os guest) inputs sock_initial)
   in sk_open st = {} \<and> used_slots st = {} \<and> g_dns_lookup st = None \<and> \<not> sk_close_error st \<and>
      \<not> dns_heap_error st \<and> dom (dns_heap st) = {l. map_option dl_detached (dns_heap st l) = Some True}"
proof -
  have ok: "sock_ok {} {} (fold (sock_step d os guest) inputs sock_initial)"
    by (rule socket_machine.run_inv[OF sock_initial_ok])
  from sock_ok_shutdown[OF ok, of os] dns_heap_dom[of "s3e_socket_shutdown os _"] show ?thesis
    by (simp add: Let_def sock_ok_def fd_ok_def dns_ok_def)
qed

section \<open>Handles\<close>

interpretation socket_handles: slot_table sk_in_use g_socket_slots
  "\<lambda>(fd, t, d) st. allocate_socket_slot fd t d st" close_socket_slot
proof
  fix v :: "int \<times> u32 \<times> u32" and s i s'
  assume "(\<lambda>(fd, t, d) st. allocate_socket_slot fd t d st) v s = (Some i, s')"
  then obtain fd t d where a: "allocate_socket_slot fd t d s = (Some i, s')" by (cases v) auto
  then have F: "find_idx (\<lambda>x. \<not> sk_in_use x) (g_socket_slots s) = Some i"
    by (auto simp: allocate_socket_slot_def simp del: find_idx_None split: option.splits)
  from a F find_idx_SomeD[OF F]
  show "find_idx (\<lambda>x. \<not> sk_in_use x) (g_socket_slots s) = Some i \<and> length (g_socket_slots s') = length (g_socket_slots s) \<and>
      sk_in_use (g_socket_slots s' ! i) \<and> (\<forall>j < length (g_socket_slots s). j \<noteq> i \<longrightarrow> g_socket_slots s' ! j = g_socket_slots s ! j)"
    by (auto simp: allocate_socket_slot_def put_slot_def)
next
  fix v :: "int \<times> u32 \<times> u32" and s s'
  assume "(\<lambda>(fd, t, d) st. allocate_socket_slot fd t d st) v s = (None, s')"
  then show "length (g_socket_slots s') = length (g_socket_slots s) \<and>
      (\<forall>j < length (g_socket_slots s). (sk_in_use (g_socket_slots s ! j) \<longrightarrow> g_socket_slots s' ! j = g_socket_slots s ! j) \<and>
        (\<not> sk_in_use (g_socket_slots s ! j) \<longrightarrow> \<not> sk_in_use (g_socket_slots s' ! j)))"
    by (auto simp: allocate_socket_slot_def set_socket_error_def split: option.splits prod.splits)
next
  fix i and s :: sock_state
  show "length (g_socket_slots (close_socket_slot i s)) = length (g_socket_slots s) \<and>
      (\<forall>j < length (g_socket_slots s). j \<noteq> i \<longrightarrow> g_socket_slots (close_socket_slot i s) ! j = g_socket_slots s ! j)"
    by (auto simp: close_socket_slot_def put_slot_def close_fd_def Let_def)
next
  fix i and s :: sock_state
  assume "i < length (g_socket_slots s)"
  then show "\<not> sk_in_use (g_socket_slots (close_socket_slot i s) ! i)"
    by (auto simp: close_socket_slot_def put_slot_def close_fd_def Let_def zero_slot_def)
qed

lemma unat_slot_handle: "i < S3E_SOCKET_SLOT_COUNT \<Longrightarrow> unat (slot_handle i) = S3E_SOCKET_HANDLE_FIRST + i"
  unfolding slot_handle_def S3E_SOCKET_SLOT_COUNT_def S3E_SOCKET_HANDLE_FIRST_def
  by (subst unat_of_nat) simp

lemma handle_slot_of_handle:
  "i < S3E_SOCKET_SLOT_COUNT \<Longrightarrow> sk_in_use (slot_at st i) \<Longrightarrow> handle_slot (slot_handle i) st = Some i"
  by (simp add: handle_slot_def unat_slot_handle Let_def)

lemma slots_frame [simp]:
  "g_socket_slots (set_socket_error e st) = g_socket_slots st"
  "g_socket_slots (snd (syscall f st)) = g_socket_slots st"
  "g_socket_slots (snd (new_fd st)) = g_socket_slots st" "g_socket_slots (close_fd fd st) = g_socket_slots st"
  by (simp_all add: set_socket_error_def syscall_def new_fd_def close_fd_def)

text \<open>What a create does to the slots: it fails and leaves them, or it is one allocation.\<close>

lemma create_slots:
  "(fst (s3eSocketCreate os t d st) = None \<and> g_socket_slots (snd (s3eSocketCreate os t d st)) = g_socket_slots st) \<or>
   (\<exists>fd s i. g_socket_slots s = g_socket_slots st \<and> fst (s3eSocketCreate os t d st) = Some i \<and>
      fst (allocate_socket_slot fd t d s) = Some i \<and>
      g_socket_slots (snd (s3eSocketCreate os t d st)) = g_socket_slots (snd (allocate_socket_slot fd t d s)))"
proof -
  let ?s1 = "snd (syscall (os_socket os) st)"
  let ?s2 = "snd (new_fd ?s1)" and ?fd = "fst (new_fd ?s1)"
  let ?s3 = "snd (syscall (os_nonblock os) ?s2)"
  let ?a = "allocate_socket_slot ?fd t d ?s3" and ?c = "s3eSocketCreate os t d st"
  have s: "g_socket_slots ?s3 = g_socket_slots st" by simp
  have none: "g_socket_slots (snd ?a) = g_socket_slots st" if "fst ?a = None"
    using that by (auto simp: allocate_socket_slot_def simp del: find_idx_None split: option.splits)
  show ?thesis
  proof (cases "fst ?c")
    case None
    then have "g_socket_slots (snd ?c) = g_socket_slots st"
      using none by (auto simp: s3eSocketCreate_def Let_def split_beta split: if_splits option.splits)
    with None show ?thesis by simp
  next
    case (Some i)
    then have "fst ?a = Some i" "g_socket_slots (snd ?c) = g_socket_slots (snd ?a)"
      by (auto simp: s3eSocketCreate_def Let_def split_beta split: if_splits option.splits)
    with s Some show ?thesis by blast
  qed
qed

text \<open>a created socket takes a slot that was free and leaves every socket in use as it was, a failed
  create changes no socket, the new handle resolves to the new slot, closing frees exactly the slot of
  the handle, and a create succeeds only when fewer than 32 sockets are in use.\<close>

theorem socket_handles_exclusive:
  "let st = fold (sock_step n os guest) inputs sock_initial; live = live_slots sk_in_use (g_socket_slots st);
       (r, st') = s3eSocketCreate os t d st
   in live_slots sk_in_use (g_socket_slots st') = set_option r \<union> live \<and> set_option r \<inter> live = {} \<and>
      map (slot_at st') (sorted_list_of_set live) = map (slot_at st) (sorted_list_of_set live) \<and>
      (case r of None \<Rightarrow> True | Some i \<Rightarrow> handle_slot (slot_handle i) st' = Some i) \<and>
      (r = None \<or> card live < S3E_SOCKET_SLOT_COUNT) \<and>
      live_slots sk_in_use (g_socket_slots (snd (s3eSocketClose h st))) = live - set_option (handle_slot h st)"
proof -
  let ?st = "fold (sock_step n os guest) inputs sock_initial"
  let ?live = "live_slots sk_in_use (g_socket_slots ?st)"
  have "sock_ok {} {} ?st" by (rule socket_machine.run_inv[OF sock_initial_ok])
  then have len: "length (g_socket_slots ?st) = S3E_SOCKET_SLOT_COUNT" by (simp add: sock_ok_def fd_ok_def)
  obtain r st' where c: "s3eSocketCreate os t d ?st = (r, st')" by (cases "s3eSocketCreate os t d ?st")
  have close: "live_slots sk_in_use (g_socket_slots (snd (s3eSocketClose h ?st))) = ?live - set_option (handle_slot h ?st)"
    using socket_handles.release_live by (auto simp: s3eSocketClose_def split: option.split)
  from create_slots[of os t d ?st] c
  have "(r = None \<and> g_socket_slots st' = g_socket_slots ?st) \<or>
    (\<exists>fd s i. g_socket_slots s = g_socket_slots ?st \<and> r = Some i \<and> fst (allocate_socket_slot fd t d s) = Some i \<and>
      g_socket_slots st' = g_socket_slots (snd (allocate_socket_slot fd t d s)))" by simp
  then show ?thesis
  proof (elim disjE exE conjE)
    assume "r = None" "g_socket_slots st' = g_socket_slots ?st"
    with c close show ?thesis by (simp add: Let_def slot_at_def)
  next
    fix fd s i
    assume a: "g_socket_slots s = g_socket_slots ?st" "r = Some i" "fst (allocate_socket_slot fd t d s) = Some i"
      "g_socket_slots st' = g_socket_slots (snd (allocate_socket_slot fd t d s))"
    then have A: "(\<lambda>(fd, t, d) st. allocate_socket_slot fd t d st) (fd, t, d) s =
        (Some i, snd (allocate_socket_slot fd t d s))" by (simp add: prod_eq_iff)
    note F = socket_handles.alloc_fresh[OF A] and K = socket_handles.alloc_keeps_objects[OF A]
    have live': "live_slots sk_in_use (g_socket_slots st') = insert i ?live" "i \<notin> ?live"
      using F a by simp_all
    have keep: "slot_at st' j = slot_at ?st j" if "j \<in> ?live" for j using K[of j] that a by (simp add: slot_at_def)
    have "length (g_socket_slots st') = S3E_SOCKET_SLOT_COUNT"
      using socket_handles.alloc_Some[OF A] a len by simp
    then have i: "i < S3E_SOCKET_SLOT_COUNT" "sk_in_use (slot_at st' i)" and "?live \<subseteq> {..<S3E_SOCKET_SLOT_COUNT} - {i}"
      using live' len by (auto simp: live_slots_def slot_at_def)
    then have "card ?live \<le> S3E_SOCKET_SLOT_COUNT - 1"
      using card_mono[of "{..<S3E_SOCKET_SLOT_COUNT} - {i}" ?live] by simp
    then have "card ?live < S3E_SOCKET_SLOT_COUNT" by (simp add: S3E_SOCKET_SLOT_COUNT_def)
    with c close live' keep handle_slot_of_handle[OF i] a(2) show ?thesis by (simp add: Let_def)
  qed
qed

section \<open>Events\<close>

lemma next_generation_new: "next_generation g \<noteq> g" "next_generation (next_generation g) \<noteq> g"
proof -
  have a: "g + 1 \<noteq> g" "g + 1 + 1 \<noteq> g" by simp_all
  have b: "g + 1 = 0 \<Longrightarrow> g = -1" by (simp add: eq_neg_iff_add_eq_0)
  show "next_generation g \<noteq> g" using a b by (auto simp: next_generation_def)
  show "next_generation (next_generation g) \<noteq> g"
    using a b by (auto simp: next_generation_def)
qed

text \<open>C17: an event polled for a socket that a callback closes, or closes and replaces by a new one in the
  same slot, is dropped: dispatching it changes nothing.\<close>

theorem stale_events_dropped:
  assumes "length (g_socket_slots st) = S3E_SOCKET_SLOT_COUNT" and "handle_slot h st = Some i"
    and "pe_slot entry = i" and "pe_generation entry = sk_generation (slot_at st i)"
  shows "dispatch_socket_event run os entry ev (snd (s3eSocketClose h st)) = snd (s3eSocketClose h st) \<and>
    dispatch_socket_event run os entry ev (snd (allocate_socket_slot fd t d (snd (s3eSocketClose h st)))) =
      snd (allocate_socket_slot fd t d (snd (s3eSocketClose h st)))"
proof -
  let ?g = "sk_generation (slot_at st i)"
  let ?c = "snd (s3eSocketClose h st)" and ?a = "snd (allocate_socket_slot fd t d (snd (s3eSocketClose h st)))"
  have i: "i < S3E_SOCKET_SLOT_COUNT" using assms(2) by (auto simp: handle_slot_def Let_def split: if_splits)
  have c: "slot_at ?c i = zero_slot\<lparr>sk_fd := -1, sk_generation := next_generation ?g\<rparr>"
    "length (g_socket_slots ?c) = S3E_SOCKET_SLOT_COUNT"
    using assms(1,2) i by (simp_all add: s3eSocketClose_def close_socket_slot_def Let_def slot_at_def put_slot_def)
  then have "\<not> slot_matches i ?g ?c" by (simp add: slot_matches_def zero_slot_def)
  moreover have "\<not> slot_matches i ?g ?a"
  proof (cases "find_idx (\<lambda>s. \<not> sk_in_use s) (g_socket_slots ?c)")
    case None
    with \<open>\<not> slot_matches i ?g ?c\<close> show ?thesis
      by (simp add: allocate_socket_slot_def slot_matches_def slot_at_def del: find_idx_None)
  next
    case (Some k)
    with find_idx_SomeD[OF Some] c i next_generation_new(2)[of ?g] \<open>\<not> slot_matches i ?g ?c\<close> show ?thesis
      by (cases "k = i") (simp_all add: allocate_socket_slot_def slot_matches_def slot_at_def put_slot_def)
  qed
  ultimately show ?thesis using assms by (simp add: dispatch_socket_event_def Let_def)
qed

text \<open>A socket with a pending connect and a readable callback, polled ready.\<close>

definition sample_socket :: sock_state where
  "sample_socket = sock_initial\<lparr>g_socket_slots := (g_socket_slots sock_initial)[0 := zero_slot\<lparr>sk_fd := 0, sk_generation := 7,
     sk_in_use := True, sk_connect_pending := True, sk_connect_callback := 0x1000, sk_connect_user_data := 5,
     sk_readable_callback := 0x2000\<rparr>], sk_open := {0}, sk_next_fd := 1\<rparr>"

definition sample_entry :: socket_poll_entry where
  "sample_entry = \<lparr>pe_fd = 0, pe_events = POLLIN OR POLLOUT, pe_slot = 0, pe_generation = 7\<rparr>"

lemma stale_events_dropped_witness:
  "dispatch_socket_event (run_callback 0 sample_os (\<lambda>_ _. [])) sample_os sample_entry POLLIN (snd (s3eSocketClose 3000 sample_socket)) =
     snd (s3eSocketClose 3000 sample_socket)"
  using stale_events_dropped[of sample_socket 3000 0 sample_entry "run_callback 0 sample_os (\<lambda>_ _. [])" sample_os POLLIN]
  by (simp add: sample_socket_def sample_entry_def sock_initial_def handle_slot_def slot_at_def
      S3E_SOCKET_SLOT_COUNT_def S3E_SOCKET_HANDLE_FIRST_def)

text \<open>The callbacks an event is to make, in their order, and the slot it leaves.\<close>

definition reported :: "nat \<Rightarrow> socket_slot \<Rightarrow> u16 \<Rightarrow> errno_t \<Rightarrow> sock_event list" where
  "reported i s ev e =
     (if sk_connect_pending s \<and> out_events ev \<and> sk_connect_callback s \<noteq> 0
      then [Connect_event (sk_connect_callback s) (slot_handle i) (e = EOK) (sk_connect_user_data s)] else []) @
     (if sk_accept_callback s \<noteq> 0 \<and> in_events ev
      then [Accept_event (sk_accept_callback s) (slot_handle i) (sk_accept_user_data s)] else []) @
     (if sk_readable_callback s \<noteq> 0 \<and> in_events ev
      then [Readable_event (sk_readable_callback s) (slot_handle i) (sk_readable_user_data s)] else []) @
     (if sk_writable_callback s \<noteq> 0 \<and> out_events ev
      then [Writable_event (sk_writable_callback s) (slot_handle i) (sk_writable_user_data s)] else [])"

definition served :: "u16 \<Rightarrow> socket_slot \<Rightarrow> socket_slot" where
  "served ev s =
     (let s = (if out_events ev then s\<lparr>sk_writable_callback := 0, sk_writable_user_data :=
                 if sk_writable_callback s = 0 then sk_writable_user_data s else 0\<rparr> else s);
          s = (if out_events ev \<and> sk_connect_pending s
               then s\<lparr>sk_connect_pending := False, sk_connect_callback := 0, sk_connect_user_data := 0\<rparr> else s)
      in if in_events ev then s\<lparr>sk_accept_callback := 0, sk_readable_callback := 0,
           sk_accept_user_data := if sk_accept_callback s = 0 then sk_accept_user_data s else 0,
           sk_readable_user_data := if sk_readable_callback s = 0 then sk_readable_user_data s else 0\<rparr> else s)"

lemma quiet_callback: "run_callback n os (\<lambda>_ _. []) e st = st\<lparr>sk_log := e # sk_log st\<rparr>"
  by (cases n) simp_all

text \<open>The effect of a stage on the log and the slot, and that it keeps the slot matching.\<close>

definition stage_effect ::
  "nat \<Rightarrow> sock_event list \<Rightarrow> socket_slot \<Rightarrow> sock_state \<Rightarrow> sock_state \<Rightarrow> bool" where
  "stage_effect i evs s st st' \<longleftrightarrow> sk_log st' = rev evs @ sk_log st \<and> slot_at st' i = s \<and>
     length (g_socket_slots st') = length (g_socket_slots st)"

lemma stage_effects:
  fixes os :: sock_os and n :: nat
  assumes len: "length (g_socket_slots st) = S3E_SOCKET_SLOT_COUNT" and i: "i < S3E_SOCKET_SLOT_COUNT"
  defines "s \<equiv> slot_at st i" and "run \<equiv> run_callback n os (\<lambda>_ _. [])"
  shows "stage_effect i
      (if sk_connect_pending s \<and> out_events ev \<and> sk_connect_callback s \<noteq> 0 then [Connect_event (sk_connect_callback s)
         (slot_handle i) (os_so_error os (sk_clock st) = EOK) (sk_connect_user_data s)] else [])
      (if sk_connect_pending s \<and> out_events ev
       then s\<lparr>sk_connect_pending := False, sk_connect_callback := 0, sk_connect_user_data := 0\<rparr> else s)
      st (dispatch_connect run os i ev st)"
    and "stage_effect i
      (if sk_accept_callback s \<noteq> 0 \<and> in_events ev
       then [Accept_event (sk_accept_callback s) (slot_handle i) (sk_accept_user_data s)] else [])
      (if sk_accept_callback s \<noteq> 0 \<and> in_events ev then s\<lparr>sk_accept_callback := 0, sk_accept_user_data := 0\<rparr> else s)
      st (dispatch_accept run i ev st)"
    and "stage_effect i
      (if sk_readable_callback s \<noteq> 0 \<and> in_events ev
       then [Readable_event (sk_readable_callback s) (slot_handle i) (sk_readable_user_data s)] else [])
      (if sk_readable_callback s \<noteq> 0 \<and> in_events ev then s\<lparr>sk_readable_callback := 0, sk_readable_user_data := 0\<rparr> else s)
      st (dispatch_readable run i ev st)"
    and "stage_effect i
      (if sk_writable_callback s \<noteq> 0 \<and> out_events ev
       then [Writable_event (sk_writable_callback s) (slot_handle i) (sk_writable_user_data s)] else [])
      (if sk_writable_callback s \<noteq> 0 \<and> out_events ev then s\<lparr>sk_writable_callback := 0, sk_writable_user_data := 0\<rparr> else s)
      st (dispatch_writable run i ev st)"
  using slot_at_put[OF len i] len i unfolding run_def s_def
  by (simp_all add: stage_effect_def dispatch_connect_def dispatch_accept_def dispatch_readable_def
      dispatch_writable_def quiet_callback Let_def split_beta syscall_def set_socket_error_def put_slot_def slot_at_def)

lemma stage_matches:
  "stage_effect i evs s st st' \<Longrightarrow> sk_in_use s \<Longrightarrow> i < S3E_SOCKET_SLOT_COUNT \<Longrightarrow> slot_matches i (sk_generation s) st'"
  by (simp add: stage_effect_def slot_matches_def)



end
