(* ===== verification/Socket_Address.thy ===== *)
theory Socket_Address
  imports Socket
begin

text \<open>
  The address conversions of the socket component: text and number, guest structure and
  \<open>sockaddr\<close>, host and network byte order.
\<close>

section \<open>Dotted decimals\<close>

lemma digit_byte:
  assumes "d < 10"
  shows "unat (48 + of_nat d :: u8) = 48 + d" and "(48 :: u8) \<le> 48 + of_nat d" and "48 + of_nat d \<le> (57 :: u8)"
proof -
  show u: "unat (48 + of_nat d :: u8) = 48 + d"
    using assms by (simp add: unat_word_ariths unat_of_nat take_bit_eq_mod)
  show "(48 :: u8) \<le> 48 + of_nat d" "48 + of_nat d \<le> (57 :: u8)"
    using assms unfolding word_le_nat_alt u by simp_all
qed

lemma decimal_cases:
  "n < 10 \<Longrightarrow> decimal n = [48 + of_nat n]"
  "10 \<le> n \<Longrightarrow> n < 100 \<Longrightarrow> decimal n = [48 + of_nat (n div 10), 48 + of_nat (n mod 10)]"
  "100 \<le> n \<Longrightarrow> n < 1000 \<Longrightarrow> decimal n = [48 + of_nat (n div 100), 48 + of_nat (n div 10 mod 10), 48 + of_nat (n mod 10)]"
proof -
  show one: "n < 10 \<Longrightarrow> decimal n = [48 + of_nat n]" for n by (subst decimal.simps) simp
  show two: "10 \<le> n \<Longrightarrow> n < 100 \<Longrightarrow> decimal n = [48 + of_nat (n div 10), 48 + of_nat (n mod 10)]" for n
    by (subst decimal.simps) (simp add: one)
  show "100 \<le> n \<Longrightarrow> n < 1000 \<Longrightarrow> decimal n = [48 + of_nat (n div 100), 48 + of_nat (n div 10 mod 10), 48 + of_nat (n mod 10)]"
    by (subst decimal.simps) (simp add: two div_mult2_eq[of n 10 10, simplified])
qed

lemma pton4_digit:
  assumes "d < 10"
  shows "pton4 ((48 + of_nat d) # cs) acc cur =
    (case cur of None \<Rightarrow> if length acc \<ge> 4 then None else pton4 cs acc (Some d)
     | Some v \<Rightarrow> if v = 0 \<or> v * 10 + d > 255 then None else pton4 cs acc (Some (v * 10 + d)))"
  using digit_byte[OF assms] by (simp split: option.split)

lemma pton4_number:
  assumes "b < 256" and "length acc < 4"
  shows "pton4 (decimal b @ cs) acc None = pton4 cs acc (Some b)"
proof -
  consider "b < 10" | "10 \<le> b" "b < 100" | "100 \<le> b" "b < 1000" using assms(1) by linarith
  then show ?thesis
  proof cases
    case 1
    with assms show ?thesis by (simp add: decimal_cases pton4_digit del: pton4.simps)
  next
    case 2
    have "b div 10 * 10 + b mod 10 = b" "0 < b div 10" using 2 by auto
    with 2 assms show ?thesis by (simp add: decimal_cases pton4_digit del: pton4.simps)
  next
    case 3
    have h: "b div 100 = b div 10 div 10" by (simp flip: div_mult2_eq)
    have "b div 100 < 10" "0 < b div 100" "b div 10 < 26" using 3 assms(1) by (auto intro: less_mult_imp_div_less)
    moreover have "b div 100 * 10 + b div 10 mod 10 = b div 10" "b div 10 * 10 + b mod 10 = b"
      unfolding h by (rule div_mult_mod_eq)+
    moreover note assms(1)
    ultimately have "b div 100 < 10" "0 < b div 100" "b div 10 < 26" "b div 100 * 10 + b div 10 mod 10 = b div 10"
      "b div 10 * 10 + b mod 10 = b" "b div 10 \<noteq> 0" "\<not> 255 < b div 10" by (auto simp: div_eq_0_iff)
    with 3 assms show ?thesis by (simp add: decimal_cases pton4_digit del: pton4.simps)
  qed
qed

lemma pton4_dot: "length acc \<noteq> 3 \<Longrightarrow> pton4 (46 # cs) acc (Some v) = pton4 cs (acc @ [v]) None"
  by simp

lemma ip_of_bytes_bytes: "ip_of_bytes (ip_bytes a) = a"
proof -
  let ?n = "unat a"
  have d: "?n div 65536 = ?n div 256 div 256" "?n div 16777216 = ?n div 65536 div 256"
    by (simp_all flip: div_mult2_eq)
  have "?n mod 256 + 256 * (?n div 256 mod 256) + 65536 * (?n div 65536 mod 256) + 16777216 * (?n div 16777216) = ?n"
    using mod_mult_div_eq[of ?n 256] mod_mult_div_eq[of "?n div 256" 256] mod_mult_div_eq[of "?n div 65536" 256]
    unfolding d(1)[symmetric] d(2)[symmetric] by linarith
  then show ?thesis by (simp add: ip_of_bytes_def ip_bytes_def flip: of_nat_mult of_nat_add)
qed

lemma inet_pton4_ntop4: "inet_pton4 (inet_ntop4 a) = Some a"
proof -
  let ?b0 = "unat a mod 256" and ?b1 = "unat a div 256 mod 256" and ?b2 = "unat a div 65536 mod 256"
    and ?b3 = "unat a div 16777216"
  have b3: "?b3 < 256" using unat_u32[of a] by (intro less_mult_imp_div_less) simp
  have "pton4 (inet_ntop4 a) [] None = Some [?b0, ?b1, ?b2, ?b3]"
    using b3 pton4_number[of ?b3 "[?b0, ?b1, ?b2]" "[]"]
    by (simp add: inet_ntop4_def ip_bytes_def pton4_number pton4_dot del: pton4.simps(2))
  then show ?thesis using ip_of_bytes_bytes[of a] by (simp add: inet_pton4_def ip_bytes_def)
qed

section \<open>Round trips\<close>

text \<open>the text \<open>s3eInetNtoa\<close> gives for an IPv4 address, into an allocated buffer or one of at least 16
  bytes, is at most 15 bytes and \<open>s3eInetAton\<close> reads the same address back.\<close>

theorem inet_text_roundtrip:
  assumes "case buffer of None \<Rightarrow> os_alloc os (sk_clock st) | Some n \<Rightarrow> 16 \<le> n"
  shows "\<exists>s. fst (s3eInetNtoa os a buffer st) = Some s \<and> length s \<le> 15 \<and>
    fst (s3eInetAton True (Some s) st') = Some a \<and> g_socket_error (snd (s3eInetNtoa os a buffer st)) = SOCKET_ERR_NONE"
proof -
  have len: "length (decimal n) \<le> 3" if small: "n < 256" for n
  proof -
    consider "n < 10" | "10 \<le> n" "n < 100" | "100 \<le> n" "n < 1000" using small by linarith
    then show ?thesis by cases (simp_all add: decimal_cases)
  qed
  have "unat a div 16777216 < 256" using unat_u32[of a] by (intro less_mult_imp_div_less) simp
  then have l: "length (inet_ntop4 a) \<le> 15"
    using len[of "unat a mod 256"] len[of "unat a div 256 mod 256"] len[of "unat a div 65536 mod 256"]
      len[of "unat a div 16777216"] by (simp add: inet_ntop4_def ip_bytes_def)
  with assms show ?thesis
    by (auto simp: s3eInetNtoa_def s3eInetAton_def Let_def syscall_def split_beta inet_pton4_ntop4
        set_socket_error_def split: option.splits)
qed

lemma inet_text_roundtrip_witness:
  "\<exists>s. fst (s3eInetNtoa sample_os 0x0100007f (Some 16) sock_initial) = Some s \<and> length s \<le> 15 \<and>
     fst (s3eInetAton True (Some s) sock_initial) = Some 0x0100007f"
  using inet_text_roundtrip[where buffer = "Some 16" and os = sample_os and st = sock_initial and a = "0x0100007f" and st' = sock_initial]
  by auto

text \<open>converting a guest address to a \<open>sockaddr\<close> and back gives the same address and port for IPv6
  addresses and for every other one that is not local, with the type normalised; a local address is
  refused.\<close>

theorem address_roundtrip:
  "case address_to_sockaddr (Some a) st of
     (None, st') \<Rightarrow> ia_type a AND ADDR_IPV6 = 0 \<and> ia_type a AND ADDR_LOCAL \<noteq> 0 \<and> g_socket_error st' = SOCKET_ERR_UNSUPPORTED
   | (Some (sa, len), st') \<Rightarrow> st' = st \<and>
       (let b = sockaddr_to_address os sa len
        in ia_port b = ia_port a \<and>
           (if ia_type a AND ADDR_IPV6 \<noteq> 0
            then ia_type b = ADDR_IPV6 \<and> ia_ipv6_address b = ia_ipv6_address a
            else ia_type b = ADDR_IPV4 \<and> ia_ip_address b = ia_ip_address a \<and>
                 inet_pton4 (ia_string b) = Some (ia_ip_address a)) \<and>
           fst (address_to_sockaddr (Some b) st) = Some (sa, len))"
  by (simp add: address_to_sockaddr_def sockaddr_to_address_def set_socket_error_def Let_def zero_sockaddr_def
      SIZEOF_SOCKADDR_IN_def SIZEOF_SOCKADDR_IN6_def AF_INET_def AF_INET6_def zero_inet_address_def
      ADDR_IPV4_def ADDR_IPV6_def ADDR_LOCAL_def inet_pton4_ntop4)

section \<open>Byte order\<close>

lemma byte_order_involutive: "s3eInetNtohs (s3eInetHtons w) = w"
  unfolding s3eInetNtohs_def s3eInetHtons_def swap16_def
  by (rule bit_eqI) (auto simp: bit_simps)

end
