(* ===== verification/Audio_Pcm.thy ===== *)
theory Audio_Pcm
  imports Prelude
begin

unbundle bit_operations_syntax

text \<open>
  The sample arithmetic of \<open>src/s3e_audio.c\<close>: volumes, rates, the WAV image that a sound is handed
  to the mixer in, and the mixing of the voice of the other players into the output. An \<open>int16_t\<close>
  sample is a \<open>16 word\<close> read with \<open>sint\<close>.
\<close>

definition MIX_MAX_VOLUME :: int where "MIX_MAX_VOLUME = 128"
definition S3E_MAX_VOLUME :: int where "S3E_MAX_VOLUME = 256"
definition SOUND_CHANNELS :: nat where "SOUND_CHANNELS = 24"
definition AUDIO_CHANNELS :: nat where "AUDIO_CHANNELS = 2"
definition SOUND_FREQUENCY :: int where "SOUND_FREQUENCY = 22050"
definition SOUND_RATE_DEFAULT :: int where "SOUND_RATE_DEFAULT = 22050"
definition SOUND_RATE_SCALE_DEFAULT :: int where "SOUND_RATE_SCALE_DEFAULT = 0x10000"
definition SOUND_RATE_MAX :: int where "SOUND_RATE_MAX = 0x40000"
definition VOICE_MIX_BUFFER_SAMPLES :: nat where "VOICE_MIX_BUFFER_SAMPLES = 4096"
definition WAV_HEADER_BYTES :: nat where "WAV_HEADER_BYTES = 44"

section \<open>Volumes and rates\<close>

definition clamp_volume_256 :: "int \<Rightarrow> int" where
  "clamp_volume_256 value = (if value < 0 then 0 else if value > S3E_MAX_VOLUME then S3E_MAX_VOLUME else value)"

definition mix_volume_from_s3e :: "int \<Rightarrow> int" where
  "mix_volume_from_s3e value = c_div (clamp_volume_256 value * MIX_MAX_VOLUME) S3E_MAX_VOLUME"

definition clamp_s16 :: "int \<Rightarrow> u16" where
  "clamp_s16 value = (if value < -32768 then of_int (-32768) else if value > 32767 then of_int 32767 else of_int value)"

definition clamp_rate :: "int \<Rightarrow> int" where
  "clamp_rate value = (if value < 0 then 0 else if value > SOUND_RATE_MAX then SOUND_RATE_MAX else value)"

text \<open>\<open>rate_from_scale\<close> of a \<open>g_sound_rate\<close>: right shifts of a signed value round down, and the 64-bit
  product is cut to 32 bits before it is clamped.\<close>

definition rate_from_scale :: "int \<Rightarrow> int \<Rightarrow> int" where
  "rate_from_scale sound_rate scale =
     (let scaled = scale div 2 ^ 8; rate = sound_rate * scaled;
          rate = (if rate < 0 then rate - 0xff else rate + 0xff)
      in clamp_rate (i32 (rate div 2 ^ 8)))"

text \<open>\<open>mixer_loops\<close>: the subtraction is done on the converted \<open>int\<close>.\<close>

definition mixer_loops :: "u32 \<Rightarrow> int" where
  "mixer_loops repeat = (if repeat = 0 then -1 else sint repeat - 1)"

definition sound_channel_valid :: "int \<Rightarrow> bool" where
  "sound_channel_valid channel \<longleftrightarrow> channel \<ge> 0 \<and> channel < int SOUND_CHANNELS"

definition audio_channel_valid :: "int \<Rightarrow> bool" where
  "audio_channel_valid channel \<longleftrightarrow> channel \<ge> 0 \<and> channel < int AUDIO_CHANNELS"

definition audio_mixer_channel :: "nat \<Rightarrow> nat" where
  "audio_mixer_channel channel = SOUND_CHANNELS + channel"

section \<open>WAV images\<close>

definition write_le16 :: "u16 \<Rightarrow> u8 list" where
  "write_le16 v = [ucast (v AND 0xff), ucast (drop_bit 8 v)]"

definition write_le32 :: "u32 \<Rightarrow> u8 list" where
  "write_le32 v = [ucast (v AND 0xff), ucast (drop_bit 8 v AND 0xff), ucast (drop_bit 16 v AND 0xff),
     ucast (drop_bit 24 v)]"

text \<open>
  \<open>create_pcm16_mono_wav\<close> of the samples that start at \<open>data\<close> (\<open>None\<close> for \<open>NULL\<close>); a sample is stored as the
  little endian target stores it. \<open>ok\<close> is the outcome of \<open>malloc\<close>.
\<close>

definition create_pcm16_mono_wav :: "bool \<Rightarrow> (nat \<Rightarrow> u16) option \<Rightarrow> u32 \<Rightarrow> int \<Rightarrow> u8 list option" where
  "create_pcm16_mono_wav ok data samples sample_rate =
     (case data of None \<Rightarrow> None
      | Some pcm \<Rightarrow>
        if samples = 0 \<or> samples > (-1 - of_nat WAV_HEADER_BYTES) div 2 then None
        else
          let rate = (if sample_rate \<le> 0 \<or> sample_rate > SOUND_RATE_MAX then SOUND_RATE_DEFAULT else sample_rate);
              data_size = samples * 2 :: u32; byte_count = of_nat WAV_HEADER_BYTES + data_size
          in if \<not> ok then None
             else Some (bytes_of ''RIFF'' @ write_le32 (byte_count - 8) @ bytes_of ''WAVEfmt '' @
               write_le32 16 @ write_le16 1 @ write_le16 1 @ write_le32 (of_int rate) @
               write_le32 (of_int rate * 2) @ write_le16 2 @ write_le16 16 @ bytes_of ''data'' @
               write_le32 data_size @ concat (map (\<lambda>i. write_le16 (pcm i)) [0..<unat samples])))"

text \<open>What a reader of RIFF files takes from such an image: format, channels, rate, bytes per second,
  block size, bits, and the samples of the data chunk.\<close>

fun read_le16 :: "u8 list \<Rightarrow> nat \<Rightarrow> u16" where
  "read_le16 bs off = ucast (bs ! off) OR push_bit 8 (ucast (bs ! (off + 1)))"

fun read_le32 :: "u8 list \<Rightarrow> nat \<Rightarrow> u32" where
  "read_le32 bs off = ucast (bs ! off) OR push_bit 8 (ucast (bs ! (off + 1))) OR
     push_bit 16 (ucast (bs ! (off + 2))) OR push_bit 24 (ucast (bs ! (off + 3)))"

record wav_file =
  wf_format :: u16
  wf_channels :: u16
  wf_rate :: u32
  wf_byte_rate :: u32
  wf_block :: u16
  wf_bits :: u16
  wf_samples :: "u16 list"

definition read_wav :: "u8 list \<Rightarrow> wav_file option" where
  "read_wav bs =
     (if length bs < 44 \<or> take 4 bs \<noteq> bytes_of ''RIFF'' \<or> take 8 (drop 8 bs) \<noteq> bytes_of ''WAVEfmt '' \<or>
         take 4 (drop 36 bs) \<noteq> bytes_of ''data'' \<or> read_le32 bs 16 \<noteq> 16 \<or>
         unat (read_le32 bs 4) + 8 \<noteq> length bs \<or> unat (read_le32 bs 40) + 44 \<noteq> length bs then None
      else Some \<lparr>wf_format = read_le16 bs 20, wf_channels = read_le16 bs 22, wf_rate = read_le32 bs 24,
             wf_byte_rate = read_le32 bs 28, wf_block = read_le16 bs 32, wf_bits = read_le16 bs 34,
             wf_samples = map (\<lambda>i. read_le16 bs (44 + 2 * i)) [0..<(length bs - 44) div 2]\<rparr>)"

section \<open>Mixing the received voice\<close>

text \<open>
  \<open>audio_unit_postmix\<close>: the output is interleaved, the voice is mono. Per chunk of at most 4096 frames
  the guest fills the buffer (\<open>voice offset n i\<close> is the sample \<open>i\<close> it leaves in a buffer of \<open>n\<close> frames at
  \<open>offset\<close>), which is then added to every channel of every frame.
\<close>

definition mix_frame :: "nat \<Rightarrow> nat \<Rightarrow> u16 \<Rightarrow> u16 list \<Rightarrow> u16 list" where
  "mix_frame channels output_frame voice_sample output =
     fold (\<lambda>channel out. out[output_frame + channel :=
         clamp_s16 (sint (out ! (output_frame + channel)) + sint voice_sample)]) [0..<channels] output"

function mix_chunks ::
  "(nat \<Rightarrow> nat \<Rightarrow> nat \<Rightarrow> u16) \<Rightarrow> nat \<Rightarrow> nat \<Rightarrow> nat \<Rightarrow> u16 list \<Rightarrow> u16 list" where
  "mix_chunks voice channels frame_count frame_offset output =
     (if frame_offset < frame_count then
        let chunk = min (frame_count - frame_offset) VOICE_MIX_BUFFER_SAMPLES in
        mix_chunks voice channels frame_count (frame_offset + chunk)
          (fold (\<lambda>frame. mix_frame channels ((frame_offset + frame) * channels) (voice frame_offset chunk frame))
            [0..<chunk] output)
      else output)"
  by pat_completeness auto
termination
  by (relation "measure (\<lambda>(voice, channels, frame_count, frame_offset, output). frame_count - frame_offset)")
    (auto simp: VOICE_MIX_BUFFER_SAMPLES_def)

declare mix_chunks.simps [simp del]

definition audio_unit_postmix ::
  "(nat \<Rightarrow> nat \<Rightarrow> nat \<Rightarrow> u16) option \<Rightarrow> int \<Rightarrow> int \<Rightarrow> u16 list \<Rightarrow> u16 list" where
  "audio_unit_postmix callback channels frequency output =
     (case callback of None \<Rightarrow> output
      | Some voice \<Rightarrow>
        if length output = 0 \<or> channels \<le> 0 \<or> frequency \<le> 0 then output
        else mix_chunks voice (nat channels) (length output div nat channels) 0 output)"

end
