(* ===== verification/Audio_Signal.thy ===== *)
theory Audio_Signal
  imports Audio_Pcm
begin

unbundle bit_operations_syntax

text \<open>
  What the sample arithmetic of the audio component guarantees: a WAV image is read back as the samples
  it was built from, volumes and rates stay in range, and mixing by chunks is mixing frame by frame.
\<close>

section \<open>Little endian numbers\<close>

lemma low_byte: "(0xff :: 'a::len word) = mask 8"
  by (simp add: mask_eq_exp_minus_1)

lemma le16_bytes: "ucast (ucast (v AND 0xff) :: u8) OR push_bit 8 (ucast (ucast (drop_bit 8 v) :: u8)) = (v :: u16)"
  unfolding low_byte by (rule bit_word_eqI) (auto simp: bit_simps)

lemma le32_bytes:
  "ucast (ucast (v AND 0xff) :: u8) OR push_bit 8 (ucast (ucast (drop_bit 8 v AND 0xff) :: u8)) OR
   push_bit 16 (ucast (ucast (drop_bit 16 v AND 0xff) :: u8)) OR
   push_bit 24 (ucast (ucast (drop_bit 24 v) :: u8)) = (v :: u32)"
  unfolding low_byte
proof (rule bit_word_eqI)
  fix n :: nat
  have "n < 8 \<or> (8 \<le> n \<and> n < 16) \<or> (16 \<le> n \<and> n < 24) \<or> 24 \<le> n" by arith
  then show "bit ((ucast (ucast (v AND mask 8) :: u8) OR push_bit 8 (ucast (ucast (drop_bit 8 v AND mask 8) :: u8)) OR
      push_bit 16 (ucast (ucast (drop_bit 16 v AND mask 8) :: u8)) OR
      push_bit 24 (ucast (ucast (drop_bit 24 v) :: u8))) :: u32) n = bit v n" if "n < LENGTH(32)"
    using that by (elim disjE) (auto simp: bit_simps)
qed

text \<open>The data chunk: sample \<open>i\<close> occupies the bytes \<open>2 * i\<close> and \<open>2 * i + 1\<close>.\<close>

lemma write_le16_nth [simp]: "length (write_le16 v) = 2" "write_le16 v ! 0 = ucast (v AND 0xff)"
  "write_le16 v ! Suc 0 = ucast (drop_bit 8 v)"
  by (simp_all add: write_le16_def)

lemma length_pcm_bytes [simp]: "length (concat (map (\<lambda>i. write_le16 (f i)) [0..<n])) = 2 * n"
  by (induction n) simp_all

lemma pcm_bytes_nth:
  "i < n \<Longrightarrow> concat (map (\<lambda>i. write_le16 (f i)) [0..<n]) ! (2 * i) = ucast (f i AND 0xff)"
  "i < n \<Longrightarrow> concat (map (\<lambda>i. write_le16 (f i)) [0..<n]) ! Suc (2 * i) = ucast (drop_bit 8 (f i))"
  by (induction n) (auto simp: nth_append less_Suc_eq)

lemma read_pcm_bytes:
  "length h = 44 \<Longrightarrow> i < n \<Longrightarrow>
   read_le16 (h @ concat (map (\<lambda>i. write_le16 (f i)) [0..<n])) (44 + 2 * i) = f i"
  by (simp add: nth_append pcm_bytes_nth le16_bytes)

section \<open>The WAV image\<close>

definition wav_header :: "u32 \<Rightarrow> u32 \<Rightarrow> u32 \<Rightarrow> u8 list" where
  "wav_header riff rate data = bytes_of ''RIFF'' @ write_le32 riff @ bytes_of ''WAVEfmt '' @
     write_le32 16 @ write_le16 1 @ write_le16 1 @ write_le32 rate @ write_le32 (rate * 2) @
     write_le16 2 @ write_le16 16 @ bytes_of ''data'' @ write_le32 data"

lemma length_wav_header [simp]: "length (wav_header r f d) = 44"
  by (simp add: wav_header_def write_le32_def write_le16_def bytes_of_def)

lemma read_wav_header:
  assumes "unat riff + 8 = 44 + length ds" and "unat data = length ds"
  shows "read_wav (wav_header riff rate data @ ds) =
    Some \<lparr>wf_format = 1, wf_channels = 1, wf_rate = rate, wf_byte_rate = rate * 2, wf_block = 2, wf_bits = 16,
      wf_samples = map (\<lambda>i. read_le16 (wav_header riff rate data @ ds) (44 + 2 * i)) [0..<length ds div 2]\<rparr>"
proof -
  let ?b = "wav_header riff rate data @ ds"
  have fields: "read_le32 ?b 4 = riff" "read_le32 ?b 40 = data" "read_le32 ?b 16 = 16" "read_le32 ?b 24 = rate"
    "read_le32 ?b 28 = rate * 2" "read_le16 ?b 20 = 1" "read_le16 ?b 22 = 1" "read_le16 ?b 32 = 2"
    "read_le16 ?b 34 = 16"
    by (simp_all add: wav_header_def write_le32_def write_le16_def bytes_of_def le32_bytes)
  have tags: "take 4 ?b = bytes_of ''RIFF''" "take 8 (drop 8 ?b) = bytes_of ''WAVEfmt ''"
    "take 4 (drop 36 ?b) = bytes_of ''data''"
    by (simp_all add: wav_header_def write_le32_def write_le16_def bytes_of_def)
  show ?thesis unfolding read_wav_def fields tags using assms by simp
qed

text \<open>the WAV image of a sound is refused only for an empty, missing or oversized sound or for lack of
  memory; otherwise a RIFF reader finds one 16-bit channel at the rate asked for (22050 Hz when it is out of
  range) with exactly the samples of the sound.\<close>

theorem wav_roundtrip:
  "case create_pcm16_mono_wav ok data samples rate of
     None \<Rightarrow> data = None \<or> unat samples = 0 \<or> unat samples > 2147483625 \<or> ok = False
   | Some bs \<Rightarrow> (case data of None \<Rightarrow> False
       | Some pcm \<Rightarrow> read_wav bs = Some \<lparr>wf_format = 1, wf_channels = 1,
           wf_rate = (if 0 < rate \<and> rate \<le> 0x40000 then of_int rate else 22050),
           wf_byte_rate = 2 * (if 0 < rate \<and> rate \<le> 0x40000 then of_int rate else 22050),
           wf_block = 2, wf_bits = 16, wf_samples = map pcm [0..<unat samples]\<rparr>)"
proof (cases data)
  case (Some pcm)
  show ?thesis
  proof (cases "samples = 0 \<or> samples > (-1 - of_nat WAV_HEADER_BYTES) div 2 \<or> \<not> ok")
    case True
    then show ?thesis
      by (auto simp: create_pcm16_mono_wav_def Some WAV_HEADER_BYTES_def word_less_nat_alt unat_div)
  next
    case False
    let ?r = "of_int (if rate \<le> 0 \<or> rate > SOUND_RATE_MAX then SOUND_RATE_DEFAULT else rate) :: u32"
    let ?ds = "concat (map (\<lambda>i. write_le16 (pcm i)) [0..<unat samples])"
    let ?h = "wav_header (44 + samples * 2 - 8) ?r (samples * 2)"
    have n: "unat samples \<le> 2147483625"
      using False by (simp add: WAV_HEADER_BYTES_def word_less_nat_alt not_less)
    have d: "unat (samples * 2) = 2 * unat samples" using n by (simp add: unat_word_ariths)
    have r: "unat (44 + samples * 2 - 8) + 8 = 44 + 2 * unat samples"
      using n by (simp add: unat_word_ariths)
    have "create_pcm16_mono_wav ok data samples rate = Some (?h @ ?ds)"
      using False by (simp add: create_pcm16_mono_wav_def Some Let_def wav_header_def WAV_HEADER_BYTES_def)
    moreover have "read_wav (?h @ ?ds) = Some \<lparr>wf_format = 1, wf_channels = 1, wf_rate = ?r,
        wf_byte_rate = ?r * 2, wf_block = 2, wf_bits = 16, wf_samples = map pcm [0..<unat samples]\<rparr>"
      using d r by (subst read_wav_header) (auto simp del: read_le16.simps intro!: read_pcm_bytes)
    ultimately show ?thesis
      by (simp add: Some SOUND_RATE_MAX_def SOUND_RATE_DEFAULT_def not_le not_less)
  qed
qed (simp add: create_pcm16_mono_wav_def)

section \<open>Mixing\<close>

lemma length_mix_frame [simp]: "length (mix_frame channels base v out) = length out"
  by (induction channels) (simp_all add: mix_frame_def)

lemma mix_frame_nth:
  "j < length out \<Longrightarrow> mix_frame channels base v out ! j =
    (if base \<le> j \<and> j < base + channels then clamp_s16 (sint (out ! j) + sint v) else out ! j)"
proof (induction channels)
  case (Suc channels)
  have "mix_frame (Suc channels) base v out = (mix_frame channels base v out)[base + channels :=
      clamp_s16 (sint (mix_frame channels base v out ! (base + channels)) + sint v)]"
    by (simp add: mix_frame_def)
  with Suc show ?case by (cases "j = base + channels") auto
qed (auto simp: mix_frame_def)

text \<open>The frames of one chunk, the first of them frame \<open>off\<close> of the output.\<close>

lemma mix_chunk_nth:
  assumes "0 < c"
  shows "length (fold (\<lambda>f. mix_frame c ((off + f) * c) (v f)) [0..<n] out) = length out"
    and "j < length out \<Longrightarrow> fold (\<lambda>f. mix_frame c ((off + f) * c) (v f)) [0..<n] out ! j =
      (if off * c \<le> j \<and> j < (off + n) * c then clamp_s16 (sint (out ! j) + sint (v (j div c - off))) else out ! j)"
proof (induction n)
  case (Suc n)
  { case 1 show ?case using Suc by simp }
  { case 2
    have "(off + n) * c \<le> j \<and> j < (off + n) * c + c \<longleftrightarrow> j div c = off + n"
      using assms by (metis add.commute div_nat_eqI dividend_less_times_div mult.commute mult_Suc_right times_div_less_eq_dividend)
    with 2 Suc assms show ?case by (auto simp: mix_frame_nth algebra_simps) }
qed auto

lemma length_mix_chunks [simp]: "0 < c \<Longrightarrow> length (mix_chunks voice c fc fo out) = length out"
  by (induction voice c fc fo out rule: mix_chunks.induct) (subst mix_chunks.simps, simp add: Let_def mix_chunk_nth)

text \<open>The sample of the voice that frame \<open>f\<close> of \<open>fc\<close> receives: it is in the chunk of 4096 frames that holds it.\<close>

definition voice_sample :: "(nat \<Rightarrow> nat \<Rightarrow> nat \<Rightarrow> u16) \<Rightarrow> nat \<Rightarrow> nat \<Rightarrow> u16" where
  "voice_sample voice fc f =
     (let off = f div VOICE_MIX_BUFFER_SAMPLES * VOICE_MIX_BUFFER_SAMPLES
      in voice off (min (fc - off) VOICE_MIX_BUFFER_SAMPLES) (f mod VOICE_MIX_BUFFER_SAMPLES))"

lemma voice_sample_in_chunk:
  assumes "VOICE_MIX_BUFFER_SAMPLES dvd fo" and "fo \<le> f" and "f < fo + min (fc - fo) VOICE_MIX_BUFFER_SAMPLES"
  shows "voice_sample voice fc f = voice fo (min (fc - fo) VOICE_MIX_BUFFER_SAMPLES) (f - fo)"
proof -
  obtain k where k: "fo = VOICE_MIX_BUFFER_SAMPLES * k" using assms(1) by (auto elim: dvdE)
  obtain i where i: "f = VOICE_MIX_BUFFER_SAMPLES * k + i" "i < VOICE_MIX_BUFFER_SAMPLES"
    using assms(2,3) k by (metis le_Suc_ex add_less_cancel_left min.strict_boundedE)
  then show ?thesis using k by (simp add: voice_sample_def Let_def mult.commute[of k] div_add1_eq)
qed

lemma mix_chunks_nth:
  assumes "0 < c"
  shows "fc \<le> fo \<or> VOICE_MIX_BUFFER_SAMPLES dvd fo \<Longrightarrow> j < length out \<Longrightarrow> mix_chunks voice c fc fo out ! j =
    (if fo * c \<le> j \<and> j < fc * c then clamp_s16 (sint (out ! j) + sint (voice_sample voice fc (j div c))) else out ! j)"
  using assms
proof (induction voice c fc fo out rule: mix_chunks.induct)
  case (1 voice c fc fo out)
  show ?case
  proof (cases "fo < fc")
    case False
    then have "\<not> (fo * c \<le> j \<and> j < fc * c)" by (auto simp: not_le intro: less_le_trans mult_le_mono1)
    with False show ?thesis by (subst mix_chunks.simps) auto
  next
    case True
    let ?n = "min (fc - fo) VOICE_MIX_BUFFER_SAMPLES"
    let ?out = "fold (\<lambda>f. mix_frame c ((fo + f) * c) (voice fo ?n f)) [0..<?n] out"
    have "fc \<le> fo + ?n \<or> VOICE_MIX_BUFFER_SAMPLES dvd fo + ?n" using 1(2) True by (auto simp: min_def)
    from 1(1)[OF True refl this _ 1(4)] 1(3)
    have "mix_chunks voice c fc fo out ! j = (if (fo + ?n) * c \<le> j \<and> j < fc * c
        then clamp_s16 (sint (?out ! j) + sint (voice_sample voice fc (j div c))) else ?out ! j)"
      using True by (subst mix_chunks.simps) (simp add: Let_def mix_chunk_nth[OF 1(4)])
    moreover have "j div c - fo < ?n \<and> fo \<le> j div c" if "fo * c \<le> j" "j < (fo + ?n) * c"
    proof -
      from that 1(4) have "fo \<le> j div c" "j div c < fo + ?n"
        by (simp_all add: less_eq_div_iff_mult_less_eq div_less_iff_less_mult)
      then show ?thesis by linarith
    qed
    moreover have "j < fc * c" if "j < (fo + ?n) * c"
    proof (rule less_le_trans[OF that mult_le_mono1])
      show "fo + ?n \<le> fc" using True by simp
    qed
    moreover have "\<not> j < fo * c" if "(fo + ?n) * c \<le> j"
      using that by (auto simp: not_less algebra_simps)
    ultimately show ?thesis using 1(2,3) True mix_chunk_nth(2)[OF 1(4) 1(3), of fo "voice fo ?n" ?n]
      by (auto simp: voice_sample_in_chunk not_le)
  qed
qed

text \<open>C21: mixing by chunks of 4096 frames gives what adding the voice sample of each frame to all of its
  channels, saturated to 16 bits, gives; an incomplete last frame is left alone.\<close>

theorem postmix_adds_voice:
  "audio_unit_postmix callback channels frequency output =
     (case callback of None \<Rightarrow> output
      | Some voice \<Rightarrow>
          if channels \<le> 0 \<or> frequency \<le> 0 then output
          else let c = nat channels; frames = length output div c in
            map (\<lambda>j. if j < frames * c
                     then clamp_s16 (sint (output ! j) + sint (voice_sample voice frames (j div c)))
                     else output ! j) [0..<length output])"
proof (cases callback)
  case (Some voice)
  show ?thesis
  proof (cases "output = [] \<or> channels \<le> 0 \<or> frequency \<le> 0")
    case False
    then show ?thesis
      by (auto simp: audio_unit_postmix_def Some Let_def mix_chunks_nth intro!: nth_equalityI)
  qed (auto simp: audio_unit_postmix_def Some)
qed (simp add: audio_unit_postmix_def)

section \<open>Ranges\<close>

lemma mix_volume_range: "0 \<le> mix_volume_from_s3e v \<and> mix_volume_from_s3e v \<le> 128"
  by (simp add: mix_volume_from_s3e_def clamp_volume_256_def MIX_MAX_VOLUME_def S3E_MAX_VOLUME_def c_div_nonneg) linarith

lemma clamp_rate_range: "0 \<le> clamp_rate v \<and> clamp_rate v \<le> 0x40000"
  by (simp add: clamp_rate_def SOUND_RATE_MAX_def)

lemma sint_clamp_s16: "sint (clamp_s16 v) = max (-32768) (min 32767 v)"
  by (auto simp: clamp_s16_def sint_sbintrunc' signed_take_bit_int_eq_self)

end
