(* ===== verification/Audio_State.thy ===== *)
theory Audio_State
  imports Audio_Pcm
begin

text \<open>
  State of the audio component (\<open>src/s3e_audio.c\<close>): the 24 sound channels, the 2 stream channels, the
  voice unit, and the slots' hold on the chunks of the mixer.

  SDL and SDL_mixer are libraries that the code only calls; they are the parameter \<open>aud_os\<close>: what a
  call returns, as a function of how many were made before (\<open>au_clock\<close>). A chunk is a number that is
  not used again; \<open>au_chunks\<close> holds the live ones with the image they were loaded from, and
  \<open>au_chunk_error\<close> is set when one is freed that is not live. \<open>au_log\<close> records the calls into the mixer
  and into the guest, newest first. These are history variables.
\<close>

type_synonym ptr = u32

definition S3E_CHANNEL_END_SAMPLE :: nat where "S3E_CHANNEL_END_SAMPLE = 0"
definition S3E_CHANNEL_GEN_AUDIO :: nat where "S3E_CHANNEL_GEN_AUDIO = 1"
definition S3E_CHANNEL_STOP_AUDIO :: nat where "S3E_CHANNEL_STOP_AUDIO = 2"
definition S3E_CHANNEL_GEN_AUDIO_STEREO :: nat where "S3E_CHANNEL_GEN_AUDIO_STEREO = 3"
definition S3E_CHANNEL_CALLBACK_COUNT :: nat where "S3E_CHANNEL_CALLBACK_COUNT = 4"
definition S3E_AUDIO_STOP :: nat where "S3E_AUDIO_STOP = 2"
definition S3E_AUDIO_CALLBACK_COUNT :: nat where "S3E_AUDIO_CALLBACK_COUNT = 3"
definition SOUND_GENERATOR_CHUNK_SAMPLES :: nat where "SOUND_GENERATOR_CHUNK_SAMPLES = 4096"
definition SOUND_GENERATOR_MAX_EXPANSION :: nat where "SOUND_GENERATOR_MAX_EXPANSION = 8"
definition AUDIO_STATUS_STOPPED :: int where "AUDIO_STATUS_STOPPED = 0"
definition AUDIO_STATUS_PLAYING :: int where "AUDIO_STATUS_PLAYING = 1"
definition AUDIO_STATUS_PAUSED :: int where "AUDIO_STATUS_PAUSED = 2"

record sound_callback =
  scb_function :: ptr
  scb_user_data :: ptr

definition no_callback :: sound_callback where
  "no_callback = \<lparr>scb_function = 0, scb_user_data = 0\<rparr>"

record s3e_sound_end_sample_info =
  ei_channel :: int
  ei_reps_remaining :: int
  ei_new_data :: ptr
  ei_num_samples :: u32

text \<open>The target of the generator is given as its offset in the buffer that is being filled.\<close>

record s3e_sound_gen_audio_info =
  gi_channel :: int
  gi_target :: nat
  gi_num_samples :: nat
  gi_orig_start :: ptr
  gi_orig_num_samples :: u32

record sound_slot =
  ss_chunk :: "nat option"
  ss_finished :: bool
  ss_callbacks :: "sound_callback list"
  ss_volume_s3e :: int
  ss_volume_mix :: int
  ss_rate :: int
  ss_rate_scale :: int
  ss_user_value :: int
  ss_generator_decoding :: bool
  ss_source_data :: ptr
  ss_source_samples :: u32
  ss_reps_remaining :: u32
  ss_loop_index :: u32

record audio_slot =
  as_chunk :: "nat option"
  as_finished :: bool
  as_volume_s3e :: int
  as_volume_mix :: int
  as_paused :: bool

text \<open>What a callback of the guest is called with (function, user data, system data), and what it leaves:
  its result, the end-of-sample structure, the end mark of a generator and the samples in its target.\<close>

datatype aud_event =
    End_sample ptr ptr s3e_sound_end_sample_info
  | Stop_audio ptr ptr s3e_sound_end_sample_info
  | Gen_audio ptr ptr s3e_sound_gen_audio_info
  | Stream_stopped ptr ptr int

record aud_reply =
  rp_result :: int
  rp_info :: s3e_sound_end_sample_info
  rp_end_sample :: bool
  rp_samples :: "nat \<Rightarrow> u16"

datatype mixer_call =
    Mix_Volume nat int
  | Mix_Play nat nat int
  | Mix_Halt nat
  | Mix_Pause nat
  | Mix_Resume nat
  | Mix_SetPostMix bool
  | Capture_Open
  | Capture_Pause bool
  | Capture_Close
  | Callback aud_event

record aud_state =
  g_sound_slots :: "sound_slot list"
  g_audio_slots :: "audio_slot list"
  g_audio_callbacks :: "sound_callback list"
  g_audio_tried :: bool
  g_audio_ready :: bool
  g_audio_channel :: nat
  g_sound_volume_s3e :: int
  g_sound_volume_mix :: int
  g_sound_rate :: int
  g_mixer_mp3_ready :: bool
  g_audio_slots_initialized :: bool
  g_sound_slots_initialized :: bool
  g_audio_unit_capture_callback :: ptr
  g_audio_unit_render_callback :: ptr
  g_audio_unit_capture_device :: bool
  g_audio_unit_started :: bool
  g_audio_unit_postmix_installed :: bool
  g_audio_unit_capture_frequency :: int
  g_audio_unit_output_frequency :: int
  g_audio_unit_output_channels :: int
  g_audio_pumping :: bool
  au_mixer_symbols :: bool
  au_driver_requested :: bool
  au_chunks :: "nat \<Rightarrow> u8 list option"
  au_next_chunk :: nat
  au_chunk_error :: bool
  au_clock :: nat
  au_log :: "mixer_call list"

text \<open>
  \<open>mx_was_playing\<close> tells whether a call that stops a channel finds it playing, in which case SDL_mixer
  reports it as finished from within the call; \<open>os_read path offset n\<close> is a \<open>read\<close> of at most \<open>n\<close> bytes
  (after the restarts on \<open>EINTR\<close>); \<open>au_memory\<close> and \<open>au_bytes\<close> are the guest's memory, as samples and as
  bytes.
\<close>

record aud_os =
  mx_libraries :: "nat \<Rightarrow> bool"
  mx_symbols :: "nat \<Rightarrow> bool"
  mx_subsystem :: "nat \<Rightarrow> bool"
  mx_mp3 :: "nat \<Rightarrow> bool"
  mx_open :: "nat \<Rightarrow> bool"
  mx_channels :: "nat \<Rightarrow> bool"
  mx_playing :: "nat \<Rightarrow> nat \<Rightarrow> bool"
  mx_paused :: "nat \<Rightarrow> nat \<Rightarrow> bool"
  mx_was_playing :: "nat \<Rightarrow> nat \<Rightarrow> bool"
  mx_plays :: "nat \<Rightarrow> bool"
  mx_rw :: "nat \<Rightarrow> bool"
  mx_loads :: "nat \<Rightarrow> bool"
  mx_alloc :: "nat \<Rightarrow> bool"
  mx_has_postmix :: bool
  mx_query_spec :: "nat \<Rightarrow> (int \<times> bool \<times> int) option"
  mx_has_capture :: bool
  mx_open_capture :: "nat \<Rightarrow> (bool \<times> int) option"
  au_memory :: "ptr \<Rightarrow> nat \<Rightarrow> u16"
  au_bytes :: "ptr \<Rightarrow> nat \<Rightarrow> u8"
  os_root :: cstring
  os_readable :: "cstring \<Rightarrow> bool"
  os_open_size :: "cstring \<Rightarrow> int option"
  os_read :: "cstring \<Rightarrow> nat \<Rightarrow> nat \<Rightarrow> u8 list option"

definition ask :: "(nat \<Rightarrow> 'r) \<Rightarrow> aud_state \<Rightarrow> 'r \<times> aud_state" where
  "ask f st = (f (au_clock st), st\<lparr>au_clock := Suc (au_clock st)\<rparr>)"

definition log :: "mixer_call \<Rightarrow> aud_state \<Rightarrow> aud_state" where
  "log c st = st\<lparr>au_log := c # au_log st\<rparr>"

definition sound_at :: "aud_state \<Rightarrow> nat \<Rightarrow> sound_slot" where
  "sound_at st i = g_sound_slots st ! i"

definition put_sound :: "nat \<Rightarrow> (sound_slot \<Rightarrow> sound_slot) \<Rightarrow> aud_state \<Rightarrow> aud_state" where
  "put_sound i f st = st\<lparr>g_sound_slots := (g_sound_slots st)[i := f (g_sound_slots st ! i)]\<rparr>"

definition stream_at :: "aud_state \<Rightarrow> nat \<Rightarrow> audio_slot" where
  "stream_at st i = g_audio_slots st ! i"

definition put_stream :: "nat \<Rightarrow> (audio_slot \<Rightarrow> audio_slot) \<Rightarrow> aud_state \<Rightarrow> aud_state" where
  "put_stream i f st = st\<lparr>g_audio_slots := (g_audio_slots st)[i := f (g_audio_slots st ! i)]\<rparr>"

text \<open>\<open>Mix_LoadWAV_RW\<close> returning a new chunk, and \<open>Mix_FreeChunk\<close>.\<close>

definition new_chunk :: "u8 list \<Rightarrow> aud_state \<Rightarrow> nat \<times> aud_state" where
  "new_chunk bytes st = (au_next_chunk st,
     st\<lparr>au_chunks := (au_chunks st)(au_next_chunk st \<mapsto> bytes), au_next_chunk := Suc (au_next_chunk st)\<rparr>)"

definition free_chunk :: "nat \<Rightarrow> aud_state \<Rightarrow> aud_state" where
  "free_chunk c st =
     (if au_chunks st c = None then st\<lparr>au_chunk_error := True\<rparr> else st\<lparr>au_chunks := (au_chunks st)(c := None)\<rparr>)"

text \<open>The memory before the first call: the slots are zero until \<open>init_sound_slots\<close>.\<close>

definition zero_sound :: sound_slot where
  "zero_sound = \<lparr>ss_chunk = None, ss_finished = False,
     ss_callbacks = replicate S3E_CHANNEL_CALLBACK_COUNT no_callback,
     ss_volume_s3e = 0, ss_volume_mix = 0, ss_rate = 0, ss_rate_scale = 0, ss_user_value = 0,
     ss_generator_decoding = False, ss_source_data = 0, ss_source_samples = 0, ss_reps_remaining = 0,
     ss_loop_index = 0\<rparr>"

definition zero_stream :: audio_slot where
  "zero_stream = \<lparr>as_chunk = None, as_finished = False, as_volume_s3e = 0, as_volume_mix = 0, as_paused = False\<rparr>"

definition aud_initial :: aud_state where
  "aud_initial = \<lparr>g_sound_slots = replicate SOUND_CHANNELS zero_sound,
     g_audio_slots = replicate AUDIO_CHANNELS zero_stream,
     g_audio_callbacks = replicate S3E_AUDIO_CALLBACK_COUNT no_callback,
     g_audio_tried = False, g_audio_ready = False, g_audio_channel = 0,
     g_sound_volume_s3e = S3E_MAX_VOLUME, g_sound_volume_mix = MIX_MAX_VOLUME,
     g_sound_rate = SOUND_RATE_DEFAULT, g_mixer_mp3_ready = False,
     g_audio_slots_initialized = False, g_sound_slots_initialized = False,
     g_audio_unit_capture_callback = 0, g_audio_unit_render_callback = 0,
     g_audio_unit_capture_device = False, g_audio_unit_started = False,
     g_audio_unit_postmix_installed = False, g_audio_unit_capture_frequency = 0,
     g_audio_unit_output_frequency = 0, g_audio_unit_output_channels = 0, g_audio_pumping = False,
     au_mixer_symbols = False, au_driver_requested = False, au_chunks = (\<lambda>_. None), au_next_chunk = 0,
     au_chunk_error = False, au_clock = 0, au_log = []\<rparr>"

end
