(* ===== verification/Audio.thy ===== *)
theory Audio
  imports Audio_State
begin

text \<open>
  The operations of the audio component (\<open>src/s3e_audio.c\<close>, \<open>src/s3e_audio_unit.c\<close>): opening and closing
  the mixer, sound channels with their generators and repeats, stream channels, the voice unit, and
  the guest's interface. A callback of the guest is the parameter \<open>run\<close>: it may call into the component
  again, so every operation that can reach a callback threads the state through it.
\<close>

type_synonym aud_run = "aud_event \<Rightarrow> aud_state \<Rightarrow> aud_reply \<times> aud_state"

section \<open>Slots\<close>

definition mixed_sound_volume :: "sound_slot \<Rightarrow> aud_state \<Rightarrow> int" where
  "mixed_sound_volume slot st = c_div (ss_volume_mix slot * g_sound_volume_mix st) MIX_MAX_VOLUME"

definition init_sound_slots :: "aud_state \<Rightarrow> aud_state" where
  "init_sound_slots st =
     (if g_sound_slots_initialized st then st
      else st\<lparr>g_sound_slots := map (\<lambda>s. s\<lparr>ss_volume_s3e := S3E_MAX_VOLUME, ss_volume_mix := MIX_MAX_VOLUME,
             ss_rate := SOUND_RATE_DEFAULT, ss_rate_scale := SOUND_RATE_SCALE_DEFAULT\<rparr>) (g_sound_slots st),
           g_sound_slots_initialized := True\<rparr>)"

definition init_audio_slots :: "aud_state \<Rightarrow> aud_state" where
  "init_audio_slots st =
     (if g_audio_slots_initialized st then st
      else st\<lparr>g_audio_slots := map (\<lambda>s. s\<lparr>as_volume_s3e := S3E_MAX_VOLUME, as_volume_mix := MIX_MAX_VOLUME\<rparr>)
             (g_audio_slots st), g_audio_slots_initialized := True\<rparr>)"

definition free_sound_slot :: "nat \<Rightarrow> aud_state \<Rightarrow> aud_state" where
  "free_sound_slot channel st =
     (if \<not> channel < SOUND_CHANNELS then st
      else
        let st = (case ss_chunk (sound_at st channel) of
              Some c \<Rightarrow> if au_mixer_symbols st then free_chunk c st else st
            | None \<Rightarrow> st)
        in put_sound channel (\<lambda>s. s\<lparr>ss_chunk := None, ss_finished := False, ss_generator_decoding := False,
             ss_source_data := 0, ss_source_samples := 0, ss_reps_remaining := 0, ss_loop_index := 0\<rparr>) st)"

definition free_audio_slot :: "nat \<Rightarrow> aud_state \<Rightarrow> aud_state" where
  "free_audio_slot channel st =
     (if \<not> channel < AUDIO_CHANNELS then st
      else
        let st = (case as_chunk (stream_at st channel) of
              Some c \<Rightarrow> if au_mixer_symbols st then free_chunk c st else st
            | None \<Rightarrow> st)
        in put_stream channel (\<lambda>s. s\<lparr>as_chunk := None, as_finished := False, as_paused := False\<rparr>) st)"

definition mixer_channel_finished :: "int \<Rightarrow> aud_state \<Rightarrow> aud_state" where
  "mixer_channel_finished channel st =
     (if sound_channel_valid channel then put_sound (nat channel) (\<lambda>s. s\<lparr>ss_finished := True\<rparr>) st
      else if audio_channel_valid (channel - int SOUND_CHANNELS)
      then put_stream (nat (channel - int SOUND_CHANNELS)) (\<lambda>s. s\<lparr>as_finished := True\<rparr>) st
      else st)"

text \<open>\<open>Mix_HaltChannel\<close>, \<open>Mix_PlayChannelTimed\<close> and \<open>Mix_Volume\<close> as the code calls them.\<close>

definition halt_channel :: "aud_os \<Rightarrow> nat \<Rightarrow> aud_state \<Rightarrow> aud_state" where
  "halt_channel os channel st =
     (let (was, st) = ask (\<lambda>n. mx_was_playing os n channel) (log (Mix_Halt channel) st)
      in if was then mixer_channel_finished (int channel) st else st)"

definition play_channel :: "aud_os \<Rightarrow> nat \<Rightarrow> nat \<Rightarrow> int \<Rightarrow> aud_state \<Rightarrow> bool \<times> aud_state" where
  "play_channel os channel chunk loops st =
     (let (was, st) = ask (\<lambda>n. mx_was_playing os n channel) (log (Mix_Play channel chunk loops) st);
          st = (if was then mixer_channel_finished (int channel) st else st)
      in ask (mx_plays os) st)"

definition set_volumes :: "aud_state \<Rightarrow> aud_state" where
  "set_volumes st = fold (\<lambda>channel st. log (Mix_Volume channel (mixed_sound_volume (sound_at st channel) st)) st)
     [0..<SOUND_CHANNELS] st"

section \<open>Opening the mixer\<close>

definition init_audio_subsystem :: "aud_os \<Rightarrow> aud_state \<Rightarrow> bool \<times> aud_state" where
  "init_audio_subsystem os st =
     (let (ok, st) = ask (mx_subsystem os) st
      in if ok then (True, st)
         else if \<not> au_driver_requested st then (False, st)
         else ask (mx_subsystem os) (st\<lparr>au_driver_requested := False\<rparr>))"

definition audio_open :: "aud_os \<Rightarrow> aud_state \<Rightarrow> bool \<times> aud_state" where
  "audio_open os st =
     (if g_audio_tried st then (g_audio_ready st, st)
      else
        let (found, st) = ask (mx_libraries os) (st\<lparr>g_audio_tried := True\<rparr>) in
        if \<not> found then (False, st)
        else let (ok, st) = ask (mx_symbols os) st; st = st\<lparr>au_mixer_symbols := ok\<rparr> in
        if \<not> ok then (False, st)
        else let (init, st) = init_audio_subsystem os st in
        if \<not> init then (False, st)
        else let (mp3, st) = ask (mx_mp3 os) st;
                 (opened, st) = ask (mx_open os) (st\<lparr>g_mixer_mp3_ready := mp3\<rparr>) in
        if \<not> opened then (False, st)
        else let (allocated, st) = ask (mx_channels os) st in
        if \<not> allocated then (False, st)
        else
          let st = set_volumes (init_sound_slots (init_audio_slots st));
              st = fold (\<lambda>channel st. log (Mix_Volume (audio_mixer_channel channel)
                     (as_volume_mix (stream_at st channel))) st) [0..<AUDIO_CHANNELS] st
          in (True, st\<lparr>g_audio_ready := True\<rparr>))"

section \<open>Generators\<close>

definition no_info :: s3e_sound_end_sample_info where
  "no_info = \<lparr>ei_channel = 0, ei_reps_remaining = 0, ei_new_data = 0, ei_num_samples = 0\<rparr>"

text \<open>
  \<open>invoke_callback\<close>: the result of the callback, 0 when none is set. \<open>mk\<close> builds the event from the
  function and its user data, \<open>info\<close> is the structure that is left when nothing is called.
\<close>

definition invoke_callback ::
  "aud_run \<Rightarrow> sound_callback \<Rightarrow> (ptr \<Rightarrow> ptr \<Rightarrow> aud_event) \<Rightarrow> s3e_sound_end_sample_info \<Rightarrow> aud_state
    \<Rightarrow> aud_reply \<times> aud_state" where
  "invoke_callback run callback mk info st =
     (if scb_function callback = 0
      then (\<lparr>rp_result = 0, rp_info = info, rp_end_sample = False, rp_samples = \<lambda>_. 0\<rparr>, st)
      else let ev = mk (scb_function callback) (scb_user_data callback) in run ev (log (Callback ev) st))"

datatype generated = Gen_none | Gen_failed | Gen_pcm "u16 list"

text \<open>
  The loop of \<open>render_generator_audio\<close>. The buffer has room for \<open>capacity\<close> samples, \<open>pcm\<close> are the ones
  written so far; \<open>grown\<close> doubles it up to \<open>limit\<close> when it is full, \<open>room_for\<close> tells whether that worked.
\<close>

definition grown :: "nat \<Rightarrow> nat \<Rightarrow> nat \<Rightarrow> nat" where
  "grown limit capacity written =
     (if capacity = written then (if capacity > limit div 2 then limit else capacity * 2) else capacity)"

definition room_for :: "aud_os \<Rightarrow> nat \<Rightarrow> nat \<Rightarrow> nat \<Rightarrow> aud_state \<Rightarrow> bool \<times> aud_state" where
  "room_for os limit capacity written st =
     (if capacity \<noteq> written then (True, st)
      else if grown limit capacity written \<le> capacity then (False, st)
      else ask (mx_alloc os) st)"

definition gen_request :: "nat \<Rightarrow> ptr \<Rightarrow> u32 \<Rightarrow> nat \<Rightarrow> nat \<Rightarrow> s3e_sound_gen_audio_info" where
  "gen_request channel data samples written requested = \<lparr>gi_channel = int channel, gi_target = written,
     gi_num_samples = requested, gi_orig_start = data, gi_orig_num_samples = samples\<rparr>"

lemma grown_room: "fst (room_for os limit capacity written st) \<Longrightarrow> written \<le> capacity \<Longrightarrow> capacity \<le> limit \<Longrightarrow>
   written < grown limit capacity written \<and> grown limit capacity written \<le> limit"
  by (auto simp: room_for_def grown_def split: if_splits)

function render_loop ::
  "aud_run \<Rightarrow> aud_os \<Rightarrow> nat \<Rightarrow> sound_callback \<Rightarrow> ptr \<Rightarrow> u32 \<Rightarrow> nat \<Rightarrow> nat \<Rightarrow> u16 list \<Rightarrow> aud_state
    \<Rightarrow> generated \<times> aud_state" where
  "render_loop run os channel callback data samples limit capacity pcm st =
     (let (room, st) = room_for os limit capacity (length pcm) st in
      if \<not> room then (Gen_failed, st)
      else
        let requested = min (grown limit capacity (length pcm) - length pcm) SOUND_GENERATOR_CHUNK_SAMPLES;
            (reply, st) = invoke_callback run callback
              (\<lambda>f u. Gen_audio f u (gen_request channel data samples (length pcm) requested)) no_info
              (put_sound channel (\<lambda>s. s\<lparr>ss_generator_decoding := True\<rparr>) st);
            st = put_sound channel (\<lambda>s. s\<lparr>ss_generator_decoding := False\<rparr>) st;
            produced = rp_result reply
        in if produced < 0 \<or> nat produced > requested \<or> (produced = 0 \<and> \<not> rp_end_sample reply) then (Gen_failed, st)
           else
             let pcm' = pcm @ map (rp_samples reply) [0..<nat produced] in
             if rp_end_sample reply then (if pcm' = [] then Gen_failed else Gen_pcm pcm', st)
             else render_loop run os channel callback data samples limit (grown limit capacity (length pcm)) pcm' st)"
  by pat_completeness auto
termination
  by (relation "measure (\<lambda>(run, os, channel, callback, data, samples, limit, capacity, pcm, st).
        max capacity limit - length pcm)") (auto simp: grown_def max_def split: if_splits)

declare render_loop.simps [simp del]

definition render_generator_audio ::
  "aud_run \<Rightarrow> aud_os \<Rightarrow> nat \<Rightarrow> ptr \<Rightarrow> u32 \<Rightarrow> aud_state \<Rightarrow> generated \<times> aud_state" where
  "render_generator_audio run os channel data samples st =
     (let callback = ss_callbacks (sound_at st channel) ! S3E_CHANNEL_GEN_AUDIO in
      if scb_function callback = 0 then (Gen_none, st)
      else if unat samples > (2 ^ 32 - 1 - SOUND_GENERATOR_CHUNK_SAMPLES) div SOUND_GENERATOR_MAX_EXPANSION \<or>
              unat samples > ((2 ^ 32 - 1) div 2 - SOUND_GENERATOR_CHUNK_SAMPLES) div SOUND_GENERATOR_MAX_EXPANSION
      then (Gen_failed, st)
      else
        let limit = unat samples * SOUND_GENERATOR_MAX_EXPANSION + SOUND_GENERATOR_CHUNK_SAMPLES;
            capacity = min SOUND_GENERATOR_CHUNK_SAMPLES limit;
            (ok, st) = ask (mx_alloc os) st
        in if \<not> ok then (Gen_failed, st)
           else render_loop run os channel callback data samples limit capacity [] st)"

section \<open>Sound channels\<close>

text \<open>\<open>RWFromConstMem\<close> followed by \<open>LoadWAV_RW\<close>; no chunk when either of them fails.\<close>

definition load_wav :: "aud_os \<Rightarrow> u8 list \<Rightarrow> aud_state \<Rightarrow> nat option \<times> aud_state" where
  "load_wav os bytes st =
     (let (loaded, st) = ask (mx_loads os) st
      in if \<not> loaded then (None, st) else let (c, st) = new_chunk bytes st in (Some c, st))"

text \<open>Putting a chunk on a sound channel: the end of \<open>play_sound_channel\<close>.\<close>

definition start_sound ::
  "aud_os \<Rightarrow> nat \<Rightarrow> nat \<Rightarrow> ptr \<Rightarrow> u32 \<Rightarrow> u32 \<Rightarrow> u32 \<Rightarrow> aud_state \<Rightarrow> int \<times> aud_state" where
  "start_sound os channel chunk data samples repeat loop_index st =
     (let st = free_sound_slot channel (halt_channel os channel st);
          st = put_sound channel (\<lambda>s. s\<lparr>ss_chunk := Some chunk, ss_finished := False, ss_source_data := data,
                 ss_source_samples := samples, ss_reps_remaining := repeat, ss_loop_index := loop_index\<rparr>) st;
          st = log (Mix_Volume channel (mixed_sound_volume (sound_at st channel) st)) st;
          (played, st) = play_channel os channel chunk 0 st
      in if \<not> played then (1, free_sound_slot channel st) else (0, st))"

definition play_sound_channel ::
  "aud_run \<Rightarrow> aud_os \<Rightarrow> nat \<Rightarrow> ptr \<Rightarrow> u32 \<Rightarrow> u32 \<Rightarrow> u32 \<Rightarrow> bool \<Rightarrow> aud_state \<Rightarrow> int \<times> aud_state" where
  "play_sound_channel run os channel data samples repeat loop_index begin_at_loop st =
     (let (generated, st) = render_generator_audio run os channel data samples st in
      case generated of
        Gen_failed \<Rightarrow> (1, st)
      | _ \<Rightarrow>
        let (pcm, pcm_samples) = (case generated of Gen_pcm xs \<Rightarrow> (Some (nth xs), of_nat (length xs))
               | _ \<Rightarrow> (if data = 0 then None else Some (au_memory os data), samples)) in
        if begin_at_loop \<and> loop_index \<ge> pcm_samples then (1, st)
        else
          let (pcm, pcm_samples) = (if begin_at_loop
                 then (map_option (\<lambda>f i. f (unat loop_index + i)) pcm, pcm_samples - loop_index)
                 else (pcm, pcm_samples));
              (ok, st) = ask (mx_alloc os) st
          in (case create_pcm16_mono_wav ok pcm pcm_samples SOUND_FREQUENCY of
                None \<Rightarrow> (1, st)
              | Some wav \<Rightarrow>
                let (rw, st) = ask (mx_rw os) st in
                if \<not> rw then (1, st)
                else (case load_wav os wav st of
                    (None, st) \<Rightarrow> (1, st)
                  | (Some chunk, st) \<Rightarrow> start_sound os channel chunk data samples repeat loop_index st)))"

text \<open>One turn of the loop of \<open>service_finished_sound\<close>. \<open>restart_sound\<close> is what the answer of the end callback
  asks for.\<close>

definition restart_sound ::
  "aud_run \<Rightarrow> aud_os \<Rightarrow> nat \<Rightarrow> ptr \<Rightarrow> u32 \<Rightarrow> u32 \<Rightarrow> s3e_sound_end_sample_info \<Rightarrow> aud_state \<Rightarrow> bool \<times> aud_state" where
  "restart_sound run os channel source_data source_samples loop_index info st =
     (let new_data = (ei_new_data info \<noteq> 0);
          next_data = (if new_data then ei_new_data info else source_data);
          next_samples = (if new_data then ei_num_samples info else source_samples);
          next_repeat = (if ei_reps_remaining info > 0 then of_int (ei_reps_remaining info) else 0)
      in if next_data \<noteq> 0 \<and> next_samples \<noteq> 0
         then let (r, st) = play_sound_channel run os channel next_data next_samples next_repeat loop_index (\<not> new_data) st
              in (r = 0, st)
         else (False, st))"

definition service_sound :: "aud_run \<Rightarrow> aud_os \<Rightarrow> nat \<Rightarrow> aud_state \<Rightarrow> aud_state" where
  "service_sound run os channel st =
     (let slot = sound_at st channel in
      if ss_chunk slot = None then st
      else
        let (busy, st) = (if ss_finished slot then (False, st) else ask (\<lambda>n. mx_playing os n channel) st) in
        if busy then st
        else
          let source_data = ss_source_data slot; source_samples = ss_source_samples slot;
              repeat_forever = (ss_reps_remaining slot = 0); loop_index = ss_loop_index slot;
              reps_remaining = (if ss_reps_remaining slot > 0 then ss_reps_remaining slot - 1 else ss_reps_remaining slot);
              st = free_sound_slot channel st;
              info = \<lparr>ei_channel = int channel, ei_reps_remaining = sint reps_remaining, ei_new_data = 0,
                      ei_num_samples = source_samples\<rparr>;
              end_callback = ss_callbacks (sound_at st channel) ! S3E_CHANNEL_END_SAMPLE;
              (keep_playing, info, st) =
                (if scb_function end_callback \<noteq> 0
                 then let (r, st) = invoke_callback run end_callback (\<lambda>f u. End_sample f u info) info st
                      in (rp_result r \<noteq> 0, rp_info r, st)
                 else (repeat_forever \<or> ei_reps_remaining info > 0, info, st));
              (continued, st) = (if keep_playing
                 then restart_sound run os channel source_data source_samples loop_index info st else (False, st))
          in if continued then st
             else snd (invoke_callback run (ss_callbacks (sound_at st channel) ! S3E_CHANNEL_STOP_AUDIO)
                    (\<lambda>f u. Stop_audio f u info) info st))"

definition service_finished_sound :: "aud_run \<Rightarrow> aud_os \<Rightarrow> aud_state \<Rightarrow> aud_state" where
  "service_finished_sound run os st =
     (if \<not> g_audio_ready st then st else fold (service_sound run os) [0..<SOUND_CHANNELS] st)"

section \<open>Stream channels\<close>

definition notify_audio_stopped :: "aud_run \<Rightarrow> nat \<Rightarrow> aud_state \<Rightarrow> aud_state" where
  "notify_audio_stopped run channel st =
     snd (invoke_callback run (g_audio_callbacks st ! S3E_AUDIO_STOP) (\<lambda>f u. Stream_stopped f u (int channel)) no_info st)"

definition stop_audio_channel :: "aud_run \<Rightarrow> aud_os \<Rightarrow> nat \<Rightarrow> bool \<Rightarrow> aud_state \<Rightarrow> aud_state" where
  "stop_audio_channel run os channel notify st =
     (let had_audio = (as_chunk (stream_at st channel) \<noteq> None);
          st = (if g_audio_ready st \<and> had_audio then halt_channel os (audio_mixer_channel channel) st else st);
          st = free_audio_slot channel st
      in if notify \<and> had_audio then notify_audio_stopped run channel st else st)"

definition service_stream :: "aud_run \<Rightarrow> aud_os \<Rightarrow> nat \<Rightarrow> aud_state \<Rightarrow> aud_state" where
  "service_stream run os channel st =
     (let slot = stream_at st channel in
      if as_chunk slot = None then st
      else
        let (busy, st) = (if as_finished slot then (False, st)
                          else ask (\<lambda>n. mx_playing os n (audio_mixer_channel channel)) st)
        in if busy then st else notify_audio_stopped run channel (free_audio_slot channel st))"

definition service_finished_audio :: "aud_run \<Rightarrow> aud_os \<Rightarrow> aud_state \<Rightarrow> aud_state" where
  "service_finished_audio run os st =
     (if \<not> g_audio_ready st then st else fold (service_stream run os) [0..<AUDIO_CHANNELS] st)"

definition audio_pump :: "aud_run \<Rightarrow> aud_os \<Rightarrow> aud_state \<Rightarrow> aud_state" where
  "audio_pump run os st =
     (if g_audio_pumping st then st
      else (service_finished_sound run os (service_finished_audio run os (st\<lparr>g_audio_pumping := True\<rparr>)))
             \<lparr>g_audio_pumping := False\<rparr>)"

text \<open>\<open>play_audio_buffer\<close>; \<open>bytes\<close> is the buffer, \<open>None\<close> when it is \<open>NULL\<close>.\<close>

definition play_audio_buffer :: "aud_run \<Rightarrow> aud_os \<Rightarrow> u8 list option \<Rightarrow> u32 \<Rightarrow> u32 \<Rightarrow> aud_state \<Rightarrow> int \<times> aud_state" where
  "play_audio_buffer run os bytes size_bytes repeat st =
     (if bytes = None \<or> size_bytes = 0 \<or> unat size_bytes > 2147483647 then (1, st)
      else
        let (rw, st) = ask (mx_rw os) st in
        if \<not> rw then (1, st)
        else
          let channel = g_audio_channel st; st = stop_audio_channel run os channel True st in
          (case load_wav os (the bytes) st of
             (None, st) \<Rightarrow> (1, st)
           | (Some chunk, st) \<Rightarrow>
               let st = put_stream channel (\<lambda>s. s\<lparr>as_chunk := Some chunk, as_finished := False, as_paused := False\<rparr>) st;
                   st = log (Mix_Volume (audio_mixer_channel channel) (as_volume_mix (stream_at st channel))) st;
                   (played, st) = play_channel os (audio_mixer_channel channel) chunk (mixer_loops repeat) st
               in if \<not> played then (1, free_audio_slot channel st) else (0, st)))"

section \<open>Files\<close>

definition resolve_audio_path :: "aud_os \<Rightarrow> cstring option \<Rightarrow> nat \<Rightarrow> cstring option" where
  "resolve_audio_path os name out_size =
     (case name of None \<Rightarrow> None
      | Some nm \<Rightarrow>
        if nm = [] then None
        else if hd nm = slash then
          (if os_readable os (snprintf out_size nm) then Some (snprintf out_size nm) else None)
        else List.find (os_readable os)
          (map (\<lambda>dir. snprintf out_size (os_root os @ bytes_of dir @ nm))
            [''/'', ''/assets/'', ''/assets/data-gles1/'', ''/assets/data-sw/'']))"

function read_loop :: "aud_os \<Rightarrow> cstring \<Rightarrow> nat \<Rightarrow> u8 list \<Rightarrow> u8 list option" where
  "read_loop os path sz acc =
     (if length acc < sz then
        (case os_read os path (length acc) (sz - length acc) of
           None \<Rightarrow> None
         | Some bs \<Rightarrow> if bs = [] then None else read_loop os path sz (acc @ take (sz - length acc) bs))
      else Some acc)"
  by pat_completeness auto
termination
proof (relation "measure (\<lambda>(os, path, sz, acc). sz - length acc)")
  fix os path sz and acc bs :: "u8 list"
  assume "length acc < sz" and "bs \<noteq> []"
  then have "0 < min (length bs) (sz - length acc)" by simp
  with \<open>length acc < sz\<close>
  show "((os, path, sz, acc @ take (sz - length acc) bs), (os, path, sz, acc)) \<in> measure (\<lambda>(os, path, sz, acc). sz - length acc)"
    by (simp del: min_less_iff_conj length_greater_0_conv)
qed simp

declare read_loop.simps [simp del]

definition read_audio_file :: "aud_os \<Rightarrow> cstring \<Rightarrow> aud_state \<Rightarrow> u8 list option \<times> aud_state" where
  "read_audio_file os path st =
     (case os_open_size os path of None \<Rightarrow> (None, st)
      | Some sz \<Rightarrow>
        if sz \<le> 0 \<or> sz > 2147483647 then (None, st)
        else let (ok, st) = ask (mx_alloc os) st
             in (if ok then read_loop os path (nat sz) [] else None, st))"

section \<open>The voice unit\<close>

definition audio_unit_deactivate :: "aud_os \<Rightarrow> aud_state \<Rightarrow> aud_state" where
  "audio_unit_deactivate os st =
     (let st = (if g_audio_unit_capture_device st then log Capture_Close (log (Capture_Pause True) st) else st);
          st = st\<lparr>g_audio_unit_capture_device := False, g_audio_unit_capture_frequency := 0\<rparr>;
          st = (if g_audio_unit_postmix_installed st \<and> mx_has_postmix os then log (Mix_SetPostMix False) st else st)
      in st\<lparr>g_audio_unit_postmix_installed := False, g_audio_unit_output_frequency := 0,
            g_audio_unit_output_channels := 0\<rparr>)"

definition activate_render :: "aud_os \<Rightarrow> aud_state \<Rightarrow> aud_state" where
  "activate_render os st =
     (if g_audio_unit_render_callback st = 0 \<or> \<not> mx_has_postmix os then st
      else let (spec, st) = ask (mx_query_spec os) st in
        (case spec of None \<Rightarrow> st
         | Some (frequency, s16lsb, channels) \<Rightarrow>
             if s16lsb \<and> frequency > 0 \<and> channels > 0
             then log (Mix_SetPostMix True) (st\<lparr>g_audio_unit_output_frequency := frequency,
                    g_audio_unit_output_channels := channels, g_audio_unit_postmix_installed := True\<rparr>)
             else st))"

text \<open>The device that was obtained is described by whether it delivers 16-bit mono samples, and its rate.\<close>

definition activate_capture :: "aud_os \<Rightarrow> aud_state \<Rightarrow> aud_state" where
  "activate_capture os st =
     (if g_audio_unit_capture_callback st = 0 \<or> \<not> mx_has_capture os then st
      else let (obtained, st) = ask (mx_open_capture os) (log Capture_Open st) in
        (case obtained of None \<Rightarrow> st\<lparr>g_audio_unit_capture_device := False\<rparr>
         | Some (mono16, frequency) \<Rightarrow>
             if mono16 \<and> frequency > 0
             then log (Capture_Pause False) (st\<lparr>g_audio_unit_capture_device := True, g_audio_unit_capture_frequency := frequency\<rparr>)
             else (log Capture_Close st)\<lparr>g_audio_unit_capture_device := False\<rparr>))"

definition audio_unit_activate :: "aud_os \<Rightarrow> aud_state \<Rightarrow> aud_state" where
  "audio_unit_activate os st =
     (if \<not> g_audio_unit_started st \<or> (g_audio_unit_capture_callback st = 0 \<and> g_audio_unit_render_callback st = 0) then st
      else let (ready, st) = audio_open os st
           in if \<not> ready then st else activate_capture os (activate_render os st))"

definition audio_unit_backend_set_callbacks :: "aud_os \<Rightarrow> ptr \<Rightarrow> ptr \<Rightarrow> aud_state \<Rightarrow> aud_state" where
  "audio_unit_backend_set_callbacks os capture render st =
     audio_unit_activate os ((audio_unit_deactivate os st)
       \<lparr>g_audio_unit_capture_callback := capture, g_audio_unit_render_callback := render\<rparr>)"

definition audio_unit_backend_start :: "aud_os \<Rightarrow> aud_state \<Rightarrow> aud_state" where
  "audio_unit_backend_start os st =
     (if g_audio_unit_started st then st else audio_unit_activate os (st\<lparr>g_audio_unit_started := True\<rparr>))"

definition audio_unit_backend_stop :: "aud_os \<Rightarrow> aud_state \<Rightarrow> aud_state" where
  "audio_unit_backend_stop os st = (audio_unit_deactivate os st)\<lparr>g_audio_unit_started := False\<rparr>"

definition audio_unit_backend_shutdown :: "aud_os \<Rightarrow> aud_state \<Rightarrow> aud_state" where
  "audio_unit_backend_shutdown os st = (audio_unit_deactivate os st)\<lparr>g_audio_unit_started := False,
     g_audio_unit_capture_callback := 0, g_audio_unit_render_callback := 0\<rparr>"

text \<open>\<open>audio_unit_capture\<close>: the buffer the capture callback is called with, as the number of samples and
  their rate, when it is called.\<close>

definition audio_unit_capture :: "u8 list option \<Rightarrow> aud_state \<Rightarrow> (nat \<times> int) option" where
  "audio_unit_capture stream st =
     (case stream of None \<Rightarrow> None
      | Some bytes \<Rightarrow> if g_audio_unit_capture_callback st = 0 \<or> length bytes = 0 then None
          else Some (length bytes div 2, g_audio_unit_capture_frequency st))"

section \<open>Shutdown\<close>

definition audio_shutdown :: "aud_run \<Rightarrow> aud_os \<Rightarrow> aud_state \<Rightarrow> aud_state" where
  "audio_shutdown run os st =
     (let st = audio_unit_backend_shutdown os st;
          st = fold (\<lambda>channel. stop_audio_channel run os channel False) [0..<AUDIO_CHANNELS] st;
          st = st\<lparr>g_audio_callbacks := replicate S3E_AUDIO_CALLBACK_COUNT no_callback\<rparr>;
          st = fold (\<lambda>channel st.
                 let st = (if g_audio_ready st \<and> au_mixer_symbols st then halt_channel os channel st else st)
                 in put_sound channel (\<lambda>s. s\<lparr>ss_callbacks := replicate S3E_CHANNEL_CALLBACK_COUNT no_callback\<rparr>)
                      (free_sound_slot channel st)) [0..<SOUND_CHANNELS] st
      in st\<lparr>au_mixer_symbols := False, g_audio_ready := False, g_audio_tried := False, g_mixer_mp3_ready := False,
            g_audio_channel := 0, g_audio_slots_initialized := False, g_sound_slots_initialized := False,
            g_audio_pumping := False\<rparr>)"

section \<open>The guest's interface: streams\<close>

definition s3eAudioSetInt :: "aud_os \<Rightarrow> u32 \<Rightarrow> int \<Rightarrow> aud_state \<Rightarrow> int \<times> aud_state" where
  "s3eAudioSetInt os key value st =
     (let st = init_audio_slots st in
      if key = 0 then
        let v = clamp_volume_256 value; channel = g_audio_channel st;
            st = put_stream channel (\<lambda>s. s\<lparr>as_volume_s3e := v, as_volume_mix := mix_volume_from_s3e v\<rparr>) st;
            (ready, st) = audio_open os st
        in (0, if ready then log (Mix_Volume (audio_mixer_channel channel) (as_volume_mix (stream_at st channel))) st else st)
      else if key = 4 \<and> audio_channel_valid value then (0, st\<lparr>g_audio_channel := nat value\<rparr>)
      else (1, st))"

definition s3eAudioGetInt :: "aud_os \<Rightarrow> u32 \<Rightarrow> aud_state \<Rightarrow> int \<times> aud_state" where
  "s3eAudioGetInt os key st =
     (let st = init_audio_slots st; channel = g_audio_channel st in
      if key = 0 then (as_volume_s3e (stream_at st channel), st)
      else if key = 1 then
        let (ready, st) = audio_open os st in
        if \<not> ready \<or> as_chunk (stream_at st channel) = None then (AUDIO_STATUS_STOPPED, st)
        else let (playing, st) = ask (\<lambda>n. mx_playing os n (audio_mixer_channel channel)) st
             in (if \<not> playing then AUDIO_STATUS_STOPPED
                 else if as_paused (stream_at st channel) then AUDIO_STATUS_PAUSED else AUDIO_STATUS_PLAYING, st)
      else if key = 4 then (int channel, st)
      else if key = 5 then (int AUDIO_CHANNELS, st)
      else if key = 6 \<or> key = 9 then let (ready, st) = audio_open os st in (if ready then 1 else 0, st)
      else (-1, st))"

definition s3eAudioIsPlaying :: "aud_os \<Rightarrow> aud_state \<Rightarrow> int \<times> aud_state" where
  "s3eAudioIsPlaying os st =
     (let (status, st) = s3eAudioGetInt os 1 st in (if status = AUDIO_STATUS_PLAYING then 1 else 0, st))"

definition s3eAudioPlay :: "aud_run \<Rightarrow> aud_os \<Rightarrow> cstring option \<Rightarrow> u32 \<Rightarrow> aud_state \<Rightarrow> int \<times> aud_state" where
  "s3eAudioPlay run os filename repeat st =
     (let (ready, st) = audio_open os st in
      if \<not> ready then (1, st)
      else (case resolve_audio_path os filename 1200 of
          None \<Rightarrow> (1, st)
        | Some path \<Rightarrow>
            (case read_audio_file os path st of
               (None, st) \<Rightarrow> (1, st)
             | (Some bytes, st) \<Rightarrow> play_audio_buffer run os (Some bytes) (of_nat (length bytes)) repeat st)))"

definition s3eAudioPlayFromBuffer :: "aud_run \<Rightarrow> aud_os \<Rightarrow> ptr \<Rightarrow> u32 \<Rightarrow> u32 \<Rightarrow> aud_state \<Rightarrow> int \<times> aud_state" where
  "s3eAudioPlayFromBuffer run os buffer size_bytes repeat st =
     (let (ready, st) = audio_open os st in
      if \<not> ready then (1, st)
      else play_audio_buffer run os
        (if buffer = 0 then None else Some (map (au_bytes os buffer) [0..<unat size_bytes])) size_bytes repeat st)"

definition s3eAudioStop :: "aud_run \<Rightarrow> aud_os \<Rightarrow> aud_state \<Rightarrow> aud_state" where
  "s3eAudioStop run os st =
     (let (ready, st) = audio_open os st in if ready then stop_audio_channel run os (g_audio_channel st) True st else st)"

definition s3eAudioPause :: "aud_os \<Rightarrow> aud_state \<Rightarrow> aud_state" where
  "s3eAudioPause os st =
     (let (ready, st) = audio_open os st; channel = g_audio_channel st
      in if ready \<and> as_chunk (stream_at st channel) \<noteq> None
         then put_stream channel (\<lambda>s. s\<lparr>as_paused := True\<rparr>) (log (Mix_Pause (audio_mixer_channel channel)) st) else st)"

definition s3eAudioResume :: "aud_os \<Rightarrow> aud_state \<Rightarrow> aud_state" where
  "s3eAudioResume os st =
     (let (ready, st) = audio_open os st; channel = g_audio_channel st
      in if ready \<and> as_chunk (stream_at st channel) \<noteq> None
         then put_stream channel (\<lambda>s. s\<lparr>as_paused := False\<rparr>) (log (Mix_Resume (audio_mixer_channel channel)) st) else st)"

definition s3eAudioRegister :: "u32 \<Rightarrow> ptr \<Rightarrow> ptr \<Rightarrow> aud_state \<Rightarrow> int \<times> aud_state" where
  "s3eAudioRegister ident callback user_data st =
     (if unat ident \<ge> S3E_AUDIO_CALLBACK_COUNT \<or> callback = 0 then (1, st)
      else (0, st\<lparr>g_audio_callbacks := (g_audio_callbacks st)[unat ident :=
             \<lparr>scb_function = callback, scb_user_data = user_data\<rparr>]\<rparr>))"

section \<open>The guest's interface: sounds\<close>

definition s3eSoundGetFreeChannel :: "aud_run \<Rightarrow> aud_os \<Rightarrow> aud_state \<Rightarrow> int \<times> aud_state" where
  "s3eSoundGetFreeChannel run os st =
     (let (ready, st) = audio_open os (init_sound_slots st) in
      if \<not> ready then (-1, st)
      else let st = audio_pump run os st
           in (case find_idx (\<lambda>s. ss_chunk s = None) (g_sound_slots st) of None \<Rightarrow> -1 | Some i \<Rightarrow> int i, st))"

definition s3eSoundSetInt :: "aud_os \<Rightarrow> u32 \<Rightarrow> int \<Rightarrow> aud_state \<Rightarrow> int \<times> aud_state" where
  "s3eSoundSetInt os key value st =
     (let st = init_sound_slots st in
      if key = 0 then
        let v = clamp_volume_256 value;
            (ready, st) = audio_open os (st\<lparr>g_sound_volume_s3e := v, g_sound_volume_mix := mix_volume_from_s3e v\<rparr>)
        in (0, if ready then set_volumes st else st)
      else if key = 2 then
        (0, st\<lparr>g_sound_rate := clamp_rate value,
               g_sound_slots := map (\<lambda>s. if ss_chunk s = None then s\<lparr>ss_rate := clamp_rate value\<rparr> else s) (g_sound_slots st)\<rparr>)
      else (1, st))"

definition s3eSoundGetInt :: "aud_os \<Rightarrow> u32 \<Rightarrow> aud_state \<Rightarrow> int \<times> aud_state" where
  "s3eSoundGetInt os key st =
     (if key = 0 then (g_sound_volume_s3e st, st)
      else if key = 1 then (SOUND_FREQUENCY, st)
      else if key = 2 then (g_sound_rate st, st)
      else if key = 3 then (int SOUND_CHANNELS, st)
      else if key = 5 then let (ready, st) = audio_open os st in (if ready then 1 else 0, st)
      else if key = 7 then (1, st)
      else (-1, st))"

definition s3eSoundChannelRegister :: "int \<Rightarrow> u32 \<Rightarrow> ptr \<Rightarrow> ptr \<Rightarrow> aud_state \<Rightarrow> int \<times> aud_state" where
  "s3eSoundChannelRegister channel callback_type callback user_data st =
     (let st = init_sound_slots st in
      if \<not> sound_channel_valid channel \<or> unat callback_type \<ge> S3E_CHANNEL_CALLBACK_COUNT \<or>
         unat callback_type = S3E_CHANNEL_GEN_AUDIO_STEREO \<or> callback = 0 then (1, st)
      else (0, put_sound (nat channel) (\<lambda>s. s\<lparr>ss_callbacks := (ss_callbacks s)[unat callback_type :=
             \<lparr>scb_function = callback, scb_user_data = user_data\<rparr>]\<rparr>) st))"

definition s3eSoundChannelUnRegister :: "int \<Rightarrow> u32 \<Rightarrow> aud_state \<Rightarrow> int \<times> aud_state" where
  "s3eSoundChannelUnRegister channel callback_type st =
     (let st = init_sound_slots st in
      if \<not> sound_channel_valid channel \<or> unat callback_type \<ge> S3E_CHANNEL_CALLBACK_COUNT then (1, st)
      else (0, put_sound (nat channel) (\<lambda>s. s\<lparr>ss_callbacks := (ss_callbacks s)[unat callback_type := no_callback]\<rparr>) st))"

definition s3eSoundChannelPlay :: "aud_run \<Rightarrow> aud_os \<Rightarrow> int \<Rightarrow> ptr \<Rightarrow> u32 \<Rightarrow> u32 \<Rightarrow> u32 \<Rightarrow> aud_state \<Rightarrow> int \<times> aud_state" where
  "s3eSoundChannelPlay run os channel data samples repeat loop_index st =
     (let (ready, st) = audio_open os (init_sound_slots st) in
      if \<not> ready \<or> data = 0 \<or> samples = 0 \<or> unat samples > (2 ^ 32 - 1) div 2 then (1, st)
      else
        let st = audio_pump run os st;
            (channel, st) = (if channel < 0 then s3eSoundGetFreeChannel run os st else (channel, st))
        in if \<not> sound_channel_valid channel then (1, st)
           else play_sound_channel run os (nat channel) data samples repeat loop_index False st)"

definition s3eSoundChannelStop :: "aud_run \<Rightarrow> aud_os \<Rightarrow> int \<Rightarrow> aud_state \<Rightarrow> int \<times> aud_state" where
  "s3eSoundChannelStop run os channel st =
     (let (ready, st) = audio_open os st in
      if \<not> ready \<or> \<not> sound_channel_valid channel then (1, st)
      else
        let i = nat channel; slot = sound_at st i;
            info = \<lparr>ei_channel = channel, ei_reps_remaining = sint (ss_reps_remaining slot), ei_new_data = 0,
                    ei_num_samples = ss_source_samples slot\<rparr>;
            was_playing = (ss_chunk slot \<noteq> None);
            st = free_sound_slot i (halt_channel os i st)
        in (0, if was_playing
               then snd (invoke_callback run (ss_callbacks (sound_at st i) ! S3E_CHANNEL_STOP_AUDIO)
                      (\<lambda>f u. Stop_audio f u info) info st)
               else st))"

definition s3eSoundChannelPause :: "aud_os \<Rightarrow> int \<Rightarrow> aud_state \<Rightarrow> int \<times> aud_state" where
  "s3eSoundChannelPause os channel st =
     (let (ready, st) = audio_open os st in
      if \<not> ready \<or> \<not> sound_channel_valid channel then (1, st) else (0, log (Mix_Pause (nat channel)) st))"

definition s3eSoundChannelResume :: "aud_os \<Rightarrow> int \<Rightarrow> aud_state \<Rightarrow> int \<times> aud_state" where
  "s3eSoundChannelResume os channel st =
     (let (ready, st) = audio_open os st in
      if \<not> ready \<or> \<not> sound_channel_valid channel then (1, st) else (0, log (Mix_Resume (nat channel)) st))"

definition s3eSoundChannelSetInt :: "aud_os \<Rightarrow> int \<Rightarrow> u32 \<Rightarrow> int \<Rightarrow> aud_state \<Rightarrow> int \<times> aud_state" where
  "s3eSoundChannelSetInt os channel key value st =
     (let st = init_sound_slots st; i = nat channel in
      if \<not> sound_channel_valid channel then (1, st)
      else if key = 0 then
        (0, put_sound i (\<lambda>s. s\<lparr>ss_rate_scale := value, ss_rate := rate_from_scale (g_sound_rate st) value\<rparr>) st)
      else if key = 1 then (0, put_sound i (\<lambda>s. s\<lparr>ss_rate := clamp_rate value\<rparr>) st)
      else if key = 2 then (0, put_sound i (\<lambda>s. s\<lparr>ss_user_value := value\<rparr>) st)
      else if key = 3 then
        let v = clamp_volume_256 value;
            (ready, st) = audio_open os (put_sound i (\<lambda>s. s\<lparr>ss_volume_s3e := v, ss_volume_mix := mix_volume_from_s3e v\<rparr>) st)
        in (0, if ready then log (Mix_Volume i (mixed_sound_volume (sound_at st i) st)) st else st)
      else (1, st))"

definition s3eSoundChannelGetInt :: "aud_os \<Rightarrow> int \<Rightarrow> u32 \<Rightarrow> aud_state \<Rightarrow> int \<times> aud_state" where
  "s3eSoundChannelGetInt os channel key st =
     (let st = init_sound_slots st; i = nat channel; slot = sound_at st i in
      if \<not> sound_channel_valid channel then (-1, st)
      else if key = 0 then (ss_rate_scale slot, st)
      else if key = 1 then (ss_rate slot, st)
      else if key = 2 then (ss_user_value slot, st)
      else if key = 3 then (if ss_generator_decoding slot then S3E_MAX_VOLUME else ss_volume_s3e slot, st)
      else if key = 4 then
        let (ready, st) = audio_open os st in
        if \<not> ready then (0, st)
        else let (playing, st) = ask (\<lambda>n. mx_playing os n i) st in (if playing then 1 else 0, st)
      else if key = 5 then
        let (ready, st) = audio_open os st in
        if \<not> ready then (0, st)
        else let (paused, st) = ask (\<lambda>n. mx_paused os n i) st in (if paused then 1 else 0, st)
      else (-1, st))"

section \<open>The machine\<close>

datatype aud_call =
    Audio_SetInt u32 int
  | Audio_GetInt u32
  | Audio_IsPlaying
  | Audio_Play "cstring option" u32
  | Audio_PlayFromBuffer ptr u32 u32
  | Audio_Stop
  | Audio_Pause
  | Audio_Resume
  | Audio_Register u32 ptr ptr
  | Sound_GetFreeChannel
  | Sound_SetInt u32 int
  | Sound_GetInt u32
  | Channel_Register int u32 ptr ptr
  | Channel_UnRegister int u32
  | Channel_Play int ptr u32 u32 u32
  | Channel_Stop int
  | Channel_Pause int
  | Channel_Resume int
  | Channel_SetInt int u32 int
  | Channel_GetInt int u32
  | Unit_SetCallbacks ptr ptr
  | Unit_Start
  | Unit_Stop
  | Unit_Terminate
  | Audio_Yield

text \<open>
  The table of \<open>is_audio_unit_get_interface\<close> leads to the \<open>Unit\<close> calls and to the stream calls;
  \<open>Audio_Yield\<close> is any call of the guest that pumps.
\<close>

fun aud_call_step :: "aud_run \<Rightarrow> aud_os \<Rightarrow> aud_call \<Rightarrow> aud_state \<Rightarrow> aud_state" where
  "aud_call_step run os (Audio_SetInt k v) st = snd (s3eAudioSetInt os k v st)"
| "aud_call_step run os (Audio_GetInt k) st = snd (s3eAudioGetInt os k st)"
| "aud_call_step run os Audio_IsPlaying st = snd (s3eAudioIsPlaying os st)"
| "aud_call_step run os (Audio_Play f r) st = snd (s3eAudioPlay run os f r st)"
| "aud_call_step run os (Audio_PlayFromBuffer b n r) st = snd (s3eAudioPlayFromBuffer run os b n r st)"
| "aud_call_step run os Audio_Stop st = s3eAudioStop run os st"
| "aud_call_step run os Audio_Pause st = s3eAudioPause os st"
| "aud_call_step run os Audio_Resume st = s3eAudioResume os st"
| "aud_call_step run os (Audio_Register i f u) st = snd (s3eAudioRegister i f u st)"
| "aud_call_step run os Sound_GetFreeChannel st = snd (s3eSoundGetFreeChannel run os st)"
| "aud_call_step run os (Sound_SetInt k v) st = snd (s3eSoundSetInt os k v st)"
| "aud_call_step run os (Sound_GetInt k) st = snd (s3eSoundGetInt os k st)"
| "aud_call_step run os (Channel_Register c t f u) st = snd (s3eSoundChannelRegister c t f u st)"
| "aud_call_step run os (Channel_UnRegister c t) st = snd (s3eSoundChannelUnRegister c t st)"
| "aud_call_step run os (Channel_Play c d n r l) st = snd (s3eSoundChannelPlay run os c d n r l st)"
| "aud_call_step run os (Channel_Stop c) st = snd (s3eSoundChannelStop run os c st)"
| "aud_call_step run os (Channel_Pause c) st = snd (s3eSoundChannelPause os c st)"
| "aud_call_step run os (Channel_Resume c) st = snd (s3eSoundChannelResume os c st)"
| "aud_call_step run os (Channel_SetInt c k v) st = snd (s3eSoundChannelSetInt os c k v st)"
| "aud_call_step run os (Channel_GetInt c k) st = snd (s3eSoundChannelGetInt os c k st)"
| "aud_call_step run os (Unit_SetCallbacks c r) st = audio_unit_backend_set_callbacks os c r st"
| "aud_call_step run os Unit_Start st = audio_unit_backend_start os st"
| "aud_call_step run os Unit_Stop st = audio_unit_backend_stop os st"
| "aud_call_step run os Unit_Terminate st = audio_unit_backend_shutdown os st"
| "aud_call_step run os Audio_Yield st = audio_pump run os st"

text \<open>
  The guest: the calls a callback makes, and the reply it leaves after them. \<open>run_callback d\<close> runs a
  callback below which \<open>d\<close> further levels of callbacks may run; on the last level a callback only replies.
\<close>

record aud_guest =
  ag_calls :: "aud_state \<Rightarrow> aud_event \<Rightarrow> aud_call list"
  ag_reply :: "aud_state \<Rightarrow> aud_event \<Rightarrow> aud_reply"

primrec run_callback :: "nat \<Rightarrow> aud_os \<Rightarrow> aud_guest \<Rightarrow> aud_run" where
  "run_callback 0 os guest ev st = (ag_reply guest st ev, st)"
| "run_callback (Suc d) os guest ev st =
     (let st = fold (aud_call_step (run_callback d os guest) os) (ag_calls guest st ev) st
      in (ag_reply guest st ev, st))"

datatype aud_input = Audio_call aud_call | Audio_pump | Mixer_finished int | Audio_shutdown

fun aud_step :: "nat \<Rightarrow> aud_os \<Rightarrow> aud_guest \<Rightarrow> aud_input \<Rightarrow> aud_state \<Rightarrow> aud_state" where
  "aud_step d os guest (Audio_call c) st = aud_call_step (run_callback d os guest) os c st"
| "aud_step d os guest Audio_pump st = audio_pump (run_callback d os guest) os st"
| "aud_step d os guest (Mixer_finished channel) st = mixer_channel_finished channel st"
| "aud_step d os guest Audio_shutdown st = audio_shutdown (run_callback d os guest) os st"

end
