(* ===== verification/Audio_Inv.thy ===== *)
theory Audio_Inv
  imports Audio Audio_Signal
begin

text \<open>
  The invariant of the audio component and its preservation: a chunk of the mixer is held by at most one
  channel, a held chunk is live, and no chunk is freed twice; volumes, rates and channel numbers stay
  in the ranges the mixer allows; a generator is asked for at least one and at most 4096 samples, inside
  of the buffer it fills. Callbacks may call into the component at every point at which the code runs them.
\<close>

section \<open>The invariant\<close>

definition sound_ok :: "sound_slot \<Rightarrow> bool" where
  "sound_ok s \<longleftrightarrow> length (ss_callbacks s) = S3E_CHANNEL_CALLBACK_COUNT \<and>
     0 \<le> ss_volume_mix s \<and> ss_volume_mix s \<le> 128 \<and> 0 \<le> ss_volume_s3e s \<and> ss_volume_s3e s \<le> 256 \<and>
     0 \<le> ss_rate s \<and> ss_rate s \<le> 0x40000"

definition stream_ok :: "audio_slot \<Rightarrow> bool" where
  "stream_ok s \<longleftrightarrow> 0 \<le> as_volume_mix s \<and> as_volume_mix s \<le> 128 \<and> 0 \<le> as_volume_s3e s \<and> as_volume_s3e s \<le> 256"

fun event_ok :: "aud_event \<Rightarrow> bool" where
  "event_ok (End_sample f u i) = (f \<noteq> 0)"
| "event_ok (Stop_audio f u i) = (f \<noteq> 0)"
| "event_ok (Gen_audio f u i) = (f \<noteq> 0 \<and> 1 \<le> gi_num_samples i \<and> gi_num_samples i \<le> 4096 \<and>
     gi_target i + gi_num_samples i \<le> 8 * unat (gi_orig_num_samples i) + 4096)"
| "event_ok (Stream_stopped f u c) = (f \<noteq> 0 \<and> audio_channel_valid c)"

fun call_ok :: "mixer_call \<Rightarrow> bool" where
  "call_ok (Mix_Volume c v) = (c < 26 \<and> 0 \<le> v \<and> v \<le> 128)"
| "call_ok (Mix_Play c k l) = (c < 26)"
| "call_ok (Mix_Halt c) = (c < 26)"
| "call_ok (Mix_Pause c) = (c < 26)"
| "call_ok (Mix_Resume c) = (c < 26)"
| "call_ok (Callback ev) = event_ok ev"
| "call_ok _ = True"

text \<open>The chunk that mixer channel \<open>i\<close> holds: sounds come first, then streams.\<close>

definition held :: "sound_slot list \<Rightarrow> audio_slot list \<Rightarrow> nat \<Rightarrow> nat option" where
  "held ss as i = (if i < SOUND_CHANNELS then ss_chunk (ss ! i) else as_chunk (as ! (i - SOUND_CHANNELS)))"

definition ownership :: "(nat \<Rightarrow> nat option) \<Rightarrow> (nat \<Rightarrow> u8 list option) \<Rightarrow> nat \<Rightarrow> bool" where
  "ownership h chunks nxt \<longleftrightarrow>
     (\<forall>i < 26. \<forall>c. h i = Some c \<longrightarrow> chunks c \<noteq> None) \<and>
     (\<forall>i < 26. \<forall>j < 26. \<forall>c. h i = Some c \<longrightarrow> h j = Some c \<longrightarrow> i = j) \<and>
     (\<forall>c \<ge> nxt. chunks c = None)"

definition aud_ok :: "bool \<Rightarrow> aud_state \<Rightarrow> bool" where
  "aud_ok r st \<longleftrightarrow>
     length (g_sound_slots st) = SOUND_CHANNELS \<and> length (g_audio_slots st) = AUDIO_CHANNELS \<and>
     length (g_audio_callbacks st) = S3E_AUDIO_CALLBACK_COUNT \<and> g_audio_channel st < AUDIO_CHANNELS \<and>
     list_all sound_ok (g_sound_slots st) \<and> list_all stream_ok (g_audio_slots st) \<and>
     0 \<le> g_sound_volume_s3e st \<and> g_sound_volume_s3e st \<le> 256 \<and>
     0 \<le> g_sound_volume_mix st \<and> g_sound_volume_mix st \<le> 128 \<and>
     0 \<le> g_sound_rate st \<and> g_sound_rate st \<le> 0x40000 \<and>
     ownership (held (g_sound_slots st) (g_audio_slots st)) (au_chunks st) (au_next_chunk st) \<and>
     (au_mixer_symbols st \<or> (\<forall>i < 26. held (g_sound_slots st) (g_audio_slots st) i = None)) \<and>
     (g_audio_ready st \<longrightarrow> g_audio_tried st \<and> au_mixer_symbols st) \<and>
     (au_mixer_symbols st \<longrightarrow> g_audio_tried st) \<and>
     \<not> au_chunk_error st \<and> list_all call_ok (au_log st) \<and> (r \<longrightarrow> g_audio_ready st)"

text \<open>\<open>aud_ok True\<close> is the invariant of an open mixer, and implies \<open>aud_ok r\<close>.\<close>

lemma aud_ok_weaken: "aud_ok True st \<Longrightarrow> aud_ok r st"
  by (simp add: aud_ok_def)

section \<open>Ownership under the updates of a slot\<close>

lemma held_put_sound:
  "i < SOUND_CHANNELS \<Longrightarrow> length ss = SOUND_CHANNELS \<Longrightarrow>
   held (ss[i := f (ss ! i)]) as = (held ss as)(i := ss_chunk (f (ss ! i)))"
  by (auto simp: held_def fun_eq_iff)

lemma held_put_stream:
  "i < AUDIO_CHANNELS \<Longrightarrow> length as = AUDIO_CHANNELS \<Longrightarrow>
   held ss (as[i := f (as ! i)]) = (held ss as)(SOUND_CHANNELS + i := as_chunk (f (as ! i)))"
proof (rule ext)
  fix j
  assume a: "i < AUDIO_CHANNELS" "length as = AUDIO_CHANNELS"
  show "held ss (as[i := f (as ! i)]) j = ((held ss as)(SOUND_CHANNELS + i := as_chunk (f (as ! i)))) j"
    using a by (cases "j = SOUND_CHANNELS + i") (auto simp: held_def nth_list_update)
qed

lemma ownership_release:
  "ownership h chunks nxt \<Longrightarrow> i < 26 \<Longrightarrow> h i = Some c \<Longrightarrow> ownership (h(i := None)) (chunks(c := None)) nxt"
  unfolding ownership_def by (auto split: if_splits)

lemma ownership_clear: "ownership h chunks nxt \<Longrightarrow> ownership (h(i := None)) chunks nxt"
  unfolding ownership_def by auto

lemma ownership_new: "ownership h chunks nxt \<Longrightarrow> ownership h (chunks(nxt \<mapsto> bs)) (Suc nxt)"
  unfolding ownership_def by auto

lemma ownership_take:
  "ownership h chunks nxt \<Longrightarrow> i < 26 \<Longrightarrow> chunks c \<noteq> None \<Longrightarrow> (\<And>j. j < 26 \<Longrightarrow> h j \<noteq> Some c) \<Longrightarrow>
   ownership (h(i \<mapsto> c)) chunks nxt"
  unfolding ownership_def by auto

section \<open>Primitive steps\<close>

lemma aud_ok_irrelevant [simp]:
  "aud_ok r (st\<lparr>au_clock := n\<rparr>) = aud_ok r st" "aud_ok r (st\<lparr>au_driver_requested := b\<rparr>) = aud_ok r st"
  "aud_ok r (st\<lparr>g_audio_pumping := b\<rparr>) = aud_ok r st" "aud_ok r (st\<lparr>g_mixer_mp3_ready := b\<rparr>) = aud_ok r st"
  "aud_ok r (st\<lparr>g_sound_slots_initialized := b\<rparr>) = aud_ok r st" "aud_ok r (st\<lparr>g_audio_slots_initialized := b\<rparr>) = aud_ok r st"
  "aud_ok r (st\<lparr>g_audio_unit_capture_callback := p\<rparr>) = aud_ok r st" "aud_ok r (st\<lparr>g_audio_unit_render_callback := p\<rparr>) = aud_ok r st"
  "aud_ok r (st\<lparr>g_audio_unit_capture_device := b\<rparr>) = aud_ok r st" "aud_ok r (st\<lparr>g_audio_unit_started := b\<rparr>) = aud_ok r st"
  "aud_ok r (st\<lparr>g_audio_unit_postmix_installed := b\<rparr>) = aud_ok r st" "aud_ok r (st\<lparr>g_audio_unit_capture_frequency := v\<rparr>) = aud_ok r st"
  "aud_ok r (st\<lparr>g_audio_unit_output_frequency := v\<rparr>) = aud_ok r st" "aud_ok r (st\<lparr>g_audio_unit_output_channels := v\<rparr>) = aud_ok r st"
  by (simp_all add: aud_ok_def)

lemma aud_ok_ask [simp]: "aud_ok r (snd (ask f st)) = aud_ok r st"
  by (simp add: ask_def)

lemma aud_ok_askD: "ask f st = (x, st') \<Longrightarrow> aud_ok r st' = aud_ok r st"
  by (metis snd_conv aud_ok_ask)

lemma aud_ok_log: "aud_ok r st \<Longrightarrow> call_ok c \<Longrightarrow> aud_ok r (log c st)"
  by (simp add: aud_ok_def log_def)

text \<open>An update of a slot that leaves its chunk alone.\<close>

lemma list_all_put: "list_all P xs \<Longrightarrow> P (f (xs ! i)) \<Longrightarrow> list_all P (xs[i := f (xs ! i)])"
  by (cases "i < length xs") (auto simp: list_all_length nth_list_update)

lemma aud_ok_put_sound:
  assumes "aud_ok r st" and "\<And>s. sound_ok s \<Longrightarrow> sound_ok (f s)" and "\<And>s. ss_chunk (f s) = ss_chunk s"
  shows "aud_ok r (put_sound i f st)"
proof (cases "i < SOUND_CHANNELS")
  case True
  with assms(1) have "sound_ok (f (g_sound_slots st ! i))"
    by (intro assms(2)) (simp add: aud_ok_def list_all_length)
  moreover have "held ((g_sound_slots st)[i := f (g_sound_slots st ! i)]) (g_audio_slots st)
      = held (g_sound_slots st) (g_audio_slots st)"
    using True assms(1) by (simp add: held_put_sound aud_ok_def assms(3) fun_eq_iff) (simp add: held_def)
  ultimately show ?thesis using assms(1) by (simp add: aud_ok_def put_sound_def list_all_put)
next
  case False
  with assms(1) have "put_sound i f st = st" by (simp add: aud_ok_def put_sound_def list_update_beyond)
  with assms(1) show ?thesis by simp
qed

lemma aud_ok_put_stream:
  assumes "aud_ok r st" and "\<And>s. stream_ok s \<Longrightarrow> stream_ok (f s)" and "\<And>s. as_chunk (f s) = as_chunk s"
  shows "aud_ok r (put_stream i f st)"
proof (cases "i < AUDIO_CHANNELS")
  case True
  with assms(1) have "stream_ok (f (g_audio_slots st ! i))"
    by (intro assms(2)) (simp add: aud_ok_def list_all_length)
  moreover have "held (g_sound_slots st) ((g_audio_slots st)[i := f (g_audio_slots st ! i)])
      = held (g_sound_slots st) (g_audio_slots st)"
    using True assms(1) by (simp add: held_put_stream aud_ok_def assms(3) fun_eq_iff) (simp add: held_def)
  ultimately show ?thesis using assms(1) by (simp add: aud_ok_def put_stream_def list_all_put)
next
  case False
  with assms(1) have "put_stream i f st = st" by (simp add: aud_ok_def put_stream_def list_update_beyond)
  with assms(1) show ?thesis by simp
qed

lemma aud_ok_finished: "aud_ok r st \<Longrightarrow> aud_ok r (mixer_channel_finished c st)"
  by (auto simp: mixer_channel_finished_def sound_ok_def stream_ok_def intro!: aud_ok_put_sound aud_ok_put_stream)

lemma aud_ok_halt: "aud_ok r st \<Longrightarrow> c < 26 \<Longrightarrow> aud_ok r (halt_channel os c st)"
  by (simp add: halt_channel_def Let_def split_beta aud_ok_log aud_ok_finished)

lemma aud_ok_play_channel: "aud_ok r st \<Longrightarrow> c < 26 \<Longrightarrow> aud_ok r (snd (play_channel os c k l st))"
  by (simp add: play_channel_def Let_def split_beta aud_ok_log aud_ok_finished)

section \<open>Chunks\<close>

text \<open>What freeing a slot does to the ownership; the slot must still be in the state in which it was found.\<close>

lemma aud_ok_free_sound:
  assumes ok: "aud_ok r st"
  shows "aud_ok r (free_sound_slot i st)"
    and "i < SOUND_CHANNELS \<Longrightarrow> ss_chunk (sound_at (free_sound_slot i st) i) = None"
proof -
  let ?f = "\<lambda>s. s\<lparr>ss_chunk := None, ss_finished := False, ss_generator_decoding := False,
             ss_source_data := 0, ss_source_samples := 0, ss_reps_remaining := 0, ss_loop_index := 0\<rparr>"
  have len: "length (g_sound_slots st) = SOUND_CHANNELS" using ok by (simp add: aud_ok_def)
  show "aud_ok r (free_sound_slot i st)"
  proof (cases "i < SOUND_CHANNELS")
    case True
    have "sound_ok (?f (g_sound_slots st ! i))"
      using ok True by (simp add: aud_ok_def list_all_length sound_ok_def)
    then have slot: "list_all sound_ok ((g_sound_slots st)[i := ?f (g_sound_slots st ! i)])"
      using ok by (intro list_all_put) (simp_all add: aud_ok_def)
    have i: "i < 26" and h: "held (g_sound_slots st) (g_audio_slots st) i = ss_chunk (g_sound_slots st ! i)"
      using True by (simp_all add: SOUND_CHANNELS_def held_def)
    note put = held_put_sound[OF True len, of ?f "g_audio_slots st"]
    show ?thesis
    proof (cases "ss_chunk (g_sound_slots st ! i)")
      case None
      with ok slot put ownership_clear True show ?thesis
        by (auto simp: aud_ok_def free_sound_slot_def sound_at_def put_sound_def)
    next
      case (Some c)
      with h ok i have "au_chunks st c \<noteq> None" "au_mixer_symbols st"
        by (auto simp: aud_ok_def ownership_def)
      with Some ok slot put h i True ownership_release[OF _ i, of _ "au_chunks st" "au_next_chunk st" c] show ?thesis
        by (auto simp: aud_ok_def free_sound_slot_def sound_at_def put_sound_def free_chunk_def)
    qed
  qed (use ok in \<open>simp add: free_sound_slot_def\<close>)
  show "i < SOUND_CHANNELS \<Longrightarrow> ss_chunk (sound_at (free_sound_slot i st) i) = None"
    using len by (auto simp: free_sound_slot_def sound_at_def put_sound_def free_chunk_def split: option.split)
qed

lemma aud_ok_free_stream:
  assumes ok: "aud_ok r st"
  shows "aud_ok r (free_audio_slot i st)"
    and "i < AUDIO_CHANNELS \<Longrightarrow> as_chunk (stream_at (free_audio_slot i st) i) = None"
proof -
  let ?f = "\<lambda>s. s\<lparr>as_chunk := None, as_finished := False, as_paused := False\<rparr>"
  have len: "length (g_audio_slots st) = AUDIO_CHANNELS" using ok by (simp add: aud_ok_def)
  show "aud_ok r (free_audio_slot i st)"
  proof (cases "i < AUDIO_CHANNELS")
    case True
    have "stream_ok (?f (g_audio_slots st ! i))"
      using ok True by (simp add: aud_ok_def list_all_length stream_ok_def)
    then have slot: "list_all stream_ok ((g_audio_slots st)[i := ?f (g_audio_slots st ! i)])"
      using ok by (intro list_all_put) (simp_all add: aud_ok_def)
    have i: "SOUND_CHANNELS + i < 26"
      and h: "held (g_sound_slots st) (g_audio_slots st) (SOUND_CHANNELS + i) = as_chunk (g_audio_slots st ! i)"
      using True by (simp_all add: SOUND_CHANNELS_def AUDIO_CHANNELS_def held_def)
    note put = held_put_stream[OF True len, of "g_sound_slots st" ?f]
    show ?thesis
    proof (cases "as_chunk (g_audio_slots st ! i)")
      case None
      with ok slot put ownership_clear True show ?thesis
        by (auto simp: aud_ok_def free_audio_slot_def stream_at_def put_stream_def)
    next
      case (Some c)
      with h ok i have "au_chunks st c \<noteq> None" "au_mixer_symbols st"
        by (auto simp: aud_ok_def ownership_def)
      with Some ok slot put h i True ownership_release[OF _ i, of _ "au_chunks st" "au_next_chunk st" c] show ?thesis
        by (auto simp: aud_ok_def free_audio_slot_def stream_at_def put_stream_def free_chunk_def)
    qed
  qed (use ok in \<open>simp add: free_audio_slot_def\<close>)
  show "i < AUDIO_CHANNELS \<Longrightarrow> as_chunk (stream_at (free_audio_slot i st) i) = None"
    using len by (auto simp: free_audio_slot_def stream_at_def put_stream_def free_chunk_def split: option.split)
qed

text \<open>A chunk that was loaded and is not held by a channel yet.\<close>

definition loose :: "bool \<Rightarrow> nat \<Rightarrow> aud_state \<Rightarrow> bool" where
  "loose r c st \<longleftrightarrow> aud_ok r st \<and> au_mixer_symbols st \<and> au_chunks st c \<noteq> None \<and>
     (\<forall>j < 26. held (g_sound_slots st) (g_audio_slots st) j \<noteq> Some c)"

lemma loose_ok: "loose r c st \<Longrightarrow> aud_ok r st"
  by (simp add: loose_def)

lemma loose_load:
  assumes "aud_ok True st" and "load_wav os bs st = (Some c, st')"
  shows "loose True c st'"
proof -
  have "st' = snd (new_chunk bs (snd (ask (mx_loads os) st)))" "c = au_next_chunk (snd (ask (mx_loads os) st))"
    using assms(2) by (auto simp: load_wav_def split_beta new_chunk_def split: if_splits)
  moreover have "aud_ok True (snd (ask (mx_loads os) st))" using assms(1) by simp
  ultimately show ?thesis
    by (auto simp: loose_def aud_ok_def new_chunk_def ownership_new) (auto simp: ownership_def)
qed

lemma load_wav_None: "load_wav os bs st = (None, st') \<Longrightarrow> st' = snd (ask (mx_loads os) st)"
  by (auto simp: load_wav_def split_beta split: if_splits)

lemma loose_put_sound:
  assumes "loose r c st" and "\<And>s. sound_ok s \<Longrightarrow> sound_ok (f s)" and "\<And>s. ss_chunk (f s) = ss_chunk s"
  shows "loose r c (put_sound i f st)"
proof -
  have "held ((g_sound_slots st)[i := f (g_sound_slots st ! i)]) as j = held (g_sound_slots st) as j" for as j
    using assms(3) by (cases "i < length (g_sound_slots st)") (auto simp: held_def nth_list_update list_update_beyond)
  with assms show ?thesis by (auto simp: loose_def aud_ok_put_sound) (auto simp: put_sound_def)
qed

lemma loose_put_stream:
  assumes "loose r c st" and "\<And>s. stream_ok s \<Longrightarrow> stream_ok (f s)" and "\<And>s. as_chunk (f s) = as_chunk s"
  shows "loose r c (put_stream i f st)"
proof -
  have "held ss ((g_audio_slots st)[i := f (g_audio_slots st ! i)]) j = held ss (g_audio_slots st) j" for ss j
    using assms(3) by (cases "i < length (g_audio_slots st)") (auto simp: held_def nth_list_update list_update_beyond)
  with assms show ?thesis by (auto simp: loose_def aud_ok_put_stream) (auto simp: put_stream_def)
qed

lemma loose_log: "loose r c st \<Longrightarrow> call_ok k \<Longrightarrow> loose r c (log k st)"
  by (auto simp: loose_def aud_ok_log) (auto simp: log_def)

lemma loose_ask [simp]: "loose r c (snd (ask f st)) = loose r c st"
  by (simp add: loose_def) (simp add: ask_def)

lemma loose_finished: "loose r c st \<Longrightarrow> loose r c (mixer_channel_finished i st)"
  by (auto simp: mixer_channel_finished_def sound_ok_def stream_ok_def intro!: loose_put_sound loose_put_stream)

lemma loose_halt: "loose r c st \<Longrightarrow> i < 26 \<Longrightarrow> loose r c (halt_channel os i st)"
  by (simp add: halt_channel_def Let_def split_beta loose_log loose_finished)

lemma loose_free_sound:
  assumes "loose r c st"
  shows "loose r c (free_sound_slot i st)"
proof -
  have ok: "aud_ok r st" using assms by (rule loose_ok)
  show ?thesis
  proof (cases "i < SOUND_CHANNELS")
    case True
    then have i: "i < 26" "held (g_sound_slots st) (g_audio_slots st) i = ss_chunk (sound_at st i)"
      by (simp_all add: SOUND_CHANNELS_def held_def sound_at_def)
    with assms have "ss_chunk (sound_at st i) \<noteq> Some c" by (auto simp: loose_def)
    moreover have len: "length (g_sound_slots st) = SOUND_CHANNELS" using ok by (simp add: aud_ok_def)
    ultimately show ?thesis using assms aud_ok_free_sound(1)[OF ok, of i] True
      held_put_sound[OF True len, of "\<lambda>s. s\<lparr>ss_chunk := None, ss_finished := False, ss_generator_decoding := False,
             ss_source_data := 0, ss_source_samples := 0, ss_reps_remaining := 0, ss_loop_index := 0\<rparr>" "g_audio_slots st"]
      by (auto simp: loose_def free_sound_slot_def put_sound_def free_chunk_def split: option.splits if_splits)
  qed (use assms in \<open>simp add: free_sound_slot_def\<close>)
qed

lemma loose_take_sound:
  assumes l: "loose r c st" and i: "i < SOUND_CHANNELS" and f: "\<And>s. sound_ok s \<Longrightarrow> sound_ok (f s)" "\<And>s. ss_chunk (f s) = Some c"
  shows "aud_ok r (put_sound i f st)"
proof -
  have ok: "aud_ok r st" and c: "au_chunks st c \<noteq> None" "\<And>j. j < 26 \<Longrightarrow> held (g_sound_slots st) (g_audio_slots st) j \<noteq> Some c"
    and sym: "au_mixer_symbols st" using l by (auto simp: loose_def)
  have len: "length (g_sound_slots st) = SOUND_CHANNELS" using ok by (simp add: aud_ok_def)
  have "sound_ok (f (g_sound_slots st ! i))" using ok i by (intro f) (simp add: aud_ok_def list_all_length)
  then have "list_all sound_ok ((g_sound_slots st)[i := f (g_sound_slots st ! i)])"
    using ok by (intro list_all_put) (simp_all add: aud_ok_def)
  moreover have "ownership (held ((g_sound_slots st)[i := f (g_sound_slots st ! i)]) (g_audio_slots st)) (au_chunks st) (au_next_chunk st)"
    unfolding held_put_sound[OF i len] f
    using ok i c by (intro ownership_take) (simp_all add: aud_ok_def SOUND_CHANNELS_def)
  ultimately show ?thesis using ok sym by (simp add: aud_ok_def put_sound_def)
qed

lemma loose_take_stream:
  assumes l: "loose r c st" and i: "i < AUDIO_CHANNELS" and f: "\<And>s. stream_ok s \<Longrightarrow> stream_ok (f s)" "\<And>s. as_chunk (f s) = Some c"
  shows "aud_ok r (put_stream i f st)"
proof -
  have ok: "aud_ok r st" and c: "au_chunks st c \<noteq> None" "\<And>j. j < 26 \<Longrightarrow> held (g_sound_slots st) (g_audio_slots st) j \<noteq> Some c"
    and sym: "au_mixer_symbols st" using l by (auto simp: loose_def)
  have len: "length (g_audio_slots st) = AUDIO_CHANNELS" using ok by (simp add: aud_ok_def)
  have "stream_ok (f (g_audio_slots st ! i))" using ok i by (intro f) (simp add: aud_ok_def list_all_length)
  then have "list_all stream_ok ((g_audio_slots st)[i := f (g_audio_slots st ! i)])"
    using ok by (intro list_all_put) (simp_all add: aud_ok_def)
  moreover have "ownership (held (g_sound_slots st) ((g_audio_slots st)[i := f (g_audio_slots st ! i)])) (au_chunks st) (au_next_chunk st)"
    unfolding held_put_stream[OF i len] f
    using ok i c by (intro ownership_take) (simp_all add: aud_ok_def SOUND_CHANNELS_def AUDIO_CHANNELS_def)
  ultimately show ?thesis using ok sym by (simp add: aud_ok_def put_stream_def)
qed

section \<open>Opening\<close>

lemma mixed_volume_range: "aud_ok r st \<Longrightarrow> i < SOUND_CHANNELS \<Longrightarrow>
   0 \<le> mixed_sound_volume (sound_at st i) st \<and> mixed_sound_volume (sound_at st i) st \<le> 128"
proof -
  assume ok: "aud_ok r st" and i: "i < SOUND_CHANNELS"
  then have s: "0 \<le> ss_volume_mix (sound_at st i)" "ss_volume_mix (sound_at st i) \<le> 128"
    by (simp_all add: aud_ok_def list_all_length sound_ok_def sound_at_def)
  have g: "0 \<le> g_sound_volume_mix st" "g_sound_volume_mix st \<le> 128" using ok by (simp_all add: aud_ok_def)
  have "ss_volume_mix (sound_at st i) * g_sound_volume_mix st \<le> 128 * 128" using s g by (intro mult_mono) auto
  moreover have "0 \<le> ss_volume_mix (sound_at st i) * g_sound_volume_mix st" using s g by simp
  ultimately show ?thesis by (simp add: mixed_sound_volume_def MIX_MAX_VOLUME_def c_div_nonneg) linarith
qed

lemma stream_volume_range: "aud_ok r st \<Longrightarrow> i < AUDIO_CHANNELS \<Longrightarrow>
   0 \<le> as_volume_mix (stream_at st i) \<and> as_volume_mix (stream_at st i) \<le> 128"
  by (simp add: aud_ok_def list_all_length stream_ok_def stream_at_def)

lemma aud_ok_log_sound: "aud_ok r st \<Longrightarrow> i < SOUND_CHANNELS \<Longrightarrow>
   aud_ok r (log (Mix_Volume i (mixed_sound_volume (sound_at st i) st)) st)"
  using mixed_volume_range by (intro aud_ok_log) (auto simp: SOUND_CHANNELS_def)

lemma aud_ok_log_stream: "aud_ok r st \<Longrightarrow> i < AUDIO_CHANNELS \<Longrightarrow>
   aud_ok r (log (Mix_Volume (audio_mixer_channel i) (as_volume_mix (stream_at st i))) st)"
  using stream_volume_range by (intro aud_ok_log) (auto simp: SOUND_CHANNELS_def AUDIO_CHANNELS_def audio_mixer_channel_def)

lemma aud_ok_fold:
  assumes "\<And>i st. i \<in> set xs \<Longrightarrow> aud_ok r st \<Longrightarrow> aud_ok r (f i st)"
  shows "aud_ok r st \<Longrightarrow> aud_ok r (fold f xs st)"
  using assms by (induction xs arbitrary: st) auto

lemma aud_ok_set_volumes: "aud_ok r st \<Longrightarrow> aud_ok r (set_volumes st)"
  by (auto simp: set_volumes_def intro!: aud_ok_fold aud_ok_log_sound)

lemma held_map: "(\<And>s. ss_chunk (f s) = ss_chunk s) \<Longrightarrow> (\<And>s. as_chunk (g s) = as_chunk s) \<Longrightarrow>
   length ss = SOUND_CHANNELS \<Longrightarrow> length as = AUDIO_CHANNELS \<Longrightarrow> i < 26 \<Longrightarrow> held (map f ss) (map g as) i = held ss as i"
  by (auto simp: held_def SOUND_CHANNELS_def AUDIO_CHANNELS_def)

lemma ownership_cong: "(\<And>i. i < 26 \<Longrightarrow> h i = h' i) \<Longrightarrow> ownership h chunks nxt = ownership h' chunks nxt"
  by (simp add: ownership_def)

lemma aud_ok_map_sounds:
  assumes ok: "aud_ok r st" and f: "\<And>s. sound_ok s \<Longrightarrow> sound_ok (f s)" "\<And>s. ss_chunk (f s) = ss_chunk s"
  shows "aud_ok r (st\<lparr>g_sound_slots := map f (g_sound_slots st)\<rparr>)"
proof -
  have h: "held (map f (g_sound_slots st)) (g_audio_slots st) i = held (g_sound_slots st) (g_audio_slots st) i" if "i < 26" for i
    using held_map[of f "\<lambda>s. s" "g_sound_slots st" "g_audio_slots st" i] ok f(2) that by (simp add: aud_ok_def)
  show ?thesis using ok h ownership_cong[OF h] by (simp add: aud_ok_def list.pred_map o_def list_all_iff f(1))
qed

lemma aud_ok_map_streams:
  assumes ok: "aud_ok r st" and f: "\<And>s. stream_ok s \<Longrightarrow> stream_ok (f s)" "\<And>s. as_chunk (f s) = as_chunk s"
  shows "aud_ok r (st\<lparr>g_audio_slots := map f (g_audio_slots st)\<rparr>)"
proof -
  have h: "held (g_sound_slots st) (map f (g_audio_slots st)) i = held (g_sound_slots st) (g_audio_slots st) i" if "i < 26" for i
    using held_map[of "\<lambda>s. s" f "g_sound_slots st" "g_audio_slots st" i] ok f(2) that by (simp add: aud_ok_def)
  show ?thesis using ok h ownership_cong[OF h] by (simp add: aud_ok_def list.pred_map o_def list_all_iff f(1))
qed

lemma aud_ok_init_sounds: "aud_ok r st \<Longrightarrow> aud_ok r (init_sound_slots st)"
  unfolding init_sound_slots_def
  by (auto intro!: aud_ok_map_sounds simp: sound_ok_def MIX_MAX_VOLUME_def S3E_MAX_VOLUME_def SOUND_RATE_DEFAULT_def)

lemma aud_ok_init_streams: "aud_ok r st \<Longrightarrow> aud_ok r (init_audio_slots st)"
  unfolding init_audio_slots_def
  by (auto intro!: aud_ok_map_streams simp: stream_ok_def MIX_MAX_VOLUME_def S3E_MAX_VOLUME_def)

lemma aud_ok_subsystem: "aud_ok r st \<Longrightarrow> aud_ok r (snd (init_audio_subsystem os st))"
  by (simp add: init_audio_subsystem_def Let_def split_beta)

lemma tried_irrelevant [simp]:
  "g_audio_tried (snd (ask f st)) = g_audio_tried st" "g_audio_ready (snd (ask f st)) = g_audio_ready st"
  "au_mixer_symbols (snd (ask f st)) = au_mixer_symbols st" "g_audio_ready (log c st) = g_audio_ready st"
  "g_audio_tried (snd (init_audio_subsystem os st)) = g_audio_tried st"
  "g_audio_ready (snd (init_audio_subsystem os st)) = g_audio_ready st"
  "au_mixer_symbols (snd (init_audio_subsystem os st)) = au_mixer_symbols st"
  by (simp_all add: ask_def log_def init_audio_subsystem_def Let_def split_beta)

text \<open>The mixer becomes ready only at the end, with all symbols loaded.\<close>

lemma aud_ok_symbols: "aud_ok False st \<Longrightarrow> \<not> au_mixer_symbols st \<Longrightarrow> g_audio_tried st \<Longrightarrow> aud_ok False (st\<lparr>au_mixer_symbols := b\<rparr>)"
  by (auto simp: aud_ok_def)

lemma aud_ok_open_ready:
  assumes "aud_ok False st" and "au_mixer_symbols st" and "g_audio_tried st"
  shows "aud_ok True (st\<lparr>g_audio_ready := True\<rparr>)"
  using assms by (simp add: aud_ok_def)

lemma fold_log_flags [simp]:
  "au_mixer_symbols (fold (\<lambda>c st. log (f c st) st) xs st) = au_mixer_symbols st"
  "g_audio_tried (fold (\<lambda>c st. log (f c st) st) xs st) = g_audio_tried st"
  by (induction xs arbitrary: st) (simp_all add: log_def)

lemma opened_flags [simp]:
  "au_mixer_symbols (set_volumes st) = au_mixer_symbols st" "g_audio_tried (set_volumes st) = g_audio_tried st"
  "au_mixer_symbols (init_sound_slots st) = au_mixer_symbols st" "g_audio_tried (init_sound_slots st) = g_audio_tried st"
  "au_mixer_symbols (init_audio_slots st) = au_mixer_symbols st" "g_audio_tried (init_audio_slots st) = g_audio_tried st"
  by (simp_all add: set_volumes_def init_sound_slots_def init_audio_slots_def)

lemma aud_ok_fold_log:
  "aud_ok False st \<Longrightarrow> aud_ok False (fold (\<lambda>channel st. log (Mix_Volume (audio_mixer_channel channel)
       (as_volume_mix (stream_at st channel))) st) [0..<AUDIO_CHANNELS] st)"
  by (auto intro!: aud_ok_fold aud_ok_log_stream)

lemma aud_ok_open:
  assumes ok: "aud_ok r st"
  shows "aud_ok r (snd (audio_open os st))" and "fst (audio_open os st) \<Longrightarrow> aud_ok True (snd (audio_open os st))"
proof -
  have "aud_ok r (snd (audio_open os st)) \<and> (fst (audio_open os st) \<longrightarrow> aud_ok True (snd (audio_open os st)))"
  proof (cases "g_audio_tried st")
    case True
    with ok show ?thesis by (simp add: audio_open_def aud_ok_def)
  next
    case False
    then have r: "\<not> r" and ok: "aud_ok False st" and none: "\<not> au_mixer_symbols st" "\<not> g_audio_ready st"
      using ok by (auto simp: aud_ok_def)
    have flags: "aud_ok False st' = aud_ok False u \<and> g_audio_tried st' = g_audio_tried u \<and> au_mixer_symbols st' = au_mixer_symbols u"
      if "ask f u = (x, st')" for f :: "nat \<Rightarrow> bool" and x st' u
      using that by (auto simp: ask_def)
    obtain found st1 where s1: "ask (mx_libraries os) (st\<lparr>g_audio_tried := True\<rparr>) = (found, st1)" by fastforce
    have "aud_ok False (st\<lparr>g_audio_tried := True\<rparr>)" using ok by (simp add: aud_ok_def)
    with flags[OF s1] none have a: "aud_ok False st1" "\<not> au_mixer_symbols st1" "g_audio_tried st1" by simp_all
    obtain oksym st2 where s2: "ask (mx_symbols os) st1 = (oksym, st2)" by fastforce
    let ?b = "st2\<lparr>au_mixer_symbols := oksym\<rparr>"
    have b: "aud_ok False ?b" "g_audio_tried ?b" using flags[OF s2] a by (simp_all add: aud_ok_symbols)
    obtain init st3 where s3: "init_audio_subsystem os ?b = (init, st3)" by fastforce
    have c: "aud_ok False st3" "g_audio_tried st3" "au_mixer_symbols st3 = oksym"
      using aud_ok_subsystem[OF b(1), of os] tried_irrelevant(5,7)[of os ?b] b(2) unfolding s3 by simp_all
    obtain mp3 st4 where s4: "ask (mx_mp3 os) st3 = (mp3, st4)" by fastforce
    obtain opened st5 where s5: "ask (mx_open os) (st4\<lparr>g_mixer_mp3_ready := mp3\<rparr>) = (opened, st5)" by fastforce
    obtain allocated st6 where s6: "ask (mx_channels os) st5 = (allocated, st6)" by fastforce
    have d: "aud_ok False st6" "aud_ok False st5" "g_audio_tried st6" "au_mixer_symbols st6 = oksym"
      using flags[OF s4] flags[OF s5] flags[OF s6] c by simp_all
    let ?e = "set_volumes (init_sound_slots (init_audio_slots st6))"
    let ?f = "fold (\<lambda>channel st. log (Mix_Volume (audio_mixer_channel channel) (as_volume_mix (stream_at st channel))) st)
                [0..<AUDIO_CHANNELS] ?e"
    have f: "aud_ok True (?f\<lparr>g_audio_ready := True\<rparr>)" if oksym
      using that d by (intro aud_ok_open_ready aud_ok_fold_log aud_ok_set_volumes aud_ok_init_sounds aud_ok_init_streams) simp_all
    have "aud_ok False (snd (audio_open os st)) \<and> (fst (audio_open os st) \<longrightarrow> aud_ok True (snd (audio_open os st)))"
    proof (cases oksym)
      case True
      with s3 have s3': "init_audio_subsystem os (st2\<lparr>au_mixer_symbols := True\<rparr>) = (init, st3)" by simp
      from True f aud_ok_weaken[OF f] a(1) c(1) d(1,2) False show ?thesis
        by (simp add: audio_open_def Let_def s1 s2 s3' s4 s5 s6)
    next
      case no: False
      with b(1) a(1) False show ?thesis by (simp add: audio_open_def Let_def s1 s2)
    qed
    with r show ?thesis by simp
  qed
  then show "aud_ok r (snd (audio_open os st))" "fst (audio_open os st) \<Longrightarrow> aud_ok True (snd (audio_open os st))" by simp_all
qed

section \<open>Callbacks and generators\<close>

text \<open>What is asked of the function that runs callbacks.\<close>

definition run_safe :: "aud_run \<Rightarrow> bool" where
  "run_safe run \<longleftrightarrow> (\<forall>r ev st. event_ok ev \<longrightarrow> aud_ok r st \<longrightarrow> aud_ok r (snd (run ev st)))"

lemma aud_ok_invoke:
  assumes "run_safe run" and "aud_ok r st" and "\<And>f u. f \<noteq> 0 \<Longrightarrow> event_ok (mk f u)"
  shows "aud_ok r (snd (invoke_callback run callback mk info st))"
  using assms by (simp add: invoke_callback_def Let_def run_safe_def aud_ok_log)

lemma aud_ok_decoding: "aud_ok r st \<Longrightarrow> aud_ok r (put_sound i (\<lambda>s. s\<lparr>ss_generator_decoding := b\<rparr>) st)"
  by (rule aud_ok_put_sound) (simp_all add: sound_ok_def)

lemma gen_event_ok:
  "n < cap \<Longrightarrow> cap \<le> 8 * unat samples + 4096 \<Longrightarrow> f \<noteq> 0 \<Longrightarrow>
   event_ok (Gen_audio f u (gen_request c d samples n (min (cap - n) SOUND_GENERATOR_CHUNK_SAMPLES)))"
  by (auto simp: SOUND_GENERATOR_CHUNK_SAMPLES_def gen_request_def min_def)

lemma aud_ok_room: "aud_ok r st \<Longrightarrow> aud_ok r (snd (room_for os limit capacity n st))"
  by (simp add: room_for_def)

text \<open>What a generator delivers: at least one sample, and never more than \<open>limit\<close>.\<close>

definition pcm_within :: "nat \<Rightarrow> generated \<Rightarrow> bool" where
  "pcm_within limit g \<longleftrightarrow> (case g of Gen_pcm xs \<Rightarrow> 1 \<le> length xs \<and> length xs \<le> limit | _ \<Rightarrow> True)"

lemma aud_ok_render_loop:
  "run_safe run \<Longrightarrow> aud_ok r st \<Longrightarrow> length pcm \<le> capacity \<Longrightarrow> capacity \<le> limit \<Longrightarrow> limit = 8 * unat samples + 4096 \<Longrightarrow>
   aud_ok r (snd (render_loop run os channel cb data samples limit capacity pcm st)) \<and>
   pcm_within limit (fst (render_loop run os channel cb data samples limit capacity pcm st))"
proof (induction run os channel cb data samples limit capacity pcm st rule: render_loop.induct)
  case (1 run os channel cb data samples limit capacity pcm st)
  obtain room st1 where r1: "room_for os limit capacity (length pcm) st = (room, st1)" by fastforce
  have st1: "aud_ok r st1" using aud_ok_room[OF 1(3), of os limit capacity "length pcm"] r1 by simp
  let ?cap = "grown limit capacity (length pcm)"
  let ?req = "min (?cap - length pcm) SOUND_GENERATOR_CHUNK_SAMPLES"
  obtain reply st2 where r2: "invoke_callback run cb (\<lambda>f u. Gen_audio f u (gen_request channel data samples (length pcm) ?req))
      no_info (put_sound channel (\<lambda>s. s\<lparr>ss_generator_decoding := True\<rparr>) st1) = (reply, st2)" by fastforce
  show ?case
  proof (cases room)
    case False
    with st1 r1 show ?thesis by (subst (1 2) render_loop.simps) (simp add: pcm_within_def)
  next
    case True
    have cap: "length pcm < ?cap" "?cap \<le> limit"
      using grown_room[of os limit capacity "length pcm" st] r1 True 1(4,5) by simp_all
    have "aud_ok r (snd (invoke_callback run cb (\<lambda>f u. Gen_audio f u (gen_request channel data samples (length pcm) ?req))
        no_info (put_sound channel (\<lambda>s. s\<lparr>ss_generator_decoding := True\<rparr>) st1)))"
      using 1(2,6) st1 cap by (intro aud_ok_invoke aud_ok_decoding gen_event_ok) simp_all
    then have "aud_ok r st2" unfolding r2 by simp
    then have st3: "aud_ok r (put_sound channel (\<lambda>s. s\<lparr>ss_generator_decoding := False\<rparr>) st2)" by (rule aud_ok_decoding)
    let ?pcm = "pcm @ map (rp_samples reply) [0..<nat (rp_result reply)]"
    have len: "length ?pcm \<le> ?cap" if "\<not> nat (rp_result reply) > ?req" using that cap(1) by simp
    show ?thesis
    proof (cases "rp_result reply < 0 \<or> nat (rp_result reply) > ?req \<or> (rp_result reply = 0 \<and> \<not> rp_end_sample reply)")
      case failed: True
      with True r1 r2 st3 show ?thesis
        by (subst (1 2) render_loop.simps) (simp add: Let_def pcm_within_def split del: if_split)
    next
      case good: False
      show ?thesis
      proof (cases "rp_end_sample reply")
        case ended: True
        have "pcm_within limit (if ?pcm = [] then Gen_failed else Gen_pcm ?pcm)"
          using good len cap(2) by (auto simp: pcm_within_def Suc_le_eq)
        with ended True good r1 r2 st3 show ?thesis
          by (subst (1 2) render_loop.simps) (simp add: Let_def split del: if_split)
      next
        case more: False
        have len': "length ?pcm \<le> ?cap" using good len by blast
        note IH = 1(1)[OF refl r1[symmetric] _ refl refl r2[symmetric] refl refl _ refl more 1(2) st3 len' cap(2) 1(6)]
        from IH True good more r1 r2 show ?thesis
          by (subst (1 2) render_loop.simps) (simp add: Let_def split del: if_split)
      qed
    qed
  qed
qed

lemma aud_ok_render:
  assumes "run_safe run" and "aud_ok r st"
  shows "aud_ok r (snd (render_generator_audio run os channel data samples st))"
    and "pcm_within (8 * unat samples + 4096) (fst (render_generator_audio run os channel data samples st))"
proof -
  have "aud_ok r (snd (render_generator_audio run os channel data samples st)) \<and>
      pcm_within (8 * unat samples + 4096) (fst (render_generator_audio run os channel data samples st))"
    using aud_ok_render_loop[OF assms(1), of r "snd (ask (mx_alloc os) st)" "[]" "min SOUND_GENERATOR_CHUNK_SAMPLES
        (unat samples * SOUND_GENERATOR_MAX_EXPANSION + SOUND_GENERATOR_CHUNK_SAMPLES)"
        "unat samples * SOUND_GENERATOR_MAX_EXPANSION + SOUND_GENERATOR_CHUNK_SAMPLES" samples os channel
        "ss_callbacks (sound_at st channel) ! S3E_CHANNEL_GEN_AUDIO" data] assms(2)
    by (simp add: render_generator_audio_def Let_def split_beta pcm_within_def
        SOUND_GENERATOR_CHUNK_SAMPLES_def SOUND_GENERATOR_MAX_EXPANSION_def mult.commute)
  then show "aud_ok r (snd (render_generator_audio run os channel data samples st))"
    "pcm_within (8 * unat samples + 4096) (fst (render_generator_audio run os channel data samples st))" by simp_all
qed

section \<open>Sounds\<close>

lemma aud_ok_start:
  assumes "loose True chunk st" and i: "i < SOUND_CHANNELS"
  shows "aud_ok True (snd (start_sound os i chunk data samples repeat loop_index st))"
proof -
  have i26: "i < 26" using i by (simp add: SOUND_CHANNELS_def)
  let ?f = "\<lambda>s. s\<lparr>ss_chunk := Some chunk, ss_finished := False, ss_source_data := data,
                 ss_source_samples := samples, ss_reps_remaining := repeat, ss_loop_index := loop_index\<rparr>"
  let ?st = "put_sound i ?f (free_sound_slot i (halt_channel os i st))"
  have st: "aud_ok True ?st"
    by (rule loose_take_sound[OF loose_free_sound[OF loose_halt[OF assms(1) i26]] i]) (simp_all add: sound_ok_def)
  show ?thesis
    using aud_ok_play_channel[OF aud_ok_log_sound[OF st i] i26] aud_ok_free_sound(1)
    by (simp add: start_sound_def Let_def split_beta)
qed

lemma aud_ok_play_sound:
  assumes "run_safe run" and "aud_ok True st" and "i < SOUND_CHANNELS"
  shows "aud_ok True (snd (play_sound_channel run os i data samples repeat loop_index b st))"
proof -
  obtain g st1 where g: "render_generator_audio run os i data samples st = (g, st1)" by fastforce
  then have st1: "aud_ok True st1" using aud_ok_render(1)[OF assms(1,2), of os i data samples] by simp
  have wav: "aud_ok True (snd (case w of None \<Rightarrow> (1, snd (ask (mx_alloc os) st1))
      | Some wav \<Rightarrow> let (rw, st) = ask (mx_rw os) (snd (ask (mx_alloc os) st1)) in
          if \<not> rw then (1, st) else (case load_wav os wav st of (None, st) \<Rightarrow> (1, st)
            | (Some chunk, st) \<Rightarrow> start_sound os i chunk data samples repeat loop_index st)))" for w :: "u8 list option"
  proof (cases w)
    case (Some bs)
    obtain rw st2 where r: "ask (mx_rw os) (snd (ask (mx_alloc os) st1)) = (rw, st2)" by fastforce
    have st2: "aud_ok True st2" using st1 aud_ok_askD[OF r] by simp
    obtain c st3 where l: "load_wav os bs st2 = (c, st3)" by fastforce
    show ?thesis
    proof (cases c)
      case None
      with l load_wav_None[of os bs st2 st3] st2 show ?thesis by (simp add: Some r)
    next
      case chunk: (Some k)
      with l loose_load[OF st2] aud_ok_start[OF _ assms(3)] st2 show ?thesis by (simp add: Some r)
    qed
  qed (use st1 in simp)
  show ?thesis
    using st1 wav by (simp add: play_sound_channel_def g Let_def split_beta split: generated.split)
qed

lemma aud_ok_restart:
  assumes "run_safe run" and "aud_ok True st" and "i < SOUND_CHANNELS"
  shows "aud_ok True (snd (restart_sound run os i d n l info st))"
  using assms by (simp add: restart_sound_def Let_def split_beta aud_ok_play_sound)

text \<open>The end callback of a sound, or what takes its place when there is none.\<close>

lemma aud_ok_end_callback:
  assumes "run_safe run" and "aud_ok r st"
  shows "aud_ok r (snd (snd (if scb_function cb \<noteq> 0
     then let (r, st) = invoke_callback run cb (\<lambda>f u. End_sample f u info) info st in (rp_result r \<noteq> 0, rp_info r, st)
     else (b, info, st))))"
  using assms by (simp add: Let_def split_beta aud_ok_invoke)

lemma aud_ok_stop_callback:
  "run_safe run \<Longrightarrow> aud_ok r st \<Longrightarrow> aud_ok r (snd (invoke_callback run cb (\<lambda>f u. Stop_audio f u info) info' st))"
  by (rule aud_ok_invoke) simp_all

lemma aud_ok_service_sound:
  assumes run: "run_safe run" and ok: "aud_ok True st" and i: "i < SOUND_CHANNELS"
  shows "aud_ok True (service_sound run os i st)"
proof -
  let ?slot = "sound_at st i"
  obtain busy st1 where b: "(if ss_finished ?slot then (False, st) else ask (\<lambda>n. mx_playing os n i) st) = (busy, st1)"
    by fastforce
  then have st1: "aud_ok True st1" using ok by (auto split: if_splits dest: aud_ok_askD)
  let ?st2 = "free_sound_slot i st1"
  have st2: "aud_ok True ?st2" using st1 by (rule aud_ok_free_sound)
  let ?reps = "if ss_reps_remaining ?slot > 0 then ss_reps_remaining ?slot - 1 else ss_reps_remaining ?slot"
  let ?info = "\<lparr>ei_channel = int i, ei_reps_remaining = sint ?reps, ei_new_data = 0, ei_num_samples = ss_source_samples ?slot\<rparr>"
  obtain keep info st3 where e: "(if scb_function (ss_callbacks (sound_at ?st2 i) ! S3E_CHANNEL_END_SAMPLE) \<noteq> 0
     then let (r, st) = invoke_callback run (ss_callbacks (sound_at ?st2 i) ! S3E_CHANNEL_END_SAMPLE)
            (\<lambda>f u. End_sample f u ?info) ?info ?st2 in (rp_result r \<noteq> 0, rp_info r, st)
     else (ss_reps_remaining ?slot = 0 \<or> ei_reps_remaining ?info > 0, ?info, ?st2)) = (keep, info, st3)"
    using prod_cases3 by blast
  have st3: "aud_ok True st3"
    using aud_ok_end_callback[OF run st2, of "ss_callbacks (sound_at ?st2 i) ! S3E_CHANNEL_END_SAMPLE" ?info
        "ss_reps_remaining ?slot = 0 \<or> ei_reps_remaining ?info > 0"] unfolding e by simp
  obtain continued st4 where c: "(if keep then restart_sound run os i (ss_source_data ?slot) (ss_source_samples ?slot)
      (ss_loop_index ?slot) info st3 else (False, st3)) = (continued, st4)" by fastforce
  then have st4: "aud_ok True st4"
    using aud_ok_restart[OF run st3 i, of os "ss_source_data ?slot" "ss_source_samples ?slot" "ss_loop_index ?slot" info] st3
    by (auto split: if_splits)
  have "service_sound run os i st =
    (if ss_chunk ?slot = None then st else if busy then st1 else if continued then st4
     else snd (invoke_callback run (ss_callbacks (sound_at st4 i) ! S3E_CHANNEL_STOP_AUDIO) (\<lambda>f u. Stop_audio f u info) info st4))"
    unfolding service_sound_def Let_def b split_conv e[unfolded Let_def] c by (rule refl)
  then show ?thesis using ok st1 st4 aud_ok_stop_callback[OF run st4] by simp
qed

lemma aud_ok_service_sounds:
  assumes "run_safe run" and "aud_ok r st"
  shows "aud_ok r (service_finished_sound run os st)"
proof (cases "g_audio_ready st")
  case True
  with assms(2) have "aud_ok True st" by (simp add: aud_ok_def)
  then have "aud_ok True (fold (service_sound run os) [0..<SOUND_CHANNELS] st)"
    by (rule aud_ok_fold[rotated]) (use assms(1) in \<open>simp add: aud_ok_service_sound\<close>)
  with True show ?thesis by (simp add: service_finished_sound_def aud_ok_weaken)
qed (use assms in \<open>simp add: service_finished_sound_def\<close>)

section \<open>Streams\<close>

lemma aud_ok_notify: "run_safe run \<Longrightarrow> aud_ok r st \<Longrightarrow> i < AUDIO_CHANNELS \<Longrightarrow> aud_ok r (notify_audio_stopped run i st)"
  by (auto simp: notify_audio_stopped_def audio_channel_valid_def intro!: aud_ok_invoke)

lemma aud_ok_stop_stream:
  assumes "run_safe run \<or> \<not> notify" and "aud_ok r st" and "i < AUDIO_CHANNELS"
  shows "aud_ok r (stop_audio_channel run os i notify st)"
proof -
  have i: "audio_mixer_channel i < 26"
    using assms(3) by (simp add: audio_mixer_channel_def SOUND_CHANNELS_def AUDIO_CHANNELS_def)
  show ?thesis using assms aud_ok_halt[OF assms(2) i, of os] aud_ok_free_stream(1) aud_ok_notify
    by (auto simp: stop_audio_channel_def Let_def)
qed

lemma aud_ok_service_stream:
  "run_safe run \<Longrightarrow> aud_ok r st \<Longrightarrow> i < AUDIO_CHANNELS \<Longrightarrow> aud_ok r (service_stream run os i st)"
  by (simp add: service_stream_def Let_def split_beta aud_ok_notify aud_ok_free_stream)

lemma aud_ok_pump: "run_safe run \<Longrightarrow> aud_ok r st \<Longrightarrow> aud_ok r (audio_pump run os st)"
  by (auto simp: audio_pump_def service_finished_audio_def aud_ok_service_stream intro!: aud_ok_service_sounds aud_ok_fold)

lemma aud_ok_play_buffer:
  assumes run: "run_safe run" and ok: "aud_ok True st"
  shows "aud_ok True (snd (play_audio_buffer run os bytes n repeat st))"
proof -
  obtain rw st1 where r: "ask (mx_rw os) st = (rw, st1)" by fastforce
  have st1: "aud_ok True st1" using ok aud_ok_askD[OF r] by simp
  let ?i = "g_audio_channel st1"
  have i: "?i < AUDIO_CHANNELS" "audio_mixer_channel ?i < 26"
    using st1 by (simp_all add: aud_ok_def audio_mixer_channel_def SOUND_CHANNELS_def AUDIO_CHANNELS_def)
  obtain c st2 where l: "load_wav os (the bytes) (stop_audio_channel run os ?i True st1) = (c, st2)" by fastforce
  have stopped: "aud_ok True (stop_audio_channel run os ?i True st1)" using run st1 i(1) by (simp add: aud_ok_stop_stream)
  show ?thesis
  proof (cases c)
    case None
    then have "aud_ok True st2" using load_wav_None[of os "the bytes" "stop_audio_channel run os ?i True st1" st2] l stopped by simp
    with None ok st1 show ?thesis by (simp add: play_audio_buffer_def r Let_def l)
  next
    case (Some k)
    let ?st3 = "put_stream ?i (\<lambda>s. s\<lparr>as_chunk := Some k, as_finished := False, as_paused := False\<rparr>) st2"
    have st3: "aud_ok True ?st3"
      using loose_load[OF stopped, of os "the bytes" k st2] l Some i(1) by (intro loose_take_stream) (auto simp: stream_ok_def)
    have "aud_ok True (snd (play_channel os (audio_mixer_channel ?i) k (mixer_loops repeat)
        (log (Mix_Volume (audio_mixer_channel ?i) (as_volume_mix (stream_at ?st3 ?i))) ?st3)))"
      by (rule aud_ok_play_channel[OF aud_ok_log_stream[OF st3 i(1)] i(2)])
    with Some ok st1 aud_ok_free_stream(1) show ?thesis by (simp add: play_audio_buffer_def r Let_def l split_beta)
  qed
qed

section \<open>The voice unit\<close>

lemma aud_ok_deactivate: "aud_ok r st \<Longrightarrow> aud_ok r (audio_unit_deactivate os st)"
  by (simp add: audio_unit_deactivate_def Let_def aud_ok_log)

lemma aud_ok_activate_render: "aud_ok r st \<Longrightarrow> aud_ok r (activate_render os st)"
  by (auto simp: activate_render_def split_beta aud_ok_log split: option.split)

lemma aud_ok_activate_capture: "aud_ok r st \<Longrightarrow> aud_ok r (activate_capture os st)"
  by (auto simp: activate_capture_def split_beta aud_ok_log split: option.split)

lemma aud_ok_activate: "aud_ok r st \<Longrightarrow> aud_ok r (audio_unit_activate os st)"
  by (simp add: audio_unit_activate_def split_beta aud_ok_open(1) aud_ok_activate_render aud_ok_activate_capture)

lemma aud_ok_unit:
  assumes "aud_ok r st"
  shows "aud_ok r (audio_unit_backend_set_callbacks os c p st)" "aud_ok r (audio_unit_backend_start os st)"
    "aud_ok r (audio_unit_backend_stop os st)" "aud_ok r (audio_unit_backend_shutdown os st)"
  using assms by (simp_all add: audio_unit_backend_set_callbacks_def audio_unit_backend_start_def
      audio_unit_backend_stop_def audio_unit_backend_shutdown_def aud_ok_deactivate aud_ok_activate)

section \<open>The guest's calls\<close>

lemma sound_ok_volume: "sound_ok s \<Longrightarrow>
   sound_ok (s\<lparr>ss_volume_s3e := clamp_volume_256 v, ss_volume_mix := mix_volume_from_s3e w\<rparr>)"
  using mix_volume_range[of w] by (simp add: sound_ok_def clamp_volume_256_def S3E_MAX_VOLUME_def)

lemma stream_ok_volume: "stream_ok s \<Longrightarrow>
   stream_ok (s\<lparr>as_volume_s3e := clamp_volume_256 v, as_volume_mix := mix_volume_from_s3e w\<rparr>)"
  using mix_volume_range[of w] by (simp add: stream_ok_def clamp_volume_256_def S3E_MAX_VOLUME_def)

lemma sound_ok_rate: "sound_ok s \<Longrightarrow> sound_ok (s\<lparr>ss_rate := clamp_rate v\<rparr>)"
  "sound_ok s \<Longrightarrow> sound_ok (s\<lparr>ss_rate_scale := x, ss_rate := rate_from_scale g v\<rparr>)"
  by (simp_all add: sound_ok_def clamp_rate_range rate_from_scale_def Let_def)

lemma aud_ok_sound_globals: "aud_ok r st \<Longrightarrow>
   aud_ok r (st\<lparr>g_sound_volume_s3e := clamp_volume_256 v, g_sound_volume_mix := mix_volume_from_s3e w\<rparr>)"
  "aud_ok r st \<Longrightarrow> aud_ok r (st\<lparr>g_sound_rate := clamp_rate v\<rparr>)"
  using mix_volume_range[of w] clamp_rate_range[of v]
  by (simp_all add: aud_ok_def clamp_volume_256_def S3E_MAX_VOLUME_def)

lemma aud_ok_channel: "aud_ok r st \<Longrightarrow> g_audio_channel st < AUDIO_CHANNELS"
  by (simp add: aud_ok_def)

text \<open>After a successful \<open>audio_open\<close> an operation may rely on the mixer.\<close>

lemma aud_ok_if_open:
  assumes "aud_ok r st" and "\<And>st. aud_ok True st \<Longrightarrow> aud_ok True (f st)"
  shows "aud_ok r (if fst (audio_open os st) then f (snd (audio_open os st)) else snd (audio_open os st))"
  using assms aud_ok_open aud_ok_weaken by simp

lemma audio_setint_ok: "aud_ok r st \<Longrightarrow> aud_ok r (snd (s3eAudioSetInt os k v st))"
proof -
  assume ok: "aud_ok r st"
  let ?st = "init_audio_slots st" and ?c = "g_audio_channel (init_audio_slots st)"
  have st: "aud_ok r ?st" using ok by (rule aud_ok_init_streams)
  have c: "?c < AUDIO_CHANNELS" "audio_mixer_channel ?c < 26"
    using aud_ok_channel[OF st] by (simp_all add: audio_mixer_channel_def SOUND_CHANNELS_def AUDIO_CHANNELS_def)
  have "aud_ok r (put_stream ?c (\<lambda>s. s\<lparr>as_volume_s3e := clamp_volume_256 v,
      as_volume_mix := mix_volume_from_s3e (clamp_volume_256 v)\<rparr>) ?st)"
    using st by (rule aud_ok_put_stream) (simp_all add: stream_ok_volume)
  note set = aud_ok_if_open[OF this, of "\<lambda>st. log (Mix_Volume (audio_mixer_channel ?c) (as_volume_mix (stream_at st ?c))) st" os]
  have "aud_ok r (?st\<lparr>g_audio_channel := nat v\<rparr>)" if "audio_channel_valid v"
    using st that by (auto simp: aud_ok_def audio_channel_valid_def)
  with set st aud_ok_log_stream c show ?thesis by (simp add: s3eAudioSetInt_def Let_def split_beta)
qed

lemma audio_getint_ok: "aud_ok r st \<Longrightarrow> aud_ok r (snd (s3eAudioGetInt os k st))"
  by (simp add: s3eAudioGetInt_def Let_def split_beta aud_ok_init_streams aud_ok_open(1))

lemma sound_setint_ok: "aud_ok r st \<Longrightarrow> aud_ok r (snd (s3eSoundSetInt os k v st))"
proof -
  assume ok: "aud_ok r st"
  let ?st = "init_sound_slots st"
  have st: "aud_ok r ?st" using ok by (rule aud_ok_init_sounds)
  have "aud_ok r (?st\<lparr>g_sound_volume_s3e := clamp_volume_256 v, g_sound_volume_mix := mix_volume_from_s3e (clamp_volume_256 v)\<rparr>)"
    using st by (rule aud_ok_sound_globals)
  note vol = aud_ok_if_open[OF this, of set_volumes os, OF aud_ok_set_volumes]
  have "aud_ok r (?st\<lparr>g_sound_rate := clamp_rate v\<rparr>)" using st by (rule aud_ok_sound_globals)
  from aud_ok_map_sounds[OF this, of "\<lambda>s. if ss_chunk s = None then s\<lparr>ss_rate := clamp_rate v\<rparr> else s"]
  have "aud_ok r (?st\<lparr>g_sound_rate := clamp_rate v,
      g_sound_slots := map (\<lambda>s. if ss_chunk s = None then s\<lparr>ss_rate := clamp_rate v\<rparr> else s) (g_sound_slots ?st)\<rparr>)"
    by (simp add: sound_ok_rate)
  with vol st show ?thesis by (simp add: s3eSoundSetInt_def Let_def split_beta)
qed

lemma channel_setint_ok: "aud_ok r st \<Longrightarrow> aud_ok r (snd (s3eSoundChannelSetInt os c k v st))"
proof -
  assume ok: "aud_ok r st"
  let ?st = "init_sound_slots st"
  have st: "aud_ok r ?st" using ok by (rule aud_ok_init_sounds)
  have "aud_ok r (put_sound (nat c) (\<lambda>s. s\<lparr>ss_volume_s3e := clamp_volume_256 v,
      ss_volume_mix := mix_volume_from_s3e (clamp_volume_256 v)\<rparr>) ?st)"
    using st by (rule aud_ok_put_sound) (simp_all add: sound_ok_volume)
  note vol = aud_ok_if_open[OF this, of "\<lambda>st. log (Mix_Volume (nat c) (mixed_sound_volume (sound_at st (nat c)) st)) st" os]
  have c: "nat c < SOUND_CHANNELS" if "sound_channel_valid c" using that by (auto simp: sound_channel_valid_def)
  have "aud_ok r (put_sound (nat c) (\<lambda>s. s\<lparr>ss_rate_scale := v, ss_rate := rate_from_scale (g_sound_rate ?st) v\<rparr>) ?st)"
    "aud_ok r (put_sound (nat c) (\<lambda>s. s\<lparr>ss_rate := clamp_rate v\<rparr>) ?st)"
    "aud_ok r (put_sound (nat c) (\<lambda>s. s\<lparr>ss_user_value := v\<rparr>) ?st)"
    using st by (auto intro!: aud_ok_put_sound simp: sound_ok_rate) (simp add: sound_ok_def)
  with vol st c aud_ok_log_sound show ?thesis by (auto simp: s3eSoundChannelSetInt_def Let_def split_beta)
qed

lemma channel_getint_ok: "aud_ok r st \<Longrightarrow> aud_ok r (snd (s3eSoundChannelGetInt os c k st))"
  by (simp add: s3eSoundChannelGetInt_def Let_def split_beta aud_ok_init_sounds aud_ok_open(1))

lemma channel_register_ok:
  assumes "aud_ok r st"
  shows "aud_ok r (snd (s3eSoundChannelRegister c t f u st))" "aud_ok r (snd (s3eSoundChannelUnRegister c t st))"
  using aud_ok_init_sounds[OF assms]
  by (auto simp: s3eSoundChannelRegister_def s3eSoundChannelUnRegister_def Let_def sound_ok_def intro!: aud_ok_put_sound)

lemma channel_bounds: "sound_channel_valid c \<Longrightarrow> nat c < SOUND_CHANNELS \<and> nat c < 26"
  by (auto simp: sound_channel_valid_def SOUND_CHANNELS_def)

lemma aud_ok_open_ready': "aud_ok r st \<Longrightarrow> audio_open os st = (b, st') \<Longrightarrow> aud_ok r st' \<and> (b \<longrightarrow> aud_ok True st')"
  using aud_ok_open[of r st os] by simp

lemma free_channel_ok:
  assumes "run_safe run" and "aud_ok r st"
  shows "aud_ok r (snd (s3eSoundGetFreeChannel run os st))"
  using aud_ok_open(1)[OF aud_ok_init_sounds[OF assms(2)], of os] assms(1)
  by (simp add: s3eSoundGetFreeChannel_def Let_def split_beta aud_ok_pump)

lemma channel_play_ok:
  assumes run: "run_safe run" and ok: "aud_ok r st"
  shows "aud_ok r (snd (s3eSoundChannelPlay run os c d n rp l st))"
proof -
  obtain b st1 where o: "audio_open os (init_sound_slots st) = (b, st1)" by fastforce
  note st1 = aud_ok_open_ready'[OF aud_ok_init_sounds[OF ok] o]
  obtain c' st2 where c: "(if c < 0 then s3eSoundGetFreeChannel run os (audio_pump run os st1) else (c, audio_pump run os st1)) = (c', st2)"
    by fastforce
  have "aud_ok True st2" if b
    using c st1 that free_channel_ok[OF run aud_ok_pump[OF run], of True st1 os os] aud_ok_pump[OF run, of True st1 os]
    by (auto split: if_splits)
  then have "aud_ok r (snd (if b then (if \<not> sound_channel_valid c' then (1, st2)
      else play_sound_channel run os (nat c') d n rp l False st2) else (1, st1)))"
    using aud_ok_play_sound[OF run, of st2 "nat c'"] channel_bounds[of c'] st1 by (auto intro: aud_ok_weaken)
  then show ?thesis using o c st1 by (auto simp: s3eSoundChannelPlay_def Let_def)
qed

lemma channel_stop_ok:
  assumes run: "run_safe run" and ok: "aud_ok r st"
  shows "aud_ok r (snd (s3eSoundChannelStop run os c st))"
proof -
  obtain b st1 where o: "audio_open os st = (b, st1)" by fastforce
  note st1 = aud_ok_open_ready'[OF ok o]
  have "aud_ok r (free_sound_slot (nat c) (halt_channel os (nat c) st1))" if "sound_channel_valid c"
    using st1 channel_bounds[OF that] by (intro aud_ok_free_sound aud_ok_halt) simp_all
  with st1 run show ?thesis by (simp add: s3eSoundChannelStop_def o Let_def aud_ok_stop_callback)
qed

lemma channel_pause_ok:
  assumes "aud_ok r st"
  shows "aud_ok r (snd (s3eSoundChannelPause os c st))" "aud_ok r (snd (s3eSoundChannelResume os c st))"
  using aud_ok_open(1)[OF assms, of os] channel_bounds[of c]
  by (auto simp: s3eSoundChannelPause_def s3eSoundChannelResume_def split_beta aud_ok_log)

lemma audio_pause_ok:
  assumes "aud_ok r st"
  shows "aud_ok r (s3eAudioPause os st)" "aud_ok r (s3eAudioResume os st)"
proof -
  have st: "aud_ok r (snd (audio_open os st))" using assms by (rule aud_ok_open)
  have "audio_mixer_channel (g_audio_channel (snd (audio_open os st))) < 26"
    using aud_ok_channel[OF st] by (simp add: audio_mixer_channel_def SOUND_CHANNELS_def AUDIO_CHANNELS_def)
  with st show "aud_ok r (s3eAudioPause os st)" "aud_ok r (s3eAudioResume os st)"
    by (auto simp: s3eAudioPause_def s3eAudioResume_def Let_def split_beta stream_ok_def intro!: aud_ok_put_stream aud_ok_log)
qed

lemma audio_stop_ok: "run_safe run \<Longrightarrow> aud_ok r st \<Longrightarrow> aud_ok r (s3eAudioStop run os st)"
  by (auto simp: s3eAudioStop_def split_beta aud_ok_open(1) intro!: aud_ok_stop_stream aud_ok_channel[of r])

lemma audio_play_ok:
  assumes run: "run_safe run" and ok: "aud_ok r st"
  shows "aud_ok r (snd (s3eAudioPlayFromBuffer run os p n rp st))" "aud_ok r (snd (s3eAudioPlay run os f rp st))"
proof -
  obtain b st1 where o: "audio_open os st = (b, st1)" by fastforce
  note st1 = aud_ok_open_ready'[OF ok o]
  have rd: "aud_ok q (snd (read_audio_file os path st))" if "aud_ok q st" for q st path
    using that by (simp add: read_audio_file_def Let_def split_beta split: option.split)
  have "aud_ok r (snd (case read_audio_file os path st1 of (None, st) \<Rightarrow> (1, st)
      | (Some bytes, st) \<Rightarrow> play_audio_buffer run os (Some bytes) (of_nat (length bytes)) rp st))" if b for path
  proof -
    have "aud_ok True (snd (read_audio_file os path st1))" using st1 that by (simp add: rd)
    then show ?thesis using aud_ok_play_buffer[OF run]
      by (auto simp: split_beta split: option.split intro: aud_ok_weaken)
  qed
  with st1 show "aud_ok r (snd (s3eAudioPlay run os f rp st))"
    by (auto simp: s3eAudioPlay_def o split: option.split)
  show "aud_ok r (snd (s3eAudioPlayFromBuffer run os p n rp st))"
    using st1 aud_ok_play_buffer[OF run] by (auto simp: s3eAudioPlayFromBuffer_def o intro: aud_ok_weaken)
qed

lemma audio_register_ok: "aud_ok r st \<Longrightarrow> aud_ok r (snd (s3eAudioRegister i f u st))"
  by (simp add: s3eAudioRegister_def aud_ok_def)

lemma sound_getint_ok: "aud_ok r st \<Longrightarrow> aud_ok r (snd (s3eSoundGetInt os k st))"
  by (simp add: s3eSoundGetInt_def split_beta aud_ok_open(1))

lemma audio_playing_ok: "aud_ok r st \<Longrightarrow> aud_ok r (snd (s3eAudioIsPlaying os st))"
  by (simp add: s3eAudioIsPlaying_def split_beta audio_getint_ok)

lemmas aud_call_ok = audio_setint_ok audio_getint_ok audio_playing_ok audio_play_ok audio_stop_ok audio_pause_ok
  audio_register_ok free_channel_ok sound_setint_ok sound_getint_ok channel_register_ok channel_play_ok
  channel_stop_ok channel_pause_ok channel_setint_ok channel_getint_ok aud_ok_unit aud_ok_pump

lemma aud_ok_call: "run_safe run \<Longrightarrow> aud_ok r st \<Longrightarrow> aud_ok r (aud_call_step run os c st)"
  by (cases c) (simp_all add: aud_call_ok)

lemma aud_callback_safe: "run_safe (run_callback d os guest)"
proof (induction d)
  case 0
  show ?case by (simp add: run_safe_def)
next
  case (Suc d)
  show ?case unfolding run_safe_def by (auto simp: Let_def intro!: aud_ok_fold aud_ok_call[OF Suc])
qed

section \<open>Shutdown\<close>

abbreviation holding :: "aud_state \<Rightarrow> nat \<Rightarrow> nat option" where
  "holding st \<equiv> held (g_sound_slots st) (g_audio_slots st)"

lemma holding_put:
  "(\<And>s. ss_chunk (f s) = ss_chunk s) \<Longrightarrow> holding (put_sound i f st) = holding st"
  "(\<And>s. as_chunk (g s) = as_chunk s) \<Longrightarrow> holding (put_stream i g st) = holding st"
proof -
  assume f: "\<And>s. ss_chunk (f s) = ss_chunk s"
  show "holding (put_sound i f st) = holding st"
    by (cases "i < length (g_sound_slots st)")
      (auto simp: fun_eq_iff held_def put_sound_def nth_list_update list_update_beyond f)
next
  assume g: "\<And>s. as_chunk (g s) = as_chunk s"
  show "holding (put_stream i g st) = holding st"
    by (cases "i < length (g_audio_slots st)")
      (auto simp: fun_eq_iff held_def put_stream_def nth_list_update list_update_beyond g)
qed

lemma holding_irrelevant [simp]: "holding (log c st) = holding st" "holding (snd (ask f st)) = holding st"
  by (simp_all add: log_def ask_def)

lemma holding_halt: "holding (halt_channel os i st) = holding st"
  by (simp add: halt_channel_def Let_def split_beta mixer_channel_finished_def holding_put)

lemma holding_free:
  assumes "aud_ok r st"
  shows "i < SOUND_CHANNELS \<Longrightarrow> holding (free_sound_slot i st) = (holding st)(i := None)"
    and "i < AUDIO_CHANNELS \<Longrightarrow> holding (free_audio_slot i st) = (holding st)(SOUND_CHANNELS + i := None)"
proof -
  have len: "length (g_sound_slots st) = SOUND_CHANNELS" "length (g_audio_slots st) = AUDIO_CHANNELS"
    using assms by (simp_all add: aud_ok_def)
  assume i: "i < SOUND_CHANNELS"
  show "holding (free_sound_slot i st) = (holding st)(i := None)"
    using i len held_put_sound[OF i len(1), of "\<lambda>s. s\<lparr>ss_chunk := None, ss_finished := False, ss_generator_decoding := False,
             ss_source_data := 0, ss_source_samples := 0, ss_reps_remaining := 0, ss_loop_index := 0\<rparr>" "g_audio_slots st"]
    by (auto simp: free_sound_slot_def put_sound_def free_chunk_def split: option.split)
next
  have len: "length (g_sound_slots st) = SOUND_CHANNELS" "length (g_audio_slots st) = AUDIO_CHANNELS"
    using assms by (simp_all add: aud_ok_def)
  assume i: "i < AUDIO_CHANNELS"
  show "holding (free_audio_slot i st) = (holding st)(SOUND_CHANNELS + i := None)"
    using i len held_put_stream[OF i len(2), of "g_sound_slots st" "\<lambda>s. s\<lparr>as_chunk := None, as_finished := False, as_paused := False\<rparr>"]
    by (auto simp: free_audio_slot_def put_stream_def free_chunk_def split: option.split)
qed

lemma fold_releases:
  assumes "\<And>i st. i \<in> set xs \<Longrightarrow> aud_ok r st \<Longrightarrow> aud_ok r (f i st) \<and> holding (f i st) = (holding st)(g i := None)"
    and "aud_ok r st"
  shows "aud_ok r (fold f xs st) \<and> (\<forall>j. holding (fold f xs st) j = (if j \<in> g ` set xs then None else holding st j))"
  using assms by (induction xs arbitrary: st) auto

definition release_sound :: "aud_os \<Rightarrow> nat \<Rightarrow> aud_state \<Rightarrow> aud_state" where
  "release_sound os channel st =
     (let st = (if g_audio_ready st \<and> au_mixer_symbols st then halt_channel os channel st else st)
      in put_sound channel (\<lambda>s. s\<lparr>ss_callbacks := replicate S3E_CHANNEL_CALLBACK_COUNT no_callback\<rparr>) (free_sound_slot channel st))"

lemma release_sound_ok:
  assumes "aud_ok r st" and i: "i < SOUND_CHANNELS"
  shows "aud_ok r (release_sound os i st) \<and> holding (release_sound os i st) = (holding st)(i := None)"
proof -
  let ?st = "if g_audio_ready st \<and> au_mixer_symbols st then halt_channel os i st else st"
  have st: "aud_ok r ?st" "holding ?st = holding st"
    using assms aud_ok_halt[OF assms(1), of i os] holding_halt[of os i st] by (simp_all add: SOUND_CHANNELS_def)
  have "aud_ok r (release_sound os i st)"
    unfolding release_sound_def Let_def
    by (rule aud_ok_put_sound[OF aud_ok_free_sound(1)[OF st(1)]]) (simp_all add: sound_ok_def)
  moreover have "holding (release_sound os i st) = (holding st)(i := None)"
    unfolding release_sound_def Let_def by (subst holding_put) (simp_all only: holding_free(1)[OF st(1) i] st(2), simp)
  ultimately show ?thesis by simp
qed

lemma release_stream_ok:
  assumes "aud_ok r st" and i: "i < AUDIO_CHANNELS"
  shows "aud_ok r (stop_audio_channel run os i False st) \<and>
    holding (stop_audio_channel run os i False st) = (holding st)(SOUND_CHANNELS + i := None)"
proof -
  let ?st = "if g_audio_ready st \<and> as_chunk (stream_at st i) \<noteq> None then halt_channel os (audio_mixer_channel i) st else st"
  have "audio_mixer_channel i < 26" using i by (simp add: audio_mixer_channel_def SOUND_CHANNELS_def AUDIO_CHANNELS_def)
  then have st: "aud_ok r ?st" "holding ?st = holding st"
    using assms aud_ok_halt[OF assms(1), of "audio_mixer_channel i" os] holding_halt[of os "audio_mixer_channel i" st] by simp_all
  show ?thesis unfolding stop_audio_channel_def Let_def
    using aud_ok_free_stream(1)[OF st(1), of i] holding_free(2)[OF st(1) i] st(2) by simp
qed

lemma aud_ok_no_callbacks: "aud_ok r st \<Longrightarrow>
   aud_ok r (st\<lparr>g_audio_callbacks := replicate S3E_AUDIO_CALLBACK_COUNT no_callback\<rparr>)"
  by (simp add: aud_ok_def)

lemma aud_ok_closed: "aud_ok False st \<Longrightarrow> (\<forall>i < 26. holding st i = None) \<Longrightarrow>
   aud_ok False (st\<lparr>au_mixer_symbols := False, g_audio_ready := False, g_audio_tried := False,
      g_mixer_mp3_ready := False, g_audio_channel := 0, g_audio_slots_initialized := False,
      g_sound_slots_initialized := False, g_audio_pumping := False\<rparr>)"
  by (simp add: aud_ok_def AUDIO_CHANNELS_def)

lemma aud_shutdown_ok:
  assumes "aud_ok False st"
  shows "aud_ok False (audio_shutdown run os st) \<and> (\<forall>i < 26. holding (audio_shutdown run os st) i = None)"
proof -
  let ?a = "audio_unit_backend_shutdown os st"
  let ?b = "fold (\<lambda>channel. stop_audio_channel run os channel False) [0..<AUDIO_CHANNELS] ?a"
  let ?c = "?b\<lparr>g_audio_callbacks := replicate S3E_AUDIO_CALLBACK_COUNT no_callback\<rparr>"
  let ?d = "fold (release_sound os) [0..<SOUND_CHANNELS] ?c"
  have b: "aud_ok False ?b \<and> (\<forall>j. holding ?b j = (if j \<in> (+) SOUND_CHANNELS ` set [0..<AUDIO_CHANNELS] then None else holding ?a j))"
    using assms by (intro fold_releases) (simp_all add: release_stream_ok aud_ok_unit)
  have "aud_ok False ?c" using b by (intro aud_ok_no_callbacks) simp
  then have d: "aud_ok False ?d \<and> (\<forall>j. holding ?d j = (if j \<in> (\<lambda>i. i) ` set [0..<SOUND_CHANNELS] then None else holding ?c j))"
    by (intro fold_releases) (simp_all add: release_sound_ok)
  have none: "holding ?d i = None" if "i < 26" for i
  proof (cases "i < SOUND_CHANNELS")
    case False
    then have "i \<in> (+) SOUND_CHANNELS ` set [0..<AUDIO_CHANNELS]"
      using that by (intro image_eqI[of _ _ "i - SOUND_CHANNELS"]) (auto simp: SOUND_CHANNELS_def AUDIO_CHANNELS_def)
    with False b d show ?thesis by simp
  qed (use d in simp)
  have "audio_shutdown run os st = ?d\<lparr>au_mixer_symbols := False, g_audio_ready := False, g_audio_tried := False,
      g_mixer_mp3_ready := False, g_audio_channel := 0, g_audio_slots_initialized := False,
      g_sound_slots_initialized := False, g_audio_pumping := False\<rparr>"
    by (simp add: audio_shutdown_def Let_def release_sound_def[abs_def])
  with aud_ok_closed[of ?d] d none show ?thesis by simp
qed

section \<open>The machine\<close>

lemma aud_ok_step: "aud_ok False st \<Longrightarrow> aud_ok False (aud_step d os guest e st)"
  using aud_callback_safe aud_shutdown_ok by (cases e) (simp_all add: aud_ok_call aud_ok_pump aud_ok_finished)

interpretation audio_machine: invariant_machine "aud_step d os guest" "aud_ok False" for d os guest
  by unfold_locales (rule aud_ok_step)

lemma aud_initial_ok: "aud_ok False aud_initial"
  by (simp add: aud_ok_def aud_initial_def zero_sound_def zero_stream_def sound_ok_def stream_ok_def ownership_def held_def
      list_all_length SOUND_CHANNELS_def AUDIO_CHANNELS_def S3E_MAX_VOLUME_def MIX_MAX_VOLUME_def SOUND_RATE_DEFAULT_def)

lemma aud_reachable_ok: "aud_ok False (fold (aud_step d os guest) inputs aud_initial)"
  by (rule audio_machine.run_inv[OF aud_initial_ok])

end
