(* ===== verification/Audio_Properties.thy ===== *)
theory Audio_Properties
  imports Audio_Inv
begin

text \<open>
  Properties of the audio component: chunks of the mixer are owned by one channel and never freed twice,
  calls into the mixer and the guest are legal, and a sound plays as often as it was asked to.
\<close>

section \<open>Ownership of chunks\<close>

definition held_chunks :: "aud_state \<Rightarrow> nat list" where
  "held_chunks st = List.map_filter (holding st) [0..<26]"

lemma distinct_map_filter:
  "distinct xs \<Longrightarrow> (\<And>i j c. i \<in> set xs \<Longrightarrow> j \<in> set xs \<Longrightarrow> f i = Some c \<Longrightarrow> f j = Some c \<Longrightarrow> i = j) \<Longrightarrow>
   distinct (List.map_filter f xs)"
proof (induction xs)
  case (Cons x xs)
  then have "distinct (List.map_filter f xs)" by simp
  moreover have "the (f x) \<notin> set (List.map_filter f xs)" if "f x \<noteq> None"
  proof
    assume "the (f x) \<in> set (List.map_filter f xs)"
    then obtain y where "y \<in> set xs" "f y = Some (the (f x))" by (auto simp: List.map_filter_def)
    with that Cons.prems(2)[of x y "the (f x)"] Cons.prems(1) show False by auto
  qed
  ultimately show ?case by (auto simp: List.map_filter_def)
qed (simp add: List.map_filter_def)

text \<open>C18: whatever the guest calls, from the outside or from its callbacks, and whenever sounds end:
  no two channels hold the same chunk, every held chunk is live, and no chunk is freed twice.\<close>

theorem chunks_owned_once:
  "let st = fold (aud_step d os guest) inputs aud_initial
   in distinct (held_chunks st) \<and> list_all (\<lambda>c. au_chunks st c \<noteq> None) (held_chunks st) \<and> \<not> au_chunk_error st"
proof -
  let ?st = "fold (aud_step d os guest) inputs aud_initial"
  have ok: "aud_ok False ?st" by (rule aud_reachable_ok)
  then have own: "ownership (holding ?st) (au_chunks ?st) (au_next_chunk ?st)" by (simp add: aud_ok_def)
  then have "distinct (held_chunks ?st)" unfolding held_chunks_def
    by (intro distinct_map_filter) (auto simp: ownership_def)
  moreover have "list_all (\<lambda>c. au_chunks ?st c \<noteq> None) (held_chunks ?st)"
    using own by (auto simp: list_all_iff held_chunks_def List.map_filter_def ownership_def)
  ultimately show ?thesis using ok by (simp add: aud_ok_def Let_def)
qed

text \<open>C20: every volume, channel number and generator request that leaves the component is legal: mixer
  channels are below 26, volumes between 0 and 128, a generator is asked for 1 to 4096 samples that fit in
  the buffer of at most eight times the source plus 4096 samples, and only registered callbacks run.\<close>

theorem mixer_calls_legal:
  "list_all call_ok (au_log (fold (aud_step d os guest) inputs aud_initial))"
  using aud_reachable_ok[of d os guest inputs] by (simp add: aud_ok_def)

text \<open>C22: volumes, rates and the selected stream channel stay in range, and the tables keep their sizes.\<close>

theorem audio_settings_in_range:
  "let st = fold (aud_step d os guest) inputs aud_initial
   in length (g_sound_slots st) = 24 \<and> list_all sound_ok (g_sound_slots st) \<and>
      length (g_audio_slots st) = 2 \<and> list_all stream_ok (g_audio_slots st) \<and> g_audio_channel st < 2 \<and>
      0 \<le> g_sound_volume_mix st \<and> g_sound_volume_mix st \<le> 128 \<and> 0 \<le> g_sound_rate st \<and> g_sound_rate st \<le> 0x40000"
  using aud_reachable_ok[of d os guest inputs]
  by (simp add: aud_ok_def Let_def SOUND_CHANNELS_def AUDIO_CHANNELS_def)

section \<open>Repeats\<close>

text \<open>The end of the sound on channel \<open>i\<close>: the mixer reports it and the component is pumped.\<close>

definition finish_sound :: "aud_run \<Rightarrow> aud_os \<Rightarrow> nat \<Rightarrow> aud_state \<Rightarrow> aud_state" where
  "finish_sound run os i st = audio_pump run os (mixer_channel_finished (int i) st)"

text \<open>
  A mixer on which everything works. SDL_mixer keeps a channel playing until it reports its end, and
  halting or starting a channel that has ended reports nothing.
\<close>

definition mixer_works :: "aud_os \<Rightarrow> bool" where
  "mixer_works os \<longleftrightarrow> (\<forall>n c. mx_alloc os n \<and> mx_rw os n \<and> mx_loads os n \<and> mx_plays os n \<and> mx_playing os n c \<and>
     \<not> mx_was_playing os n c)"

text \<open>Channel \<open>i\<close> plays, without callbacks, and no other channel has ended.\<close>

definition sounding :: "nat \<Rightarrow> ptr \<Rightarrow> u32 \<Rightarrow> u32 \<Rightarrow> u32 \<Rightarrow> aud_state \<Rightarrow> bool" where
  "sounding i d n r l st \<longleftrightarrow> length (g_sound_slots st) = SOUND_CHANNELS \<and> i < SOUND_CHANNELS \<and> g_audio_ready st \<and> \<not> g_audio_pumping st \<and>
     au_mixer_symbols st \<and> length (g_audio_slots st) = AUDIO_CHANNELS \<and>
     (\<forall>j < SOUND_CHANNELS. j \<noteq> i \<longrightarrow> \<not> ss_finished (sound_at st j)) \<and> (\<forall>j < AUDIO_CHANNELS. \<not> as_finished (stream_at st j)) \<and>
     (let s = sound_at st i in ss_chunk s \<noteq> None \<and> \<not> ss_finished s \<and> (\<forall>k < 4. scb_function (ss_callbacks s ! k) = 0) \<and>
        ss_source_data s = d \<and> ss_source_samples s = n \<and> ss_reps_remaining s = r \<and> ss_loop_index s = l)"

definition starts :: "nat \<Rightarrow> aud_state \<Rightarrow> nat" where
  "starts i st = length (filter (\<lambda>c. case c of Mix_Play j k l \<Rightarrow> j = i | _ \<Rightarrow> False) (au_log st))"

text \<open>What a sound channel does not touch.\<close>

definition rest :: "aud_state \<Rightarrow> bool \<times> bool \<times> audio_slot list" where
  "rest st = (g_audio_ready st, au_mixer_symbols st, g_audio_slots st)"

lemma service_other:
  assumes "mixer_works os" and "\<not> ss_finished (sound_at st j)"
  shows "\<exists>c. service_sound run os j st = st\<lparr>au_clock := c\<rparr>"
proof (cases "ss_chunk (sound_at st j)")
  case None
  then show ?thesis by (intro exI[of _ "au_clock st"]) (simp add: service_sound_def)
next
  case (Some k)
  with assms show ?thesis
    by (intro exI[of _ "Suc (au_clock st)"]) (simp add: service_sound_def Let_def ask_def mixer_works_def)
qed

lemma clock_slots [simp]: "sound_at (st\<lparr>au_clock := c\<rparr>) j = sound_at st j" "stream_at (st\<lparr>au_clock := c\<rparr>) j = stream_at st j"
  by (simp_all add: sound_at_def stream_at_def)

lemma service_others:
  assumes "mixer_works os" and "\<And>j. j \<in> set js \<Longrightarrow> \<not> ss_finished (sound_at st j)"
  shows "\<exists>c. fold (service_sound run os) js st = st\<lparr>au_clock := c\<rparr>"
  using assms(2)
proof (induction js arbitrary: st)
  case Nil
  show ?case by (intro exI[of _ "au_clock st"]) simp
next
  case (Cons j js)
  have "\<exists>c. service_sound run os j st = st\<lparr>au_clock := c\<rparr>"
    by (rule service_other[OF assms(1)]) (use Cons.prems in simp)
  then obtain c where "service_sound run os j st = st\<lparr>au_clock := c\<rparr>" by blast
  moreover have "\<exists>c'. fold (service_sound run os) js (st\<lparr>au_clock := c\<rparr>) = st\<lparr>au_clock := c\<rparr>\<lparr>au_clock := c'\<rparr>"
    by (rule Cons.IH) (use Cons.prems in simp)
  then obtain c' where "fold (service_sound run os) js (st\<lparr>au_clock := c\<rparr>) = st\<lparr>au_clock := c\<rparr>\<lparr>au_clock := c'\<rparr>" by blast
  ultimately show ?case by (intro exI[of _ c']) simp
qed

lemma service_streams:
  assumes "mixer_works os" and "\<And>j. j \<in> set js \<Longrightarrow> \<not> as_finished (stream_at st j)"
  shows "\<exists>c. fold (service_stream run os) js st = st\<lparr>au_clock := c\<rparr>"
  using assms(2)
proof (induction js arbitrary: st)
  case Nil
  show ?case by (intro exI[of _ "au_clock st"]) simp
next
  case (Cons j js)
  have "\<exists>c. service_stream run os j st = st\<lparr>au_clock := c\<rparr>"
  proof (cases "as_chunk (stream_at st j)")
    case None
    then show ?thesis by (intro exI[of _ "au_clock st"]) (simp add: service_stream_def)
  next
    case (Some k)
    with assms(1) Cons.prems show ?thesis
      by (intro exI[of _ "Suc (au_clock st)"]) (simp add: service_stream_def Let_def ask_def mixer_works_def)
  qed
  then obtain c where "service_stream run os j st = st\<lparr>au_clock := c\<rparr>" by blast
  moreover have "\<exists>c'. fold (service_stream run os) js (st\<lparr>au_clock := c\<rparr>) = st\<lparr>au_clock := c\<rparr>\<lparr>au_clock := c'\<rparr>"
    by (rule Cons.IH) (use Cons.prems in simp)
  then obtain c' where "fold (service_stream run os) js (st\<lparr>au_clock := c\<rparr>) = st\<lparr>au_clock := c\<rparr>\<lparr>au_clock := c'\<rparr>" by blast
  ultimately show ?case by (intro exI[of _ c']) simp
qed

text \<open>A pump services only the channel that has ended.\<close>

lemma finish_only:
  assumes w: "mixer_works os" and s: "sounding i d n r l st"
    and others: "\<And>c j. j < SOUND_CHANNELS \<Longrightarrow> j \<noteq> i \<Longrightarrow> \<not> ss_finished (sound_at (service_sound run os i
      ((mixer_channel_finished (int i) st)\<lparr>g_audio_pumping := True, au_clock := c\<rparr>)) j)"
  shows "\<exists>c c'. finish_sound run os i st =
    (service_sound run os i ((mixer_channel_finished (int i) st)\<lparr>g_audio_pumping := True, au_clock := c\<rparr>))
      \<lparr>au_clock := c', g_audio_pumping := False\<rparr>"
proof -
  let ?st = "(mixer_channel_finished (int i) st)\<lparr>g_audio_pumping := True\<rparr>"
  have i: "i < SOUND_CHANNELS" "length (g_sound_slots st) = SOUND_CHANNELS" using s by (simp_all add: sounding_def)
  have st: "mixer_channel_finished (int i) st = put_sound i (\<lambda>s. s\<lparr>ss_finished := True\<rparr>) st"
    using i by (simp add: mixer_channel_finished_def sound_channel_valid_def)
  have flags: "g_audio_ready ?st" "\<not> g_audio_pumping (mixer_channel_finished (int i) st)"
    using s by (simp_all add: sounding_def st put_sound_def)
  have quiet: "\<not> ss_finished (sound_at ?st j)" if "j < SOUND_CHANNELS" "j \<noteq> i" for j
    using s that by (simp add: sounding_def st put_sound_def sound_at_def)
  have "\<And>j. j \<in> set [0..<AUDIO_CHANNELS] \<Longrightarrow> \<not> as_finished (stream_at ?st j)"
    using s by (simp add: sounding_def st put_sound_def stream_at_def)
  from service_streams[OF w this] obtain c1 where
    c1: "fold (service_stream run os) [0..<AUDIO_CHANNELS] ?st = ?st\<lparr>au_clock := c1\<rparr>" by blast
  have "[0..<SOUND_CHANNELS] = [0..<i] @ i # [Suc i..<SOUND_CHANNELS]"
    using i(1) by (metis upt_conv_Cons upt_add_eq_append le0 less_imp_le_nat add_0 le_add_diff_inverse)
  moreover obtain c2 where c2: "fold (service_sound run os) [0..<i] (?st\<lparr>au_clock := c1\<rparr>) = ?st\<lparr>au_clock := c1\<rparr>\<lparr>au_clock := c2\<rparr>"
    using service_others[OF w, of "[0..<i]" "?st\<lparr>au_clock := c1\<rparr>"] quiet i(1) by auto
  let ?mid = "service_sound run os i (?st\<lparr>au_clock := c2\<rparr>)"
  have "\<And>j. j \<in> set [Suc i..<SOUND_CHANNELS] \<Longrightarrow> \<not> ss_finished (sound_at ?mid j)"
    using others[of _ c2] by simp
  from service_others[OF w this] obtain c3 where
    c3: "fold (service_sound run os) [Suc i..<SOUND_CHANNELS] ?mid = ?mid\<lparr>au_clock := c3\<rparr>" by blast
  ultimately have "fold (service_sound run os) [0..<SOUND_CHANNELS] (?st\<lparr>au_clock := c1\<rparr>) = ?mid\<lparr>au_clock := c3\<rparr>"
    using c2 by simp
  then have "finish_sound run os i st = (?mid\<lparr>au_clock := c3\<rparr>)\<lparr>g_audio_pumping := False\<rparr>"
    using flags c1 by (simp add: finish_sound_def audio_pump_def service_finished_audio_def service_finished_sound_def)
  then show ?thesis by (rule_tac x = c2 in exI, rule_tac x = c3 in exI) simp
qed

text \<open>The image of the part of a sound that is repeated, and the slot it leaves.\<close>

definition loop_image :: "aud_os \<Rightarrow> ptr \<Rightarrow> u32 \<Rightarrow> u32 \<Rightarrow> u8 list option" where
  "loop_image os d n l = create_pcm16_mono_wav True (Some (\<lambda>k. au_memory os d (unat l + k))) (n - l) SOUND_FREQUENCY"

definition silent :: "sound_slot \<Rightarrow> sound_slot" where
  "silent s = s\<lparr>ss_chunk := None, ss_finished := False, ss_generator_decoding := False,
     ss_source_data := 0, ss_source_samples := 0, ss_reps_remaining := 0, ss_loop_index := 0\<rparr>"

definition loaded :: "nat \<Rightarrow> ptr \<Rightarrow> u32 \<Rightarrow> u32 \<Rightarrow> u32 \<Rightarrow> sound_slot \<Rightarrow> sound_slot" where
  "loaded c d n r l s = s\<lparr>ss_generator_decoding := False, ss_chunk := Some c, ss_finished := False, ss_source_data := d,
     ss_source_samples := n, ss_reps_remaining := r, ss_loop_index := l\<rparr>"

text \<open>The last repetition ends: the channel falls silent and nothing is started.\<close>

lemma service_last:
  assumes "i < SOUND_CHANNELS" and "length (g_sound_slots st) = SOUND_CHANNELS"
    and "ss_finished (sound_at st i)" and "\<forall>k < 4. scb_function (ss_callbacks (sound_at st i) ! k) = 0"
    and "ss_chunk (sound_at st i) \<noteq> None" and "ss_reps_remaining (sound_at st i) = 1"
  shows "g_sound_slots (service_sound run os i st) = (g_sound_slots st)[i := silent (sound_at st i)] \<and>
    au_log (service_sound run os i st) = au_log st \<and> rest (service_sound run os i st) = rest st"
  using assms by (auto simp: rest_def service_sound_def Let_def free_sound_slot_def put_sound_def sound_at_def silent_def
      invoke_callback_def free_chunk_def S3E_CHANNEL_END_SAMPLE_def S3E_CHANNEL_STOP_AUDIO_def split: option.split)

lemma halt_works: "mixer_works os \<Longrightarrow>
   halt_channel os i st = st\<lparr>au_log := Mix_Halt i # au_log st, au_clock := Suc (au_clock st)\<rparr>"
  by (simp add: halt_channel_def ask_def log_def mixer_works_def)

lemma play_works: "mixer_works os \<Longrightarrow>
   play_channel os i c l st = (True, st\<lparr>au_log := Mix_Play i c l # au_log st, au_clock := Suc (Suc (au_clock st))\<rparr>)"
  by (simp add: play_channel_def ask_def log_def mixer_works_def)

lemma load_works: "mixer_works os \<Longrightarrow>
   load_wav os bs st = (Some (au_next_chunk st), st\<lparr>au_clock := Suc (au_clock st),
     au_chunks := (au_chunks st)(au_next_chunk st \<mapsto> bs), au_next_chunk := Suc (au_next_chunk st)\<rparr>)"
  by (simp add: load_wav_def ask_def new_chunk_def mixer_works_def)

lemma ask_works: "mixer_works os \<Longrightarrow> ask (mx_alloc os) st = (True, st\<lparr>au_clock := Suc (au_clock st)\<rparr>)"
  "mixer_works os \<Longrightarrow> ask (mx_rw os) st = (True, st\<lparr>au_clock := Suc (au_clock st)\<rparr>)"
  by (simp_all add: ask_def mixer_works_def)

lemma free_quiet: "i < SOUND_CHANNELS \<Longrightarrow> ss_chunk (sound_at st i) = None \<Longrightarrow> free_sound_slot i st = put_sound i silent st"
  by (simp add: free_sound_slot_def silent_def[abs_def])

lemma starts_simps [simp]: "starts i (st\<lparr>g_sound_slots := x\<rparr>) = starts i st" "starts i (st\<lparr>au_clock := n\<rparr>) = starts i st"
  "starts i (st\<lparr>au_chunks := h\<rparr>) = starts i st" "starts i (st\<lparr>au_next_chunk := n\<rparr>) = starts i st"
  "starts i (put_sound k f st) = starts i st" "starts i (free_chunk c st) = starts i st"
  by (simp_all add: starts_def put_sound_def free_chunk_def)

text \<open>Putting a chunk on a silent channel.\<close>

lemma start_works:
  assumes w: "mixer_works os" and i: "i < SOUND_CHANNELS" "length (g_sound_slots st) = SOUND_CHANNELS"
    and n: "ss_chunk (sound_at st i) = None"
  shows "fst (start_sound os i c d n r l st) = 0"
    and "g_sound_slots (snd (start_sound os i c d n r l st)) = (g_sound_slots st)[i := loaded c d n r l (sound_at st i)]"
    and "au_chunks (snd (start_sound os i c d n r l st)) = au_chunks st"
    and "starts i (snd (start_sound os i c d n r l st)) = Suc (starts i st)"
    and "rest (snd (start_sound os i c d n r l st)) = rest st"
proof -
  let ?h = "st\<lparr>au_log := Mix_Halt i # au_log st, au_clock := Suc (au_clock st)\<rparr>"
  have "ss_chunk (sound_at ?h i) = None" using n by (simp add: sound_at_def)
  note free = free_quiet[OF i(1) this]
  show "fst (start_sound os i c d n r l st) = 0"
    "g_sound_slots (snd (start_sound os i c d n r l st)) = (g_sound_slots st)[i := loaded c d n r l (sound_at st i)]"
    "au_chunks (snd (start_sound os i c d n r l st)) = au_chunks st"
    "starts i (snd (start_sound os i c d n r l st)) = Suc (starts i st)"
    "rest (snd (start_sound os i c d n r l st)) = rest st"
    using i by (simp_all add: start_sound_def halt_works[OF w] free play_works[OF w] Let_def put_sound_def log_def sound_at_def
        silent_def loaded_def starts_def rest_def)
qed

lemma play_sound_works:
  assumes w: "mixer_works os" and i: "i < SOUND_CHANNELS" "length (g_sound_slots st) = SOUND_CHANNELS"
    and n: "ss_chunk (sound_at st i) = None" and g: "scb_function (ss_callbacks (sound_at st i) ! S3E_CHANNEL_GEN_AUDIO) = 0"
    and d: "d \<noteq> 0" "l < n" and bs: "loop_image os d n l = Some bs"
  shows "let (res, st') = play_sound_channel run os i d n r l True st in res = 0 \<and>
    g_sound_slots st' = (g_sound_slots st)[i := loaded (au_next_chunk st) d n r l (sound_at st i)] \<and>
    au_chunks st' = (au_chunks st)(au_next_chunk st \<mapsto> bs) \<and> starts i st' = Suc (starts i st) \<and> rest st' = rest st"
proof -
  let ?st = "st\<lparr>au_clock := Suc (Suc (Suc (au_clock st))), au_chunks := (au_chunks st)(au_next_chunk st \<mapsto> bs),
               au_next_chunk := Suc (au_next_chunk st)\<rparr>"
  have eq: "play_sound_channel run os i d n r l True st = start_sound os i (au_next_chunk st) d n r l ?st"
    using d(1) d(2)[unfolded not_le[symmetric]] g bs by (simp add: play_sound_channel_def render_generator_audio_def ask_works[OF w] load_works[OF w] loop_image_def Let_def)
  have "length (g_sound_slots ?st) = SOUND_CHANNELS" "ss_chunk (sound_at ?st i) = None" "sound_at ?st i = sound_at st i"
    using i n by (simp_all add: sound_at_def)
  with start_works[OF w i(1) this(1,2), of "au_next_chunk st" d n r l] show ?thesis
    by (simp add: eq split_beta rest_def)
qed

text \<open>A repetition that is not the last: the channel starts again at its loop index.\<close>

lemma service_restart:
  assumes w: "mixer_works os" and i: "i < SOUND_CHANNELS" "length (g_sound_slots st) = SOUND_CHANNELS"
    and s: "ss_finished (sound_at st i)" "\<forall>k < 4. scb_function (ss_callbacks (sound_at st i) ! k) = 0"
      "ss_chunk (sound_at st i) = Some k0" "ss_source_data (sound_at st i) = d" "ss_source_samples (sound_at st i) = n"
      "ss_reps_remaining (sound_at st i) = r" "ss_loop_index (sound_at st i) = l"
    and d: "d \<noteq> 0" "n \<noteq> 0" "l < n" and bs: "loop_image os d n l = Some bs"
    and r: "r = 0 \<or> 0 < sint (r - 1)"
  shows "\<exists>c. let st' = service_sound run os i st in
    g_sound_slots st' = (g_sound_slots st)[i := loaded c d n (if r = 0 then 0 else r - 1) l (sound_at st i)] \<and>
    au_chunks st' c = Some bs \<and> starts i st' = Suc (starts i st) \<and> rest st' = rest st"
proof -
  let ?f = "free_sound_slot i st"
  have cb: "scb_function (ss_callbacks (sound_at ?f i) ! S3E_CHANNEL_END_SAMPLE) = 0"
    "scb_function (ss_callbacks (sound_at ?f i) ! S3E_CHANNEL_GEN_AUDIO) = 0"
    and f: "ss_chunk (sound_at ?f i) = None" "length (g_sound_slots ?f) = SOUND_CHANNELS" "starts i ?f = starts i st" "rest ?f = rest st"
      "(g_sound_slots ?f)[i := loaded c d n q l (sound_at ?f i)] = (g_sound_slots st)[i := loaded c d n q l (sound_at st i)]" for c q
    using i s by (simp_all add: free_sound_slot_def sound_at_def put_sound_def free_chunk_def loaded_def starts_def rest_def
        S3E_CHANNEL_END_SAMPLE_def S3E_CHANNEL_GEN_AUDIO_def)
  define q where "q = (if r = 0 then 0 else r - 1)"
  have q: "(if 0 < sint q then of_int (sint q) else 0) = q" "r = 0 \<or> 0 < sint q"
    using r by (auto simp: q_def)
  obtain res st' where p: "play_sound_channel run os i d n q l True ?f = (res, st')" by fastforce
  note P = play_sound_works[OF w i(1) f(2) f(1) cb(2) d(1,3) bs, of run q, unfolded p Let_def split_conv]
  have reps: "(if ss_reps_remaining (sound_at st i) > 0 then ss_reps_remaining (sound_at st i) - 1
      else ss_reps_remaining (sound_at st i)) = q"
    using s by (auto simp: q_def word_neq_0_conv)
  have "service_sound run os i st = st'"
    unfolding service_sound_def Let_def reps
    using s cb q d P p by (cases "0 < sint q") (simp_all add: restart_sound_def)
  with P f show ?thesis by (intro exI[of _ "au_next_chunk ?f"]) (simp add: Let_def q_def)
qed

text \<open>One end of the sound, in both cases.\<close>

lemma marked_slots:
  assumes "sounding i d n r l st"
  shows "sound_at ((mixer_channel_finished (int i) st)\<lparr>g_audio_pumping := p, au_clock := c\<rparr>) i = (sound_at st i)\<lparr>ss_finished := True\<rparr>"
    and "j \<noteq> i \<Longrightarrow> sound_at ((mixer_channel_finished (int i) st)\<lparr>g_audio_pumping := p, au_clock := c\<rparr>) j = sound_at st j"
    and "length (g_sound_slots ((mixer_channel_finished (int i) st)\<lparr>g_audio_pumping := p, au_clock := c\<rparr>)) = SOUND_CHANNELS"
    and "starts i ((mixer_channel_finished (int i) st)\<lparr>g_audio_pumping := p, au_clock := c\<rparr>) = starts i st"
  using assms by (simp_all add: sounding_def mixer_channel_finished_def sound_channel_valid_def put_sound_def sound_at_def starts_def)

lemma marked_rest:
  assumes "sounding i d n r l st"
  shows "rest ((mixer_channel_finished (int i) st)\<lparr>g_audio_pumping := p, au_clock := c\<rparr>) = rest st"
  using assms by (simp add: sounding_def mixer_channel_finished_def sound_channel_valid_def put_sound_def rest_def)

lemma finish_step:
  assumes w: "mixer_works os" and S: "sounding i d n r l st" and d: "d \<noteq> 0" "n \<noteq> 0" "l < n"
    and bs: "loop_image os d n l = Some bs" and r: "r = 0 \<or> 0 < sint (r - 1)"
  shows "let st' = finish_sound run os i st; r' = (if r = 0 then 0 else r - 1) in
    sounding i d n r' l st' \<and> starts i st' = Suc (starts i st) \<and> au_chunks st' (the (ss_chunk (sound_at st' i))) = Some bs"
proof -
  let ?m = "\<lambda>c. (mixer_channel_finished (int i) st)\<lparr>g_audio_pumping := True, au_clock := c\<rparr>"
  let ?r = "if r = 0 then 0 else r - 1"
  obtain k0 where s: "ss_chunk (sound_at st i) = Some k0" "\<forall>k < 4. scb_function (ss_callbacks (sound_at st i) ! k) = 0"
    "ss_source_data (sound_at st i) = d" "ss_source_samples (sound_at st i) = n" "ss_reps_remaining (sound_at st i) = r"
    "ss_loop_index (sound_at st i) = l" and i: "i < SOUND_CHANNELS"
    using S by (auto simp: sounding_def Let_def)
  have step: "\<exists>c. let st' = service_sound run os i (?m t) in
      g_sound_slots st' = (g_sound_slots (?m t))[i := loaded c d n ?r l (sound_at (?m t) i)] \<and>
      au_chunks st' c = Some bs \<and> starts i st' = Suc (starts i (?m t)) \<and> rest st' = rest (?m t)" for t
    by (rule service_restart[OF w i marked_slots(3)[OF S] _ _ _ _ _ _ _ d bs r])
      (unfold marked_slots(1)[OF S], simp_all add: s)
  have others: "sound_at (service_sound run os i (?m t)) j = sound_at st j" if "j \<noteq> i" for t j
    using step[of t] that marked_slots(2)[OF S that, where p = True and c = t] by (auto simp: Let_def sound_at_def)
  have "\<not> ss_finished (sound_at (service_sound run os i (?m t)) j)" if "j < SOUND_CHANNELS" "j \<noteq> i" for t j
    using S that others[of j t] by (simp add: sounding_def)
  from finish_only[OF w S this] obtain t t' where
    fin: "finish_sound run os i st = (service_sound run os i (?m t))\<lparr>au_clock := t', g_audio_pumping := False\<rparr>" by blast
  from step[of t] obtain c where c: "g_sound_slots (service_sound run os i (?m t)) =
      (g_sound_slots (?m t))[i := loaded c d n ?r l (sound_at (?m t) i)]"
    "au_chunks (service_sound run os i (?m t)) c = Some bs" "starts i (service_sound run os i (?m t)) = Suc (starts i st)"
    "rest (service_sound run os i (?m t)) = rest st"
    using marked_slots(4)[OF S] marked_rest[OF S] by (auto simp: Let_def)
  let ?st' = "finish_sound run os i st"
  have here: "sound_at ?st' i = loaded c d n ?r l ((sound_at st i)\<lparr>ss_finished := True\<rparr>)"
    and len: "length (g_sound_slots ?st') = SOUND_CHANNELS"
    using c(1) marked_slots(3)[OF S, where p = True and c = t] i marked_slots(1)[OF S, where p = True and c = t]
    by (simp_all add: fin sound_at_def)
  have there: "sound_at ?st' j = sound_at st j" if "j \<noteq> i" for j
    using others[OF that, of t] by (simp add: fin sound_at_def)
  have "g_audio_ready ?st'" "au_mixer_symbols ?st'" "g_audio_slots ?st' = g_audio_slots st" "\<not> g_audio_pumping ?st'"
    using S c(4) by (simp_all add: fin sounding_def rest_def)
  with S here len there s(2) have "sounding i d n ?r l ?st'"
    by (simp add: sounding_def loaded_def stream_at_def Let_def)
  moreover have "starts i ?st' = Suc (starts i st)" using c(3) by (simp add: fin starts_def)
  moreover have "au_chunks ?st' (the (ss_chunk (sound_at ?st' i))) = Some bs" using c(2) here by (simp add: fin loaded_def)
  ultimately show ?thesis by (simp add: Let_def)
qed

lemma sint_small: "unat x < 2147483648 \<Longrightarrow> sint x = int (unat x)" for x :: u32
proof -
  assume a: "unat x < 2147483648"
  have u: "uint x = int (unat x)" by simp
  have "uint x < 2147483648" unfolding u using a by linarith
  then have "signed_take_bit 31 (uint x) = uint x" by (intro signed_take_bit_int_eq_self) (simp_all add: order_trans[OF _ uint_ge_0])
  then have "sint x = uint x" by (simp add: sint_uint)
  from trans[OF this u] show "sint x = int (unat x)" .
qed

lemma finish_last:
  assumes w: "mixer_works os" and S: "sounding i d n 1 l st"
  shows "ss_chunk (sound_at (finish_sound run os i st) i) = None \<and> starts i (finish_sound run os i st) = starts i st"
proof -
  let ?m = "\<lambda>c. (mixer_channel_finished (int i) st)\<lparr>g_audio_pumping := True, au_clock := c\<rparr>"
  have s: "ss_chunk (sound_at st i) \<noteq> None" "\<forall>k < 4. scb_function (ss_callbacks (sound_at st i) ! k) = 0"
    "ss_reps_remaining (sound_at st i) = 1" and i: "i < SOUND_CHANNELS"
    using S by (auto simp: sounding_def Let_def)
  have step: "g_sound_slots (service_sound run os i (?m t)) = (g_sound_slots (?m t))[i := silent (sound_at (?m t) i)] \<and>
      au_log (service_sound run os i (?m t)) = au_log (?m t) \<and> rest (service_sound run os i (?m t)) = rest (?m t)" for t
    by (rule service_last[OF i marked_slots(3)[OF S]]) (unfold marked_slots(1)[OF S], simp_all add: s)
  have others: "sound_at (service_sound run os i (?m t)) j = sound_at st j" if "j \<noteq> i" for t j
    using step[of t] that marked_slots(2)[OF S that, where p = True and c = t] by (auto simp: sound_at_def)
  have "\<not> ss_finished (sound_at (service_sound run os i (?m t)) j)" if "j < SOUND_CHANNELS" "j \<noteq> i" for t j
    using S that others[of j t] by (simp add: sounding_def)
  from finish_only[OF w S this] obtain t t' where
    fin: "finish_sound run os i st = (service_sound run os i (?m t))\<lparr>au_clock := t', g_audio_pumping := False\<rparr>" by blast
  show ?thesis using step[of t] marked_slots(3,4)[OF S, where p = True and c = t] i
    by (simp add: fin sound_at_def silent_def starts_def)
qed

text \<open>C19: on a mixer that works, a sound without callbacks that was started to play \<open>r\<close> times plays exactly \<open>r\<close>
  times: it is started again at each of its first \<open>r - 1\<close> ends, from its loop index on, and is silent after the
  last one. Other channels are not disturbed.\<close>

theorem sound_plays_as_often_as_asked:
  assumes "mixer_works os" and "sounding i d n r l st" and "d \<noteq> 0" and "l < n" and "loop_image os d n l = Some bs"
    and "0 < r" and "unat r \<le> 2147483648" and "0 < k" and "k \<le> unat r"
  shows "let st' = (finish_sound run os i ^^ k) st in
    (if k < unat r then sounding i d n (r - of_nat k) l st' \<and> au_chunks st' (the (ss_chunk (sound_at st' i))) = Some bs \<and>
       starts i st' = starts i st + k
     else ss_chunk (sound_at st' i) = None \<and> starts i st' = starts i st + (k - 1))"
proof -
  have n: "n \<noteq> 0" using assms(4) by auto
  have more: "sounding i d n (r - of_nat k) l ((finish_sound run os i ^^ k) st) \<and>
      (0 < k \<longrightarrow> au_chunks ((finish_sound run os i ^^ k) st) (the (ss_chunk (sound_at ((finish_sound run os i ^^ k) st) i))) = Some bs) \<and>
      starts i ((finish_sound run os i ^^ k) st) = starts i st + k" if "k < unat r" for k
    using that
  proof (induction k)
    case 0
    with assms(2) show ?case by simp
  next
    case (Suc k)
    let ?st = "(finish_sound run os i ^^ k) st" and ?r = "r - of_nat k"
    have ok: "unat (of_nat k :: u32) = k"
      using Suc.prems unat_u32[of r] by (simp add: unat_of_nat take_bit_eq_mod)
    with Suc.prems have rk: "unat ?r = unat r - k" by (simp add: unat_sub word_le_nat_alt)
    have "?r \<noteq> 0" using rk Suc.prems by auto
    moreover have u: "unat (?r - 1) = unat r - k - 1" using rk \<open>?r \<noteq> 0\<close> by (simp add: unat_minus_one)
    have "0 < sint (?r - 1)"
      using u Suc.prems assms(7) sint_small[of "?r - 1"] by linarith
    ultimately have "sounding i d n (?r - 1) l (finish_sound run os i ?st) \<and> starts i (finish_sound run os i ?st) = Suc (starts i ?st) \<and>
        au_chunks (finish_sound run os i ?st) (the (ss_chunk (sound_at (finish_sound run os i ?st) i))) = Some bs"
      using finish_step[OF assms(1), of i d n ?r l ?st bs run] Suc assms(3,4,5) n by (simp add: Let_def)
    moreover have "?r - 1 = r - of_nat (Suc k)" by simp
    ultimately show ?case using Suc by simp
  qed
  show ?thesis
  proof (cases "k < unat r")
    case True
    with more[of k] assms(8) show ?thesis by (simp add: Let_def)
  next
    case False
    with assms(9) have k: "k = unat r" by simp
    obtain m where m: "k = Suc m" using assms(8) by (metis Suc_pred)
    have "of_nat (unat r) = r" by simp
    then have "r - of_nat m = 1" unfolding k[symmetric] m by (simp add: algebra_simps)
    with more[of m] m k have "sounding i d n 1 l ((finish_sound run os i ^^ m) st)" "starts i ((finish_sound run os i ^^ m) st) = starts i st + m"
      by simp_all
    with finish_last[OF assms(1) this(1), of run] False m show ?thesis by (simp add: Let_def)
  qed
qed

definition sample_aud_os :: aud_os where
  "sample_aud_os = \<lparr>mx_libraries = \<lambda>_. True, mx_symbols = \<lambda>_. True, mx_subsystem = \<lambda>_. True, mx_mp3 = \<lambda>_. True,
     mx_open = \<lambda>_. True, mx_channels = \<lambda>_. True, mx_playing = \<lambda>_ _. True, mx_paused = \<lambda>_ _. False,
     mx_was_playing = \<lambda>_ _. False, mx_plays = \<lambda>_. True, mx_rw = \<lambda>_. True, mx_loads = \<lambda>_. True,
     mx_alloc = \<lambda>_. True, mx_has_postmix = True, mx_query_spec = \<lambda>_. None, mx_has_capture = True,
     mx_open_capture = \<lambda>_. None, au_memory = \<lambda>_ k. of_nat k, au_bytes = \<lambda>_ _. 0, os_root = [],
     os_readable = \<lambda>_. False, os_open_size = \<lambda>_. None, os_read = \<lambda>_ _ _. None\<rparr>"

definition sample_guest :: aud_guest where
  "sample_guest = \<lparr>ag_calls = \<lambda>_ _. [],
     ag_reply = \<lambda>_ _. \<lparr>rp_result = 0, rp_info = no_info, rp_end_sample = True, rp_samples = \<lambda>_. 0\<rparr>\<rparr>"

text \<open>Two samples from address 1 on channel 0, three times, looping at the second sample.\<close>

definition sample_sounding :: aud_state where
  "sample_sounding = aud_initial\<lparr>g_audio_tried := True, g_audio_ready := True, au_mixer_symbols := True,
     g_sound_slots := (g_sound_slots aud_initial)[0 := loaded 0 1 2 3 1 zero_sound],
     au_chunks := [0 \<mapsto> []], au_next_chunk := 1\<rparr>"

lemma sound_plays_as_often_as_asked_witness:
  "let run = run_callback 0 sample_aud_os sample_guest; st' = (finish_sound run sample_aud_os 0 ^^ 3) sample_sounding in
   ss_chunk (sound_at st' 0) = None \<and> starts 0 st' = starts 0 sample_sounding + 2"
proof -
  have w: "mixer_works sample_aud_os" by (simp add: mixer_works_def sample_aud_os_def)
  have "ss_callbacks zero_sound ! k = no_callback" if "k < 4" for k
    using that by (simp add: zero_sound_def S3E_CHANNEL_CALLBACK_COUNT_def)
  then have S: "sounding 0 1 2 3 1 sample_sounding"
    by (auto simp: sounding_def sample_sounding_def aud_initial_def sound_at_def stream_at_def nth_list_update
        SOUND_CHANNELS_def AUDIO_CHANNELS_def loaded_def zero_sound_def zero_stream_def no_callback_def Let_def)
  have bs: "loop_image sample_aud_os 1 2 1 = Some (the (loop_image sample_aud_os 1 2 1))"
    by (simp add: loop_image_def create_pcm16_mono_wav_def Let_def WAV_HEADER_BYTES_def)
  from sound_plays_as_often_as_asked[OF w S _ _ bs, of 3 "run_callback 0 sample_aud_os sample_guest"]
  show ?thesis by (simp add: Let_def)
qed

section \<open>Interrupting a stream from its own stop callback\<close>

text \<open>
  \<open>play_audio_buffer\<close> runs the stop callback of the stream it interrupts before it loads its own chunk, and then
  overwrites the slot. A callback that starts the next stream on the channel therefore loses that stream's
  chunk: it stays allocated, and no slot holds it any more.
\<close>

lemma play_buffer_works:
  assumes w: "mixer_works os" and n: "n \<noteq> 0" "unat n \<le> 2147483647"
  shows "let s2 = stop_audio_channel run os (g_audio_channel st) True (st\<lparr>au_clock := Suc (au_clock st)\<rparr>); st' = snd (play_audio_buffer run os (Some bs) n r st) in
    au_chunks st' = (au_chunks s2)(au_next_chunk s2 \<mapsto> bs) \<and> au_next_chunk st' = Suc (au_next_chunk s2) \<and>
    g_audio_slots st' = (g_audio_slots s2)[g_audio_channel st := (g_audio_slots s2 ! g_audio_channel st)
      \<lparr>as_chunk := Some (au_next_chunk s2), as_finished := False, as_paused := False\<rparr>] \<and> g_sound_slots st' = g_sound_slots s2"
  using n
  by (simp add: play_audio_buffer_def ask_works[OF w] load_works[OF w] play_works[OF w] Let_def put_stream_def stream_at_def log_def)

lemma stop_idle: "as_chunk (stream_at st i) = None \<Longrightarrow> i < AUDIO_CHANNELS \<Longrightarrow> stop_audio_channel run os i b st =
   put_stream i (\<lambda>s. s\<lparr>as_chunk := None, as_finished := False, as_paused := False\<rparr>) st"
  by (simp add: stop_audio_channel_def free_audio_slot_def)

theorem interrupted_stream_leaks_chunk:
  assumes w: "mixer_works os" and n: "n \<noteq> 0" "unat n \<le> 2147483647"
    and st: "g_audio_ready st" "au_mixer_symbols st" "g_audio_channel st = 0" "length (g_audio_slots st) = AUDIO_CHANNELS"
      "as_chunk (stream_at st 0) = Some c" "au_chunks st c \<noteq> None"
      "scb_function (g_audio_callbacks st ! S3E_AUDIO_STOP) \<noteq> 0"
    and callback: "\<And>ev st. snd (run ev st) = snd (play_audio_buffer run' os (Some bs) n r st)"
  shows "let st' = snd (play_audio_buffer run os (Some bs') n r st) in
    au_chunks st' (au_next_chunk st) = Some bs \<and>
    as_chunk (stream_at st' 0) = Some (Suc (au_next_chunk st))"
proof -
  define s1 where "s1 = st\<lparr>au_clock := Suc (au_clock st)\<rparr>"
  define s2 where "s2 = free_audio_slot 0 (halt_channel os (audio_mixer_channel 0) s1)"
  define ev where "ev = Stream_stopped (scb_function (g_audio_callbacks st ! S3E_AUDIO_STOP)) (scb_user_data (g_audio_callbacks st ! S3E_AUDIO_STOP)) 0"
  have h: "halt_channel os (audio_mixer_channel 0) s1 = s1\<lparr>au_log := Mix_Halt (audio_mixer_channel 0) # au_log s1, au_clock := Suc (au_clock s1)\<rparr>"
    by (rule halt_works[OF w])
  have s2: "g_audio_callbacks s2 = g_audio_callbacks st" "g_audio_channel s2 = 0" "au_next_chunk s2 = au_next_chunk st"
    "length (g_audio_slots s2) = AUDIO_CHANNELS" "as_chunk (g_audio_slots s2 ! 0) = None"
    using st unfolding s2_def h by (simp_all add: s1_def free_audio_slot_def stream_at_def put_stream_def free_chunk_def AUDIO_CHANNELS_def)
  have "stop_audio_channel run os 0 True s1 = snd (run ev (log (Callback ev) s2))"
    using st s2 by (simp add: stop_audio_channel_def s1_def s2_def[symmetric] stream_at_def notify_audio_stopped_def
        invoke_callback_def ev_def Let_def s2_def[unfolded s1_def, symmetric])
  then have stop: "stop_audio_channel run os 0 True s1 = snd (play_audio_buffer run' os (Some bs) n r (log (Callback ev) s2))"
    by (simp add: callback)
  let ?s3 = "(log (Callback ev) s2)\<lparr>au_clock := Suc (au_clock (log (Callback ev) s2))\<rparr>"
  have "stop_audio_channel run' os 0 True ?s3 = put_stream 0 (\<lambda>s. s\<lparr>as_chunk := None, as_finished := False, as_paused := False\<rparr>) ?s3"
    using s2 by (intro stop_idle) (simp_all add: stream_at_def log_def AUDIO_CHANNELS_def)
  with play_buffer_works[OF w n, where run = run' and bs = bs and r = r and st = "log (Callback ev) s2"] s2
  have inner: "au_chunks (stop_audio_channel run os 0 True s1) = (au_chunks s2)(au_next_chunk st \<mapsto> bs)"
    "au_next_chunk (stop_audio_channel run os 0 True s1) = Suc (au_next_chunk st)"
    "length (g_audio_slots (stop_audio_channel run os 0 True s1)) = AUDIO_CHANNELS"
    by (simp_all add: stop log_def put_stream_def Let_def)
  show ?thesis
    using play_buffer_works[OF w n, where run = run and bs = bs' and r = r and st = st] st(3) inner
    by (simp add: Let_def s1_def stream_at_def AUDIO_CHANNELS_def)
qed

end
