(* ===== verification/Config.thy ===== *)
theory Config
  imports Prelude
begin

text \<open>
  The configuration of \<open>src/s3e_config.c\<close>: the text functions, the control file \<open>config.txt\<close>, the
  table of sections, keys and values with its case-insensitive lookup, the conditions and integer
  references of the configuration text in the guest image, and the queries of the guest.

  A C string is the list of its bytes, so the code's edits in place are functions of it. The
  files (\<open>fopen\<close>, \<open>access\<close>) and the allocator are fields of \<open>cfg_env\<close>. \<open>strtol\<close> is modelled for the
  C locale and a 32-bit \<open>long\<close>.
\<close>

section \<open>Text\<close>

definition c_isspace :: "u8 \<Rightarrow> bool" where
  "c_isspace c \<longleftrightarrow> c = 32 \<or> (9 \<le> c \<and> c \<le> 13)"

definition trim :: "cstring \<Rightarrow> cstring" where
  "trim s = rev (dropWhile c_isspace (rev (dropWhile c_isspace s)))"

fun strip_comment_loop :: "bool \<Rightarrow> cstring \<Rightarrow> cstring" where
  "strip_comment_loop in_quote [] = []"
| "strip_comment_loop in_quote (c # cs) =
     (if c = 34 then c # strip_comment_loop (\<not> in_quote) cs
      else if c = 35 \<and> \<not> in_quote then []
      else c # strip_comment_loop in_quote cs)"

definition strip_comment :: "cstring \<Rightarrow> cstring" where
  "strip_comment line = strip_comment_loop False line"

definition strip_quotes :: "cstring \<Rightarrow> cstring" where
  "strip_quotes v = (if length v \<ge> 2 \<and> hd v = 34 \<and> last v = 34 then butlast (tl v) else v)"

text \<open>\<open>strchr\<close> followed by a zero written there: what is before and what is after the character.\<close>

definition cut_at :: "u8 \<Rightarrow> cstring \<Rightarrow> (cstring \<times> cstring) option" where
  "cut_at c s = map_option (\<lambda>i. (take i s, drop (Suc i) s)) (find_idx (\<lambda>b. b = c) s)"

definition strncaseeq :: "nat \<Rightarrow> cstring \<Rightarrow> cstring \<Rightarrow> bool" where
  "strncaseeq n a b = strcaseeq (take n a) (take n b)"

fun strstr :: "cstring \<Rightarrow> cstring \<Rightarrow> nat option" where
  "strstr needle [] = (if needle = [] then Some 0 else None)"
| "strstr needle (c # cs) = (if take (length needle) (c # cs) = needle then Some 0
     else map_option Suc (strstr needle cs))"

section \<open>\<open>strtol\<close>\<close>

definition digit_value :: "u8 \<Rightarrow> nat" where
  "digit_value c = (if 48 \<le> c \<and> c \<le> 57 then unat c - 48
     else if 97 \<le> c \<and> c \<le> 122 then unat c - 87
     else if 65 \<le> c \<and> c \<le> 90 then unat c - 55 else 99)"

definition LONG_MAX :: int where "LONG_MAX = 2 ^ 31 - 1"

text \<open>
  The value, the text behind it and whether it was out of range; \<open>None\<close> when there is no number
  (\<open>end == text\<close>). In base 0 a prefix \<open>0x\<close> before a hexadecimal digit or a leading \<open>0\<close> chooses the base.
\<close>

definition strtol :: "nat \<Rightarrow> cstring \<Rightarrow> (int \<times> cstring \<times> bool) option" where
  "strtol base s =
     (let t = dropWhile c_isspace s;
          neg = (t \<noteq> [] \<and> hd t = 45);
          u = (if t \<noteq> [] \<and> (hd t = 45 \<or> hd t = 43) then tl t else t);
          (b, v) = (if base \<noteq> 0 then (base, u)
                    else if length u \<ge> 3 \<and> u ! 0 = 48 \<and> (u ! 1 = 120 \<or> u ! 1 = 88) \<and> digit_value (u ! 2) < 16
                      then (16, drop 2 u)
                    else if u \<noteq> [] \<and> hd u = 48 then (8, u) else (10, u));
          ds = takeWhile (\<lambda>c. digit_value c < b) v;
          n = foldl (\<lambda>acc c. acc * int b + int (digit_value c)) 0 ds;
          x = (if neg then - n else n)
      in if ds = [] then None
         else Some (clamp (- LONG_MAX - 1) LONG_MAX x, drop (length ds) v, x < - LONG_MAX - 1 \<or> x > LONG_MAX))"

section \<open>State\<close>

record s3e_config_entry =
  ce_section :: cstring
  ce_key :: cstring
  ce_value :: cstring

definition S3E_CONFIG_MAX_ENTRIES :: nat where "S3E_CONFIG_MAX_ENTRIES = 512"

text \<open>The file's static variables; the list is the first \<open>g_config_entry_count\<close> entries.\<close>

record config_state =
  g_config_entries :: "s3e_config_entry list"
  g_multiplayer_server :: cstring
  g_multiplayer_proxy :: bool
  g_voice_chat :: bool
  g_player_name :: cstring

text \<open>\<open>cv_open\<close> is the contents of a file, \<open>cv_access\<close> whether it exists, \<open>cv_malloc\<close> the allocator.\<close>

record cfg_env =
  cv_root :: cstring
  cv_open :: "cstring \<Rightarrow> u8 list option"
  cv_access :: "cstring \<Rightarrow> bool"
  cv_malloc :: "nat \<Rightarrow> bool"

section \<open>The control file\<close>

definition parse_flag :: "cstring \<Rightarrow> bool \<Rightarrow> bool" where
  "parse_flag v out =
     (if v = [] then out
      else case strtol 10 v of
        None \<Rightarrow> out
      | Some (parsed, rest, erange) \<Rightarrow> if erange \<or> rest \<noteq> [] then out else parsed \<noteq> 0)"

definition name_char :: "u8 \<Rightarrow> bool" where
  "name_char c \<longleftrightarrow>
     (let letter = (65 \<le> c \<and> c \<le> 90) \<or> (97 \<le> c \<and> c \<le> 122); digit = 48 \<le> c \<and> c \<le> 57
      in \<not> (\<not> letter \<and> \<not> digit \<and> c \<noteq> 32 \<and> c \<noteq> 45 \<and> c \<noteq> 95 \<and> c \<noteq> 46))"

definition valid_player_name :: "cstring \<Rightarrow> bool" where
  "valid_player_name v \<longleftrightarrow> \<not> (length v = 0 \<or> length v \<ge> 14) \<and> list_all name_char v"

text \<open>\<open>fgets\<close> into a buffer of 512 bytes until the end of the file.\<close>

definition fgets_take :: "u8 list \<Rightarrow> u8 list" where
  "fgets_take s = (let c = take 511 s in case find_idx (\<lambda>b. b = 10) c of None \<Rightarrow> c | Some i \<Rightarrow> take (Suc i) c)"

lemma fgets_take_Cons: "0 < length (fgets_take (b # bs))"
  by (auto simp: fgets_take_def Let_def split: option.splits)

function fgets_lines :: "u8 list \<Rightarrow> u8 list list" where
  "fgets_lines s = (if s = [] then [] else fgets_take s # fgets_lines (drop (length (fgets_take s)) s))"
  by pat_completeness auto
termination
proof (relation "measure length")
  fix s :: "u8 list"
  assume "s \<noteq> []"
  then show "(drop (length (fgets_take s)) s, s) \<in> measure length"
    using diff_less[OF fgets_take_Cons, of "length s" "hd s" "tl s"] by (cases s) auto
qed simp

declare fgets_lines.simps [simp del]

definition set_control :: "cstring \<Rightarrow> cstring \<Rightarrow> config_state \<Rightarrow> config_state" where
  "set_control key v st =
     (if key = bytes_of ''multiplayer_server'' then st\<lparr>g_multiplayer_server := snprintf 128 v\<rparr>
      else if key = bytes_of ''multiplayer_proxy'' then
        st\<lparr>g_multiplayer_proxy := parse_flag v (g_multiplayer_proxy st)\<rparr>
      else if key = bytes_of ''voice_chat'' then st\<lparr>g_voice_chat := parse_flag v (g_voice_chat st)\<rparr>
      else if key = bytes_of ''player_name'' \<and> valid_player_name v then st\<lparr>g_player_name := snprintf 14 v\<rparr>
      else st)"

definition control_line :: "u8 list \<Rightarrow> config_state \<Rightarrow> config_state" where
  "control_line line st =
     (let clean = trim (strip_comment (takeWhile (\<lambda>c. c \<noteq> 13 \<and> c \<noteq> 10) (cstr line))) in
      if clean = [] then st
      else case cut_at 61 clean of
        None \<Rightarrow> st
      | Some (k, v) \<Rightarrow> set_control (trim k) (strip_quotes (trim v)) st)"

definition load_control_config :: "cfg_env \<Rightarrow> config_state \<Rightarrow> config_state" where
  "load_control_config E st =
     (let st = st\<lparr>g_multiplayer_server := [], g_multiplayer_proxy := False, g_voice_chat := False,
                  g_player_name := snprintf 14 (bytes_of ''Player'')\<rparr>;
          path = snprintf 1200 (cv_root E @ bytes_of ''/config.txt'')
      in case cv_open E path of
        None \<Rightarrow> st
      | Some file \<Rightarrow> fold control_line (fgets_lines file) st)"

definition s3e_host_player_name :: "config_state \<Rightarrow> cstring" where
  "s3e_host_player_name st = g_player_name st"

definition multiplayer_server_enabled :: "config_state \<Rightarrow> bool" where
  "multiplayer_server_enabled st \<longleftrightarrow> g_multiplayer_server st \<noteq> [] \<and> \<not> g_multiplayer_proxy st"

definition s3e_multiplayer_resolve_hostname :: "cstring option \<Rightarrow> config_state \<Rightarrow> cstring option" where
  "s3e_multiplayer_resolve_hostname hostname st =
     (case hostname of
        None \<Rightarrow> hostname
      | Some h \<Rightarrow>
        if \<not> multiplayer_server_enabled st then hostname
        else let suffix = bytes_of ''.demonware.net'' in
          if length h \<ge> length suffix \<and> strcaseeq (drop (length h - length suffix) h) suffix
          then Some (g_multiplayer_server st) else hostname)"

section \<open>The table\<close>

definition config_find :: "s3e_config_entry list \<Rightarrow> cstring \<Rightarrow> cstring \<Rightarrow> nat option" where
  "config_find es section key = find_idx (\<lambda>e. strcaseeq (ce_section e) section \<and> strcaseeq (ce_key e) key) es"

definition config_get :: "s3e_config_entry list \<Rightarrow> cstring option \<Rightarrow> cstring option \<Rightarrow> cstring option" where
  "config_get es section key =
     (case (section, key) of
        (Some sec, Some k) \<Rightarrow> map_option (\<lambda>i. ce_value (es ! i)) (config_find es sec k)
      | _ \<Rightarrow> None)"

definition config_set :: "cstring option \<Rightarrow> cstring option \<Rightarrow> cstring option \<Rightarrow> s3e_config_entry list \<Rightarrow> s3e_config_entry list" where
  "config_set section key v es =
     (case (section, key) of
        (Some sec, Some k) \<Rightarrow>
          if sec = [] \<or> k = [] then es
          else let e = \<lparr>ce_section = snprintf 64 sec, ce_key = snprintf 96 k,
                        ce_value = snprintf 256 (case v of None \<Rightarrow> [] | Some t \<Rightarrow> t)\<rparr>
            in (case config_find es sec k of
                  Some i \<Rightarrow> es[i := e]
                | None \<Rightarrow> if length es \<ge> S3E_CONFIG_MAX_ENTRIES then es else es @ [e])
      | _ \<Rightarrow> es)"

section \<open>Conditions\<close>

definition contains_case_insensitive :: "cstring \<Rightarrow> cstring \<Rightarrow> bool" where
  "contains_case_insensitive t needle \<longleftrightarrow>
     needle = [] \<or> list_ex (\<lambda>i. strncaseeq (length needle) (drop i t) needle) [0..<length t]"

definition config_platform_matches :: "cstring \<Rightarrow> bool" where
  "config_platform_matches v \<longleftrightarrow>
     contains_case_insensitive v (bytes_of ''ANY'') \<or> contains_case_insensitive v (bytes_of ''ANDROID'')"

definition config_id_matches :: "cstring \<Rightarrow> bool" where
  "config_id_matches v =
     (if contains_case_insensitive v (bytes_of ''ANY'') then True
      else if \<not> config_platform_matches v then False
      else if 34 \<notin> set v then True
      else contains_case_insensitive v (bytes_of ''R800i'') \<or>
           contains_case_insensitive v (bytes_of ''Sony Ericsson Xperia Play''))"

definition config_condition_matches :: "s3e_config_entry list \<Rightarrow> cstring option \<Rightarrow> bool" where
  "config_condition_matches es condition =
     (let expr = trim (snprintf 256 (case condition of None \<Rightarrow> [] | Some c \<Rightarrow> c)) in
      if expr = [] then True
      else if strncaseeq 3 expr (bytes_of ''OS='') then config_platform_matches (drop 3 expr)
      else if strncaseeq 3 expr (bytes_of ''ID='') \<or> strncaseeq 6 expr (bytes_of ''CLASS='') then
        (case cut_at 61 expr of None \<Rightarrow> False | Some (k, v) \<Rightarrow> config_id_matches (trim v))
      else if hd expr = 91 then
        (case (find_idx (\<lambda>c. c = 93) expr, strstr (bytes_of ''=='') expr) of
           (Some section_end, Some equals) \<Rightarrow>
             if equals \<le> section_end then False
             else let section = trim (drop 1 (take section_end expr));
                      key = trim (drop (section_end + 1) (take equals expr));
                      v = strip_quotes (trim (drop (equals + 2) expr))
               in (case config_get es (Some section) (Some key) of
                     None \<Rightarrow> False
                   | Some current \<Rightarrow> strcaseeq current v)
         | _ \<Rightarrow> False)
      else False)"

section \<open>Integers and references\<close>

text \<open>
  A value \<open>[section]key+n\<close> is the value of that key, plus or minus a number. \<open>split_operator\<close> splits the key at
  the operator: the key, the operator and what follows it.
\<close>

definition split_operator :: "cstring \<Rightarrow> cstring \<times> (u8 \<times> cstring) option" where
  "split_operator key =
     (case find_idx (\<lambda>c. c = 43 \<or> c = 45) key of
        None \<Rightarrow> (key, None)
      | Some i \<Rightarrow> (take i key, Some (key ! i, drop (Suc i) key)))"

text \<open>The adjustment: \<open>None\<close> when a number is missing; \<open>int32_t\<close> arithmetic wraps.\<close>

definition parse_adjustment :: "(u8 \<times> cstring) option \<Rightarrow> (int \<Rightarrow> int) option" where
  "parse_adjustment opr =
     (case opr of
        None \<Rightarrow> Some (\<lambda>b. b)
      | Some (c, rest) \<Rightarrow>
        (case strtol 0 (trim rest) of
           None \<Rightarrow> None
         | Some (parsed, _, _) \<Rightarrow>
             Some (\<lambda>b. if c = 43 then i32 (b + i32 parsed) else if c = 45 then i32 (b - i32 parsed) else b)))"

function parse_config_int_value :: "s3e_config_entry list \<Rightarrow> cstring option \<Rightarrow> nat \<Rightarrow> int option" where
  "parse_config_int_value es v depth =
     (if v = None \<or> depth > 4 then None
      else let t = trim (snprintf 256 (the v)) in
        if t = [] then None
        else if hd t = 91 then
          (case cut_at 93 t of
             None \<Rightarrow> None
           | Some (a, b) \<Rightarrow>
             let section = trim (drop 1 a); (key, opr) = split_operator (trim b) in
             (case parse_adjustment opr of
                None \<Rightarrow> None
              | Some adjust \<Rightarrow>
                (case parse_config_int_value es (config_get es (Some section) (Some (trim key))) (depth + 1) of
                   None \<Rightarrow> None
                 | Some base \<Rightarrow> Some (adjust base))))
        else (case strtol 0 t of
                None \<Rightarrow> None
              | Some (parsed, _, _) \<Rightarrow> Some (i32 parsed)))"
  by pat_completeness auto
termination by (relation "measure (\<lambda>(es, v, depth). 5 - depth)") auto

declare parse_config_int_value.simps [simp del]

section \<open>The configuration of the image\<close>

definition root_asset_exists :: "cfg_env \<Rightarrow> string \<Rightarrow> bool" where
  "root_asset_exists E name = cv_access E (snprintf 1200 (cv_root E @ bytes_of ''/assets/'' @ bytes_of name))"

text \<open>\<open>strtok_r\<close> with a newline as its separator: the pieces that are not empty.\<close>

fun split_lines :: "cstring \<Rightarrow> cstring \<Rightarrow> cstring list" where
  "split_lines acc [] = [rev acc]"
| "split_lines acc (c # cs) = (if c = 10 then rev acc # split_lines [] cs else split_lines (c # acc) cs)"

definition strtok_lines :: "cstring \<Rightarrow> cstring list" where
  "strtok_lines t = filter (\<lambda>l. l \<noteq> []) (split_lines [] t)"

text \<open>The local variables \<open>section\<close> and \<open>active\<close> and the table, over one line.\<close>

type_synonym config_scan = "cstring \<times> bool \<times> s3e_config_entry list"

definition config_line :: "cstring \<Rightarrow> config_scan \<Rightarrow> config_scan" where
  "config_line line = (\<lambda>(section, active, es).
     let clean = trim (strip_comment (takeWhile (\<lambda>c. c \<noteq> 13) line)) in
     if clean = [] then (section, active, es)
     else if hd clean = 123 \<and> last clean = 125 then
       (section, config_condition_matches es (Some (drop 1 (butlast clean))), es)
     else if hd clean = 91 \<and> last clean = 93 then
       (snprintf 64 (trim (drop 1 (butlast clean))), active, es)
     else if \<not> active then (section, active, es)
     else case cut_at 61 clean of
       None \<Rightarrow> (section, active, es)
     | Some (k, v) \<Rightarrow>
         (section, active, config_set (Some section) (Some (trim k)) (Some (strip_quotes (trim v))) es))"

definition config_text :: "cstring \<Rightarrow> s3e_config_entry list" where
  "config_text t = snd (snd (fold config_line (strtok_lines t) ([], True, [])))"

text \<open>A list of calls \<open>config_set(section, key, value)\<close> with literals, in order.\<close>

definition config_set_all :: "(string \<times> string \<times> string) list \<Rightarrow> s3e_config_entry list \<Rightarrow> s3e_config_entry list" where
  "config_set_all xs = fold (\<lambda>(sec, k, v).
     config_set (Some (bytes_of sec)) (Some (bytes_of k)) (Some (bytes_of v))) xs"

definition online_overrides :: "config_state \<Rightarrow> (string \<times> string \<times> string) list" where
  "online_overrides st =
     (if multiplayer_server_enabled st then
        [(''GAME'', ''OnlineAccount'', ''GENERIC''), (''GAME'', ''GameVersion'', ''1.0.11'')]
      else
        [(''GAME'', ''OnlineAccount'', ''NONE''), (''GAME'', ''OnlineUseGameCenterMM'', ''0''),
         (''GAME'', ''MatchmakingSearchAndPublishMode'', ''0''), (''Demonware'', ''OnlineAccount'', ''NONE''),
         (''Demonware'', ''LSGServer'', []), (''Demonware'', ''AuthServer'', []),
         (''Demonware'', ''STUNServer'', []), (''ONLINE'', ''dispatcher'', [])])"

definition texture_style :: "cfg_env \<Rightarrow> string" where
  "texture_style E =
     (if root_asset_exists E ''blackops_etc.dz'' then ''etc''
      else if root_asset_exists E ''blackops_atitc.dz'' then ''atitc''
      else if root_asset_exists E ''blackops_dxt.dz'' then ''dxt'' else ''gles1'')"

definition config_overrides :: "cfg_env \<Rightarrow> config_state \<Rightarrow> (string \<times> string \<times> string) list" where
  "config_overrides E st =
     [(''GX'', ''NumTPages'', ''512''), (''GX'', ''NumTPagesNoMipMap'', ''256''),
      (''GX'', ''NumTPageFreeRects'', ''8192''), (''GX'', ''MaxTexturesPerTPage'', ''512''),
      (''GAME'', ''ResourceDownloader'', ''0''), (''GAME'', ''EnableGC'', ''0''),
      (''GAME'', ''EnableAndroidMarketBilling'', ''0''),
      (''GAME'', ''VoiceChatEnabled'', if g_voice_chat st then ''1'' else ''0''),
      (''GAME'', ''LowEndDevice'', ''0''), (''GAME'', ''LowMemoryDevice'', ''0''),
      (''GAME'', ''GuiBucketSize'', ''2500000''), (''GAME'', ''FrontendMemoryWarningLevel'', ''0'')] @
     online_overrides st @
     [(''FLASH'', ''FlashBucketSize'', ''32000000''), (''FLASH'', ''FlashBucketHeapAnalyse'', ''0''),
      (''RESMANAGER'', ''ResBuildStyle'', texture_style E)]"

text \<open>
  \<open>data\<close> is what lies in memory from the pointer on; copying \<open>size\<close> bytes of it is \<open>Fault\<close> when less is
  there. The text ends at the first zero byte.
\<close>

definition s3e_host_set_config :: "cfg_env \<Rightarrow> u8 list option \<Rightarrow> u32 \<Rightarrow> config_state \<Rightarrow> (unit, config_state) res" where
  "s3e_host_set_config E data n st =
     rbind (case data of
              None \<Rightarrow> Ok []
            | Some d \<Rightarrow>
              if n = 0 \<or> \<not> cv_malloc E (unat n + 1) then Ok []
              else rbind (bytes_at d 0 (unat n)) (\<lambda>t. Ok (config_text (cstr t)))) (\<lambda>es.
       let st = load_control_config E (st\<lparr>g_config_entries := es\<rparr>)
       in Ok (st\<lparr>g_config_entries := config_set_all (config_overrides E st) (g_config_entries st)\<rparr>))"

section \<open>Queries\<close>

text \<open>The status, and the new value behind the out pointer (\<open>None\<close>: unchanged).\<close>

definition s3eConfigGetInt :: "config_state \<Rightarrow> cstring option \<Rightarrow> cstring option \<Rightarrow> int \<times> int option" where
  "s3eConfigGetInt st section key =
     (let v = config_get (g_config_entries st) section key in
      case (if v = None then None else parse_config_int_value (g_config_entries st) v 0) of
        None \<Rightarrow> (1, None)
      | Some parsed \<Rightarrow> (0, Some parsed))"

definition s3eConfigGetString :: "config_state \<Rightarrow> cstring option \<Rightarrow> cstring option \<Rightarrow> bool \<Rightarrow> int \<times> cstring option" where
  "s3eConfigGetString st section key has_out =
     (case config_get (g_config_entries st) section key of
        None \<Rightarrow> (1, None)
      | Some v \<Rightarrow> if \<not> has_out then (1, None) else (0, Some v))"

end
