(* ===== verification/Config_Table.thy ===== *)
theory Config_Table
  imports Config
begin

text \<open>
  The configuration table as a finite map from section and key, without regard to case, to values.
  The locale \<open>keyed_table\<close> is the interface that the setting of many values in a row relies on;
  it is interpreted on \<open>config_set\<close>.
\<close>

section \<open>A table with a limit\<close>

locale keyed_table =
  fixes entries :: "'s \<Rightarrow> 'k \<Rightarrow> 'v option" and canon :: "'r \<Rightarrow> 'k" and put :: "'r \<Rightarrow> 'v \<Rightarrow> 's \<Rightarrow> 's"
    and fits :: "'r \<Rightarrow> 'v \<Rightarrow> bool" and room :: "'s \<Rightarrow> nat"
  assumes put_entries: "fits k v \<Longrightarrow> 0 < room s \<Longrightarrow> entries (put k v s) = (entries s)(canon k \<mapsto> v)"
    and put_room: "room s \<le> Suc (room (put k v s))"
begin

lemma put_all_entries:
  "\<forall>(k, v) \<in> set kvs. fits k v \<Longrightarrow> length kvs \<le> room s \<Longrightarrow>
    entries (fold (\<lambda>(k, v). put k v) kvs s) = entries s ++ map_of (rev (map (\<lambda>(k, v). (canon k, v)) kvs))"
proof (induction kvs arbitrary: s)
  case (Cons kv kvs)
  obtain k v where kv: "kv = (k, v)" by (cases kv)
  have "length kvs \<le> room (put k v s)" using Cons.prems(2) put_room[of s k v] by simp
  then have "entries (fold (\<lambda>(k, v). put k v) kvs (put k v s)) =
      entries (put k v s) ++ map_of (rev (map (\<lambda>(k, v). (canon k, v)) kvs))"
    using Cons.prems(1) by (intro Cons.IH) auto
  also have "entries (put k v s) = (entries s)(canon k \<mapsto> v)"
    using Cons.prems by (intro put_entries) (auto simp: kv)
  finally show ?case by (simp add: kv map_add_def fun_eq_iff split: option.splits)
qed simp

text \<open>Distinct keys: each of them has the value it was given, the others keep theirs.\<close>

lemma put_distinct:
  assumes "\<forall>(k, v) \<in> set kvs. fits k v" "length kvs \<le> room s" "distinct (map (\<lambda>(k, v). canon k) kvs)"
  shows "(k, v) \<in> set kvs \<Longrightarrow> entries (fold (\<lambda>(k, v). put k v) kvs s) (canon k) = Some v"
    and "c \<notin> (\<lambda>(k, v). canon k) ` set kvs \<Longrightarrow> entries (fold (\<lambda>(k, v). put k v) kvs s) c = entries s c"
proof -
  let ?l = "rev (map (\<lambda>(k, v). (canon k, v)) kvs)"
  have keys: "map fst ?l = rev (map (\<lambda>(k, v). canon k) kvs)" by (simp add: rev_map split_beta comp_def)
  then have d: "distinct (map fst ?l)" using assms(3) by simp
  note e = put_all_entries[OF assms(1,2)]
  show "entries (fold (\<lambda>(k, v). put k v) kvs s) (canon k) = Some v" if "(k, v) \<in> set kvs"
  proof -
    have "(canon k, v) \<in> set ?l" using that by force
    from map_of_is_SomeI[OF d this] show ?thesis by (simp add: e map_add_def)
  qed
  show "entries (fold (\<lambda>(k, v). put k v) kvs s) c = entries s c" if "c \<notin> (\<lambda>(k, v). canon k) ` set kvs"
  proof -
    have "c \<notin> set (map fst ?l)" unfolding keys using that by simp
    then have "map_of ?l c = None" by (simp add: map_of_eq_None_iff del: rev_map)
    then show ?thesis by (simp add: e map_add_def)
  qed
qed

end

section \<open>The map of a table\<close>

type_synonym config_key = "cstring \<times> cstring"

definition fold_case :: "cstring \<Rightarrow> cstring" where
  "fold_case s = map c_tolower s"

definition entry_key :: "s3e_config_entry \<Rightarrow> config_key" where
  "entry_key e = (fold_case (ce_section e), fold_case (ce_key e))"

definition config_map :: "s3e_config_entry list \<Rightarrow> config_key \<Rightarrow> cstring option" where
  "config_map es = map_of (map (\<lambda>e. (entry_key e, ce_value e)) es)"

lemma map_of_find_idx:
  "map_of (map (\<lambda>e. (f e, g e)) es) k = map_option (\<lambda>i. g (es ! i)) (find_idx (\<lambda>e. f e = k) es)"
  by (induction es) (auto split: option.splits simp: option.map_comp comp_def)

lemma config_find_key: "config_find es sec k = find_idx (\<lambda>e. entry_key e = (fold_case sec, fold_case k)) es"
  by (simp add: config_find_def entry_key_def strcaseeq_def fold_case_def)

lemma config_get_map: "config_get es (Some sec) (Some k) = config_map es (fold_case sec, fold_case k)"
  by (simp add: config_get_def config_map_def config_find_key map_of_find_idx)

lemma map_of_update_first:
  "find_idx (\<lambda>e. f e = k) es = Some i \<Longrightarrow> f e' = k \<Longrightarrow>
    map_of (map (\<lambda>e. (f e, g e)) (es[i := e'])) = (map_of (map (\<lambda>e. (f e, g e)) es))(k \<mapsto> g e')"
proof (induction es arbitrary: i)
  case (Cons e es)
  show ?case
  proof (cases "f e = k")
    case False
    with Cons.prems(1) obtain j where j: "i = Suc j" "find_idx (\<lambda>e. f e = k) es = Some j" by auto
    with Cons.IH[OF j(2) Cons.prems(2)] False show ?thesis by (auto simp: fun_eq_iff)
  qed (use Cons.prems in \<open>auto simp: fun_eq_iff\<close>)
qed simp

lemma map_of_append_new:
  "find_idx (\<lambda>e. f e = k) es = None \<Longrightarrow> f e' = k \<Longrightarrow>
    map_of (map (\<lambda>e. (f e, g e)) (es @ [e'])) = (map_of (map (\<lambda>e. (f e, g e)) es))(k \<mapsto> g e')"
proof -
  assume a: "find_idx (\<lambda>e. f e = k) es = None" "f e' = k"
  have "map_of (map (\<lambda>e. (f e, g e)) es) k = None" using a(1) by (simp only: map_of_find_idx option.map)
  then show ?thesis using a(2) by (auto simp: fun_eq_iff map_add_def split: option.splits)
qed

text \<open>Names that a table entry can hold.\<close>

definition names_fit :: "cstring \<Rightarrow> cstring \<Rightarrow> bool" where
  "names_fit sec k \<longleftrightarrow> sec \<noteq> [] \<and> length sec < 64 \<and> k \<noteq> [] \<and> length k < 96"

lemma config_set_length: "length es \<le> 512 \<Longrightarrow> length (config_set sec k v es) \<le> 512"
  by (auto simp: config_set_def Let_def S3E_CONFIG_MAX_ENTRIES_def split: option.splits)

lemma config_set_grows: "length (config_set sec k v es) \<le> Suc (length es)"
  by (auto simp: config_set_def Let_def split: option.splits)

lemma config_set_map:
  assumes "names_fit sec k" "length es < 512 \<or> config_map es (fold_case sec, fold_case k) \<noteq> None"
  shows "config_map (config_set (Some sec) (Some k) (Some v) es) =
    (config_map es)((fold_case sec, fold_case k) \<mapsto> take 255 v)"
proof -
  let ?e = "\<lparr>ce_section = sec, ce_key = k, ce_value = take 255 v\<rparr>"
  have key: "entry_key ?e = (fold_case sec, fold_case k)" by (simp add: entry_key_def)
  have n: "snprintf 64 sec = sec" "snprintf 96 k = k" "snprintf 256 v = take 255 v" "sec \<noteq> []" "k \<noteq> []"
    using assms(1) by (auto simp: snprintf_def names_fit_def)
  show ?thesis
  proof (cases "config_find es sec k")
    case None
    then have "config_map es (fold_case sec, fold_case k) = None"
      by (simp only: config_map_def map_of_find_idx config_find_key option.map)
    with assms(2) have "length es < 512" by simp
    with None n map_of_append_new[OF None[unfolded config_find_key] key, of ce_value] show ?thesis
      by (simp add: config_set_def S3E_CONFIG_MAX_ENTRIES_def config_map_def)
  next
    case (Some i)
    with n map_of_update_first[OF Some[unfolded config_find_key] key, of ce_value] show ?thesis
      by (simp add: config_set_def config_map_def)
  qed
qed

lemma config_set_full:
  assumes "length es = 512" "config_map es (fold_case sec, fold_case k) = None"
  shows "config_set (Some sec) (Some k) v es = es"
proof -
  have "config_find es sec k = None"
    using assms(2) by (simp only: config_map_def map_of_find_idx config_find_key option.map_disc_iff)
  then show ?thesis using assms(1) by (auto simp: config_set_def S3E_CONFIG_MAX_ENTRIES_def)
qed

text \<open>The table provides the interface for names and values that fit it.\<close>

definition canon_name :: "cstring \<times> cstring \<Rightarrow> config_key" where
  "canon_name = (\<lambda>(sec, k). (fold_case sec, fold_case k))"

definition put_name :: "cstring \<times> cstring \<Rightarrow> cstring \<Rightarrow> s3e_config_entry list \<Rightarrow> s3e_config_entry list" where
  "put_name = (\<lambda>(sec, k) v es. config_set (Some sec) (Some k) (Some v) es)"

interpretation cfg: keyed_table config_map canon_name put_name
  "\<lambda>(sec, k) v. names_fit sec k \<and> length v < 256" "\<lambda>es. 512 - length es"
proof unfold_locales
  fix k :: "cstring \<times> cstring" and v :: cstring and es :: "s3e_config_entry list"
  assume "(case k of (sec, k) \<Rightarrow> \<lambda>v. names_fit sec k \<and> length v < 256) v" "0 < 512 - length es"
  then show "config_map (put_name k v es) = (config_map es)(canon_name k \<mapsto> v)"
    by (cases k) (auto simp: put_name_def canon_name_def config_set_map)
next
  fix k :: "cstring \<times> cstring" and v :: cstring and es :: "s3e_config_entry list"
  show "512 - length es \<le> Suc (512 - length (put_name k v es))"
    using config_set_grows[of "Some (fst k)" "Some (snd k)" "Some v" es] by (simp add: put_name_def split_beta)
qed

end
