(* ===== verification/Config_Properties.thy ===== *)
theory Config_Properties
  imports Config_Table
begin

text \<open>
  The properties of the configuration: the table is a bounded map without regard to case, the
  overrides of the host win over the text of the image, and the integer queries follow references
  up to a fixed length, so that they end on cyclic ones.
\<close>

section \<open>The overrides\<close>

definition override_pairs :: "(string \<times> string \<times> string) list \<Rightarrow> ((cstring \<times> cstring) \<times> cstring) list" where
  "override_pairs xs = map (\<lambda>(sec, k, v). ((bytes_of sec, bytes_of k), bytes_of v)) xs"

lemma config_set_all_fold: "config_set_all xs es = fold (\<lambda>(k, v). put_name k v) (override_pairs xs) es"
  by (induction xs arbitrary: es) (auto simp: config_set_all_def override_pairs_def put_name_def)

definition override_keys :: "cfg_env \<Rightarrow> config_state \<Rightarrow> config_key list" where
  "override_keys E st = map (\<lambda>(k, v). canon_name k) (override_pairs (config_overrides E st))"

lemmas override_defs = override_pairs_def config_overrides_def online_overrides_def bytes_of_def

lemma overrides_fit: "\<forall>(k, v) \<in> set (override_pairs (config_overrides E st)).
    (case k of (sec, k) \<Rightarrow> \<lambda>v. names_fit sec k \<and> length v < 256) v"
  by (simp add: override_defs names_fit_def texture_style_def)

lemma overrides_count: "length (override_pairs (config_overrides E st)) \<le> 23"
  by (simp add: override_defs)

lemma overrides_distinct: "distinct (override_keys E st)"
  by (simp add: override_keys_def override_defs canon_name_def fold_case_def c_tolower_def)

lemma config_line_length:
  "length (snd (snd sc)) \<le> 512 \<Longrightarrow> length (snd (snd (config_line l sc))) \<le> 512"
  by (cases sc) (auto simp: config_line_def Let_def config_set_length split: option.splits)

lemma config_text_length: "length (config_text t) \<le> 512"
proof -
  have "length (snd (snd (fold config_line ls sc))) \<le> 512" if "length (snd (snd sc)) \<le> 512" for ls sc
    using that
  proof (induction ls arbitrary: sc)
    case (Cons l ls)
    show ?case using Cons.IH[OF config_line_length[OF Cons.prems, of l]] by simp
  qed simp
  then show ?thesis by (simp add: config_text_def)
qed

lemma set_control_entries [simp]: "g_config_entries (set_control k v st) = g_config_entries st"
  by (simp add: set_control_def)

lemma control_line_entries [simp]: "g_config_entries (control_line l st) = g_config_entries st"
  by (simp add: control_line_def Let_def split: option.splits prod.splits)

lemma fold_control_entries: "g_config_entries (fold control_line ls st) = g_config_entries st"
  by (induction ls arbitrary: st) simp_all

lemma load_control_entries [simp]: "g_config_entries (load_control_config E st) = g_config_entries st"
  by (simp add: load_control_config_def Let_def fold_control_entries split: option.splits)

text \<open>The text that is scanned: nothing without data or memory.\<close>

definition scanned :: "cfg_env \<Rightarrow> u8 list option \<Rightarrow> u32 \<Rightarrow> s3e_config_entry list" where
  "scanned E data n = (case data of None \<Rightarrow> []
     | Some d \<Rightarrow> if n = 0 \<or> \<not> cv_malloc E (unat n + 1) then [] else config_text (cstr (take (unat n) d)))"

lemma overrides_same [simp]: "config_overrides E (st\<lparr>g_config_entries := es\<rparr>) = config_overrides E st"
  by (simp add: config_overrides_def online_overrides_def multiplayer_server_enabled_def)

lemma set_config_result:
  assumes "s3e_host_set_config E data n st = Ok st'"
  shows "g_config_entries st' = config_set_all (config_overrides E st') (scanned E data n)"
proof -
  obtain es where "st' = (load_control_config E (st\<lparr>g_config_entries := es\<rparr>))
        \<lparr>g_config_entries := config_set_all (config_overrides E (load_control_config E (st\<lparr>g_config_entries := es\<rparr>))) es\<rparr>"
      "es = scanned E data n"
    using assms by (auto simp: s3e_host_set_config_def scanned_def Let_def res_simps bytes_at_def split: option.splits if_splits)
  then show "g_config_entries st' = config_set_all (config_overrides E st') (scanned E data n)" by simp
qed

text \<open>C26: After the configuration of an image has been read, every query for one of the host's overrides
  (graphics limits, downloads off, the account and the servers of the online or offline mode, the texture
  style of the assets that are there) gives the host's value and every other query what the text of the
  image says, whatever this text, the control file and the names' case are, as long as the text leaves
  room for the 23 overrides in the table of 512 entries; the table never exceeds this number.\<close>

theorem host_overrides_win:
  assumes "s3e_host_set_config E data n st = Ok st'" "length (scanned E data n) \<le> 489"
  shows "length (g_config_entries st') \<le> 512 \<and>
    (\<forall>(sec, k, v) \<in> set (config_overrides E st').
      \<forall>sec' k'. strcaseeq sec' (bytes_of sec) \<longrightarrow> strcaseeq k' (bytes_of k) \<longrightarrow>
        s3eConfigGetString st' (Some sec') (Some k') True = (0, Some (bytes_of v))) \<and>
    (\<forall>sec' k'. (fold_case sec', fold_case k') \<notin> set (override_keys E st') \<longrightarrow>
      config_get (g_config_entries st') (Some sec') (Some k') = config_get (scanned E data n) (Some sec') (Some k'))"
proof -
  let ?ps = "override_pairs (config_overrides E st')"
  have room: "length ?ps \<le> 512 - length (scanned E data n)"
    using overrides_count[of E st'] assms(2) by simp
  have dist: "distinct (map (\<lambda>(k, v). canon_name k) ?ps)" using overrides_distinct by (simp add: override_keys_def)
  have final: "g_config_entries st' = fold (\<lambda>(k, v). put_name k v) ?ps (scanned E data n)"
    using set_config_result[OF assms(1)] by (simp add: config_set_all_fold)
  note put = cfg.put_distinct[OF overrides_fit room dist, folded final]
  have "length (fold (\<lambda>(k, v). put_name k v) ps es) \<le> 512" if "length es \<le> 512" for ps es
    using that by (induction ps arbitrary: es) (auto simp: put_name_def config_set_length split_beta)
  then have len: "length (g_config_entries st') \<le> 512" using assms(2) by (simp add: final)
  have over: "s3eConfigGetString st' (Some sec') (Some k') True = (0, Some (bytes_of v))"
    if "(sec, k, v) \<in> set (config_overrides E st')" "strcaseeq sec' (bytes_of sec)" "strcaseeq k' (bytes_of k)"
    for sec k v sec' k'
  proof -
    have "((bytes_of sec, bytes_of k), bytes_of v) \<in> set ?ps" using that(1) by (force simp: override_pairs_def)
    from put(1)[OF this] that(2,3) show ?thesis
      by (simp add: s3eConfigGetString_def config_get_map canon_name_def fold_case_def strcaseeq_def)
  qed
  have other: "config_get (g_config_entries st') (Some sec') (Some k') = config_get (scanned E data n) (Some sec') (Some k')"
    if "(fold_case sec', fold_case k') \<notin> set (override_keys E st')" for sec' k'
    using put(2)[of "(fold_case sec', fold_case k')"] that by (simp add: override_keys_def config_get_map)
  show ?thesis using len over other by auto
qed

definition sample_cfg :: cfg_env where
  "sample_cfg = \<lparr>cv_root = [], cv_open = (\<lambda>p. None), cv_access = (\<lambda>p. False), cv_malloc = (\<lambda>n. True)\<rparr>"

definition sample_text :: cstring where
  "sample_text = bytes_of ''[GAME]'' @ [10] @ bytes_of ''OnlineAccount=GC'' @ [10]"

definition sample_state :: config_state where
  "sample_state = \<lparr>g_config_entries = [], g_multiplayer_server = [], g_multiplayer_proxy = False,
     g_voice_chat = False, g_player_name = []\<rparr>"

lemma host_overrides_win_witness:
  "\<exists>st'. s3e_host_set_config sample_cfg (Some sample_text) 24 sample_state = Ok st' \<and>
     s3eConfigGetString st' (Some (bytes_of ''game'')) (Some (bytes_of ''onlineACCOUNT'')) True = (0, Some (bytes_of ''NONE''))"
proof -
  have len: "length sample_text = 24" by (simp add: sample_text_def bytes_of_def)
  have es: "length (config_text sample_text) \<le> 489" by code_simp
  have nz: "cstr sample_text = sample_text" by (rule cstr_id) (simp add: sample_text_def bytes_of_def)
  have "length (scanned sample_cfg (Some sample_text) 24) \<le> 489"
    using es len nz by (simp add: scanned_def sample_cfg_def)
  moreover obtain st' where st': "s3e_host_set_config sample_cfg (Some sample_text) 24 sample_state = Ok st'"
    using len by (simp add: s3e_host_set_config_def sample_cfg_def bytes_at_Ok Let_def)
  moreover have "g_multiplayer_server st' = []"
    using st' len by (auto simp: s3e_host_set_config_def sample_cfg_def bytes_at_Ok Let_def load_control_config_def)
  then have "(''GAME'', ''OnlineAccount'', ''NONE'') \<in> set (config_overrides sample_cfg st')"
    by (simp add: config_overrides_def online_overrides_def multiplayer_server_enabled_def)
  moreover have "strcaseeq (bytes_of ''game'') (bytes_of ''GAME'')"
    "strcaseeq (bytes_of ''onlineACCOUNT'') (bytes_of ''OnlineAccount'')"
    by (simp_all add: strcaseeq_def bytes_of_def c_tolower_def)
  ultimately show ?thesis
    using host_overrides_win[of sample_cfg "Some sample_text" 24 sample_state st'] by blast
qed

section \<open>Integers\<close>

text \<open>
  The meaning of a value: a number, or a reference to the value of another key with an adjustment.
  The index counts the references.
\<close>

definition value_text :: "cstring \<Rightarrow> cstring" where
  "value_text v = trim (snprintf 256 v)"

definition reference_of :: "cstring \<Rightarrow> (cstring \<times> cstring \<times> (u8 \<times> cstring) option) option" where
  "reference_of v =
     (case cut_at 93 (value_text v) of
        None \<Rightarrow> None
      | Some (a, b) \<Rightarrow> let (key, opr) = split_operator (trim b) in Some (trim (drop 1 a), trim key, opr))"

inductive denotes :: "s3e_config_entry list \<Rightarrow> cstring \<Rightarrow> nat \<Rightarrow> int \<Rightarrow> bool" for es where
  number: "value_text v \<noteq> [] \<Longrightarrow> hd (value_text v) \<noteq> 91 \<Longrightarrow> strtol 0 (value_text v) = Some (x, rest, erange) \<Longrightarrow>
    denotes es v 0 (i32 x)"
| reference: "value_text v \<noteq> [] \<Longrightarrow> hd (value_text v) = 91 \<Longrightarrow> reference_of v = Some (sec, key, opr) \<Longrightarrow>
    parse_adjustment opr = Some adjust \<Longrightarrow> config_get es (Some sec) (Some key) = Some w \<Longrightarrow>
    denotes es w n x \<Longrightarrow> denotes es v (Suc n) (adjust x)"

inductive_cases denotes_SucE: "denotes es v (Suc n) x"
inductive_cases denotes_0E: "denotes es v 0 x"

lemma denotes_unique: "denotes es v n x \<Longrightarrow> denotes es v m y \<Longrightarrow> n = m \<and> x = y"
proof (induction arbitrary: m y rule: denotes.induct)
  case (number v x rest erange)
  from number.prems number.hyps show ?case by (cases rule: denotes.cases) simp_all
next
  case (reference v sec key opr adjust w n x)
  from reference.prems show ?case
  proof (cases rule: denotes.cases)
    case (reference sec' key' opr' adjust' w' k y')
    note eq = this
    have "w' = w" "adjust' = adjust"
      using reference.hyps eq by simp_all
    with reference.IH[of k y'] eq show ?thesis by simp
  qed (use reference.hyps in simp)
qed

lemma parse_int_step:
  "parse_config_int_value es (Some v) depth =
     (if depth > 4 \<or> value_text v = [] then None
      else if hd (value_text v) = 91 then
        (case reference_of v of None \<Rightarrow> None
         | Some (sec, key, opr) \<Rightarrow>
           (case parse_adjustment opr of None \<Rightarrow> None
            | Some adjust \<Rightarrow> map_option adjust
                (parse_config_int_value es (config_get es (Some sec) (Some key)) (depth + 1))))
      else map_option (\<lambda>(x, _, _). i32 x) (strtol 0 (value_text v)))"
proof -
  have t: "trim (snprintf 256 v) = value_text v" by (simp add: value_text_def)
  note go = parse_config_int_value.simps[of es "Some v" depth, unfolded option.sel t Let_def]
  show ?thesis
  proof (cases "cut_at 93 (value_text v)")
    case None
    then show ?thesis by (subst go) (auto simp: reference_of_def map_option_case split_beta split: option.split)
  next
    case (Some ab)
    obtain a b key opr where s: "ab = (a, b)" "split_operator (trim b) = (key, opr)"
      by (metis surj_pair)
    show ?thesis
      by (subst go) (cases "parse_adjustment opr"; cases "strtol 0 (value_text v)";
          auto simp: reference_of_def Some s map_option_case split_beta)
  qed
qed

lemma parse_int_None: "parse_config_int_value es None depth = None"
  by (subst parse_config_int_value.simps) simp

lemma parse_int_denotes:
  "depth \<le> 5 \<Longrightarrow> parse_config_int_value es (Some v) depth = Some x \<longleftrightarrow> (\<exists>n. n + depth \<le> 4 \<and> denotes es v n x)"
proof (induction "5 - depth" arbitrary: depth v x)
  case 0
  then show ?case by (simp add: parse_int_step)
next
  case (Suc k)
  then have d: "depth \<le> 4" "k = 5 - (depth + 1)" "depth + 1 \<le> 5" by auto
  have rec: "parse_config_int_value es w (depth + 1) = Some y \<longleftrightarrow>
      (\<exists>u n. w = Some u \<and> n + depth + 1 \<le> 4 \<and> denotes es u n y)" for w y
    using Suc.hyps(1)[OF d(2,3)] by (cases w) (auto simp: parse_int_None)
  show ?case
  proof
    assume p: "parse_config_int_value es (Some v) depth = Some x"
    show "\<exists>n. n + depth \<le> 4 \<and> denotes es v n x"
    proof (cases "hd (value_text v) = 91")
      case True
      with p d obtain sec key opr adjust y where r: "value_text v \<noteq> []" "reference_of v = Some (sec, key, opr)"
        "parse_adjustment opr = Some adjust" "x = adjust y"
        "parse_config_int_value es (config_get es (Some sec) (Some key)) (depth + 1) = Some y"
        by (auto simp: parse_int_step split: option.splits if_splits)
      from r(5)[unfolded rec] obtain u n where "config_get es (Some sec) (Some key) = Some u" "n + depth + 1 \<le> 4"
        "denotes es u n y" by blast
      with denotes.reference[OF r(1) True r(2,3)] r(4) show ?thesis by (intro exI[of _ "Suc n"]) auto
    next
      case False
      with p d show ?thesis
        by (auto simp: parse_int_step intro!: exI[of _ 0] denotes.number split: option.splits if_splits)
    qed
  next
    assume "\<exists>n. n + depth \<le> 4 \<and> denotes es v n x"
    then obtain n where n: "n + depth \<le> 4" "denotes es v n x" by blast
    from n(2) show "parse_config_int_value es (Some v) depth = Some x"
    proof (cases rule: denotes.cases)
      case (reference sec key opr adjust w m y)
      with n(1) have "parse_config_int_value es (Some w) (depth + 1) = Some y" by (subst rec) auto
      with reference d show ?thesis by (simp add: parse_int_step)
    qed (use d in \<open>simp add: parse_int_step\<close>)
  qed
qed

text \<open>One value refers to another one of the table.\<close>

definition refers :: "s3e_config_entry list \<Rightarrow> cstring \<Rightarrow> cstring \<Rightarrow> bool" where
  "refers es v w \<longleftrightarrow> value_text v \<noteq> [] \<and> hd (value_text v) = 91 \<and>
     (\<exists>sec k opr. reference_of v = Some (sec, k, opr) \<and> config_get es (Some sec) (Some k) = Some w)"

lemma denotes_refers: "denotes es v n x \<Longrightarrow> refers es v w \<Longrightarrow> \<exists>m y. n = Suc m \<and> denotes es w m y"
  by (erule denotes.cases) (auto simp: refers_def)

lemma denotes_chain: "(refers es)\<^sup>+\<^sup>+ v w \<Longrightarrow> denotes es v n x \<Longrightarrow> \<exists>m y. m < n \<and> denotes es w m y"
proof (induction arbitrary: rule: tranclp_induct)
  case (base w)
  then show ?case using denotes_refers by blast
next
  case (step u w)
  then obtain m y where m: "m < n" "denotes es u m y" by blast
  from denotes_refers[OF m(2) step.hyps(2)] m(1) show ?case by (meson Suc_lessD)
qed

lemma cyclic_denotes_nothing: "(refers es)\<^sup>+\<^sup>+ v v \<Longrightarrow> \<not> denotes es v n x"
  using denotes_chain denotes_unique by (metis less_irrefl)

text \<open>C27: A query for an integer ends on every table, also one with cyclic references. It succeeds exactly when
  the key exists and its value denotes a number through at most four references, and stores this number;
  otherwise it reports 1 and leaves the caller's variable alone. A value that leads back to itself through
  references denotes nothing, so its query is an error.\<close>

theorem int_query_follows_four_references:
  "fst (s3eConfigGetInt st section key) = (if snd (s3eConfigGetInt st section key) = None then 1 else 0) \<and>
   (snd (s3eConfigGetInt st section key) = Some x \<longleftrightarrow>
     (\<exists>v n. config_get (g_config_entries st) section key = Some v \<and> n \<le> 4 \<and> denotes (g_config_entries st) v n x)) \<and>
   (\<forall>v. config_get (g_config_entries st) section key = Some v \<longrightarrow> (refers (g_config_entries st))\<^sup>+\<^sup>+ v v \<longrightarrow>
     s3eConfigGetInt st section key = (1, None))"
proof -
  have parse: "parse_config_int_value (g_config_entries st) (Some v) 0 = Some y \<longleftrightarrow>
      (\<exists>n \<le> 4. denotes (g_config_entries st) v n y)" for v y
    using parse_int_denotes[of 0 "g_config_entries st" v y] by simp
  have none: "parse_config_int_value (g_config_entries st) (Some v) 0 = None"
    if "(refers (g_config_entries st))\<^sup>+\<^sup>+ v v" for v
    using cyclic_denotes_nothing[OF that] parse[of v] by (metis not_None_eq)
  have one: "y = x" if "denotes (g_config_entries st) v n x" "denotes (g_config_entries st) v m y" for v n m x y
    using denotes_unique that by blast
  have fail: "\<not> denotes (g_config_entries st) v n y"
    if "parse_config_int_value (g_config_entries st) (Some v) 0 = None" "n \<le> 4" for v n y
    using parse[of v y] that by auto
  show ?thesis
    using none
    by (cases "config_get (g_config_entries st) section key") (auto simp: s3eConfigGetInt_def Let_def parse dest: one fail split: option.splits)
qed

definition sample_entries :: "s3e_config_entry list" where
  "sample_entries =
     [\<lparr>ce_section = bytes_of ''A'', ce_key = bytes_of ''x'', ce_value = bytes_of ''12''\<rparr>,
      \<lparr>ce_section = bytes_of ''A'', ce_key = bytes_of ''y'', ce_value = bytes_of ''[a]X + 3''\<rparr>,
      \<lparr>ce_section = bytes_of ''A'', ce_key = bytes_of ''z'', ce_value = bytes_of ''[A]z''\<rparr>]"

lemma int_query_follows_four_references_witness:
  "snd (s3eConfigGetInt (sample_state\<lparr>g_config_entries := sample_entries\<rparr>) (Some (bytes_of ''A'')) (Some (bytes_of ''z''))) = None \<and>
   (refers sample_entries)\<^sup>+\<^sup>+ (bytes_of ''[A]z'') (bytes_of ''[A]z'')"
proof -
  have v: "config_get sample_entries (Some (bytes_of ''A'')) (Some (bytes_of ''z'')) = Some (bytes_of ''[A]z'')"
    by code_simp
  have "reference_of (bytes_of ''[A]z'') = Some (bytes_of ''A'', bytes_of ''z'', None)"
    "value_text (bytes_of ''[A]z'') \<noteq> []" "hd (value_text (bytes_of ''[A]z'')) = 91" by code_simp+
  with v have r: "(refers sample_entries)\<^sup>+\<^sup>+ (bytes_of ''[A]z'') (bytes_of ''[A]z'')"
    by (intro tranclp.r_into_trancl) (simp add: refers_def)
  with v int_query_follows_four_references[of "sample_state\<lparr>g_config_entries := sample_entries\<rparr>"
      "Some (bytes_of ''A'')" "Some (bytes_of ''z'')"] show ?thesis by simp
qed

end
