(* ===== verification/Image.thy ===== *)
theory Image
  imports Prelude
begin

unbundle bit_operations_syntax

text \<open>
  The guest image of \<open>src/s3e_image.c\<close>: reading the file and its header, the walk over the
  fixup table that collects the imported names, and the mapping of the code with its relocations.

  The file and the mapped code are byte buffers whose accesses outside are \<open>Fault\<close>; \<open>uint32_t\<close>
  positions wrap. The system calls (\<open>open\<close>, \<open>fstat\<close>, \<open>read\<close>, \<open>mmap\<close>, \<open>sysconf\<close>), the allocator and
  the resolver of imports are fields of \<open>img_env\<close>. \<open>size_t\<close> has 32 bits. What is printed and the
  release of allocated names are left out.
\<close>

section \<open>Data\<close>

record s3e_header =
  h_ident :: u32
  h_version :: u32
  h_flags :: u16
  h_arch :: u16
  h_fixup_offset :: u32
  h_fixup_size :: u32
  h_code_offset :: u32
  h_code_file_size :: u32
  h_code_mem_size :: u32
  h_sig_offset :: u32
  h_sig_size :: u32
  h_entry_offset :: u32
  h_config_offset :: u32
  h_config_size :: u32
  h_base_addr_orig :: u32
  h_extra_offset :: u32
  h_extra_size :: u32
  h_ext_header_size :: u32
  h_data_offset :: u32
  h_is_juice :: u32

record s3e_symbol_table =
  sym_items :: "cstring list"
  sym_count :: nat

text \<open>\<open>file_data\<close> is \<open>[]\<close> for \<open>NULL\<close>.\<close>

record s3e_image =
  im_file_data :: "u8 list"
  im_file_size :: nat
  im_header :: s3e_header
  im_symbols :: s3e_symbol_table

text \<open>A mapped image: its address, size and entry, and the bytes of the mapping.\<close>

record s3e_loaded_image =
  li_base :: u32
  li_map_size :: u32
  li_entry_offset :: u32
  li_mem :: "u8 list"

text \<open>
  \<open>ie_read d n\<close> is what \<open>read\<close> returns when \<open>d\<close> bytes are there and \<open>n\<close> are asked for (\<open>None\<close> and
  \<open>[]\<close> for an error and the end of the file); \<open>ie_alloc at n\<close> tells whether the allocation of \<open>n\<close>
  bytes for the item at file position \<open>at\<close> succeeds; \<open>ie_mmap addr n\<close> is the address of a new
  mapping of \<open>n\<close> zero bytes; \<open>ie_resolve\<close> gives 0 for an unknown name.
\<close>

record img_env =
  ie_open :: bool
  ie_stat :: "int option"
  ie_malloc :: "nat \<Rightarrow> bool"
  ie_read :: "nat \<Rightarrow> nat \<Rightarrow> u8 list option"
  ie_alloc :: "u32 \<Rightarrow> nat \<Rightarrow> bool"
  ie_page :: u32
  ie_mmap :: "u32 \<Rightarrow> u32 \<Rightarrow> u32 option"
  ie_resolve :: "cstring \<Rightarrow> u32"

definition empty_header :: s3e_header where
  "empty_header = \<lparr>h_ident = 0, h_version = 0, h_flags = 0, h_arch = 0, h_fixup_offset = 0, h_fixup_size = 0,
     h_code_offset = 0, h_code_file_size = 0, h_code_mem_size = 0, h_sig_offset = 0, h_sig_size = 0,
     h_entry_offset = 0, h_config_offset = 0, h_config_size = 0, h_base_addr_orig = 0, h_extra_offset = 0,
     h_extra_size = 0, h_ext_header_size = 0, h_data_offset = 0, h_is_juice = 0\<rparr>"

definition empty_image :: s3e_image where
  "empty_image = \<lparr>im_file_data = [], im_file_size = 0, im_header = empty_header,
     im_symbols = \<lparr>sym_items = [], sym_count = 0\<rparr>\<rparr>"

definition empty_loaded :: s3e_loaded_image where
  "empty_loaded = \<lparr>li_base = 0, li_map_size = 0, li_entry_offset = 0, li_mem = []\<rparr>"

definition S3E_MAGIC :: u32 where
  "S3E_MAGIC = 0x55334558"

section \<open>Reading\<close>

definition rd16 :: "u8 list \<Rightarrow> nat \<Rightarrow> u16 mem" where
  "rd16 data p = rbind (bytes_at data p 2) (\<lambda>b. Ok (ucast (b ! 0) OR push_bit 8 (ucast (b ! 1))))"

definition rd32 :: "u8 list \<Rightarrow> nat \<Rightarrow> u32 mem" where
  "rd32 data p = rbind (bytes_at data p 4) (\<lambda>b. Ok (ucast (b ! 0) OR push_bit 8 (ucast (b ! 1)) OR
     push_bit 16 (ucast (b ! 2)) OR push_bit 24 (ucast (b ! 3))))"

definition range_ok :: "nat \<Rightarrow> u32 \<Rightarrow> u32 \<Rightarrow> bool" where
  "range_ok sz offset len \<longleftrightarrow> unat offset \<le> sz \<and> unat len \<le> sz - unat offset"

definition page_round :: "u32 \<Rightarrow> u32 \<Rightarrow> u32" where
  "page_round page sz = (let msk = page - 1 in (sz + msk) AND NOT msk)"

text \<open>The loop around \<open>read\<close>: \<open>None\<close> when it gives up.\<close>

function read_file :: "img_env \<Rightarrow> nat \<Rightarrow> u8 list \<Rightarrow> u8 list option" where
  "read_file E file_size data =
     (if length data < file_size then
        (case ie_read E (length data) (file_size - length data) of
           None \<Rightarrow> None
         | Some got \<Rightarrow> if got = [] then None else read_file E file_size (data @ got))
      else Some data)"
  by pat_completeness auto
termination by (relation "measure (\<lambda>(E, n, data). n - length data)") (auto simp: length_greater_0_conv [symmetric] simp del: length_greater_0_conv)

declare read_file.simps [simp del]

definition read_header :: "u8 list \<Rightarrow> s3e_header mem" where
  "read_header p =
     rbind (rd32 p 0) (\<lambda>ident. rbind (rd32 p 4) (\<lambda>version. rbind (rd16 p 8) (\<lambda>flags. rbind (rd16 p 10) (\<lambda>arch.
     rbind (rd32 p 12) (\<lambda>fixup_offset. rbind (rd32 p 16) (\<lambda>fixup_size. rbind (rd32 p 20) (\<lambda>code_offset.
     rbind (rd32 p 24) (\<lambda>code_file_size. rbind (rd32 p 28) (\<lambda>code_mem_size. rbind (rd32 p 32) (\<lambda>sig_offset.
     rbind (rd32 p 36) (\<lambda>sig_size. rbind (rd32 p 40) (\<lambda>entry_offset. rbind (rd32 p 44) (\<lambda>config_offset.
     rbind (rd32 p 48) (\<lambda>config_size. rbind (rd32 p 52) (\<lambda>base_addr_orig. rbind (rd32 p 56) (\<lambda>extra_offset.
     rbind (rd32 p 60) (\<lambda>extra_size. rbind (rd32 p 64) (\<lambda>ext_header_size.
       Ok \<lparr>h_ident = ident, h_version = version, h_flags = flags, h_arch = arch,
           h_fixup_offset = fixup_offset, h_fixup_size = fixup_size, h_code_offset = code_offset,
           h_code_file_size = code_file_size, h_code_mem_size = code_mem_size,
           h_sig_offset = sig_offset, h_sig_size = sig_size, h_entry_offset = entry_offset,
           h_config_offset = config_offset, h_config_size = config_size,
           h_base_addr_orig = base_addr_orig, h_extra_offset = extra_offset,
           h_extra_size = extra_size, h_ext_header_size = ext_header_size,
           h_data_offset = 0, h_is_juice = 0\<rparr>))))))))))))))))))"

definition header_ranges_ok :: "nat \<Rightarrow> s3e_header \<Rightarrow> bool" where
  "header_ranges_ok sz h \<longleftrightarrow>
     \<not> (\<not> range_ok sz (h_fixup_offset h) (h_fixup_size h) \<or>
        \<not> range_ok sz (h_code_offset h) (h_code_file_size h) \<or>
        h_code_file_size h > h_code_mem_size h \<or> h_entry_offset h \<ge> h_code_mem_size h)"

text \<open>What follows the read loop: \<open>None\<close> stands for \<open>s3e_image_free\<close> and \<open>false\<close>.\<close>

definition parse_header :: "u8 list \<Rightarrow> nat \<Rightarrow> s3e_header option mem" where
  "parse_header data file_size =
     (if file_size < 68 then Ok None
      else rbind (read_header data) (\<lambda>h.
        if h_ident h \<noteq> S3E_MAGIC then Ok None
        else rbind (if h_ext_header_size h = 0x0c then
                      (if file_size < 76 then Ok None
                       else rbind (rd32 data 68) (\<lambda>data_offset. rbind (rd32 data 72) (\<lambda>is_juice.
                         Ok (Some (h\<lparr>h_data_offset := data_offset, h_is_juice := is_juice\<rparr>)))))
                    else Ok (Some h)) (\<lambda>r.
          case r of None \<Rightarrow> Ok None
          | Some h \<Rightarrow> Ok (if header_ranges_ok file_size h then Some h else None))))"

definition s3e_image_load :: "img_env \<Rightarrow> (bool \<times> s3e_image) mem" where
  "s3e_image_load E =
     (if \<not> ie_open E then Ok (False, empty_image)
      else case ie_stat E of
        None \<Rightarrow> Ok (False, empty_image)
      | Some st_size \<Rightarrow>
          if st_size \<le> 0 then Ok (False, empty_image)
          else let file_size = nat (st_size mod 2 ^ 32) in
            if \<not> ie_malloc E file_size then Ok (False, empty_image\<lparr>im_file_size := file_size\<rparr>)
            else case read_file E file_size [] of
              None \<Rightarrow> Ok (False, empty_image)
            | Some data \<Rightarrow> rbind (parse_header data file_size) (\<lambda>r.
                case r of None \<Rightarrow> Ok (False, empty_image)
                | Some h \<Rightarrow> Ok (True, empty_image\<lparr>im_file_data := data, im_file_size := file_size,
                                          im_header := h\<rparr>)))"

section \<open>The imported names\<close>

lemma word_succ_measure: "c < l \<Longrightarrow> unat (l - (c + 1)) < unat (l - c)" for c l :: u32
  by (metis (no_types, lifting) diff_add_eq_diff_diff_swap measure_unat right_minus_eq diff_diff_add less_irrefl)

text \<open>\<open>while (cursor < lim && data[cursor] != 0) cursor++;\<close>\<close>

function scan_name :: "u8 list \<Rightarrow> u32 \<Rightarrow> u32 \<Rightarrow> u32 mem" where
  "scan_name data lim cursor =
     (if cursor < lim then
        rbind (byte_at data (unat cursor)) (\<lambda>b.
          if b \<noteq> 0 then scan_name data lim (cursor + 1) else Ok cursor)
      else Ok cursor)"
  by pat_completeness auto

termination by (relation "measure (\<lambda>(d, l, c). unat (l - c))") (auto intro: word_succ_measure)

declare scan_name.simps [simp del]

fun parse_names :: "img_env \<Rightarrow> u8 list \<Rightarrow> u32 \<Rightarrow> nat \<Rightarrow> u32 \<Rightarrow> cstring list \<Rightarrow> cstring list option mem" where
  "parse_names E data lim 0 cursor items = Ok (Some items)"
| "parse_names E data lim (Suc n) start items =
     rbind (scan_name data lim start) (\<lambda>cursor.
       if cursor \<ge> lim then Ok None
       else let len = unat (cursor - start) in
         if \<not> ie_alloc E start (len + 1) then Ok None
         else rbind (bytes_at data (unat start) len) (\<lambda>name.
           parse_names E data lim n (cursor + 1) (items @ [name])))"

lemma word_advance_measure:
  "8 \<le> sz \<Longrightarrow> sz \<le> e - p \<Longrightarrow> unat (e - (p + sz)) < unat (e - p)" for e p sz :: u32
  by unat_arith

function parse_sections :: "img_env \<Rightarrow> u8 list \<Rightarrow> u32 \<Rightarrow> u32 \<Rightarrow> s3e_symbol_table \<Rightarrow> (bool \<times> s3e_symbol_table) mem" where
  "parse_sections E data pos end tab =
     (if pos < end then
        (if end - pos < 8 then Ok (False, tab)
         else rbind (rd32 data (unat pos)) (\<lambda>ty. rbind (rd32 data (unat pos + 4)) (\<lambda>sz.
           let body = pos + 8 in
           if sz < 8 \<or> sz > end - pos then Ok (False, tab)
           else if ty = 0 then
             (if sz < 10 then Ok (False, tab)
              else rbind (rd16 data (unat body)) (\<lambda>count.
                if \<not> ie_alloc E body (4 * unat count) then Ok (False, tab)
                else rbind (parse_names E data (pos + sz) (unat count) (body + 2) []) (\<lambda>r.
                  case r of None \<Rightarrow> Ok (False, tab)
                  | Some items \<Rightarrow>
                      parse_sections E data (pos + sz) end \<lparr>sym_items = items, sym_count = unat count\<rparr>)))
           else parse_sections E data (pos + sz) end tab)))
      else Ok (sym_count tab > 0, tab))"
  by pat_completeness auto
termination by (relation "measure (\<lambda>(E, d, p, e, t). unat (e - p))") (auto intro: word_advance_measure)

definition s3e_image_parse_symbols :: "img_env \<Rightarrow> s3e_image \<Rightarrow> (bool \<times> s3e_image) mem" where
  "s3e_image_parse_symbols E img =
     (let h = im_header img in
      rbind (parse_sections E (im_file_data img) (h_fixup_offset h) (h_fixup_offset h + h_fixup_size h)
               (im_symbols img)) (\<lambda>(r, tab). Ok (r, img\<lparr>im_symbols := tab\<rparr>)))"

text \<open>\<open>free\<close> of all that an image owns; \<open>memset\<close> of the record.\<close>

definition s3e_image_free :: "s3e_image \<Rightarrow> s3e_image" where
  "s3e_image_free img = empty_image"

section \<open>Relocation\<close>

definition le32 :: "u32 \<Rightarrow> u8 list" where
  "le32 v = [ucast v, ucast (drop_bit 8 v), ucast (drop_bit 16 v), ucast (drop_bit 24 v)]"

text \<open>The store \<open>*slot = v\<close> at \<open>base + offset\<close>, where \<open>slot\<close> is a \<open>uint32_t *\<close>.\<close>

definition wr32 :: "u8 list \<Rightarrow> nat \<Rightarrow> u32 \<Rightarrow> u8 list mem" where
  "wr32 m p v = (if p + 4 \<le> length m then Ok (buf_write m p (le32 v)) else Fault)"

fun internal_relocs :: "u8 list \<Rightarrow> u32 \<Rightarrow> u32 \<Rightarrow> nat \<Rightarrow> u32 \<Rightarrow> u8 list \<Rightarrow> (bool \<times> u8 list) mem" where
  "internal_relocs data code_mem_size load_delta 0 cursor m = Ok (True, m)"
| "internal_relocs data code_mem_size load_delta (Suc n) cursor m =
     rbind (rd32 data (unat cursor)) (\<lambda>offset.
       if offset > code_mem_size - 4 then Ok (False, m)
       else rbind (rd32 m (unat offset)) (\<lambda>v. rbind (wr32 m (unat offset) (v + load_delta)) (\<lambda>m.
         internal_relocs data code_mem_size load_delta n (cursor + 4) m)))"

definition apply_internal_relocs :: "s3e_image \<Rightarrow> u8 list \<Rightarrow> u32 \<Rightarrow> u32 \<Rightarrow> u32 \<Rightarrow> (bool \<times> u8 list) mem" where
  "apply_internal_relocs img m pos sz load_delta =
     (let data = im_file_data img; body = pos + 8 in
      if sz < 12 then Ok (False, m)
      else rbind (rd32 data (unat body)) (\<lambda>count.
        if count > (sz - 12) div 4 then Ok (False, m)
        else internal_relocs data (h_code_mem_size (im_header img)) load_delta (unat count) (body + 4) m))"

fun external_relocs :: "img_env \<Rightarrow> s3e_image \<Rightarrow> nat \<Rightarrow> u32 \<Rightarrow> u8 list \<Rightarrow> (bool \<times> u8 list) mem" where
  "external_relocs E img 0 cursor m = Ok (True, m)"
| "external_relocs E img (Suc n) cursor m =
     (let data = im_file_data img in
      rbind (rd16 data (unat cursor)) (\<lambda>hi. rbind (rd16 data (unat cursor + 2)) (\<lambda>lo.
      rbind (rd16 data (unat cursor + 4)) (\<lambda>symbol_index.
        let offset = push_bit 16 (ucast hi) OR ucast lo in
        if offset > h_code_mem_size (im_header img) - 4 \<or> unat symbol_index \<ge> sym_count (im_symbols img)
        then Ok (False, m)
        else if unat symbol_index \<ge> length (sym_items (im_symbols img)) then Fault
        else let addr = ie_resolve E (sym_items (im_symbols img) ! unat symbol_index) in
          if addr = 0 then Ok (False, m)
          else rbind (wr32 m (unat offset) addr) (\<lambda>m. external_relocs E img n (cursor + 6) m)))))"

definition apply_external_relocs :: "img_env \<Rightarrow> s3e_image \<Rightarrow> u8 list \<Rightarrow> u32 \<Rightarrow> u32 \<Rightarrow> (bool \<times> u8 list) mem" where
  "apply_external_relocs E img m pos sz =
     (let data = im_file_data img; body = pos + 8 in
      if sz < 12 then Ok (False, m)
      else rbind (rd32 data (unat body)) (\<lambda>count.
        if count > (sz - 12) div 6 then Ok (False, m)
        else external_relocs E img (unat count) (body + 4) m))"

text \<open>One section: the test on its type, and the application of its relocations.\<close>

definition apply_section :: "img_env \<Rightarrow> s3e_image \<Rightarrow> u32 \<Rightarrow> u32 \<Rightarrow> u32 \<Rightarrow> u32 \<Rightarrow> u8 list \<Rightarrow> (bool \<times> u8 list) mem" where
  "apply_section E img load_delta ty pos sz m =
     (if ty = 1 then apply_internal_relocs img m pos sz load_delta
      else if ty = 2 \<or> ty = 3 \<or> ty = 4 then apply_external_relocs E img m pos sz
      else Ok (True, m))"

function relocate_sections :: "img_env \<Rightarrow> s3e_image \<Rightarrow> u32 \<Rightarrow> u32 \<Rightarrow> u32 \<Rightarrow> u8 list \<Rightarrow> (bool \<times> u8 list) mem" where
  "relocate_sections E img load_delta pos end m =
     (if pos < end then
        rbind (rd32 (im_file_data img) (unat pos)) (\<lambda>ty.
        rbind (rd32 (im_file_data img) (unat pos + 4)) (\<lambda>sz.
          if sz < 8 \<or> sz > end - pos then Ok (False, m)
          else rbind (apply_section E img load_delta ty pos sz m) (\<lambda>(r, m).
            if r then relocate_sections E img load_delta (pos + sz) end m else Ok (False, m))))
      else Ok (True, m))"
  by pat_completeness auto
termination by (relation "measure (\<lambda>(E, i, d, p, e, m). unat (e - p))") (auto intro: word_advance_measure)

declare parse_sections.simps [simp del] relocate_sections.simps [simp del]

text \<open>The new mapping after \<open>memcpy\<close> and \<open>memset\<close>: the code of the file, then zeros.\<close>

definition load_code :: "s3e_image \<Rightarrow> u32 \<Rightarrow> u8 list mem" where
  "load_code img map_size =
     (let h = im_header img in
      rbind (bytes_at (im_file_data img) (unat (h_code_offset h)) (unat (h_code_file_size h))) (\<lambda>code.
        if unat (h_code_file_size h) + unat (h_code_mem_size h - h_code_file_size h) > unat map_size then Fault
        else Ok (code @ replicate (unat map_size - length code) 0)))"

definition s3e_image_map_and_relocate :: "img_env \<Rightarrow> s3e_image \<Rightarrow> (bool \<times> s3e_loaded_image) mem" where
  "s3e_image_map_and_relocate E img =
     (let h = im_header img; map_size = page_round (ie_page E) (h_code_mem_size h) in
      case ie_mmap E (h_base_addr_orig h) map_size of
        None \<Rightarrow> Ok (False, empty_loaded)
      | Some base \<Rightarrow>
          rbind (load_code img map_size) (\<lambda>m.
          rbind (relocate_sections E img (base - h_base_addr_orig h) (h_fixup_offset h)
                   (h_fixup_offset h + h_fixup_size h) m) (\<lambda>(r, m).
            if r then Ok (True, \<lparr>li_base = base, li_map_size = map_size,
                                li_entry_offset = h_entry_offset h, li_mem = m\<rparr>)
            else Ok (False, empty_loaded))))"

text \<open>\<open>munmap\<close> of a mapping; the record is reset, as it is when nothing was mapped.\<close>

definition s3e_loaded_image_unmap :: "s3e_loaded_image \<Rightarrow> s3e_loaded_image" where
  "s3e_loaded_image_unmap loaded = (if li_base loaded \<noteq> 0 then empty_loaded else loaded)"

end
