(* ===== verification/Assets.thy ===== *)
theory Assets
  imports Image
begin

unbundle bit_operations_syntax

text \<open>
  The patches of the mapped game in \<open>src/codboz_assets.c\<close> and
  \<open>src/codboz_frame_interpolation.c\<close>: the reference to the player's name, the artwork of the virtual
  sticks in the texture atlas, and the two director callbacks with the interpolation factor that
  they pass on. The mapping is the byte buffer of the loaded image; the guest functions that the
  callbacks call are events of a log.
\<close>

section \<open>The player's name\<close>

definition PLAYER_NAME_REFERENCE_OFFSET :: nat where "PLAYER_NAME_REFERENCE_OFFSET = 0x18f74c"
definition PLAYER_NAME_REFERENCE_PC_OFFSET :: nat where "PLAYER_NAME_REFERENCE_PC_OFFSET = 0x18f60a"
definition PLAYER_NAME_FORMAT_OFFSET :: nat where "PLAYER_NAME_FORMAT_OFFSET = 0x3af131"

definition player_format :: "u8 list" where
  "player_format = bytes_of ''Player-%d'' @ [0]"

definition codboz_override_player_name :: "s3e_loaded_image \<Rightarrow> u32 \<Rightarrow> (bool \<times> s3e_loaded_image) mem" where
  "codboz_override_player_name loaded player_name_address =
     (if li_base loaded = 0 \<or> unat (li_map_size loaded) < PLAYER_NAME_FORMAT_OFFSET + length player_format
      then Ok (False, loaded)
      else rbind (rd32 (li_mem loaded) PLAYER_NAME_REFERENCE_OFFSET) (\<lambda>relative.
        if relative \<noteq> of_nat (PLAYER_NAME_FORMAT_OFFSET - PLAYER_NAME_REFERENCE_PC_OFFSET) then Ok (False, loaded)
        else rbind (bytes_at (li_mem loaded) PLAYER_NAME_FORMAT_OFFSET (length player_format)) (\<lambda>format.
          if format \<noteq> player_format then Ok (False, loaded)
          else let pc = li_base loaded + of_nat PLAYER_NAME_REFERENCE_PC_OFFSET;
                   relative = player_name_address - pc
            in rbind (wr32 (li_mem loaded) PLAYER_NAME_REFERENCE_OFFSET relative) (\<lambda>m.
                 Ok (True, loaded\<lparr>li_mem := m\<rparr>)))))"

section \<open>The artwork of the virtual sticks\<close>

definition HUD_ATLAS_WIDTH :: nat where "HUD_ATLAS_WIDTH = 1024"
definition HUD_ATLAS_HEIGHT :: nat where "HUD_ATLAS_HEIGHT = 512"
definition HUD_ATLAS_BYTES_PER_PIXEL :: nat where "HUD_ATLAS_BYTES_PER_PIXEL = 2"

record hud_rect =
  hr_x :: nat
  hr_y :: nat
  hr_width :: nat
  hr_height :: nat

record hud_atlas_layout =
  hl_group_size :: nat
  hl_pixel_offset :: nat

definition layouts :: "hud_atlas_layout list" where
  "layouts = [\<lparr>hl_group_size = 17446625, hl_pixel_offset = 0x5d898c\<rparr>,
     \<lparr>hl_group_size = 12372273, hl_pixel_offset = 0x41b8e4\<rparr>]"

definition atlas_header :: "u8 list" where
  "atlas_header = [0x00, 0x20, 0x00, 0x10, 0x00, 0xbe, 0x32, 0x9b, 0x61, 0x0c, 0x43, 0x24, 0x00, 0x00,
     0x06, 0x00, 0x10, 0x00, 0x10, 0x05, 0x00, 0x10, 0x00, 0x04, 0x00, 0x02, 0x00, 0x08]"

definition stick_rects :: "hud_rect list" where
  "stick_rects = [\<lparr>hr_x = 0, hr_y = 0, hr_width = 257, hr_height = 236\<rparr>,
     \<lparr>hr_x = 257, hr_y = 0, hr_width = 92, hr_height = 72\<rparr>,
     \<lparr>hr_x = 625, hr_y = 431, hr_width = 80, hr_height = 80\<rparr>]"

definition atlas_size :: nat where
  "atlas_size = HUD_ATLAS_WIDTH * HUD_ATLAS_HEIGHT * HUD_ATLAS_BYTES_PER_PIXEL"

text \<open>What follows the last slash of a name.\<close>

definition base_name :: "cstring \<Rightarrow> cstring" where
  "base_name name = rev (takeWhile (\<lambda>c. c \<noteq> slash) (rev name))"

text \<open>The first layout that the data has; reading the header of an atlas may not leave the data.\<close>

fun find_atlas :: "u8 list \<Rightarrow> nat \<Rightarrow> hud_atlas_layout list \<Rightarrow> nat option mem" where
  "find_atlas data sz [] = Ok None"
| "find_atlas data sz (l # ls) =
     (let offset = hl_pixel_offset l in
      if sz = hl_group_size l \<and> offset \<ge> length atlas_header \<and> offset + atlas_size \<le> sz then
        rbind (bytes_at data (offset - length atlas_header) (length atlas_header)) (\<lambda>h.
          if h = atlas_header then Ok (Some offset) else find_atlas data sz ls)
      else find_atlas data sz ls)"

definition clear_alpha :: "nat \<Rightarrow> u8 list \<Rightarrow> u8 list mem" where
  "clear_alpha i data = (if i < length data then Ok (data[i := data ! i AND 0xf0]) else Fault)"

definition clear_rect :: "nat \<Rightarrow> hud_rect \<Rightarrow> u8 list \<Rightarrow> u8 list mem" where
  "clear_rect pixels rect =
     rfold (\<lambda>y. let row = pixels + (y * HUD_ATLAS_WIDTH + hr_x rect) * HUD_ATLAS_BYTES_PER_PIXEL in
       rfold (\<lambda>x. clear_alpha (row + x * HUD_ATLAS_BYTES_PER_PIXEL)) [0..<hr_width rect])
       [hr_y rect..<hr_y rect + hr_height rect]"

definition codboz_hide_virtual_stick_artwork :: "cstring option \<Rightarrow> u8 list \<Rightarrow> nat \<Rightarrow> u8 list mem" where
  "codboz_hide_virtual_stick_artwork name data sz =
     (let base = base_name (case name of None \<Rightarrow> [] | Some n \<Rightarrow> n) in
      if \<not> strcaseeq base (bytes_of ''ingame.group.bin'') then Ok data
      else rbind (find_atlas data sz layouts) (\<lambda>r.
        case r of None \<Rightarrow> Ok data | Some pixels \<Rightarrow> rfold (clear_rect pixels) stick_rects data))"

section \<open>The frame interpolation\<close>

definition ACTIVE_SET_POINTER_OFFSET :: nat where "ACTIVE_SET_POINTER_OFFSET = 0x45f2b0"
definition DIRECTOR_FIXED_SLOT_OFFSET :: nat where "DIRECTOR_FIXED_SLOT_OFFSET = 0x3e6490"
definition DIRECTOR_INTERPOLATE_SLOT_OFFSET :: nat where "DIRECTOR_INTERPOLATE_SLOT_OFFSET = 0x3e6494"
definition DIRECTOR_FIXED_CALLBACK_OFFSET :: nat where "DIRECTOR_FIXED_CALLBACK_OFFSET = 0x0ba98d"
definition DIRECTOR_INTERPOLATE_CALLBACK_OFFSET :: nat where "DIRECTOR_INTERPOLATE_CALLBACK_OFFSET = 0x0ba7db"
definition CAPTURE_TRANSFORMS_OFFSET :: nat where "CAPTURE_TRANSFORMS_OFFSET = 0x0e8787"
definition APPLY_FACTOR_OFFSET :: nat where "APPLY_FACTOR_OFFSET = 0x0e87c9"
definition INTERPOLATION_CHANNEL :: u32 where "INTERPOLATION_CHANNEL = 1"
definition FIXED_FACTOR_ONE :: int where "FIXED_FACTOR_ONE = 4096"

definition image_range_valid :: "s3e_loaded_image \<Rightarrow> nat \<Rightarrow> nat \<Rightarrow> bool" where
  "image_range_valid loaded offset sz \<longleftrightarrow>
     li_base loaded \<noteq> 0 \<and> offset \<le> unat (li_map_size loaded) \<and> sz \<le> unat (li_map_size loaded) - offset"

definition image_matches :: "s3e_loaded_image \<Rightarrow> nat \<Rightarrow> u8 list \<Rightarrow> bool mem" where
  "image_matches loaded offset expected =
     (if image_range_valid loaded offset (length expected) then
        rbind (bytes_at (li_mem loaded) offset (length expected)) (\<lambda>b. Ok (b = expected))
      else Ok False)"

text \<open>
  The bits of a \<open>float\<close>. A value below 1 has an exponent field below 127; multiplying it by 4096 is
  exact and the conversion to an integer truncates.
\<close>

definition interpolation_factor :: "u32 \<Rightarrow> int" where
  "interpolation_factor bits =
     (let negative = bit bits 31; ex = unat (drop_bit 23 bits AND 0xff); m = unat (bits AND 0x7fffff);
          finite = (ex \<noteq> 255); zero = (ex = 0 \<and> m = 0)
      in if \<not> finite \<or> negative \<or> zero then 0
         else if ex \<ge> 127 then FIXED_FACTOR_ONE
         else if ex = 0 then int (m * 4096 div 2 ^ 149)
         else int ((2 ^ 23 + m) * 4096 div 2 ^ (150 - ex)))"

text \<open>The static variables, set by a successful installation, and the calls into the guest.\<close>

record interp_state =
  g_active_set_pointer :: nat
  g_original_fixed_callback :: u32
  g_capture_transforms :: u32
  g_apply_factor :: u32

datatype guest_call =
    Capture_Transforms u32 u32
  | Apply_Factor u32 u32 int
  | Original_Fixed u32 "u32 list"

definition active_transform_set :: "interp_state \<Rightarrow> u8 list \<Rightarrow> u32 mem" where
  "active_transform_set st m = rd32 m (g_active_set_pointer st)"

definition director_fixed_callback :: "interp_state \<Rightarrow> u8 list \<Rightarrow> u32 \<Rightarrow> u32 \<Rightarrow> u32 list \<Rightarrow> guest_call list mem" where
  "director_fixed_callback st m director channel args =
     rbind (if channel = INTERPOLATION_CHANNEL then
              rbind (active_transform_set st m) (\<lambda>active_set.
                Ok (if active_set \<noteq> 0 then [Capture_Transforms (g_capture_transforms st) active_set] else []))
            else Ok []) (\<lambda>calls.
       Ok (calls @ [Original_Fixed (g_original_fixed_callback st) (director # channel # args)]))"

definition director_interpolate_callback :: "interp_state \<Rightarrow> u8 list \<Rightarrow> u32 \<Rightarrow> u32 \<Rightarrow> u32 \<Rightarrow> (u32 \<times> guest_call list) mem" where
  "director_interpolate_callback st m director channel factor_bits =
     rbind (if channel = INTERPOLATION_CHANNEL then
              rbind (active_transform_set st m) (\<lambda>active_set.
                Ok (if active_set \<noteq> 0
                    then [Apply_Factor (g_apply_factor st) active_set (interpolation_factor factor_bits)] else []))
            else Ok []) (\<lambda>calls. Ok (director, calls))"

definition fixed_signature :: "u8 list" where
  "fixed_signature = [0x02, 0x29, 0x2d, 0xe9, 0xf0, 0x41, 0x80, 0x46,
     0x0f, 0x46, 0x16, 0x46, 0xdd, 0xe9, 0x06, 0x45]"

definition interpolate_signature :: "u8 list" where
  "interpolate_signature = [0x70, 0x47]"

definition capture_signature :: "u8 list" where
  "capture_signature = [0x38, 0xb5, 0x05, 0x46, 0x00, 0x24, 0xab, 0x68,
     0x9c, 0x42, 0x06, 0xd2, 0x6b, 0x68, 0x53, 0xf8]"

definition apply_signature :: "u8 list" where
  "apply_signature = [0x70, 0xb5, 0x05, 0x46, 0x0e, 0x46, 0x00, 0x24,
     0xab, 0x68, 0x9c, 0x42, 0x07, 0xd2, 0x6b, 0x68]"

text \<open>The chain of \<open>||\<close>: the first range or signature that does not match ends it.\<close>

definition signatures_match :: "s3e_loaded_image \<Rightarrow> bool mem" where
  "signatures_match loaded =
     (if \<not> image_range_valid loaded ACTIVE_SET_POINTER_OFFSET 4 then Ok False
      else if \<not> image_range_valid loaded DIRECTOR_FIXED_SLOT_OFFSET 8 then Ok False
      else rfold (\<lambda>(offset, sig) ok. if \<not> ok then Ok False
                    else image_matches loaded (2 * (offset div 2)) sig)
        [(DIRECTOR_FIXED_CALLBACK_OFFSET, fixed_signature),
         (DIRECTOR_INTERPOLATE_CALLBACK_OFFSET, interpolate_signature),
         (CAPTURE_TRANSFORMS_OFFSET, capture_signature), (APPLY_FACTOR_OFFSET, apply_signature)] True)"

text \<open>\<open>fixed_hook\<close> and \<open>interpolate_hook\<close> are the addresses of the host's two callbacks.\<close>

definition codboz_install_frame_interpolation ::
    "u32 \<Rightarrow> u32 \<Rightarrow> s3e_loaded_image \<Rightarrow> interp_state \<Rightarrow> (bool \<times> s3e_loaded_image \<times> interp_state) mem" where
  "codboz_install_frame_interpolation fixed_hook interpolate_hook loaded st =
     rbind (signatures_match loaded) (\<lambda>ok.
       if \<not> ok then Ok (False, loaded, st)
       else let base = li_base loaded in
         rbind (rd32 (li_mem loaded) DIRECTOR_FIXED_SLOT_OFFSET) (\<lambda>fixed.
         if fixed \<noteq> base + of_nat DIRECTOR_FIXED_CALLBACK_OFFSET then Ok (False, loaded, st)
         else rbind (rd32 (li_mem loaded) DIRECTOR_INTERPOLATE_SLOT_OFFSET) (\<lambda>interpolate.
         if interpolate \<noteq> base + of_nat DIRECTOR_INTERPOLATE_CALLBACK_OFFSET then Ok (False, loaded, st)
         else rbind (wr32 (li_mem loaded) DIRECTOR_FIXED_SLOT_OFFSET fixed_hook) (\<lambda>m.
              rbind (wr32 m DIRECTOR_INTERPOLATE_SLOT_OFFSET interpolate_hook) (\<lambda>m.
                Ok (True, loaded\<lparr>li_mem := m\<rparr>,
                    \<lparr>g_active_set_pointer = ACTIVE_SET_POINTER_OFFSET,
                     g_original_fixed_callback = base + of_nat DIRECTOR_FIXED_CALLBACK_OFFSET,
                     g_capture_transforms = base + of_nat CAPTURE_TRANSFORMS_OFFSET,
                     g_apply_factor = base + of_nat APPLY_FACTOR_OFFSET\<rparr>))))))"

end
