(* ===== verification/Image_Safety.thy ===== *)
theory Image_Safety
  imports Image
begin

unbundle bit_operations_syntax

text \<open>
  Memory safety of the image loader: no read of the file or of the mapping is out of bounds when
  the image has at least one word of code memory and the operating system keeps its contract. An
  image with less code memory makes the relocation write outside of the mapping.
\<close>

section \<open>Reads and the walk\<close>

lemma rd16_eq_Fault: "rd16 d p = Fault \<longleftrightarrow> length d < p + 2"
  by (auto simp: rd16_def bytes_at_def)

lemma rd32_eq_Fault: "rd32 d p = Fault \<longleftrightarrow> length d < p + 4"
  by (auto simp: rd32_def bytes_at_def)

lemma rd_not_Err [simp]: "rd16 d p \<noteq> Err e" "rd32 d p \<noteq> Err e"
  by (auto simp: rd16_def rd32_def bytes_at_def)

lemma wr32_eq_Fault: "wr32 m p v = Fault \<longleftrightarrow> length m < p + 4"
  by (auto simp: wr32_def)

lemma length_le32 [simp]: "length (le32 v) = 4"
  by (simp add: le32_def)

lemma wr32_length: "wr32 m p v = Ok m' \<Longrightarrow> length m' = length m"
  by (auto simp: wr32_def split: if_splits)

named_theorems fault_simps "when a read or write is out of bounds"
declare rd16_eq_Fault [fault_simps] rd32_eq_Fault [fault_simps] wr32_eq_Fault [fault_simps]
  byte_at_eq_Fault [fault_simps] bytes_at_eq_Fault [fault_simps]

text \<open>A position that advances by a size inside of the table does not wrap.\<close>

lemma advance_no_wrap:
  "sz \<le> e - p \<Longrightarrow> p \<le> e \<Longrightarrow> unat (p + sz) = unat p + unat sz \<and> p + sz \<le> e" for e p sz :: u32
  by (auto; unat_arith)

lemma offset_no_wrap: "unat p + n < 2 ^ 32 \<Longrightarrow> unat (p + of_nat n) = unat p + n" for p :: u32
  by (simp add: unat_word_ariths unat_of_nat)

lemma range_ok_end:
  "range_ok sz off len \<Longrightarrow> sz < 2 ^ 32 \<Longrightarrow>
     unat (off + len) = unat off + unat len \<and> unat (off + len) \<le> sz \<and> off \<le> off + len"
  unfolding range_ok_def by (auto simp: unat_word_ariths word_le_nat_alt)

section \<open>The header\<close>

lemma read_header_no_fault: "68 \<le> length p \<Longrightarrow> read_header p \<noteq> Fault"
  unfolding read_header_def by (intro rbind_neq_Fault) (auto simp: fault_simps)

lemma parse_header_no_fault: "sz \<le> length p \<Longrightarrow> parse_header p sz \<noteq> Fault"
  unfolding parse_header_def
  using read_header_no_fault[of p] by (auto simp: rbind_eq_Fault fault_simps split: if_splits option.splits)

lemma parse_header_ranges: "parse_header p sz = Ok (Some h) \<Longrightarrow> header_ranges_ok sz h"
  unfolding parse_header_def by (auto simp: res_simps split: if_splits option.splits)

lemma parse_header_minimum: "parse_header p sz = Ok (Some h) \<Longrightarrow> 68 \<le> sz"
  unfolding parse_header_def by (auto split: if_splits)

lemma parse_header_not_Err [simp]: "parse_header p sz \<noteq> Err e"
  by (auto simp: parse_header_def read_header_def rbind_eq_Err split: if_splits option.splits)

section \<open>The file\<close>

definition reads_at_most_asked :: "img_env \<Rightarrow> bool" where
  "reads_at_most_asked E \<longleftrightarrow> (\<forall>d n bs. ie_read E d n = Some bs \<longrightarrow> length bs \<le> n)"

lemma read_file_length:
  "reads_at_most_asked E \<Longrightarrow> length data \<le> n \<Longrightarrow> read_file E n data = Some r \<Longrightarrow> length r = n"
proof (induction E n data rule: read_file.induct)
  case (1 E n data)
  show ?case
  proof (cases "length data < n")
    case True
    then obtain got where g: "ie_read E (length data) (n - length data) = Some got" "got \<noteq> []"
        "read_file E n (data @ got) = Some r"
      using "1.prems"(3) by (subst (asm) read_file.simps) (auto split: option.splits if_splits)
    have "length got \<le> n - length data"
      using "1.prems"(1) g(1) by (auto simp: reads_at_most_asked_def)
    then show ?thesis
      using "1.IH"[OF True g(1,2) "1.prems"(1)] g(3) True by simp
  next
    case False
    then have "read_file E n data = Some data" by (subst read_file.simps) simp
    with False "1.prems" show ?thesis by simp
  qed
qed

text \<open>What an accepted image satisfies.\<close>

definition image_ok :: "s3e_image \<Rightarrow> bool" where
  "image_ok img \<longleftrightarrow> length (im_file_data img) = im_file_size img \<and> im_file_size img < 2 ^ 32 \<and>
     header_ranges_ok (im_file_size img) (im_header img)"

lemma load_no_fault:
  assumes "reads_at_most_asked E"
  shows "s3e_image_load E \<noteq> Fault"
proof -
  have "parse_header data n \<noteq> Fault" if "read_file E n [] = Some data" for data n
    using parse_header_no_fault read_file_length[OF assms _ that] by simp
  then show ?thesis
    unfolding s3e_image_load_def Let_def by (auto simp: rbind_eq_Fault split: option.splits)
qed

lemma load_not_Err [simp]: "s3e_image_load E \<noteq> Err e"
  by (auto simp: s3e_image_load_def Let_def rbind_eq_Err split: option.splits)

lemma load_ok:
  assumes "reads_at_most_asked E" and "s3e_image_load E = Ok (True, img)"
  shows "image_ok img" and "sym_items (im_symbols img) = []" and "sym_count (im_symbols img) = 0"
proof -
  from assms(2) obtain st_size data h where s: "ie_stat E = Some st_size"
    "read_file E (nat (st_size mod 2 ^ 32)) [] = Some data"
    "parse_header data (nat (st_size mod 2 ^ 32)) = Ok (Some h)"
    "img = empty_image\<lparr>im_file_data := data, im_file_size := nat (st_size mod 2 ^ 32), im_header := h\<rparr>"
    unfolding s3e_image_load_def Let_def by (auto simp: res_simps split: if_splits option.splits)
  show "image_ok img"
    using read_file_length[OF assms(1) _ s(2)] parse_header_ranges[OF s(3)]
    by (simp add: image_ok_def s(4) nat_less_iff)
  show "sym_items (im_symbols img) = []" "sym_count (im_symbols img) = 0"
    by (simp_all add: s(4) empty_image_def)
qed

section \<open>The names\<close>

lemma scan_name_bounds:
  assumes "unat lim \<le> length data"
  shows "\<exists>c. scan_name data lim cursor = Ok c \<and> cursor \<le> c \<and> (cursor \<le> lim \<longrightarrow> c \<le> lim)"
  using assms
proof (induction data lim cursor rule: scan_name.induct)
  case (1 data lim cursor)
  show ?case
  proof (cases "cursor < lim \<and> data ! unat cursor \<noteq> 0")
    case True
    have i: "unat cursor < length data" using True "1.prems" by (simp add: word_less_nat_alt)
    have lt: "cursor \<le> cursor + 1" "cursor + 1 \<le> lim"
      using True by unat_arith+
    from "1.IH"[of "data ! unat cursor"] True "1.prems" obtain c where
      "scan_name data lim (cursor + 1) = Ok c" "cursor + 1 \<le> c" "c \<le> lim" using lt by auto
    moreover have "scan_name data lim cursor = scan_name data lim (cursor + 1)"
      using True by (subst scan_name.simps) (simp add: byte_at_Ok[OF i])
    ultimately show ?thesis using lt by auto
  next
    case False
    then have "cursor < lim \<Longrightarrow> (byte_at data (unat cursor) :: u8 mem) = Ok 0"
      using "1.prems" by (simp add: byte_at_def word_less_nat_alt)
    with False show ?thesis by (subst scan_name.simps) auto
  qed
qed

lemma parse_names_no_fault:
  "unat lim \<le> length data \<Longrightarrow> cursor \<le> lim \<Longrightarrow> parse_names E data lim n cursor items \<noteq> Fault"
proof (induction n arbitrary: cursor items)
  case (Suc n)
  from scan_name_bounds[OF Suc.prems(1), of cursor] obtain c where
    c: "scan_name data lim cursor = Ok c" "cursor \<le> c" "c \<le> lim" using Suc.prems(2) by blast
  have len: "unat cursor + unat (c - cursor) = unat c" using c(2) by unat_arith
  have "c < lim \<Longrightarrow> c + 1 \<le> lim" by unat_arith
  moreover have "unat c \<le> length data" using c(3) Suc.prems(1) by (simp add: word_le_nat_alt)
  ultimately show ?case
    using Suc.IH[of "c + 1"] Suc.prems(1)
    by (auto simp: c(1) Let_def len rbind_eq_Fault fault_simps)
qed simp

lemma parse_names_length: "parse_names E data lim n cursor items = Ok (Some r) \<Longrightarrow> length r = length items + n"
proof (induction n arbitrary: cursor items)
  case (Suc n)
  then show ?case by (fastforce simp: res_simps Let_def split: if_splits)
qed simp

lemma scan_name_not_Err [simp]: "scan_name data lim cursor \<noteq> Err e"
proof (induction data lim cursor rule: scan_name.induct)
  case (1 data lim cursor)
  then show ?case by (subst scan_name.simps) (auto simp: rbind_eq_Err)
qed

lemma parse_names_not_Err [simp]: "parse_names E data lim n cursor items \<noteq> Err e"
  by (induction n arbitrary: cursor items) (auto simp: rbind_eq_Err Let_def)

section \<open>The fixup table\<close>

text \<open>
  The part of the walk that both passes share: eight bytes of a section head inside of the table,
  and a section that ends inside of it.
\<close>

lemma section_inside:
  fixes pos e sz :: u32
  assumes "pos < e" "sz \<le> e - pos" "8 \<le> sz" "unat e \<le> n" "n < 2 ^ 32"
  shows "unat (pos + sz) = unat pos + unat sz" "pos + sz \<le> e" "unat pos + unat sz \<le> n"
    "unat (pos + 8) = unat pos + 8"
proof -
  have l: "pos \<le> e" using assms(1) by simp
  show a: "unat (pos + sz) = unat pos + unat sz" and b: "pos + sz \<le> e"
    using advance_no_wrap[OF assms(2) l] by auto
  show c: "unat pos + unat sz \<le> n" using a b assms(4) by (simp add: word_le_nat_alt)
  have "8 \<le> unat sz" using assms(3) by (simp add: word_le_nat_alt)
  then show "unat (pos + 8) = unat pos + 8" using c assms(5) offset_no_wrap[of pos 8] by simp
qed

lemma parse_sections_not_Err [simp]: "parse_sections E data pos e tab \<noteq> Err x"
proof (induction E data pos e tab rule: parse_sections.induct)
  case (1 E data pos e tab)
  then show ?case
    by (subst parse_sections.simps) (auto simp: rbind_eq_Err Let_def split: option.splits if_splits)
qed

lemma parse_sections_no_fault:
  "unat e \<le> length data \<Longrightarrow> length data < 2 ^ 32 \<Longrightarrow> parse_sections E data pos e tab \<noteq> Fault"
proof (induction E data pos e tab rule: parse_sections.induct)
  case (1 E data pos e tab)
  show ?case
  proof (cases "pos < e \<and> \<not> e - pos < 8")
    case True
    then have room: "unat pos + 8 \<le> length data"
      using "1.prems"(1) by unat_arith
    have names: "parse_names E data (pos + sz) (unat count) (pos + 8 + 2) [] \<noteq> Fault"
      if "\<not> (sz < 8 \<or> e - pos < sz)" "\<not> sz < 10" for sz and count :: u16
    proof (rule parse_names_no_fault)
      have sz: "sz \<le> e - pos" "8 \<le> sz" "10 \<le> unat sz" using that by (auto simp: word_le_nat_alt word_less_nat_alt)
      note s = section_inside[OF conjunct1[OF True] sz(1,2) "1.prems"]
      show "unat (pos + sz) \<le> length data" using s by simp
      have "unat (pos + 10) = unat pos + 10" using offset_no_wrap[of pos 10] s(3) sz(3) "1.prems"(2) by simp
      then show "pos + 8 + 2 \<le> pos + sz" using s(1) sz(3) by (simp add: word_le_nat_alt add.assoc)
    qed
    have count: "rd16 data (unat (pos + 8)) \<noteq> Fault"
      if "\<not> (sz < 8 \<or> e - pos < sz)" "\<not> sz < 10" for sz
    proof -
      have sz: "sz \<le> e - pos" "8 \<le> sz" "10 \<le> unat sz" using that by (auto simp: word_le_nat_alt word_less_nat_alt)
      from section_inside[OF conjunct1[OF True] sz(1,2) "1.prems"] sz(3) show ?thesis
        by (simp add: fault_simps)
    qed
    show ?thesis
      using True room names count "1.IH" "1.prems"
      by (subst parse_sections.simps)
        (auto simp: Let_def rbind_eq_Fault fault_simps split: if_splits option.splits)
  next
    case False
    then show ?thesis by (subst parse_sections.simps) auto
  qed
qed

section \<open>Relocations\<close>

lemma internal_relocs_ok:
  assumes "4 \<le> ms" "unat ms \<le> length m" "unat cursor + 4 * n \<le> length data" "length data < 2 ^ 32"
  shows "\<exists>r m'. internal_relocs data ms delta n cursor m = Ok (r, m') \<and> length m' = length m"
  using assms(2,3)
proof (induction n arbitrary: cursor m)
  case (Suc n)
  obtain off where off: "rd32 data (unat cursor) = Ok off"
    using Suc.prems by (cases "rd32 data (unat cursor)") (auto simp: fault_simps)
  show ?case
  proof (cases "off > ms - 4")
    case False
    have o: "unat off + 4 \<le> length m" using False assms(1) Suc.prems(1) by unat_arith
    then obtain v m' where v: "rd32 m (unat off) = Ok v" "wr32 m (unat off) (v + delta) = Ok m'"
      by (cases "rd32 m (unat off)") (auto simp: fault_simps wr32_def)
    have "unat (cursor + 4) + 4 * n \<le> length data"
      using offset_no_wrap[of cursor 4] Suc.prems(2) assms(4) by simp
    with Suc.IH[of m' "cursor + 4"] Suc.prems(1) wr32_length[OF v(2)] show ?thesis
      by (auto simp: off v False)
  qed (auto simp: off)
qed auto

text \<open>The symbol table of an image, as \<open>items[i]\<close> with \<open>i < count\<close> needs it.\<close>

definition symbols_ok :: "s3e_image \<Rightarrow> bool" where
  "symbols_ok img \<longleftrightarrow> sym_count (im_symbols img) \<le> length (sym_items (im_symbols img))"

lemma external_relocs_ok:
  assumes "4 \<le> h_code_mem_size (im_header img)" "unat (h_code_mem_size (im_header img)) \<le> length m"
    "unat cursor + 6 * n \<le> length (im_file_data img)" "length (im_file_data img) < 2 ^ 32" "symbols_ok img"
  shows "\<exists>r m'. external_relocs E img n cursor m = Ok (r, m') \<and> length m' = length m"
  using assms(2,3)
proof (induction n arbitrary: cursor m)
  case (Suc n)
  let ?d = "im_file_data img"
  obtain hi lo ix where rd: "rd16 ?d (unat cursor) = Ok hi" "rd16 ?d (unat cursor + 2) = Ok lo"
      "rd16 ?d (unat cursor + 4) = Ok ix"
    using Suc.prems
    by (cases "rd16 ?d (unat cursor)"; cases "rd16 ?d (unat cursor + 2)"; cases "rd16 ?d (unat cursor + 4)")
      (auto simp: fault_simps)
  define off :: u32 where "off = push_bit 16 (ucast hi) OR ucast lo"
  define addr where "addr = ie_resolve E (sym_items (im_symbols img) ! unat ix)"
  show ?case
  proof (cases "off > h_code_mem_size (im_header img) - 4 \<or> unat ix \<ge> sym_count (im_symbols img) \<or> addr = 0")
    case False
    have o: "unat off + 4 \<le> length m" using False assms(1) Suc.prems(1) by unat_arith
    then obtain m' where m': "wr32 m (unat off) addr = Ok m'"
      by (auto simp: wr32_def)
    have "unat (cursor + 6) + 6 * n \<le> length ?d"
      using offset_no_wrap[of cursor 6] Suc.prems(2) assms(4) by simp
    with Suc.IH[of m' "cursor + 6"] Suc.prems(1) wr32_length[OF m'] m' False assms(5) show ?thesis
      by (simp add: rd Let_def symbols_ok_def flip: off_def addr_def del: add_2_eq_Suc')
  qed (use assms(5) in \<open>auto simp: rd Let_def symbols_ok_def simp flip: off_def addr_def simp del: add_2_eq_Suc'\<close>)
qed auto

lemma relocation_table_fits:
  fixes pos sz count :: u32
  assumes "\<not> sz < 12" "unat pos + unat sz \<le> n" "n < 2 ^ 32" "\<not> count > (sz - 12) div c" "0 < c"
  shows "unat (pos + 8) = unat pos + 8" "unat (pos + 8 + 4) = unat pos + 12"
    "unat pos + 12 + unat c * unat count \<le> n"
proof -
  have sz: "12 \<le> unat sz" using assms(1) by (simp add: word_less_nat_alt)
  show "unat (pos + 8) = unat pos + 8" using offset_no_wrap[of pos 8] sz assms(2,3) by simp
  have "pos + 8 + 4 = pos + 12" by simp
  then show "unat (pos + 8 + 4) = unat pos + 12"
    using offset_no_wrap[of pos 12] sz assms(2,3) by (simp only:) simp
  have "unat (sz - 12) = unat sz - 12" using assms(1) by unat_arith
  then have "unat count \<le> (unat sz - 12) div unat c"
    using assms(4) by (simp add: word_less_nat_alt not_less unat_div_distrib)
  then have "unat c * unat count \<le> unat c * ((unat sz - 12) div unat c)" by simp
  then have "unat c * unat count \<le> unat sz - 12" using times_div_less_eq_dividend le_trans by blast
  with sz assms(2) show "unat pos + 12 + unat c * unat count \<le> n" by simp
qed

lemma apply_section_ok:
  assumes "4 \<le> h_code_mem_size (im_header img)" "unat (h_code_mem_size (im_header img)) \<le> length m"
    "unat pos + unat sz \<le> length (im_file_data img)" "length (im_file_data img) < 2 ^ 32" "symbols_ok img"
  shows "\<exists>r m'. apply_section E img delta ty pos sz m = Ok (r, m') \<and> length m' = length m"
proof (cases "sz < 12 \<or> \<not> (ty = 1 \<or> ty = 2 \<or> ty = 3 \<or> ty = 4)")
  case True
  then show ?thesis
    by (auto simp: apply_section_def apply_internal_relocs_def apply_external_relocs_def Let_def)
next
  case False
  then have sz: "\<not> sz < 12" and "12 \<le> unat sz" by (auto simp: word_less_nat_alt)
  then have "unat (pos + 8) = unat pos + 8" "unat (pos + 8) + 4 \<le> length (im_file_data img)"
    using assms(3,4) offset_no_wrap[of pos 8] by auto
  then obtain count where count: "rd32 (im_file_data img) (unat (pos + 8)) = Ok count"
    by (cases "rd32 (im_file_data img) (unat (pos + 8))") (auto simp: fault_simps)
  note fit = relocation_table_fits[OF sz assms(3,4)]
  show ?thesis
  proof (cases "ty = 1")
    case True
    show ?thesis
    proof (cases "count > (sz - 12) div 4")
      case nf: False
      from fit(2,3)[OF nf] internal_relocs_ok[OF assms(1,2) _ assms(4), of "pos + 8 + 4" "unat count" delta]
      show ?thesis using True sz nf by (simp add: apply_section_def apply_internal_relocs_def Let_def count)
    qed (use True sz in \<open>auto simp: apply_section_def apply_internal_relocs_def Let_def count\<close>)
  next
    case ext: False
    show ?thesis
    proof (cases "count > (sz - 12) div 6")
      case nf: False
      from fit(2,3)[OF nf] external_relocs_ok[OF assms(1,2) _ assms(4,5), of "pos + 8 + 4" "unat count" E]
      show ?thesis using ext False sz nf by (simp add: apply_section_def apply_external_relocs_def Let_def count)
    qed (use ext False sz in \<open>auto simp: apply_section_def apply_external_relocs_def Let_def count\<close>)
  qed
qed

text \<open>
  The second walk does not test that a section head fits; it relies on the first walk, which
  accepted the same table.
\<close>

lemma relocate_sections_ok:
  assumes "4 \<le> h_code_mem_size (im_header img)" "symbols_ok img" "length (im_file_data img) < 2 ^ 32"
  shows "parse_sections E data pos e tab = Ok (True, tab') \<Longrightarrow> data = im_file_data img \<Longrightarrow>
    unat e \<le> length data \<Longrightarrow> unat (h_code_mem_size (im_header img)) \<le> length m \<Longrightarrow>
    \<exists>r m'. relocate_sections F img delta pos e m = Ok (r, m') \<and> length m' = length m"
proof (induction E data pos e tab arbitrary: m rule: parse_sections.induct)
  case (1 E data pos e tab)
  show ?case
  proof (cases "pos < e")
    case True
    have head: "\<not> e - pos < 8" using "1.prems"(1) True by (subst (asm) parse_sections.simps[of E data pos e tab]) auto
    then have "unat pos + 8 \<le> length data" using True "1.prems"(3) by unat_arith
    then obtain ty sz where rd: "rd32 data (unat pos) = Ok ty" "rd32 data (unat pos + 4) = Ok sz"
      by (cases "rd32 data (unat pos)"; cases "rd32 data (unat pos + 4)") (auto simp: fault_simps)
    have sz: "sz \<le> e - pos" "8 \<le> sz"
      using "1.prems"(1) True head rd by (subst (asm) parse_sections.simps[of E data pos e tab]; auto simp: Let_def split: if_splits)+
    have len: "length data < 2 ^ 32" using "1.prems"(2) assms(3) by simp
    note sec = section_inside[OF True sz "1.prems"(3) len]
    have rec: "\<exists>r m'. relocate_sections F img delta (pos + sz) e m1 = Ok (r, m') \<and> length m' = length m1"
      if m1: "length m1 = length m" for m1
    proof (cases "ty = 0")
      case z: True
      from "1.prems"(1) True head rd sz z have "\<not> sz < 10 \<and> (\<exists>(count::u16) items. ie_alloc E (pos + 8) (4 * unat count) \<and>
        parse_sections E data (pos + sz) e \<lparr>sym_items = items, sym_count = unat count\<rparr> = Ok (True, tab'))"
        by (subst (asm) parse_sections.simps[of E data pos e tab]) (auto simp: Let_def res_simps split: if_splits option.splits)
      then obtain count :: u16 and items where p: "\<not> sz < 10" "ie_alloc E (pos + 8) (4 * unat count)"
        "parse_sections E data (pos + sz) e \<lparr>sym_items = items, sym_count = unat count\<rparr> = Ok (True, tab')"
        by blast
      have inside: "\<not> (sz < 8 \<or> e - pos < sz)" using sz by (simp add: not_less)
      have ms: "unat (h_code_mem_size (im_header img)) \<le> length m1" using m1 "1.prems"(4) by simp
      have neg: "\<not> \<not> ie_alloc E (pos + 8) (4 * unat count)" using p(2) by simp
      show ?thesis unfolding m1 [symmetric]
        by (rule "1.IH"(1)[OF True head refl inside z p(1) neg p(3) "1.prems"(2,3) ms])
    next
      case nz: False
      from "1.prems"(1) True head rd sz nz have p: "parse_sections E data (pos + sz) e tab = Ok (True, tab')"
        by (subst (asm) parse_sections.simps[of E data pos e tab]) (auto simp: Let_def not_less split: if_splits)
      have inside: "\<not> (sz < 8 \<or> e - pos < sz)" using sz by (simp add: not_less)
      have ms: "unat (h_code_mem_size (im_header img)) \<le> length m1" using m1 "1.prems"(4) by simp
      show ?thesis unfolding m1 [symmetric]
        by (rule "1.IH"(2)[OF True head refl inside nz p "1.prems"(2,3) ms])
    qed
    from apply_section_ok[of img m pos sz F delta ty] assms sec(3) "1.prems"(2-) obtain r m1 where
      a: "apply_section F img delta ty pos sz m = Ok (r, m1)" "length m1 = length m" by auto
    from rec[OF a(2)] a sz rd "1.prems"(2) True show ?thesis
      by (subst relocate_sections.simps) (auto simp: not_less)
  next
    case False
    then show ?thesis by (subst relocate_sections.simps) auto
  qed
qed

section \<open>The mapping\<close>

lemma mod_power_bound: "n mod 2 ^ k < (2 ^ k :: nat)"
  by simp

lemma page_round_covers:
  assumes "k < 32"
  shows "page_round (2 ^ k) sz = 0 \<or> sz \<le> page_round (2 ^ k) sz"
proof -
  define y :: u32 where "y = sz + (2 ^ k - 1)"
  have m: "(2 ^ k - 1 :: u32) = mask k" by (simp add: mask_eq_exp_minus_1)
  have "y = (y AND mask k) OR (y AND NOT (mask k))" by (auto simp: bit_eq_iff bit_simps)
  also have "\<dots> = take_bit k y + (y AND NOT (mask k))"
    by (subst disjunctive_add [symmetric]) (auto simp: bit_simps take_bit_eq_mask)
  finally have "y AND NOT (mask k) = y - take_bit k y" by (simp add: algebra_simps)
  then have r: "page_round (2 ^ k) sz = y - take_bit k y" by (simp add: page_round_def Let_def m y_def)
  have t: "unat (take_bit k y) = unat y mod 2 ^ k" by (subst unsigned_take_bit_eq) (simp add: take_bit_eq_mod)
  then have "take_bit k y \<le> y" by (simp add: word_le_nat_alt)
  then have u: "unat (y - take_bit k y) = unat y - unat y mod 2 ^ k" using t by (simp add: unat_sub)
  have p32: "(2::nat) ^ k < 2 ^ 32" by (rule power_strict_increasing) (use assms in simp_all)
  have "(2 ^ k - 1 :: u32) = of_nat (2 ^ k - 1)" by (simp add: of_nat_diff)
  then have p: "unat (2 ^ k - 1 :: u32) = 2 ^ k - 1" using p32 by (simp only: unat_of_nat) simp
  show ?thesis
  proof (cases "unat sz + (2 ^ k - 1) < 2 ^ 32")
    case True
    then have "unat y = unat sz + (2 ^ k - 1)" by (simp add: y_def unat_word_ariths p)
    moreover have "unat y mod 2 ^ k \<le> 2 ^ k - 1" using mod_power_bound[of "unat y" k] by linarith
    moreover have "1 \<le> (2::nat) ^ k" by simp
    ultimately have "unat sz \<le> unat (y - take_bit k y)" using u by linarith
    then show ?thesis by (simp add: r word_le_nat_alt)
  next
    case False
    then have "unat y = unat sz + (2 ^ k - 1) - 2 ^ 32"
      using unat_u32[of sz] p32 by (simp add: y_def unat_word_ariths p mod_if)
    moreover have "1 \<le> (2::nat) ^ k" and "(2::nat) ^ 32 = 4294967296" by simp_all
    ultimately have "unat y < 2 ^ k" using unat_u32[of sz] by linarith
    then have "unat (y - take_bit k y) = 0" using u by simp
    then show ?thesis by (simp add: r unat_eq_zero)
  qed
qed

text \<open>What the loader relies on: a page size that is a power of two, no mapping of length 0.\<close>

definition mapping_contract :: "img_env \<Rightarrow> bool" where
  "mapping_contract E \<longleftrightarrow> (\<exists>k < 32. ie_page E = 2 ^ k) \<and> (\<forall>a. ie_mmap E a 0 = None)"

lemma load_code_ok:
  assumes "image_ok img" "h_code_mem_size (im_header img) \<le> map_size"
  shows "\<exists>m. load_code img map_size = Ok m \<and> length m = unat map_size"
proof -
  let ?h = "im_header img"
  have c: "unat (h_code_offset ?h) + unat (h_code_file_size ?h) \<le> length (im_file_data img)"
    "h_code_file_size ?h \<le> h_code_mem_size ?h"
    using assms(1) by (auto simp: image_ok_def header_ranges_ok_def range_ok_def not_less)
  have "unat (h_code_file_size ?h) + unat (h_code_mem_size ?h - h_code_file_size ?h) = unat (h_code_mem_size ?h)"
    using c(2) by unat_arith
  with c assms(2) show ?thesis
    by (auto simp: load_code_def Let_def bytes_at_Ok word_le_nat_alt)
qed

lemma map_and_relocate_ok:
  assumes "image_ok img" "symbols_ok img" "mapping_contract E" "4 \<le> h_code_mem_size (im_header img)"
    and "parse_sections F (im_file_data img) (h_fixup_offset (im_header img))
           (h_fixup_offset (im_header img) + h_fixup_size (im_header img)) tab = Ok (True, tab')"
  shows "\<exists>r loaded. s3e_image_map_and_relocate E img = Ok (r, loaded) \<and>
    (r \<longrightarrow> length (li_mem loaded) = unat (li_map_size loaded) \<and>
          h_code_mem_size (im_header img) \<le> li_map_size loaded \<and>
          li_entry_offset loaded < h_code_mem_size (im_header img))"
proof (cases "ie_mmap E (h_base_addr_orig (im_header img)) (page_round (ie_page E) (h_code_mem_size (im_header img)))")
  case None
  then show ?thesis by (auto simp: s3e_image_map_and_relocate_def Let_def)
next
  case (Some base)
  let ?h = "im_header img" and ?e = "h_fixup_offset (im_header img) + h_fixup_size (im_header img)"
  define ms where "ms = page_round (ie_page E) (h_code_mem_size ?h)"
  have ms: "h_code_mem_size ?h \<le> ms"
    using assms(3) Some page_round_covers[of _ "h_code_mem_size ?h"] unfolding mapping_contract_def ms_def
    by (metis option.distinct(1))
  obtain m where m: "load_code img ms = Ok m" "length m = unat ms"
    using load_code_ok[OF assms(1) ms] by blast
  have "unat ?e \<le> length (im_file_data img)"
    using assms(1) range_ok_end[of "im_file_size img" "h_fixup_offset ?h" "h_fixup_size ?h"]
    by (auto simp: image_ok_def header_ranges_ok_def)
  moreover have "unat (h_code_mem_size ?h) \<le> length m" using ms m(2) by (simp add: word_le_nat_alt)
  ultimately obtain r m' where
    "relocate_sections E img (base - h_base_addr_orig ?h) (h_fixup_offset ?h) ?e m = Ok (r, m')" "length m' = length m"
    using relocate_sections_ok[OF assms(4,2) _ assms(5) refl, of m E "base - h_base_addr_orig ?h"] assms(1)
    by (auto simp: image_ok_def)
  moreover have "h_entry_offset ?h < h_code_mem_size ?h"
    using assms(1) by (auto simp: image_ok_def header_ranges_ok_def)
  ultimately show ?thesis
    using Some m ms by (cases r) (auto simp: s3e_image_map_and_relocate_def Let_def simp flip: ms_def)
qed

lemma parse_sections_step:
  assumes "parse_sections E data pos e tab = Ok (r, tab')"
  shows "tab' = tab \<or> (\<exists>sz tab1. 8 \<le> sz \<and> sz \<le> e - pos \<and> parse_sections E data (pos + sz) e tab1 = Ok (r, tab') \<and>
    (tab1 = tab \<or> sym_count tab1 = length (sym_items tab1)))"
  using assms
  by (subst (asm) parse_sections.simps)
    (fastforce simp: Let_def res_simps not_less dest: parse_names_length split: if_splits option.splits)

lemma parse_sections_symbols:
  "parse_sections E data pos e tab = Ok (r, tab') \<Longrightarrow> sym_count tab \<le> length (sym_items tab) \<Longrightarrow>
    sym_count tab' \<le> length (sym_items tab')"
proof (induction "unat (e - pos)" arbitrary: pos tab rule: less_induct)
  case less
  from parse_sections_step[OF less.prems(1)] show ?case
  proof (elim disjE exE conjE)
    fix sz tab1
    assume sz: "8 \<le> sz" "sz \<le> e - pos" "parse_sections E data (pos + sz) e tab1 = Ok (r, tab')"
    show ?thesis if "tab1 = tab" using less.hyps[OF word_advance_measure[OF sz(1,2)] sz(3)] that less.prems(2) by simp
    show ?thesis if "sym_count tab1 = length (sym_items tab1)"
      using less.hyps[OF word_advance_measure[OF sz(1,2)] sz(3)] that by simp
  qed (use less.prems(2) in simp)
qed

text \<open>
  The bound \<open>code_mem_size - 4\<close> wraps for an image with less than a word of code memory: an offset
  behind the mapping passes the test, and the relocation writes there.
\<close>

lemma tiny_image_writes_outside:
  assumes "h_code_mem_size (im_header img) < 4" "off \<le> 0xFFFFFFFC" "length m < unat off + 4"
    and "\<not> sz < 12" "rd32 (im_file_data img) (unat (pos + 8)) = Ok count" "count \<noteq> 0" "\<not> count > (sz - 12) div 4"
    and "rd32 (im_file_data img) (unat (pos + 8 + 4)) = Ok off"
  shows "apply_internal_relocs img m pos sz delta = Fault"
proof -
  have "h_code_mem_size (im_header img) - 4 \<ge> 0xFFFFFFFC" using assms(1) by (unat_arith, simp)
  then have le: "\<not> off > h_code_mem_size (im_header img) - 4" using assms(2) by simp
  obtain n where n: "unat count = Suc n" using assms(6) by (metis not0_implies_Suc unat_eq_zero)
  have "rd32 m (unat off) = Fault" using assms(3) by (simp add: fault_simps)
  then show ?thesis
    using assms(4,5,7,8) le by (simp add: apply_internal_relocs_def Let_def n)
qed

section \<open>The whole load\<close>

text \<open>With an operating system that keeps its contract (a read gives at most what was asked for,
  pages are a power of two, no mapping of length 0) the loader never reads the file or writes the
  mapping out of bounds: \<open>s3e_image_load\<close> and the name pass end without a fault on any file, and
  when they accept it and the image has at least a word of code memory, the relocation pass ends
  without a fault too, and what it hands out is a mapping that holds the code and the entry point.
\<close>

lemma load_parse_map_ok:
  assumes "reads_at_most_asked E" "mapping_contract E"
  shows "\<exists>r img. s3e_image_load E = Ok (r, img) \<and>
    (r \<longrightarrow> (\<exists>p img'. s3e_image_parse_symbols E img = Ok (p, img') \<and>
      (p \<and> 4 \<le> h_code_mem_size (im_header img) \<longrightarrow>
        (\<exists>l loaded. s3e_image_map_and_relocate E img' = Ok (l, loaded) \<and>
          (l \<longrightarrow> length (li_mem loaded) = unat (li_map_size loaded) \<and>
            h_code_mem_size (im_header img) \<le> li_map_size loaded \<and>
            li_entry_offset loaded < h_code_mem_size (im_header img))))))"
proof -
  obtain r img where l: "s3e_image_load E = Ok (r, img)"
    using load_no_fault[OF assms(1)] by (cases "s3e_image_load E") auto
  have "\<exists>p img'. s3e_image_parse_symbols E img = Ok (p, img') \<and>
      (p \<and> 4 \<le> h_code_mem_size (im_header img) \<longrightarrow>
        (\<exists>l loaded. s3e_image_map_and_relocate E img' = Ok (l, loaded) \<and>
          (l \<longrightarrow> length (li_mem loaded) = unat (li_map_size loaded) \<and>
            h_code_mem_size (im_header img) \<le> li_map_size loaded \<and>
            li_entry_offset loaded < h_code_mem_size (im_header img))))" if r
  proof -
    let ?h = "im_header img" and ?e = "h_fixup_offset (im_header img) + h_fixup_size (im_header img)"
    note ok = load_ok[OF assms(1) l[unfolded eqTrueI[OF that]]]
    have e: "unat ?e \<le> length (im_file_data img)" "length (im_file_data img) < 2 ^ 32"
      using ok(1) range_ok_end[of "im_file_size img" "h_fixup_offset ?h" "h_fixup_size ?h"]
      by (auto simp: image_ok_def header_ranges_ok_def)
    from parse_sections_no_fault[OF e] obtain p tab where
      p: "parse_sections E (im_file_data img) (h_fixup_offset ?h) ?e (im_symbols img) = Ok (p, tab)"
      by (cases "parse_sections E (im_file_data img) (h_fixup_offset ?h) ?e (im_symbols img)") auto
    have s: "symbols_ok (img\<lparr>im_symbols := tab\<rparr>)" "image_ok (img\<lparr>im_symbols := tab\<rparr>)"
      using parse_sections_symbols[OF p] ok by (auto simp: symbols_ok_def image_ok_def)
    show ?thesis
      using map_and_relocate_ok[OF s(2,1) assms(2), of E "im_symbols img" tab] p
      by (cases p) (auto simp: s3e_image_parse_symbols_def Let_def)
  qed
  then show ?thesis using l by blast
qed

end
