(* ===== verification/Image_Properties.thy ===== *)
theory Image_Properties
  imports Image_Safety
begin

unbundle bit_operations_syntax

text \<open>
  What the loader does with a well-formed image. \<open>enc_header\<close> and \<open>enc_fixup\<close> write the format that
  the code reads, a header and a table of fixup sections with optional padding; the two properties
  say that the header read is the header written, that the names found are those of the name
  section, and that the mapping is the code with exactly the relocations of the table.
\<close>

section \<open>Little-endian values\<close>

definition le16 :: "u16 \<Rightarrow> u8 list" where
  "le16 v = [ucast v, ucast (drop_bit 8 v)]"

lemma length_le16 [simp]: "length (le16 v) = 2"
  by (simp add: le16_def)

lemma le32_join:
  "ucast (ucast v :: u8) OR push_bit 8 (ucast (ucast (drop_bit 8 v) :: u8)) OR
   push_bit 16 (ucast (ucast (drop_bit 16 v) :: u8)) OR push_bit 24 (ucast (ucast (drop_bit 24 v) :: u8)) = v"
  for v :: u32
proof (rule bit_word_eqI)
  fix n :: nat
  have "n < 8 \<or> (8 \<le> n \<and> n < 16) \<or> (16 \<le> n \<and> n < 24) \<or> 24 \<le> n" by arith
  then show "bit (ucast (ucast v :: u8) OR push_bit 8 (ucast (ucast (drop_bit 8 v) :: u8)) OR
      push_bit 16 (ucast (ucast (drop_bit 16 v) :: u8)) OR push_bit 24 (ucast (ucast (drop_bit 24 v) :: u8)) :: u32) n = bit v n"
    if "n < LENGTH(32)"
    using that by (elim disjE) (auto simp: bit_simps)
qed

lemma le16_join: "ucast (ucast v :: u8) OR push_bit 8 (ucast (ucast (drop_bit 8 v) :: u8)) = v" for v :: u16
  by (rule bit_word_eqI) (auto simp: bit_simps)

lemma rd32_at: "take 4 (drop p d) = le32 v \<Longrightarrow> rd32 d p = Ok v"
proof -
  assume a: "take 4 (drop p d) = le32 v"
  then have "length (take 4 (drop p d)) = 4" by simp
  then have "p + 4 \<le> length d" by simp
  with a show ?thesis by (simp add: rd32_def bytes_at_Ok) (simp add: le32_def le32_join)
qed

lemma rd16_at: "take 2 (drop p d) = le16 v \<Longrightarrow> rd16 d p = Ok v"
proof -
  assume a: "take 2 (drop p d) = le16 v"
  then have "length (take 2 (drop p d)) = 2" by simp
  then have "p + 2 \<le> length d" by simp
  with a show ?thesis by (simp add: rd16_def bytes_at_Ok) (simp add: le16_def le16_join)
qed

text \<open>A buffer that holds \<open>bs\<close> at \<open>p\<close>.\<close>

definition holds :: "u8 list \<Rightarrow> nat \<Rightarrow> u8 list \<Rightarrow> bool" where
  "holds d p bs \<longleftrightarrow> take (length bs) (drop p d) = bs \<and> p + length bs \<le> length d"

lemma holds_append: "holds d p (a @ b) \<longleftrightarrow> holds d p a \<and> holds d (p + length a) b"
proof (cases "p + length (a @ b) \<le> length d")
  case True
  then have "length (take (length a) (drop p d)) = length a" by simp
  then have "take (length a) (drop p d) @ take (length b) (drop (p + length a) d) = a @ b \<longleftrightarrow>
      take (length a) (drop p d) = a \<and> take (length b) (drop (p + length a) d) = b" by simp
  with True show ?thesis by (simp add: holds_def take_add add.commute)
qed (auto simp: holds_def)

lemma holds_le32: "holds d p (le32 v) \<Longrightarrow> rd32 d p = Ok v"
  by (simp add: holds_def rd32_at)

lemma holds_le16: "holds d p (le16 v) \<Longrightarrow> rd16 d p = Ok v"
  by (simp add: holds_def rd16_at)

lemma holds_length: "holds d p bs \<Longrightarrow> p + length bs \<le> length d"
  by (simp add: holds_def)

lemma holds_nth: "holds d p bs \<Longrightarrow> i < length bs \<Longrightarrow> d ! (p + i) = bs ! i"
  by (metis holds_def add.commute add_leD1 nth_drop nth_take)

section \<open>The header\<close>

definition enc_header :: "s3e_header \<Rightarrow> u8 list" where
  "enc_header h = le32 (h_ident h) @ le32 (h_version h) @ le16 (h_flags h) @ le16 (h_arch h) @
     le32 (h_fixup_offset h) @ le32 (h_fixup_size h) @ le32 (h_code_offset h) @ le32 (h_code_file_size h) @
     le32 (h_code_mem_size h) @ le32 (h_sig_offset h) @ le32 (h_sig_size h) @ le32 (h_entry_offset h) @
     le32 (h_config_offset h) @ le32 (h_config_size h) @ le32 (h_base_addr_orig h) @
     le32 (h_extra_offset h) @ le32 (h_extra_size h) @ le32 (h_ext_header_size h) @
     (if h_ext_header_size h = 12 then le32 (h_data_offset h) @ le32 (h_is_juice h) else [])"

text \<open>A header that carries no value in the fields it does not store.\<close>

definition header_stored :: "s3e_header \<Rightarrow> bool" where
  "header_stored h \<longleftrightarrow> h_ext_header_size h = 12 \<or> (h_data_offset h = 0 \<and> h_is_juice h = 0)"

lemma read_header_enc:
  assumes "holds d 0 (enc_header h)"
  shows "read_header d = Ok (h\<lparr>h_data_offset := 0, h_is_juice := 0\<rparr>)"
    and "h_ext_header_size h = 12 \<Longrightarrow> rd32 d 68 = Ok (h_data_offset h) \<and> rd32 d 72 = Ok (h_is_juice h)"
proof -
  have fields: "rd32 d 0 = Ok (h_ident h)" "rd32 d 4 = Ok (h_version h)" "rd16 d 8 = Ok (h_flags h)"
    "rd16 d 10 = Ok (h_arch h)" "rd32 d 12 = Ok (h_fixup_offset h)" "rd32 d 16 = Ok (h_fixup_size h)"
    "rd32 d 20 = Ok (h_code_offset h)" "rd32 d 24 = Ok (h_code_file_size h)" "rd32 d 28 = Ok (h_code_mem_size h)"
    "rd32 d 32 = Ok (h_sig_offset h)" "rd32 d 36 = Ok (h_sig_size h)" "rd32 d 40 = Ok (h_entry_offset h)"
    "rd32 d 44 = Ok (h_config_offset h)" "rd32 d 48 = Ok (h_config_size h)" "rd32 d 52 = Ok (h_base_addr_orig h)"
    "rd32 d 56 = Ok (h_extra_offset h)" "rd32 d 60 = Ok (h_extra_size h)" "rd32 d 64 = Ok (h_ext_header_size h)"
    and ext: "h_ext_header_size h = 12 \<Longrightarrow> rd32 d 68 = Ok (h_data_offset h) \<and> rd32 d 72 = Ok (h_is_juice h)"
    using assms by (auto simp: enc_header_def holds_append dest: holds_le32 holds_le16 split: if_splits)
  show "read_header d = Ok (h\<lparr>h_data_offset := 0, h_is_juice := 0\<rparr>)"
    by (simp add: read_header_def fields)
  show "rd32 d 68 = Ok (h_data_offset h) \<and> rd32 d 72 = Ok (h_is_juice h)" if "h_ext_header_size h = 12"
    using ext that by simp
qed

lemma parse_header_enc:
  assumes "holds d 0 (enc_header h)" "header_stored h"
  shows "parse_header d (length d) =
    Ok (if h_ident h = S3E_MAGIC \<and> header_ranges_ok (length d) h then Some h else None)"
proof -
  have len: "68 \<le> length d" "h_ext_header_size h = 12 \<Longrightarrow> 76 \<le> length d"
    using holds_length[OF assms(1)] by (auto simp: enc_header_def split: if_splits)
  note r = read_header_enc[OF assms(1)]
  show ?thesis
  proof (cases "h_ext_header_size h = 12")
    case True
    have "h\<lparr>h_data_offset := h_data_offset h, h_is_juice := h_is_juice h\<rparr> = h" by simp
    with True len r(1) r(2)[OF True] show ?thesis by (simp add: parse_header_def)
  next
    case False
    then have h: "h\<lparr>h_data_offset := 0, h_is_juice := 0\<rparr> = h"
      using assms(2) by (cases h) (simp add: header_stored_def)
    show ?thesis using False len(1) r(1)[unfolded h] by (simp add: parse_header_def)
  qed
qed

text \<open>A system that gives out the file: every read delivers some of what is left.\<close>

definition serves_file :: "img_env \<Rightarrow> u8 list \<Rightarrow> bool" where
  "serves_file E file \<longleftrightarrow> ie_open E \<and> ie_stat E = Some (int (length file)) \<and> ie_malloc E (length file) \<and>
     (\<forall>d < length file. \<exists>k > 0. ie_read E d (length file - d) = Some (take k (drop d file)))"

lemma read_file_serves:
  assumes "serves_file E file"
  shows "d \<le> length file \<Longrightarrow> read_file E (length file) (take d file) = Some file"
proof (induction "length file - d" arbitrary: d rule: less_induct)
  case less
  show ?case
  proof (cases "d < length file")
    case True
    then obtain k where k: "0 < k" "ie_read E d (length file - d) = Some (take k (drop d file))"
      using assms by (auto simp: serves_file_def)
    define d' where "d' = min (d + k) (length file)"
    have app: "take d file @ take k (drop d file) = take d' file"
      by (simp add: d'_def min_def flip: take_add)
    have "read_file E (length file) (take d' file) = Some file"
      using less.hyps[of d'] True k(1) by (simp add: d'_def)
    then show ?thesis
      using True k by (subst read_file.simps) (simp add: app)
  next
    case False
    then show ?thesis by (subst read_file.simps) simp
  qed
qed

lemma load_written:
  assumes "serves_file E file" "length file < 2 ^ 32" "holds file 0 (enc_header h)" "header_stored h"
  shows "s3e_image_load E = Ok (if h_ident h = S3E_MAGIC \<and> header_ranges_ok (length file) h
    then (True, \<lparr>im_file_data = file, im_file_size = length file, im_header = h,
                 im_symbols = \<lparr>sym_items = [], sym_count = 0\<rparr>\<rparr>)
    else (False, empty_image))"
proof -
  have "68 \<le> length file" using holds_length[OF assms(3)] by (simp add: enc_header_def split: if_splits)
  then have "0 < length file" by linarith
  moreover have "nat (int (length file) mod 2 ^ 32) = length file" using assms(2) by simp
  ultimately show ?thesis
    using assms(1) read_file_serves[OF assms(1), of 0] parse_header_enc[OF assms(3,4)]
    by (simp add: s3e_image_load_def serves_file_def empty_image_def Let_def)
qed


section \<open>The fixup table\<close>

datatype fixup =
    Fix_Names "cstring list"
  | Fix_Internal "u32 list"
  | Fix_External u32 "(u32 \<times> u16) list"
  | Fix_Other u32 "u8 list"

fun fixup_type :: "fixup \<Rightarrow> u32" where
  "fixup_type (Fix_Names ns) = 0"
| "fixup_type (Fix_Internal os) = 1"
| "fixup_type (Fix_External t es) = t"
| "fixup_type (Fix_Other t b) = t"

fun fixup_body :: "fixup \<Rightarrow> u8 list" where
  "fixup_body (Fix_Names ns) = le16 (of_nat (length ns)) @ concat (map (\<lambda>n. n @ [0]) ns)"
| "fixup_body (Fix_Internal os) = le32 (of_nat (length os)) @ concat (map le32 os)"
| "fixup_body (Fix_External t es) = le32 (of_nat (length es)) @
     concat (map (\<lambda>(off, i). le16 (ucast (drop_bit 16 off)) @ le16 (ucast off) @ le16 i) es)"
| "fixup_body (Fix_Other t b) = b"

definition enc_fixup :: "fixup \<times> u8 list \<Rightarrow> u8 list" where
  "enc_fixup = (\<lambda>(f, pad). le32 (fixup_type f) @ le32 (of_nat (8 + length (fixup_body f @ pad))) @ fixup_body f @ pad)"

definition enc_table :: "(fixup \<times> u8 list) list \<Rightarrow> u8 list" where
  "enc_table fs = concat (map enc_fixup fs)"

fun fixup_ok :: "fixup \<Rightarrow> bool" where
  "fixup_ok (Fix_Names ns) \<longleftrightarrow> length ns < 2 ^ 16 \<and> (\<forall>n \<in> set ns. 0 \<notin> set n)"
| "fixup_ok (Fix_Internal os) \<longleftrightarrow> True"
| "fixup_ok (Fix_External t es) \<longleftrightarrow> t \<in> {2, 3, 4}"
| "fixup_ok (Fix_Other t b) \<longleftrightarrow> t \<notin> {0, 1, 2, 3, 4}"

text \<open>The imported names: those of the last name section.\<close>

fun table_names :: "s3e_symbol_table \<Rightarrow> (fixup \<times> u8 list) list \<Rightarrow> s3e_symbol_table" where
  "table_names tab [] = tab"
| "table_names tab ((Fix_Names ns, pad) # fs) = table_names \<lparr>sym_items = ns, sym_count = length ns\<rparr> fs"
| "table_names tab (f # fs) = table_names tab fs"

lemma scan_name_found:
  assumes "unat lim \<le> length data" "length data < 2 ^ 32"
  shows "0 \<notin> set n \<Longrightarrow> holds data (unat c) (n @ [0]) \<Longrightarrow> unat c + length n < unat lim \<Longrightarrow>
    scan_name data lim c = Ok (c + of_nat (length n))"
proof (induction n arbitrary: c)
  case Nil
  then have "data ! unat c = 0" "c < lim" using holds_nth[of data "unat c" "[0]" 0] by (auto simp: word_less_nat_alt)
  with Nil assms show ?case by (subst scan_name.simps) (simp add: byte_at_Ok)
next
  case (Cons b n)
  have "data ! unat c = b" "c < lim" "unat c < length data"
    using Cons.prems assms holds_nth[of data "unat c" "(b # n) @ [0]" 0] by (auto simp: word_less_nat_alt)
  moreover have u: "unat (c + 1) = unat c + 1"
    using Cons.prems(3) assms offset_no_wrap[of c 1] by simp
  moreover have "holds data (unat c + 1) (n @ [0])"
    using Cons.prems(2) holds_append[of data "unat c" "[b]" "n @ [0]"] by simp
  ultimately show ?case
    using Cons.IH[of "c + 1"] Cons.prems by (subst scan_name.simps) (simp add: byte_at_Ok add.assoc)
qed

lemma parse_names_found:
  assumes "unat lim \<le> length data" "length data < 2 ^ 32" "\<And>at n. ie_alloc E at n"
  shows "\<forall>n \<in> set ns. 0 \<notin> set n \<Longrightarrow> holds data (unat c) (concat (map (\<lambda>n. n @ [0]) ns)) \<Longrightarrow>
    unat c + length (concat (map (\<lambda>n. n @ [0 :: u8]) ns)) \<le> unat lim \<Longrightarrow>
    parse_names E data lim (length ns) c items = Ok (Some (items @ ns))"
proof (induction ns arbitrary: c items)
  case (Cons n ns)
  define c' where "c' = c + of_nat (length n)"
  have h: "holds data (unat c) (n @ [0])" "holds data (unat c + (length n + 1)) (concat (map (\<lambda>n. n @ [0]) ns))"
    using iffD1[OF holds_append, of data "unat c" "n @ [0]" "concat (map (\<lambda>n. n @ [0]) ns)"] Cons.prems(2)
    by simp_all
  have "unat c + (length n + 1) \<le> unat lim" using Cons.prems(3) by simp
  then have small: "unat c + length n < 2 ^ 32" "unat c + (length n + 1) < 2 ^ 32"
    using assms(1,2) by linarith+
  have step: "c' + 1 = c + of_nat (length n + 1)" by (simp add: c'_def)
  have u: "unat c' = unat c + length n" "unat (c' + 1) = unat c + (length n + 1)"
    unfolding step by (rule offset_no_wrap[OF small(2)] | simp only: c'_def, rule offset_no_wrap[OF small(1)])+
  have scan: "scan_name data lim c = Ok c'"
    unfolding c'_def using Cons.prems h(1) assms(1,2) by (intro scan_name_found) auto
  have "unat (c' - c) = length n" using u(1) by (subst unat_sub) (simp_all add: word_le_nat_alt)
  moreover have "\<not> c' \<ge> lim" using Cons.prems(3) u(1) by (simp add: word_le_nat_alt)
  moreover have "(bytes_at data (unat c) (length n) :: u8 list mem) = Ok n"
    using h(1) holds_append[of data "unat c" n "[0]"] by (simp add: holds_def bytes_at_Ok)
  ultimately show ?case
    using Cons.IH[of "c' + 1" "items @ [n]"] Cons.prems h(2) u(2) assms(3) by (simp add: scan Let_def)
qed simp

text \<open>What both passes see of the first section of a table.\<close>

lemma holds_in: "holds d p (a @ b @ c) \<Longrightarrow> holds d (p + length a) b"
  by (simp add: holds_append)

lemma section_head:
  fixes pos e :: u32
  assumes h: "holds data (unat pos) (enc_fixup (f, pad) @ rest)"
    and e: "unat pos + length (enc_fixup (f, pad)) \<le> unat e" and d: "unat e \<le> length data" "length data < 2 ^ 32"
  obtains sz where "pos < e" "\<not> e - pos < 8" "rd32 data (unat pos) = Ok (fixup_type f)"
    "rd32 data (unat pos + 4) = Ok sz" "\<not> (sz < 8 \<or> sz > e - pos)" "unat sz = 8 + length (fixup_body f) + length pad"
    "unat (pos + sz) = unat pos + length (enc_fixup (f, pad))" "unat (pos + 8) = unat pos + 8"
    "holds data (unat (pos + 8)) (fixup_body f)" "holds data (unat (pos + sz)) rest"
proof -
  define sz :: u32 where "sz = of_nat (8 + length (fixup_body f @ pad))"
  have enc: "enc_fixup (f, pad) = le32 (fixup_type f) @ le32 sz @ fixup_body f @ pad"
    by (simp add: enc_fixup_def sz_def)
  have len: "length (enc_fixup (f, pad)) = 8 + length (fixup_body f) + length pad" by (simp add: enc)
  then have small: "8 + length (fixup_body f) + length pad < 2 ^ 32" using e d by linarith
  then have sz: "unat sz = 8 + length (fixup_body f) + length pad" by (simp only: sz_def unat_of_nat) simp
  have pe: "unat pos < unat e" "8 \<le> unat e - unat pos" "unat sz \<le> unat e - unat pos" using e len sz by linarith+
  have sub: "unat (e - pos) = unat e - unat pos" using pe(1) by (simp add: unat_sub word_le_nat_alt)
  have "unat pos + unat sz < 2 ^ 32" "unat pos + 8 < 2 ^ 32" using e d len sz by linarith+
  then have add: "unat (pos + sz) = unat pos + unat sz" "unat (pos + 8) = unat pos + 8"
    by (simp_all add: unat_word_ariths)
  show thesis
  proof (rule that)
    show "pos < e" "\<not> e - pos < 8" "\<not> (sz < 8 \<or> sz > e - pos)"
      using pe sub sz by (auto simp: word_less_nat_alt)
    show "rd32 data (unat pos) = Ok (fixup_type f)"
      by (rule holds_le32) (use h in \<open>simp add: enc holds_append\<close>)
    show "rd32 data (unat pos + 4) = Ok sz"
      by (rule holds_le32) (use h in \<open>simp add: enc holds_append\<close>)
    show "unat sz = 8 + length (fixup_body f) + length pad" by (rule sz)
    show "unat (pos + sz) = unat pos + length (enc_fixup (f, pad))" using add(1) sz len by simp
    show "unat (pos + 8) = unat pos + 8" by (rule add(2))
    show "holds data (unat (pos + 8)) (fixup_body f)"
      using h unfolding add(2) by (simp add: enc holds_append add.assoc)
    show "holds data (unat (pos + sz)) rest"
      using h unfolding add(1) sz by (simp add: enc holds_append add.assoc)
  qed
qed

lemma parse_sections_found:
  assumes "unat e \<le> length data" "length data < 2 ^ 32" "\<And>at n. ie_alloc E at n"
  shows "\<forall>(f, pad) \<in> set fs. fixup_ok f \<Longrightarrow> holds data (unat pos) (enc_table fs) \<Longrightarrow>
    unat e = unat pos + length (enc_table fs) \<Longrightarrow>
    parse_sections E data pos e tab = Ok (0 < sym_count (table_names tab fs), table_names tab fs)"
proof (induction fs arbitrary: pos tab)
  case Nil
  then have "pos = e" by (simp add: enc_table_def word_unat_eq_iff)
  then show ?case by (subst parse_sections.simps) simp
next
  case (Cons fp fs)
  obtain f pad where fp: "fp = (f, pad)" by (cases fp)
  have tabl: "enc_table (fp # fs) = enc_fixup (f, pad) @ enc_table fs" by (simp add: enc_table_def fp)
  have h: "holds data (unat pos) (enc_fixup (f, pad) @ enc_table fs)" using Cons.prems(2) tabl by simp
  have le: "unat pos + length (enc_fixup (f, pad)) \<le> unat e" using Cons.prems(3) tabl by simp
  from section_head[OF h le assms(1,2)] obtain sz where sh:
    "pos < e" "\<not> e - pos < 8" "rd32 data (unat pos) = Ok (fixup_type f)"
    "rd32 data (unat pos + 4) = Ok sz" "\<not> (sz < 8 \<or> sz > e - pos)" "unat sz = 8 + length (fixup_body f) + length pad"
    "unat (pos + sz) = unat pos + length (enc_fixup (f, pad))" "unat (pos + 8) = unat pos + 8"
    "holds data (unat (pos + 8)) (fixup_body f)" "holds data (unat (pos + sz)) (enc_table fs)" by metis
  have rec: "parse_sections E data (pos + sz) e tab1 = Ok (0 < sym_count (table_names tab1 fs), table_names tab1 fs)"
    for tab1
    using Cons.IH[of "pos + sz" tab1] Cons.prems(1,3) sh(7,10) tabl by (auto simp: fp)
  note go = parse_sections.simps[of E data pos e tab]
  show ?case
  proof (cases "\<exists>ns. f = Fix_Names ns")
    case True
    then obtain ns where f: "f = Fix_Names ns" by blast
    then have ok: "length ns < 2 ^ 16" "\<forall>n \<in> set ns. 0 \<notin> set n" using Cons.prems(1) by (simp_all add: fp)
    have sz10: "\<not> sz < 10" using sh(6) by (simp add: f word_less_nat_alt)
    have b: "holds data (unat (pos + 8)) (le16 (of_nat (length ns)))"
      "holds data (unat (pos + 8) + 2) (concat (map (\<lambda>n. n @ [0]) ns))"
      using sh(9) by (simp_all add: f holds_append)
    have u10: "unat (pos + 8 + 2) = unat (pos + 8) + 2"
    proof -
      have "unat (pos + 8) + 2 < 2 ^ 32" using holds_length[OF b(1)] assms(2) by simp
      then show ?thesis using offset_no_wrap[of "pos + 8" 2] by simp
    qed
    have "length (enc_fixup (f, pad)) = unat sz" using sh(6) by (simp add: enc_fixup_def)
    then have lim: "unat (pos + sz) \<le> length data" "unat (pos + 8 + 2) + length (concat (map (\<lambda>n. n @ [0 :: u8]) ns)) \<le> unat (pos + sz)"
      using sh(6,7,8) le assms(1) u10 by (simp_all add: f)
    have count: "unat (of_nat (length ns) :: u16) = length ns" using ok(1) by (simp add: unat_of_nat)
    have "rd16 data (unat (pos + 8)) = Ok (of_nat (length ns))" by (rule holds_le16[OF b(1)])
    moreover have "parse_names E data (pos + sz) (length ns) (pos + 8 + 2) [] = Ok (Some ns)"
      using parse_names_found[OF lim(1) assms(2,3) ok(2), of "pos + 8 + 2" "[]"] b(2) lim(2) unfolding u10 by simp
    ultimately show ?thesis
      using sh sz10 assms(3) rec[of "\<lparr>sym_items = ns, sym_count = length ns\<rparr>"]
      by (subst go) (simp add: fp f Let_def count del: add_2_eq_Suc')
  next
    case False
    then have "fixup_type f \<noteq> 0" "table_names tab (fp # fs) = table_names tab fs"
      using Cons.prems(1) by (cases f; auto simp: fp)+
    with sh rec[of tab] show ?thesis by (subst go) (simp add: Let_def)
  qed
qed

section \<open>The relocations\<close>

text \<open>A relocation replaces the word at its offset by a function of it.\<close>

type_synonym reloc = "u32 \<times> (u32 \<Rightarrow> u32)"

definition word_at :: "u8 list \<Rightarrow> nat \<Rightarrow> u32" where
  "word_at m p = (case rd32 m p of Ok v \<Rightarrow> v | _ \<Rightarrow> 0)"

definition relocate :: "reloc \<Rightarrow> u8 list \<Rightarrow> u8 list" where
  "relocate = (\<lambda>(off, g) m. buf_write m (unat off) (le32 (g (word_at m (unat off)))))"

text \<open>An internal relocation adds the distance of the load; an external one stores the address of a name.\<close>

fun fixup_relocs :: "(cstring \<Rightarrow> u32) \<Rightarrow> cstring list \<Rightarrow> u32 \<Rightarrow> fixup \<Rightarrow> reloc list" where
  "fixup_relocs resolve names delta (Fix_Internal os) = map (\<lambda>off. (off, \<lambda>v. v + delta)) os"
| "fixup_relocs resolve names delta (Fix_External t es) = map (\<lambda>(off, i). (off, \<lambda>v. resolve (names ! unat i))) es"
| "fixup_relocs resolve names delta _ = []"

definition table_relocs :: "(cstring \<Rightarrow> u32) \<Rightarrow> cstring list \<Rightarrow> u32 \<Rightarrow> (fixup \<times> u8 list) list \<Rightarrow> reloc list" where
  "table_relocs resolve names delta fs = concat (map (\<lambda>(f, pad). fixup_relocs resolve names delta f) fs)"

fun relocs_ok :: "(cstring \<Rightarrow> u32) \<Rightarrow> cstring list \<Rightarrow> u32 \<Rightarrow> fixup \<Rightarrow> bool" where
  "relocs_ok resolve names ms (Fix_Internal os) \<longleftrightarrow> (\<forall>off \<in> set os. off \<le> ms - 4)"
| "relocs_ok resolve names ms (Fix_External t es) \<longleftrightarrow> (\<forall>(off, i) \<in> set es. off \<le> ms - 4 \<and>
     unat i < length names \<and> resolve (names ! unat i) \<noteq> 0)"
| "relocs_ok resolve names ms _ \<longleftrightarrow> True"

definition apart :: "reloc \<Rightarrow> reloc \<Rightarrow> bool" where
  "apart r s \<longleftrightarrow> unat (fst r) + 4 \<le> unat (fst s) \<or> unat (fst s) + 4 \<le> unat (fst r)"

definition relocs_inside :: "u8 list \<Rightarrow> reloc list \<Rightarrow> bool" where
  "relocs_inside m rs \<longleftrightarrow> (\<forall>r \<in> set rs. unat (fst r) + 4 \<le> length m)"

lemma length_relocate: "unat (fst r) + 4 \<le> length m \<Longrightarrow> length (relocate r m) = length m"
  by (simp add: relocate_def split_beta)

lemma relocate_nth:
  assumes "unat (fst r) + 4 \<le> length m" "i < unat (fst r) \<or> unat (fst r) + 4 \<le> i"
  shows "relocate r m ! i = m ! i"
  using assms by (auto simp: relocate_def split_beta buf_write_def nth_append min_def)

lemma rd32_cong:
  assumes "\<forall>i < 4. m ! (p + i) = m' ! (p + i)" "length m = length m'"
  shows "rd32 m p = rd32 m' p"
proof (cases "p + 4 \<le> length m")
  case True
  then have "take 4 (drop p m) = take 4 (drop p m')" using assms by (intro nth_equalityI) auto
  with True assms(2) show ?thesis by (simp add: rd32_def bytes_at_Ok)
qed (use assms(2) in \<open>simp add: rd32_def bytes_at_def\<close>)

lemma word_at_apart:
  assumes "unat (fst r) + 4 \<le> length m" "apart r (off, g)"
  shows "word_at (relocate r m) (unat off) = word_at m (unat off)"
proof -
  have "rd32 (relocate r m) (unat off) = rd32 m (unat off)"
    by (rule rd32_cong) (use assms in \<open>auto simp: apart_def length_relocate intro!: relocate_nth\<close>)
  then show ?thesis by (simp add: word_at_def)
qed

lemma word_at_relocate:
  assumes "unat off + 4 \<le> length m"
  shows "word_at (relocate (off, g) m) (unat off) = g (word_at m (unat off))"
proof -
  have "holds (relocate (off, g) m) (unat off) (le32 (g (word_at m (unat off))))"
    using assms by (simp add: holds_def relocate_def buf_write_def)
  from holds_le32[OF this] show ?thesis by (simp add: word_at_def)
qed

lemma fold_relocate:
  "relocs_inside m rs \<Longrightarrow> length (fold relocate rs m) = length m \<and>
    (\<forall>i. (\<forall>r \<in> set rs. i < unat (fst r) \<or> unat (fst r) + 4 \<le> i) \<longrightarrow> fold relocate rs m ! i = m ! i)"
  by (induction rs arbitrary: m) (auto simp: relocs_inside_def length_relocate relocate_nth)

lemma fold_relocate_word:
  assumes "relocs_inside m rs" "\<forall>r \<in> set rs. apart r (off, g)"
  shows "word_at (fold relocate rs m) (unat off) = word_at m (unat off)"
  using assms
  by (induction rs arbitrary: m) (auto simp: relocs_inside_def length_relocate word_at_apart)

lemma apart_sym: "apart r s \<Longrightarrow> apart s r"
  by (auto simp: apart_def)

lemma fold_relocate_at:
  "relocs_inside m rs \<Longrightarrow> sorted_wrt apart rs \<Longrightarrow> (off, g) \<in> set rs \<Longrightarrow>
    word_at (fold relocate rs m) (unat off) = g (word_at m (unat off))"
proof (induction rs arbitrary: m)
  case (Cons r rs)
  have r: "unat (fst r) + 4 \<le> length m" and rs: "relocs_inside (relocate r m) rs"
    using Cons.prems(1) by (auto simp: relocs_inside_def length_relocate)
  show ?case
  proof (cases "r = (off, g)")
    case True
    have "\<forall>s \<in> set rs. apart s (off, g)" using Cons.prems(2) True by (auto intro: apart_sym)
    from fold_relocate_word[OF rs this] show ?thesis using word_at_relocate[of off m g] r True by simp
  next
    case False
    then have "(off, g) \<in> set rs" "apart r (off, g)" using Cons.prems(2,3) by auto
    with Cons.IH[OF rs] Cons.prems(2) word_at_apart[OF r] show ?thesis by simp
  qed
qed simp

end
