(* ===== verification/Assets_Properties.thy ===== *)
theory Assets_Properties
  imports Complex_Main Assets Image_Properties
begin

unbundle bit_operations_syntax

text \<open>
  The patches of the game touch nothing but their targets: the artwork patch clears the alpha
  nibble of the pixels of the stick rectangles, the hooks replace the two slots of the director, and
  the name patch replaces one relative reference. The factor that is passed to the guest is the
  value of the \<open>float\<close> between 0 and 1 in units of 1/4096.
\<close>

section \<open>The interpolation factor\<close>

definition float_exponent :: "u32 \<Rightarrow> nat" where
  "float_exponent bits = unat (drop_bit 23 bits AND 0xff)"

definition float_fraction :: "u32 \<Rightarrow> nat" where
  "float_fraction bits = unat (bits AND 0x7fffff)"

text \<open>The value of a finite \<open>float\<close> (IEEE 754 binary32).\<close>

definition float_value :: "u32 \<Rightarrow> real" where
  "float_value bits = (if bit bits 31 then -1 else 1) *
     (if float_exponent bits = 0 then real (float_fraction bits) / 2 ^ 149
      else real (2 ^ 23 + float_fraction bits) * 2 ^ float_exponent bits / 2 ^ 150)"

lemma floor_div_power: "\<lfloor>real a / 2 ^ n\<rfloor> = int (a div 2 ^ n)"
  using floor_divide_of_nat_eq[of a "2 ^ n", where 'a = real] by simp

lemma float_fraction_small: "float_fraction bits < 2 ^ 23"
proof -
  have "bits AND 0x7fffff = take_bit 23 bits" by (simp add: take_bit_eq_mask mask_eq_exp_minus_1)
  then have "float_fraction bits = unat bits mod 2 ^ 23"
    by (simp only: float_fraction_def unsigned_take_bit_eq) (simp add: take_bit_eq_mod)
  then show ?thesis by simp
qed

lemma float_exponent_small: "float_exponent bits < 256"
proof -
  have "drop_bit 23 bits AND 0xff = take_bit 8 (drop_bit 23 bits)" by (simp add: take_bit_eq_mask mask_eq_exp_minus_1)
  then have "float_exponent bits = unat (drop_bit 23 bits) mod 2 ^ 8"
    by (simp only: float_exponent_def unsigned_take_bit_eq) (simp add: take_bit_eq_mod)
  then show ?thesis by simp
qed

lemma interpolation_factor_exact:
  "interpolation_factor bits =
     (if float_exponent bits = 255 \<or> float_value bits \<le> 0 then 0
      else if float_value bits \<ge> 1 then 4096 else \<lfloor>float_value bits * 4096\<rfloor>)"
proof -
  let ?e = "float_exponent bits" and ?m = "float_fraction bits"
  have m: "?m < 2 ^ 23" by (rule float_fraction_small)
  have unfolded: "interpolation_factor bits =
      (if ?e = 255 \<or> bit bits 31 \<or> ?e = 0 \<and> ?m = 0 then 0 else if ?e \<ge> 127 then 4096
       else if ?e = 0 then int (?m * 4096 div 2 ^ 149) else int ((2 ^ 23 + ?m) * 4096 div 2 ^ (150 - ?e)))"
    by (simp add: interpolation_factor_def Let_def float_exponent_def float_fraction_def FIXED_FACTOR_ONE_def)
  show ?thesis
  proof (cases "?e = 255 \<or> bit bits 31 \<or> (?e = 0 \<and> ?m = 0)")
    case True
    then have "?e = 255 \<or> float_value bits \<le> 0" by (auto simp: float_value_def)
    with True show ?thesis unfolding unfolded by simp
  next
    case False
    then have pos: "float_value bits > 0" by (auto simp: float_value_def)
    show ?thesis
    proof (cases "?e \<ge> 127")
      case True
      have "(2::real) ^ 150 = 2 ^ 23 * 2 ^ 127" by (simp flip: power_add)
      also have "\<dots> \<le> real (2 ^ 23 + ?m) * 2 ^ ?e"
        by (intro mult_mono power_increasing) (use True in auto)
      finally have "float_value bits \<ge> 1" using False True by (simp add: float_value_def)
      with False True pos show ?thesis unfolding unfolded by simp
    next
      case small: False
      have lt: "float_value bits < 1"
      proof (cases "?e = 0")
        case True
        have "(2::nat) ^ 23 \<le> 2 ^ 149" by (rule power_increasing) simp_all
        then have "real ?m < real (2 ^ 149)" using m by (simp only: of_nat_less_iff)
        with True False show ?thesis by (simp add: float_value_def)
      next
        case nz: False
        have "2 ^ 23 + ?m < 2 ^ 24" using m by simp
        then have "real (2 ^ 23 + ?m) < real (2 ^ 24)" by (simp only: of_nat_less_iff)
        then have "real (2 ^ 23 + ?m) * 2 ^ ?e < real (2 ^ 24) * 2 ^ ?e" by (rule mult_strict_right_mono) simp
        also have "\<dots> \<le> 2 ^ 24 * 2 ^ 126" using small by (intro mult_mono power_increasing) simp_all
        also have "\<dots> = (2::real) ^ 150" by (simp flip: power_add)
        finally show ?thesis using False nz by (simp add: float_value_def)
      qed
      have "\<lfloor>float_value bits * 4096\<rfloor> = interpolation_factor bits"
      proof (cases "?e = 0")
        case True
        then have "float_value bits * 4096 = real (?m * 4096) / 2 ^ 149" using False by (simp add: float_value_def)
        then have "\<lfloor>float_value bits * 4096\<rfloor> = int (?m * 4096 div 2 ^ 149)" by (simp only: floor_div_power)
        then show ?thesis using True False unfolding unfolded by (simp only: if_False if_True) simp
      next
        case nz: False
        have scale: "(2::real) ^ ?e / 2 ^ 150 = 1 / 2 ^ (150 - ?e)"
          using small by (simp add: power_diff)
        have "float_value bits * 4096 = real ((2 ^ 23 + ?m) * 4096) * (2 ^ ?e / 2 ^ 150)"
          using False nz by (simp add: float_value_def)
        then have "float_value bits * 4096 = real ((2 ^ 23 + ?m) * 4096) / 2 ^ (150 - ?e)"
          unfolding scale by simp
        then have "\<lfloor>float_value bits * 4096\<rfloor> = int ((2 ^ 23 + ?m) * 4096 div 2 ^ (150 - ?e))" by (simp only: floor_div_power)
        then show ?thesis using nz False small unfolding unfolded by simp
      qed
      with pos lt False show ?thesis by simp
    qed
  qed
qed

lemma interpolation_factor_range: "0 \<le> interpolation_factor bits \<and> interpolation_factor bits \<le> 4096"
proof -
  have "\<lfloor>float_value bits * 4096\<rfloor> \<le> 4096" if "\<not> float_value bits \<ge> 1"
    using that by (simp add: floor_le_iff)
  then show ?thesis by (auto simp: interpolation_factor_exact)
qed

section \<open>The artwork\<close>

text \<open>The bytes that the patch clears the low half of: one in each pixel of the rectangles.\<close>

definition rect_bytes :: "nat \<Rightarrow> hud_rect \<Rightarrow> nat list" where
  "rect_bytes pixels r =
     concat (map (\<lambda>y. map (\<lambda>x. pixels + 2 * (1024 * y + hr_x r + x)) [0..<hr_width r]) [hr_y r..<hr_y r + hr_height r])"

lemma clear_rect_flat: "clear_rect pixels r = rfold clear_alpha (rect_bytes pixels r)"
proof -
  have "rfold (\<lambda>x. clear_alpha (pixels + (y * HUD_ATLAS_WIDTH + hr_x r) * HUD_ATLAS_BYTES_PER_PIXEL + x * HUD_ATLAS_BYTES_PER_PIXEL)) xs =
      rfold clear_alpha (map (\<lambda>x. pixels + 2 * (1024 * y + hr_x r + x)) xs)" for y and xs :: "nat list"
    by (simp add: rfold_map HUD_ATLAS_WIDTH_def HUD_ATLAS_BYTES_PER_PIXEL_def algebra_simps)
  then have "clear_rect pixels r = rfold (\<lambda>y. rfold clear_alpha (map (\<lambda>x. pixels + 2 * (1024 * y + hr_x r + x)) [0..<hr_width r]))
      [hr_y r..<hr_y r + hr_height r]"
    by (simp only: clear_rect_def Let_def)
  then show ?thesis by (simp add: rect_bytes_def rfold_nested fun_eq_iff)
qed

lemma clear_all:
  assumes "\<forall>i \<in> set is. i < length d"
  shows "\<exists>d'. rfold clear_alpha is d = Ok d' \<and> length d' = length d \<and>
    (\<forall>i < length d. d' ! i = (if i \<in> set is then d ! i AND 0xf0 else d ! i))"
  using assms
proof (induction "is" arbitrary: d)
  case (Cons j js)
  let ?d = "d[j := d ! j AND 0xf0]"
  from Cons.IH[of ?d] Cons.prems obtain d' where d': "rfold clear_alpha js ?d = Ok d'" "length d' = length d"
    "\<forall>i < length d. d' ! i = (if i \<in> set js then ?d ! i AND 0xf0 else ?d ! i)" by auto
  have twice: "(b AND 0xf0) AND 0xf0 = b AND (0xf0 :: u8)" for b by (simp only: and.assoc and.idem)
  have "\<forall>i < length d. d' ! i = (if i \<in> set (j # js) then d ! i AND 0xf0 else d ! i)"
  proof (intro allI impI)
    fix i
    assume i: "i < length d"
    show "d' ! i = (if i \<in> set (j # js) then d ! i AND 0xf0 else d ! i)"
      using d'(3) i twice[of "d ! j"] by (cases "i = j") auto
  qed
  moreover have "clear_alpha j d = Ok ?d" using Cons.prems by (simp add: clear_alpha_def)
  ultimately show ?case using d'(1,2) by auto
qed simp

definition stick_bytes :: "nat \<Rightarrow> nat list" where
  "stick_bytes pixels = concat (map (rect_bytes pixels) stick_rects)"

lemma stick_bytes_inside: "i \<in> set (stick_bytes pixels) \<Longrightarrow> i < pixels + atlas_size"
  by (auto simp: stick_bytes_def stick_rects_def rect_bytes_def atlas_size_def HUD_ATLAS_WIDTH_def
      HUD_ATLAS_HEIGHT_def HUD_ATLAS_BYTES_PER_PIXEL_def)

text \<open>The data is a group file of the layout, with the header of the atlas before its pixels.\<close>

definition atlas_here :: "u8 list \<Rightarrow> hud_atlas_layout \<Rightarrow> bool" where
  "atlas_here data l \<longleftrightarrow> length data = hl_group_size l \<and> length atlas_header \<le> hl_pixel_offset l \<and>
     hl_pixel_offset l + atlas_size \<le> length data \<and> holds data (hl_pixel_offset l - length atlas_header) atlas_header"

definition without_sticks :: "nat \<Rightarrow> u8 list \<Rightarrow> u8 list" where
  "without_sticks pixels data =
     map (\<lambda>i. if i \<in> set (stick_bytes pixels) then data ! i AND 0xf0 else data ! i) [0..<length data]"

lemma find_atlas_finds:
  "find_atlas data (length data) ls = Ok (map_option hl_pixel_offset (List.find (atlas_here data) ls))"
proof (induction ls)
  case (Cons l ls)
  let ?o = "hl_pixel_offset l"
  show ?case
  proof (cases "length data = hl_group_size l \<and> ?o \<ge> length atlas_header \<and> ?o + atlas_size \<le> length data")
    case True
    then have fits: "?o - length atlas_header + length atlas_header \<le> length data" by simp
    then have "(bytes_at data (?o - length atlas_header) (length atlas_header) :: u8 list mem) =
        Ok (take (length atlas_header) (drop (?o - length atlas_header) data))" by (rule bytes_at_Ok)
    moreover have "take (length atlas_header) (drop (?o - length atlas_header) data) = atlas_header \<longleftrightarrow> atlas_here data l"
      using True fits by (auto simp: atlas_here_def holds_def)
    ultimately show ?thesis using Cons True by (simp add: Let_def)
  next
    case False
    then have "\<not> atlas_here data l" by (auto simp: atlas_here_def)
    then show ?thesis using Cons False by (auto simp: Let_def)
  qed
qed simp

lemma clear_sticks:
  assumes "atlas_here data l"
  shows "rfold (clear_rect (hl_pixel_offset l)) stick_rects data = Ok (without_sticks (hl_pixel_offset l) data)"
proof -
  let ?p = "hl_pixel_offset l"
  have "rfold (clear_rect ?p) stick_rects data = rfold clear_alpha (stick_bytes ?p) data"
    unfolding clear_rect_flat[abs_def] stick_bytes_def by (rule rfold_nested)
  moreover have "\<forall>i \<in> set (stick_bytes ?p). i < length data"
    using stick_bytes_inside[of _ ?p] assms by (fastforce simp: atlas_here_def)
  ultimately obtain d' where d': "rfold (clear_rect ?p) stick_rects data = Ok d'" "length d' = length data"
    "\<forall>i < length data. d' ! i = (if i \<in> set (stick_bytes ?p) then data ! i AND 0xf0 else data ! i)"
    using clear_all by metis
  then have "d' = without_sticks ?p data" by (intro nth_equalityI) (simp_all add: without_sticks_def)
  with d'(1) show ?thesis by simp
qed

text \<open>What the patch makes of a file.\<close>

definition patched :: "cstring option \<Rightarrow> u8 list \<Rightarrow> u8 list" where
  "patched name data =
    (if name \<noteq> None \<and> strcaseeq (base_name (the name)) (bytes_of ''ingame.group.bin'')
     then (case List.find (atlas_here data) layouts of
             None \<Rightarrow> data | Some l \<Rightarrow> without_sticks (hl_pixel_offset l) data)
     else data)"

lemma hide_patched: "codboz_hide_virtual_stick_artwork name data (length data) = Ok (patched name data)"
proof (cases "strcaseeq (base_name (case name of None \<Rightarrow> [] | Some n \<Rightarrow> n)) (bytes_of ''ingame.group.bin'')")
  case False
  then show ?thesis by (auto simp: patched_def codboz_hide_virtual_stick_artwork_def Let_def)
next
  case True
  then have named: "name \<noteq> None \<and> strcaseeq (base_name (the name)) (bytes_of ''ingame.group.bin'')"
    by (cases name) (auto simp: base_name_def strcaseeq_def bytes_of_def)
  show ?thesis
  proof (cases "List.find (atlas_here data) layouts")
    case None
    then show ?thesis using True named by (simp add: patched_def codboz_hide_virtual_stick_artwork_def Let_def find_atlas_finds)
  next
    case (Some l)
    then have "atlas_here data l" by (auto simp: find_Some_iff)
    with Some show ?thesis
      using True named by (simp add: patched_def codboz_hide_virtual_stick_artwork_def Let_def find_atlas_finds clear_sticks)
  qed
qed

text \<open>C28: Hiding the artwork of the virtual sticks never reads or writes outside of the file's data. Only the
  file \<open>ingame.group.bin\<close> (in any directory and case) of a known layout with the header of the atlas is changed, and in
  it exactly the low halves (the alpha) of the first bytes of the pixels in the three stick rectangles become
  zero; every other bit of the file stays.\<close>

theorem stick_artwork_hidden:
  "codboz_hide_virtual_stick_artwork name data (length data) =
    Ok (if name \<noteq> None \<and> strcaseeq (base_name (the name)) (bytes_of ''ingame.group.bin'')
        then (case List.find (atlas_here data) layouts of
                None \<Rightarrow> data | Some l \<Rightarrow> without_sticks (hl_pixel_offset l) data)
        else data)"
  by (simp add: hide_patched patched_def)

section \<open>Hooks and name\<close>

text \<open>A mapping whose buffer has the length of the record.\<close>

definition loaded_ok :: "s3e_loaded_image \<Rightarrow> bool" where
  "loaded_ok loaded \<longleftrightarrow> length (li_mem loaded) = unat (li_map_size loaded)"

lemma image_matches_ok:
  "loaded_ok loaded \<Longrightarrow> \<exists>r. image_matches loaded off bs = Ok r"
  by (auto simp: image_matches_def image_range_valid_def loaded_ok_def bytes_at_Ok)

lemma signatures_match_ok:
  assumes "loaded_ok loaded"
  shows "\<exists>r. signatures_match loaded = Ok r \<and> (r \<longrightarrow> image_range_valid loaded DIRECTOR_FIXED_SLOT_OFFSET 8)"
proof -
  have "\<exists>r. rfold (\<lambda>(offset, sig) ok. if \<not> ok then Ok False else image_matches loaded (2 * (offset div 2)) sig) xs b = Ok r"
    for xs b
  proof (induction xs arbitrary: b)
    case (Cons x xs)
    obtain off sig where x: "x = (off, sig)" by (cases x)
    from image_matches_ok[OF assms, of "2 * (off div 2)" sig] Cons show ?case by (cases b) (auto simp: x)
  qed simp
  then show ?thesis unfolding signatures_match_def by (auto simp del: rfold.simps)
qed

lemma unat_offset: "n < 2 ^ 32 \<Longrightarrow> unat (of_nat n :: u32) = n"
  by (simp add: unat_of_nat)

lemma wr32_ok: "p + 4 \<le> length m \<Longrightarrow> wr32 m p v = Ok (buf_write m p (le32 v))"
  by (simp add: wr32_def)

text \<open>What a successful installation leaves: the two slots, and nothing else.\<close>

lemma install_effect:
  assumes "loaded_ok loaded"
  shows "\<exists>r loaded' st'. codboz_install_frame_interpolation fh ih loaded st = Ok (r, loaded', st') \<and>
    (if r then image_range_valid loaded DIRECTOR_FIXED_SLOT_OFFSET 8 \<and>
        loaded' = loaded\<lparr>li_mem := buf_write (buf_write (li_mem loaded) DIRECTOR_FIXED_SLOT_OFFSET (le32 fh))
                                 DIRECTOR_INTERPOLATE_SLOT_OFFSET (le32 ih)\<rparr>
     else loaded' = loaded \<and> st' = st)"
proof -
  from signatures_match_ok[OF assms] obtain r where r: "signatures_match loaded = Ok r"
    "r \<Longrightarrow> image_range_valid loaded DIRECTOR_FIXED_SLOT_OFFSET 8" by blast
  show ?thesis
  proof (cases r)
    case True
    then have inside: "DIRECTOR_FIXED_SLOT_OFFSET + 8 \<le> length (li_mem loaded)"
      using r(2) assms by (auto simp: image_range_valid_def loaded_ok_def)
    then obtain v w where vw: "rd32 (li_mem loaded) DIRECTOR_FIXED_SLOT_OFFSET = Ok v"
      "rd32 (li_mem loaded) DIRECTOR_INTERPOLATE_SLOT_OFFSET = Ok w"
      by (cases "rd32 (li_mem loaded) DIRECTOR_FIXED_SLOT_OFFSET"; cases "rd32 (li_mem loaded) DIRECTOR_INTERPOLATE_SLOT_OFFSET")
        (auto simp: fault_simps DIRECTOR_FIXED_SLOT_OFFSET_def DIRECTOR_INTERPOLATE_SLOT_OFFSET_def)
    have wr: "wr32 (li_mem loaded) DIRECTOR_FIXED_SLOT_OFFSET fh = Ok (buf_write (li_mem loaded) DIRECTOR_FIXED_SLOT_OFFSET (le32 fh))"
      "wr32 (buf_write (li_mem loaded) DIRECTOR_FIXED_SLOT_OFFSET (le32 fh)) DIRECTOR_INTERPOLATE_SLOT_OFFSET ih =
        Ok (buf_write (buf_write (li_mem loaded) DIRECTOR_FIXED_SLOT_OFFSET (le32 fh)) DIRECTOR_INTERPOLATE_SLOT_OFFSET (le32 ih))"
      using inside by (auto intro!: wr32_ok simp: DIRECTOR_FIXED_SLOT_OFFSET_def DIRECTOR_INTERPOLATE_SLOT_OFFSET_def)
    show ?thesis
      using r True by (auto simp: codboz_install_frame_interpolation_def Let_def vw wr)
  next
    case False
    then show ?thesis using r by (auto simp: codboz_install_frame_interpolation_def)
  qed
qed

lemma override_effect:
  assumes "loaded_ok loaded"
  shows "\<exists>r loaded'. codboz_override_player_name loaded address = Ok (r, loaded') \<and>
    (if r then PLAYER_NAME_REFERENCE_OFFSET + 4 \<le> length (li_mem loaded) \<and>
        loaded' = loaded\<lparr>li_mem := buf_write (li_mem loaded) PLAYER_NAME_REFERENCE_OFFSET
          (le32 (address - (li_base loaded + of_nat PLAYER_NAME_REFERENCE_PC_OFFSET)))\<rparr>
     else loaded' = loaded)"
proof (cases "li_base loaded = 0 \<or> unat (li_map_size loaded) < PLAYER_NAME_FORMAT_OFFSET + length player_format")
  case False
  then have inside: "PLAYER_NAME_REFERENCE_OFFSET + 4 \<le> length (li_mem loaded)"
    "PLAYER_NAME_FORMAT_OFFSET + length player_format \<le> length (li_mem loaded)"
    using assms by (auto simp: loaded_ok_def PLAYER_NAME_REFERENCE_OFFSET_def PLAYER_NAME_FORMAT_OFFSET_def)
  then obtain v where "rd32 (li_mem loaded) PLAYER_NAME_REFERENCE_OFFSET = Ok v"
    by (cases "rd32 (li_mem loaded) PLAYER_NAME_REFERENCE_OFFSET") (auto simp: fault_simps)
  then show ?thesis
    using False inside by (auto simp: codboz_override_player_name_def Let_def bytes_at_Ok wr32_ok)
qed (auto simp: codboz_override_player_name_def)

end
