(* ===== verification/Image_Relocation.thy ===== *)
theory Image_Relocation
  imports Image_Properties
begin

unbundle bit_operations_syntax

text \<open>
  The relocation pass applies the relocations of the table, in its order, to the code followed by
  zeros, and the mapping that results holds at each relocated word what its entry asks for.
\<close>

lemma relocate_step:
  assumes "unat off + 4 \<le> length m"
  shows "rd32 m (unat off) = Ok (word_at m (unat off))" and
    "wr32 m (unat off) (g (word_at m (unat off))) = Ok (relocate (off, g) m)"
  using assms by (auto simp: word_at_def rd32_def bytes_at_Ok wr32_def relocate_def)

lemma inside_bound:
  fixes ms off :: u32
  assumes "4 \<le> ms" "unat ms \<le> n" "off \<le> ms - 4"
  shows "unat off + 4 \<le> n"
  using assms by unat_arith

lemma internal_relocs_applied:
  assumes "4 \<le> ms" "length data < 2 ^ 32"
  shows "\<forall>off \<in> set os. off \<le> ms - 4 \<Longrightarrow> holds data (unat cursor) (concat (map le32 os)) \<Longrightarrow>
    unat ms \<le> length m \<Longrightarrow>
    internal_relocs data ms delta (length os) cursor m =
      Ok (True, fold relocate (map (\<lambda>off. (off, \<lambda>v. v + delta)) os) m)"
proof (induction os arbitrary: cursor m)
  case (Cons off os)
  have in_m: "unat off + 4 \<le> length m" using inside_bound[OF assms(1)] Cons.prems by simp
  have h: "holds data (unat cursor) (le32 off)" "holds data (unat cursor + 4) (concat (map le32 os))"
    using Cons.prems(2) by (simp_all add: holds_append)
  show ?case
  proof (cases os)
    case Nil
    then show ?thesis
      using Cons.prems relocate_step(1)[OF in_m] relocate_step(2)[OF in_m, of "\<lambda>v. v + delta"]
      by (simp add: holds_le32[OF h(1)] not_less)
  next
    case (Cons o2 os2)
    then have "unat cursor + 4 < 2 ^ 32" using holds_length[OF h(2)] assms(2) by simp
    then have u: "unat (cursor + 4) = unat cursor + 4" using offset_no_wrap[of cursor 4] by simp
    have "internal_relocs data ms delta (length os) (cursor + 4) (relocate (off, \<lambda>v. v + delta) m) =
        Ok (True, fold relocate (map (\<lambda>off. (off, \<lambda>v. v + delta)) os) (relocate (off, \<lambda>v. v + delta) m))"
      using Cons.IH[of "cursor + 4"] Cons.prems h(2) u length_relocate[of "(off, \<lambda>v. v + delta)" m] in_m by simp
    then show ?thesis
      using Cons.prems(1) relocate_step(1)[OF in_m] relocate_step(2)[OF in_m, of "\<lambda>v. v + delta"]
      by (simp add: holds_le32[OF h(1)] not_less)
  qed
qed simp

lemma high_low_join: "push_bit 16 (ucast (ucast (drop_bit 16 v) :: u16)) OR ucast (ucast v :: u16) = v" for v :: u32
  by (rule bit_word_eqI) (auto simp: bit_simps)

lemma external_relocs_applied:
  fixes img :: s3e_image
  defines "ms \<equiv> h_code_mem_size (im_header img)" and "names \<equiv> sym_items (im_symbols img)"
  assumes "4 \<le> ms" "length (im_file_data img) < 2 ^ 32" "sym_count (im_symbols img) = length names"
  shows "\<forall>(off, i) \<in> set es. off \<le> ms - 4 \<and> unat i < length names \<and> ie_resolve E (names ! unat i) \<noteq> 0 \<Longrightarrow>
    holds (im_file_data img) (unat cursor)
      (concat (map (\<lambda>(off, i). le16 (ucast (drop_bit 16 off)) @ le16 (ucast off) @ le16 i) es)) \<Longrightarrow>
    unat ms \<le> length m \<Longrightarrow>
    external_relocs E img (length es) cursor m =
      Ok (True, fold relocate (map (\<lambda>(off, i). (off, \<lambda>v. ie_resolve E (names ! unat i))) es) m)"
proof (induction es arbitrary: cursor m)
  case (Cons p es)
  obtain off i where p: "p = (off, i)" by (cases p)
  let ?d = "im_file_data img" and ?a = "ie_resolve E (names ! unat i)"
  let ?enc = "concat (map (\<lambda>(off, i). le16 (ucast (drop_bit 16 off)) @ le16 (ucast off) @ le16 i) es)"
  have ok: "off \<le> ms - 4" "unat i < length names" "?a \<noteq> 0" using Cons.prems(1) by (auto simp: p)
  have in_m: "unat off + 4 \<le> length m" using inside_bound[OF assms(3) Cons.prems(3) ok(1)] .
  have h: "holds ?d (unat cursor) (le16 (ucast (drop_bit 16 off)))" "holds ?d (unat cursor + 2) (le16 (ucast off))"
    "holds ?d (unat cursor + 4) (le16 i)" "holds ?d (unat cursor + 6) ?enc"
    using Cons.prems(2) by (simp_all add: p holds_append add.assoc del: add_2_eq_Suc')
  have rec: "external_relocs E img (length es) (cursor + 6) (relocate (off, \<lambda>v. ?a) m) =
      Ok (True, fold relocate (map (\<lambda>(off, i). (off, \<lambda>v. ie_resolve E (names ! unat i))) es) (relocate (off, \<lambda>v. ?a) m))"
  proof (cases es)
    case (Cons q qs)
    then have "length ?enc > 0" by (simp add: split_beta)
    then have "unat cursor + 6 < 2 ^ 32" using holds_length[OF h(4)] assms(4) by linarith
    then have u: "unat (cursor + 6) = unat cursor + 6" using offset_no_wrap[of cursor 6] by simp
    show ?thesis
      using Cons.IH[of "cursor + 6"] Cons.prems h(4) u length_relocate[of "(off, \<lambda>v. ?a)" m] in_m by simp
  qed simp
  show ?case
    using ok rec relocate_step(2)[OF in_m, of "\<lambda>v. ?a"] assms(5)
    by (simp add: p Let_def holds_le16[OF h(1)] holds_le16[OF h(2)] holds_le16[OF h(3)] high_low_join not_less not_le
        flip: ms_def names_def del: add_2_eq_Suc')
qed simp

lemma apply_section_applied:
  fixes img :: s3e_image
  defines "ms \<equiv> h_code_mem_size (im_header img)" and "names \<equiv> sym_items (im_symbols img)"
  assumes "4 \<le> ms" "length (im_file_data img) < 2 ^ 32" "sym_count (im_symbols img) = length names"
    and ok: "fixup_ok f" "relocs_ok (ie_resolve E) names ms f" and m: "unat ms \<le> length m"
    and sz: "unat sz = 8 + length (fixup_body f) + n" and p8: "unat (pos + 8) = unat pos + 8"
    and h: "holds (im_file_data img) (unat (pos + 8)) (fixup_body f)"
  shows "apply_section E img delta (fixup_type f) pos sz m =
    Ok (True, fold relocate (fixup_relocs (ie_resolve E) names delta f) m)"
proof -
  have count: "unat (of_nat k :: u32) = k" if "k < 2 ^ 32" for k
    using that by (simp only: unat_of_nat) simp
  have u12: "unat (pos + 8 + 4) = unat (pos + 8) + 4" if "holds (im_file_data img) (unat (pos + 8) + 4) bs" "0 < length bs" for bs
  proof -
    have "unat (pos + 8) + 4 < 2 ^ 32" using that(2) holds_length[OF that(1)] assms(4) by linarith
    then show ?thesis using offset_no_wrap[of "pos + 8" 4] by simp
  qed
  have sub: "unat (sz - 12) = unat sz - 12" if "12 \<le> unat sz"
    using that by (simp add: unat_sub word_le_nat_alt)
  show ?thesis
  proof (cases f)
    case (Fix_Internal os)
    let ?enc = "concat (map le32 os)"
    have b: "holds (im_file_data img) (unat (pos + 8)) (le32 (of_nat (length os)))"
      "holds (im_file_data img) (unat (pos + 8) + 4) ?enc"
      using h by (simp_all add: Fix_Internal holds_append)
    have len: "length ?enc = 4 * length os" by (induction os) simp_all
    then have s: "unat sz = 12 + 4 * length os + n" using sz by (simp add: Fix_Internal)
    have small: "length os < 2 ^ 32" using holds_length[OF b(2)] len assms(4) by linarith
    have "internal_relocs (im_file_data img) ms delta (length os) (pos + 8 + 4) m =
        Ok (True, fold relocate (map (\<lambda>off. (off, \<lambda>v. v + delta)) os) m)"
    proof (cases "os = []")
      case False
      then have "0 < length ?enc" unfolding len by simp
      then show ?thesis
        using internal_relocs_applied[OF assms(3,4), of os "pos + 8 + 4" m delta] ok(2) b(2) m u12[OF b(2)]
        by (simp add: Fix_Internal)
    qed simp
    then show ?thesis
      using s sub small count[OF small]
      by (simp add: Fix_Internal apply_section_def apply_internal_relocs_def Let_def holds_le32[OF b(1)]
          word_less_nat_alt unat_div_distrib flip: ms_def)
  next
    case (Fix_External t es)
    let ?enc = "concat (map (\<lambda>(off, i). le16 (ucast (drop_bit 16 off)) @ le16 (ucast off) @ le16 i) es)"
    have b: "holds (im_file_data img) (unat (pos + 8)) (le32 (of_nat (length es)))"
      "holds (im_file_data img) (unat (pos + 8) + 4) ?enc"
      using h by (simp_all add: Fix_External holds_append)
    have len: "length ?enc = 6 * length es" by (induction es) (simp_all add: split_beta)
    then have s: "unat sz = 12 + 6 * length es + n" using sz by (simp add: Fix_External)
    have small: "length es < 2 ^ 32" using holds_length[OF b(2)] len assms(4) by linarith
    have "external_relocs E img (length es) (pos + 8 + 4) m =
        Ok (True, fold relocate (map (\<lambda>(off, i). (off, \<lambda>v. ie_resolve E (names ! unat i))) es) m)"
    proof (cases "es = []")
      case False
      then have "0 < length ?enc" unfolding len by simp
      then show ?thesis
        using external_relocs_applied[OF assms(3)[unfolded ms_def] assms(4,5)[unfolded names_def], of es E "pos + 8 + 4" m]
          ok(2) b(2) m u12[OF b(2)]
        by (simp add: Fix_External flip: ms_def names_def)
    qed simp
    then show ?thesis
      using s sub small count[OF small] ok(1)
      by (auto simp: Fix_External apply_section_def apply_external_relocs_def Let_def holds_le32[OF b(1)]
          word_less_nat_alt unat_div_distrib simp flip: ms_def)
  qed (use ok(1) in \<open>simp_all add: apply_section_def\<close>)
qed

lemma relocate_sections_applied:
  fixes img :: s3e_image
  defines "ms \<equiv> h_code_mem_size (im_header img)" and "names \<equiv> sym_items (im_symbols img)"
  assumes "4 \<le> ms" "length (im_file_data img) < 2 ^ 32" "sym_count (im_symbols img) = length names"
    and e: "unat e \<le> length (im_file_data img)"
  shows "\<forall>(f, pad) \<in> set fs. fixup_ok f \<and> relocs_ok (ie_resolve E) names ms f \<Longrightarrow>
    holds (im_file_data img) (unat pos) (enc_table fs) \<Longrightarrow> unat e = unat pos + length (enc_table fs) \<Longrightarrow>
    unat ms \<le> length m \<Longrightarrow>
    relocate_sections E img delta pos e m =
      Ok (True, fold relocate (table_relocs (ie_resolve E) names delta fs) m)"
proof (induction fs arbitrary: pos m)
  case Nil
  then have "pos = e" by (simp add: enc_table_def word_unat_eq_iff)
  then show ?case by (subst relocate_sections.simps) (simp add: table_relocs_def)
next
  case (Cons fp fs)
  obtain f pad where fp: "fp = (f, pad)" by (cases fp)
  have tabl: "enc_table (fp # fs) = enc_fixup (f, pad) @ enc_table fs" by (simp add: enc_table_def fp)
  have h: "holds (im_file_data img) (unat pos) (enc_fixup (f, pad) @ enc_table fs)" using Cons.prems(2) tabl by simp
  have le: "unat pos + length (enc_fixup (f, pad)) \<le> unat e" using Cons.prems(3) tabl by simp
  from section_head[OF h le e assms(4)] obtain sz where sh:
    "pos < e" "rd32 (im_file_data img) (unat pos) = Ok (fixup_type f)"
    "rd32 (im_file_data img) (unat pos + 4) = Ok sz" "\<not> (sz < 8 \<or> sz > e - pos)"
    "unat sz = 8 + length (fixup_body f) + length pad"
    "unat (pos + sz) = unat pos + length (enc_fixup (f, pad))" "unat (pos + 8) = unat pos + 8"
    "holds (im_file_data img) (unat (pos + 8)) (fixup_body f)"
    "holds (im_file_data img) (unat (pos + sz)) (enc_table fs)" by metis
  have ok: "fixup_ok f" "relocs_ok (ie_resolve E) names ms f" using Cons.prems(1) by (auto simp: fp)
  let ?rs = "fixup_relocs (ie_resolve E) names delta f"
  have now: "apply_section E img delta (fixup_type f) pos sz m = Ok (True, fold relocate ?rs m)"
    using apply_section_applied[OF assms(3)[unfolded ms_def] assms(4) assms(5)[unfolded names_def] ok(1)
        ok(2)[unfolded ms_def names_def] Cons.prems(4)[unfolded ms_def] sh(5,7,8)]
    by (simp add: names_def)
  have "relocs_inside m ?rs"
    using ok inside_bound[OF assms(3) Cons.prems(4)] by (cases f) (auto simp: relocs_inside_def)
  then have len: "unat ms \<le> length (fold relocate ?rs m)" using fold_relocate[of m ?rs] Cons.prems(4) by simp
  have "relocate_sections E img delta (pos + sz) e (fold relocate ?rs m) =
      Ok (True, fold relocate (table_relocs (ie_resolve E) names delta fs) (fold relocate ?rs m))"
    using Cons.IH[of "pos + sz" "fold relocate ?rs m"] Cons.prems(1,3) sh(6,9) tabl len by (auto simp: fp)
  then show ?case
    using sh(1-4) now by (subst relocate_sections.simps) (simp add: table_relocs_def fp)
qed

lemma table_relocs_inside:
  assumes "4 \<le> ms" "unat ms \<le> length m" "\<forall>(f, pad) \<in> set fs. fixup_ok f \<and> relocs_ok resolve names ms f"
  shows "relocs_inside m (table_relocs resolve names delta fs)"
proof -
  have "unat (fst r) + 4 \<le> length m"
    if "(f, pad) \<in> set fs" "r \<in> set (fixup_relocs resolve names delta f)" for f pad r
    using assms(3) that inside_bound[OF assms(1,2)] by (cases f) fastforce+
  then show ?thesis by (auto simp: relocs_inside_def table_relocs_def)
qed

text \<open>The mapping before the relocations: the code of the file, and zeros.\<close>

definition fresh_code :: "s3e_image \<Rightarrow> u32 \<Rightarrow> u8 list" where
  "fresh_code img map_size =
     (let h = im_header img; code = take (unat (h_code_file_size h)) (drop (unat (h_code_offset h)) (im_file_data img))
      in code @ replicate (unat map_size - length code) 0)"

lemma load_code_fresh:
  assumes "image_ok img" "h_code_mem_size (im_header img) \<le> map_size"
  shows "load_code img map_size = Ok (fresh_code img map_size)"
  using load_code_ok[OF assms]
  by (auto simp: load_code_def fresh_code_def Let_def bytes_at_def split: if_splits)

text \<open>C24: An accepted image whose fixup table is a list of well-formed sections is loaded as the format
  says: the imported names are those of its last name section, and, when every relocation lies in
  the code memory and every import is resolved, the mapping is the code followed by zeros with the
  relocations of all sections applied in order. So a byte that no relocation covers is unchanged,
  and when no two relocations overlap, each internal one has added the distance of the load to its
  word and each external one has stored the address of its name there.
\<close>

theorem image_relocation_meets_spec:
  fixes img :: s3e_image and fs :: "(fixup \<times> u8 list) list" and E :: img_env and base :: u32
  defines "h \<equiv> im_header img"
  defines "names \<equiv> table_names (im_symbols img) fs" and "map_size \<equiv> page_round (ie_page E) (h_code_mem_size h)"
  defines "delta \<equiv> base - h_base_addr_orig h" and "m0 \<equiv> fresh_code img map_size"
  defines "rs \<equiv> table_relocs (ie_resolve E) (sym_items names) delta fs"
  assumes "image_ok img" "4 \<le> h_code_mem_size h" "mapping_contract E" "ie_mmap E (h_base_addr_orig h) map_size = Some base"
    and "\<forall>at n. ie_alloc E at n" and "sym_count (im_symbols img) = length (sym_items (im_symbols img))"
    and "holds (im_file_data img) (unat (h_fixup_offset h)) (enc_table fs)" "length (enc_table fs) = unat (h_fixup_size h)"
    and "\<forall>(f, pad) \<in> set fs. fixup_ok f \<and> relocs_ok (ie_resolve E) (sym_items names) (h_code_mem_size h) f"
  shows "s3e_image_parse_symbols E img = Ok (0 < sym_count names, img\<lparr>im_symbols := names\<rparr>) \<and>
    (\<exists>m. s3e_image_map_and_relocate E (img\<lparr>im_symbols := names\<rparr>) =
        Ok (True, \<lparr>li_base = base, li_map_size = map_size, li_entry_offset = h_entry_offset h, li_mem = m\<rparr>) \<and>
      m = fold relocate rs m0 \<and>
      (\<forall>i. (\<forall>r \<in> set rs. i < unat (fst r) \<or> unat (fst r) + 4 \<le> i) \<longrightarrow> m ! i = m0 ! i) \<and>
      (sorted_wrt apart rs \<longrightarrow> (\<forall>(off, g) \<in> set rs. word_at m (unat off) = g (word_at m0 (unat off)))))"
proof (rule conjI)
  let ?e = "h_fixup_offset h + h_fixup_size h"
  have e: "unat ?e = unat (h_fixup_offset h) + unat (h_fixup_size h)" "unat ?e \<le> length (im_file_data img)"
    "length (im_file_data img) < 2 ^ 32"
    using assms(7) range_ok_end[of "im_file_size img" "h_fixup_offset h" "h_fixup_size h"]
    by (auto simp: image_ok_def header_ranges_ok_def h_def)
  have fok: "\<forall>(f, pad) \<in> set fs. fixup_ok f" using assms(15) by auto
  have "parse_sections E (im_file_data img) (h_fixup_offset h) ?e (im_symbols img) = Ok (0 < sym_count names, names)"
    using parse_sections_found[OF e(2,3) spec[OF spec[OF assms(11)]] fok assms(13), of "im_symbols img"] e(1) assms(14)
    by (simp add: names_def)
  then show "s3e_image_parse_symbols E img = Ok (0 < sym_count names, img\<lparr>im_symbols := names\<rparr>)"
    by (simp add: s3e_image_parse_symbols_def flip: h_def)
  have count: "sym_count tab = length (sym_items tab) \<Longrightarrow>
      sym_count (table_names tab fs) = length (sym_items (table_names tab fs))" for tab
    by (induction tab fs rule: table_names.induct) auto
  let ?img = "img\<lparr>im_symbols := names\<rparr>"
  have ms: "h_code_mem_size h \<le> map_size"
    using assms(9,10) page_round_covers[of _ "h_code_mem_size h"] unfolding mapping_contract_def map_size_def
    by (metis option.distinct(1))
  have load: "load_code ?img map_size = Ok m0"
    using load_code_fresh[of ?img map_size] assms(7) ms by (simp add: h_def m0_def image_ok_def fresh_code_def)
  have len: "unat (h_code_mem_size h) \<le> length m0"
    using load_code_ok[OF assms(7), of map_size] ms load_code_fresh[OF assms(7), of map_size]
    by (simp add: m0_def h_def word_le_nat_alt)
  have rel: "relocate_sections E ?img delta (h_fixup_offset h) ?e m0 = Ok (True, fold relocate rs m0)"
    using relocate_sections_applied[of ?img ?e fs E "h_fixup_offset h" m0 delta] e assms(8,12-15) len count
    by (simp add: rs_def names_def flip: h_def)
  have "relocs_inside m0 rs"
    unfolding rs_def by (rule table_relocs_inside[OF assms(8) len assms(15)])
  then show "\<exists>m. s3e_image_map_and_relocate E ?img =
        Ok (True, \<lparr>li_base = base, li_map_size = map_size, li_entry_offset = h_entry_offset h, li_mem = m\<rparr>) \<and>
      m = fold relocate rs m0 \<and>
      (\<forall>i. (\<forall>r \<in> set rs. i < unat (fst r) \<or> unat (fst r) + 4 \<le> i) \<longrightarrow> m ! i = m0 ! i) \<and>
      (sorted_wrt apart rs \<longrightarrow> (\<forall>(off, g) \<in> set rs. word_at m (unat off) = g (word_at m0 (unat off))))"
    using assms(10) load rel fold_relocate[of m0 rs] fold_relocate_at[of m0 rs]
    by (auto simp: s3e_image_map_and_relocate_def Let_def delta_def simp flip: h_def map_size_def)
qed

section \<open>Concrete images\<close>

definition sample_table :: "(fixup \<times> u8 list) list" where
  "sample_table = [(Fix_Names [[97]], []), (Fix_Internal [0], []), (Fix_External 2 [(4, 0)], [])]"

definition sample_header :: s3e_header where
  "sample_header = empty_header\<lparr>h_ident := S3E_MAGIC, h_fixup_offset := 68, h_fixup_size := 46,
     h_code_offset := 114, h_code_file_size := 8, h_code_mem_size := 8, h_base_addr_orig := 0x1000\<rparr>"

definition sample_file :: "u8 list" where
  "sample_file = enc_header sample_header @ enc_table sample_table @ le32 5 @ le32 6"

definition sample_env :: img_env where
  "sample_env = \<lparr>ie_open = True, ie_stat = Some 122, ie_malloc = (\<lambda>n. True),
     ie_read = (\<lambda>d n. Some (take n (drop d sample_file))), ie_alloc = (\<lambda>at n. True), ie_page = 4096,
     ie_mmap = (\<lambda>a n. if n = 0 then None else Some 0x3000), ie_resolve = (\<lambda>s. if s = [97] then 0x77 else 0)\<rparr>"

definition sample_image :: s3e_image where
  "sample_image = \<lparr>im_file_data = sample_file, im_file_size = 122, im_header = sample_header,
     im_symbols = \<lparr>sym_items = [], sym_count = 0\<rparr>\<rparr>"

lemmas sample_defs = sample_table_def sample_header_def sample_file_def sample_env_def sample_image_def
  empty_header_def enc_table_def enc_fixup_def enc_header_def

lemma length_sample_header [simp]: "length (enc_header sample_header) = 68"
  by (simp add: sample_defs)

lemma length_sample_table [simp]: "length (enc_table sample_table) = 46"
  by (simp add: sample_table_def enc_table_def enc_fixup_def)

lemma length_sample_file [simp]: "length sample_file = 122"
  by (simp add: sample_file_def)

lemma sample_contracts: "reads_at_most_asked sample_env" "mapping_contract sample_env" "serves_file sample_env sample_file"
proof -
  show "mapping_contract sample_env"
    unfolding mapping_contract_def by (auto simp: sample_env_def intro: exI[of _ 12])
  show "reads_at_most_asked sample_env" by (auto simp: reads_at_most_asked_def sample_env_def)
  show "serves_file sample_env sample_file"
    by (auto simp: serves_file_def sample_env_def intro: exI[of _ "length sample_file - _"])
qed

lemma sample_ranges: "header_ranges_ok 122 sample_header"
  by (simp add: header_ranges_ok_def range_ok_def sample_header_def empty_header_def)

lemma sample_parts:
  "holds sample_file 0 (enc_header sample_header)" "holds sample_file 68 (enc_table sample_table)"
  by (simp_all add: holds_def sample_file_def)

lemma load_sample: "s3e_image_load sample_env = Ok (True, sample_image)"
  using load_written[OF sample_contracts(3) _ sample_parts(1)] sample_ranges
  by (simp add: header_stored_def sample_header_def empty_header_def sample_image_def)


lemma image_relocation_meets_spec_witness:
  "\<exists>m. s3e_image_parse_symbols sample_env sample_image =
        Ok (True, sample_image\<lparr>im_symbols := \<lparr>sym_items = [[97]], sym_count = 1\<rparr>\<rparr>) \<and>
      s3e_image_map_and_relocate sample_env (sample_image\<lparr>im_symbols := \<lparr>sym_items = [[97]], sym_count = 1\<rparr>\<rparr>) =
        Ok (True, \<lparr>li_base = 0x3000, li_map_size = 4096, li_entry_offset = 0, li_mem = m\<rparr>) \<and>
      word_at m 0 = 0x2005 \<and> word_at m 4 = 0x77"
proof -
  have names: "table_names \<lparr>sym_items = [], sym_count = 0\<rparr> sample_table = \<lparr>sym_items = [[97]], sym_count = 1\<rparr>"
    by (simp add: sample_table_def)
  have relocs: "table_relocs (ie_resolve sample_env) [[97]] 0x2000 sample_table = [(0, \<lambda>v. v + 0x2000), (4, \<lambda>v. 0x77)]"
    by (simp add: table_relocs_def sample_table_def sample_env_def)
  have page: "page_round 4096 8 = 4096" by (simp add: page_round_def Let_def)
  have "take 8 (drop 114 sample_file) = le32 5 @ le32 6" by (simp add: sample_file_def)
  then have m0: "fresh_code sample_image 4096 = (le32 5 @ le32 6) @ replicate 4088 0"
    by (simp add: fresh_code_def sample_image_def sample_header_def empty_header_def del: append_assoc)
  have "holds (fresh_code sample_image 4096) 0 (le32 5)" by (simp add: m0 holds_def)
  then have w0: "word_at (fresh_code sample_image 4096) 0 = 5" by (simp add: word_at_def holds_le32)
  have ok: "image_ok sample_image" using sample_ranges by (simp add: image_ok_def sample_image_def)
  have img: "im_header sample_image = sample_header" "im_symbols sample_image = \<lparr>sym_items = [], sym_count = 0\<rparr>"
    "im_file_data sample_image = sample_file" by (simp_all add: sample_image_def)
  have h: "h_fixup_offset sample_header = 68" "h_fixup_size sample_header = 46" "h_code_mem_size sample_header = 8"
    "h_base_addr_orig sample_header = 0x1000" "h_entry_offset sample_header = 0"
    by (simp_all add: sample_header_def empty_header_def)
  have env: "ie_page sample_env = 4096" "\<And>a. ie_mmap sample_env a 4096 = Some 0x3000" "\<forall>at n. ie_alloc sample_env at n"
    by (simp_all add: sample_env_def)
  have fix_ok: "\<forall>(f, pad) \<in> set sample_table. fixup_ok f \<and> relocs_ok (ie_resolve sample_env) [[97]] 8 f"
    by (simp add: sample_table_def sample_env_def)
  have holds: "holds sample_file (unat (68 :: u32)) (enc_table sample_table)" using sample_parts(2) by simp
  have "length (enc_table sample_table) = unat (46 :: u32)" by simp
  with image_relocation_meets_spec[OF ok, of sample_env "0x3000" sample_table, unfolded img h env page names,
      OF _ sample_contracts(2) refl env(3) _ holds]
  show ?thesis
    using fix_ok w0 by (fastforce simp: relocs apart_def)
qed

end
