(* ===== verification/Boot.thy ===== *)
theory Boot
  imports Config_Properties Assets_Properties Image_Relocation
begin

unbundle bit_operations_syntax

text \<open>
  The start of the guest in \<open>main\<close> of \<open>src/main.c\<close>: load the image, collect its imports, initialise
  the host, read the configuration out of the image, map and relocate it, hook the frame
  interpolation and set the player's name. Every failure before the entry is called leads to exit
  code 1 (\<open>None\<close>), after everything has been released.
\<close>

record boot_env =
  bt_image :: img_env
  bt_config :: cfg_env
  bt_host_init :: bool
  bt_fixed_hook :: u32
  bt_interpolate_hook :: u32
  bt_name_address :: u32

definition read_config :: "boot_env \<Rightarrow> s3e_image \<Rightarrow> config_state \<Rightarrow> config_state mem" where
  "read_config E img cfg =
     s3e_host_set_config (bt_config E) (Some (drop (unat (h_config_offset (im_header img))) (im_file_data img)))
       (h_config_size (im_header img)) cfg"

definition patch_guest :: "boot_env \<Rightarrow> s3e_loaded_image \<Rightarrow> interp_state \<Rightarrow> (s3e_loaded_image \<times> interp_state) option mem" where
  "patch_guest E loaded ist =
     rbind (codboz_install_frame_interpolation (bt_fixed_hook E) (bt_interpolate_hook E) loaded ist) (\<lambda>(ok, loaded, ist).
       if \<not> ok then Ok None
       else rbind (codboz_override_player_name loaded (bt_name_address E)) (\<lambda>(_, loaded).
         Ok (Some (loaded, ist))))"

definition start_guest :: "boot_env \<Rightarrow> config_state \<Rightarrow> interp_state \<Rightarrow> (s3e_loaded_image \<times> interp_state \<times> config_state) option mem" where
  "start_guest E cfg ist =
     rbind (s3e_image_load (bt_image E)) (\<lambda>(ok, img).
       if \<not> ok then Ok None
       else rbind (s3e_image_parse_symbols (bt_image E) img) (\<lambda>(ok, img).
         if \<not> ok then Ok None
         else if \<not> bt_host_init E then Ok None
         else rbind (read_config E img cfg) (\<lambda>cfg.
              rbind (s3e_image_map_and_relocate (bt_image E) img) (\<lambda>(ok, loaded).
                if \<not> ok then Ok None
                else rbind (patch_guest E loaded ist) (\<lambda>r.
                  case r of None \<Rightarrow> Ok None
                  | Some (loaded, ist) \<Rightarrow> Ok (Some (loaded, ist, cfg)))))))"

section \<open>The patches\<close>

lemma buf_write_nth:
  "p + length bs \<le> length m \<Longrightarrow> i < p \<or> p + length bs \<le> i \<Longrightarrow> buf_write m p bs ! i = m ! i"
  by (cases bs) (auto simp: buf_write_def nth_append min_def)

lemma rd32_buf_write_same: "p + 4 \<le> length m \<Longrightarrow> rd32 (buf_write m p (le32 v)) p = Ok v"
  by (rule holds_le32) (simp add: holds_def buf_write_def)

lemma rd32_buf_write_other:
  assumes "p + 4 \<le> length m" "q + 4 \<le> p \<or> p + 4 \<le> q"
  shows "rd32 (buf_write m p (le32 v)) q = rd32 m q"
  by (rule rd32_cong) (use assms in \<open>auto intro!: buf_write_nth\<close>)

definition patched_bytes :: "nat set" where
  "patched_bytes = {0x3e6490..<0x3e6498} \<union> {0x18f74c..<0x18f750}"

lemma patch_guest_effect:
  assumes "loaded_ok loaded"
  shows "\<exists>r. patch_guest E loaded ist = Ok r \<and>
    (\<forall>loaded' ist'. r = Some (loaded', ist') \<longrightarrow>
      loaded'\<lparr>li_mem := []\<rparr> = loaded\<lparr>li_mem := []\<rparr> \<and> length (li_mem loaded') = length (li_mem loaded) \<and>
      rd32 (li_mem loaded') DIRECTOR_FIXED_SLOT_OFFSET = Ok (bt_fixed_hook E) \<and>
      rd32 (li_mem loaded') DIRECTOR_INTERPOLATE_SLOT_OFFSET = Ok (bt_interpolate_hook E) \<and>
      (\<forall>i. i \<notin> patched_bytes \<longrightarrow> li_mem loaded' ! i = li_mem loaded ! i))"
proof -
  let ?A = DIRECTOR_FIXED_SLOT_OFFSET and ?B = DIRECTOR_INTERPOLATE_SLOT_OFFSET and ?C = PLAYER_NAME_REFERENCE_OFFSET
  have offs: "?A = 0x3e6490" "?B = 0x3e6494" "?C = 0x18f74c"
    by (simp_all add: DIRECTOR_FIXED_SLOT_OFFSET_def DIRECTOR_INTERPOLATE_SLOT_OFFSET_def PLAYER_NAME_REFERENCE_OFFSET_def)
  from install_effect[OF assms, of "bt_fixed_hook E" "bt_interpolate_hook E" ist] obtain r l1 i1 where
    inst: "codboz_install_frame_interpolation (bt_fixed_hook E) (bt_interpolate_hook E) loaded ist = Ok (r, l1, i1)"
    and eff: "r \<Longrightarrow> image_range_valid loaded ?A 8" "r \<Longrightarrow> l1 = loaded\<lparr>li_mem :=
      buf_write (buf_write (li_mem loaded) ?A (le32 (bt_fixed_hook E))) ?B (le32 (bt_interpolate_hook E))\<rparr>"
    by (metis (full_types))
  show ?thesis
  proof (cases r)
    case True
    define m where "m = li_mem loaded"
    define m1 where "m1 = buf_write (buf_write m ?A (le32 (bt_fixed_hook E))) ?B (le32 (bt_interpolate_hook E))"
    have ins: "?A + 4 \<le> length m" "?B + 4 \<le> length m"
      using eff(1)[OF True] assms by (auto simp: image_range_valid_def loaded_ok_def m_def offs)
    have len1: "length m1 = length m" using ins by (simp add: m1_def)
    have l1: "l1 = loaded\<lparr>li_mem := m1\<rparr>" using eff(2)[OF True] by (simp add: m1_def m_def)
    have m1: "rd32 m1 ?A = Ok (bt_fixed_hook E)" "rd32 m1 ?B = Ok (bt_interpolate_hook E)"
      "i \<notin> patched_bytes \<Longrightarrow> m1 ! i = m ! i" for i
      unfolding m1_def using ins
      by (auto simp: rd32_buf_write_same rd32_buf_write_other buf_write_nth offs patched_bytes_def)
    have ok1: "loaded_ok l1" using assms len1 by (simp add: loaded_ok_def l1 m_def)
    define v where "v = bt_name_address E - (li_base l1 + of_nat PLAYER_NAME_REFERENCE_PC_OFFSET)"
    from override_effect[OF ok1, of "bt_name_address E"] obtain q l2 where
      ov: "codboz_override_player_name l1 (bt_name_address E) = Ok (q, l2)" and
      e2: "q \<Longrightarrow> ?C + 4 \<le> length m1" "q \<Longrightarrow> l2 = l1\<lparr>li_mem := buf_write m1 ?C (le32 v)\<rparr>" "\<not> q \<Longrightarrow> l2 = l1"
      unfolding v_def [symmetric] by (auto simp: l1 split: if_splits)
    have l2: "l2 = (if q then l1\<lparr>li_mem := buf_write m1 ?C (le32 v)\<rparr> else l1)" using e2 by simp
    have "rd32 (li_mem l2) ?A = Ok (bt_fixed_hook E)" "rd32 (li_mem l2) ?B = Ok (bt_interpolate_hook E)"
      using m1(1,2) e2(1) by (auto simp: l2 l1 rd32_buf_write_other offs)
    moreover have "li_mem l2 ! i = m ! i" if "i \<notin> patched_bytes" for i
    proof -
      have "li_mem l2 ! i = m1 ! i"
        using that e2(1) by (auto simp: l2 l1 offs patched_bytes_def buf_write_nth)
      then show ?thesis using m1(3)[OF that] by simp
    qed
    moreover have "length (li_mem l2) = length m" using e2(1) len1 by (auto simp: l2 l1)
    moreover have "l2\<lparr>li_mem := []\<rparr> = loaded\<lparr>li_mem := []\<rparr>" by (simp add: l2 l1)
    ultimately show ?thesis using inst True ov by (auto simp: patch_guest_def m_def)
  qed (use inst in \<open>auto simp: patch_guest_def\<close>)
qed

section \<open>The start\<close>

text \<open>
  The configuration range of the header, which the loader does not compare with the file.
\<close>

definition config_range_ok :: "s3e_image \<Rightarrow> bool" where
  "config_range_ok img \<longleftrightarrow> h_config_size (im_header img) = 0 \<or>
     range_ok (length (im_file_data img)) (h_config_offset (im_header img)) (h_config_size (im_header img))"

lemma set_config_no_fault: "unat n \<le> length d \<Longrightarrow> \<exists>cfg'. s3e_host_set_config E (Some d) n cfg = Ok cfg'"
  by (simp add: s3e_host_set_config_def Let_def bytes_at_Ok)

lemma read_config_ok:
  assumes "config_range_ok img"
  shows "\<exists>cfg'. read_config E img cfg = Ok cfg'"
proof (cases "h_config_size (im_header img) = 0")
  case True
  then show ?thesis by (simp add: read_config_def s3e_host_set_config_def Let_def)
next
  case False
  with assms have "unat (h_config_size (im_header img)) \<le> length (drop (unat (h_config_offset (im_header img))) (im_file_data img))"
    by (simp add: config_range_ok_def range_ok_def)
  from set_config_no_fault[OF this] show ?thesis by (simp add: read_config_def)
qed

text \<open>A range behind the end of the file is copied from there.\<close>

lemma config_outside_faults:
  assumes "h_config_size (im_header img) \<noteq> 0" "cv_malloc (bt_config E) (unat (h_config_size (im_header img)) + 1)"
    and "length (im_file_data img) < unat (h_config_offset (im_header img)) + unat (h_config_size (im_header img))"
  shows "read_config E img cfg = Fault"
proof -
  let ?n = "unat (h_config_size (im_header img))"
  have "0 < ?n" using assms(1) by (simp add: unat_gt_0)
  then have "\<not> ?n \<le> length (im_file_data img) - unat (h_config_offset (im_header img))"
    using assms(3) by linarith
  with assms(1,2) show ?thesis by (simp add: read_config_def s3e_host_set_config_def bytes_at_def)
qed

lemma symbols_keep_image:
  "s3e_image_parse_symbols F img = Ok (p, img') \<Longrightarrow> im_header img' = im_header img \<and> im_file_data img' = im_file_data img"
  by (auto simp: s3e_image_parse_symbols_def Let_def res_simps)


definition sample_boot :: boot_env where
  "sample_boot = \<lparr>bt_image = sample_env, bt_config = sample_cfg, bt_host_init = True, bt_fixed_hook = 0x11,
     bt_interpolate_hook = 0x22, bt_name_address = 0x33\<rparr>"


end
