(* ===== verification/Device_Id.thy ===== *)
theory Device_Id
  imports Prelude
begin

unbundle bit_operations_syntax

text \<open>
  The persistent device identifier of \<open>src/device_id.c\<close>: loops around \<open>read\<close> and \<open>write\<close> that go on
  after an interruption and a partial transfer, a file that is replaced by renaming a temporary one,
  and the hexadecimal text.

  The file system maps names to files; what the operating system answers is a script. A loop that
  waits for an answer behind the end of its script has not returned: the value \<open>None\<close>.
\<close>

section \<open>The operating system\<close>

datatype io = Got nat | Interrupted | Failed

datatype fs_file = Regular "u8 list" | Special

type_synonym files = "cstring \<Rightarrow> fs_file option"

text \<open>
  The answers to the calls: for the identifier's file, for \<open>/dev/urandom\<close> (the bytes it would give,
  \<open>None\<close> when it cannot be opened) and for the temporary file (\<open>None\<close> when it cannot be created).
\<close>

record dev_os =
  dv_open :: bool
  dv_fstat :: bool
  dv_read :: "io list"
  dv_random :: "u8 list option"
  dv_random_read :: "io list"
  dv_mkstemp :: "cstring option"
  dv_fchmod :: bool
  dv_write :: "io list"
  dv_fsync :: bool
  dv_close :: bool
  dv_rename :: bool

section \<open>Transfers\<close>

definition DEVICE_ID_BYTE_COUNT :: nat where "DEVICE_ID_BYTE_COUNT = 16"
definition DEVICE_ID_HEX_LENGTH :: nat where "DEVICE_ID_HEX_LENGTH = 32"

text \<open>\<open>read\<close> gives what is there of the file from the position on, at most what is asked for.\<close>

fun read_all :: "io list \<Rightarrow> u8 list \<Rightarrow> nat \<Rightarrow> u8 list \<Rightarrow> (bool \<times> u8 list) option" where
  "read_all [] src n buffer = (if length buffer < n then None else Some (True, buffer))"
| "read_all (i # ios) src n buffer =
     (if length buffer < n then
        (case i of
           Got k \<Rightarrow> let received = take (min k (n - length buffer)) (drop (length buffer) src) in
             if received \<noteq> [] then read_all ios src n (buffer @ received) else Some (False, buffer)
         | Interrupted \<Rightarrow> read_all ios src n buffer
         | Failed \<Rightarrow> Some (False, buffer))
      else Some (True, buffer))"

fun write_all :: "io list \<Rightarrow> u8 list \<Rightarrow> u8 list \<Rightarrow> (bool \<times> u8 list) option" where
  "write_all [] buffer out = (if length out < length buffer then None else Some (True, out))"
| "write_all (i # ios) buffer out =
     (if length out < length buffer then
        (case i of
           Got k \<Rightarrow> let written = take k (drop (length out) buffer) in
             if written \<noteq> [] then write_all ios buffer (out @ written) else Some (False, out)
         | Interrupted \<Rightarrow> write_all ios buffer out
         | Failed \<Rightarrow> Some (False, out))
      else Some (True, out))"

section \<open>Files\<close>

definition load_bytes :: "dev_os \<Rightarrow> cstring \<Rightarrow> files \<Rightarrow> (bool \<times> u8 list) option" where
  "load_bytes os path fil =
     (case fil path of
        Some (Regular contents) \<Rightarrow>
          if \<not> dv_open os then Some (False, [])
          else if \<not> dv_fstat os \<or> length contents \<noteq> DEVICE_ID_BYTE_COUNT then Some (False, [])
          else read_all (dv_read os) contents DEVICE_ID_BYTE_COUNT []
      | _ \<Rightarrow> Some (False, []))"

definition random_bytes :: "dev_os \<Rightarrow> (bool \<times> u8 list) option" where
  "random_bytes os =
     (case dv_random os of
        None \<Rightarrow> Some (False, [])
      | Some src \<Rightarrow> read_all (dv_random_read os) src DEVICE_ID_BYTE_COUNT [])"

definition store_bytes :: "dev_os \<Rightarrow> cstring \<Rightarrow> cstring \<Rightarrow> u8 list \<Rightarrow> files \<Rightarrow> (bool \<times> files) option" where
  "store_bytes os path root bytes fil =
     (if length (root @ bytes_of ''/device-id.bin.tmp.XXXXXX'') \<ge> 1200 then Some (False, fil)
      else case dv_mkstemp os of
        None \<Rightarrow> Some (False, fil)
      | Some temporary \<Rightarrow>
        map_option (\<lambda>(written, contents).
          let stored = dv_fchmod os \<and> written \<and> dv_fsync os \<and> dv_close os;
              fil = fil(temporary \<mapsto> Regular contents);
              (stored, fil) = (if stored \<and> dv_rename os
                               then (True, (fil(path := fil temporary))(temporary := None)) else (False, fil))
          in if stored then (True, fil) else (False, fil(temporary := None)))
          (if dv_fchmod os then write_all (dv_write os) bytes [] else Some (False, [])))"

definition hex_digits_of :: "u8 \<Rightarrow> cstring" where
  "hex_digits_of b = (let digits = bytes_of ''0123456789abcdef''
     in [digits ! unat (drop_bit 4 b), digits ! unat (b AND 0x0f)])"

definition id_path :: "cstring \<Rightarrow> cstring" where
  "id_path root = root @ bytes_of ''/device-id.bin''"

text \<open>The text (\<open>None\<close> for \<open>false\<close>) and the files.\<close>

definition s3e_device_id_load_or_create :: "dev_os \<Rightarrow> cstring option \<Rightarrow> files \<Rightarrow> (cstring option \<times> files) option" where
  "s3e_device_id_load_or_create os root fil =
     (case root of
        None \<Rightarrow> Some (None, fil)
      | Some root \<Rightarrow>
        if root = [] then Some (None, fil)
        else let path = id_path root in
          if length path \<ge> 1200 then Some (None, fil)
          else case load_bytes os path fil of
            None \<Rightarrow> None
          | Some (True, bytes) \<Rightarrow> Some (Some (concat (map hex_digits_of bytes)), fil)
          | Some (False, _) \<Rightarrow>
            (case random_bytes os of
               None \<Rightarrow> None
             | Some (False, _) \<Rightarrow> Some (None, fil)
             | Some (True, bytes) \<Rightarrow>
               (case store_bytes os path root bytes fil of
                  None \<Rightarrow> None
                | Some (False, fil) \<Rightarrow> Some (None, fil)
                | Some (True, fil) \<Rightarrow> Some (Some (concat (map hex_digits_of bytes)), fil))))"

text \<open>\<open>pthread_once\<close>: the first call fixes the text, \<open>[]\<close> when there is none.\<close>

definition initialize_device_id :: "dev_os \<Rightarrow> cstring \<Rightarrow> files \<Rightarrow> (cstring \<times> files) option" where
  "initialize_device_id os root fil =
     map_option (\<lambda>(r, fil). (case r of None \<Rightarrow> [] | Some t \<Rightarrow> t, fil)) (s3e_device_id_load_or_create os (Some root) fil)"

definition s3e_device_id_get :: "dev_os \<Rightarrow> cstring \<Rightarrow> cstring option \<times> files \<Rightarrow> (cstring \<times> cstring option \<times> files) option" where
  "s3e_device_id_get os root = (\<lambda>(once, fil).
     case once of
       Some t \<Rightarrow> Some (t, once, fil)
     | None \<Rightarrow> map_option (\<lambda>(t, fil). (t, Some t, fil)) (initialize_device_id os root fil))"

section \<open>Transfers deliver the whole\<close>

lemma read_all_prefix:
  "read_all ios src n (take m src) = Some (r, b) \<Longrightarrow> m \<le> n \<Longrightarrow> n \<le> length src \<Longrightarrow>
    (\<exists>k. b = take k src) \<and> (r \<longrightarrow> b = take n src)"
proof (induction ios arbitrary: m)
  case (Cons i ios)
  show ?case
  proof (cases "m < n")
    case True
    show ?thesis
    proof (cases i)
      case (Got k)
      define j where "j = m + min k (n - m)"
      have app: "take m src @ take (min k (n - m)) (drop m src) = take j src" by (simp add: take_add j_def)
      have "j \<le> n" using True by (simp add: j_def)
      then show ?thesis
        using Cons.IH[of j] Cons.prems True Got by (auto simp: Let_def min_absorb2 app split: if_splits)
    qed (use Cons True in \<open>auto simp: min_absorb2\<close>)
  qed (use Cons.prems in \<open>auto split: if_splits\<close>)
qed (auto split: if_splits)

lemma write_all_prefix:
  "write_all ios buffer (take m buffer) = Some (r, b) \<Longrightarrow> m \<le> length buffer \<Longrightarrow> r \<longrightarrow> b = buffer"
proof (induction ios arbitrary: m)
  case (Cons i ios)
  show ?case
  proof (cases "m < length buffer")
    case True
    show ?thesis
    proof (cases i)
      case (Got k)
      define j where "j = m + min k (length buffer - m)"
      have app: "take m buffer @ take k (drop m buffer) = take j buffer"
        by (simp add: j_def take_add min_def)
      have "j \<le> length buffer" using True by (simp add: j_def)
      then show ?thesis
        using Cons.IH[of j] Cons.prems True Got by (auto simp: Let_def min_absorb2 app split: if_splits)
    qed (use Cons True in \<open>auto simp: min_absorb2\<close>)
  qed (use Cons.prems in \<open>auto split: if_splits\<close>)
qed (auto split: if_splits)

text \<open>Sixteen answers that are not interruptions end the loop.\<close>

lemma read_all_ends:
  "n - length b \<le> length (filter (\<lambda>i. i \<noteq> Interrupted) ios) \<Longrightarrow> read_all ios src n b \<noteq> None"
proof (induction ios arbitrary: b)
  case (Cons i ios)
  show ?case
  proof (cases i)
    case (Got k)
    let ?r = "take (min k (n - length b)) (drop (length b) src)"
    show ?thesis
    proof (cases "?r = []")
      case False
      then have "0 < length ?r" by simp
      moreover have "n - length b \<le> Suc (length (filter (\<lambda>i. i \<noteq> Interrupted) ios))"
        using Cons.prems Got by simp
      moreover have "n - length (b @ ?r) = n - length b - length ?r"
        by (simp only: length_append diff_diff_left)
      ultimately have "n - length (b @ ?r) \<le> length (filter (\<lambda>i. i \<noteq> Interrupted) ios)" by linarith
      from Cons.IH[OF this] False Got show ?thesis by (simp add: Let_def)
    qed (use Got in \<open>auto simp: Let_def\<close>)
  qed (use Cons in auto)
qed simp

lemma write_all_ends:
  "length data - length b \<le> length (filter (\<lambda>i. i \<noteq> Interrupted) ios) \<Longrightarrow> write_all ios data b \<noteq> None"
proof (induction ios arbitrary: b)
  case (Cons i ios)
  show ?case
  proof (cases i)
    case (Got k)
    let ?r = "take k (drop (length b) data)"
    show ?thesis
    proof (cases "?r = []")
      case False
      then have "0 < length ?r" by simp
      moreover have "length data - length b \<le> Suc (length (filter (\<lambda>i. i \<noteq> Interrupted) ios))"
        using Cons.prems Got by simp
      moreover have "length data - length (b @ ?r) = length data - length b - length ?r"
        by (simp only: length_append diff_diff_left)
      ultimately have "length data - length (b @ ?r) \<le> length (filter (\<lambda>i. i \<noteq> Interrupted) ios)" by linarith
      from Cons.IH[OF this] False Got show ?thesis by (simp add: Let_def)
    qed (use Got in \<open>auto simp: Let_def\<close>)
  qed (use Cons in auto)
qed simp

section \<open>The identifier\<close>

text \<open>\<open>mkstemp\<close> creates a file that did not exist, under the name it was asked for.\<close>

definition mkstemp_contract :: "dev_os \<Rightarrow> cstring \<Rightarrow> files \<Rightarrow> bool" where
  "mkstemp_contract os root fil \<longleftrightarrow> (\<forall>t. dv_mkstemp os = Some t \<longrightarrow> fil t = None \<and> t \<noteq> id_path root)"

definition random_contract :: "dev_os \<Rightarrow> bool" where
  "random_contract os \<longleftrightarrow> (\<forall>src. dv_random os = Some src \<longrightarrow> DEVICE_ID_BYTE_COUNT \<le> length src)"

definition hex_text :: "u8 list \<Rightarrow> cstring" where
  "hex_text bytes = concat (map hex_digits_of bytes)"

lemma store_bytes_result:
  assumes "mkstemp_contract os root fil" "store_bytes os (id_path root) root bytes fil = Some (r, fil')"
  shows "fil' = (if r then fil(id_path root \<mapsto> Regular bytes) else fil)"
proof (cases "dv_mkstemp os")
  case (Some t)
  with assms(1) have t: "fil t = None" "t \<noteq> id_path root" by (auto simp: mkstemp_contract_def)
  then have undo: "fil(t := None) = fil" by auto
  show ?thesis
  proof (cases "dv_fchmod os \<and> length (root @ bytes_of ''/device-id.bin.tmp.XXXXXX'') < 1200")
    case True
    with assms(2) Some obtain w c where wc: "write_all (dv_write os) bytes [] = Some (w, c)"
      by (auto simp: store_bytes_def)
    have "w \<Longrightarrow> c = bytes" using write_all_prefix[of "dv_write os" bytes 0] wc by simp
    with assms(2) Some True wc t undo show ?thesis
      by (auto simp: store_bytes_def Let_def fun_upd_twist fun_upd_idem split: if_splits)
  qed (use assms(2) Some t undo in \<open>auto simp: store_bytes_def Let_def split: if_splits\<close>)
qed (use assms(2) in \<open>auto simp: store_bytes_def split: if_splits\<close>)

lemma transfer_whole:
  assumes "read_all ios src 16 [] = Some (r, b)" "16 \<le> length src"
  shows "r \<Longrightarrow> b = take 16 src"
  using read_all_prefix[of ios src 16 0 r b] assms by simp

text \<open>The operating system lets the stored file be read again.\<close>

definition readable :: "dev_os \<Rightarrow> bool" where
  "readable os \<longleftrightarrow> dv_open os \<and> dv_fstat os \<and> Failed \<notin> set (dv_read os) \<and> Got 0 \<notin> set (dv_read os) \<and>
     16 \<le> length (filter (\<lambda>i. i \<noteq> Interrupted) (dv_read os))"

lemma read_all_succeeds:
  "read_all ios src n b = Some (r, c) \<Longrightarrow> Failed \<notin> set ios \<Longrightarrow> Got 0 \<notin> set ios \<Longrightarrow> n \<le> length src \<Longrightarrow> r"
proof (induction ios arbitrary: b)
  case (Cons i ios)
  then show ?case by (cases i) (auto simp: Let_def split: if_splits)
qed (auto split: if_splits)

lemma load_stored:
  assumes "readable os" "fil path = Some (Regular bytes)" "length bytes = 16"
  shows "load_bytes os path fil = Some (True, bytes)"
proof -
  have "read_all (dv_read os) bytes 16 [] \<noteq> None"
    using assms(1) by (intro read_all_ends) (simp add: readable_def)
  then obtain r b where rb: "read_all (dv_read os) bytes 16 [] = Some (r, b)" by fastforce
  have r: r using read_all_succeeds[OF rb] assms by (simp add: readable_def)
  from transfer_whole[OF rb _ r] assms(3) have "b = bytes" by simp
  with rb r assms show ?thesis by (simp add: load_bytes_def DEVICE_ID_BYTE_COUNT_def readable_def)
qed

lemma hex_digits_inj: "hex_digits_of a = hex_digits_of b \<Longrightarrow> a = b"
proof -
  assume h: "hex_digits_of a = hex_digits_of b"
  let ?d = "bytes_of ''0123456789abcdef''"
  have small: "unat (drop_bit 4 c) < 16" "unat (c AND 0x0f) < 16" for c :: u8
  proof -
    have "c AND 0x0f = take_bit 4 c" by (simp add: take_bit_eq_mask mask_eq_exp_minus_1)
    then have "unat (c AND 0x0f) = unat c mod 2 ^ 4" by (simp only: unsigned_take_bit_eq) (simp add: take_bit_eq_mod)
    then show "unat (c AND 0x0f) < 16" by simp
    have "unat (drop_bit 4 c) = unat c div 16" by (simp add: drop_bit_eq_div unat_div)
    then show "unat (drop_bit 4 c) < 16" using unat_u8[of c] by simp
  qed
  have inj: "?d ! i = ?d ! j \<Longrightarrow> i = j" if "i < 16" "j < 16" for i j
  proof -
    have "distinct ?d" "length ?d = 16" by (simp_all add: bytes_of_def)
    then show "?d ! i = ?d ! j \<Longrightarrow> i = j" using that by (simp add: nth_eq_iff_index_eq)
  qed
  from h have "unat (drop_bit 4 a) = unat (drop_bit 4 b)" "unat (a AND 0x0f) = unat (b AND 0x0f)"
    using inj small by (auto simp: hex_digits_of_def Let_def)
  then have "drop_bit 4 a = drop_bit 4 b" "a AND 0x0f = b AND 0x0f" by (auto simp: word_unat_eq_iff)
  moreover have "c = push_bit 4 (drop_bit 4 c) + (c AND 0x0f)" for c :: u8
  proof -
    have "c AND 0x0f = take_bit 4 c" by (simp add: take_bit_eq_mask mask_eq_exp_minus_1)
    then show ?thesis by (simp only: bits_ident)
  qed
  ultimately show "a = b" by metis
qed

lemma hex_text_inj: "hex_text a = hex_text b \<Longrightarrow> a = b"
proof (induction a arbitrary: b)
  case Nil
  then show ?case by (cases b) (auto simp: hex_text_def hex_digits_of_def Let_def)
next
  case (Cons x xs)
  then obtain y ys where b: "b = y # ys" by (cases b) (auto simp: hex_text_def hex_digits_of_def Let_def)
  have len: "length (hex_digits_of x) = length (hex_digits_of y)" by (simp add: hex_digits_of_def Let_def)
  from Cons.prems b len have "hex_digits_of x = hex_digits_of y" "hex_text xs = hex_text ys"
    by (simp_all add: hex_text_def)
  with Cons.IH hex_digits_inj b show ?case by blast
qed

lemma loaded_bytes:
  assumes "load_bytes os path fil = Some (True, b)"
  shows "fil path = Some (Regular b) \<and> length b = 16"
proof -
  from assms obtain c where c: "fil path = Some (Regular c)" "length c = 16" "read_all (dv_read os) c 16 [] = Some (True, b)"
    by (auto simp: load_bytes_def DEVICE_ID_BYTE_COUNT_def split: option.splits fs_file.splits if_splits)
  then show ?thesis using transfer_whole[OF c(3)] by simp
qed

lemma random_length:
  assumes "random_contract os" "random_bytes os = Some (True, b)"
  shows "length b = 16"
proof -
  from assms(2) obtain src where src: "dv_random os = Some src" "read_all (dv_random_read os) src 16 [] = Some (True, b)"
    by (auto simp: random_bytes_def DEVICE_ID_BYTE_COUNT_def split: option.splits)
  then have "16 \<le> length src" using assms(1) by (simp add: random_contract_def DEVICE_ID_BYTE_COUNT_def)
  with transfer_whole[OF src(2)] show ?thesis by simp
qed

lemmas device_call = s3e_device_id_load_or_create_def Let_def

lemma device_call_found:
  assumes "mkstemp_contract os root fil" "random_contract os"
    and c: "s3e_device_id_load_or_create os (Some root) fil = Some (Some t, fil')"
  shows "\<exists>b. length b = 16 \<and> t = hex_text b \<and> fil' = fil(id_path root \<mapsto> Regular b)"
proof -
  from c have "(\<exists>b. load_bytes os (id_path root) fil = Some (True, b) \<and> t = hex_text b \<and> fil' = fil) \<or>
      (\<exists>b. random_bytes os = Some (True, b) \<and> store_bytes os (id_path root) root b fil = Some (True, fil') \<and> t = hex_text b)"
    by (auto simp: device_call hex_text_def split: option.splits bool.splits if_splits)
  then show ?thesis
  proof (elim disjE exE conjE)
    fix b assume b: "load_bytes os (id_path root) fil = Some (True, b)" "t = hex_text b" "fil' = fil"
    then have "fil' = fil(id_path root \<mapsto> Regular b)" using loaded_bytes[OF b(1)] by auto
    with b loaded_bytes show ?thesis by blast
  next
    fix b assume b: "random_bytes os = Some (True, b)" "store_bytes os (id_path root) root b fil = Some (True, fil')"
      "t = hex_text b"
    with store_bytes_result[OF assms(1) b(2)] random_length[OF assms(2)] show ?thesis by auto
  qed
qed

lemma device_call_again:
  assumes "s3e_device_id_load_or_create os (Some root) fil = Some (Some (hex_text b), fil')"
    and "length b = 16" "fil' (id_path root) = Some (Regular b)" "readable os'"
  shows "s3e_device_id_load_or_create os' (Some root) fil' = Some (Some (hex_text b), fil')"
proof -
  have "root \<noteq> []" "length (id_path root) < 1200"
    using assms(1) by (auto simp: device_call split: if_splits)
  with load_stored[of os' fil' "id_path root" b] assms(2-4) show ?thesis by (simp add: device_call hex_text_def)
qed

lemma device_call_failed:
  assumes "mkstemp_contract os root fil" "s3e_device_id_load_or_create os (Some root) fil = Some (None, fil')"
  shows "fil' = fil"
proof -
  have "fil' = fil" if "store_bytes os (id_path root) root b fil = Some (False, fil')" for b
    using store_bytes_result[OF assms(1) that] by simp
  with assms(2) show ?thesis by (auto simp: device_call split: option.splits bool.splits if_splits)
qed

lemma device_call_ends:
  assumes "random_contract os" "\<forall>ios \<in> {dv_read os, dv_random_read os, dv_write os}. 16 \<le> length (filter (\<lambda>i. i \<noteq> Interrupted) ios)"
  shows "s3e_device_id_load_or_create os (Some root) fil \<noteq> None"
proof -
  have "load_bytes os (id_path root) fil \<noteq> None"
    using read_all_ends[of 16 "[]" "dv_read os"] assms(2)
    by (auto simp: load_bytes_def DEVICE_ID_BYTE_COUNT_def split: option.splits fs_file.splits)
  moreover have "random_bytes os \<noteq> None"
    using read_all_ends[of 16 "[]" "dv_random_read os"] assms(2)
    by (auto simp: random_bytes_def DEVICE_ID_BYTE_COUNT_def split: option.splits)
  moreover have "store_bytes os (id_path root) root b fil \<noteq> None" if "random_bytes os = Some (True, b)" for b
    using write_all_ends[of b "[]" "dv_write os"] assms(2) random_length[OF assms(1) that]
    by (auto simp: store_bytes_def split: option.splits)
  ultimately show ?thesis by (auto simp: device_call split: option.splits bool.splits if_splits)
qed

text \<open>C40: The device identifier is persistent. Whatever the answers of the system are, a call that gives a text
  leaves the sixteen bytes it shows in the identifier's file and every other file as it was, so that the file
  determines the text and the text the file; every later call that can read the file gives the same text and
  changes nothing. A call that fails leaves all files as they were, also after a failed write, sync, close or
  rename. The loops end when the system answers often enough: a call that has not returned was
  interrupted.\<close>

theorem device_id_persists:
  assumes "mkstemp_contract os root fil" "random_contract os"
  shows "(\<forall>t fil'. s3e_device_id_load_or_create os (Some root) fil = Some (Some t, fil') \<longrightarrow>
      (\<exists>bytes. length bytes = 16 \<and> t = hex_text bytes \<and> fil' = fil(id_path root \<mapsto> Regular bytes) \<and>
        (\<forall>bytes'. hex_text bytes' = t \<longrightarrow> bytes' = bytes)) \<and>
      (\<forall>os'. readable os' \<longrightarrow> s3e_device_id_load_or_create os' (Some root) fil' = Some (Some t, fil'))) \<and>
    (\<forall>fil'. s3e_device_id_load_or_create os (Some root) fil = Some (None, fil') \<longrightarrow> fil' = fil) \<and>
    (s3e_device_id_load_or_create os (Some root) fil = None \<longrightarrow>
      (\<exists>ios \<in> {dv_read os, dv_random_read os, dv_write os}. length (filter (\<lambda>i. i \<noteq> Interrupted) ios) < 16))"
proof -
  have found: "\<exists>b. length b = 16 \<and> t = hex_text b \<and> fil' = fil(id_path root \<mapsto> Regular b) \<and>
      (\<forall>bytes'. hex_text bytes' = t \<longrightarrow> bytes' = b)"
    if "s3e_device_id_load_or_create os (Some root) fil = Some (Some t, fil')" for t fil'
    using device_call_found[OF assms that] hex_text_inj by blast
  moreover have "s3e_device_id_load_or_create os' (Some root) fil' = Some (Some t, fil')"
    if c: "s3e_device_id_load_or_create os (Some root) fil = Some (Some t, fil')" and r: "readable os'" for t fil' os'
    using device_call_found[OF assms c] device_call_again c r by fastforce
  ultimately show ?thesis
    using device_call_failed[OF assms(1)] device_call_ends[OF assms(2), of root fil] by (meson not_le)
qed

definition sample_os :: dev_os where
  "sample_os = \<lparr>dv_open = True, dv_fstat = True, dv_read = replicate 16 (Got 1), dv_random = Some (replicate 20 7),
     dv_random_read = [Got 10, Interrupted, Got 10], dv_mkstemp = Some (bytes_of ''/r/tmp''), dv_fchmod = True,
     dv_write = [Interrupted, Got 5, Got 20], dv_fsync = True, dv_close = True, dv_rename = True\<rparr>"

lemma device_id_persists_witness:
  "\<exists>t fil'. s3e_device_id_load_or_create sample_os (Some (bytes_of ''/r'')) (\<lambda>p. None) = Some (Some t, fil') \<and>
     s3e_device_id_load_or_create sample_os (Some (bytes_of ''/r'')) fil' = Some (Some t, fil')"
proof -
  have "id_path (bytes_of ''/r'') \<noteq> bytes_of ''/r/tmp''" by (simp add: id_path_def bytes_of_def)
  then have c: "mkstemp_contract sample_os (bytes_of ''/r'') (\<lambda>p. None)" "random_contract sample_os" "readable sample_os"
    by (auto simp: mkstemp_contract_def random_contract_def readable_def sample_os_def DEVICE_ID_BYTE_COUNT_def)
  have "\<exists>t fil'. s3e_device_id_load_or_create sample_os (Some (bytes_of ''/r'')) (\<lambda>p. None) = Some (Some t, fil')"
    by (simp add: device_call load_bytes_def random_bytes_def store_bytes_def sample_os_def DEVICE_ID_BYTE_COUNT_def
        id_path_def bytes_of_def)
  then obtain t fil' where f: "s3e_device_id_load_or_create sample_os (Some (bytes_of ''/r'')) (\<lambda>p. None) = Some (Some t, fil')"
    by blast
  with device_id_persists[OF c(1,2)] c(3) show ?thesis by blast
qed

end
