(* ===== verification/Memory.thy ===== *)
theory Memory
  imports Prelude
begin

text \<open>
  The memory interface of \<open>src/s3e_memory.c\<close>: the eight heaps that are created on demand, the
  user's memory manager and the error code. Blocks of the C allocator are numbered; a \<open>free\<close> of a
  block that is not live would set \<open>mm_bad_free\<close>. The base entry points only pass on to the allocator.
  The two variables local to a thread are those of the calling thread.
\<close>

section \<open>State\<close>

record s3e_heap =
  hp_base :: "nat option"
  hp_size :: u32

record s3e_user_mem_mgr =
  um_alloc :: u32
  um_realloc :: u32
  um_free :: u32

record mem_state =
  g_memory_error :: int
  g_user_mem_mgr :: s3e_user_mem_mgr
  g_user_mem_mgr_set :: bool
  g_heaps :: "s3e_heap list"
  mm_live :: "nat set"
  mm_bad_free :: bool

definition EINVAL :: int where "EINVAL = 22"
definition ENOMEM :: int where "ENOMEM = 12"

text \<open>
  \<open>calloc\<close> by the size and the live blocks; the addresses of the three base functions.
\<close>

record mem_env =
  me_calloc :: "u32 \<Rightarrow> nat set \<Rightarrow> nat option"
  me_base :: s3e_user_mem_mgr

definition default_user_mem_mgr :: "mem_env \<Rightarrow> s3e_user_mem_mgr" where
  "default_user_mem_mgr E = me_base E"

definition heap_free :: "nat option \<Rightarrow> mem_state \<Rightarrow> mem_state" where
  "heap_free p st = (case p of None \<Rightarrow> st
     | Some b \<Rightarrow> if b \<in> mm_live st then st\<lparr>mm_live := mm_live st - {b}\<rparr> else st\<lparr>mm_bad_free := True\<rparr>)"

section \<open>Operations\<close>

definition s3eMallocBase_size :: "u32 \<Rightarrow> u32" where
  "s3eMallocBase_size sz = (if sz \<noteq> 0 then sz else 1)"

definition s3eMemoryGetInt :: "u32 \<Rightarrow> int" where
  "s3eMemoryGetInt key = 768 * 1024 * 1024"

definition s3eMemorySetInt :: "u32 \<Rightarrow> int \<Rightarrow> int" where
  "s3eMemorySetInt key v = 0"

definition s3eMemorySetUserMemMgr :: "mem_env \<Rightarrow> s3e_user_mem_mgr option \<Rightarrow> mem_state \<Rightarrow> int \<times> mem_state" where
  "s3eMemorySetUserMemMgr E mgr st =
     (case mgr of
        Some candidate \<Rightarrow>
          if um_alloc candidate = 0 \<or> um_realloc candidate = 0 \<or> um_free candidate = 0
          then (1, st\<lparr>g_memory_error := EINVAL\<rparr>)
          else (0, st\<lparr>g_user_mem_mgr := candidate, g_user_mem_mgr_set := True\<rparr>)
      | None \<Rightarrow> (0, st\<lparr>g_user_mem_mgr := default_user_mem_mgr E, g_user_mem_mgr_set := True\<rparr>))"

definition s3eMemoryGetUserMemMgr :: "mem_env \<Rightarrow> bool \<Rightarrow> mem_state \<Rightarrow> int \<times> s3e_user_mem_mgr option \<times> mem_state" where
  "s3eMemoryGetUserMemMgr E has_out st =
     (if \<not> has_out then (1, None, st\<lparr>g_memory_error := EINVAL\<rparr>)
      else (0, Some (if g_user_mem_mgr_set st then g_user_mem_mgr st else default_user_mem_mgr E), st))"

definition heap_size_of :: "nat \<Rightarrow> u32" where
  "heap_size_of i = (if i = 0 then 128 * 1024 * 1024 else 16 * 1024 * 1024)"

definition heap_create_locked :: "mem_env \<Rightarrow> nat \<Rightarrow> mem_state \<Rightarrow> int \<times> mem_state" where
  "heap_create_locked E i st =
     (if hp_base (g_heaps st ! i) = None then
        (case me_calloc E (heap_size_of i) (mm_live st) of
           None \<Rightarrow> (1, st\<lparr>g_memory_error := ENOMEM\<rparr>)
         | Some b \<Rightarrow> (0, st\<lparr>g_heaps := (g_heaps st)[i := \<lparr>hp_base = Some b, hp_size = heap_size_of i\<rparr>],
                             mm_live := insert b (mm_live st)\<rparr>))
      else (0, st))"

definition s3eMemoryHeapCreate :: "mem_env \<Rightarrow> u32 \<Rightarrow> mem_state \<Rightarrow> int \<times> mem_state" where
  "s3eMemoryHeapCreate E heap_index st =
     (if unat heap_index \<ge> length (g_heaps st) then (1, st\<lparr>g_memory_error := EINVAL\<rparr>)
      else heap_create_locked E (unat heap_index) st)"

definition no_heap :: s3e_heap where
  "no_heap = \<lparr>hp_base = None, hp_size = 0\<rparr>"

definition drop_heap :: "nat \<Rightarrow> mem_state \<Rightarrow> mem_state" where
  "drop_heap i st = (let st = heap_free (hp_base (g_heaps st ! i)) st in st\<lparr>g_heaps := (g_heaps st)[i := no_heap]\<rparr>)"

definition s3eMemoryHeapDestroy :: "u32 \<Rightarrow> mem_state \<Rightarrow> int \<times> mem_state" where
  "s3eMemoryHeapDestroy heap_index st =
     (if unat heap_index \<ge> length (g_heaps st) then (1, st\<lparr>g_memory_error := EINVAL\<rparr>)
      else (0, drop_heap (unat heap_index) st))"

definition s3eMemoryHeapAddress :: "mem_env \<Rightarrow> u32 \<Rightarrow> mem_state \<Rightarrow> nat option \<times> mem_state" where
  "s3eMemoryHeapAddress E heap_index st =
     (if unat heap_index \<ge> length (g_heaps st) then (None, st\<lparr>g_memory_error := EINVAL\<rparr>)
      else let (r, st) = heap_create_locked E (unat heap_index) st
        in (if r = 0 then hp_base (g_heaps st ! unat heap_index) else None, st))"

definition s3eMemoryGetError :: "mem_state \<Rightarrow> int" where
  "s3eMemoryGetError st = g_memory_error st"

definition s3e_memory_shutdown :: "mem_state \<Rightarrow> mem_state" where
  "s3e_memory_shutdown st = fold drop_heap [0..<length (g_heaps st)] st"

section \<open>The heaps own their blocks\<close>

definition heap_bases :: "mem_state \<Rightarrow> nat list" where
  "heap_bases st = List.map_filter hp_base (g_heaps st)"

definition heaps_ok :: "mem_state \<Rightarrow> bool" where
  "heaps_ok st \<longleftrightarrow> length (g_heaps st) = 8 \<and> \<not> mm_bad_free st \<and>
     (\<forall>b \<in> mm_live st. \<exists>i < 8. hp_base (g_heaps st ! i) = Some b) \<and>
     (\<forall>i < 8. \<forall>b. hp_base (g_heaps st ! i) = Some b \<longrightarrow> b \<in> mm_live st \<and> hp_size (g_heaps st ! i) = heap_size_of i) \<and>
     (\<forall>i < 8. \<forall>j < 8. i \<noteq> j \<longrightarrow> hp_base (g_heaps st ! i) \<noteq> None \<longrightarrow> hp_base (g_heaps st ! i) \<noteq> hp_base (g_heaps st ! j))"

definition calloc_contract :: "mem_env \<Rightarrow> bool" where
  "calloc_contract E \<longleftrightarrow> (\<forall>sz live b. me_calloc E sz live = Some b \<longrightarrow> b \<notin> live)"

lemma heap_create_ok:
  assumes "calloc_contract E" "heaps_ok st" "i < 8"
  shows "heaps_ok (snd (heap_create_locked E i st))"
proof (cases "hp_base (g_heaps st ! i)")
  case None
  show ?thesis
  proof (cases "me_calloc E (heap_size_of i) (mm_live st)")
    case (Some b)
    then have "b \<notin> mm_live st" using assms(1) by (auto simp: calloc_contract_def)
    with assms(2,3) None Some show ?thesis
      by (auto simp: heap_create_locked_def heaps_ok_def nth_list_update) (metis option.distinct(1))
  qed (use assms None in \<open>simp add: heap_create_locked_def heaps_ok_def\<close>)
qed (use assms in \<open>simp add: heap_create_locked_def\<close>)

lemma drop_heap_ok:
  assumes "heaps_ok st" "i < 8"
  shows "heaps_ok (drop_heap i st)"
proof (cases "hp_base (g_heaps st ! i)")
  case None
  with assms show ?thesis
    by (auto simp: drop_heap_def heap_free_def heaps_ok_def no_heap_def nth_list_update) (metis option.distinct(1))
next
  case (Some b)
  have other: "hp_base (g_heaps st ! j) \<noteq> Some b" if "j < 8" "j \<noteq> i" for j
    using assms Some that unfolding heaps_ok_def by (metis option.distinct(1))
  from assms Some have "b \<in> mm_live st" by (auto simp: heaps_ok_def)
  with assms Some other show ?thesis
    by (auto simp: drop_heap_def heap_free_def heaps_ok_def no_heap_def nth_list_update) (metis option.inject)
qed

datatype mem_call = Heap_Create u32 | Heap_Destroy u32 | Heap_Address u32 | Set_Manager "s3e_user_mem_mgr option"
  | Get_Manager bool | Memory_Shutdown

fun mem_step :: "mem_env \<Rightarrow> mem_call \<Rightarrow> mem_state \<Rightarrow> mem_state" where
  "mem_step E (Heap_Create i) st = snd (s3eMemoryHeapCreate E i st)"
| "mem_step E (Heap_Destroy i) st = snd (s3eMemoryHeapDestroy i st)"
| "mem_step E (Heap_Address i) st = snd (s3eMemoryHeapAddress E i st)"
| "mem_step E (Set_Manager m) st = snd (s3eMemorySetUserMemMgr E m st)"
| "mem_step E (Get_Manager out) st = snd (snd (s3eMemoryGetUserMemMgr E out st))"
| "mem_step E Memory_Shutdown st = s3e_memory_shutdown st"

lemma drop_heaps_ok: "heaps_ok st \<Longrightarrow> \<forall>i \<in> set xs. i < 8 \<Longrightarrow> heaps_ok (fold drop_heap xs st)"
  by (induction xs arbitrary: st) (auto intro: drop_heap_ok)

lemma mem_step_ok:
  assumes "calloc_contract E" "heaps_ok st"
  shows "heaps_ok (mem_step E c st)"
proof (cases c)
  case (Heap_Create i)
  with assms heap_create_ok[OF assms, of "unat i"] show ?thesis
    by (auto simp: s3eMemoryHeapCreate_def heaps_ok_def)
next
  case (Heap_Destroy i)
  with assms drop_heap_ok[OF assms(2), of "unat i"] show ?thesis
    by (auto simp: s3eMemoryHeapDestroy_def heaps_ok_def)
next
  case (Heap_Address i)
  with assms heap_create_ok[OF assms, of "unat i"] show ?thesis
    by (auto simp: s3eMemoryHeapAddress_def heaps_ok_def split_beta Let_def)
next
  case (Set_Manager m)
  with assms(2) show ?thesis by (auto simp: s3eMemorySetUserMemMgr_def heaps_ok_def split: option.splits)
next
  case (Get_Manager out)
  with assms(2) show ?thesis by (auto simp: s3eMemoryGetUserMemMgr_def heaps_ok_def)
next
  case Memory_Shutdown
  with assms(2) drop_heaps_ok[OF assms(2), of "[0..<8]"] show ?thesis
    by (simp add: s3e_memory_shutdown_def heaps_ok_def)
qed

interpretation heaps: invariant_machine "\<lambda>(E, c) st. if calloc_contract E then mem_step E c st else st" heaps_ok
  by unfold_locales (auto intro: mem_step_ok)

text \<open>The address of a heap is stable until it is destroyed.\<close>

lemma heap_address_stable:
  assumes "heaps_ok st" "unat i < 8" "s3eMemoryHeapAddress E i st = (Some b, st')"
  shows "s3eMemoryHeapAddress F i st' = (Some b, st')"
  using assms
  by (auto simp: s3eMemoryHeapAddress_def heap_create_locked_def heaps_ok_def Let_def split: if_splits option.splits)

text \<open>After a shutdown no heap is left.\<close>

lemma drop_heap_base:
  "i < length (g_heaps st) \<Longrightarrow> hp_base (g_heaps (drop_heap i st) ! j) = (if j = i then None else hp_base (g_heaps st ! j))"
  by (auto simp: drop_heap_def heap_free_def no_heap_def Let_def split: option.splits)

lemma drop_all:
  "heaps_ok st \<Longrightarrow> n \<le> 8 \<Longrightarrow> \<forall>i < n. hp_base (g_heaps (fold drop_heap [0..<n] st) ! i) = None"
proof (induction n)
  case (Suc n)
  let ?s = "fold drop_heap [0..<n] st"
  have ok: "heaps_ok ?s" by (rule drop_heaps_ok) (use Suc.prems in auto)
  then have "n < length (g_heaps ?s)" using Suc.prems by (simp add: heaps_ok_def)
  with Suc show ?case by (auto simp: drop_heap_base less_Suc_eq)
qed simp

lemma shutdown_drops_heaps:
  assumes "heaps_ok st" "i < 8"
  shows "hp_base (g_heaps (s3e_memory_shutdown st) ! i) = None"
  using drop_all[OF assms(1), of 8] assms by (simp add: s3e_memory_shutdown_def heaps_ok_def)

lemma shutdown_frees_heaps:
  assumes "heaps_ok st"
  shows "mm_live (s3e_memory_shutdown st) = {}" "\<not> mm_bad_free (s3e_memory_shutdown st)"
proof -
  have "heaps_ok (s3e_memory_shutdown st)"
    using drop_heaps_ok[OF assms, of "[0..<8]"] assms by (simp add: s3e_memory_shutdown_def heaps_ok_def)
  then show "mm_live (s3e_memory_shutdown st) = {}" "\<not> mm_bad_free (s3e_memory_shutdown st)"
    using shutdown_drops_heaps[OF assms] by (auto simp: heaps_ok_def)
qed

end
