(* ===== verification/File.thy ===== *)
theory File
  imports Assets
begin

text \<open>
  The file interface of \<open>src/s3e_file.c\<close>: where a name of the guest is looked for on the host, the
  index of the game's archive, the files that are served from it out of memory, and the opening and
  closing of files. The wrappers around \<open>fread\<close>, \<open>fseek\<close> and the like only pass on.

  The host's files are a map from paths to contents; what is served from the guest's own memory has no path. \<open>fopen\<close> is a parameter: by path, mode and files
  it gives the files afterwards (a mode may create or empty one), or \<open>None\<close>. Handles are numbered;
  an open one is a file of the host, an entry of the archive in memory or a buffer of the guest. Only contents are modelled, not positions.
\<close>

section \<open>State\<close>

definition DTRZ_MAX_ENTRIES :: nat where "DTRZ_MAX_ENTRIES = 512"
definition DTRZ_NAME_MAX :: nat where "DTRZ_NAME_MAX = 192"

record dtrz_entry =
  de_name :: cstring
  de_lower_name :: cstring
  de_lower_base :: cstring
  de_offset :: u32
  de_size :: u32

text \<open>The entries are the first \<open>count\<close> of the array.\<close>

record dtrz_index =
  dz_loaded :: bool
  dz_path :: cstring
  dz_entries :: "dtrz_entry list"

datatype s3e_file = Disk cstring cstring | Memory_File "u8 list" | Guest_Buffer "u8 list"

type_synonym host_files = "cstring \<Rightarrow> u8 list option"

record file_state =
  fl_files :: host_files
  fl_dirs :: "cstring set"
  fl_open :: "nat \<Rightarrow> s3e_file option"
  fl_next :: nat
  g_memory_files :: "nat list"
  g_dtrz :: dtrz_index

record file_env =
  fe_root :: cstring
  fe_home :: "cstring option"
  fe_fopen :: "cstring \<Rightarrow> cstring \<Rightarrow> host_files \<Rightarrow> host_files option"
  fe_mkdir :: "cstring \<Rightarrow> bool"
  fe_fwrite :: "nat \<Rightarrow> nat"
  fe_read_error :: bool
  fe_malloc :: "nat \<Rightarrow> bool"
  fe_track :: bool
  fe_fmemopen :: bool
  fe_heap_byte :: u8

section \<open>Names and paths\<close>

definition c_str :: "cstring option \<Rightarrow> cstring" where
  "c_str name = (case name of None \<Rightarrow> [] | Some n \<Rightarrow> n)"

definition starts_with_slash :: "cstring \<Rightarrow> bool" where
  "starts_with_slash s \<longleftrightarrow> s \<noteq> [] \<and> hd s = slash"

definition make_path :: "file_env \<Rightarrow> nat \<Rightarrow> cstring option \<Rightarrow> cstring" where
  "make_path E out_size name =
     (if starts_with_slash (c_str name) then snprintf out_size (c_str name)
      else snprintf out_size (fe_root E @ [slash] @ c_str name))"

definition path_exists :: "file_state \<Rightarrow> cstring \<Rightarrow> bool" where
  "path_exists st path \<longleftrightarrow> fl_files st path \<noteq> None \<or> path \<in> fl_dirs st"

definition use_existing_path :: "file_state \<Rightarrow> nat \<Rightarrow> cstring \<Rightarrow> cstring option" where
  "use_existing_path st out_size path = (if \<not> path_exists st path then None else Some (snprintf out_size path))"

definition try_asset_path :: "file_env \<Rightarrow> file_state \<Rightarrow> nat \<Rightarrow> string \<Rightarrow> cstring \<Rightarrow> cstring option" where
  "try_asset_path E st out_size prefix name =
     use_existing_path st out_size (snprintf 1200 (fe_root E @ [slash] @ bytes_of prefix @ [slash] @ name))"

text \<open>\<open>strstr(name, ".group.bin")\<close>: the name has it somewhere.\<close>

fun has_part :: "cstring \<Rightarrow> cstring \<Rightarrow> bool" where
  "has_part needle [] = (needle = [])"
| "has_part needle (c # cs) = (take (length needle) (c # cs) = needle \<or> has_part needle cs)"

definition flat_group_name :: "cstring \<Rightarrow> nat \<Rightarrow> cstring option" where
  "flat_group_name name out_size =
     (case find_idx (\<lambda>c. c = slash) name of
        None \<Rightarrow> None
      | Some section_len \<Rightarrow>
        if \<not> has_part (bytes_of ''.group.bin'') name then None
        else if section_len = 0 \<or> section_len \<ge> 128 then None
        else let section = take section_len name; leaf = base_name name in
          if leaf = bytes_of ''.group.bin'' then Some (snprintf out_size (section @ bytes_of ''.group.bin''))
          else Some (snprintf out_size leaf))"

definition lower_copy :: "nat \<Rightarrow> cstring \<Rightarrow> cstring" where
  "lower_copy out_size s = take (out_size - 1) (map c_tolower s)"

section \<open>The archive's index\<close>

definition read_le16 :: "u8 list \<Rightarrow> u16" where
  "read_le16 data = ucast (data ! 0) OR push_bit 8 (ucast (data ! 1))"

definition read_le32 :: "u8 list \<Rightarrow> u32" where
  "read_le32 data = ucast (data ! 0) OR push_bit 8 (ucast (data ! 1)) OR push_bit 16 (ucast (data ! 2)) OR
     push_bit 24 (ucast (data ! 3))"

text \<open>
  The rest of the file after the terminator and the string as far as it fits; \<open>None\<close> at the end of
  the file.
\<close>

definition read_c_string :: "nat \<Rightarrow> u8 list \<Rightarrow> (cstring \<times> u8 list) option" where
  "read_c_string out_size s =
     (if 0 \<in> set s then Some (take (out_size - 1) (takeWhile (\<lambda>b. b \<noteq> 0) s), tl (dropWhile (\<lambda>b. b \<noteq> 0) s)) else None)"

fun read_names :: "nat \<Rightarrow> u8 list \<Rightarrow> (cstring list \<times> u8 list) option" where
  "read_names 0 s = Some ([], s)"
| "read_names (Suc n) s =
     (case read_c_string DTRZ_NAME_MAX s of
        None \<Rightarrow> None
      | Some (name, s) \<Rightarrow> map_option (\<lambda>(names, s). (name # names, s)) (read_names n s))"

text \<open>\<open>fread(buf, 1, n, file) != n\<close> is \<open>None\<close>.\<close>

definition fread_exact :: "nat \<Rightarrow> u8 list \<Rightarrow> (u8 list \<times> u8 list) option" where
  "fread_exact n s = (if length s < n then None else Some (take n s, drop n s))"

fun read_records :: "cstring list \<Rightarrow> u8 list \<Rightarrow> dtrz_entry list option" where
  "read_records [] s = Some []"
| "read_records (name # names) s =
     (case fread_exact 16 s of
        None \<Rightarrow> None
      | Some (record, s) \<Rightarrow>
        map_option (\<lambda>es. \<lparr>de_name = name, de_lower_name = lower_copy DTRZ_NAME_MAX name,
                          de_lower_base = lower_copy DTRZ_NAME_MAX (base_name name),
                          de_offset = read_le32 record, de_size = read_le32 (drop 4 record)\<rparr> # es)
          (read_records names s))"

definition parse_index :: "u8 list \<Rightarrow> dtrz_entry list option" where
  "parse_index s =
     (case fread_exact 9 s of
        None \<Rightarrow> None
      | Some (header, s) \<Rightarrow>
        if take 4 header \<noteq> bytes_of ''DTRZ'' then None
        else let file_count = unat (read_le16 (drop 4 header));
                 groups = unat (read_le16 (drop 6 header));
                 group_count = (if groups > 0 then groups - 1 else groups)
          in if file_count > DTRZ_MAX_ENTRIES then None
             else case read_names file_count s of None \<Rightarrow> None
             | Some (names, s) \<Rightarrow> (case read_names group_count s of None \<Rightarrow> None
             | Some (_, s) \<Rightarrow> (case fread_exact 4 s of None \<Rightarrow> None
             | Some (marker, s) \<Rightarrow> if read_le32 marker \<noteq> 1 then None
                else read_records names (drop (file_count * 6) s))))"

definition archives :: "string list" where
  "archives = [''blackops_etc.dz'', ''blackops_atitc.dz'', ''blackops_dxt.dz'', ''blackops_gles1.dz'']"

definition archive_path :: "file_env \<Rightarrow> file_state \<Rightarrow> cstring" where
  "archive_path E st =
     (let candidate = (\<lambda>a. snprintf 1200 (fe_root E @ bytes_of ''/assets/'' @ bytes_of a));
          path = (case List.find (path_exists st) (map candidate archives) of
                    Some p \<Rightarrow> snprintf 1200 p | None \<Rightarrow> dz_path (g_dtrz st))
      in if path = [] then snprintf 1200 (fe_root E @ bytes_of ''/assets/blackops_gles1.dz'') else path)"

text \<open>Opening for reading only: the contents, or \<open>None\<close>.\<close>

definition open_contents :: "file_env \<Rightarrow> cstring \<Rightarrow> file_state \<Rightarrow> u8 list option \<times> file_state" where
  "open_contents E path st =
     (case fe_fopen E path (bytes_of ''rb'') (fl_files st) of
        None \<Rightarrow> (None, st)
      | Some fs' \<Rightarrow> (Some (case fs' path of None \<Rightarrow> [] | Some c \<Rightarrow> c), st\<lparr>fl_files := fs'\<rparr>))"

definition dtrz_load_index :: "file_env \<Rightarrow> file_state \<Rightarrow> bool \<times> file_state" where
  "dtrz_load_index E st =
     (if dz_loaded (g_dtrz st) then (dz_entries (g_dtrz st) \<noteq> [], st)
      else let path = archive_path E st;
               st = st\<lparr>g_dtrz := (g_dtrz st)\<lparr>dz_loaded := True, dz_path := path\<rparr>\<rparr>;
               (contents, st) = open_contents E path st
        in (case contents of
              None \<Rightarrow> (False, st)
            | Some c \<Rightarrow>
              (case parse_index c of
                 None \<Rightarrow> (False, st)
               | Some es \<Rightarrow> (True, st\<lparr>g_dtrz := (g_dtrz st)\<lparr>dz_entries := es\<rparr>\<rparr>))))"

definition dtrz_find_entry :: "file_env \<Rightarrow> cstring \<Rightarrow> file_state \<Rightarrow> dtrz_entry option \<times> file_state" where
  "dtrz_find_entry E name st =
     (let (ok, st) = dtrz_load_index E st in
      if \<not> ok then (None, st)
      else let lower_name = lower_copy DTRZ_NAME_MAX name; lower_base = base_name lower_name
        in (List.find (\<lambda>e. de_lower_name e = lower_name \<or> de_lower_base e = lower_base) (dz_entries (g_dtrz st)), st))"

definition dtrz_archive_redirect_path :: "file_env \<Rightarrow> cstring \<Rightarrow> nat \<Rightarrow> file_state \<Rightarrow> cstring option \<times> file_state" where
  "dtrz_archive_redirect_path E name out_size st =
     (let requested = base_name name in
      if \<not> strcaseeq requested (bytes_of ''blackops_gles1.dz'') then (None, st)
      else let (ok, st) = dtrz_load_index E st in
        if \<not> ok \<or> dz_path (g_dtrz st) = [] then (None, st)
        else let selected = base_name (dz_path (g_dtrz st)) in
          if strcaseeq selected requested \<or> \<not> path_exists st (dz_path (g_dtrz st)) then (None, st)
          else (Some (snprintf out_size (dz_path (g_dtrz st))), st))"

definition dtrz_prefer_entry :: "cstring \<Rightarrow> bool" where
  "dtrz_prefer_entry name \<longleftrightarrow>
     (let lower = lower_copy 256 name in
      take 9 lower = bytes_of ''data-etc/'' \<or> take 9 lower = bytes_of ''data-dxt/'' \<or>
      take 11 lower = bytes_of ''data-atitc/'')"

end
