(* ===== verification/File_Open.thy ===== *)
theory File_Open
  imports File
begin

text \<open>
  Opening and closing of files in \<open>src/s3e_file.c\<close>: the search for a readable path, the files of the
  user and their first copy, the entries of the archive that are served out of memory, and
  \<open>s3eFileOpen\<close> that tries them in turn. \<open>dtrz_load_index\<close> may run inside of any of them, so all of
  them hand on the state.
\<close>

section \<open>Handles\<close>

text \<open>A new \<open>FILE\<close>.\<close>

definition new_handle :: "s3e_file \<Rightarrow> file_state \<Rightarrow> nat \<times> file_state" where
  "new_handle f st = (fl_next st, st\<lparr>fl_open := (fl_open st)(fl_next st \<mapsto> f), fl_next := fl_next st + 1\<rparr>)"

definition close_handle :: "nat \<Rightarrow> file_state \<Rightarrow> file_state" where
  "close_handle h st = st\<lparr>fl_open := (fl_open st)(h := None)\<rparr>"

definition host_fopen :: "file_env \<Rightarrow> cstring \<Rightarrow> cstring \<Rightarrow> file_state \<Rightarrow> nat option \<times> file_state" where
  "host_fopen E path mode st =
     (case fe_fopen E path mode (fl_files st) of
        None \<Rightarrow> (None, st)
      | Some fs' \<Rightarrow> (let (h, st) = new_handle (Disk path mode) (st\<lparr>fl_files := fs'\<rparr>) in (Some h, st)))"

text \<open>Without memory for its record the file is closed; the caller does not learn of it.\<close>

definition track_memory_file :: "file_env \<Rightarrow> nat \<Rightarrow> file_state \<Rightarrow> file_state" where
  "track_memory_file E h st =
     (if \<not> fe_track E then close_handle h st else st\<lparr>g_memory_files := h # g_memory_files st\<rparr>)"

definition close_memory_file :: "nat \<Rightarrow> file_state \<Rightarrow> bool \<times> file_state" where
  "close_memory_file h st =
     (if h \<in> set (g_memory_files st)
      then (True, close_handle h (st\<lparr>g_memory_files := remove1 h (g_memory_files st)\<rparr>))
      else (False, st))"

section \<open>Entries of the archive\<close>

text \<open>
  An empty entry gets a buffer of one byte, which is never written (\<open>fe_heap_byte\<close>) and is the file.
\<close>

definition open_dtrz_entry :: "file_env \<Rightarrow> cstring \<Rightarrow> file_state \<Rightarrow> (nat option \<times> file_state) mem" where
  "open_dtrz_entry E name st =
     (let (entry, st) = dtrz_find_entry E name st in
      case entry of
        None \<Rightarrow> Ok (None, st)
      | Some entry \<Rightarrow>
        let (contents, st) = open_contents E (dz_path (g_dtrz st)) st in
        (case contents of
           None \<Rightarrow> Ok (None, st)
         | Some archive \<Rightarrow>
           if \<not> fe_malloc E (if de_size entry \<noteq> 0 then unat (de_size entry) else 1) then Ok (None, st)
           else (case fread_exact (unat (de_size entry)) (drop (unat (de_offset entry)) archive) of
                   None \<Rightarrow> Ok (None, st)
                 | Some (buffer, _) \<Rightarrow>
                   rbind (codboz_hide_virtual_stick_artwork (Some (de_name entry)) buffer (unat (de_size entry))) (\<lambda>buffer.
                     if \<not> fe_fmemopen E then Ok (None, st)
                     else let (h, st) = new_handle (Memory_File (if de_size entry = 0 then [fe_heap_byte E] else buffer)) st
                       in Ok (Some h, track_memory_file E h st)))))"

section \<open>The search for a path\<close>

fun try_assets :: "file_env \<Rightarrow> file_state \<Rightarrow> nat \<Rightarrow> (string \<times> cstring) list \<Rightarrow> cstring option" where
  "try_assets E st out_size [] = None"
| "try_assets E st out_size ((prefix, name) # xs) =
     (case try_asset_path E st out_size prefix name of Some p \<Rightarrow> Some p | None \<Rightarrow> try_assets E st out_size xs)"

definition resolve_read_path :: "file_env \<Rightarrow> cstring \<Rightarrow> nat \<Rightarrow> file_state \<Rightarrow> cstring option \<times> file_state" where
  "resolve_read_path E name out_size st =
     (let (redirect, st) = dtrz_archive_redirect_path E name out_size st in
      if redirect \<noteq> None then (redirect, st)
      else let path = make_path E 1200 (Some name) in
        case use_existing_path st out_size path of
          Some p \<Rightarrow> (Some p, st)
        | None \<Rightarrow>
          if starts_with_slash name then (None, st)
          else (case try_assets E st out_size [(''assets'', name), (''assets/data-gles1'', name), (''assets/data-sw'', name)] of
            Some p \<Rightarrow> (Some p, st)
          | None \<Rightarrow>
            (case (case flat_group_name name 512 of None \<Rightarrow> None
                   | Some flat \<Rightarrow> try_assets E st out_size [(''assets/data-gles1'', flat), (''assets/data-sw'', flat), (''assets'', flat)]) of
              Some p \<Rightarrow> (Some p, st)
            | None \<Rightarrow>
              let leaf = base_name name in
              if leaf \<noteq> name then
                (try_assets E st out_size [(''assets/data-gles1'', leaf), (''assets/data-sw'', leaf), (''assets'', leaf)], st)
              else (None, st))))"

section \<open>Modes and the user's files\<close>

definition is_read_mode :: "cstring \<Rightarrow> bool" where
  "is_read_mode mode \<longleftrightarrow> mode \<noteq> [] \<and> hd mode = 114"

definition is_archive_read_mode :: "cstring \<Rightarrow> bool" where
  "is_archive_read_mode mode \<longleftrightarrow> is_read_mode mode \<and> 43 \<notin> set mode"

definition is_user_file_mode :: "cstring \<Rightarrow> bool" where
  "is_user_file_mode mode \<longleftrightarrow> 85 \<in> set mode \<or> 43 \<in> set mode \<or> (mode \<noteq> [] \<and> (hd mode = 119 \<or> hd mode = 97))"

text \<open>The last dot and what follows it.\<close>

definition is_user_file_name :: "cstring \<Rightarrow> bool" where
  "is_user_file_name name \<longleftrightarrow>
     46 \<in> set name \<and> strcaseeq (46 # rev (takeWhile (\<lambda>c. c \<noteq> 46) (rev name))) (bytes_of ''.i3d'')"

definition sanitize_file_mode :: "cstring \<Rightarrow> nat \<Rightarrow> cstring" where
  "sanitize_file_mode mode out_size =
     (let out = take (out_size - 1) (filter (\<lambda>c. c \<noteq> 85) mode)
      in if out = [] then snprintf out_size (bytes_of ''rb'') else out)"

definition make_user_path :: "file_env \<Rightarrow> nat \<Rightarrow> cstring \<Rightarrow> cstring" where
  "make_user_path E out_size name =
     (let home = (case fe_home E of None \<Rightarrow> fe_root E | Some h \<Rightarrow> if h = [] then fe_root E else h)
      in if starts_with_slash name then snprintf out_size name else snprintf out_size (home @ [slash] @ name))"

definition host_mkdir :: "file_env \<Rightarrow> cstring \<Rightarrow> file_state \<Rightarrow> file_state" where
  "host_mkdir E path st = (if fe_mkdir E path then st\<lparr>fl_dirs := insert path (fl_dirs st)\<rparr> else st)"

text \<open>Every prefix of the path that ends before a slash, the first character apart.\<close>

definition make_parent_dirs :: "file_env \<Rightarrow> cstring \<Rightarrow> file_state \<Rightarrow> file_state" where
  "make_parent_dirs E path st =
     (let tmp = snprintf 1200 path
      in fold (\<lambda>i. host_mkdir E (take i tmp)) (filter (\<lambda>i. tmp ! i = slash) [1..<length tmp]) st)"

text \<open>The loop over blocks of 8192 bytes: \<open>fe_fwrite i\<close> is what the \<open>i\<close>-th \<open>fwrite\<close> takes.\<close>

function copy_blocks :: "file_env \<Rightarrow> nat \<Rightarrow> u8 list \<Rightarrow> u8 list \<Rightarrow> bool \<times> u8 list" where
  "copy_blocks E i data out =
     (let got = take 8192 data in
      if length got > 0 \<and> fe_fwrite E i < length got then (False, out @ take (fe_fwrite E i) got)
      else if length got < 8192 then (\<not> fe_read_error E, out @ got)
      else copy_blocks E (i + 1) (drop 8192 data) (out @ got))"
  by pat_completeness auto
termination by (relation "measure (\<lambda>(E, i, data, out). length data)") auto

declare copy_blocks.simps [simp del]

definition copy_file :: "file_env \<Rightarrow> cstring \<Rightarrow> cstring \<Rightarrow> file_state \<Rightarrow> bool \<times> file_state" where
  "copy_file E src dst st =
     (let (contents, st) = open_contents E src st in
      case contents of
        None \<Rightarrow> (False, st)
      | Some data \<Rightarrow>
        let st = make_parent_dirs E dst st in
        (case fe_fopen E dst (bytes_of ''wb'') (fl_files st) of
           None \<Rightarrow> (False, st)
         | Some fs' \<Rightarrow>
           let (ok, out) = copy_blocks E 0 data [] in (ok, st\<lparr>fl_files := fs'(dst \<mapsto> out)\<rparr>)))"

section \<open>Opening\<close>

text \<open>The first three ways: the user's files, entries of the archive that are preferred, a path.\<close>

definition open_first :: "file_env \<Rightarrow> cstring \<Rightarrow> cstring \<Rightarrow> cstring \<Rightarrow> file_state \<Rightarrow> (nat option \<times> file_state) mem" where
  "open_first E name mode fopen_mode st =
     (if is_user_file_mode mode \<or> is_user_file_name name then
        let path = make_user_path E 1200 name;
            st = make_parent_dirs E path st;
            st = (if \<not> is_user_file_name name \<and> is_read_mode mode \<and> \<not> path_exists st path
                  then let (seed, st) = resolve_read_path E name 1200 st
                    in case seed of None \<Rightarrow> st | Some seed_path \<Rightarrow> snd (copy_file E seed_path path st)
                  else st)
        in Ok (host_fopen E path fopen_mode st)
      else rbind (if is_archive_read_mode mode \<and> dtrz_prefer_entry name then open_dtrz_entry E name st
                  else Ok (None, st)) (\<lambda>(file, st).
        if file \<noteq> None then Ok (file, st)
        else let (found, st) = (if is_read_mode mode then resolve_read_path E name 1200 st else (None, st))
          in (case found of
                Some path \<Rightarrow> Ok (host_fopen E path fopen_mode st)
              | None \<Rightarrow>
                let path = make_path E 1200 (Some name);
                    st = (if \<not> is_read_mode mode then make_parent_dirs E path st else st)
                in Ok (host_fopen E path fopen_mode st))))"

text \<open>The three ways that are tried when no file has been opened.\<close>

definition or_open :: "bool \<Rightarrow> (file_state \<Rightarrow> (nat option \<times> file_state) mem) \<Rightarrow> nat option \<times> file_state \<Rightarrow> (nat option \<times> file_state) mem" where
  "or_open cond f = (\<lambda>(file, st). if file = None \<and> cond then f st else Ok (file, st))"

definition s3eFileOpen :: "file_env \<Rightarrow> cstring option \<Rightarrow> cstring option \<Rightarrow> file_state \<Rightarrow> (nat option \<times> file_state) mem" where
  "s3eFileOpen E name mode st =
     (let safe_name = c_str name;
          safe_mode = (case mode of None \<Rightarrow> bytes_of ''rb'' | Some m \<Rightarrow> m);
          fopen_mode = sanitize_file_mode safe_mode 16
      in rbind (open_first E safe_name safe_mode fopen_mode st) (\<lambda>r.
         rbind (or_open (is_read_mode safe_mode \<and> \<not> starts_with_slash safe_name)
                  (\<lambda>st. Ok (host_fopen E (snprintf 1200 (fe_root E @ bytes_of ''/assets/'' @ safe_name)) fopen_mode st)) r) (\<lambda>r.
         rbind (or_open (is_archive_read_mode safe_mode) (open_dtrz_entry E safe_name) r) (\<lambda>r.
         or_open (is_read_mode safe_mode \<and> base_name safe_name = bytes_of ''console.bin'')
           (\<lambda>st. Ok (host_fopen E (bytes_of ''/dev/null'') (bytes_of ''rb'') st)) r))))"

text \<open>\<open>fclose\<close> of a handle that is not open would be an access to a freed \<open>FILE\<close>: \<open>Fault\<close>.\<close>

definition s3eFileClose :: "nat option \<Rightarrow> file_state \<Rightarrow> (int \<times> file_state) mem" where
  "s3eFileClose file st =
     (case file of
        None \<Rightarrow> Ok (-1, st)
      | Some h \<Rightarrow>
        if fl_open st h = None then Fault
        else let (closed, st) = close_memory_file h st
          in if closed then Ok (0, st) else Ok (0, close_handle h st))"

definition s3eFileCheckExists :: "file_env \<Rightarrow> cstring option \<Rightarrow> file_state \<Rightarrow> int \<times> file_state" where
  "s3eFileCheckExists E name st =
     (let safe_name = c_str name in
      if is_user_file_name safe_name then
        (if path_exists st (make_user_path E 1200 safe_name) then 1 else 0, st)
      else let (entry, st) = (if dtrz_prefer_entry safe_name then dtrz_find_entry E safe_name st else (None, st)) in
        if entry \<noteq> None then (1, st)
        else let (found, st) = resolve_read_path E safe_name 1200 st in
          if found \<noteq> None then (1, st)
          else if path_exists st (snprintf 1200 (fe_root E @ bytes_of ''/assets/'' @ safe_name)) then (1, st)
          else let (entry, st) = dtrz_find_entry E safe_name st in (if entry \<noteq> None then 1 else 0, st))"

definition s3eFileOpenFromMemory :: "file_env \<Rightarrow> u8 list option \<Rightarrow> file_state \<Rightarrow> nat option \<times> file_state" where
  "s3eFileOpenFromMemory E buffer st =
     (case buffer of
        None \<Rightarrow> (None, st)
      | Some b \<Rightarrow>
        if b = [] \<or> \<not> fe_fmemopen E then (None, st)
        else let (h, st) = new_handle (Guest_Buffer b) st in (Some h, st))"

section \<open>Directories and names\<close>

text \<open>The system's answers to \<open>unlink\<close> and \<open>rename\<close> are the parameter \<open>works\<close>; an existing directory is no error.\<close>

definition s3eFileMakeDirectory :: "file_env \<Rightarrow> bool \<Rightarrow> cstring option \<Rightarrow> file_state \<Rightarrow> int \<times> file_state" where
  "s3eFileMakeDirectory E exists_already name st =
     (let path = make_path E 1200 name
      in (if fe_mkdir E path \<or> exists_already then 0 else -1, host_mkdir E path st))"

definition s3eFileDelete :: "file_env \<Rightarrow> bool \<Rightarrow> cstring option \<Rightarrow> file_state \<Rightarrow> int \<times> file_state" where
  "s3eFileDelete E works name st =
     (let path = make_path E 1200 name
      in if works then (0, st\<lparr>fl_files := (fl_files st)(path := None)\<rparr>) else (-1, st))"

definition s3eFileRename :: "file_env \<Rightarrow> bool \<Rightarrow> cstring option \<Rightarrow> cstring option \<Rightarrow> file_state \<Rightarrow> int \<times> file_state" where
  "s3eFileRename E works old_name new_name st =
     (let old_path = make_path E 1200 old_name; new_path = make_path E 1200 new_name
      in if works then (0, st\<lparr>fl_files := ((fl_files st)(new_path := fl_files st old_path))(old_path := None)\<rparr>)
         else (-1, st))"

end
