(* ===== verification/File_Properties.thy ===== *)
theory File_Properties
  imports File_Open Assets_Properties
begin

unbundle bit_operations_syntax

text \<open>
  What the guest may rely on of its files: an entry of the archive is opened with the contents it was
  packed with, checking for a file agrees with opening it, and the handles that are open are exactly those
  that the guest holds.
\<close>

section \<open>The archive's format\<close>

text \<open>A file of the index: name, offset and length. The version byte and six bytes per file are not read.\<close>

type_synonym packed = "cstring \<times> u32 \<times> u32"

definition names_image :: "cstring list \<Rightarrow> u8 list" where
  "names_image ns = concat (map (\<lambda>n. n @ [0]) ns)"

definition record_image :: "packed \<Rightarrow> u8 list" where
  "record_image = (\<lambda>(name, offset, sz). le32 offset @ le32 sz @ replicate 8 0)"

definition index_image :: "packed list \<Rightarrow> cstring list \<Rightarrow> u8 list" where
  "index_image ps groups =
     bytes_of ''DTRZ'' @ le16 (of_nat (length ps)) @ le16 (of_nat (if groups = [] then 0 else length groups + 1)) @ [0] @
     names_image (map fst ps) @ names_image groups @ le32 1 @ replicate (6 * length ps) 0 @ concat (map record_image ps)"

definition entry_of :: "packed \<Rightarrow> dtrz_entry" where
  "entry_of = (\<lambda>(name, offset, sz). \<lparr>de_name = name, de_lower_name = lower_copy DTRZ_NAME_MAX name,
     de_lower_base = lower_copy DTRZ_NAME_MAX (base_name name), de_offset = offset, de_size = sz\<rparr>)"

text \<open>The files one after the other from a position on.\<close>

fun placed :: "nat \<Rightarrow> (cstring \<times> u8 list) list \<Rightarrow> packed list" where
  "placed pos [] = []"
| "placed pos ((name, content) # fs) = (name, of_nat pos, of_nat (length content)) # placed (pos + length content) fs"

definition archive_image :: "(cstring \<times> u8 list) list \<Rightarrow> cstring list \<Rightarrow> u8 list" where
  "archive_image packed groups =
     index_image (placed (length (index_image (placed 0 packed) groups)) packed) groups @ concat (map snd packed)"

definition packable :: "(cstring \<times> u8 list) list \<Rightarrow> cstring list \<Rightarrow> bool" where
  "packable packed groups \<longleftrightarrow> length packed \<le> DTRZ_MAX_ENTRIES \<and> length groups < 65535 \<and>
     (\<forall>(name, content) \<in> set packed. 0 \<notin> set name \<and> length name < DTRZ_NAME_MAX) \<and> (\<forall>g \<in> set groups. 0 \<notin> set g) \<and>
     length (archive_image packed groups) < 2 ^ 32"

section \<open>Reading the index\<close>

lemma read_c_string_image: "0 \<notin> set n \<Longrightarrow> read_c_string sz (n @ 0 # rest) = Some (take (sz - 1) n, rest)"
proof -
  assume "0 \<notin> set n"
  then have "takeWhile (\<lambda>b. b \<noteq> 0) (n @ 0 # rest) = n \<and> dropWhile (\<lambda>b. b \<noteq> 0) (n @ 0 # rest) = 0 # rest"
    by (induction n) auto
  then show ?thesis by (simp add: read_c_string_def)
qed

lemma read_names_image:
  "\<forall>n \<in> set ns. 0 \<notin> set n \<Longrightarrow>
    read_names (length ns) (names_image ns @ rest) = Some (map (take (DTRZ_NAME_MAX - 1)) ns, rest)"
  by (induction ns) (auto simp: names_image_def read_c_string_image)

lemma fread_exact_append [simp]: "length a = n \<Longrightarrow> fread_exact n (a @ b) = Some (a, b)"
  by (auto simp: fread_exact_def)

lemma read_le32_le32 [simp]: "read_le32 (le32 v @ rest) = v"
  using le32_join[of v] by (simp add: read_le32_def le32_def)

lemma read_le16_le16 [simp]: "read_le16 (le16 v @ rest) = v"
  using le16_join[of v] by (simp add: read_le16_def le16_def)

lemma read_records_image:
  "read_records (map fst ps) (concat (map record_image ps) @ rest) = Some (map entry_of ps)"
proof (induction ps)
  case (Cons p ps)
  obtain name off sz where p: "p = (name, off, sz)" by (cases p)
  have "fread_exact 16 (record_image p @ x) = Some (record_image p, x)" for x
    by (intro fread_exact_append) (simp add: p record_image_def)
  then show ?case using Cons
    by (simp add: entry_of_def p record_image_def)
qed simp

lemma parse_index_image:
  assumes "length ps \<le> DTRZ_MAX_ENTRIES" "length groups < 65535"
    "\<forall>n \<in> fst ` set ps. 0 \<notin> set n \<and> length n < DTRZ_NAME_MAX" "\<forall>g \<in> set groups. 0 \<notin> set g"
  shows "parse_index (index_image ps groups @ rest) = Some (map entry_of ps)"
proof -
  let ?h = "bytes_of ''DTRZ'' @ le16 (of_nat (length ps)) @ le16 (of_nat (if groups = [] then 0 else length groups + 1)) @ [0]"
  let ?r = "replicate (6 * length ps) 0 @ concat (map record_image ps) @ rest"
  have head: "fread_exact 9 (?h @ x) = Some (?h, x)" "take 4 ?h = bytes_of ''DTRZ''"
    "drop 4 ?h = le16 (of_nat (length ps)) @ le16 (of_nat (if groups = [] then 0 else length groups + 1)) @ [0]"
    "drop 6 ?h = le16 (of_nat (if groups = [] then 0 else length groups + 1)) @ [0]" for x
    by (auto simp: fread_exact_def bytes_of_def le16_def)
  have counts: "unat (of_nat (length ps) :: u16) = length ps"
    "unat (of_nat (if groups = [] then 0 else length groups + 1) :: u16) = (if groups = [] then 0 else length groups + 1)"
    using assms(1,2) by (auto simp: unat_of_nat DTRZ_MAX_ENTRIES_def)
  have names: "read_names (length ps) (names_image (map fst ps) @ x) = Some (map fst ps, x)" for x
  proof -
    have "map (take (DTRZ_NAME_MAX - 1)) (map fst ps) = map fst ps"
      using assms(3) by (intro map_idI) auto
    then show ?thesis using read_names_image[of "map fst ps" x] assms(3) by simp
  qed
  have split: "index_image ps groups @ rest = ?h @ names_image (map fst ps) @ names_image groups @ le32 1 @ ?r"
    by (simp add: index_image_def)
  show ?thesis
    unfolding split parse_index_def head option.case prod.case Let_def read_le16_le16 counts names
    using assms(1) read_names_image[OF assms(4)] read_le32_le32[of 1 "[]"]
    by (cases "groups = []") (simp_all add: names read_records_image mult.commute names_image_def)
qed

section \<open>The layout of an archive\<close>

lemma placed_names [simp]: "map fst (placed pos packed) = map fst packed" "length (placed pos packed) = length packed"
  by (induction pos packed rule: placed.induct) auto

lemma index_length: "length (index_image (placed pos packed) groups) = length (index_image (placed 0 packed) groups)"
proof -
  have "length (concat (map record_image ps)) = 16 * length ps" for ps
    by (induction ps) (auto simp: record_image_def)
  then show ?thesis by (simp add: index_image_def)
qed

text \<open>In a file that holds the contents from the position on, the slice of an entry is its content.\<close>

lemma placed_slice:
  assumes "pos + length (concat (map snd packed)) < 2 ^ 32" "drop pos archive = concat (map snd packed)"
    "i < length packed" "packed ! i = (name, content)"
  shows "\<exists>off sz. placed pos packed ! i = (name, off, sz) \<and> unat sz = length content \<and>
    (\<exists>rest. drop (unat off) archive = content @ rest)"
  using assms
proof (induction packed arbitrary: pos i)
  case (Cons p packed)
  obtain n c where p: "p = (n, c)" by (cases p)
  show ?case
  proof (cases i)
    case 0
    have "unat (of_nat pos :: u32) = pos" "unat (of_nat (length c) :: u32) = length c"
      using Cons.prems(1) by (simp_all add: unat_of_nat p)
    then show ?thesis using Cons.prems 0 by (auto simp: p)
  next
    case (Suc k)
    have "drop (length c) (drop pos archive) = concat (map snd packed)" using Cons.prems(2) p by simp
    then have "drop (pos + length c) archive = concat (map snd packed)" by (simp add: add.commute)
    with Cons.IH[of "pos + length c" k] Cons.prems Suc p show ?thesis by simp
  qed
qed simp

lemma find_map_index:
  assumes "List.find P xs = Some x" "length ys = length xs" "\<And>i. i < length xs \<Longrightarrow> P (xs ! i) = Q (ys ! i)"
  shows "\<exists>i < length xs. xs ! i = x \<and> List.find Q ys = Some (ys ! i)"
proof -
  from assms(1) obtain i where i: "i < length xs" "P (xs ! i)" "x = xs ! i" "\<forall>j < i. \<not> P (xs ! j)"
    by (auto simp: find_Some_iff)
  have "List.find Q ys = Some (ys ! i)"
    unfolding find_Some_iff using i assms(2,3) by (intro exI[of _ i]) auto
  with i show ?thesis by auto
qed

text \<open>A name asks for a file by its whole name or by its last part, both without regard to case.\<close>

definition asks_for :: "cstring \<Rightarrow> cstring \<times> u8 list \<Rightarrow> bool" where
  "asks_for name = (\<lambda>(n, content).
     lower_copy DTRZ_NAME_MAX n = lower_copy DTRZ_NAME_MAX name \<or>
     lower_copy DTRZ_NAME_MAX (base_name n) = base_name (lower_copy DTRZ_NAME_MAX name))"

lemma archive_index:
  assumes "packable packed groups" "List.find (asks_for name) packed = Some (n, content)"
  shows "\<exists>es e. parse_index (archive_image packed groups) = Some es \<and>
    List.find (\<lambda>e. de_lower_name e = lower_copy DTRZ_NAME_MAX name \<or>
      de_lower_base e = base_name (lower_copy DTRZ_NAME_MAX name)) es = Some e \<and>
    de_name e = n \<and> unat (de_size e) = length content \<and>
    (\<exists>rest. drop (unat (de_offset e)) (archive_image packed groups) = content @ rest)"
proof -
  let ?pos = "length (index_image (placed 0 packed) groups)"
  let ?ps = "placed ?pos packed" and ?a = "archive_image packed groups"
  have "fst ` set ?ps = fst ` set packed" using placed_names(1)[of ?pos packed] by (metis list.set_map)
  then have parsed: "parse_index ?a = Some (map entry_of ?ps)"
    using assms(1) unfolding archive_image_def
    by (intro parse_index_image) (auto simp: packable_def)
  have same: "asks_for name (packed ! i) =
      (\<lambda>e. de_lower_name e = lower_copy DTRZ_NAME_MAX name \<or> de_lower_base e = base_name (lower_copy DTRZ_NAME_MAX name))
        (map entry_of ?ps ! i)" if "i < length packed" for i
  proof -
    have "fst (?ps ! i) = fst (packed ! i)" using that placed_names[of ?pos packed] by (metis nth_map)
    then show ?thesis using that
      by (cases "?ps ! i"; cases "packed ! i") (simp add: asks_for_def entry_of_def)
  qed
  from find_map_index[OF assms(2), of "map entry_of ?ps", OF _ same] obtain i where
    i: "i < length packed" "packed ! i = (n, content)"
    "List.find (\<lambda>e. de_lower_name e = lower_copy DTRZ_NAME_MAX name \<or>
      de_lower_base e = base_name (lower_copy DTRZ_NAME_MAX name)) (map entry_of ?ps) = Some (entry_of (?ps ! i))"
    by auto
  have "drop ?pos ?a = concat (map snd packed)" "?pos + length (concat (map snd packed)) < 2 ^ 32"
    using assms(1) index_length[of ?pos packed groups] by (simp_all add: archive_image_def packable_def)
  from placed_slice[OF this(2,1) i(1,2)] show ?thesis
    using parsed i(3) by (auto simp: entry_of_def)
qed

section \<open>Opening and closing\<close>

text \<open>
  \<open>fopen(path, "rb")\<close> opens what exists and changes nothing; memory is available; the handles that have
  been given are below the next one, and the tracked ones are the open memory files.
\<close>

definition opens_existing :: "file_env \<Rightarrow> file_state \<Rightarrow> bool" where
  "opens_existing E st \<longleftrightarrow>
     (\<forall>p. fe_fopen E p (bytes_of ''rb'') (fl_files st) = (if path_exists st p then Some (fl_files st) else None))"

definition memory_available :: "file_env \<Rightarrow> bool" where
  "memory_available E \<longleftrightarrow> (\<forall>n. fe_malloc E n) \<and> fe_fmemopen E \<and> fe_track E"

definition handles_ok :: "file_state \<Rightarrow> bool" where
  "handles_ok st \<longleftrightarrow> (\<forall>h. fl_next st \<le> h \<longrightarrow> fl_open st h = None) \<and> distinct (g_memory_files st) \<and>
     set (g_memory_files st) = {h. \<exists>b. fl_open st h = Some (Memory_File b)}"

lemma host_fopen_rb:
  assumes "opens_existing E st" "fl_files st' = fl_files st"
  shows "host_fopen E p (bytes_of ''rb'') st' =
    (if path_exists st p then (Some (fl_next st'), snd (new_handle (Disk p (bytes_of ''rb'')) st')) else (None, st'))"
  using assms by (auto simp: host_fopen_def opens_existing_def new_handle_def Let_def)

lemma open_contents_rb:
  assumes "opens_existing E st" "fl_files st' = fl_files st"
  shows "open_contents E p st' =
    (if path_exists st p then Some (case fl_files st p of None \<Rightarrow> [] | Some c \<Rightarrow> c) else None, st')"
  using assms by (auto simp: open_contents_def opens_existing_def)

lemma patched_artwork_length: "length data = n \<Longrightarrow> codboz_hide_virtual_stick_artwork name data n = Ok (patched name data)"
  using hide_patched by blast

text \<open>Loading the index changes the index only, and once it is loaded nothing.\<close>

lemma load_frame:
  assumes "opens_existing E st" "fl_files st' = fl_files st" "dtrz_load_index E st' = (ok, s)"
  shows "s = st'\<lparr>g_dtrz := g_dtrz s\<rparr>"
  using assms(3) open_contents_rb[OF assms(1)] assms(2)
  by (auto simp: dtrz_load_index_def Let_def split: if_splits option.splits)

lemma find_frame:
  assumes "opens_existing E st" "fl_files st' = fl_files st" "dtrz_find_entry E name st' = (e, s)"
  shows "s = st'\<lparr>g_dtrz := g_dtrz s\<rparr>"
  using assms load_frame[OF assms(1,2)]
  by (auto simp: dtrz_find_entry_def Let_def split: if_splits prod.splits)

lemma redirect_frame:
  assumes "opens_existing E st" "fl_files st' = fl_files st" "dtrz_archive_redirect_path E name sz st' = (r, s)"
  shows "s = st'\<lparr>g_dtrz := g_dtrz s\<rparr> \<and> (\<forall>p. r = Some p \<longrightarrow> path_exists s (dz_path (g_dtrz s)) \<and> p = snprintf sz (dz_path (g_dtrz s)))"
  using assms load_frame[OF assms(1,2)]
  by (auto simp: dtrz_archive_redirect_path_def Let_def split: if_splits prod.splits)

text \<open>The paths that are looked at for reading, in their order.\<close>

definition asset_path :: "file_env \<Rightarrow> string \<Rightarrow> cstring \<Rightarrow> cstring" where
  "asset_path E prefix name = snprintf 1200 (fe_root E @ [slash] @ bytes_of prefix @ [slash] @ name)"

definition read_candidates :: "file_env \<Rightarrow> cstring \<Rightarrow> cstring list" where
  "read_candidates E name =
     make_path E 1200 (Some name) #
     (if starts_with_slash name then []
      else map (\<lambda>p. asset_path E p name) [''assets'', ''assets/data-gles1'', ''assets/data-sw''] @
        (case flat_group_name name 512 of None \<Rightarrow> []
         | Some flat \<Rightarrow> map (\<lambda>p. asset_path E p flat) [''assets/data-gles1'', ''assets/data-sw'', ''assets'']) @
        (if base_name name = name then []
         else map (\<lambda>p. asset_path E p (base_name name)) [''assets/data-gles1'', ''assets/data-sw'', ''assets'']))"

lemma try_assets_find:
  "try_assets E st sz (map (\<lambda>p. (p, name)) ps) =
     map_option (snprintf sz) (List.find (path_exists st) (map (\<lambda>p. asset_path E p name) ps))"
  by (induction ps) (auto simp: try_asset_path_def use_existing_path_def asset_path_def)

lemma find_append: "List.find P (xs @ ys) = (case List.find P xs of None \<Rightarrow> List.find P ys | Some x \<Rightarrow> Some x)"
  by (induction xs) auto

text \<open>
  Without the redirection of the archive the result is the first candidate that exists.
\<close>

lemma resolve_is_first:
  assumes "dtrz_archive_redirect_path E name sz st = (r, s)"
  shows "resolve_read_path E name sz st =
    (case r of Some p \<Rightarrow> (Some p, s)
     | None \<Rightarrow> (map_option (snprintf sz) (List.find (path_exists s) (read_candidates E name)), s))"
proof -
  note tries = try_assets_find[of E s sz, where ps = "[''assets/data-gles1'', ''assets/data-sw'', ''assets'']"]
    try_assets_find[of E s sz, where ps = "[''assets'', ''assets/data-gles1'', ''assets/data-sw'']"]
  show ?thesis
    using tries assms
    unfolding resolve_read_path_def read_candidates_def Let_def
    by (simp add: find_append use_existing_path_def del: try_assets.simps map_option_case split: option.splits)
qed

text \<open>An entry whose slice lies in the archive is opened as a file in memory.\<close>

definition opened_memory :: "file_env \<Rightarrow> u8 list \<Rightarrow> file_state \<Rightarrow> file_state" where
  "opened_memory E content st = snd (new_handle (Memory_File content) st)\<lparr>g_memory_files := fl_next st # g_memory_files st\<rparr>"

lemma open_entry_found:
  assumes rb: "opens_existing E st" "fl_files st' = fl_files st" and m: "memory_available E"
    and e: "dtrz_find_entry E name st' = (Some e, s)"
    and a: "fl_files st (dz_path (g_dtrz s)) = Some archive" "drop (unat (de_offset e)) archive = content @ rest"
      "length content = unat (de_size e)"
  shows "open_dtrz_entry E name st' = Ok (Some (fl_next st'),
    opened_memory E (if de_size e = 0 then [fe_heap_byte E] else patched (Some (de_name e)) content) s)"
proof -
  have s: "fl_files s = fl_files st" "fl_next s = fl_next st'" "g_memory_files s = g_memory_files st'"
    using find_frame[OF rb e] rb(2) by (metis file_state.select_convs file_state.update_convs file_state.surjective)+
  have "path_exists st (dz_path (g_dtrz s))" using a(1) by (simp add: path_exists_def)
  with open_contents_rb[OF rb(1) s(1)] a(1)
  have "open_contents E (dz_path (g_dtrz s)) s = (Some archive, s)" by simp
  moreover have "fread_exact (unat (de_size e)) (drop (unat (de_offset e)) archive) = Some (content, rest)"
    using a(2,3) by simp
  ultimately show ?thesis
    using m e patched_artwork_length[OF a(3), of "Some (de_name e)"] s
    by (simp add: open_dtrz_entry_def Let_def memory_available_def track_memory_file_def opened_memory_def new_handle_def)
qed

lemma open_entry_none: "dtrz_find_entry E name st = (None, s) \<Longrightarrow> open_dtrz_entry E name st = Ok (None, s)"
  by (simp add: open_dtrz_entry_def)

lemma rb_mode [simp]:
  "sanitize_file_mode (bytes_of ''rb'') 16 = bytes_of ''rb''" "is_read_mode (bytes_of ''rb'')"
  "is_archive_read_mode (bytes_of ''rb'')" "\<not> is_user_file_mode (bytes_of ''rb'')"
  by (simp_all add: sanitize_file_mode_def is_read_mode_def is_archive_read_mode_def is_user_file_mode_def bytes_of_def)

lemma first_load:
  assumes "opens_existing E st" "\<not> dz_loaded (g_dtrz st)" "fl_files st (archive_path E st) = Some archive"
    "parse_index archive = Some es"
  shows "dtrz_load_index E st = (True, st\<lparr>g_dtrz := \<lparr>dz_loaded = True, dz_path = archive_path E st, dz_entries = es\<rparr>\<rparr>)"
proof -
  have "path_exists st (archive_path E st)" using assms(3) by (simp add: path_exists_def)
  then show ?thesis
    using assms open_contents_rb[OF assms(1), of "st\<lparr>g_dtrz := (g_dtrz st)\<lparr>dz_loaded := True, dz_path := archive_path E st\<rparr>\<rparr>"]
    by (simp add: dtrz_load_index_def Let_def)
qed

lemma archive_opens:
  assumes env: "opens_existing E st" "memory_available E"
    and archive: "packable packed groups" "\<not> dz_loaded (g_dtrz st)"
      "fl_files st (archive_path E st) = Some (archive_image packed groups)"
    and name: "dtrz_prefer_entry name" "\<not> is_user_file_name name" "List.find (asks_for name) packed = Some (n, content)"
    and ok: "handles_ok st" "content \<noteq> []"
  shows "\<exists>h st'. s3eFileOpen E (Some name) (Some (bytes_of ''rb'')) st = Ok (Some h, st') \<and>
    fl_open st h = None \<and> fl_open st' = (fl_open st)(h \<mapsto> Memory_File (patched (Some n) content)) \<and> fl_files st' = fl_files st \<and>
    h \<in> set (g_memory_files st')"
proof -
  from archive_index[OF archive(1) name(3)] obtain es e rest where e: "parse_index (archive_image packed groups) = Some es"
    "List.find (\<lambda>e. de_lower_name e = lower_copy DTRZ_NAME_MAX name \<or>
      de_lower_base e = base_name (lower_copy DTRZ_NAME_MAX name)) es = Some e"
    "de_name e = n" "unat (de_size e) = length content"
    "drop (unat (de_offset e)) (archive_image packed groups) = content @ rest" by blast
  let ?s = "st\<lparr>g_dtrz := \<lparr>dz_loaded = True, dz_path = archive_path E st, dz_entries = es\<rparr>\<rparr>"
  have found: "dtrz_find_entry E name st = (Some e, ?s)"
    using first_load[OF env(1) archive(2,3) e(1)] e(2) by (simp add: dtrz_find_entry_def Let_def)
  have "de_size e \<noteq> 0" using e(4) ok(2) by auto
  with open_entry_found[OF env(1) refl env(2) found, of "archive_image packed groups" content rest] archive(3) e(3-5)
  have "open_dtrz_entry E name st = Ok (Some (fl_next st), opened_memory E (patched (Some n) content) ?s)" by simp
  then have "s3eFileOpen E (Some name) (Some (bytes_of ''rb'')) st =
      Ok (Some (fl_next st), opened_memory E (patched (Some n) content) ?s)"
    using name(1,2) by (simp add: s3eFileOpen_def Let_def open_first_def c_str_def or_open_def)
  then show ?thesis using ok(1) by (auto simp: opened_memory_def new_handle_def handles_ok_def Let_def)
qed


definition file_start :: "host_files \<Rightarrow> cstring set \<Rightarrow> file_state" where
  "file_start files dirs = \<lparr>fl_files = files, fl_dirs = dirs, fl_open = (\<lambda>h. None), fl_next = 0, g_memory_files = [],
     g_dtrz = \<lparr>dz_loaded = False, dz_path = [], dz_entries = []\<rparr>\<rparr>"

definition sample_env :: file_env where
  "sample_env = \<lparr>fe_root = bytes_of ''/r'', fe_home = None,
     fe_fopen = (\<lambda>p m fs. if fs p = None then None else Some fs), fe_mkdir = (\<lambda>p. True), fe_fwrite = (\<lambda>i. 8192),
     fe_read_error = False, fe_malloc = (\<lambda>n. True), fe_track = True, fe_fmemopen = True, fe_heap_byte = 0\<rparr>"

definition sample_archive :: host_files where
  "sample_archive = [bytes_of ''/r/assets/blackops_etc.dz'' \<mapsto>
     archive_image [(bytes_of ''data-etc/a.bin'', [1, 2, 3]), (bytes_of ''data-etc/b.bin'', [4])] [bytes_of ''g'']]"


section \<open>Checking and opening\<close>

text \<open>Every entry of the loaded index lies inside of the archive.\<close>

definition archive_complete :: "file_env \<Rightarrow> file_state \<Rightarrow> bool" where
  "archive_complete E st \<longleftrightarrow>
     (let s = snd (dtrz_load_index E st) in length (dz_path (g_dtrz s)) < 1200 \<and>
        (\<forall>e \<in> set (dz_entries (g_dtrz s)). \<exists>archive. fl_files st (dz_path (g_dtrz s)) = Some archive \<and>
           unat (de_offset e) + unat (de_size e) \<le> length archive))"

text \<open>States between which only the index has been loaded.\<close>

definition only_loaded :: "file_env \<Rightarrow> file_state \<Rightarrow> file_state \<Rightarrow> bool" where
  "only_loaded E st s \<longleftrightarrow> snd (dtrz_load_index E s) = snd (dtrz_load_index E st) \<and> fl_files s = fl_files st \<and> fl_dirs s = fl_dirs st"

lemma only_loaded_refl: "only_loaded E st st"
  by (simp add: only_loaded_def)

lemma only_loaded_exists: "only_loaded E st s \<Longrightarrow> path_exists s p = path_exists st p"
  by (simp add: only_loaded_def path_exists_def)

lemma load_loads: "dtrz_load_index E st = (ok, s) \<Longrightarrow> dz_loaded (g_dtrz s)"
  by (auto simp: dtrz_load_index_def Let_def open_contents_def split: if_splits option.splits)

lemma load_only_loaded:
  assumes "opens_existing E st" "only_loaded E st s"
  shows "only_loaded E st (snd (dtrz_load_index E s))"
proof -
  obtain ok s' where l: "dtrz_load_index E s = (ok, s')" by fastforce
  have "s' = s\<lparr>g_dtrz := g_dtrz s'\<rparr>" using load_frame[OF assms(1) _ l] assms(2) by (simp add: only_loaded_def)
  then have "fl_files s' = fl_files s" "fl_dirs s' = fl_dirs s"
    by (metis file_state.select_convs(1,2) file_state.update_convs(6) file_state.surjective)+
  moreover have "snd (dtrz_load_index E s') = s'" using load_loads[OF l] by (simp add: dtrz_load_index_def)
  ultimately show ?thesis using assms(2) by (simp add: only_loaded_def l)
qed

lemma find_only_loaded:
  assumes "opens_existing E st" "only_loaded E st s" "dtrz_find_entry E name s = (e, s')"
  shows "only_loaded E st s' \<and> s' = snd (dtrz_load_index E st) \<and> (\<forall>x. e = Some x \<longrightarrow> x \<in> set (dz_entries (g_dtrz s')))"
  using load_only_loaded[OF assms(1,2)] assms(2,3)
  by (cases "dtrz_load_index E s")
    (auto simp: dtrz_find_entry_def Let_def only_loaded_def find_Some_iff split: if_splits)

lemma redirect_only_loaded:
  assumes "opens_existing E st" "only_loaded E st s" "dtrz_archive_redirect_path E name sz s = (r, s')"
  shows "only_loaded E st s' \<and> (r \<noteq> None \<longrightarrow> s' = snd (dtrz_load_index E st))"
  using load_only_loaded[OF assms(1,2)] assms(2,3)
  by (cases "dtrz_load_index E s")
    (auto simp: dtrz_archive_redirect_path_def Let_def only_loaded_def split: if_splits)

lemma candidates_short: "p \<in> set (read_candidates E name) \<Longrightarrow> snprintf 1200 p = p"
  by (auto simp: read_candidates_def asset_path_def make_path_def snprintf_def split: if_splits option.splits)

lemma resolve_only_loaded:
  assumes "opens_existing E st" "archive_complete E st" "only_loaded E st s" "resolve_read_path E name 1200 s = (r, s')"
  shows "only_loaded E st s' \<and> (case r of Some p \<Rightarrow> path_exists st p | None \<Rightarrow> \<forall>p \<in> set (read_candidates E name). \<not> path_exists st p)"
proof -
  obtain q s1 where d: "dtrz_archive_redirect_path E name 1200 s = (q, s1)" by fastforce
  note q = redirect_only_loaded[OF assms(1,3) d]
  show ?thesis
  proof (cases q)
    case (Some p)
    have "s1 = snd (dtrz_load_index E st)" using q Some by simp
    then have "length (dz_path (g_dtrz s1)) < 1200" using assms(2) by (simp add: archive_complete_def Let_def)
    then have "snprintf 1200 (dz_path (g_dtrz s1)) = dz_path (g_dtrz s1)" by (simp add: snprintf_def)
    moreover have "fl_files s = fl_files st" using assms(3) by (simp add: only_loaded_def)
    ultimately have "path_exists s1 p" using redirect_frame[OF assms(1) _ d] Some by auto
    then show ?thesis using q Some only_loaded_exists resolve_is_first[OF d] assms(4) by auto
  next
    case None
    have "snprintf 1200 p = p \<and> path_exists s1 p" if "List.find (path_exists s1) (read_candidates E name) = Some p" for p
      using that candidates_short by (auto simp: find_Some_iff in_set_conv_nth)
    then show ?thesis
      using q None only_loaded_exists[of E st s1] resolve_is_first[OF d] assms(4)
      by (cases "List.find (path_exists s1) (read_candidates E name)") (auto simp: find_None_iff)
  qed
qed

lemma entry_only_loaded:
  assumes env: "opens_existing E st" "archive_complete E st" "memory_available E" "only_loaded E st s"
    and f: "dtrz_find_entry E name s = (e, s')"
  shows "\<exists>r s''. open_dtrz_entry E name s = Ok (r, s'') \<and> (r = None \<longleftrightarrow> e = None) \<and> (r = None \<longrightarrow> s'' = s')"
proof (cases e)
  case None
  then show ?thesis using f open_entry_none by fastforce
next
  case (Some x)
  note found = find_only_loaded[OF env(1,4) f]
  then obtain archive where a: "fl_files st (dz_path (g_dtrz s')) = Some archive"
    "unat (de_offset x) + unat (de_size x) \<le> length archive"
    using env(2) Some by (auto simp: archive_complete_def Let_def)
  let ?rest = "drop (unat (de_offset x)) archive"
  have fl: "fl_files s = fl_files st" using env(4) by (simp add: only_loaded_def)
  have "?rest = take (unat (de_size x)) ?rest @ drop (unat (de_size x)) ?rest" by (rule append_take_drop_id[symmetric])
  moreover have "length (take (unat (de_size x)) ?rest) = unat (de_size x)" using a(2) by simp
  ultimately show ?thesis
    using open_entry_found[OF env(1) fl env(3) f[unfolded Some] a(1)] Some by blast
qed

lemma fopen_only_loaded:
  assumes "opens_existing E st" "only_loaded E st s"
  shows "\<exists>r s'. host_fopen E p (bytes_of ''rb'') s = (r, s') \<and> (r = None \<longleftrightarrow> \<not> path_exists st p) \<and> (r = None \<longrightarrow> s' = s)"
  using host_fopen_rb[OF assms(1), of s p] assms(2) by (auto simp: only_loaded_def)

text \<open>What a check looks at, one after the other.\<close>

definition found_somewhere :: "file_env \<Rightarrow> cstring \<Rightarrow> file_state \<Rightarrow> bool" where
  "found_somewhere E name st \<longleftrightarrow> fst (s3eFileCheckExists E (Some name) st) = 1"

lemma user_file_opens:
  assumes "opens_existing E st" "is_user_file_name name" "found_somewhere E name st"
  shows "\<exists>h st'. s3eFileOpen E (Some name) (Some (bytes_of ''rb'')) st = Ok (Some h, st')"
proof -
  let ?p = "make_user_path E 1200 name"
  have p: "path_exists st ?p"
    using assms(2,3) by (auto simp: found_somewhere_def s3eFileCheckExists_def Let_def c_str_def split: if_splits)
  have "fl_files (fold (\<lambda>i. host_mkdir E (f i)) xs s) = fl_files s" for f and xs :: "nat list" and s
    by (induction xs arbitrary: s) (auto simp: host_mkdir_def)
  then have "fl_files (make_parent_dirs E ?p st) = fl_files st" by (simp add: make_parent_dirs_def Let_def)
  from host_fopen_rb[OF assms(1) this, of ?p] p
  obtain h st' where "host_fopen E ?p (bytes_of ''rb'') (make_parent_dirs E ?p st) = (Some h, st')" by auto
  then show ?thesis using assms(2)
    by (auto simp: s3eFileOpen_def open_first_def Let_def or_open_def c_str_def)
qed

lemma check_opens:
  assumes env: "opens_existing E st" "archive_complete E st" "memory_available E"
    and name: "\<not> is_user_file_name name" "\<not> starts_with_slash name" "base_name name \<noteq> bytes_of ''console.bin''"
  shows "\<exists>r st'. s3eFileOpen E (Some name) (Some (bytes_of ''rb'')) st = Ok (r, st') \<and> (r \<noteq> None \<longleftrightarrow> found_somewhere E name st)"
proof -
  let ?pref = "dtrz_prefer_entry name" and ?rb = "bytes_of ''rb''"
  let ?asset = "snprintf 1200 (fe_root E @ bytes_of ''/assets/'' @ name)"
  obtain e1 s1 where s1: "(if ?pref then dtrz_find_entry E name st else (None, st)) = (e1, s1)" by fastforce
  have o1: "only_loaded E st s1"
    using s1 find_only_loaded[OF env(1) only_loaded_refl] only_loaded_refl[of E st] by (auto split: if_splits)
  obtain found s2 where s2: "resolve_read_path E name 1200 s1 = (found, s2)" by fastforce
  note o2 = resolve_only_loaded[OF env(1,2) o1 s2]
  obtain e3 s3 where s3: "dtrz_find_entry E name s2 = (e3, s3)" by fastforce
  have check: "found_somewhere E name st \<longleftrightarrow> e1 \<noteq> None \<or> found \<noteq> None \<or> path_exists st ?asset \<or> e3 \<noteq> None"
    using name(1) s1 s2 s3 only_loaded_exists[of E st s2 ?asset] o2
    by (auto simp: found_somewhere_def s3eFileCheckExists_def Let_def c_str_def split: if_splits)
  obtain r1 t1 where t1: "(if ?pref then open_dtrz_entry E name st else Ok (None, st)) = Ok (r1, t1)"
    "r1 = None \<longleftrightarrow> e1 = None" "r1 = None \<longrightarrow> t1 = s1"
    using s1 entry_only_loaded[OF env only_loaded_refl, of name] by (auto split: if_splits)
  obtain r2 t2 where t2: "host_fopen E (case found of Some p \<Rightarrow> p | None \<Rightarrow> make_path E 1200 (Some name)) ?rb s2 = (r2, t2)"
    "r2 = None \<longleftrightarrow> found = None" "r2 = None \<longrightarrow> t2 = s2"
    using o2 fopen_only_loaded[OF env(1), of s2] by (cases found) (fastforce simp: read_candidates_def)+
  obtain r3 t3 where t3: "host_fopen E ?asset ?rb s2 = (r3, t3)" "r3 = None \<longleftrightarrow> \<not> path_exists st ?asset" "r3 = None \<longrightarrow> t3 = s2"
    using o2 fopen_only_loaded[OF env(1), of s2] by blast
  obtain r4 t4 where t4: "open_dtrz_entry E name s2 = Ok (r4, t4)" "r4 = None \<longleftrightarrow> e3 = None"
    using entry_only_loaded[OF env _ s3] o2 by blast
  have first: "open_first E name ?rb ?rb st = Ok (if r1 \<noteq> None then (r1, t1) else (r2, t2))"
    using name(1) t1 t2(1) s2 by (cases found) (auto simp: open_first_def Let_def)
  show ?thesis
    using first name(2,3) t1(2) t2(2,3) t3 t4 check
    by (cases "r1 = None"; cases "r2 = None"; cases "r3 = None")
      (auto simp: s3eFileOpen_def Let_def c_str_def or_open_def)
qed



end
