(* ===== verification/File_Handles.thy ===== *)
theory File_Handles
  imports File_Properties
begin

text \<open>
  Which handles are open: exactly those that the guest has been given and has not closed. Every operation
  opens at most the one it returns; looking for files, copying and loading the index open none that stay.
\<close>

section \<open>Handles\<close>

text \<open>Steps that leave the handles alone, and steps that open at most the one they return.\<close>

definition same_handles :: "file_state \<Rightarrow> file_state \<Rightarrow> bool" where
  "same_handles st st' \<longleftrightarrow> fl_open st' = fl_open st \<and> fl_next st' = fl_next st \<and> g_memory_files st' = g_memory_files st"

definition opens_one :: "file_state \<Rightarrow> nat option \<times> file_state \<Rightarrow> bool" where
  "opens_one st = (\<lambda>(r, st'). handles_ok st \<longrightarrow> handles_ok st' \<and> (\<forall>h. r = Some h \<longrightarrow> fl_open st h = None) \<and>
     {h. fl_open st' h \<noteq> None} = {h. fl_open st h \<noteq> None} \<union> set_option r)"

named_theorems same_intros "steps that leave the handles alone"

lemma same_refl [same_intros]: "same_handles st st"
  by (simp add: same_handles_def)

lemma same_trans: "same_handles a b \<Longrightarrow> same_handles b c \<Longrightarrow> same_handles a c"
  by (simp add: same_handles_def)

lemma same_updates [simp]:
  "same_handles st (st'\<lparr>fl_files := x\<rparr>) = same_handles st st'" "same_handles st (st'\<lparr>fl_dirs := y\<rparr>) = same_handles st st'"
  "same_handles st (st'\<lparr>g_dtrz := z\<rparr>) = same_handles st st'"
  by (simp_all add: same_handles_def)

lemma open_contents_same [same_intros]: "same_handles st (snd (open_contents E p st))"
  by (auto simp: open_contents_def same_intros split: option.splits)

lemma load_same [same_intros]: "same_handles st (snd (dtrz_load_index E st))"
proof -
  have "same_handles st (snd (open_contents E p (st\<lparr>g_dtrz := d\<rparr>)))" for p d
    using open_contents_same[of "st\<lparr>g_dtrz := d\<rparr>" E p] by (simp add: same_handles_def)
  then show ?thesis
    by (auto simp: dtrz_load_index_def Let_def same_intros split: prod.splits option.splits if_splits) (metis snd_conv)+
qed

lemma find_same [same_intros]: "same_handles st (snd (dtrz_find_entry E name st))"
  using load_same[of st E] by (cases "dtrz_load_index E st") (simp add: dtrz_find_entry_def Let_def)

lemma redirect_same [same_intros]: "same_handles st (snd (dtrz_archive_redirect_path E name sz st))"
  using load_same[of st E] same_refl[of st]
  by (cases "dtrz_load_index E st") (simp add: dtrz_archive_redirect_path_def Let_def)

lemma resolve_same [same_intros]: "same_handles st (snd (resolve_read_path E name sz st))"
  using redirect_same[of st E name sz] resolve_is_first[OF surjective_pairing]
  by (auto split: option.splits)

lemma mkdir_same [same_intros]: "same_handles st (host_mkdir E p st)"
  by (simp add: host_mkdir_def same_intros)

lemma parents_same [same_intros]: "same_handles st (make_parent_dirs E p st)"
proof -
  have "same_handles st (fold (\<lambda>i. host_mkdir E (f i)) xs st)" for f and xs :: "nat list"
    by (induction xs arbitrary: st) (auto intro: same_intros same_trans)
  then show ?thesis by (simp add: make_parent_dirs_def Let_def)
qed

lemma copy_same [same_intros]: "same_handles st (snd (copy_file E a b st))"
proof -
  have "same_handles st (make_parent_dirs E b (snd (open_contents E a st)))"
    by (rule same_trans) (rule same_intros)+
  then show ?thesis using open_contents_same[of st E a]
    by (auto simp: copy_file_def Let_def split: prod.splits option.splits)
qed

lemma opens_none: "same_handles st st' \<Longrightarrow> opens_one st (None, st')"
  by (auto simp: opens_one_def same_handles_def handles_ok_def)

lemma opens_after: "same_handles st st' \<Longrightarrow> opens_one st' r \<Longrightarrow> opens_one st r"
proof -
  assume s: "same_handles st st'" and r: "opens_one st' r"
  have "handles_ok st' = handles_ok st" "fl_open st' = fl_open st" using s by (simp_all add: same_handles_def handles_ok_def)
  then show ?thesis using r by (simp add: opens_one_def)
qed

lemma opens_handle:
  assumes "fl_open st' = (fl_open st)(fl_next st \<mapsto> f)" "fl_next st' = fl_next st + 1"
    "g_memory_files st' = (case f of Memory_File _ \<Rightarrow> [fl_next st] | _ \<Rightarrow> []) @ g_memory_files st"
  shows "opens_one st (Some (fl_next st), st')"
proof -
  have "handles_ok st' \<and> fl_open st (fl_next st) = None" if ok: "handles_ok st"
  proof -
    have new: "fl_open st (fl_next st) = None" using ok by (simp add: handles_ok_def)
    then have "fl_next st \<notin> set (g_memory_files st)" using ok by (simp add: handles_ok_def)
    moreover have "{h. \<exists>b. fl_open st' h = Some (Memory_File b)} =
        (case f of Memory_File _ \<Rightarrow> {fl_next st} | _ \<Rightarrow> {}) \<union> {h. \<exists>b. fl_open st h = Some (Memory_File b)}"
      using new by (cases f) (auto simp: assms(1))
    moreover have "\<forall>h. fl_next st' \<le> h \<longrightarrow> fl_open st' h = None"
      using ok by (simp add: handles_ok_def assms(1,2))
    ultimately show ?thesis
      using ok new assms(3) by (cases f) (simp_all add: handles_ok_def)
  qed
  moreover have "{h. fl_open st' h \<noteq> None} = {h. fl_open st h \<noteq> None} \<union> {fl_next st}"
    by (auto simp: assms(1))
  ultimately show ?thesis by (simp add: opens_one_def)
qed

lemma fopen_opens: "opens_one st (host_fopen E p m st)"
proof (cases "fe_fopen E p m (fl_files st)")
  case None
  then show ?thesis by (simp add: host_fopen_def opens_none same_refl)
next
  case (Some fs)
  then show ?thesis by (simp add: host_fopen_def new_handle_def opens_handle[of _ _ "Disk p m"])
qed

lemma memory_opens: "opens_one st (Some (fl_next st), opened_memory E content st)"
  by (rule opens_handle[of _ _ "Memory_File content"]) (simp_all add: opened_memory_def new_handle_def)

lemma hide_ok: "length data = n \<Longrightarrow> \<exists>data'. codboz_hide_virtual_stick_artwork name data n = Ok data'"
  using patched_artwork_length by blast

lemma entry_opens:
  assumes "fe_track E"
  shows "\<exists>r. open_dtrz_entry E name st = Ok r \<and> opens_one st r"
proof -
  obtain e s where e: "dtrz_find_entry E name st = (e, s)" by fastforce
  then have s: "same_handles st s" using find_same[of st E name] by simp
  show ?thesis
  proof (cases e)
    case None
    then show ?thesis using e s by (simp add: open_dtrz_entry_def opens_none)
  next
    case (Some entry)
    obtain c s' where c: "open_contents E (dz_path (g_dtrz s)) s = (c, s')" by fastforce
    then have s': "same_handles st s'" using open_contents_same[of s E "dz_path (g_dtrz s)"] s same_trans by fastforce
    show ?thesis
    proof (cases "c = None \<or> \<not> fe_malloc E (if de_size entry \<noteq> 0 then unat (de_size entry) else 1) \<or>
        fread_exact (unat (de_size entry)) (drop (unat (de_offset entry)) (the c)) = None \<or> \<not> fe_fmemopen E")
      case True
      show ?thesis
      proof (cases "fread_exact (unat (de_size entry)) (drop (unat (de_offset entry)) (the c))")
        case (Some b)
        then have "length (fst b) = unat (de_size entry)" by (auto simp: fread_exact_def split: if_splits)
        from hide_ok[OF this, of "Some (de_name entry)"] obtain d where
          "codboz_hide_virtual_stick_artwork (Some (de_name entry)) (fst b) (unat (de_size entry)) = Ok d" by blast
        then show ?thesis using True Some e c \<open>e = Some entry\<close> opens_none[OF s']
          by (cases b; cases c) (auto simp: open_dtrz_entry_def Let_def)
      qed (use e c \<open>e = Some entry\<close> opens_none[OF s'] in \<open>cases c; auto simp: open_dtrz_entry_def Let_def\<close>)
    next
      case False
      then obtain a b x where b: "c = Some a" "fread_exact (unat (de_size entry)) (drop (unat (de_offset entry)) a) = Some (b, x)"
        by auto
      then have "length b = unat (de_size entry)" by (auto simp: fread_exact_def split: if_splits)
      from hide_ok[OF this, of "Some (de_name entry)"] obtain d where
        "codboz_hide_virtual_stick_artwork (Some (de_name entry)) b (unat (de_size entry)) = Ok d" by blast
      then have "open_dtrz_entry E name st =
          Ok (Some (fl_next s'), opened_memory E (if de_size entry = 0 then [fe_heap_byte E] else d) s')"
        using False e c b assms Some
        by (simp add: open_dtrz_entry_def track_memory_file_def new_handle_def opened_memory_def)
      then show ?thesis using opens_after[OF s' memory_opens] by simp
    qed
  qed
qed

lemma opens_then: "opens_one st (None, s) \<Longrightarrow> opens_one s r \<Longrightarrow> opens_one st r"
proof -
  assume a: "opens_one st (None, s)" and r: "opens_one s r"
  have "{h. fl_open s h \<noteq> None} = {h. fl_open st h \<noteq> None}" if "handles_ok st" using a that by (simp add: opens_one_def)
  then have "fl_open s h = None \<longleftrightarrow> fl_open st h = None" if "handles_ok st" for h using that by blast
  moreover obtain h st' where "r = (h, st')" by (cases r)
  ultimately show ?thesis using a r unfolding opens_one_def by auto
qed

text \<open>A step that may fail to open but not otherwise.\<close>

definition may_open :: "file_state \<Rightarrow> (nat option \<times> file_state) mem \<Rightarrow> bool" where
  "may_open st m \<longleftrightarrow> (\<exists>r. m = Ok r \<and> opens_one st r)"

lemma may_open_Ok: "opens_one st r \<Longrightarrow> may_open st (Ok r)"
  by (simp add: may_open_def)

lemma may_open_bind: "may_open st m \<Longrightarrow> (\<And>r. opens_one st r \<Longrightarrow> may_open st (k r)) \<Longrightarrow> may_open st (rbind m k)"
  by (auto simp: may_open_def)

lemma may_open_or_open:
  assumes r: "opens_one st r" and f: "\<And>s. may_open s (f s)"
  shows "may_open st (or_open cond f r)"
proof -
  obtain h s where h: "r = (h, s)" by (cases r)
  from f[of s] obtain r' where r': "f s = Ok r'" "opens_one s r'" by (auto simp: may_open_def)
  show ?thesis
  proof (cases "h = None \<and> cond")
    case True
    then have "opens_one st r'" using r h r'(2) opens_then by simp
    with True h r' show ?thesis by (simp add: or_open_def may_open_def)
  next
    case False
    then have "or_open cond f r = Ok r" by (auto simp: or_open_def h)
    with r show ?thesis by (simp add: may_open_def)
  qed
qed

lemma may_open_fopen: "same_handles st s \<Longrightarrow> may_open st (Ok (host_fopen E p m s))"
  by (intro may_open_Ok opens_after[OF _ fopen_opens])

lemma may_open_first:
  assumes "fe_track E"
  shows "may_open st (open_first E name mode fopen_mode st)"
proof (cases "is_user_file_mode mode \<or> is_user_file_name name")
  case True
  let ?path = "make_user_path E 1200 name"
  let ?st1 = "make_parent_dirs E ?path st"
  obtain seed st2 where r: "resolve_read_path E name 1200 ?st1 = (seed, st2)" by fastforce
  have st2: "same_handles st st2"
    using same_trans[OF parents_same[of st E ?path] resolve_same[of ?st1 E name 1200]] by (simp add: r)
  have "same_handles st (snd (copy_file E p ?path st2))" for p by (rule same_trans[OF st2 copy_same])
  then show ?thesis using True st2 parents_same[of st E ?path]
    by (cases seed) (simp_all add: open_first_def Let_def r may_open_fopen)
next
  case False
  have "may_open st (if is_archive_read_mode mode \<and> dtrz_prefer_entry name then open_dtrz_entry E name st else Ok (None, st))"
    using entry_opens[OF assms, of name st] opens_none[OF same_refl, of st] by (auto simp: may_open_def)
  then obtain r s where m: "(if is_archive_read_mode mode \<and> dtrz_prefer_entry name then open_dtrz_entry E name st else Ok (None, st))
      = Ok (r, s)" "opens_one st (r, s)" by (auto simp: may_open_def)
  obtain found s2 where f: "resolve_read_path E name 1200 s = (found, s2)" by fastforce
  then have s2: "same_handles s s2" using resolve_same[of s E name 1200] by simp
  have s3: "same_handles s (make_parent_dirs E p s)" for p by (rule parents_same)
  have "may_open s (Ok (host_fopen E p fopen_mode s))" "may_open s (Ok (host_fopen E p fopen_mode s2))"
    "may_open s (Ok (host_fopen E p fopen_mode (make_parent_dirs E q s)))" for p q
    using may_open_fopen same_refl s2 s3 by blast+
  then have "may_open st (Ok (host_fopen E p fopen_mode s))" "may_open st (Ok (host_fopen E p fopen_mode s2))"
    "may_open st (Ok (host_fopen E p fopen_mode (make_parent_dirs E q s)))" if "r = None" for p q
    using m(2) that opens_then by (auto simp: may_open_def)
  then show ?thesis using False m
    by (cases "r = None"; cases found) (simp_all add: open_first_def Let_def f may_open_Ok)
qed

lemma may_open_file: "fe_track E \<Longrightarrow> may_open st (s3eFileOpen E name mode st)"
proof -
  assume t: "fe_track E"
  have tries: "may_open s (Ok (host_fopen E p m s))" "may_open s (open_dtrz_entry E n s)" for s p m n
    using may_open_fopen[OF same_refl] entry_opens[OF t] by (auto simp: may_open_def)
  show ?thesis unfolding s3eFileOpen_def Let_def
    by (intro may_open_bind may_open_or_open may_open_first t tries; assumption)
qed

section \<open>The guest's handles\<close>

text \<open>
  The calls of the guest, each with the answers of the system at that time; a program that closes a
  handle closes one that it holds.
\<close>

datatype file_call =
    Call_Open file_env "cstring option" "cstring option"
  | Call_Open_Memory file_env "u8 list option"
  | Call_Close nat
  | Call_Exists file_env "cstring option"
  | Call_Make_Directory file_env bool "cstring option"
  | Call_Delete file_env bool "cstring option"
  | Call_Rename file_env bool "cstring option" "cstring option"

fun file_step :: "file_call \<Rightarrow> file_state \<times> nat set \<Rightarrow> (file_state \<times> nat set) mem" where
  "file_step (Call_Open E name mode) (st, held) =
     rbind (s3eFileOpen E name mode st) (\<lambda>(r, st). Ok (st, held \<union> set_option r))"
| "file_step (Call_Open_Memory E buffer) (st, held) =
     (let (r, st) = s3eFileOpenFromMemory E buffer st in Ok (st, held \<union> set_option r))"
| "file_step (Call_Close h) (st, held) =
     (if h \<in> held then rbind (s3eFileClose (Some h) st) (\<lambda>(r, st). Ok (st, held - {h})) else Ok (st, held))"
| "file_step (Call_Exists E name) (st, held) = Ok (snd (s3eFileCheckExists E name st), held)"
| "file_step (Call_Make_Directory E there name) (st, held) = Ok (snd (s3eFileMakeDirectory E there name st), held)"
| "file_step (Call_Delete E works name) (st, held) = Ok (snd (s3eFileDelete E works name st), held)"
| "file_step (Call_Rename E works old new) (st, held) = Ok (snd (s3eFileRename E works old new st), held)"

text \<open>The records of the memory files can be allocated.\<close>

fun tracks :: "file_call \<Rightarrow> bool" where
  "tracks (Call_Open E name mode) = fe_track E"
| "tracks c = True"

definition owned :: "file_state \<times> nat set \<Rightarrow> bool" where
  "owned = (\<lambda>(st, held). handles_ok st \<and> held = {h. fl_open st h \<noteq> None})"

lemma owned_same: "same_handles st st' \<Longrightarrow> owned (st, held) \<Longrightarrow> owned (st', held)"
  by (simp add: owned_def same_handles_def handles_ok_def)

lemma owned_opens: "opens_one st (r, st') \<Longrightarrow> owned (st, held) \<Longrightarrow> owned (st', held \<union> set_option r)"
  by (simp add: owned_def opens_one_def)

lemma exists_same [same_intros]: "same_handles st (snd (s3eFileCheckExists E name st))"
proof -
  have one: "same_handles st s" if "dtrz_find_entry E n st = (e, s)" for n e s and st
    using find_same[of st E n] that by simp
  have two: "same_handles st s" if "resolve_read_path E n sz st = (e, s)" for n sz e s and st
    using resolve_same[of st E n sz] that by simp
  show ?thesis
    unfolding s3eFileCheckExists_def Let_def
    by (auto split: prod.splits intro: same_refl one two same_trans[OF one two] same_trans[OF two one]
        same_trans[OF same_trans[OF one two] one] dest!: one two intro: same_trans)
qed

lemma close_held:
  assumes "owned (st, held)" "h \<in> held"
  shows "\<exists>r st'. s3eFileClose (Some h) st = Ok (r, st') \<and> owned (st', held - {h})"
proof -
  from assms have h: "fl_open st h \<noteq> None" and ok: "handles_ok st" and held: "held = {h. fl_open st h \<noteq> None}"
    by (auto simp: owned_def)
  have rest: "{h'. fl_open (close_handle h s) h' \<noteq> None} = {h. fl_open s h \<noteq> None} - {h}" for s
    by (auto simp: close_handle_def)
  have "handles_ok (close_handle h (st\<lparr>g_memory_files := remove1 h (g_memory_files st)\<rparr>))"
    using ok by (auto simp: handles_ok_def close_handle_def)
  moreover have "handles_ok (close_handle h st)" if "h \<notin> set (g_memory_files st)"
    using ok that by (auto simp: handles_ok_def close_handle_def)
  ultimately show ?thesis
    using h rest[of st] rest[of "st\<lparr>g_memory_files := remove1 h (g_memory_files st)\<rparr>"] held
    by (auto simp: s3eFileClose_def close_memory_file_def owned_def)
qed

lemma file_call_owned:
  assumes "tracks c" "owned s"
  shows "\<exists>s'. file_step c s = Ok s' \<and> owned s'"
proof -
  obtain st held where s: "s = (st, held)" by (cases s)
  have o: "owned (st, held)" using assms(2) s by simp
  show ?thesis
  proof (cases c)
    case (Call_Open E name mode)
    from may_open_file[of E st name mode] assms(1) Call_Open obtain r st' where
      "s3eFileOpen E name mode st = Ok (r, st')" "opens_one st (r, st')" by (auto simp: may_open_def)
    then show ?thesis using owned_opens[OF _ o] by (simp add: Call_Open s)
  next
    case (Call_Open_Memory E buffer)
    have "opens_one st (s3eFileOpenFromMemory E buffer st)"
      by (auto simp: s3eFileOpenFromMemory_def new_handle_def Let_def opens_none same_refl split: option.splits
          intro!: opens_handle[of _ _ "Guest_Buffer b" for b])
    then show ?thesis using owned_opens[OF _ o] by (cases "s3eFileOpenFromMemory E buffer st") (simp add: Call_Open_Memory s)
  next
    case (Call_Close h)
    then show ?thesis using close_held[OF o, of h] o by (auto simp: s)
  next
    case (Call_Exists E name)
    then show ?thesis using owned_same[OF exists_same o] by (simp add: s)
  next
    case (Call_Make_Directory E there name)
    then show ?thesis using owned_same[OF mkdir_same o] by (simp add: s s3eFileMakeDirectory_def Let_def)
  next
    case (Call_Delete E works name)
    then show ?thesis using owned_same[OF _ o] by (auto simp: s s3eFileDelete_def Let_def same_refl)
  next
    case (Call_Rename E works old new)
    then show ?thesis using owned_same[OF _ o] by (auto simp: s s3eFileRename_def Let_def same_refl)
  qed
qed

lemma calls_owned: "\<forall>c \<in> set cs. tracks c \<Longrightarrow> owned s \<Longrightarrow> \<exists>s'. rfold file_step cs s = Ok s' \<and> owned s'"
proof (induction cs arbitrary: s)
  case (Cons c cs)
  from file_call_owned[of c s] Cons.prems obtain s' where "file_step c s = Ok s'" "owned s'" by auto
  with Cons.IH[of s'] Cons.prems(1) show ?case by auto
qed simp

lemma start_owned: "owned (file_start files dirs, {})"
  by (simp add: owned_def file_start_def handles_ok_def)



section \<open>Without the record\<close>

text \<open>
  When the record of a memory file cannot be allocated, \<open>track_memory_file\<close> closes the file and frees its
  buffer, but \<open>open_dtrz_entry\<close> returns the file all the same: the guest holds a handle that is closed, and
  closing it is an access to freed memory.
\<close>

lemma untracked_handle_dangles:
  assumes "dtrz_find_entry E name st = (Some e, s)" "open_contents E (dz_path (g_dtrz s)) s = (Some archive, s')"
    "fread_exact (unat (de_size e)) (drop (unat (de_offset e)) archive) = Some (content, rest)"
    "\<And>n. fe_malloc E n" "fe_fmemopen E" "\<not> fe_track E"
  shows "\<exists>h st'. open_dtrz_entry E name st = Ok (Some h, st') \<and> s3eFileClose (Some h) st' = Fault"
proof -
  have "length content = unat (de_size e)" using assms(3) by (auto simp: fread_exact_def split: if_splits)
  from hide_ok[OF this, of "Some (de_name e)"] obtain d where
    "codboz_hide_virtual_stick_artwork (Some (de_name e)) content (unat (de_size e)) = Ok d" by blast
  with assms show ?thesis
    by (simp add: open_dtrz_entry_def track_memory_file_def new_handle_def close_handle_def s3eFileClose_def)
qed

end
