(* ===== verification/Egl.thy ===== *)
theory Egl
  imports Display
begin

unbundle bit_operations_syntax

text \<open>
  The EGL layer of \<open>src/s3e_egl.c\<close>. When a desktop owns the display or the native EGL fails, the layer
  makes its one display, config, surface and context out of an SDL window and an OpenGL context;
  otherwise it hands calls on to the native library, which is a parameter. The SDL objects that are
  alive are part of the state, and a call of SDL on an object that is not alive, or through a function
  pointer that has not been loaded, sets \<open>eg_misuse\<close>. Pointers are \<open>u32\<close> with 0 for \<open>NULL\<close>.
  Messages to \<open>stderr\<close> are left out.
\<close>

section \<open>Constants\<close>

definition EGL_SUCCESS :: int where "EGL_SUCCESS = 0x3000"
definition EGL_NOT_INITIALIZED :: int where "EGL_NOT_INITIALIZED = 0x3001"
definition EGL_BAD_ATTRIBUTE :: int where "EGL_BAD_ATTRIBUTE = 0x3004"
definition EGL_BAD_CONFIG :: int where "EGL_BAD_CONFIG = 0x3005"
definition EGL_BAD_CONTEXT :: int where "EGL_BAD_CONTEXT = 0x3006"
definition EGL_BAD_MATCH :: int where "EGL_BAD_MATCH = 0x3009"
definition EGL_BAD_NATIVE_WINDOW :: int where "EGL_BAD_NATIVE_WINDOW = 0x300b"
definition EGL_BAD_PARAMETER :: int where "EGL_BAD_PARAMETER = 0x300c"
definition EGL_BAD_SURFACE :: int where "EGL_BAD_SURFACE = 0x300d"
definition EGL_BUFFER_SIZE :: int where "EGL_BUFFER_SIZE = 0x3020"
definition EGL_ALPHA_SIZE :: int where "EGL_ALPHA_SIZE = 0x3021"
definition EGL_BLUE_SIZE :: int where "EGL_BLUE_SIZE = 0x3022"
definition EGL_GREEN_SIZE :: int where "EGL_GREEN_SIZE = 0x3023"
definition EGL_RED_SIZE :: int where "EGL_RED_SIZE = 0x3024"
definition EGL_DEPTH_SIZE :: int where "EGL_DEPTH_SIZE = 0x3025"
definition EGL_STENCIL_SIZE :: int where "EGL_STENCIL_SIZE = 0x3026"
definition EGL_CONFIG_ID :: int where "EGL_CONFIG_ID = 0x3028"
definition EGL_SURFACE_TYPE :: int where "EGL_SURFACE_TYPE = 0x3033"
definition EGL_NONE :: int where "EGL_NONE = 0x3038"
definition EGL_RENDERABLE_TYPE :: int where "EGL_RENDERABLE_TYPE = 0x3040"
definition EGL_OPENGL_ES_BIT :: int where "EGL_OPENGL_ES_BIT = 0x0001"
definition EGL_OPENGL_ES2_BIT :: int where "EGL_OPENGL_ES2_BIT = 0x0004"
definition EGL_WINDOW_BIT :: int where "EGL_WINDOW_BIT = 0x0004"
definition EGL_VENDOR :: int where "EGL_VENDOR = 0x3053"
definition EGL_VERSION :: int where "EGL_VERSION = 0x3054"
definition EGL_EXTENSIONS :: int where "EGL_EXTENSIONS = 0x3055"
definition EGL_HEIGHT :: int where "EGL_HEIGHT = 0x3056"
definition EGL_WIDTH :: int where "EGL_WIDTH = 0x3057"
definition EGL_CLIENT_APIS :: int where "EGL_CLIENT_APIS = 0x308d"
definition EGL_CONTEXT_CLIENT_TYPE :: int where "EGL_CONTEXT_CLIENT_TYPE = 0x3097"
definition EGL_CONTEXT_CLIENT_VERSION :: int where "EGL_CONTEXT_CLIENT_VERSION = 0x3098"
definition EGL_OPENGL_ES_API :: int where "EGL_OPENGL_ES_API = 0x30a0"
definition SDL_INIT_VIDEO :: int where "SDL_INIT_VIDEO = 0x00000020"
definition SDL_WINDOW_FULLSCREEN :: int where "SDL_WINDOW_FULLSCREEN = 0x00000001"
definition SDL_WINDOW_OPENGL :: int where "SDL_WINDOW_OPENGL = 0x00000002"
definition SDL_WINDOW_SHOWN :: int where "SDL_WINDOW_SHOWN = 0x00000004"
definition SDL_GL_RED_SIZE :: int where "SDL_GL_RED_SIZE = 0"
definition SDL_GL_GREEN_SIZE :: int where "SDL_GL_GREEN_SIZE = 1"
definition SDL_GL_BLUE_SIZE :: int where "SDL_GL_BLUE_SIZE = 2"
definition SDL_GL_ALPHA_SIZE :: int where "SDL_GL_ALPHA_SIZE = 3"
definition SDL_GL_DOUBLEBUFFER :: int where "SDL_GL_DOUBLEBUFFER = 5"
definition SDL_GL_DEPTH_SIZE :: int where "SDL_GL_DEPTH_SIZE = 6"
definition SDL_GL_STENCIL_SIZE :: int where "SDL_GL_STENCIL_SIZE = 7"
definition SDL_GL_CONTEXT_MAJOR_VERSION :: int where "SDL_GL_CONTEXT_MAJOR_VERSION = 17"
definition SDL_GL_CONTEXT_MINOR_VERSION :: int where "SDL_GL_CONTEXT_MINOR_VERSION = 18"
definition SDL_GL_CONTEXT_PROFILE_MASK :: int where "SDL_GL_CONTEXT_PROFILE_MASK = 21"
definition SDL_GL_CONTEXT_PROFILE_ES :: int where "SDL_GL_CONTEXT_PROFILE_ES = 0x0004"

section \<open>State\<close>

text \<open>Of the loaded functions of SDL only matters whether there are any: \<open>es_api\<close>.\<close>

record sdl_egl_state =
  es_api :: bool
  es_has_driver_name :: bool
  es_library :: bool
  es_window :: u32
  es_context :: u32
  es_display :: u32
  es_error :: int
  es_initialized :: bool
  es_active :: bool
  es_current :: bool
  es_surface_valid :: bool
  es_context_valid :: bool
  es_context_destroy_pending :: bool
  es_context_major :: int
  es_red_size :: int
  es_green_size :: int
  es_blue_size :: int
  es_alpha_size :: int
  es_depth_size :: int
  es_stencil_size :: int
  es_renderable_type :: int

definition sdl_initial :: sdl_egl_state where
  "sdl_initial = \<lparr>es_api = False, es_has_driver_name = False, es_library = False, es_window = 0, es_context = 0,
     es_display = 0, es_error = EGL_SUCCESS, es_initialized = False, es_active = False, es_current = False,
     es_surface_valid = False, es_context_valid = False, es_context_destroy_pending = False, es_context_major = 2,
     es_red_size = 8, es_green_size = 8, es_blue_size = 8, es_alpha_size = 8, es_depth_size = 16, es_stencil_size = 0,
     es_renderable_type = EGL_OPENGL_ES_BIT OR EGL_OPENGL_ES2_BIT\<rparr>"

text \<open>
  The environment variables, the libraries that are open, and the objects of SDL that are alive; the
  attributes set since the last window or context was made are \<open>eg_attributes\<close>.
\<close>

record egl_state =
  g_sdl :: sdl_egl_state
  g_egl :: bool
  g_gles1 :: bool
  g_gles2 :: bool
  eg_vars :: "string \<Rightarrow> cstring option"
  eg_windows :: "u32 set"
  eg_contexts :: "u32 set"
  eg_video :: bool
  eg_attributes :: "(int \<times> int) list"
  eg_swaps :: nat
  eg_misuse :: bool

datatype egl_arg = Ptr u32 | Num int | Attributes "int list option"

text \<open>
  The native functions by name give their result and what they write; \<open>ee_dlopen\<close> tells whether a
  library can be opened, \<open>ee_sdl_symbol\<close> whether SDL has a function, \<open>ee_sdl_file\<close> is the file SDL was loaded
  from (\<open>dladdr\<close>).
\<close>

record egl_env =
  ee_native :: "string \<Rightarrow> (egl_arg list \<Rightarrow> u32 \<times> int list) option"
  ee_display_token :: u32
  ee_config_token :: u32
  ee_sdl_library :: "string \<Rightarrow> bool"
  ee_sdl_symbol :: "string \<Rightarrow> bool"
  ee_sdl_file :: "cstring option"
  ee_readable :: "cstring \<Rightarrow> bool"
  ee_dlopen :: "cstring \<Rightarrow> bool"
  ee_init_subsystem :: int
  ee_create_window :: u32
  ee_create_context :: u32
  ee_make_current :: "u32 \<Rightarrow> u32 \<Rightarrow> int"
  ee_gl_proc :: "string \<Rightarrow> u32"
  ee_egl_proc :: "string \<Rightarrow> u32"

definition put_sdl :: "(sdl_egl_state \<Rightarrow> sdl_egl_state) \<Rightarrow> egl_state \<Rightarrow> egl_state" where
  "put_sdl f st = st\<lparr>g_sdl := f (g_sdl st)\<rparr>"

definition set_error :: "int \<Rightarrow> egl_state \<Rightarrow> egl_state" where
  "set_error e = put_sdl (\<lambda>s. s\<lparr>es_error := e\<rparr>)"

definition fallback_display :: "egl_env \<Rightarrow> u32" where
  "fallback_display E = ee_display_token E"

definition fallback_config :: "egl_env \<Rightarrow> u32" where
  "fallback_config E = ee_config_token E"

text \<open>\<open>lookup_egl\<close> and the call, when there is such a function.\<close>

definition native :: "egl_env \<Rightarrow> egl_state \<Rightarrow> string \<Rightarrow> egl_arg list \<Rightarrow> u32 \<times> int list" where
  "native E st name args =
     (if \<not> g_egl st then (0, []) else case ee_native E name of None \<Rightarrow> (0, []) | Some f \<Rightarrow> f args)"

section \<open>SDL\<close>

text \<open>A call through a pointer of the API.\<close>

definition api :: "egl_state \<Rightarrow> egl_state" where
  "api st = (if es_api (g_sdl st) then st else st\<lparr>eg_misuse := True\<rparr>)"

definition sdl_set_attribute :: "int \<Rightarrow> int \<Rightarrow> egl_state \<Rightarrow> egl_state" where
  "sdl_set_attribute a v st = (let st = api st in st\<lparr>eg_attributes := (a, v) # eg_attributes st\<rparr>)"

definition sdl_create_window :: "egl_env \<Rightarrow> egl_state \<Rightarrow> u32 \<times> egl_state" where
  "sdl_create_window E st =
     (let st = api st; w = ee_create_window E
      in (w, if w = 0 then st else st\<lparr>eg_windows := insert w (eg_windows st)\<rparr>))"

definition sdl_create_context :: "egl_env \<Rightarrow> u32 \<Rightarrow> egl_state \<Rightarrow> u32 \<times> egl_state" where
  "sdl_create_context E w st =
     (let st = api st; st = (if w \<in> eg_windows st then st else st\<lparr>eg_misuse := True\<rparr>); c = ee_create_context E
      in (c, if c = 0 then st else st\<lparr>eg_contexts := insert c (eg_contexts st), eg_attributes := []\<rparr>))"

definition sdl_make_current :: "egl_env \<Rightarrow> u32 \<Rightarrow> u32 \<Rightarrow> egl_state \<Rightarrow> int \<times> egl_state" where
  "sdl_make_current E w c st =
     (let st = api st
      in (ee_make_current E w c,
          if w \<in> eg_windows st \<and> (c = 0 \<or> c \<in> eg_contexts st) then st else st\<lparr>eg_misuse := True\<rparr>))"

text \<open>SDL ignores a \<open>NULL\<close> context.\<close>

definition sdl_delete_context :: "u32 \<Rightarrow> egl_state \<Rightarrow> egl_state" where
  "sdl_delete_context c st =
     (let st = api st
      in if c = 0 then st
         else if c \<in> eg_contexts st then st\<lparr>eg_contexts := eg_contexts st - {c}\<rparr> else st\<lparr>eg_misuse := True\<rparr>)"

definition sdl_destroy_window :: "u32 \<Rightarrow> egl_state \<Rightarrow> egl_state" where
  "sdl_destroy_window w st =
     (let st = api st
      in if w \<in> eg_windows st then st\<lparr>eg_windows := eg_windows st - {w}\<rparr> else st\<lparr>eg_misuse := True\<rparr>)"

definition sdl_swap_window :: "u32 \<Rightarrow> egl_state \<Rightarrow> egl_state" where
  "sdl_swap_window w st =
     (let st = api st in if w \<in> eg_windows st then st\<lparr>eg_swaps := eg_swaps st + 1\<rparr> else st\<lparr>eg_misuse := True\<rparr>)"

section \<open>Libraries\<close>

text \<open>The names beside the file of SDL: the first that can be read.\<close>

definition sdl_directory :: "cstring \<Rightarrow> cstring" where
  "sdl_directory f = rev (tl (dropWhile (\<lambda>c. c \<noteq> slash) (rev f)))"

definition PATH_MAX :: nat where "PATH_MAX = 4096"

definition find_sdl_sibling_library :: "egl_env \<Rightarrow> string list \<Rightarrow> cstring option" where
  "find_sdl_sibling_library E names =
     (if \<not> ee_sdl_symbol E ''SDL_InitSubSystem'' then None
      else case ee_sdl_file E of
        None \<Rightarrow> None
      | Some f \<Rightarrow>
        if slash \<notin> set f then None
        else List.find (\<lambda>path. length path < PATH_MAX \<and> ee_readable E path)
               (map (\<lambda>n. sdl_directory f @ [slash] @ bytes_of n) names))"

definition set_sdl_sibling_library :: "egl_env \<Rightarrow> string \<Rightarrow> string list \<Rightarrow> egl_state \<Rightarrow> egl_state" where
  "set_sdl_sibling_library E variable names st =
     (case eg_vars st variable of
        Some (c # cs) \<Rightarrow> st
      | _ \<Rightarrow> (case find_sdl_sibling_library E names of
                None \<Rightarrow> st | Some path \<Rightarrow> st\<lparr>eg_vars := (eg_vars st)(variable \<mapsto> path)\<rparr>))"

definition configure_sdl_graphics_libraries :: "egl_env \<Rightarrow> egl_state \<Rightarrow> egl_state" where
  "configure_sdl_graphics_libraries E st =
     set_sdl_sibling_library E ''SDL_VIDEO_GL_DRIVER'' [''libGLESv2.so.2'', ''libGLESv2.so'']
       (set_sdl_sibling_library E ''SDL_VIDEO_EGL_DRIVER'' [''libEGL.so.1'', ''libEGL.so''] st)"

definition required_symbols :: "string list" where
  "required_symbols = [''SDL_InitSubSystem'', ''SDL_QuitSubSystem'', ''SDL_GL_SetAttribute'', ''SDL_GL_GetProcAddress'',
     ''SDL_CreateWindow'', ''SDL_GL_CreateContext'', ''SDL_GL_MakeCurrent'', ''SDL_GL_SwapWindow'',
     ''SDL_GL_DeleteContext'', ''SDL_DestroyWindow'', ''SDL_GetError'']"

definition load_sdl_video :: "egl_env \<Rightarrow> egl_state \<Rightarrow> bool \<times> egl_state" where
  "load_sdl_video E st =
     (if es_library (g_sdl st) then (True, st)
      else if List.find (ee_sdl_library E) [''libSDL2-2.0.so.0'', ''libSDL2.so''] = None then (False, st)
      else if list_all (ee_sdl_symbol E) required_symbols
        then (True, put_sdl (\<lambda>s. s\<lparr>es_library := True, es_api := True,
                     es_has_driver_name := ee_sdl_symbol E ''SDL_GetCurrentVideoDriver''\<rparr>) st)
        else (False, put_sdl (\<lambda>s. s\<lparr>es_library := False, es_api := False, es_has_driver_name := False\<rparr>) st))"

definition try_graphics_library :: "egl_env \<Rightarrow> cstring \<Rightarrow> bool" where
  "try_graphics_library E path = ee_dlopen E path"

definition open_graphics_library :: "egl_env \<Rightarrow> cstring option \<Rightarrow> string list \<Rightarrow> string list \<Rightarrow> bool" where
  "open_graphics_library E configured siblings fallbacks =
     ((case configured of Some (c # cs) \<Rightarrow> try_graphics_library E (c # cs) | _ \<Rightarrow> False) \<or>
      (case find_sdl_sibling_library E siblings of Some path \<Rightarrow> try_graphics_library E path | None \<Rightarrow> False) \<or>
      list_ex (\<lambda>n. try_graphics_library E (bytes_of n)) fallbacks)"

definition egl_backend_shutdown :: "egl_state \<Rightarrow> egl_state" where
  "egl_backend_shutdown st =
     (let st = (if es_context (g_sdl st) \<noteq> 0 \<and> es_api (g_sdl st) then sdl_delete_context (es_context (g_sdl st)) st else st);
          st = (if es_window (g_sdl st) \<noteq> 0 \<and> es_api (g_sdl st) then sdl_destroy_window (es_window (g_sdl st)) st else st);
          st = (if es_initialized (g_sdl st) \<and> es_api (g_sdl st) then st\<lparr>eg_video := False\<rparr> else st)
      in put_sdl (\<lambda>_. sdl_initial) st)"

definition egl_backend_load_libraries :: "egl_env \<Rightarrow> egl_state \<Rightarrow> bool \<times> egl_state" where
  "egl_backend_load_libraries E st =
     (let (ok, st) = load_sdl_video E st in
      if \<not> ok then (False, st)
      else let st = configure_sdl_graphics_libraries E st;
               egl_names = [''libEGL.so.1'', ''libEGL.so'', ''libmali.so''];
               gles1_names = [''libGLESv1_CM.so.1'', ''libGLESv1_CM.so'', ''libmali.so''];
               gles2_names = [''libGLESv2.so.2'', ''libGLESv2.so'', ''libmali.so''];
               st = st\<lparr>g_egl := open_graphics_library E (eg_vars st ''SDL_VIDEO_EGL_DRIVER'') egl_names egl_names,
                       g_gles1 := open_graphics_library E None gles1_names gles1_names,
                       g_gles2 := open_graphics_library E (eg_vars st ''SDL_VIDEO_GL_DRIVER'') gles2_names gles2_names\<rparr>
        in if \<not> g_egl st \<or> \<not> g_gles1 st \<or> \<not> g_gles2 st
           then (False, egl_backend_shutdown (st\<lparr>g_egl := False, g_gles1 := False, g_gles2 := False\<rparr>))
           else (True, st))"

section \<open>Displays\<close>

definition initialize_sdl :: "egl_env \<Rightarrow> u32 \<Rightarrow> egl_state \<Rightarrow> bool \<times> egl_state" where
  "initialize_sdl E display st =
     (if es_active (g_sdl st) then (True, st)
      else let (ok, st) = load_sdl_video E st in
        if \<not> ok then (False, set_error EGL_NOT_INITIALIZED st)
        else let st = configure_sdl_graphics_libraries E st;
                 st = st\<lparr>eg_vars := (eg_vars st)(''SDL_NO_SIGNAL_HANDLERS'' \<mapsto> bytes_of ''1'')\<rparr>;
                 st = api st
          in if ee_init_subsystem E \<noteq> 0 then (False, set_error EGL_NOT_INITIALIZED st)
             else (True, put_sdl (\<lambda>s. s\<lparr>es_initialized := True,
                      es_display := (if display \<noteq> 0 then display else fallback_display E), es_active := True\<rparr>)
                    (st\<lparr>eg_video := True\<rparr>)))"

definition uses_sdl :: "egl_env \<Rightarrow> egl_state \<Rightarrow> u32 \<Rightarrow> bool" where
  "uses_sdl E st display \<longleftrightarrow>
     es_active (g_sdl st) \<and> (display = 0 \<or> display = es_display (g_sdl st) \<or> display = fallback_display E)"

definition is_set :: "cstring option \<Rightarrow> bool" where
  "is_set v \<longleftrightarrow> v \<noteq> None \<and> v \<noteq> Some []"

definition sdl_owns_display :: "egl_state \<Rightarrow> bool" where
  "sdl_owns_display st \<longleftrightarrow> is_set (eg_vars st ''WAYLAND_DISPLAY'') \<or> is_set (eg_vars st ''DISPLAY'') \<or>
     eg_vars st ''SDL_VIDEODRIVER'' = Some (bytes_of ''kmsdrm'')"

definition apply_window_attributes :: "egl_state \<Rightarrow> egl_state" where
  "apply_window_attributes st =
     fold (\<lambda>(a, v). sdl_set_attribute a v)
       [(SDL_GL_CONTEXT_PROFILE_MASK, SDL_GL_CONTEXT_PROFILE_ES),
        (SDL_GL_CONTEXT_MAJOR_VERSION, es_context_major (g_sdl st)), (SDL_GL_CONTEXT_MINOR_VERSION, 0),
        (SDL_GL_RED_SIZE, es_red_size (g_sdl st)), (SDL_GL_GREEN_SIZE, es_green_size (g_sdl st)),
        (SDL_GL_BLUE_SIZE, es_blue_size (g_sdl st)), (SDL_GL_ALPHA_SIZE, es_alpha_size (g_sdl st)),
        (SDL_GL_DEPTH_SIZE, es_depth_size (g_sdl st)), (SDL_GL_STENCIL_SIZE, es_stencil_size (g_sdl st)),
        (SDL_GL_DOUBLEBUFFER, 1)] st"

definition ensure_window :: "egl_env \<Rightarrow> egl_state \<Rightarrow> bool \<times> egl_state" where
  "ensure_window E st =
     (if es_window (g_sdl st) \<noteq> 0 then (True, st)
      else let (w, st) = sdl_create_window E (apply_window_attributes st);
               st = put_sdl (\<lambda>s. s\<lparr>es_window := w\<rparr>) st
        in if w = 0 then (False, set_error EGL_BAD_NATIVE_WINDOW st) else (True, st))"

definition ensure_context :: "egl_env \<Rightarrow> egl_state \<Rightarrow> bool \<times> egl_state" where
  "ensure_context E st =
     (if es_context (g_sdl st) \<noteq> 0 then (True, st)
      else let (ok, st) = ensure_window E st in
        if \<not> ok then (False, st)
        else let (c, st) = sdl_create_context E (es_window (g_sdl st)) (apply_window_attributes st);
                 st = put_sdl (\<lambda>s. s\<lparr>es_context := c\<rparr>) st
          in if c = 0 then (False, set_error EGL_BAD_CONTEXT st) else (True, st))"

definition destroy_pending_context :: "egl_state \<Rightarrow> egl_state" where
  "destroy_pending_context st =
     (if \<not> es_current (g_sdl st) \<and> es_context_destroy_pending (g_sdl st) \<and> es_context (g_sdl st) \<noteq> 0
      then put_sdl (\<lambda>s. s\<lparr>es_context := 0, es_context_destroy_pending := False\<rparr>)
             (sdl_delete_context (es_context (g_sdl st)) st)
      else st)"

end
