(* ===== verification/Egl_Calls.thy ===== *)
theory Egl_Calls
  imports Egl
begin

unbundle bit_operations_syntax

text \<open>
  The EGL entry points of \<open>src/s3e_egl.c\<close>. A call that writes through a pointer of the caller says in
  its result what it writes; whether the pointer is \<open>NULL\<close> is an argument.
\<close>

section \<open>Displays and configs\<close>

definition host_eglGetDisplay :: "egl_env \<Rightarrow> u32 \<Rightarrow> egl_state \<Rightarrow> u32" where
  "host_eglGetDisplay E native_display st =
     (if sdl_owns_display st then fallback_display E
      else let display = fst (native E st ''eglGetDisplay'' [Ptr native_display])
        in if display \<noteq> 0 then display else fallback_display E)"

text \<open>The version that is written, where the caller asks for it.\<close>

definition host_eglInitialize :: "egl_env \<Rightarrow> u32 \<Rightarrow> egl_state \<Rightarrow> u32 \<times> int list \<times> egl_state" where
  "host_eglInitialize E display st =
     (let native_display = (display \<noteq> fallback_display E);
          (r, out) = (if native_display then native E st ''eglInitialize'' [Ptr display] else (0, []))
      in if r \<noteq> 0 then (1, out, st)
         else let (ok, st) = initialize_sdl E display st
           in if \<not> ok then (0, out, st) else (1, [1, 4], st))"

definition host_eglGetConfigs :: "egl_env \<Rightarrow> u32 \<Rightarrow> bool \<Rightarrow> int \<Rightarrow> bool \<Rightarrow> egl_state \<Rightarrow> u32 \<times> int list \<times> u32 list \<times> egl_state" where
  "host_eglGetConfigs E display has_configs config_size has_count st =
     (if \<not> uses_sdl E st display then
        (let (r, out) = native E st ''eglGetConfigs'' [Ptr display, Num config_size] in (r, out, [], st))
      else if \<not> has_count \<or> config_size < 0 then (0, [], [], set_error EGL_BAD_PARAMETER st)
      else (1, [1], if has_configs \<and> config_size > 0 then [fallback_config E] else [], st))"

definition config_attribute :: "sdl_egl_state \<Rightarrow> int \<Rightarrow> int option" where
  "config_attribute s attribute =
     (if attribute = EGL_RED_SIZE then Some (es_red_size s)
      else if attribute = EGL_GREEN_SIZE then Some (es_green_size s)
      else if attribute = EGL_BLUE_SIZE then Some (es_blue_size s)
      else if attribute = EGL_ALPHA_SIZE then Some (es_alpha_size s)
      else if attribute = EGL_BUFFER_SIZE then Some (es_red_size s + es_green_size s + es_blue_size s + es_alpha_size s)
      else if attribute = EGL_DEPTH_SIZE then Some (es_depth_size s)
      else if attribute = EGL_STENCIL_SIZE then Some (es_stencil_size s)
      else if attribute = EGL_CONFIG_ID then Some 1
      else if attribute = EGL_SURFACE_TYPE then Some EGL_WINDOW_BIT
      else if attribute = EGL_RENDERABLE_TYPE then Some (es_renderable_type s)
      else None)"

definition host_eglGetConfigAttrib :: "egl_env \<Rightarrow> u32 \<Rightarrow> u32 \<Rightarrow> int \<Rightarrow> bool \<Rightarrow> egl_state \<Rightarrow> u32 \<times> int list \<times> egl_state" where
  "host_eglGetConfigAttrib E display config attribute has_value st =
     (if \<not> uses_sdl E st display then
        (let (r, out) = native E st ''eglGetConfigAttrib'' [Ptr display, Ptr config, Num attribute] in (r, out, st))
      else if config \<noteq> fallback_config E \<or> \<not> has_value
        then (0, [], set_error (if config \<noteq> fallback_config E then EGL_BAD_CONFIG else EGL_BAD_PARAMETER) st)
      else case config_attribute (g_sdl st) attribute of
        None \<Rightarrow> (0, [], set_error EGL_BAD_ATTRIBUTE st) | Some v \<Rightarrow> (1, [v], st))"

section \<open>Surfaces and contexts\<close>

definition host_eglCreateWindowSurface :: "egl_env \<Rightarrow> u32 \<Rightarrow> u32 \<Rightarrow> u32 \<Rightarrow> int list option \<Rightarrow> egl_state \<Rightarrow> u32 \<times> egl_state" where
  "host_eglCreateWindowSurface E display config native_window attributes st =
     (if \<not> uses_sdl E st display then
        (fst (native E st ''eglCreateWindowSurface'' [Ptr display, Ptr config, Ptr native_window, Attributes attributes]), st)
      else if config \<noteq> fallback_config E then (0, set_error EGL_BAD_CONFIG st)
      else let (ok, st) = ensure_window E st
        in if \<not> ok then (0, st) else (es_window (g_sdl st), put_sdl (\<lambda>s. s\<lparr>es_surface_valid := True\<rparr>) st))"

text \<open>Up to 16 pairs of the caller's list; its end must come before the memory's.\<close>

fun context_attributes :: "nat \<Rightarrow> int list \<Rightarrow> int \<Rightarrow> int mem" where
  "context_attributes 0 attributes major = Ok major"
| "context_attributes (Suc n) [] major = Fault"
| "context_attributes (Suc n) (k # attributes) major =
     (if k = EGL_NONE then Ok major
      else case attributes of
        [] \<Rightarrow> if k = EGL_CONTEXT_CLIENT_VERSION \<or> n \<noteq> 0 then Fault else Ok major
      | v # attributes \<Rightarrow> context_attributes n attributes (if k = EGL_CONTEXT_CLIENT_VERSION then v else major))"

definition host_eglCreateContext :: "egl_env \<Rightarrow> u32 \<Rightarrow> u32 \<Rightarrow> u32 \<Rightarrow> int list option \<Rightarrow> egl_state \<Rightarrow> (u32 \<times> egl_state) mem" where
  "host_eglCreateContext E display config share attributes st =
     (if \<not> uses_sdl E st display then
        Ok (fst (native E st ''eglCreateContext'' [Ptr display, Ptr config, Ptr share, Attributes attributes]), st)
      else if config \<noteq> fallback_config E \<or> share \<noteq> 0
        then Ok (0, set_error (if config \<noteq> fallback_config E then EGL_BAD_CONFIG else EGL_BAD_MATCH) st)
      else rbind (case attributes of
                    None \<Rightarrow> Ok (es_context_major (g_sdl st))
                  | Some l \<Rightarrow> context_attributes 16 l (es_context_major (g_sdl st))) (\<lambda>major.
        let (ok, st) = ensure_context E (put_sdl (\<lambda>s. s\<lparr>es_context_major := major\<rparr>) st)
        in if \<not> ok then Ok (0, st)
           else Ok (es_context (g_sdl st), put_sdl (\<lambda>s. s\<lparr>es_context_valid := True\<rparr>) st)))"

definition host_eglMakeCurrent :: "egl_env \<Rightarrow> u32 \<Rightarrow> u32 \<Rightarrow> u32 \<Rightarrow> u32 \<Rightarrow> egl_state \<Rightarrow> u32 \<times> egl_state" where
  "host_eglMakeCurrent E display draw read context st =
     (if \<not> uses_sdl E st display then
        (fst (native E st ''eglMakeCurrent'' [Ptr display, Ptr draw, Ptr read, Ptr context]), st)
      else if context = 0 then
        (if draw \<noteq> 0 \<or> read \<noteq> 0 then (0, set_error EGL_BAD_MATCH st)
         else let (r, st) = (if es_window (g_sdl st) \<noteq> 0 then sdl_make_current E (es_window (g_sdl st)) 0 st else (0, st))
           in if r \<noteq> 0 then (0, set_error EGL_BAD_CONTEXT st)
              else (1, destroy_pending_context (put_sdl (\<lambda>s. s\<lparr>es_current := False\<rparr>) st)))
      else if context \<noteq> es_context (g_sdl st) \<or> \<not> es_context_valid (g_sdl st) then (0, set_error EGL_BAD_CONTEXT st)
      else if draw \<noteq> es_window (g_sdl st) \<or> read \<noteq> es_window (g_sdl st) \<or> \<not> es_surface_valid (g_sdl st)
        then (0, set_error EGL_BAD_SURFACE st)
      else let (r, st) = sdl_make_current E (es_window (g_sdl st)) (es_context (g_sdl st)) st
        in if r \<noteq> 0 then (0, set_error EGL_BAD_CONTEXT st)
           else (1, put_sdl (\<lambda>s. s\<lparr>es_current := True\<rparr>) st))"

definition host_eglQuerySurface ::
  "egl_env \<Rightarrow> host_display \<Rightarrow> u32 \<Rightarrow> u32 \<Rightarrow> int \<Rightarrow> bool \<Rightarrow> egl_state \<Rightarrow> u32 \<times> int list \<times> egl_state" where
  "host_eglQuerySurface E d display surface attribute has_value st =
     (if \<not> uses_sdl E st display then
        (let (r, out) = native E st ''eglQuerySurface'' [Ptr display, Ptr surface, Num attribute]
         in if r \<noteq> 0 \<and> has_value \<and> attribute = EGL_WIDTH then (r, [uint (sg_width (g_surface d))], st)
            else if r \<noteq> 0 \<and> has_value \<and> attribute = EGL_HEIGHT then (r, [uint (sg_height (g_surface d))], st)
            else (r, out, st))
      else if surface \<noteq> es_window (g_sdl st) \<or> \<not> es_surface_valid (g_sdl st) \<or> \<not> has_value
        then (0, [], set_error (if surface \<noteq> es_window (g_sdl st) \<or> \<not> es_surface_valid (g_sdl st)
                                then EGL_BAD_SURFACE else EGL_BAD_PARAMETER) st)
      else if attribute = EGL_WIDTH then (1, [uint (sg_width (g_surface d))], st)
      else if attribute = EGL_HEIGHT then (1, [uint (sg_height (g_surface d))], st)
      else (0, [], set_error EGL_BAD_ATTRIBUTE st))"

definition host_eglQueryContext :: "egl_env \<Rightarrow> u32 \<Rightarrow> u32 \<Rightarrow> int \<Rightarrow> bool \<Rightarrow> egl_state \<Rightarrow> u32 \<times> int list \<times> egl_state" where
  "host_eglQueryContext E display context attribute has_value st =
     (if \<not> uses_sdl E st display then
        (let (r, out) = native E st ''eglQueryContext'' [Ptr display, Ptr context, Num attribute] in (r, out, st))
      else if context \<noteq> es_context (g_sdl st) \<or> \<not> es_context_valid (g_sdl st) \<or> \<not> has_value
        then (0, [], set_error (if context \<noteq> es_context (g_sdl st) \<or> \<not> es_context_valid (g_sdl st)
                                then EGL_BAD_CONTEXT else EGL_BAD_PARAMETER) st)
      else if attribute = EGL_CONTEXT_CLIENT_TYPE then (1, [EGL_OPENGL_ES_API], st)
      else if attribute = EGL_CONTEXT_CLIENT_VERSION then (1, [es_context_major (g_sdl st)], st)
      else if attribute = EGL_CONFIG_ID then (1, [1], st)
      else (0, [], set_error EGL_BAD_ATTRIBUTE st))"

section \<open>The current objects\<close>

definition host_eglGetCurrentDisplay :: "egl_env \<Rightarrow> egl_state \<Rightarrow> u32" where
  "host_eglGetCurrentDisplay E st =
     (if es_active (g_sdl st) then (if es_current (g_sdl st) then es_display (g_sdl st) else 0)
      else fst (native E st ''eglGetCurrentDisplay'' []))"

definition host_eglGetCurrentContext :: "egl_env \<Rightarrow> egl_state \<Rightarrow> u32" where
  "host_eglGetCurrentContext E st =
     (if es_active (g_sdl st) then (if es_current (g_sdl st) then es_context (g_sdl st) else 0)
      else fst (native E st ''eglGetCurrentContext'' []))"

definition host_eglGetCurrentSurface :: "egl_env \<Rightarrow> int \<Rightarrow> egl_state \<Rightarrow> u32" where
  "host_eglGetCurrentSurface E readdraw st =
     (if es_active (g_sdl st) then (if es_current (g_sdl st) then es_window (g_sdl st) else 0)
      else fst (native E st ''eglGetCurrentSurface'' [Num readdraw]))"

text \<open>The text, and the state; a native text is its address.\<close>

definition host_eglQueryString :: "egl_env \<Rightarrow> u32 \<Rightarrow> int \<Rightarrow> egl_state \<Rightarrow> (u32 + string option) \<times> egl_state" where
  "host_eglQueryString E display name st =
     (if \<not> uses_sdl E st display then (Inl (fst (native E st ''eglQueryString'' [Ptr display, Num name])), st)
      else if name = EGL_VENDOR then (Inr (Some ''CODBOZ SDL''), st)
      else if name = EGL_VERSION then (Inr (Some ''1.4''), st)
      else if name = EGL_CLIENT_APIS then (Inr (Some ''OpenGL_ES''), st)
      else if name = EGL_EXTENSIONS then (Inr (Some []), st)
      else (Inr None, set_error EGL_BAD_PARAMETER st))"

definition host_eglBindAPI :: "egl_env \<Rightarrow> int \<Rightarrow> egl_state \<Rightarrow> u32 \<times> egl_state" where
  "host_eglBindAPI E gl_api st =
     (if \<not> es_active (g_sdl st) then (fst (native E st ''eglBindAPI'' [Num gl_api]), st)
      else if gl_api \<noteq> EGL_OPENGL_ES_API then (0, set_error EGL_BAD_PARAMETER st)
      else (1, st))"

section \<open>Destruction\<close>

definition host_eglDestroyContext :: "egl_env \<Rightarrow> u32 \<Rightarrow> u32 \<Rightarrow> egl_state \<Rightarrow> u32 \<times> egl_state" where
  "host_eglDestroyContext E display context st =
     (if \<not> uses_sdl E st display then (fst (native E st ''eglDestroyContext'' [Ptr display, Ptr context]), st)
      else if context \<noteq> es_context (g_sdl st) \<or> \<not> es_context_valid (g_sdl st) then (0, set_error EGL_BAD_CONTEXT st)
      else let st = put_sdl (\<lambda>s. s\<lparr>es_context_valid := False\<rparr>) st
        in if es_current (g_sdl st) then (1, put_sdl (\<lambda>s. s\<lparr>es_context_destroy_pending := True\<rparr>) st)
           else (1, put_sdl (\<lambda>s. s\<lparr>es_context := 0, es_context_destroy_pending := False\<rparr>)
                      (sdl_delete_context (es_context (g_sdl st)) st)))"

definition host_eglDestroySurface :: "egl_env \<Rightarrow> u32 \<Rightarrow> u32 \<Rightarrow> egl_state \<Rightarrow> u32 \<times> egl_state" where
  "host_eglDestroySurface E display surface st =
     (if \<not> uses_sdl E st display then (fst (native E st ''eglDestroySurface'' [Ptr display, Ptr surface]), st)
      else if surface \<noteq> es_window (g_sdl st) \<or> \<not> es_surface_valid (g_sdl st) then (0, set_error EGL_BAD_SURFACE st)
      else (1, put_sdl (\<lambda>s. s\<lparr>es_surface_valid := False\<rparr>) st))"

definition host_eglTerminate :: "egl_env \<Rightarrow> u32 \<Rightarrow> egl_state \<Rightarrow> u32 \<times> egl_state" where
  "host_eglTerminate E display st =
     (if \<not> uses_sdl E st display then (fst (native E st ''eglTerminate'' [Ptr display]), st)
      else (1, egl_backend_shutdown st))"

definition host_eglCreatePbufferSurface :: "egl_env \<Rightarrow> u32 \<Rightarrow> u32 \<Rightarrow> int list option \<Rightarrow> egl_state \<Rightarrow> u32 \<times> egl_state" where
  "host_eglCreatePbufferSurface E display config attributes st =
     (if \<not> uses_sdl E st display
      then (fst (native E st ''eglCreatePbufferSurface'' [Ptr display, Ptr config, Attributes attributes]), st)
      else (0, set_error EGL_BAD_MATCH st))"

definition host_eglBindTexImage :: "egl_env \<Rightarrow> u32 \<Rightarrow> u32 \<Rightarrow> int \<Rightarrow> egl_state \<Rightarrow> u32 \<times> egl_state" where
  "host_eglBindTexImage E display surface buffer st =
     (if \<not> uses_sdl E st display
      then (fst (native E st ''eglBindTexImage'' [Ptr display, Ptr surface, Num buffer]), st)
      else (0, set_error EGL_BAD_MATCH st))"

definition host_eglReleaseTexImage :: "egl_env \<Rightarrow> u32 \<Rightarrow> u32 \<Rightarrow> int \<Rightarrow> egl_state \<Rightarrow> u32 \<times> egl_state" where
  "host_eglReleaseTexImage E display surface buffer st =
     (if \<not> uses_sdl E st display
      then (fst (native E st ''eglReleaseTexImage'' [Ptr display, Ptr surface, Num buffer]), st)
      else (0, set_error EGL_BAD_MATCH st))"

section \<open>Errors, frames and functions\<close>

definition host_eglGetError :: "egl_env \<Rightarrow> egl_state \<Rightarrow> int \<times> egl_state" where
  "host_eglGetError E st =
     (if \<not> es_active (g_sdl st) then
        (if g_egl st \<and> ee_native E ''eglGetError'' \<noteq> None then uint (fst (native E st ''eglGetError'' [])) else EGL_SUCCESS, st)
      else (es_error (g_sdl st), set_error EGL_SUCCESS st))"

definition egl_backend_swap_buffers :: "egl_env \<Rightarrow> u32 \<Rightarrow> u32 \<Rightarrow> egl_state \<Rightarrow> u32 \<times> egl_state" where
  "egl_backend_swap_buffers E display surface st =
     (if \<not> uses_sdl E st display then (fst (native E st ''eglSwapBuffers'' [Ptr display, Ptr surface]), st)
      else if surface \<noteq> es_window (g_sdl st) \<or> \<not> es_surface_valid (g_sdl st) then (0, set_error EGL_BAD_SURFACE st)
      else (1, sdl_swap_window (es_window (g_sdl st)) st))"

text \<open>\<open>ee_gl_proc\<close> and \<open>ee_egl_proc\<close> are the functions of SDL and of the native EGL by name.\<close>

definition egl_backend_get_proc_address :: "egl_env \<Rightarrow> string \<Rightarrow> egl_state \<Rightarrow> u32" where
  "egl_backend_get_proc_address E name st =
     (if es_active (g_sdl st) \<and> es_api (g_sdl st) then ee_gl_proc E name
      else if g_egl st \<and> ee_native E ''eglGetProcAddress'' \<noteq> None then ee_egl_proc E name else 0)"

definition egl_backend_get_gl_proc :: "egl_env \<Rightarrow> string \<Rightarrow> egl_state \<Rightarrow> u32" where
  "egl_backend_get_gl_proc E name st =
     (if \<not> es_active (g_sdl st) \<or> \<not> es_api (g_sdl st) then 0 else ee_gl_proc E name)"

definition egl_symbols :: "string list" where
  "egl_symbols = [''eglBindAPI'', ''eglBindTexImage'', ''eglCreateContext'', ''eglCreatePbufferSurface'',
     ''eglCreateWindowSurface'', ''eglDestroyContext'', ''eglDestroySurface'', ''eglGetConfigAttrib'', ''eglGetConfigs'',
     ''eglGetCurrentContext'', ''eglGetCurrentDisplay'', ''eglGetCurrentSurface'', ''eglGetDisplay'', ''eglGetError'',
     ''eglInitialize'', ''eglMakeCurrent'', ''eglQueryContext'', ''eglQueryString'', ''eglQuerySurface'',
     ''eglReleaseTexImage'', ''eglTerminate'']"

text \<open>The function \<open>host_\<close>\<^emph>\<open>name\<close>, by its name.\<close>

definition egl_backend_resolve :: "string \<Rightarrow> string option" where
  "egl_backend_resolve name = List.find (\<lambda>s. s = name) egl_symbols"

end
