(* ===== verification/Egl_Properties.thy ===== *)
theory Egl_Properties
  imports Egl_Calls
begin

unbundle bit_operations_syntax

text \<open>
  The lifetime of the objects of the SDL display: a window and a context exist when the state names
  them, and nothing else does; SDL is only called while it is loaded and with objects that exist.
\<close>

section \<open>The invariant\<close>

definition named :: "u32 \<Rightarrow> u32 set" where
  "named p = (if p = 0 then {} else {p})"

definition egl_ok :: "egl_state \<Rightarrow> bool" where
  "egl_ok st \<longleftrightarrow> \<not> eg_misuse st \<and> eg_windows st = named (es_window (g_sdl st)) \<and>
     eg_contexts st = named (es_context (g_sdl st)) \<and>
     es_api (g_sdl st) = es_library (g_sdl st) \<and> (es_active (g_sdl st) \<longrightarrow> es_library (g_sdl st)) \<and>
     es_initialized (g_sdl st) = es_active (g_sdl st) \<and> eg_video st = es_active (g_sdl st) \<and>
     (es_window (g_sdl st) \<noteq> 0 \<longrightarrow> es_active (g_sdl st)) \<and> (es_context (g_sdl st) \<noteq> 0 \<longrightarrow> es_window (g_sdl st) \<noteq> 0) \<and>
     (es_current (g_sdl st) \<longrightarrow> es_context (g_sdl st) \<noteq> 0) \<and>
     (es_context_destroy_pending (g_sdl st) \<longrightarrow> es_current (g_sdl st)) \<and>
     (es_surface_valid (g_sdl st) \<longrightarrow> es_window (g_sdl st) \<noteq> 0)"

lemma named_simps [simp]: "named 0 = {}" "p \<noteq> 0 \<Longrightarrow> named p = {p}"
  by (simp_all add: named_def)

named_theorems egl_intros "operations that keep the invariant of the EGL layer"

lemma egl_ok_error [egl_intros]: "egl_ok st \<Longrightarrow> egl_ok (set_error e st)"
  by (auto simp: egl_ok_def set_error_def put_sdl_def)

lemma egl_ok_vars [egl_intros]: "egl_ok st \<Longrightarrow> egl_ok (st\<lparr>eg_vars := v\<rparr>)"
  by (auto simp: egl_ok_def)

lemma egl_ok_libs [egl_intros]: "egl_ok st \<Longrightarrow> egl_ok (st\<lparr>g_egl := a, g_gles1 := b, g_gles2 := c\<rparr>)"
  by (auto simp: egl_ok_def)

lemma apply_attributes:
  assumes "es_api (g_sdl st)"
  shows "\<exists>a. apply_window_attributes st = st\<lparr>eg_attributes := a\<rparr>"
proof -
  have "\<exists>a. fold (\<lambda>(a, v). sdl_set_attribute a v) xs s = s\<lparr>eg_attributes := a\<rparr>" if "es_api (g_sdl s)" for xs s
    using that
  proof (induction xs arbitrary: s)
    case Nil
    then show ?case by (auto intro: exI[of _ "eg_attributes s"])
  next
    case (Cons x xs)
    obtain a v where x: "x = (a, v)" by (cases x)
    from Cons.IH[of "s\<lparr>eg_attributes := (a, v) # eg_attributes s\<rparr>"] Cons.prems
    show ?case by (auto simp: x sdl_set_attribute_def api_def)
  qed
  then show ?thesis using assms unfolding apply_window_attributes_def by blast
qed

lemma configure_vars: "\<exists>v. configure_sdl_graphics_libraries E st = st\<lparr>eg_vars := v\<rparr>"
proof -
  have one: "\<exists>v. set_sdl_sibling_library E name names st = st\<lparr>eg_vars := v\<rparr>" for name names st
    by (auto simp: set_sdl_sibling_library_def split: option.splits list.splits intro: exI[of _ "eg_vars st"])
  obtain v where "set_sdl_sibling_library E ''SDL_VIDEO_EGL_DRIVER'' [''libEGL.so.1'', ''libEGL.so''] st = st\<lparr>eg_vars := v\<rparr>"
    using one by blast
  moreover obtain w where "set_sdl_sibling_library E ''SDL_VIDEO_GL_DRIVER'' [''libGLESv2.so.2'', ''libGLESv2.so'']
      (st\<lparr>eg_vars := v\<rparr>) = st\<lparr>eg_vars := v\<rparr>\<lparr>eg_vars := w\<rparr>" using one by blast
  ultimately show ?thesis by (auto simp: configure_sdl_graphics_libraries_def)
qed

lemma egl_load_ok [egl_intros]: "egl_ok st \<Longrightarrow> egl_ok (snd (load_sdl_video E st))"
  by (auto simp: load_sdl_video_def egl_ok_def put_sdl_def)

lemma egl_load_loads: "load_sdl_video E st = (True, st') \<Longrightarrow> es_library (g_sdl st')"
  by (auto simp: load_sdl_video_def put_sdl_def split: if_splits)

lemma load_active: "es_active (g_sdl (snd (load_sdl_video E st))) = es_active (g_sdl st)"
  by (simp add: load_sdl_video_def put_sdl_def)

lemma initialize_ok:
  assumes ok: "egl_ok st"
  shows "egl_ok (snd (initialize_sdl E display st))"
proof (cases "es_active (g_sdl st)")
  case False
  obtain r s where l: "load_sdl_video E st = (r, s)" by fastforce
  then have s: "egl_ok s" "\<not> es_active (g_sdl s)" using egl_load_ok[OF ok, of E] load_active[of E st] False by simp_all
  obtain v where v: "configure_sdl_graphics_libraries E s = s\<lparr>eg_vars := v\<rparr>" using configure_vars by blast
  show ?thesis
  proof (cases r)
    case True
    then have "es_library (g_sdl s)" using egl_load_loads[of E st s] l by simp
    then show ?thesis using False l s v True
      by (auto simp: initialize_sdl_def Let_def api_def egl_ok_def put_sdl_def set_error_def)
  next
    case r: False
    then show ?thesis using False l egl_ok_error[OF s(1)] by (simp add: initialize_sdl_def)
  qed
qed (use ok in \<open>simp add: initialize_sdl_def\<close>)

lemma egl_shutdown_ok [egl_intros]:
  assumes ok: "egl_ok st"
  shows "egl_ok (egl_backend_shutdown st)" "eg_windows (egl_backend_shutdown st) = {}"
    "eg_contexts (egl_backend_shutdown st) = {}" "\<not> eg_video (egl_backend_shutdown st)"
  using ok
  by (auto simp: egl_backend_shutdown_def Let_def egl_ok_def put_sdl_def sdl_initial_def sdl_delete_context_def
      sdl_destroy_window_def api_def named_def)

text \<open>Making the window and the context.\<close>

lemma ensure_window_ok:
  assumes ok: "egl_ok st" and active: "es_active (g_sdl st)" and r: "ensure_window E st = (r, st')"
  shows "egl_ok st' \<and> es_active (g_sdl st') \<and> (r \<longrightarrow> es_window (g_sdl st') \<noteq> 0) \<and>
    es_context (g_sdl st') = es_context (g_sdl st) \<and> es_current (g_sdl st') = es_current (g_sdl st) \<and>
    es_context_valid (g_sdl st') = es_context_valid (g_sdl st)"
proof (cases "es_window (g_sdl st) = 0")
  case True
  have "es_api (g_sdl st)" using ok active by (simp add: egl_ok_def)
  from apply_attributes[OF this] obtain a where "apply_window_attributes st = st\<lparr>eg_attributes := a\<rparr>" by blast
  then show ?thesis using True ok active r
    by (auto simp: ensure_window_def sdl_create_window_def api_def Let_def put_sdl_def set_error_def egl_ok_def named_def
        split: if_splits)
qed (use assms in \<open>auto simp: ensure_window_def\<close>)

lemma ensure_context_ok:
  assumes ok: "egl_ok st" and active: "es_active (g_sdl st)" and r: "ensure_context E st = (r, st')"
  shows "egl_ok st' \<and> es_active (g_sdl st') \<and> (r \<longrightarrow> es_context (g_sdl st') \<noteq> 0)"
proof (cases "es_context (g_sdl st) = 0")
  case True
  obtain w s where w: "ensure_window E st = (w, s)" by fastforce
  note s = ensure_window_ok[OF ok active w]
  then have api: "es_api (g_sdl s)" by (auto simp: egl_ok_def)
  from apply_attributes[OF this] obtain a where "apply_window_attributes s = s\<lparr>eg_attributes := a\<rparr>" by blast
  then show ?thesis using True s w r api
    by (auto simp: ensure_context_def sdl_create_context_def api_def Let_def put_sdl_def set_error_def egl_ok_def named_def
        split: if_splits)
qed (use assms in \<open>auto simp: ensure_context_def\<close>)

lemma release_ok:
  "egl_ok st \<Longrightarrow> es_active (g_sdl st) \<Longrightarrow> egl_ok (destroy_pending_context (put_sdl (\<lambda>s. s\<lparr>es_current := False\<rparr>) st))"
  by (auto simp: destroy_pending_context_def egl_ok_def put_sdl_def sdl_delete_context_def api_def Let_def)

section \<open>The entry points\<close>

lemma uses_active: "uses_sdl E st display \<Longrightarrow> es_active (g_sdl st)"
  by (simp add: uses_sdl_def)

lemma surface_ok: "egl_ok st \<Longrightarrow> egl_ok (snd (host_eglCreateWindowSurface E d c w l st))"
  by (cases "ensure_window E st")
    (auto simp: host_eglCreateWindowSurface_def Let_def put_sdl_def split: prod.splits
      dest!: ensure_window_ok[rotated 2] uses_active intro: egl_intros, auto simp: egl_ok_def)

lemma context_ok:
  assumes ok: "egl_ok st" and r: "host_eglCreateContext E d c share l st = Ok (r, st')"
  shows "egl_ok st'"
proof (cases "uses_sdl E st d \<and> c = fallback_config E \<and> share = 0")
  case True
  let ?major = "case l of None \<Rightarrow> Ok (es_context_major (g_sdl st)) | Some l \<Rightarrow> context_attributes 16 l (es_context_major (g_sdl st))"
  obtain major where m: "?major = Ok major" using True r by (cases ?major) (auto simp: host_eglCreateContext_def)
  let ?s = "put_sdl (\<lambda>s. s\<lparr>es_context_major := major\<rparr>) st"
  have s: "egl_ok ?s" "es_active (g_sdl ?s)" using ok True uses_active by (auto simp: egl_ok_def put_sdl_def)
  obtain b s' where e: "ensure_context E ?s = (b, s')" by fastforce
  have "egl_ok (put_sdl (\<lambda>s. s\<lparr>es_context_valid := True\<rparr>) s')"
    using ensure_context_ok[OF s e] by (auto simp: egl_ok_def put_sdl_def)
  then show ?thesis using True r m e ensure_context_ok[OF s e]
    by (auto simp: host_eglCreateContext_def split: if_splits)
next
  case False
  then have "st' = st \<or> (\<exists>e. st' = set_error e st)" using r by (auto simp: host_eglCreateContext_def split: if_splits)
  then show ?thesis using ok egl_ok_error by blast
qed

lemma make_current_ok:
  assumes ok: "egl_ok st"
  shows "egl_ok (snd (host_eglMakeCurrent E d draw read c st))"
proof -
  have use: "sdl_make_current E (es_window (g_sdl st)) c' st = (ee_make_current E (es_window (g_sdl st)) c', st)"
    if "es_window (g_sdl st) \<noteq> 0" "c' = 0 \<or> c' = es_context (g_sdl st)" for c'
    using that ok by (auto simp: sdl_make_current_def api_def egl_ok_def Let_def named_def)
  have current: "egl_ok (put_sdl (\<lambda>s. s\<lparr>es_current := True\<rparr>) st)" if "es_context (g_sdl st) \<noteq> 0"
    using that ok by (auto simp: egl_ok_def put_sdl_def)
  have window: "es_window (g_sdl st) \<noteq> 0" if "es_context (g_sdl st) \<noteq> 0" using that ok by (simp add: egl_ok_def)
  show ?thesis
  proof (cases "uses_sdl E st d")
    case True
    then show ?thesis
      using ok use window current release_ok[OF ok] uses_active[OF True] egl_ok_error[OF ok]
      by (cases "c = 0"; cases "es_window (g_sdl st) = 0") (auto simp: host_eglMakeCurrent_def Let_def)
  qed (use ok in \<open>simp add: host_eglMakeCurrent_def\<close>)
qed

lemma destroy_context_ok: "egl_ok st \<Longrightarrow> egl_ok (snd (host_eglDestroyContext E d c st))"
  by (auto simp: host_eglDestroyContext_def Let_def put_sdl_def egl_ok_def sdl_delete_context_def api_def set_error_def
      named_def uses_sdl_def)

lemma destroy_surface_ok: "egl_ok st \<Longrightarrow> egl_ok (snd (host_eglDestroySurface E d c st))"
  by (auto simp: host_eglDestroySurface_def put_sdl_def egl_ok_def set_error_def)

lemma swap_ok: "egl_ok st \<Longrightarrow> egl_ok (snd (egl_backend_swap_buffers E d c st))"
  by (auto simp: egl_backend_swap_buffers_def put_sdl_def egl_ok_def set_error_def sdl_swap_window_def api_def Let_def)

lemma load_libraries_ok:
  assumes "egl_ok st"
  shows "egl_ok (snd (egl_backend_load_libraries E st))"
proof -
  obtain r s where l: "load_sdl_video E st = (r, s)" by fastforce
  obtain v where v: "configure_sdl_graphics_libraries E s = s\<lparr>eg_vars := v\<rparr>" using configure_vars by blast
  have s: "egl_ok s" using egl_load_ok[OF assms, of E] l by simp
  have "egl_ok (s\<lparr>eg_vars := v, g_egl := a, g_gles1 := b, g_gles2 := c\<rparr>)" for a b c
    using s by (auto simp: egl_ok_def)
  then show ?thesis
    using l v s egl_shutdown_ok(1) by (cases r) (auto simp: egl_backend_load_libraries_def Let_def)
qed

section \<open>All calls\<close>

datatype egl_call =
    Load_Libraries | Shutdown_Backend
  | Initialize u32
  | Get_Configs u32 bool int bool
  | Get_Config_Attrib u32 u32 int bool
  | Create_Window_Surface u32 u32 u32 "int list option"
  | Create_Context u32 u32 u32 "int list option"
  | Make_Current u32 u32 u32 u32
  | Query_Surface host_display u32 u32 int bool
  | Query_Context u32 u32 int bool
  | Query_String u32 int
  | Bind_API int
  | Destroy_Context u32 u32
  | Destroy_Surface u32 u32
  | Terminate u32
  | Create_Pbuffer u32 u32 "int list option"
  | Bind_Tex_Image u32 u32 int
  | Release_Tex_Image u32 u32 int
  | Get_Error
  | Swap_Buffers u32 u32

text \<open>A list of attributes without end is the caller's mistake, and no step.\<close>

fun egl_step :: "egl_env \<times> egl_call \<Rightarrow> egl_state \<Rightarrow> egl_state" where
  "egl_step (E, Load_Libraries) st = snd (egl_backend_load_libraries E st)"
| "egl_step (E, Shutdown_Backend) st = egl_backend_shutdown st"
| "egl_step (E, Initialize d) st = snd (snd (host_eglInitialize E d st))"
| "egl_step (E, Get_Configs d a n c) st = snd (snd (snd (host_eglGetConfigs E d a n c st)))"
| "egl_step (E, Get_Config_Attrib d c a v) st = snd (snd (host_eglGetConfigAttrib E d c a v st))"
| "egl_step (E, Create_Window_Surface d c w l) st = snd (host_eglCreateWindowSurface E d c w l st)"
| "egl_step (E, Create_Context d c share l) st =
     (case host_eglCreateContext E d c share l st of Ok (r, st) \<Rightarrow> st | _ \<Rightarrow> st)"
| "egl_step (E, Make_Current d draw read c) st = snd (host_eglMakeCurrent E d draw read c st)"
| "egl_step (E, Query_Surface geo d s a v) st = snd (snd (host_eglQuerySurface E geo d s a v st))"
| "egl_step (E, Query_Context d c a v) st = snd (snd (host_eglQueryContext E d c a v st))"
| "egl_step (E, Query_String d n) st = snd (host_eglQueryString E d n st)"
| "egl_step (E, Bind_API a) st = snd (host_eglBindAPI E a st)"
| "egl_step (E, Destroy_Context d c) st = snd (host_eglDestroyContext E d c st)"
| "egl_step (E, Destroy_Surface d s) st = snd (host_eglDestroySurface E d s st)"
| "egl_step (E, Terminate d) st = snd (host_eglTerminate E d st)"
| "egl_step (E, Create_Pbuffer d c l) st = snd (host_eglCreatePbufferSurface E d c l st)"
| "egl_step (E, Bind_Tex_Image d s b) st = snd (host_eglBindTexImage E d s b st)"
| "egl_step (E, Release_Tex_Image d s b) st = snd (host_eglReleaseTexImage E d s b st)"
| "egl_step (E, Get_Error) st = snd (host_eglGetError E st)"
| "egl_step (E, Swap_Buffers d s) st = snd (egl_backend_swap_buffers E d s st)"

lemma egl_step_ok:
  assumes ok: "egl_ok st"
  shows "egl_ok (egl_step e st)"
proof -
  note error = egl_ok_error[OF ok]
  obtain E c where e: "e = (E, c)" by (cases e)
  show ?thesis
  proof (cases c)
    case (Create_Context d cf share l)
    then show ?thesis using ok context_ok[OF ok, of E d cf share l]
      by (auto simp: e split: res.splits)
  next
    case (Initialize d)
    then show ?thesis using ok initialize_ok[OF ok, of E d]
      by (cases "initialize_sdl E d st") (auto simp: e host_eglInitialize_def Let_def split: prod.splits)
  next
    case (Query_Surface geo d s a v)
    then show ?thesis using ok error by (auto simp: e host_eglQuerySurface_def Let_def split: prod.splits)
  next
    case (Get_Configs d a n cn)
    then show ?thesis using ok error by (auto simp: e host_eglGetConfigs_def Let_def split: prod.splits)
  next
    case (Get_Config_Attrib d cf a v)
    then show ?thesis using ok error
      by (auto simp: e host_eglGetConfigAttrib_def Let_def split: prod.splits option.splits)
  next
    case (Query_Context d cf a v)
    then show ?thesis using ok error by (auto simp: e host_eglQueryContext_def Let_def split: prod.splits)
  qed (use ok error egl_shutdown_ok(1)[OF ok] surface_ok[OF ok] make_current_ok[OF ok] destroy_context_ok[OF ok]
      destroy_surface_ok[OF ok] swap_ok[OF ok] load_libraries_ok[OF ok]
      in \<open>simp_all add: e host_eglQueryString_def host_eglBindAPI_def host_eglTerminate_def host_eglCreatePbufferSurface_def
        host_eglBindTexImage_def host_eglReleaseTexImage_def host_eglGetError_def\<close>)
qed

interpretation egl: invariant_machine egl_step egl_ok
  by unfold_locales (rule egl_step_ok)

definition egl_start :: "(string \<Rightarrow> cstring option) \<Rightarrow> egl_state" where
  "egl_start vars = \<lparr>g_sdl = sdl_initial, g_egl = False, g_gles1 = False, g_gles2 = False, eg_vars = vars,
     eg_windows = {}, eg_contexts = {}, eg_video = False, eg_attributes = [], eg_swaps = 0, eg_misuse = False\<rparr>"

lemma egl_start_ok: "egl_ok (egl_start vars)"
  by (simp add: egl_ok_def egl_start_def sdl_initial_def)

text \<open>C31: The SDL display owns its window and its context. Whatever EGL calls the guest makes, with whatever
  handles, in any order and with any answers of SDL and of the native library: SDL is never called before it is
  loaded or after it is unloaded, nor with a window or context that does not exist; exactly the window and the
  context that the state names exist, so that none leaks or is destroyed twice; a current context exists and has
  a window; and a shutdown at any time destroys everything.\<close>

theorem egl_objects_owned:
  fixes vars calls
  defines "st \<equiv> fold egl_step calls (egl_start vars)"
  shows "\<not> eg_misuse st \<and>
    eg_windows st = (if es_window (g_sdl st) = 0 then {} else {es_window (g_sdl st)}) \<and>
    eg_contexts st = (if es_context (g_sdl st) = 0 then {} else {es_context (g_sdl st)}) \<and>
    (if es_current (g_sdl st) then es_context (g_sdl st) \<in> eg_contexts st \<and> es_window (g_sdl st) \<in> eg_windows st else True) \<and>
    (let s = egl_backend_shutdown st in eg_windows s = {} \<and> eg_contexts s = {} \<and> \<not> eg_video s \<and> \<not> eg_misuse s)"
proof -
  have ok: "egl_ok st" unfolding st_def by (rule egl.run_inv[OF egl_start_ok])
  then show ?thesis using egl_shutdown_ok[OF ok]
    by (auto simp: egl_ok_def named_def Let_def split: if_splits)
qed

section \<open>A context that is created while its predecessor waits\<close>

text \<open>
  Destroying the current context only marks it. A context that is created then is the old one again, still
  marked: when it is released it is destroyed, although the guest was given it as a new context, and making
  it current again fails.
\<close>

lemma recreated_context_is_lost:
  assumes st: "egl_ok st" "uses_sdl E st d" "es_context (g_sdl st) = c" "es_current (g_sdl st)" "es_context_valid (g_sdl st)"
    and sdl: "\<And>w c. ee_make_current E w c = 0"
  shows "\<exists>st1 st2 st3. host_eglDestroyContext E d c st = (1, st1) \<and>
    host_eglCreateContext E d (fallback_config E) 0 None st1 = Ok (c, st2) \<and>
    host_eglMakeCurrent E d 0 0 0 st2 = (1, st3) \<and> eg_contexts st3 = {} \<and>
    (\<forall>w. host_eglMakeCurrent E d w w c st3 = (0, set_error EGL_BAD_CONTEXT st3))"
proof -
  have c: "c \<noteq> 0" "es_window (g_sdl st) \<noteq> 0" "es_api (g_sdl st)" using st by (auto simp: egl_ok_def)
  have sets: "eg_windows st = {es_window (g_sdl st)}" "eg_contexts st = {c}" using st c by (auto simp: egl_ok_def)
  show ?thesis
    using st(2-5) c sets sdl
    by (auto simp: host_eglDestroyContext_def host_eglCreateContext_def host_eglMakeCurrent_def uses_sdl_def Let_def
        put_sdl_def ensure_context_def sdl_make_current_def api_def destroy_pending_context_def sdl_delete_context_def
        set_error_def)
qed

end
