(* ===== verification/Gl.thy ===== *)
theory Gl
  imports Egl_Calls
begin

unbundle bit_operations_syntax

text \<open>
  The drawing side of the host (\<open>src/s3e_gl.c\<close> and \<open>lookup_gl\<close> of \<open>src/s3e_host.c\<close>). The guest draws
  into a surface that lies inside of the drawable: rectangles of the default framebuffer are moved by
  the position of the surface, and before a frame is shown the host clears the borders and draws its
  cursor. The driver is modelled by the state that its calls set and by the list of what they clear;
  colours are the bits of the \<open>float\<close> values. Names are resolved for the guest's image here, too.
\<close>

section \<open>Constants\<close>

definition FRAME_INTERVAL_US :: u64 where "FRAME_INTERVAL_US = 16667"
definition FRAME_RESET_US :: u64 where "FRAME_RESET_US = FRAME_INTERVAL_US * 4"
definition REFERENCE_SURFACE_WIDTH :: u32 where "REFERENCE_SURFACE_WIDTH = 640"
definition REFERENCE_SURFACE_HEIGHT :: u32 where "REFERENCE_SURFACE_HEIGHT = 480"
definition GL_VIEWPORT_VALUE :: u32 where "GL_VIEWPORT_VALUE = 0x0ba2"
definition GL_SCISSOR_BOX_VALUE :: u32 where "GL_SCISSOR_BOX_VALUE = 0x0c10"
definition GL_FRAMEBUFFER_VALUE :: u32 where "GL_FRAMEBUFFER_VALUE = 0x8d40"

section \<open>The driver\<close>

type_synonym rect = "int \<times> int \<times> int \<times> int"

text \<open>
  What is cleared: the framebuffer, the box (\<open>None\<close> when the test is off), the colour and the mask.
\<close>

record gl_driver =
  gd_functions :: "string \<Rightarrow> bool"
  gd_framebuffer :: u32
  gd_scissor_test :: bool
  gd_scissor :: rect
  gd_viewport :: rect
  gd_clear_color :: "u32 list"
  gd_color_mask :: "bool list"
  gd_cleared :: "(u32 \<times> rect option \<times> u32 list \<times> bool list) list"
  gd_calls :: "(string \<times> int list) list"

record gl_host =
  gh_driver :: gl_driver
  g_bound_framebuffer :: u32
  next_frame_us :: u64

definition has_gl :: "gl_host \<Rightarrow> string \<Rightarrow> bool" where
  "has_gl st name = gd_functions (gh_driver st) name"

definition put_driver :: "(gl_driver \<Rightarrow> gl_driver) \<Rightarrow> gl_host \<Rightarrow> gl_host" where
  "put_driver f st = st\<lparr>gh_driver := f (gh_driver st)\<rparr>"

text \<open>A box of negative extent is an error that changes nothing.\<close>

definition gl_scissor :: "rect \<Rightarrow> gl_host \<Rightarrow> gl_host" where
  "gl_scissor r = put_driver (\<lambda>d. case r of (x, y, w, h) \<Rightarrow> if w < 0 \<or> h < 0 then d else d\<lparr>gd_scissor := r\<rparr>)"

definition gl_viewport :: "rect \<Rightarrow> gl_host \<Rightarrow> gl_host" where
  "gl_viewport r = put_driver (\<lambda>d. case r of (x, y, w, h) \<Rightarrow> if w < 0 \<or> h < 0 then d else d\<lparr>gd_viewport := r\<rparr>)"

definition gl_clear :: "gl_host \<Rightarrow> gl_host" where
  "gl_clear = put_driver (\<lambda>d. d\<lparr>gd_cleared := gd_cleared d @
     [(gd_framebuffer d, if gd_scissor_test d then Some (gd_scissor d) else None, gd_clear_color d, gd_color_mask d)]\<rparr>)"

definition gl_clear_color :: "u32 list \<Rightarrow> gl_host \<Rightarrow> gl_host" where
  "gl_clear_color c = put_driver (\<lambda>d. d\<lparr>gd_clear_color := c\<rparr>)"

definition gl_color_mask :: "bool list \<Rightarrow> gl_host \<Rightarrow> gl_host" where
  "gl_color_mask m = put_driver (\<lambda>d. d\<lparr>gd_color_mask := m\<rparr>)"

definition gl_scissor_test :: "bool \<Rightarrow> gl_host \<Rightarrow> gl_host" where
  "gl_scissor_test b = put_driver (\<lambda>d. d\<lparr>gd_scissor_test := b\<rparr>)"

definition gl_call :: "string \<Rightarrow> int list \<Rightarrow> gl_host \<Rightarrow> gl_host" where
  "gl_call name args = put_driver (\<lambda>d. d\<lparr>gd_calls := gd_calls d @ [(name, args)]\<rparr>)"

section \<open>Framebuffers\<close>

text \<open>Only \<open>GL_FRAMEBUFFER\<close> is a target; another one is an error of the driver.\<close>

definition has_bind :: "gl_host \<Rightarrow> bool" where
  "has_bind st \<longleftrightarrow> has_gl st ''glBindFramebuffer'' \<or> has_gl st ''glBindFramebufferOES''"

definition driver_bind_framebuffer :: "u32 \<Rightarrow> gl_host \<Rightarrow> gl_host" where
  "driver_bind_framebuffer framebuffer st =
     (if has_bind st then put_driver (\<lambda>d. d\<lparr>gd_framebuffer := framebuffer\<rparr>) st else st)"

definition bind_framebuffer :: "u32 \<Rightarrow> u32 \<Rightarrow> gl_host \<Rightarrow> gl_host" where
  "bind_framebuffer target framebuffer st =
     (if target = GL_FRAMEBUFFER_VALUE
      then (driver_bind_framebuffer framebuffer st)\<lparr>g_bound_framebuffer := framebuffer\<rparr>
      else if has_bind st then gl_call ''glBindFramebuffer'' [uint target, uint framebuffer] st else st)"

section \<open>Rectangles of the surface\<close>

definition surface_x :: "host_display \<Rightarrow> int" where "surface_x d = uint (sg_x (g_surface d))"
definition surface_y :: "host_display \<Rightarrow> int" where "surface_y d = uint (sg_y (g_surface d))"
definition surface_width :: "host_display \<Rightarrow> int" where "surface_width d = uint (sg_width (g_surface d))"
definition surface_height :: "host_display \<Rightarrow> int" where "surface_height d = uint (sg_height (g_surface d))"

text \<open>\<open>x += g_surface.x\<close> and the like, for the default framebuffer only.\<close>

definition to_drawable :: "host_display \<Rightarrow> gl_host \<Rightarrow> int \<times> int \<Rightarrow> int \<times> int" where
  "to_drawable d st = (\<lambda>(x, y).
     if g_bound_framebuffer st = 0 then (i32 (x + surface_x d), i32 (y + surface_y d)) else (x, y))"

definition host_glViewport :: "host_display \<Rightarrow> rect \<Rightarrow> gl_host \<Rightarrow> gl_host" where
  "host_glViewport d = (\<lambda>(x, y, width, height) st.
     if has_gl st ''glViewport'' then (let (x, y) = to_drawable d st (x, y) in gl_viewport (x, y, width, height) st) else st)"

definition host_glScissor :: "host_display \<Rightarrow> rect \<Rightarrow> gl_host \<Rightarrow> gl_host" where
  "host_glScissor d = (\<lambda>(x, y, width, height) st.
     if has_gl st ''glScissor'' then (let (x, y) = to_drawable d st (x, y) in gl_scissor (x, y, width, height) st) else st)"

definition map_drawable_rect_to_surface :: "host_display \<Rightarrow> rect \<Rightarrow> rect" where
  "map_drawable_rect_to_surface d = (\<lambda>(rx, ry, rw, rh).
     let left = max rx (surface_x d);
         bottom = max ry (surface_y d);
         right = i32 (rx + rw);
         top = i32 (ry + rh);
         surface_right = surface_x d + surface_width d;
         surface_top = surface_y d + surface_height d;
         right = min right surface_right;
         top = min top surface_top;
         left = min left surface_right;
         bottom = min bottom surface_top
     in (left - surface_x d, bottom - surface_y d,
         if right > left then right - left else 0, if top > bottom then top - bottom else 0))"

text \<open>The rectangle that is written to the guest, for the two names that are rectangles.\<close>

definition host_glGetIntegerv :: "host_display \<Rightarrow> u32 \<Rightarrow> gl_host \<Rightarrow> rect option" where
  "host_glGetIntegerv d name st =
     (if \<not> has_gl st ''glGetIntegerv'' then None
      else let values = (if name = GL_VIEWPORT_VALUE then Some (gd_viewport (gh_driver st))
                         else if name = GL_SCISSOR_BOX_VALUE then Some (gd_scissor (gh_driver st)) else None)
        in if g_bound_framebuffer st = 0 then map_option (map_drawable_rect_to_surface d) values else values)"

definition host_glReadPixels :: "host_display \<Rightarrow> rect \<Rightarrow> int list \<Rightarrow> gl_host \<Rightarrow> gl_host" where
  "host_glReadPixels d = (\<lambda>(x, y, width, height) rest st.
     if has_gl st ''glReadPixels''
     then (let (x, y) = to_drawable d st (x, y) in gl_call ''glReadPixels'' ([x, y, width, height] @ rest) st) else st)"

definition host_glCopyTexImage2D :: "host_display \<Rightarrow> int \<times> int \<times> int \<Rightarrow> rect \<Rightarrow> int \<Rightarrow> gl_host \<Rightarrow> gl_host" where
  "host_glCopyTexImage2D d = (\<lambda>(target, level, internal_format) (x, y, width, height) border st.
     if has_gl st ''glCopyTexImage2D''
     then (let (x, y) = to_drawable d st (x, y)
           in gl_call ''glCopyTexImage2D'' [target, level, internal_format, x, y, width, height, border] st) else st)"

definition host_glCopyTexSubImage2D :: "host_display \<Rightarrow> int \<times> int \<times> int \<times> int \<Rightarrow> rect \<Rightarrow> gl_host \<Rightarrow> gl_host" where
  "host_glCopyTexSubImage2D d = (\<lambda>(target, level, x_offset, y_offset) (x, y, width, height) st.
     if has_gl st ''glCopyTexSubImage2D''
     then (let (x, y) = to_drawable d st (x, y)
           in gl_call ''glCopyTexSubImage2D'' [target, level, x_offset, y_offset, x, y, width, height] st) else st)"

section \<open>Functions of \<open>float\<close> arguments\<close>

text \<open>
  The wrappers that only change the calling convention: their name, the name that is tried when the
  driver has no such function, and the number of arguments.
\<close>

definition float_wrappers :: "(string \<times> string option \<times> nat) list" where
  "float_wrappers =
    [(''glAlphaFunc'', None, 2), (''glBlendColor'', None, 4), (''glClearColor'', None, 4),
     (''glClearDepthf'', None, 1), (''glClearDepthfOES'', Some ''glClearDepthf'', 1),
     (''glColor4f'', None, 4), (''glDepthRangef'', None, 2),
     (''glDepthRangefOES'', Some ''glDepthRangef'', 2), (''glDrawTexfOES'', None, 5), (''glFogf'', None, 2),
     (''glFrustumf'', None, 6), (''glFrustumfOES'', Some ''glFrustumf'', 6), (''glLightModelf'', None, 2),
     (''glLightf'', None, 3), (''glLineWidth'', None, 1), (''glMaterialf'', None, 3),
     (''glMultiTexCoord4f'', None, 5), (''glNormal3f'', None, 3), (''glOrthof'', None, 6),
     (''glOrthofOES'', Some ''glOrthof'', 6), (''glPointSize'', None, 1), (''glPolygonOffset'', None, 2),
     (''glRotatef'', None, 4), (''glScalef'', None, 3), (''glTexEnvf'', None, 3),
     (''glTexGenfOES'', None, 3), (''glTranslatef'', None, 3), (''glUniform1f'', None, 2),
     (''glUniform4f'', None, 5)]"

definition float_wrapper_target :: "(string \<Rightarrow> bool) \<Rightarrow> string \<times> string option \<times> nat \<Rightarrow> string option" where
  "float_wrapper_target functions = (\<lambda>(name, fallback, n).
     if functions name then Some name
     else case fallback of None \<Rightarrow> None | Some f \<Rightarrow> if functions f then Some f else None)"

end
