(* ===== verification/Gl_Frame.thy ===== *)
theory Gl_Frame
  imports Gl
begin

unbundle bit_operations_syntax

text \<open>
  Frames of \<open>src/s3e_gl.c\<close>: the borders and the cursor that are drawn before a frame is shown, the
  pace of the frames, and the resolution of the names that the guest's image imports.
\<close>

section \<open>Borders and cursor\<close>

definition float_bits_0 :: u32 where "float_bits_0 = 0"
definition float_bits_1 :: u32 where "float_bits_1 = 0x3f800000"

definition black :: "u32 list" where "black = [float_bits_0, float_bits_0, float_bits_0, float_bits_1]"
definition cursor_blue :: "u32 list" where "cursor_blue = [0x3dcccccd, 0x3f0ccccd, float_bits_1, float_bits_1]"

definition cursor_clear_rect :: "host_display \<Rightarrow> rect \<Rightarrow> gl_host \<Rightarrow> gl_host" where
  "cursor_clear_rect d = (\<lambda>(x, y, w, h) st.
     if w \<le> 0 \<or> h \<le> 0 then st
     else let (x, w) = (if x < 0 then (0, w + x) else (x, w));
              (y, h) = (if y < 0 then (0, h + y) else (y, h));
              w = (if x + w > surface_width d then surface_width d - x else w);
              h = (if y + h > surface_height d then surface_height d - y else h)
       in if w \<le> 0 \<or> h \<le> 0 then st
          else let gl_y = surface_height d - y - h
            in gl_clear (gl_scissor (surface_x d + x, surface_y d + gl_y, w, h) st))"

definition cursor_scaled_size :: "host_display \<Rightarrow> nat \<Rightarrow> int" where
  "cursor_scaled_size d sz =
     (let width_scale = ucast (sg_width (g_surface d)) * REFERENCE_SURFACE_HEIGHT;
          height_scale = ucast (sg_height (g_surface d)) * REFERENCE_SURFACE_WIDTH;
          scale = (if width_scale < height_scale then width_scale else height_scale);
          reference_area = REFERENCE_SURFACE_WIDTH * REFERENCE_SURFACE_HEIGHT;
          result = int ((sz * unat scale + unat (reference_area div 2)) div unat reference_area)
      in if result > 0 then result else 1)"

definition clear_letterbox_rect :: "rect \<Rightarrow> gl_host \<Rightarrow> gl_host" where
  "clear_letterbox_rect = (\<lambda>(x, y, width, height) st.
     if width > 0 \<and> height > 0 then gl_clear (gl_scissor (x, y, width, height) st) else st)"

definition overlay_functions :: "string list" where
  "overlay_functions = [''glDisable'', ''glEnable'', ''glIsEnabled'', ''glScissor'', ''glClearColor'', ''glClear'',
     ''glGetIntegerv'', ''glGetFloatv'', ''glGetBooleanv'', ''glColorMask'']"

definition letterbox_rects :: "host_display \<Rightarrow> rect list" where
  "letterbox_rects d =
     (let W = uint (fb_width (g_native_window d)); H = uint (fb_height (g_native_window d));
          right = surface_x d + surface_width d; top = surface_y d + surface_height d
      in [(0, 0, surface_x d, H), (right, 0, W - right, H),
          (surface_x d, 0, surface_width d, surface_y d), (surface_x d, top, surface_width d, H - top)])"

text \<open>The two bars of a cross.\<close>

definition cursor_bars :: "host_display \<Rightarrow> int \<Rightarrow> int \<Rightarrow> rect list" where
  "cursor_bars d radius thickness =
     (let x = g_pointer_x d; y = g_pointer_y d
      in [(x - radius, y - thickness div 2, radius * 2 + 1, thickness),
          (x - thickness div 2, y - radius, thickness, radius * 2 + 1)])"

definition frontend_overlay_gl_present :: "host_display \<Rightarrow> bool \<Rightarrow> gl_host \<Rightarrow> gl_host" where
  "frontend_overlay_gl_present d cursor_active st =
     (let has_letterbox = (surface_x d \<noteq> 0 \<or> surface_y d \<noteq> 0) in
      if \<not> has_letterbox \<and> \<not> cursor_active then st
      else if \<not> list_all (has_gl st) overlay_functions then st
      else let scissor_was_enabled = gd_scissor_test (gh_driver st);
               scissor_box = gd_scissor (gh_driver st);
               clear_color = gd_clear_color (gh_driver st);
               color_mask = gd_color_mask (gh_driver st);
               st = (if \<not> scissor_was_enabled then gl_scissor_test True st else st);
               st = gl_clear_color black (gl_color_mask [True, True, True, True] st);
               st = (if has_letterbox then fold clear_letterbox_rect (letterbox_rects d) st else st);
               st = (if cursor_active then
                       (let st = gl_clear_color black st;
                            st = fold (cursor_clear_rect d) (cursor_bars d (cursor_scaled_size d 10) (cursor_scaled_size d 5)) st;
                            st = gl_clear_color cursor_blue st
                        in fold (cursor_clear_rect d) (cursor_bars d (cursor_scaled_size d 8) (cursor_scaled_size d 3)) st)
                     else st);
               st = gl_scissor scissor_box (gl_color_mask color_mask (gl_clear_color clear_color st))
        in if \<not> scissor_was_enabled then gl_scissor_test False st else st)"

section \<open>The pace of the frames\<close>

text \<open>
  \<open>sleep_until_us\<close> reads the clock until it has reached the target; the readings are a parameter, of
  which it returns the rest, and a list that ends before is a sleep that has not returned.
\<close>

fun sleep_until_us :: "u64 \<Rightarrow> u64 list \<Rightarrow> u64 list option" where
  "sleep_until_us target [] = None"
| "sleep_until_us target (now # clock) = (if now \<ge> target then Some clock else sleep_until_us target clock)"

definition pace_frame :: "u64 list \<Rightarrow> gl_host \<Rightarrow> (u64 list \<times> gl_host) option" where
  "pace_frame clock st =
     (case clock of
        [] \<Rightarrow> None
      | now # clock \<Rightarrow>
        let due = (if next_frame_us st = 0 \<or> now > next_frame_us st + FRAME_RESET_US then now + FRAME_INTERVAL_US
                   else next_frame_us st)
        in map_option (\<lambda>clock. (clock, st\<lparr>next_frame_us := due + FRAME_INTERVAL_US\<rparr>)) (sleep_until_us due clock))"

text \<open>
  \<open>eglSwapBuffers\<close> after the input and the timers have run; those have changed the geometry and the
  cursor that are given here.
\<close>

definition present_frame :: "host_display \<Rightarrow> bool \<Rightarrow> gl_host \<Rightarrow> gl_host" where
  "present_frame d cursor_active st =
     (let previous_framebuffer = g_bound_framebuffer st;
          st = (if previous_framebuffer \<noteq> 0 then driver_bind_framebuffer 0 st else st);
          st = frontend_overlay_gl_present d cursor_active st
      in if previous_framebuffer \<noteq> 0 then driver_bind_framebuffer previous_framebuffer st else st)"

definition swap_frame ::
  "egl_env \<Rightarrow> u32 \<Rightarrow> u32 \<Rightarrow> host_display \<Rightarrow> bool \<Rightarrow> u64 list \<Rightarrow> egl_state \<Rightarrow> gl_host
    \<Rightarrow> (u32 \<times> u64 list \<times> egl_state \<times> gl_host) option" where
  "swap_frame E display surface d cursor_active clock egl st =
     (let st = present_frame d cursor_active st;
          (result, egl) = egl_backend_swap_buffers E display surface egl
      in map_option (\<lambda>(clock, st). (result, clock, egl, st)) (pace_frame clock st))"

section \<open>Stubs\<close>

definition STUB_SIZE :: nat where "STUB_SIZE = 20"

text \<open>
  The code of the stubs, in words, at an address that \<open>mmap\<close> gives once; the names; how many there are.
\<close>

record stub_state =
  g_stub_code :: "u32 \<times> u32 list"
  g_stub_names :: "string list"
  g_stub_count :: nat

definition stub_code_size :: nat where "stub_code_size = 16384"
definition stub_names_size :: nat where "stub_names_size = 512"

record stub_env =
  sb_mmap :: u32
  sb_dispatch :: u32
  sb_default :: u32

definition write_word :: "nat \<Rightarrow> u32 \<Rightarrow> u32 list \<Rightarrow> u32 list mem" where
  "write_word i v code = (if i < length code then Ok (code[i := v]) else Fault)"

definition make_stub :: "stub_env \<Rightarrow> string \<Rightarrow> stub_state \<Rightarrow> (u32 \<times> stub_state) mem" where
  "make_stub B symbol st =
     (let st = (if fst (g_stub_code st) = 0
                then st\<lparr>g_stub_code := (sb_mmap B, if sb_mmap B = 0 then [] else replicate (stub_code_size div 4) 0)\<rparr> else st)
      in if fst (g_stub_code st) = 0 then Ok (sb_default B, st)
         else if g_stub_count st \<ge> stub_names_size \<or> (g_stub_count st + 1) * STUB_SIZE > stub_code_size
           then Ok (sb_default B, st)
         else let index = g_stub_count st; at = index * STUB_SIZE div 4; (base, code) = g_stub_code st
           in rbind (rfold (\<lambda>(i, v). write_word (at + i) v)
                [(0, 0xe59f0004), (1, 0xe59ff004), (2, 0xe1a00000), (3, of_nat index), (4, sb_dispatch B)] code) (\<lambda>code.
              Ok (base + of_nat (index * STUB_SIZE),
                  st\<lparr>g_stub_code := (base, code), g_stub_names := g_stub_names st @ [symbol], g_stub_count := index + 1\<rparr>)))"

section \<open>Resolution of names\<close>

definition HOST_SYMBOLS :: "string list" where
  "HOST_SYMBOLS =
    [''s3eMallocBase'', ''s3eReallocBase'', ''s3eFreeBase'', ''s3eFileOpen'', ''s3eFileClose'',
     ''s3eFileRead'', ''s3eFileWrite'', ''s3eFileGetChar'', ''s3eFilePutChar'', ''s3eFileFlush'',
     ''s3eFileSeek'', ''s3eFileTell'', ''s3eFileGetSize'', ''s3eFileCheckExists'', ''s3eFileGetError'',
     ''s3eFileGetErrorString'', ''s3eFileOpenFromMemory'', ''s3eFileGetFileInt'', ''s3eFileMakeDirectory'',
     ''s3eFileDelete'', ''s3eFileRename'', ''s3eFileAddUserFileSys'', ''s3eFileListDirectory'',
     ''s3eFileListClose'', ''s3eCompressionDecomp'', ''s3eCompressionDecompInit'',
     ''s3eCompressionDecompRead'', ''s3eCompressionDecompFinal'', ''s3eTimerGetUST'', ''s3eTimerGetMs'',
     ''s3eTimerGetInt'', ''s3eTimerSetTimer'', ''s3eTimerCancelTimer'', ''s3eTimerGetUTC'',
     ''s3eTimerGetLocaltimeOffset'', ''s3eDeviceRegister'', ''s3eDeviceUnRegister'', ''s3eDeviceYield'',
     ''s3eDeviceYieldUntilEvent'', ''s3eDeviceCheckQuitRequest'', ''s3eDeviceCheckPauseRequest'',
     ''s3eDeviceGetInt'', ''s3eDeviceGetString'', ''s3eDeviceSetInt'', ''s3eDeviceBacklightOn'',
     ''s3eDeviceRequestQuit'', ''s3eDeviceAbort'', ''s3eDeviceExit'', ''s3eDebugOutputString'',
     ''s3eDebugPrint'', ''s3eDebugGetInt'', ''s3eDebugIsDebuggerPresent'', ''s3eDebugTraceLine'',
     ''s3eDebugAssertShow'', ''s3eDebugErrorShow'', ''s3eKeyboardRegister'', ''s3eKeyboardUnRegister'',
     ''s3eKeyboardUpdate'', ''s3eKeyboardGetState'', ''s3eKeyboardAnyKey'', ''s3eKeyboardGetInt'',
     ''s3eKeyboardSetInt'', ''s3eKeyboardGetDisplayName'', ''s3eKeyboardClearState'', ''s3ePointerRegister'',
     ''s3ePointerUnRegister'', ''s3ePointerUpdate'', ''s3ePointerGetInt'', ''s3ePointerSetInt'',
     ''s3ePointerGetState'', ''s3ePointerGetX'', ''s3ePointerGetY'', ''s3ePointerGetTouchState'',
     ''s3ePointerGetTouchX'', ''s3ePointerGetTouchY'', ''s3ePointerGetPressure'',
     ''s3ePointerGetTouchPressure'', ''s3ePointerGetError'', ''s3ePointerGetErrorString'',
     ''s3eAccelerometerStart'', ''s3eAccelerometerStop'', ''s3eAccelerometerGetX'', ''s3eAccelerometerGetY'',
     ''s3eAccelerometerGetZ'', ''s3eAccelerometerGetInt'', ''s3eVideoGetInt'', ''s3eVideoPlay'',
     ''s3eVideoStop'', ''s3eVideoResume'', ''s3eAudioIsPlaying'', ''s3eAudioSetInt'', ''s3eAudioGetInt'',
     ''s3eAudioPlay'', ''s3eAudioPlayFromBuffer'', ''s3eAudioStop'', ''s3eAudioPause'', ''s3eAudioResume'',
     ''s3eAudioRegister'', ''s3eSoundGetFreeChannel'', ''s3eSoundSetInt'', ''s3eSoundGetInt'',
     ''s3eSoundChannelRegister'', ''s3eSoundChannelUnRegister'', ''s3eSoundChannelPlay'',
     ''s3eSoundChannelStop'', ''s3eSoundChannelPause'', ''s3eSoundChannelResume'', ''s3eSoundChannelSetInt'',
     ''s3eSoundChannelGetInt'', ''s3eInetHtonl'', ''s3eInetNtohl'', ''s3eInetHtons'', ''s3eInetNtohs'',
     ''s3eInetAton'', ''s3eInetNtoa'', ''s3eInetToString'', ''s3eInetLookup'', ''s3eInetLookupCancel'',
     ''s3eSocketCreate'', ''s3eSocketClose'', ''s3eSocketBind'', ''s3eSocketListen'', ''s3eSocketAccept'',
     ''s3eSocketConnect'', ''s3eSocketSend'', ''s3eSocketSendTo'', ''s3eSocketRecv'', ''s3eSocketRecvFrom'',
     ''s3eSocketReadable'', ''s3eSocketWritable'', ''s3eSocketGetInt'', ''s3eSocketGetError'',
     ''s3eSocketGetString'', ''s3eSocketGetLocalName'', ''s3eSocketGetPeerName'', ''s3eMemoryGetInt'',
     ''s3eMemorySetInt'', ''s3eMemorySetUserMemMgr'', ''s3eMemoryGetUserMemMgr'', ''s3eMemoryHeapCreate'',
     ''s3eMemoryHeapDestroy'', ''s3eMemoryHeapAddress'', ''s3eMemoryGetError'', ''s3eMemoryGetErrorString'',
     ''s3eSurfaceRegister'', ''s3eSurfaceUnRegister'', ''s3eSurfaceGetInt'', ''s3eSurfacePtr'',
     ''s3eSurfaceSetup'', ''s3eSurfaceShow'', ''s3eGLRegister'', ''s3eGLUnRegister'', ''s3eGLGetInt'',
     ''s3eGLGetNativeWindow'', ''s3eConfigGetInt'', ''s3eConfigGetString'', ''s3eExtGetHash'']"

definition WRAPPED_SYMBOLS :: "string list" where
  "WRAPPED_SYMBOLS =
    [''glAlphaFunc'', ''glBindFramebuffer'', ''glBindFramebufferOES'', ''glBlendColor'', ''glClearColor'',
     ''glClearDepthf'', ''glClearDepthfOES'', ''glColor4f'', ''glCopyTexImage2D'', ''glCopyTexSubImage2D'',
     ''glDepthRangef'', ''glDepthRangefOES'', ''glDrawTexfOES'', ''glFogf'', ''glFrustumf'',
     ''glFrustumfOES'', ''glGetIntegerv'', ''glLightModelf'', ''glLightf'', ''glLineWidth'', ''glMaterialf'',
     ''glMultiTexCoord4f'', ''glNormal3f'', ''glOrthof'', ''glOrthofOES'', ''glPointSize'',
     ''glPolygonOffset'', ''glReadPixels'', ''glRotatef'', ''glScalef'', ''glScissor'', ''glTexEnvf'',
     ''glTexGenfOES'', ''glTranslatef'', ''glUniform1f'', ''glUniform4f'', ''glViewport'',
     ''eglGetProcAddress'', ''eglSwapBuffers'']"

text \<open>What a name is resolved to: a function of the host, of its EGL layer or a wrapper, or an address.\<close>

datatype host_target = Wrapped string | Egl_Layer string | Host_Function string | Address u32

definition resolve_wrapped_host_proc :: "string \<Rightarrow> host_target option" where
  "resolve_wrapped_host_proc symbol = map_option Wrapped (List.find (\<lambda>s. symbol = s) WRAPPED_SYMBOLS)"

text \<open>The functions of the two libraries of OpenGL ES and of the native EGL by name, 0 where there is none.\<close>

record lookup_env =
  le_egl :: egl_env
  le_gles2 :: "string \<Rightarrow> u32"
  le_gles1 :: "string \<Rightarrow> u32"
  le_egl_symbol :: "string \<Rightarrow> u32"

definition lookup_gl :: "lookup_env \<Rightarrow> egl_state \<Rightarrow> string \<Rightarrow> u32" where
  "lookup_gl L egl symbol =
     (let addr = egl_backend_get_gl_proc (le_egl L) symbol egl;
          addr = (if g_gles2 egl then (if addr \<noteq> 0 then addr else le_gles2 L symbol) else addr);
          addr = (if addr = 0 \<and> g_gles1 egl then le_gles1 L symbol else addr)
      in if addr = 0 \<and> g_egl egl
         then (if le_egl_symbol L ''eglGetProcAddress'' \<noteq> 0 then ee_egl_proc (le_egl L) symbol else addr) else addr)"

definition lookup_egl :: "lookup_env \<Rightarrow> egl_state \<Rightarrow> string \<Rightarrow> u32" where
  "lookup_egl L egl symbol = (if g_egl egl then le_egl_symbol L symbol else 0)"

text \<open>An address that is not \<open>NULL\<close>.\<close>

definition at_address :: "u32 \<Rightarrow> host_target option" where
  "at_address a = (if a = 0 then None else Some (Address a))"

definition host_eglGetProcAddress :: "lookup_env \<Rightarrow> egl_state \<Rightarrow> string option \<Rightarrow> host_target option" where
  "host_eglGetProcAddress L egl procname =
     (case procname of
        None \<Rightarrow> None
      | Some name \<Rightarrow>
        (case resolve_wrapped_host_proc name of
           Some t \<Rightarrow> Some t
         | None \<Rightarrow> (case egl_backend_resolve name of
             Some s \<Rightarrow> Some (Egl_Layer s)
           | None \<Rightarrow> at_address (egl_backend_get_proc_address (le_egl L) name egl))))"

definition stub_for :: "stub_env \<Rightarrow> string \<Rightarrow> stub_state \<Rightarrow> (host_target option \<times> stub_state) mem" where
  "stub_for B symbol st = rbind (make_stub B symbol st) (\<lambda>(a, st). Ok (at_address a, st))"

definition starts_with :: "string \<Rightarrow> string \<Rightarrow> bool" where
  "starts_with prefix s \<longleftrightarrow> take (length prefix) s = prefix"

definition s3e_host_resolve :: "lookup_env \<Rightarrow> stub_env \<Rightarrow> egl_state \<Rightarrow> string \<Rightarrow> stub_state \<Rightarrow> (host_target option \<times> stub_state) mem" where
  "s3e_host_resolve L B egl symbol st =
     (case resolve_wrapped_host_proc symbol of
        Some t \<Rightarrow> Ok (Some t, st)
      | None \<Rightarrow>
        if starts_with ''egl'' symbol then
          (case egl_backend_resolve symbol of
             Some s \<Rightarrow> Ok (Some (Egl_Layer s), st)
           | None \<Rightarrow> (let addr = lookup_egl L egl symbol in if addr \<noteq> 0 then Ok (Some (Address addr), st) else stub_for B symbol st))
        else if starts_with ''gl'' symbol then
          (let addr = lookup_gl L egl symbol in if addr \<noteq> 0 then Ok (Some (Address addr), st) else stub_for B symbol st)
        else (case List.find (\<lambda>s. symbol = s) HOST_SYMBOLS of
            Some s \<Rightarrow> Ok (Some (Host_Function s), st)
          | None \<Rightarrow> if starts_with ''s3e'' symbol then stub_for B symbol st else Ok (None, st)))"

end
