(* ===== verification/Gl_Properties.thy ===== *)
theory Gl_Properties
  imports Gl_Frame
begin

unbundle bit_operations_syntax

text \<open>
  What is drawn over the guest's frames, how the guest's rectangles are mapped, and how the names of its
  image are resolved.
\<close>

section \<open>Rectangles\<close>

definition in_rect :: "rect \<Rightarrow> int \<times> int \<Rightarrow> bool" where
  "in_rect = (\<lambda>(x, y, w, h) (px, py). x \<le> px \<and> px < x + w \<and> y \<le> py \<and> py < y + h)"

definition drawable_rect :: "host_display \<Rightarrow> rect" where
  "drawable_rect d = (0, 0, uint (fb_width (g_native_window d)), uint (fb_height (g_native_window d)))"

definition surface_rect :: "host_display \<Rightarrow> rect" where
  "surface_rect d = (surface_x d, surface_y d, surface_width d, surface_height d)"

text \<open>The bounds of a geometry that the host has set.\<close>

lemma display_bounds:
  assumes "display_ok d"
  shows "0 \<le> surface_x d" "0 \<le> surface_y d" "0 < surface_width d" "0 < surface_height d"
    "surface_x d + surface_width d \<le> uint (fb_width (g_native_window d))"
    "surface_y d + surface_height d \<le> uint (fb_height (g_native_window d))"
proof -
  have u: "surface_width d = int (unat (sg_width (g_surface d)))" "surface_height d = int (unat (sg_height (g_surface d)))"
    "surface_x d = int (unat (sg_x (g_surface d)))" "surface_y d = int (unat (sg_y (g_surface d)))"
    by (simp_all add: surface_width_def surface_height_def surface_x_def surface_y_def)
  have U: "uint (fb_width (g_native_window d)) = int (unat (fb_width (g_native_window d)))"
    "uint (fb_height (g_native_window d)) = int (unat (fb_height (g_native_window d)))" by simp_all
  from assms have "0 < unat (sg_width (g_surface d))" "0 < unat (sg_height (g_surface d))"
    "unat (sg_x (g_surface d)) + unat (sg_width (g_surface d)) \<le> unat (fb_width (g_native_window d))"
    "unat (sg_y (g_surface d)) + unat (sg_height (g_surface d)) \<le> unat (fb_height (g_native_window d))"
    by (auto simp: display_ok_def Let_def)
  then show "0 \<le> surface_x d" "0 \<le> surface_y d" "0 < surface_width d" "0 < surface_height d"
    "surface_x d + surface_width d \<le> uint (fb_width (g_native_window d))"
    "surface_y d + surface_height d \<le> uint (fb_height (g_native_window d))"
    unfolding u U by linarith+
qed

section \<open>Clearing\<close>

text \<open>A step that clears some boxes with the current colour and mask while the test is on, and may move the box.\<close>

definition cleared :: "rect list \<Rightarrow> gl_host \<Rightarrow> gl_host \<Rightarrow> bool" where
  "cleared boxes st st' \<longleftrightarrow> (\<exists>box. st' = put_driver (\<lambda>g. g\<lparr>gd_scissor := box, gd_cleared := gd_cleared g @
     map (\<lambda>r. (gd_framebuffer g, Some r, gd_clear_color g, gd_color_mask g)) boxes\<rparr>) st)"

lemma cleared_none: "cleared [] st st"
  unfolding cleared_def by (rule exI[of _ "gd_scissor (gh_driver st)"]) (simp add: put_driver_def)

lemma cleared_one:
  assumes "gd_scissor_test (gh_driver st)" "0 < w" "0 < h"
  shows "cleared [(x, y, w, h)] st (gl_clear (gl_scissor (x, y, w, h) st))"
  using assms by (auto simp: cleared_def gl_clear_def gl_scissor_def put_driver_def)

lemma cleared_append:
  assumes "cleared a st st'" "cleared b st' st''"
  shows "cleared (a @ b) st st''"
proof -
  from assms obtain box where "st'' = put_driver (\<lambda>g. g\<lparr>gd_scissor := box, gd_cleared := gd_cleared g @
     map (\<lambda>r. (gd_framebuffer g, Some r, gd_clear_color g, gd_color_mask g)) b\<rparr>) st'" by (auto simp: cleared_def)
  with assms(1) show ?thesis unfolding cleared_def
    by (elim exE, intro exI[of _ box]) (simp add: put_driver_def)
qed

lemma cleared_test: "cleared a st st' \<Longrightarrow> gd_scissor_test (gh_driver st') = gd_scissor_test (gh_driver st)"
  by (auto simp: cleared_def put_driver_def)

text \<open>A list of rectangles of which each is clipped to a box, or is dropped.\<close>

lemma cleared_fold:
  assumes "\<And>r st. gd_scissor_test (gh_driver st) \<Longrightarrow> cleared (case clip r of None \<Rightarrow> [] | Some b \<Rightarrow> [b]) st (f r st)"
    and "gd_scissor_test (gh_driver st)"
  shows "cleared (List.map_filter clip rs) st (fold f rs st)"
  using assms(2)
proof (induction rs arbitrary: st)
  case Nil
  then show ?case by (simp add: cleared_none map_filter_def)
next
  case (Cons r rs)
  have one: "cleared (case clip r of None \<Rightarrow> [] | Some b \<Rightarrow> [b]) st (f r st)" using assms(1) Cons.prems by blast
  then have "gd_scissor_test (gh_driver (f r st))" using cleared_test Cons.prems by blast
  from cleared_append[OF one Cons.IH[OF this]] show ?case
    by (auto simp: map_filter_simps split: option.splits)
qed

definition letterbox_clip :: "rect \<Rightarrow> rect option" where
  "letterbox_clip = (\<lambda>(x, y, w, h). if 0 < w \<and> 0 < h then Some (x, y, w, h) else None)"

lemma letterbox_cleared:
  "gd_scissor_test (gh_driver st) \<Longrightarrow> cleared (case letterbox_clip r of None \<Rightarrow> [] | Some b \<Rightarrow> [b]) st (clear_letterbox_rect r st)"
  by (cases r) (auto simp: letterbox_clip_def clear_letterbox_rect_def cleared_one cleared_none)

text \<open>The part of a cursor's rectangle that lies in the surface, from the bottom of the drawable.\<close>

definition cursor_clip :: "host_display \<Rightarrow> rect \<Rightarrow> rect option" where
  "cursor_clip d = (\<lambda>(x, y, w, h).
     let left = max 0 x; top = max 0 y; right = min (x + w) (surface_width d); bottom = min (y + h) (surface_height d)
     in if 0 < w \<and> 0 < h \<and> left < right \<and> top < bottom
        then Some (surface_x d + left, surface_y d + (surface_height d - bottom), right - left, bottom - top) else None)"

lemma cursor_clear_rect_clip:
  "cursor_clear_rect d r st = (case cursor_clip d r of None \<Rightarrow> st | Some b \<Rightarrow> gl_clear (gl_scissor b st))"
proof -
  obtain x y w h where r: "r = (x, y, w, h)" by (cases r)
  define left top right bottom where "left = max 0 x" and "top = max 0 y" and
    "right = min (x + w) (surface_width d)" and "bottom = min (y + h) (surface_height d)"
  have e: "(if x < 0 then (0, w + x) else (x, w)) = (left, x + w - left)"
    "(if y < 0 then (0, h + y) else (y, h)) = (top, y + h - top)"
    "(if left + (x + w - left) > surface_width d then surface_width d - left else x + w - left) = right - left"
    "(if top + (y + h - top) > surface_height d then surface_height d - top else y + h - top) = bottom - top"
    "surface_height d - top - (bottom - top) = surface_height d - bottom"
    by (auto simp: left_def top_def right_def bottom_def)
  have "cursor_clear_rect d r st = (if w \<le> 0 \<or> h \<le> 0 then st else if right - left \<le> 0 \<or> bottom - top \<le> 0 then st
     else gl_clear (gl_scissor (surface_x d + left, surface_y d + (surface_height d - bottom), right - left, bottom - top) st))"
    unfolding cursor_clear_rect_def r prod.case Let_def e by (rule refl)
  moreover have "cursor_clip d r = (if 0 < w \<and> 0 < h \<and> left < right \<and> top < bottom
     then Some (surface_x d + left, surface_y d + (surface_height d - bottom), right - left, bottom - top) else None)"
    unfolding cursor_clip_def r prod.case Let_def left_def top_def right_def bottom_def by (rule refl)
  ultimately show ?thesis by auto
qed

lemma cursor_clip_positive: "cursor_clip d r = Some (x, y, w, h) \<Longrightarrow> 0 < w \<and> 0 < h"
  by (cases r) (auto simp: cursor_clip_def Let_def split: if_splits)

lemma cursor_cleared:
  "gd_scissor_test (gh_driver st) \<Longrightarrow>
    cleared (case cursor_clip d r of None \<Rightarrow> [] | Some b \<Rightarrow> [b]) st (cursor_clear_rect d r st)"
  using cursor_clip_positive cleared_one
  by (auto simp: cursor_clear_rect_clip cleared_none split: option.splits)

section \<open>The overlay\<close>

definition border_boxes :: "host_display \<Rightarrow> rect list" where
  "border_boxes d = (if surface_x d \<noteq> 0 \<or> surface_y d \<noteq> 0 then List.map_filter letterbox_clip (letterbox_rects d) else [])"

definition cursor_boxes :: "host_display \<Rightarrow> nat \<Rightarrow> nat \<Rightarrow> rect list" where
  "cursor_boxes d radius thickness =
     List.map_filter (cursor_clip d) (cursor_bars d (cursor_scaled_size d radius) (cursor_scaled_size d thickness))"

text \<open>What is cleared over a frame, in which colour.\<close>

definition overlay_clears :: "host_display \<Rightarrow> bool \<Rightarrow> (rect \<times> u32 list) list" where
  "overlay_clears d cursor_active =
     map (\<lambda>r. (r, black)) (border_boxes d) @
     (if cursor_active then map (\<lambda>r. (r, black)) (cursor_boxes d 10 5) @ map (\<lambda>r. (r, cursor_blue)) (cursor_boxes d 8 3) else [])"

definition scissor_legal :: "gl_host \<Rightarrow> bool" where
  "scissor_legal st \<longleftrightarrow> (case gd_scissor (gh_driver st) of (x, y, w, h) \<Rightarrow> 0 \<le> w \<and> 0 \<le> h)"

lemma overlay_effect:
  assumes "list_all (has_gl st) overlay_functions" "scissor_legal st"
  shows "frontend_overlay_gl_present d cursor_active st = put_driver (\<lambda>g. g\<lparr>gd_cleared := gd_cleared g @
    map (\<lambda>(r, color). (gd_framebuffer g, Some r, color, [True, True, True, True])) (overlay_clears d cursor_active)\<rparr>) st"
proof (cases "surface_x d \<noteq> 0 \<or> surface_y d \<noteq> 0 \<or> cursor_active")
  case False
  then show ?thesis by (simp add: frontend_overlay_gl_present_def overlay_clears_def border_boxes_def put_driver_def)
next
  case True
  let ?g = "gh_driver st" and ?all = "[True, True, True, True]"
  define s1 where "s1 = gl_clear_color black (gl_color_mask ?all (if \<not> gd_scissor_test ?g then gl_scissor_test True st else st))"
  define s2 where "s2 = (if surface_x d \<noteq> 0 \<or> surface_y d \<noteq> 0 then fold clear_letterbox_rect (letterbox_rects d) s1 else s1)"
  define bars where "bars r t = cursor_bars d (cursor_scaled_size d r) (cursor_scaled_size d t)" for r t
  define s3 where "s3 = fold (cursor_clear_rect d) (bars 10 5) (gl_clear_color black s2)"
  define s4 where "s4 = fold (cursor_clear_rect d) (bars 8 3) (gl_clear_color cursor_blue s3)"
  obtain box where scissor: "gd_scissor ?g = box" "case box of (x, y, w, h) \<Rightarrow> 0 \<le> w \<and> 0 \<le> h"
    using assms(2) by (auto simp: scissor_legal_def)
  have t1: "gd_scissor_test (gh_driver s1)" by (simp add: s1_def gl_clear_color_def gl_color_mask_def gl_scissor_test_def put_driver_def)
  have "cleared (border_boxes d) s1 s2"
    using cleared_fold[of letterbox_clip clear_letterbox_rect, OF letterbox_cleared t1] cleared_none
    by (simp add: border_boxes_def s2_def)
  then obtain b2 where s2: "s2 = put_driver (\<lambda>g. g\<lparr>gd_scissor := b2, gd_cleared := gd_cleared g @
     map (\<lambda>r. (gd_framebuffer g, Some r, gd_clear_color g, gd_color_mask g)) (border_boxes d)\<rparr>) s1" by (auto simp: cleared_def)
  have "gd_scissor_test (gh_driver (gl_clear_color black s2))" using t1 s2 by (simp add: put_driver_def gl_clear_color_def)
  from cleared_fold[of "cursor_clip d" "cursor_clear_rect d", OF cursor_cleared this]
  have "cleared (cursor_boxes d 10 5) (gl_clear_color black s2) s3" by (simp add: s3_def bars_def cursor_boxes_def)
  then obtain b3 where s3: "s3 = put_driver (\<lambda>g. g\<lparr>gd_scissor := b3, gd_cleared := gd_cleared g @
     map (\<lambda>r. (gd_framebuffer g, Some r, gd_clear_color g, gd_color_mask g)) (cursor_boxes d 10 5)\<rparr>) (gl_clear_color black s2)"
    by (auto simp: cleared_def)
  have "gd_scissor_test (gh_driver (gl_clear_color cursor_blue s3))" using t1 s2 s3 by (simp add: put_driver_def gl_clear_color_def)
  from cleared_fold[of "cursor_clip d" "cursor_clear_rect d", OF cursor_cleared this]
  have "cleared (cursor_boxes d 8 3) (gl_clear_color cursor_blue s3) s4" by (simp add: s4_def bars_def cursor_boxes_def)
  then obtain b4 where s4: "s4 = put_driver (\<lambda>g. g\<lparr>gd_scissor := b4, gd_cleared := gd_cleared g @
     map (\<lambda>r. (gd_framebuffer g, Some r, gd_clear_color g, gd_color_mask g)) (cursor_boxes d 8 3)\<rparr>) (gl_clear_color cursor_blue s3)"
    by (auto simp: cleared_def)
  define s5 where "s5 = (if cursor_active then s4 else s2)"
  have "frontend_overlay_gl_present d cursor_active st =
      (let st = gl_scissor box (gl_color_mask (gd_color_mask ?g) (gl_clear_color (gd_clear_color ?g) s5))
       in if \<not> gd_scissor_test ?g then gl_scissor_test False st else st)"
  proof -
    have n: "(\<not> (surface_x d \<noteq> 0 \<or> surface_y d \<noteq> 0) \<and> \<not> cursor_active) = False"
      "(\<not> list_all (has_gl st) overlay_functions) = False" using True assms(1) by auto
    show ?thesis
      unfolding frontend_overlay_gl_present_def Let_def n if_False s5_def s4_def s3_def s2_def s1_def bars_def scissor(1)
      by (rule refl)
  qed
  then show ?thesis
    using scissor s2 s3 s4
    by (simp add: Let_def s5_def s1_def overlay_clears_def put_driver_def gl_scissor_def gl_color_mask_def gl_clear_color_def
        gl_scissor_test_def split: prod.splits) 
qed

text \<open>Inside of a rectangle lie only points of another one; no point is in both.\<close>

definition within :: "rect \<Rightarrow> rect \<Rightarrow> bool" where
  "within = (\<lambda>(x, y, w, h) (X, Y, W, H). X \<le> x \<and> Y \<le> y \<and> x + w \<le> X + W \<and> y + h \<le> Y + H)"

definition apart :: "rect \<Rightarrow> rect \<Rightarrow> bool" where
  "apart = (\<lambda>(x, y, w, h) (X, Y, W, H). x + w \<le> X \<or> X + W \<le> x \<or> y + h \<le> Y \<or> Y + H \<le> y)"

lemma within_points: "within r R \<Longrightarrow> in_rect r p \<Longrightarrow> in_rect R p"
  by (auto simp: within_def in_rect_def)

lemma apart_points: "apart r R \<Longrightarrow> in_rect r p \<Longrightarrow> \<not> in_rect R p"
  by (auto simp: apart_def in_rect_def)

lemma in_map_filter: "b \<in> set (List.map_filter f xs) \<longleftrightarrow> (\<exists>x \<in> set xs. f x = Some b)"
  by (induction xs) (auto simp: map_filter_simps split: option.splits)

lemma border_places:
  assumes "display_ok d" "r \<in> set (border_boxes d)"
  shows "within r (drawable_rect d)" "apart r (surface_rect d)"
  using display_bounds[OF assms(1)] assms(2)
  by (auto simp: border_boxes_def in_map_filter letterbox_rects_def letterbox_clip_def within_def apart_def
      drawable_rect_def surface_rect_def Let_def split: if_splits)

lemma border_covers:
  assumes "display_ok d" "surface_x d \<noteq> 0 \<or> surface_y d \<noteq> 0" "in_rect (drawable_rect d) p" "\<not> in_rect (surface_rect d) p"
  shows "\<exists>r \<in> set (border_boxes d). in_rect r p"
proof -
  obtain px py where p: "p = (px, py)" by (cases p)
  let ?W = "uint (fb_width (g_native_window d))" and ?H = "uint (fb_height (g_native_window d))"
  let ?right = "surface_x d + surface_width d" and ?top = "surface_y d + surface_height d"
  have inside: "0 \<le> px" "px < ?W" "0 \<le> py" "py < ?H"
    and out: "px < surface_x d \<or> ?right \<le> px \<or> py < surface_y d \<or> ?top \<le> py"
    using assms(3,4) by (auto simp: in_rect_def drawable_rect_def surface_rect_def p)
  have boxes: "set (border_boxes d) = {r. \<exists>q \<in> set (letterbox_rects d). letterbox_clip q = Some r}"
    using assms(2) by (auto simp: border_boxes_def in_map_filter)
  have pick: "\<exists>r \<in> set (border_boxes d). in_rect r p"
    if "(x, y, w, h) \<in> set (letterbox_rects d)" "x \<le> px" "px < x + w" "y \<le> py" "py < y + h" for x y w h
  proof -
    have "letterbox_clip (x, y, w, h) = Some (x, y, w, h)" using that by (simp add: letterbox_clip_def)
    with that(1) have "(x, y, w, h) \<in> set (border_boxes d)" unfolding boxes by blast
    moreover have "in_rect (x, y, w, h) p" using that(2-5) by (simp add: in_rect_def p)
    ultimately show ?thesis by blast
  qed
  consider "px < surface_x d" | "?right \<le> px" | "surface_x d \<le> px" "px < ?right" "py < surface_y d"
    | "surface_x d \<le> px" "px < ?right" "?top \<le> py" using out by linarith
  then show ?thesis
  proof cases
    case 1
    show ?thesis by (rule pick[of 0 0 "surface_x d" ?H]) (use 1 inside in \<open>auto simp: letterbox_rects_def Let_def\<close>)
  next
    case 2
    show ?thesis by (rule pick[of ?right 0 "?W - ?right" ?H]) (use 2 inside in \<open>auto simp: letterbox_rects_def Let_def\<close>)
  next
    case 3
    show ?thesis by (rule pick[of "surface_x d" 0 "surface_width d" "surface_y d"]) (use 3 inside in \<open>auto simp: letterbox_rects_def Let_def\<close>)
  next
    case 4
    show ?thesis by (rule pick[of "surface_x d" ?top "surface_width d" "?H - ?top"])
        (use 4 inside in \<open>auto simp: letterbox_rects_def Let_def\<close>)
  qed
qed

lemma cursor_places: "r \<in> set (cursor_boxes d radius thickness) \<Longrightarrow> within r (surface_rect d)"
  by (auto simp: cursor_boxes_def in_map_filter cursor_clip_def Let_def within_def surface_rect_def split: if_splits)

text \<open>The driver and the host agree on what is bound.\<close>

definition binding_known :: "gl_host \<Rightarrow> bool" where
  "binding_known st \<longleftrightarrow> gd_framebuffer (gh_driver st) = g_bound_framebuffer st \<and> (g_bound_framebuffer st \<noteq> 0 \<longrightarrow> has_bind st)"

lemma present_effect:
  assumes "list_all (has_gl st) overlay_functions" "scissor_legal st" "binding_known st"
  shows "present_frame d cursor_active st = put_driver (\<lambda>g. g\<lparr>gd_cleared := gd_cleared g @
    map (\<lambda>(r, color). (0, Some r, color, [True, True, True, True])) (overlay_clears d cursor_active)\<rparr>) st"
proof (cases "g_bound_framebuffer st = 0")
  case True
  then have "gd_framebuffer (gh_driver st) = 0" using assms(3) by (simp add: binding_known_def)
  then show ?thesis using True overlay_effect[OF assms(1,2), of d cursor_active]
    by (simp add: present_frame_def Let_def put_driver_def)
next
  case False
  let ?s = "driver_bind_framebuffer 0 st"
  have b: "has_bind st" using False assms(3) by (simp add: binding_known_def)
  then have s: "?s = put_driver (\<lambda>d. d\<lparr>gd_framebuffer := 0\<rparr>) st" by (simp add: driver_bind_framebuffer_def)
  have "list_all (has_gl ?s) overlay_functions" "scissor_legal ?s"
    using assms(1,2) s by (simp_all add: has_gl_def[abs_def] put_driver_def scissor_legal_def)
  from overlay_effect[OF this, of d cursor_active]
  have o: "frontend_overlay_gl_present d cursor_active ?s = put_driver (\<lambda>g. g\<lparr>gd_cleared := gd_cleared g @
    map (\<lambda>(r, color). (gd_framebuffer g, Some r, color, [True, True, True, True])) (overlay_clears d cursor_active)\<rparr>) ?s" .
  have "has_bind (frontend_overlay_gl_present d cursor_active ?s)"
    using b s unfolding o by (simp add: has_bind_def has_gl_def put_driver_def)
  moreover have "gd_framebuffer (gh_driver st) = g_bound_framebuffer st" using assms(3) by (simp add: binding_known_def)
  ultimately show ?thesis
    using False o s by (simp add: present_frame_def Let_def driver_bind_framebuffer_def put_driver_def)
qed


definition sample_display :: host_display where
  "sample_display = \<lparr>g_native_window = \<lparr>fb_width = 640, fb_height = 490\<rparr>,
     g_surface = \<lparr>sg_x = 0, sg_y = 5, sg_width = 640, sg_height = 480\<rparr>,
     g_surface_pixels = None, g_pointer_x = 110, g_pointer_y = 150\<rparr>"

definition sample_gl :: gl_host where
  "sample_gl = \<lparr>gh_driver = \<lparr>gd_functions = (\<lambda>n. True), gd_framebuffer = 7, gd_scissor_test = False, gd_scissor = (0, 0, 9, 9),
     gd_viewport = (0, 0, 9, 9), gd_clear_color = cursor_blue, gd_color_mask = [True, False, True, True],
     gd_cleared = [], gd_calls = []\<rparr>, g_bound_framebuffer = 7, next_frame_us = 0\<rparr>"


text \<open>
  With one row to spare the surface is not moved, and the row that is left is never cleared: the height
  is cut as soon as it exceeds 3/4 of the width by one, while the width is allowed one column more.
\<close>

lemma spare_row_not_cleared:
  "\<exists>d. s3e_host_set_display_size (\<lambda>n. True) 640 481 display_initial = (True, d) \<and> display_ok d \<and>
    (\<exists>p. in_rect (drawable_rect d) p \<and> \<not> in_rect (surface_rect d) p \<and> (\<forall>r \<in> set (border_boxes d). \<not> in_rect r p))"
proof -
  obtain r d where d: "s3e_host_set_display_size (\<lambda>n. True) 640 481 display_initial = (r, d)" by fastforce
  have v: "r \<and> fb_height (g_native_window d) = 481 \<and> fb_width (g_native_window d) = 640 \<and>
      g_surface d = \<lparr>sg_x = 0, sg_y = 0, sg_width = 640, sg_height = 480\<rparr>"
    using d by (auto simp: s3e_host_set_display_size_def surface_size_def SIZE_MAX_def Let_def)
  then have "display_ok d" using display_size_accepted[OF d] by simp
  moreover have "in_rect (drawable_rect d) (0, 480) \<and> \<not> in_rect (surface_rect d) (0, 480) \<and> border_boxes d = []"
    using v by (simp add: in_rect_def drawable_rect_def surface_rect_def border_boxes_def surface_x_def surface_y_def
        surface_width_def surface_height_def)
  ultimately show ?thesis using d v by (intro exI[of _ d]) auto
qed

section \<open>The guest's rectangles\<close>

lemma i32_small: "0 \<le> x \<Longrightarrow> x < 2 ^ 31 \<Longrightarrow> i32 x = x"
  by (rule i32_id) simp_all

lemma u16_int: "0 \<le> uint (x :: u16)" "uint (x :: u16) < 65536"
  using uint_lt2p[of x] by simp_all

text \<open>A rectangle of the surface that is set and asked for comes back as it was.\<close>

lemma viewport_roundtrip:
  assumes "has_gl st ''glViewport''" "has_gl st ''glGetIntegerv''" "0 \<le> w" "0 \<le> h"
    and "g_bound_framebuffer st = 0 \<longrightarrow> 0 \<le> x \<and> 0 \<le> y \<and> x + w \<le> surface_width d \<and> y + h \<le> surface_height d"
  shows "host_glGetIntegerv d GL_VIEWPORT_VALUE (host_glViewport d (x, y, w, h) st) = Some (x, y, w, h)"
proof (cases "g_bound_framebuffer st = 0")
  case True
  have small: "surface_x d < 65536" "surface_y d < 65536" "surface_width d < 65536" "surface_height d < 65536"
    "0 \<le> surface_x d" "0 \<le> surface_y d"
    using u16_int by (simp_all add: surface_x_def surface_y_def surface_width_def surface_height_def)
  then have "i32 (x + surface_x d) = x + surface_x d" "i32 (y + surface_y d) = y + surface_y d"
    "i32 (x + surface_x d + w) = x + surface_x d + w" "i32 (y + surface_y d + h) = y + surface_y d + h"
    using assms(3-5) True by (auto intro!: i32_small)
  then show ?thesis using assms True
    by (auto simp: host_glGetIntegerv_def host_glViewport_def to_drawable_def gl_viewport_def put_driver_def has_gl_def
        map_drawable_rect_to_surface_def Let_def)
next
  case False
  then show ?thesis using assms
    by (simp add: host_glGetIntegerv_def host_glViewport_def to_drawable_def gl_viewport_def put_driver_def has_gl_def)
qed

end
