(* ===== verification/Gl_Resolve.thy ===== *)
theory Gl_Resolve
  imports Gl_Properties
begin

unbundle bit_operations_syntax

text \<open>
  The names of the guest's image: every name of the three interfaces is resolved, those that the host
  implements to their function, and the stubs of the rest never leave their memory. The pace of the frames.
\<close>

section \<open>Stubs\<close>

definition stub_words :: "stub_env \<Rightarrow> nat \<Rightarrow> u32 list" where
  "stub_words B i = [0xe59f0004, 0xe59ff004, 0xe1a00000, of_nat i, sb_dispatch B]"

text \<open>Each stub loads its own number; the memory has 4096 words and does not wrap around.\<close>

definition stub_ok :: "stub_env \<Rightarrow> stub_state \<Rightarrow> bool" where
  "stub_ok B st \<longleftrightarrow> g_stub_count st = length (g_stub_names st) \<and> g_stub_count st \<le> stub_names_size \<and>
     (if fst (g_stub_code st) = 0 then g_stub_count st = 0
      else unat (fst (g_stub_code st)) + stub_code_size < 2 ^ 32 \<and> length (snd (g_stub_code st)) = 4096 \<and>
        (\<forall>i < g_stub_count st. take 5 (drop (5 * i) (snd (g_stub_code st))) = stub_words B i))"

lemma write_words:
  assumes "at + 5 \<le> length code"
  shows "rfold (\<lambda>(i, v). write_word (at + i) v) [(0, a), (1, b), (2, c), (3, d), (4, e)] code =
    Ok (take at code @ [a, b, c, d, e] @ drop (at + 5) code)"
proof -
  have "length (take at code) = at" using assms by simp
  moreover obtain v w x y z rest where "drop at code = v # w # x # y # z # rest"
  proof -
    have "Suc (Suc (Suc (Suc (Suc 0)))) \<le> length (drop at code)" using assms by simp
    then show ?thesis using that unfolding Suc_le_length_iff by blast
  qed
  moreover have "code = take at code @ drop at code" by simp
  ultimately obtain p where p: "code = p @ v # w # x # y # z # rest" "length p = at" by metis
  then have "drop (at + 5) code = rest" "take at code = p" by auto
  then show ?thesis using p(2) unfolding p(1) by (auto simp: write_word_def list_update_append nth_append)
qed

lemma make_stub_ok:
  assumes "stub_ok B st" "unat (sb_mmap B) + stub_code_size < 2 ^ 32" "sb_default B \<noteq> 0"
  shows "\<exists>a st'. make_stub B symbol st = Ok (a, st') \<and> a \<noteq> 0 \<and> stub_ok B st'"
proof -
  define s where "s = (if fst (g_stub_code st) = 0
    then st\<lparr>g_stub_code := (sb_mmap B, if sb_mmap B = 0 then [] else replicate (stub_code_size div 4) 0)\<rparr> else st)"
  have s: "stub_ok B s" using assms(1,2) by (auto simp: s_def stub_ok_def stub_code_size_def)
  let ?n = "g_stub_count s" and ?base = "fst (g_stub_code s)" and ?code = "snd (g_stub_code s)"
  have unfolded: "make_stub B symbol st = (if ?base = 0 then Ok (sb_default B, s)
      else if ?n \<ge> stub_names_size \<or> (?n + 1) * STUB_SIZE > stub_code_size then Ok (sb_default B, s)
      else rbind (rfold (\<lambda>(i, v). write_word (?n * STUB_SIZE div 4 + i) v)
                [(0, 0xe59f0004), (1, 0xe59ff004), (2, 0xe1a00000), (3, of_nat ?n), (4, sb_dispatch B)] ?code) (\<lambda>code.
              Ok (?base + of_nat (?n * STUB_SIZE),
                  s\<lparr>g_stub_code := (?base, code), g_stub_names := g_stub_names s @ [symbol], g_stub_count := ?n + 1\<rparr>)))"
    by (simp add: make_stub_def s_def[symmetric] Let_def split_beta)
  show ?thesis
  proof (cases "?base = 0 \<or> ?n \<ge> stub_names_size \<or> (?n + 1) * STUB_SIZE > stub_code_size")
    case True
    then show ?thesis using s assms(3) unfolded by (metis (full_types))
  next
    case False
    then have n: "?n < 512" "length ?code = 4096" "unat ?base + 16384 < 2 ^ 32"
      using s by (auto simp: stub_ok_def stub_names_size_def stub_code_size_def)
    have at: "?n * STUB_SIZE div 4 = 5 * ?n" by (simp add: STUB_SIZE_def)
    define code where "code = take (5 * ?n) ?code @ stub_words B ?n @ drop (5 * ?n + 5) ?code"
    have "5 * ?n + 5 \<le> length ?code" using n by simp
    then have m: "make_stub B symbol st = Ok (?base + of_nat (?n * STUB_SIZE),
        s\<lparr>g_stub_code := (?base, code), g_stub_names := g_stub_names s @ [symbol], g_stub_count := ?n + 1\<rparr>)"
      using False unfolded unfolding at write_words[OF \<open>5 * ?n + 5 \<le> length ?code\<close>] by (simp add: code_def stub_words_def)
    have len: "length (stub_words B ?n) = 5" by (simp add: stub_words_def)
    have "take 5 (drop (5 * i) code) = stub_words B i" if "i < Suc ?n" for i
    proof (cases "i = ?n")
      case True
      then show ?thesis using n len by (simp add: code_def)
    next
      case False
      then have i: "i < ?n" using that by simp
      have "take 5 (drop (5 * i) code) = take 5 (drop (5 * i) (take (5 * ?n) ?code))"
        using n i by (simp add: code_def)
      also have "\<dots> = take 5 (drop (5 * i) ?code)" using i by (simp add: drop_take min_def)
      finally show ?thesis using s i False n \<open>\<not> (?base = 0 \<or> _)\<close> by (simp add: stub_ok_def)
    qed
    then have "stub_ok B (s\<lparr>g_stub_code := (?base, code), g_stub_names := g_stub_names s @ [symbol], g_stub_count := ?n + 1\<rparr>)"
      using s n False len by (simp add: stub_ok_def code_def stub_names_size_def stub_code_size_def)
    moreover have "?base + of_nat (?n * STUB_SIZE) \<noteq> 0"
    proof -
      have "unat (of_nat (?n * STUB_SIZE) :: u32) = ?n * STUB_SIZE" 
      proof -
        have "unat (of_nat k :: u32) = k" if "k < 2 ^ 32" for k using that by (simp add: unat_of_nat)
        from this[of "?n * STUB_SIZE"] n(1) show ?thesis by (simp only: STUB_SIZE_def) simp
      qed
      then have "unat (?base + of_nat (?n * STUB_SIZE)) = unat ?base + ?n * STUB_SIZE"
        using n by (subst unat_plus_simple[THEN iffD1]) (auto simp: no_olen_add_nat STUB_SIZE_def)
      moreover have "0 < unat ?base" using False by (simp add: unat_gt_0)
      ultimately show ?thesis by (metis add_is_0 less_irrefl unat_0)
    qed
    ultimately show ?thesis using m by blast
  qed
qed

section \<open>Names\<close>

lemma find_same_name: "List.find (\<lambda>s. x = s) xs = (if x \<in> set xs then Some x else None)"
  by (induction xs) auto

lemma find_egl_name: "List.find (\<lambda>s. s = x) xs = (if x \<in> set xs then Some x else None)"
  by (induction xs) auto

text \<open>The tables belong to different interfaces.\<close>

lemma host_names: "list_all (\<lambda>s. starts_with ''s3e'' s) HOST_SYMBOLS"
  by (simp add: HOST_SYMBOLS_def starts_with_def)

lemma wrapped_names: "list_all (\<lambda>s. starts_with ''gl'' s \<or> starts_with ''egl'' s) WRAPPED_SYMBOLS"
  by (simp add: WRAPPED_SYMBOLS_def starts_with_def)

lemma egl_names: "list_all (\<lambda>s. starts_with ''egl'' s) egl_symbols"
  by (simp add: egl_symbols_def starts_with_def)

lemma s3e_not_gl: "starts_with ''s3e'' s \<Longrightarrow> \<not> starts_with ''gl'' s \<and> \<not> starts_with ''egl'' s"
  by (cases s) (auto simp: starts_with_def)

lemma stub_for_ok:
  assumes "stub_ok B st" "unat (sb_mmap B) + stub_code_size < 2 ^ 32" "sb_default B \<noteq> 0"
  shows "\<exists>t st'. stub_for B symbol st = Ok (Some t, st') \<and> stub_ok B st'"
  using make_stub_ok[OF assms, of symbol] by (auto simp: stub_for_def at_address_def)



section \<open>The pace of the frames\<close>

text \<open>
  A frame ends at the first reading of the clock that has reached its due time. After a frame whose end is
  at the time \<open>t\<close> the next is due at most one interval after \<open>t\<close>, so that a frame never sleeps longer.
\<close>

lemma sleep_until_reaches:
  assumes "sleep_until_us target clock = Some rest"
  shows "\<exists>early now. clock = early @ now # rest \<and> target \<le> now \<and> (\<forall>t \<in> set early. t < target)"
  using assms
proof (induction target clock rule: sleep_until_us.induct)
  case (2 target now clock)
  then show ?case
    by (cases "target \<le> now") (fastforce intro: exI[of _ "[]"] exI[of _ "now # early" for early])+
qed simp

lemma pace_frame_ends:
  assumes "pace_frame (now # clock) st = Some (rest, st')"
  shows "\<exists>early t. clock = early @ t # rest \<and> next_frame_us st' - FRAME_INTERVAL_US \<le> t \<and>
    (\<forall>s \<in> set early. s < next_frame_us st' - FRAME_INTERVAL_US) \<and>
    next_frame_us st' - FRAME_INTERVAL_US =
      (if next_frame_us st = 0 \<or> now > next_frame_us st + FRAME_RESET_US then now + FRAME_INTERVAL_US else next_frame_us st)"
proof -
  define due where "due = (if next_frame_us st = 0 \<or> now > next_frame_us st + FRAME_RESET_US then now + FRAME_INTERVAL_US
    else next_frame_us st)"
  have "sleep_until_us due clock = Some rest \<and> next_frame_us st' = due + FRAME_INTERVAL_US"
    using assms by (auto simp: pace_frame_def Let_def due_def[symmetric] cong: if_cong)
  with sleep_until_reaches[of due clock rest] show ?thesis unfolding due_def[symmetric] by auto
qed

end
