(* ===== verification/Runtime.thy ===== *)
theory Runtime
  imports Timer Zeroconf Socket Audio Input Gl_Frame Memory File_Open
begin

unbundle bit_operations_syntax

text \<open>
  The host as a whole: the states of all components, the device interface of \<open>src/s3e_runtime.c\<close> that
  pumps them while the guest waits, and the start and the shutdown of \<open>src/s3e_host.c\<close>. The guest's
  callbacks act on the component that calls them.
\<close>

section \<open>The host's state\<close>

record host_world =
  hw_root :: cstring
  hw_input :: input_state
  hw_audio :: aud_state
  hw_zeroconf :: zc_state
  hw_socket :: sock_state
  hw_timer :: timer_state
  hw_memory :: mem_state
  hw_file :: file_state
  hw_egl :: egl_state
  hw_gl :: gl_host
  hw_stubs :: stub_state
  g_device_quit_requested :: bool

text \<open>
  What the outside does during one pass over the pumps: the systems, the guest's callbacks with the depth
  to which they may nest, and the clock when the timers run and when it is read afterwards.
\<close>

record pass_env =
  pe_depth :: nat
  pe_aud_os :: aud_os
  pe_aud_guest :: aud_guest
  pe_zc :: zc_platform
  pe_zc_guest :: zc_guest
  pe_sock_os :: sock_os
  pe_sock_guest :: sock_guest
  pe_sdl :: sdl_env
  pe_input_guest :: in_guest
  pe_timer_body :: "timer_event list \<Rightarrow> timer_event \<Rightarrow> timer_call list"
  pe_timer_now :: u64
  pe_now :: u64

section \<open>Waiting\<close>

definition pass_audio :: "pass_env \<Rightarrow> aud_state \<Rightarrow> aud_state" where
  "pass_audio E = audio_pump (Audio.run_callback (pe_depth E) (pe_aud_os E) (pe_aud_guest E)) (pe_aud_os E)"

definition pass_socket :: "pass_env \<Rightarrow> sock_state \<Rightarrow> sock_state" where
  "pass_socket E = s3e_socket_pump (Socket.run_callback (pe_depth E) (pe_sock_os E) (pe_sock_guest E)) (pe_sock_os E)"

definition pump_services :: "pass_env \<Rightarrow> host_world \<Rightarrow> host_world" where
  "pump_services E w =
     w\<lparr>hw_audio := pass_audio E (hw_audio w),
       hw_zeroconf := s3e_zero_conf_pump (pe_zc E) (pe_zc_guest E) (hw_zeroconf w),
       hw_socket := pass_socket E (hw_socket w)\<rparr>"

text \<open>33 rounds are enough for the 32 events there can be.\<close>

definition run_timers :: "pass_env \<Rightarrow> host_world \<Rightarrow> host_world" where
  "run_timers E w =
     (case dispatch_due_timers (pe_timer_body E) 33 (pe_timer_now E) (hw_timer w) of
        None \<Rightarrow> w
      | Some (fired, timer) \<Rightarrow> w\<lparr>hw_timer := timer\<rparr>)"

text \<open>
  The loop with one environment per pass; the result has the sleeps in milliseconds and the environments
  that are left. A list that ends before the deadline is a wait that has not returned.
\<close>

fun wait_loop :: "u64 \<Rightarrow> pass_env list \<Rightarrow> host_world \<Rightarrow> (u32 list \<times> pass_env list \<times> host_world) option" where
  "wait_loop deadline [] w = None"
| "wait_loop deadline (E # Es) w =
     (let w = run_timers E (pump_services E w) in
      if pe_now E \<ge> deadline then Some ([], Es, w)
      else let step = (let s = ucast (deadline - pe_now E) in if s > 10 then 10 else s)
        in map_option (\<lambda>(sleeps, Es, w). (step # sleeps, Es, w)) (wait_loop deadline Es w))"

definition wait_with_timers :: "u64 \<Rightarrow> u32 \<Rightarrow> pass_env list \<Rightarrow> host_world \<Rightarrow> (u32 list \<times> pass_env list \<times> host_world) option" where
  "wait_with_timers now ms Es w =
     (case wait_loop (now + ucast ms) Es w of
        Some (sleeps, E # Es, w) \<Rightarrow> Some (sleeps, Es, pump_services E w)
      | _ \<Rightarrow> None)"

text \<open>
  \<open>INT32_MIN\<close> stands for waiting until an event. The value that is returned is \<open>s3eTimerGetMs\<close> after the
  wait.
\<close>

definition INT32_MIN :: int where "INT32_MIN = - 2147483648"

definition s3eDeviceYield :: "u64 \<Rightarrow> int \<Rightarrow> pass_env \<Rightarrow> pass_env list \<Rightarrow> host_world \<Rightarrow> (u32 list \<times> pass_env list \<times> host_world) option" where
  "s3eDeviceYield now ms E Es w =
     (let w = pump_services E (w\<lparr>hw_input := input_pump (pe_sdl E) (pe_input_guest E) (hw_input w)\<rparr>) in
      if ms = INT32_MIN then Some ([1], Es, run_timers E w)
      else if ms > 0 then wait_with_timers now (of_int ms) Es w
      else Some ([], Es, run_timers E w))"

definition s3eDeviceYieldUntilEvent :: "u64 \<Rightarrow> int \<Rightarrow> pass_env \<Rightarrow> pass_env list \<Rightarrow> host_world \<Rightarrow> (u32 list \<times> pass_env list \<times> host_world) option" where
  "s3eDeviceYieldUntilEvent now ms = s3eDeviceYield now (if ms \<noteq> 0 then ms else INT32_MIN)"

text \<open>The drawing side of \<open>eglSwapBuffers\<close> works on the geometry and the cursor that the pumps have left.\<close>

definition host_eglSwapBuffers :: "pass_env \<Rightarrow> egl_env \<Rightarrow> u32 \<Rightarrow> u32 \<Rightarrow> u64 list \<Rightarrow> host_world \<Rightarrow> (u32 \<times> u64 list \<times> host_world) option" where
  "host_eglSwapBuffers P E display surface clock w =
     (let w = run_timers P (w\<lparr>hw_input := input_pump (pe_sdl P) (pe_input_guest P) (hw_input w)\<rparr>) in
      map_option (\<lambda>(result, clock, egl, gl). (result, clock, w\<lparr>hw_egl := egl, hw_gl := gl\<rparr>))
        (swap_frame E display surface (host_display.truncate (hw_input w)) (g_cursor_active (hw_input w)) clock
           (hw_egl w) (hw_gl w)))"

definition s3eDeviceCheckQuitRequest :: "pass_env \<Rightarrow> host_world \<Rightarrow> bool \<times> host_world" where
  "s3eDeviceCheckQuitRequest E w =
     (g_device_quit_requested w, w\<lparr>hw_audio := pass_audio E (hw_audio w)\<rparr>)"

definition s3eDeviceRequestQuit :: "host_world \<Rightarrow> host_world" where
  "s3eDeviceRequestQuit w = w\<lparr>g_device_quit_requested := True\<rparr>"

section \<open>What the device says of itself\<close>

definition s3eDeviceGetInt :: "u32 \<Rightarrow> int" where
  "s3eDeviceGetInt key = (if key = 0 then 0x12 else if key = 10 then 0x00080101 else 0)"

definition s3eDeviceGetString :: "string \<Rightarrow> u32 \<Rightarrow> string" where
  "s3eDeviceGetString device_id key =
     (if key = 0 then ''Android'' else if key = 2 then ''R800i'' else if key = 8 then ''ARM7A''
      else if key = 0x0d then ''4.1.2'' else if key = 0x13 then ''8.6'' else if key = 0x14 then ''en_US''
      else if key = 0x15 then ''Sony Ericsson Xperia Play'' else if key = 0x19 then device_id
      else if key = 0x1f \<or> key = 0x24 \<or> key = 0x25 then ''UTC'' else [])"

section \<open>External resources\<close>

definition IS_DEVICE_RESOURCES_SIZE :: nat where "IS_DEVICE_RESOURCES_SIZE = 0x728"
definition IS_DEVICE_RESOURCE_PATH_A :: nat where "IS_DEVICE_RESOURCE_PATH_A = 0x428"
definition IS_DEVICE_RESOURCE_PATH_B :: nat where "IS_DEVICE_RESOURCE_PATH_B = 0x527"
definition IS_DEVICE_RESOURCE_PATH_LEN :: nat where "IS_DEVICE_RESOURCE_PATH_LEN = 0xff"

definition put_bytes :: "nat \<Rightarrow> u8 list \<Rightarrow> u8 list \<Rightarrow> u8 list mem" where
  "put_bytes at bs buffer = (if at + length bs \<le> length buffer then Ok (buf_write buffer at bs) else Fault)"

definition isDeviceGetExternalResources :: "cstring \<Rightarrow> u8 list mem" where
  "isDeviceGetExternalResources root =
     (let resources = replicate IS_DEVICE_RESOURCES_SIZE 0;
          suffix = bytes_of ''/assets/'' @ [0];
          data_root_len = min (length root) (IS_DEVICE_RESOURCE_PATH_LEN - 2);
          expansion_root_len = min (length root) (IS_DEVICE_RESOURCE_PATH_LEN - length suffix)
      in rbind (put_bytes 0x10 [1] resources) (\<lambda>r.
         rbind (put_bytes IS_DEVICE_RESOURCE_PATH_A (take data_root_len root) r) (\<lambda>r.
         rbind (put_bytes (IS_DEVICE_RESOURCE_PATH_A + data_root_len) [slash] r) (\<lambda>r.
         rbind (put_bytes (IS_DEVICE_RESOURCE_PATH_A + data_root_len + 1) [0] r) (\<lambda>r.
         rbind (put_bytes IS_DEVICE_RESOURCE_PATH_B (take expansion_root_len root) r) (\<lambda>r.
         put_bytes (IS_DEVICE_RESOURCE_PATH_B + expansion_root_len) suffix r))))))"

section \<open>Extensions\<close>

definition S3E_TOUCHPAD_HASH :: u32 where "S3E_TOUCHPAD_HASH = 0x1dbd7ce8"
definition S3E_ZERO_CONF_HASH :: u32 where "S3E_ZERO_CONF_HASH = 0x9f590656"
definition IS_AUDIO_UNIT_HASH :: u32 where "IS_AUDIO_UNIT_HASH = 0x9b347d33"
definition IS_DEVICE_HASH :: u32 where "IS_DEVICE_HASH = 0xe7c6ef51"

definition audio_unit_table :: "string list" where
  "audio_unit_table = [''is_audio_unit_register'', ''is_audio_unit_unregister'', ''is_audio_unit_init'',
     ''is_audio_unit_terminate'', ''is_audio_unit_set_callbacks'', ''is_audio_unit_start'', ''is_audio_unit_stop'',
     ''s3eAudioPlay'', ''s3eAudioStop'', ''s3eAudioResume'', ''s3eAudioPause'', ''s3eAudioSetInt'', ''s3eAudioGetInt'']"

definition device_table :: "string list" where
  "device_table = [''isDeviceCallbackRegister'', ''isDeviceCallbackUnregister'', ''isDeviceSetTabletThreshold'',
     ''isDeviceGetDisplayType'', ''isDeviceGetExternalResources'']"

definition touchpad_table :: "string list" where
  "touchpad_table = [''s3eTouchpadRegister'', ''s3eTouchpadUnRegister'', ''s3eReturn0'', ''s3eReturn0'', ''s3eTouchpadGetInt'']"

definition zero_conf_table :: "string list" where
  "zero_conf_table = [''s3eZeroConfStartSearch'', ''s3eZeroConfStopSearch'', ''s3eZeroConfPublish'',
     ''s3eZeroConfUpdateTxtRecord'', ''s3eZeroConfUnpublish'']"

text \<open>
  The result and what is written to the interface of the caller: a table of functions (four bytes each),
  zeros, or nothing. \<open>has_iface\<close> says that the pointer is not \<open>NULL\<close>.
\<close>

datatype ext_write = Table "string list" | Zeros nat | Nothing

definition give_table :: "string list \<Rightarrow> bool \<Rightarrow> u32 \<Rightarrow> int \<times> ext_write" where
  "give_table table has_iface sz = (if has_iface \<and> unat sz = 4 * length table then (0, Table table) else (1, Nothing))"

definition is_audio_unit_get_interface :: "bool \<Rightarrow> u32 \<Rightarrow> int \<times> ext_write" where
  "is_audio_unit_get_interface has_iface sz =
     (if \<not> has_iface \<or> unat sz \<noteq> 4 * length audio_unit_table then (1, Nothing) else (0, Table audio_unit_table))"

definition s3eExtGetHash :: "u32 \<Rightarrow> bool \<Rightarrow> u32 \<Rightarrow> int \<times> ext_write" where
  "s3eExtGetHash hash has_iface sz =
     (if hash = IS_AUDIO_UNIT_HASH then is_audio_unit_get_interface has_iface sz
      else if hash = IS_DEVICE_HASH then give_table device_table has_iface sz
      else if hash = S3E_TOUCHPAD_HASH then give_table touchpad_table has_iface sz
      else if hash = S3E_ZERO_CONF_HASH then give_table zero_conf_table has_iface sz
      else (1, if has_iface \<and> sz > 0 then Zeros (unat sz) else Nothing))"

end
