(* ===== verification/Host.thy ===== *)
theory Host
  imports Runtime Zeroconf_Properties Socket_Properties Audio_Inv Input_Properties Egl_Properties Gl_Resolve File_Handles
begin

unbundle bit_operations_syntax

text \<open>
  Start and shutdown of the host (\<open>src/s3e_host.c\<close>), and what holds of all components together: while
  the guest waits the pumps keep every component's invariant, and a shutdown at any time leaves nothing
  that was acquired.
\<close>

section \<open>Start\<close>

text \<open>\<open>getcwd\<close> gives \<open>cwd\<close>, \<open>None\<close> for a failure.\<close>

definition host_root :: "cstring option \<Rightarrow> cstring option \<Rightarrow> cstring" where
  "host_root dir cwd =
     (case dir of
        Some (c # cs) \<Rightarrow> snprintf 1024 (c # cs)
      | _ \<Rightarrow> (case cwd of Some d \<Rightarrow> d | None \<Rightarrow> bytes_of ''.''))"

definition s3e_host_init :: "(nat \<Rightarrow> bool) \<Rightarrow> egl_env \<Rightarrow> cstring option \<Rightarrow> cstring option \<Rightarrow> host_world \<Rightarrow> bool \<times> host_world" where
  "s3e_host_init calloc_ok E dir cwd w =
     (let w = w\<lparr>hw_root := host_root dir cwd\<rparr>;
          size_of = (\<lambda>x. (ucast (fb_width (g_native_window x)) :: u32, ucast (fb_height (g_native_window x)) :: u32));
          (ok, input) = (if g_surface_pixels (hw_input w) \<noteq> None then (True, hw_input w)
                         else (case size_of (hw_input w) of (width, height) \<Rightarrow>
                                 s3e_host_set_display_size calloc_ok width height (hw_input w)));
          w = w\<lparr>hw_input := input\<rparr>
      in if \<not> ok then (False, w)
         else let (loaded, egl) = egl_backend_load_libraries E (hw_egl w) in (loaded, w\<lparr>hw_egl := egl\<rparr>))"

section \<open>Shutdown\<close>

definition clear_timers :: "timer_state \<Rightarrow> timer_state" where
  "clear_timers st = st\<lparr>g_timers := []\<rparr>"

definition close_all_memory_files :: "file_state \<Rightarrow> file_state" where
  "close_all_memory_files st = (fold close_handle (g_memory_files st) st)\<lparr>g_memory_files := []\<rparr>"

definition free_stubs :: "stub_state \<Rightarrow> stub_state" where
  "free_stubs st = \<lparr>g_stub_code = (0, []), g_stub_names = drop (g_stub_count st) (g_stub_names st), g_stub_count = 0\<rparr>"

definition s3e_host_shutdown :: "pass_env \<Rightarrow> mem_env \<Rightarrow> host_world \<Rightarrow> host_world" where
  "s3e_host_shutdown E M w =
     (let w = w\<lparr>hw_memory := snd (s3eMemorySetUserMemMgr M None (hw_memory w))\<rparr>;
          w = w\<lparr>hw_zeroconf := s3e_zero_conf_shutdown (pe_zc E) (hw_zeroconf w)\<rparr>;
          w = w\<lparr>hw_socket := s3e_socket_shutdown (pe_sock_os E) (hw_socket w)\<rparr>;
          w = w\<lparr>hw_audio := audio_shutdown (Audio.run_callback (pe_depth E) (pe_aud_os E) (pe_aud_guest E)) (pe_aud_os E) (hw_audio w)\<rparr>;
          w = w\<lparr>hw_input := input_shutdown (pe_input_guest E) (hw_input w)\<rparr>;
          w = w\<lparr>hw_egl := egl_backend_shutdown (hw_egl w)\<rparr>;
          w = w\<lparr>hw_timer := clear_timers (hw_timer w)\<rparr>;
          w = w\<lparr>hw_file := close_all_memory_files (hw_file w)\<rparr>;
          w = w\<lparr>hw_input := (hw_input w)\<lparr>g_surface_pixels := None\<rparr>\<rparr>;
          w = w\<lparr>hw_memory := s3e_memory_shutdown (hw_memory w)\<rparr>
      in w\<lparr>hw_stubs := free_stubs (hw_stubs w),
           hw_egl := (hw_egl w)\<lparr>g_egl := False, g_gles1 := False, g_gles2 := False\<rparr>\<rparr>)"

section \<open>Events\<close>

text \<open>Everything that may happen between the start and the shutdown.\<close>

datatype host_event =
    In_Input in_guest input_input
  | In_Audio nat aud_os aud_guest aud_input
  | In_Zeroconf zc_platform zc_guest zc_input
  | In_Socket nat sock_os sock_guest sock_input
  | In_Timer timer_call
  | In_Memory mem_env mem_call
  | In_File file_call
  | In_Egl egl_env egl_call
  | Stub stub_env string
  | Swap pass_env egl_env u32 u32 "u64 list"
  | Yield u64 int pass_env "pass_env list"

text \<open>A yield that has not returned is no step; the guest's own handles of files are part of the state.\<close>

fun host_step :: "host_event \<Rightarrow> host_world \<times> nat set \<Rightarrow> host_world \<times> nat set" where
  "host_step (In_Input guest e) (w, hs) = (w\<lparr>hw_input := input_step guest e (hw_input w)\<rparr>, hs)"
| "host_step (In_Audio d os guest e) (w, hs) = (w\<lparr>hw_audio := aud_step d os guest e (hw_audio w)\<rparr>, hs)"
| "host_step (In_Zeroconf pf guest e) (w, hs) = (w\<lparr>hw_zeroconf := zc_step pf guest e (hw_zeroconf w)\<rparr>, hs)"
| "host_step (In_Socket d os guest e) (w, hs) = (w\<lparr>hw_socket := sock_step d os guest e (hw_socket w)\<rparr>, hs)"
| "host_step (In_Timer c) (w, hs) = (w\<lparr>hw_timer := timer_step c (hw_timer w)\<rparr>, hs)"
| "host_step (In_Memory M c) (w, hs) = (w\<lparr>hw_memory := mem_step M c (hw_memory w)\<rparr>, hs)"
| "host_step (In_File c) (w, hs) =
     (case file_step c (hw_file w, hs) of Ok (st, hs) \<Rightarrow> (w\<lparr>hw_file := st\<rparr>, hs) | _ \<Rightarrow> (w, hs))"
| "host_step (In_Egl E c) (w, hs) = (w\<lparr>hw_egl := egl_step (E, c) (hw_egl w)\<rparr>, hs)"
| "host_step (Stub B symbol) (w, hs) =
     (case make_stub B symbol (hw_stubs w) of Ok (addr, st) \<Rightarrow> (w\<lparr>hw_stubs := st\<rparr>, hs) | _ \<Rightarrow> (w, hs))"
| "host_step (Swap P E d s clock) (w, hs) =
     (case host_eglSwapBuffers P E d s clock w of None \<Rightarrow> (w, hs) | Some (result, rest, w) \<Rightarrow> (w, hs))"
| "host_step (Yield now ms E Es) (w, hs) =
     (case s3eDeviceYield now ms E Es w of None \<Rightarrow> (w, hs) | Some (sleeps, rest, w) \<Rightarrow> (w, hs))"

text \<open>The allocator gives fresh blocks, and the records of memory files can be allocated.\<close>

fun event_ok :: "host_event \<Rightarrow> bool" where
  "event_ok (In_Memory M c) = calloc_contract M"
| "event_ok (In_File c) = tracks c"
| "event_ok e = True"

section \<open>The invariant of all components\<close>

definition host_ok :: "host_world \<times> nat set \<Rightarrow> bool" where
  "host_ok = (\<lambda>(w, hs). input_ok (hw_input w) \<and> aud_ok False (hw_audio w) \<and>
     zc_ok {#} (hw_zeroconf w) \<and> g_callback_depth (hw_zeroconf w) = 0 \<and> sock_ok {} {} (hw_socket w) \<and>
     timers_ok (g_timers (hw_timer w)) \<and> heaps_ok (hw_memory w) \<and> owned (hw_file w, hs) \<and> egl_ok (hw_egl w) \<and>
     length (g_stub_names (hw_stubs w)) = g_stub_count (hw_stubs w))"

lemma pass_audio_step: "pass_audio E = aud_step (pe_depth E) (pe_aud_os E) (pe_aud_guest E) Audio_pump"
  by (simp add: pass_audio_def fun_eq_iff)

lemma pass_socket_step: "pass_socket E = sock_step (pe_depth E) (pe_sock_os E) (pe_sock_guest E) Sock_pump"
  by (simp add: pass_socket_def fun_eq_iff)

lemma zc_pump_ok:
  assumes "zc_ok {#} st" "g_callback_depth st = 0"
  shows "zc_ok {#} (s3e_zero_conf_pump pf guest st) \<and> g_callback_depth (s3e_zero_conf_pump pf guest st) = 0"
  using pump_ok[OF assms(1), of pf guest] assms(2) by (simp add: keeps_ok_def)

lemma services_ok: "host_ok (w, hs) \<Longrightarrow> host_ok (pump_services E w, hs)"
  using aud_ok_step sock_ok_step zc_pump_ok
  by (simp add: host_ok_def pump_services_def pass_audio_step pass_socket_step del: aud_step.simps sock_step.simps)

lemma timers_run_ok: "host_ok (w, hs) \<Longrightarrow> host_ok (run_timers E w, hs)"
  using dispatch_loop_ok
  by (auto simp: host_ok_def run_timers_def dispatch_due_timers_def split: option.splits)

lemma wait_loop_ok:
  "host_ok (w, hs) \<Longrightarrow> wait_loop deadline Es w = Some (sleeps, rest, w') \<Longrightarrow> host_ok (w', hs)"
proof (induction deadline Es w arbitrary: sleeps rule: wait_loop.induct)
  case (2 deadline E Es w)
  have ok: "host_ok (run_timers E (pump_services E w), hs)" using 2(2) services_ok timers_run_ok by blast
  show ?case
  proof (cases "pe_now E \<ge> deadline")
    case True
    then show ?thesis using 2(3) ok by simp
  next
    case False
    then show ?thesis using 2(3) 2(1)[OF refl _ _ ok] by (fastforce simp: Let_def)
  qed
qed simp

lemma input_pump_ok:
  assumes "host_ok (w, hs)"
  shows "host_ok (w\<lparr>hw_input := input_pump (pe_sdl E) (pe_input_guest E) (hw_input w)\<rparr>, hs)"
  using well_formed.machine.step_inv[of "hw_input w" "pe_input_guest E" "Input_pump (pe_sdl E)"] assms
  by (simp add: host_ok_def)

lemma swap_buffers_ok:
  assumes "host_ok (w, hs)" "host_eglSwapBuffers P E d s clock w = Some (result, rest, w')"
  shows "host_ok (w', hs)"
proof -
  have ok: "host_ok (run_timers P (w\<lparr>hw_input := input_pump (pe_sdl P) (pe_input_guest P) (hw_input w)\<rparr>), hs)"
    by (intro timers_run_ok input_pump_ok assms(1))
  then show ?thesis using assms(2) swap_ok[of _ E d s]
    by (auto simp: host_eglSwapBuffers_def swap_frame_def host_ok_def Let_def split: prod.splits) (metis snd_conv)
qed

lemma yield_ok:
  assumes "host_ok (w, hs)" "s3eDeviceYield now ms E Es w = Some (sleeps, rest, w')"
  shows "host_ok (w', hs)"
proof -
  have s: "host_ok (pump_services E (w\<lparr>hw_input := input_pump (pe_sdl E) (pe_input_guest E) (hw_input w)\<rparr>), hs)"
    by (intro services_ok input_pump_ok assms(1))
  show ?thesis using assms(2) s timers_run_ok services_ok wait_loop_ok[OF s]
    by (auto simp: s3eDeviceYield_def Let_def wait_with_timers_def split: if_splits option.splits list.splits)
qed

lemma make_stub_names:
  assumes "length (g_stub_names st) = g_stub_count st" "make_stub B symbol st = Ok (a, st')"
  shows "length (g_stub_names st') = g_stub_count st'"
  using assms by (auto simp: make_stub_def Let_def rbind_eq_Ok simp del: rfold.simps split: if_splits prod.splits)

lemma host_step_ok:
  assumes ok: "host_ok (w, hs)" and e: "event_ok e"
  shows "host_ok (host_step e (w, hs))"
proof (cases e)
  case (In_File c)
  then obtain s where "file_step c (hw_file w, hs) = Ok s" "owned s"
    using file_call_owned[of c "(hw_file w, hs)"] ok e by (auto simp: host_ok_def)
  with In_File ok show ?thesis by (cases s) (simp add: host_ok_def)
next
  case (Stub B symbol)
  with ok make_stub_names[of "hw_stubs w" B symbol] show ?thesis
    by (auto simp: host_ok_def split: res.splits)
next
  case (Swap P E d s clock)
  with ok swap_buffers_ok[OF ok] show ?thesis by (auto split: option.splits)
next
  case (Yield now ms E Es)
  with ok yield_ok[OF ok] show ?thesis by (auto split: option.splits)
next
  case (In_Input guest i)
  with ok well_formed.machine.step_inv[of "hw_input w" guest i] show ?thesis by (simp add: host_ok_def)
next
  case (In_Audio d os guest i)
  with ok aud_ok_step[of "hw_audio w" d os guest i] show ?thesis by (simp add: host_ok_def del: aud_step.simps)
next
  case (In_Zeroconf pf guest i)
  with ok zeroconf_machine.step_inv[of "hw_zeroconf w" pf guest i] depth_step[of "hw_zeroconf w" pf guest i]
  show ?thesis by (simp add: host_ok_def del: zc_step.simps)
next
  case (In_Socket d os guest i)
  with ok sock_ok_step[of "hw_socket w" d os guest i] show ?thesis by (simp add: host_ok_def del: sock_step.simps)
next
  case (In_Timer c)
  with ok timer_machine.step_inv[of "hw_timer w" c] show ?thesis by (simp add: host_ok_def del: timer_step.simps)
next
  case (In_Memory M c)
  with ok e mem_step_ok[of M "hw_memory w" c] show ?thesis by (simp add: host_ok_def)
next
  case (In_Egl E c)
  with ok egl_step_ok[of "hw_egl w" "(E, c)"] show ?thesis by (simp add: host_ok_def)
qed

interpretation host: invariant_machine "\<lambda>e s. if event_ok e then host_step e s else s" host_ok
proof
  fix s e
  assume "host_ok s"
  then show "host_ok (if event_ok e then host_step e s else s)" using host_step_ok by (cases s) simp
qed

section \<open>Everything is released\<close>

definition mem_start :: mem_state where
  "mem_start = \<lparr>g_memory_error = 0, g_user_mem_mgr = \<lparr>um_alloc = 0, um_realloc = 0, um_free = 0\<rparr>,
     g_user_mem_mgr_set = False, g_heaps = replicate 8 no_heap, mm_live = {}, mm_bad_free = False\<rparr>"

definition host_start :: "(string \<Rightarrow> cstring option) \<Rightarrow> host_files \<Rightarrow> cstring set \<Rightarrow> gl_host \<Rightarrow> host_world" where
  "host_start vars files dirs gl =
     \<lparr>hw_root = [], hw_input = input_initial, hw_audio = aud_initial, hw_zeroconf = zc_initial, hw_socket = sock_initial,
      hw_timer = \<lparr>g_timers = [], g_timer_sequence = 0\<rparr>, hw_memory = mem_start, hw_file = file_start files dirs,
      hw_egl = egl_start vars, hw_gl = gl,
      hw_stubs = \<lparr>g_stub_code = (0, []), g_stub_names = [], g_stub_count = 0\<rparr>, g_device_quit_requested = False\<rparr>"

lemma host_start_ok: "host_ok (host_start vars files dirs gl, {})"
proof -
  have "heaps_ok mem_start" by (auto simp: heaps_ok_def mem_start_def no_heap_def)
  moreover have "g_callback_depth zc_initial = 0" by (simp add: zc_initial_def)
  moreover have "timers_ok []" by (simp add: timers_ok_def)
  ultimately show ?thesis
    using input_initial_ok aud_initial_ok zc_initial_ok sock_initial_ok start_owned egl_start_ok
    by (simp add: host_ok_def host_start_def)
qed

lemma close_handles_open:
  "fl_open (fold close_handle xs st) h = (if h \<in> set xs then None else fl_open st h)"
  by (induction xs arbitrary: st) (auto simp: close_handle_def)

lemma memory_files_closed:
  assumes "owned (st, hs)"
  shows "g_memory_files (close_all_memory_files st) = []" "fl_open (close_all_memory_files st) h \<noteq> Some (Memory_File b)"
  using assms by (auto simp: close_all_memory_files_def close_handles_open owned_def handles_ok_def)

lemma host_run_ok:
  "list_all event_ok events \<Longrightarrow> host_ok s \<Longrightarrow> host_ok (fold host_step events s)"
proof (induction events arbitrary: s)
  case (Cons e events)
  then show ?case using host_step_ok by (cases s) simp
qed simp


definition sample_events :: "mem_env \<Rightarrow> host_event list" where
  "sample_events M =
     [In_Timer (SetTimer 0 True 5 1 2),
      In_Memory \<lparr>me_calloc = (\<lambda>sz live. if live = {} then Some 7 else None), me_base = me_base M\<rparr> (Heap_Create 1),
      In_File (Call_Open sample_env (Some (bytes_of ''data-etc/b.bin'')) None)]"

lemma sample_events_ok: "list_all event_ok (sample_events M)"
  by (simp add: sample_events_def calloc_contract_def sample_env_def)


section \<open>Waiting ends\<close>

lemma wait_loop_returns:
  assumes "k < length Es" "deadline \<le> pe_now (Es ! k)"
    "\<And>i. i < k \<Longrightarrow> pe_now (Es ! i) < deadline"
  shows "\<exists>w'. wait_loop deadline Es w = Some
    (map (\<lambda>i. let s = ucast (deadline - pe_now (Es ! i)) in if s > 10 then 10 else s) [0..<k], drop (k + 1) Es, w')"
  using assms
proof (induction k arbitrary: Es w)
  case 0
  then show ?case by (cases Es) (simp_all add: Let_def)
next
  case (Suc k)
  from Suc.prems(1) obtain E Es' where Es: "Es = E # Es'" by (cases Es) auto
  have "\<not> deadline \<le> pe_now E" using Suc.prems(3)[of 0] Es by simp
  moreover obtain w' where "wait_loop deadline Es' (run_timers E (pump_services E w)) = Some
      (map (\<lambda>i. let s = ucast (deadline - pe_now (Es' ! i)) in if s > 10 then 10 else s) [0..<k], drop (k + 1) Es', w')"
    using Suc.IH[of Es' "run_timers E (pump_services E w)"] Suc.prems(1,2) Suc.prems(3)[of "Suc i" for i] Es by auto
  moreover have "[0..<Suc k] = 0 # map Suc [0..<k]" by (metis map_Suc_upt upt_conv_Cons zero_less_Suc)
  ultimately show ?case by (simp add: Es Let_def)
qed

lemma sleep_length:
  fixes deadline t :: u64
  assumes "t < deadline" "unat deadline - unat t < 2 ^ 32"
  shows "unat (let s = ucast (deadline - t) :: u32 in if s > 10 then 10 else s) = min 10 (unat deadline - unat t)"
proof -
  have "unat (deadline - t) = unat deadline - unat t" using assms(1) by (simp add: unat_sub order_less_imp_le)
  then have "unat (ucast (deadline - t) :: u32) = unat deadline - unat t"
    using assms(2) by (simp add: unsigned_ucast_eq take_bit_nat_eq_self)
  then show ?thesis by (simp add: Let_def word_less_nat_alt)
qed

text \<open>C32: A yield ends with the first pass whose clock has reached the deadline: the guest that yields for
  \<open>ms\<close> milliseconds returns after the passes before it, having slept once in each, for the time that was left
  but never longer than ten milliseconds and never for nothing.\<close>

theorem yield_ends_at_deadline:
  assumes ms: "0 < ms" "ms < 2 ^ 31" "unat now + nat ms < 2 ^ 64"
    and k: "k + 1 < length Es" "unat (pe_now (Es ! k)) \<ge> unat now + nat ms"
    and before: "\<And>i. i < k \<Longrightarrow> now \<le> pe_now (Es ! i) \<and> unat (pe_now (Es ! i)) < unat now + nat ms"
  shows "\<exists>sleeps w'. s3eDeviceYield now ms E Es w = Some (sleeps, drop (k + 2) Es, w') \<and> length sleeps = k \<and>
    (\<forall>i < k. unat (sleeps ! i) = min 10 (unat now + nat ms - unat (pe_now (Es ! i))) \<and> 0 < unat (sleeps ! i))"
proof -
  define v where "v = pump_services E (w\<lparr>hw_input := input_pump (pe_sdl E) (pe_input_guest E) (hw_input w)\<rparr>)"
  define deadline where "deadline = now + (ucast (of_int ms :: u32) :: u64)"
  have "(of_int ms :: u32) = of_nat (nat ms)" using ms(1) by simp
  moreover have "unat (of_nat (nat ms) :: u32) = nat ms"
    using ms(2) by (subst unsigned_of_nat) (simp add: take_bit_nat_eq_self nat_less_iff)
  ultimately have "unat (of_int ms :: u32) = nat ms" by metis
  then have d: "unat deadline = unat now + nat ms"
    using ms by (simp add: deadline_def unat_add_lem[THEN iffD1] unsigned_ucast_eq take_bit_nat_eq_self)
  have le: "deadline \<le> pe_now (Es ! k)" using k(2) d by (simp add: word_le_nat_alt)
  have lt: "pe_now (Es ! i) < deadline \<and> now \<le> pe_now (Es ! i)" if "i < k" for i using before[OF that] d by (simp add: word_less_nat_alt)
  obtain w' where w': "wait_loop deadline Es v = Some
      (map (\<lambda>i. let s = ucast (deadline - pe_now (Es ! i)) in if s > 10 then 10 else s) [0..<k], drop (k + 1) Es, w')"
    using wait_loop_returns[OF _ le] k(1) lt by fastforce
  have F: "drop (k + 1) Es = Es ! (k + 1) # drop (k + 2) Es"
    using Cons_nth_drop_Suc[of "k + 1" Es] k(1) by simp
  have len: "unat (let s = ucast (deadline - pe_now (Es ! i)) :: u32 in if s > 10 then 10 else s)
      = min 10 (unat now + nat ms - unat (pe_now (Es ! i)))" if "i < k" for i
  proof -
    have "a \<le> p \<Longrightarrow> m \<le> 2 ^ 31 \<Longrightarrow> a + m - p < 2 ^ 32" for a m p :: nat by simp
    then have "unat deadline - unat (pe_now (Es ! i)) < 2 ^ 32"
      using d lt[OF that] nat_mono[of ms "2 ^ 31"] ms(2) by (simp add: word_le_nat_alt)
    then show ?thesis using sleep_length[of "pe_now (Es ! i)" deadline] lt[OF that] d by simp
  qed
  show ?thesis
    using w' F ms(1) len lt d
    by (simp add: s3eDeviceYield_def v_def[symmetric] deadline_def[symmetric] wait_with_timers_def INT32_MIN_def
        word_less_nat_alt)
qed

lemma yield_ends_at_deadline_witness:
  "\<forall>E w. \<exists>sleeps w'. s3eDeviceYield 100 12 E [E\<lparr>pe_now := 105\<rparr>, E\<lparr>pe_now := 112\<rparr>, E] w = Some (sleeps, [], w') \<and>
     length sleeps = 1 \<and> unat (sleeps ! 0) = 7"
proof (intro allI)
  fix E w
  show "\<exists>sleeps w'. s3eDeviceYield 100 12 E [E\<lparr>pe_now := 105\<rparr>, E\<lparr>pe_now := 112\<rparr>, E] w = Some (sleeps, [], w') \<and>
      length sleeps = 1 \<and> unat (sleeps ! 0) = 7"
    using yield_ends_at_deadline[of 12 100 1 "[E\<lparr>pe_now := 105\<rparr>, E\<lparr>pe_now := 112\<rparr>, E]" E w] by fastforce
qed

section \<open>External resources\<close>

text \<open>The two paths fit the record of the device's resources, whatever the root.\<close>

lemma external_resources_fit: "isDeviceGetExternalResources dir \<noteq> Fault"
proof -
  have step: "put_bytes i bs b \<noteq> Fault" "\<And>r. put_bytes i bs b = Ok r \<Longrightarrow> length r = length b" if "i + length bs \<le> length b"
    for i and bs b :: "u8 list"
    using that by (auto simp: put_bytes_def buf_write_def)
  have chain: "rbind (put_bytes i bs b) f \<noteq> Fault"
    if "i + length bs \<le> length b" "\<And>r. length r = length b \<Longrightarrow> f r \<noteq> Fault" for i bs f and b :: "u8 list"
    using that step[OF that(1)] by (auto simp: rbind_eq_Fault)
  have suffix: "length (bytes_of ''/assets/'' @ [0]) = 9" by (simp add: bytes_of_def)
  show ?thesis
    unfolding isDeviceGetExternalResources_def Let_def
    by (intro chain step(1))
      (simp_all add: IS_DEVICE_RESOURCES_SIZE_def IS_DEVICE_RESOURCE_PATH_A_def IS_DEVICE_RESOURCE_PATH_B_def
        IS_DEVICE_RESOURCE_PATH_LEN_def bytes_of_def)
qed

end
