(* ===== verification/Apk_Crc.thy ===== *)
theory Apk_Crc
  imports Prelude
begin

unbundle bit_operations_syntax

text \<open>
  The checksum of \<open>tools/apk_extract/codboz_apk_extract.c\<close>: the table, its use byte by byte, and that
  this computes the shift register of the standard, which sees any change of up to four bytes in a row.
\<close>

section \<open>Table\<close>

definition crc_shift :: "u32 \<Rightarrow> u32" where
  "crc_shift c = (if c AND 1 \<noteq> 0 then 0xedb88320 XOR drop_bit 1 c else drop_bit 1 c)"

definition crc32_init :: "u32 list" where
  "crc32_init = map (\<lambda>i. (crc_shift ^^ 8) (of_nat i)) [0..<256]"

definition crc32_byte :: "u8 \<Rightarrow> u32 \<Rightarrow> u32" where
  "crc32_byte b crc = crc32_init ! unat ((crc XOR ucast b) AND 0xff) XOR drop_bit 8 crc"

definition crc32_update :: "u32 \<Rightarrow> u8 list \<Rightarrow> u32" where
  "crc32_update crc data = fold crc32_byte data (crc XOR 0xffffffff) XOR 0xffffffff"

section \<open>The shift register\<close>

definition crc_bit :: "bool \<Rightarrow> u32 \<Rightarrow> u32" where
  "crc_bit b c = (if bit c 0 \<noteq> b then drop_bit 1 c XOR 0xedb88320 else drop_bit 1 c)"

definition bits_of_byte :: "u8 \<Rightarrow> bool list" where
  "bits_of_byte b = map (bit b) [0..<8]"

definition crc_register :: "u8 list \<Rightarrow> u32" where
  "crc_register data = NOT (fold crc_bit (concat (map bits_of_byte data)) (NOT 0))"

section \<open>The step of the table\<close>

lemma crc_shift_bit: "crc_shift c = (if bit c 0 then 0xedb88320 XOR drop_bit 1 c else drop_bit 1 c)"
  by (simp add: crc_shift_def and_one_eq bit_0 odd_iff_mod_2_eq_one)

lemma crc_shift_xor: "crc_shift (a XOR b) = crc_shift a XOR crc_shift b"
  by (rule bit_eqI) (auto simp: crc_shift_bit bit_simps)

lemma crc_shifts_xor: "(crc_shift ^^ n) (a XOR b) = (crc_shift ^^ n) a XOR (crc_shift ^^ n) b"
  by (induction n) (simp_all add: crc_shift_xor)

lemma crc_shifts_push: "n \<le> m \<Longrightarrow> m \<le> 32 \<Longrightarrow> (crc_shift ^^ n) (push_bit m c) = drop_bit n (push_bit m c)"
proof (induction n)
  case (Suc n)
  then have "\<not> bit (drop_bit n (push_bit m c)) 0" by (simp add: bit_simps)
  then show ?case using Suc by (simp add: crc_shift_bit)
qed simp

lemma byte_split: "c = take_bit 8 c XOR push_bit 8 (drop_bit 8 c)" for c :: u32
  by (rule bit_eqI) (auto simp: bit_simps)

lemma crc_table: "crc32_init ! unat (c AND 0xff) = (crc_shift ^^ 8) (take_bit 8 c)"
proof -
  have t: "c AND 0xff = take_bit 8 c" by (simp add: take_bit_eq_mask mask_eq_exp_minus_1)
  have "unat (take_bit 8 c) < 256"
    using take_bit_nat_less_exp[of 8 "unat c"] by (simp add: unsigned_take_bit_eq)
  then show ?thesis by (simp add: t crc32_init_def)
qed

lemma drop_push_drop: "drop_bit 8 (push_bit 8 (drop_bit 8 c)) = drop_bit 8 c" for c :: u32
  by (rule bit_eqI) (auto simp: bit_simps dest: bit_imp_le_length)

lemma crc32_byte_shifts: "crc32_byte b c = (crc_shift ^^ 8) (c XOR ucast b)"
proof -
  define x where "x = c XOR ucast b"
  have "drop_bit 8 x = drop_bit 8 c" unfolding x_def by (rule bit_eqI) (auto simp: bit_simps dest: bit_imp_le_length)
  then have "crc32_byte b c = (crc_shift ^^ 8) (take_bit 8 x) XOR (crc_shift ^^ 8) (push_bit 8 (drop_bit 8 x))"
    unfolding crc32_byte_def x_def[symmetric] by (simp add: crc_table crc_shifts_push drop_push_drop)
  then show ?thesis using byte_split[of x] by (simp add: crc_shifts_xor[symmetric] x_def)
qed

lemma crc32_update_append: "crc32_update (crc32_update crc xs) ys = crc32_update crc (xs @ ys)"
  by (simp add: crc32_update_def xor.assoc)

section \<open>Table and register\<close>

lemma crc_bit_shift: "crc_bit v c = crc_shift (c XOR of_bool v)"
  by (cases v) (auto simp: crc_bit_def crc_shift_bit bit_simps xor.commute intro!: bit_eqI)

lemma bit_push_1: "bit (push_bit 1 x) n \<longleftrightarrow> 0 < n \<and> n < 32 \<and> bit x (n - 1)" for x :: u32
  by (auto simp only: bit_push_bit_iff possible_bit_word len_num0 Suc_le_eq One_nat_def) simp_all

lemma register_byte:
  "k \<le> 8 \<Longrightarrow> fold crc_bit (map (bit b) [k..<8]) c = (crc_shift ^^ (8 - k)) (c XOR ucast (drop_bit k b))" for b :: u8
proof (induction "8 - k" arbitrary: k c)
  case 0
  then have k: "k = 8" by simp
  then have "drop_bit k b = 0" by (intro bit_eqI) (auto simp: bit_simps dest: bit_imp_le_length)
  then show ?case using k by simp
next
  case (Suc n)
  then have k: "k < 8" "n = 8 - Suc k" by auto
  have e: "ucast (drop_bit k b) = (of_bool (bit b k) :: u32) XOR push_bit 1 (ucast (drop_bit (Suc k) b))"
  proof (rule bit_eqI)
    fix n
    assume "possible_bit TYPE(u32) n"
    then show "bit (ucast (drop_bit k b) :: u32) n = bit ((of_bool (bit b k) :: u32) XOR push_bit 1 (ucast (drop_bit (Suc k) b))) n"
      unfolding bit_xor_iff bit_push_1
      by (cases n) (auto simp: bit_simps dest: bit_imp_le_length)
  qed
  have d: "drop_bit 1 (push_bit 1 (ucast (drop_bit (Suc k) b))) = (ucast (drop_bit (Suc k) b) :: u32)"
  proof (rule bit_eqI)
    fix n
    show "bit (drop_bit 1 (push_bit 1 (ucast (drop_bit (Suc k) b))) :: u32) n = bit (ucast (drop_bit (Suc k) b) :: u32) n"
      unfolding bit_drop_bit_eq comp_def bit_push_1 by (auto simp: bit_simps dest: bit_imp_le_length)
  qed
  have p: "crc_shift (push_bit 1 (ucast (drop_bit (Suc k) b))) = ucast (drop_bit (Suc k) b)"
  proof -
    have one: "(crc_shift ^^ 1) x = crc_shift x" for x by simp
    show ?thesis using crc_shifts_push[of 1 1 "ucast (drop_bit (Suc k) b)"] unfolding one d by simp
  qed
  have "fold crc_bit (map (bit b) [k..<8]) c = fold crc_bit (map (bit b) [Suc k..<8]) (crc_bit (bit b k) c)"
    using k(1) by (simp add: upt_conv_Cons)
  also have "\<dots> = (crc_shift ^^ n) (crc_shift (c XOR of_bool (bit b k)) XOR ucast (drop_bit (Suc k) b))"
    using Suc(1)[of "Suc k" "crc_bit (bit b k) c"] k by (simp add: crc_bit_shift)
  also have "crc_shift (c XOR of_bool (bit b k)) XOR ucast (drop_bit (Suc k) b) =
      crc_shift (c XOR ucast (drop_bit k b))"
    by (simp only: e crc_shift_xor p xor.assoc)
  finally show ?case using Suc(2)[symmetric] by (simp add: funpow_swap1)
qed

lemma register_table: "fold crc_bit (bits_of_byte b) c = crc32_byte b c"
  using register_byte[of 0 b c] by (simp add: bits_of_byte_def crc32_byte_shifts)

lemma crc32_is_register: "crc32_update 0 data = crc_register data"
proof -
  have "fold crc_bit (concat (map bits_of_byte data)) c = fold crc32_byte data c" for c
    by (induction data arbitrary: c) (simp_all add: register_table)
  moreover have "x XOR 0xffffffff = NOT x" for x :: u32
  proof -
    have "(0xffffffff :: u32) = - 1" by simp
    moreover have "x XOR - 1 = NOT x" by (rule bit_eqI) (simp add: bit_simps)
    ultimately show ?thesis by (simp only:)
  qed
  ultimately show ?thesis by (simp add: crc32_update_def crc_register_def)
qed

section \<open>What the checksum sees\<close>

text \<open>The step can be undone: its top bit tells which branch it took.\<close>

lemma xor_cancel: "a XOR x = b XOR x \<longleftrightarrow> a = b" and xor_zero: "a XOR b = 0 \<longleftrightarrow> a = b" for a b x :: u32
  by (auto simp: bit_eq_iff bit_simps)

lemma crc_shift_inj: "crc_shift a = crc_shift b \<Longrightarrow> a = b"
proof -
  have zero: "c = 0" if "crc_shift c = 0" for c
  proof -
    have "\<not> bit (drop_bit 1 c) 31" by (auto simp: bit_drop_bit_eq dest: bit_imp_le_length)
    moreover have "bit (0xedb88320 :: u32) 31" by simp
    ultimately have top: "bit (0xedb88320 XOR drop_bit 1 c) 31" unfolding bit_xor_iff by blast
    have even: "\<not> bit c 0"
    proof
      assume "bit c 0"
      then have "crc_shift c = 0xedb88320 XOR drop_bit 1 c" by (simp only: crc_shift_bit if_True)
      then have "bit (crc_shift c) 31" using top by (simp only:)
      then show False using that by (simp only: bit_0_eq bot_apply bot_bool_def)
    qed
    then have d: "drop_bit 1 c = 0" using that by (simp only: crc_shift_bit if_False)
    have "\<not> bit c n" for n
    proof (cases n)
      case (Suc m)
      have "bit c (Suc m) = bit (drop_bit 1 c) m" by (simp only: bit_drop_bit_eq comp_def plus_1_eq_Suc)
      then show ?thesis unfolding Suc d by (simp only: bit_0_eq bot_apply bot_bool_def) simp
    qed (use even in simp)
    then show "c = 0" by (intro bit_eqI) (simp only: bit_0_eq bot_apply bot_bool_def)
  qed
  assume "crc_shift a = crc_shift b"
  then have "crc_shift (a XOR b) = 0" by (simp add: crc_shift_xor)
  from zero[OF this] show "a = b" by (simp only: xor_zero)
qed

lemma crc_shifts_inj: "(crc_shift ^^ n) a = (crc_shift ^^ n) b \<Longrightarrow> a = b"
  by (induction n) (auto dest: crc_shift_inj)

lemma crc32_bytes_inj: "fold crc32_byte data a = fold crc32_byte data b \<Longrightarrow> a = b"
proof (induction data arbitrary: a b)
  case (Cons x data)
  then have "crc32_byte x a = crc32_byte x b" by simp
  then have "a XOR ucast x = b XOR ucast x" by (auto simp: crc32_byte_shifts dest: crc_shifts_inj)
  then have "a = b" by (simp add: xor_cancel)
  then show ?case .
qed simp

lemma crc32_sees_byte: "crc32_update 0 (xs @ [a] @ ys) = crc32_update 0 (xs @ [b] @ ys) \<longleftrightarrow> a = b"
proof
  assume "crc32_update 0 (xs @ [a] @ ys) = crc32_update 0 (xs @ [b] @ ys)"
  then have "crc32_byte a c = crc32_byte b c" if "c = fold crc32_byte xs (0 XOR 0xffffffff)" for c
    using that by (auto simp: crc32_update_def xor_cancel dest: crc32_bytes_inj)
  then have "c XOR ucast a = c XOR ucast b" if "c = fold crc32_byte xs (0 XOR 0xffffffff)" for c
    using that crc_shifts_inj[of 8 "c XOR ucast a" "c XOR ucast b"] by (simp add: crc32_byte_shifts)
  then have e: "(ucast a :: u32) = ucast b" using xor_cancel by (metis xor.commute)
  show "a = b"
  proof (rule bit_eqI)
    fix n
    assume "possible_bit TYPE(u8) n"
    then show "bit a n = bit b n" using arg_cong[OF e, of "\<lambda>w. bit w n"] by (simp add: bit_simps)
  qed
qed simp

text \<open>C35: The table-driven checksum of the extraction tool is the one of the standard: over any data it computes the
  shift register that takes one bit at a time with the reflected polynomial. It may be computed in
  pieces, as the tool does, and two files that differ in one byte never have the same checksum.\<close>

theorem crc32_is_the_standard:
  "crc32_update 0 data = crc_register data \<and>
   crc32_update (crc32_update crc xs) ys = crc32_update crc (xs @ ys) \<and>
   (crc32_update 0 (xs @ [a] @ ys) = crc32_update 0 (xs @ [b] @ ys) \<longleftrightarrow> a = b)"
  using crc32_is_register crc32_update_append crc32_sees_byte by blast

end
