(* ===== verification/Apk.thy ===== *)
theory Apk
  imports Apk_Crc "HOL-Library.Sublist"
begin

unbundle bit_operations_syntax

text \<open>
  The extraction tool \<open>tools/apk_extract/codboz_apk_extract.c\<close>: it reads the directory of a ZIP file, writes
  the stored files below \<open>assets/\<close> to a directory, unpacks the game's image, and finds an address in it.

  A file is the list of its bytes. The first error ends the program; it carries the message and the files as
  they are then. A read fails only at the end of the file. The APK is read from the contents it had when it
  was opened, and a path names a file without regard to links. \<open>LzmaDecode\<close> is a parameter.
\<close>

section \<open>The outside\<close>

record apk_fs =
  ap_files :: "cstring \<Rightarrow> u8 list option"
  ap_dirs :: "cstring set"

text \<open>
  \<open>ax_mkdir\<close> tells whether a directory is there after \<open>mkdir\<close>, \<open>ax_fwrite\<close> how much of the given chunk is
  written; \<open>ax_lzma\<close> gets the properties, the packed data and the size that is expected.
\<close>

record apk_env =
  ax_malloc :: "nat \<Rightarrow> bool"
  ax_mkdir :: "cstring \<Rightarrow> bool"
  ax_fopen :: "cstring \<Rightarrow> bool"
  ax_fwrite :: "nat \<Rightarrow> nat"
  ax_fclose :: "cstring \<Rightarrow> bool"
  ax_long_max :: nat
  ax_lzma :: "u8 list \<Rightarrow> u8 list \<Rightarrow> nat \<Rightarrow> bool \<times> u8 list"

section \<open>Data\<close>

definition ZIP_EOCD_SIG :: u32 where "ZIP_EOCD_SIG = 0x06054b50"
definition ZIP_CENTRAL_SIG :: u32 where "ZIP_CENTRAL_SIG = 0x02014b50"
definition ZIP_LOCAL_SIG :: u32 where "ZIP_LOCAL_SIG = 0x04034b50"
definition ZIP_METHOD_STORED :: u16 where "ZIP_METHOD_STORED = 0"
definition ZIP_FLAG_ENCRYPTED :: u16 where "ZIP_FLAG_ENCRYPTED = 0x0001"
definition ZIP64_SENTINEL_32 :: u32 where "ZIP64_SENTINEL_32 = 0xffffffff"
definition ZIP64_SENTINEL_16 :: u16 where "ZIP64_SENTINEL_16 = 0xffff"
definition COPY_BUFFER_SIZE :: nat where "COPY_BUFFER_SIZE = 65536"
definition MAX_ZIP_COMMENT :: nat where "MAX_ZIP_COMMENT = 65535"
definition LZMA_HEADER_SIZE :: nat where "LZMA_HEADER_SIZE = 13"
definition MAX_OUTPUT_SIZE :: nat where "MAX_OUTPUT_SIZE = 64 * 1024 * 1024"

record zip_entry =
  ze_name :: cstring
  ze_flags :: u16
  ze_method :: u16
  ze_crc32 :: u32
  ze_compressed_size :: u32
  ze_uncompressed_size :: u32
  ze_local_header_offset :: u32

definition rd16 :: "u8 list \<Rightarrow> u16" where
  "rd16 p = ucast (p ! 0) OR push_bit 8 (ucast (p ! 1))"

definition rd32 :: "u8 list \<Rightarrow> u32" where
  "rd32 p = ucast (p ! 0) OR push_bit 8 (ucast (p ! 1)) OR push_bit 16 (ucast (p ! 2)) OR push_bit 24 (ucast (p ! 3))"

definition rd64 :: "u8 list \<Rightarrow> u64" where
  "rd64 p = fold (\<lambda>i v. v OR push_bit (8 * i) (ucast (p ! i))) [0..<8] 0"

section \<open>Reading\<close>

definition xmalloc :: "apk_env \<Rightarrow> nat \<Rightarrow> (string, unit) res" where
  "xmalloc E n = (if ax_malloc E (if n \<noteq> 0 then n else 1) then Ok () else Err ''malloc'')"

definition file_size :: "apk_env \<Rightarrow> u8 list \<Rightarrow> (string, nat) res" where
  "file_size E data = (if length data > ax_long_max E then Err ''tell'' else Ok (length data))"

text \<open>The bytes and the position after them.\<close>

definition read_exact :: "u8 list \<Rightarrow> nat \<Rightarrow> nat \<Rightarrow> (string, u8 list \<times> nat) res" where
  "read_exact data pos n = (if n = 0 \<or> pos + n \<le> length data then Ok (take n (drop pos data), pos + n) else Err ''read'')"

definition seek_abs :: "apk_env \<Rightarrow> nat \<Rightarrow> (string, nat) res" where
  "seek_abs E offset = (if offset > ax_long_max E then Err ''file offset is too large for this platform'' else Ok offset)"

section \<open>The directory of the archive\<close>

definition eocd_at :: "u8 list \<Rightarrow> nat \<Rightarrow> (string, bool) res" where
  "eocd_at tail pos =
     rbind (bytes_at tail pos 4) (\<lambda>sig.
       if rd32 sig \<noteq> ZIP_EOCD_SIG then Ok False
       else rbind (bytes_at tail (pos + 20) 2) (\<lambda>c. Ok (pos + 22 + unat (rd16 c) = length tail)))"

fun eocd_scan :: "u8 list \<Rightarrow> nat \<Rightarrow> (string, nat option) res" where
  "eocd_scan tail 0 = rbind (eocd_at tail 0) (\<lambda>b. Ok (if b then Some 0 else None))"
| "eocd_scan tail (Suc pos) =
     rbind (eocd_at tail (Suc pos)) (\<lambda>b. if b then Ok (Some (Suc pos)) else eocd_scan tail pos)"

definition find_eocd :: "apk_env \<Rightarrow> u8 list \<Rightarrow> nat \<Rightarrow> (string, nat) res" where
  "find_eocd E apk sz =
     (let tail_size = (if sz < MAX_ZIP_COMMENT + 22 then sz else MAX_ZIP_COMMENT + 22) in
      rbind (xmalloc E tail_size) (\<lambda>_.
      rbind (seek_abs E (sz - tail_size)) (\<lambda>pos.
      rbind (read_exact apk pos tail_size) (\<lambda>(tail, _).
      rbind (eocd_scan tail (size_sub tail_size 22)) (\<lambda>r.
        case r of Some pos \<Rightarrow> Ok (sz - tail_size + pos)
        | None \<Rightarrow> Err ''APK does not contain a valid ZIP end record'')))))"

text \<open>
  The loop over the central directory. \<open>capacity\<close> is the number of items that the array holds.
\<close>

definition entry_of :: "u8 list \<Rightarrow> cstring \<Rightarrow> zip_entry" where
  "entry_of header name =
     \<lparr>ze_name = name, ze_flags = rd16 (drop 8 header), ze_method = rd16 (drop 10 header), ze_crc32 = rd32 (drop 16 header),
      ze_compressed_size = rd32 (drop 20 header), ze_uncompressed_size = rd32 (drop 24 header),
      ze_local_header_offset = rd32 (drop 42 header)\<rparr>"

definition variable_len :: "u8 list \<Rightarrow> nat" where
  "variable_len header = unat (rd16 (drop 28 header)) + unat (rd16 (drop 30 header)) + unat (rd16 (drop 32 header))"

function read_central :: "apk_env \<Rightarrow> u8 list \<Rightarrow> nat \<Rightarrow> nat \<Rightarrow> nat \<Rightarrow> nat \<Rightarrow> zip_entry list \<Rightarrow> (string, zip_entry list) res" where
  "read_central E apk central_size capacity pos consumed items =
     (if consumed \<ge> central_size then Ok items
      else case read_exact apk pos 46 of Err e \<Rightarrow> Err e | Fault \<Rightarrow> Fault
      | Ok (header, pos) \<Rightarrow>
        if rd32 header \<noteq> ZIP_CENTRAL_SIG then Err ''invalid ZIP central directory entry''
        else if consumed + 46 + variable_len header > central_size then Err ''truncated ZIP central directory entry''
        else let name_len = unat (rd16 (drop 28 header)) in
          case rbind (xmalloc E (name_len + 1)) (\<lambda>_. read_exact apk pos name_len) of Err e \<Rightarrow> Err e | Fault \<Rightarrow> Fault
          | Ok (name, _) \<Rightarrow>
            if length items \<ge> capacity then Fault
            else read_central E apk central_size capacity (pos + variable_len header) (consumed + 46 + variable_len header)
                   (items @ [entry_of header (cstr name)]))"
  by pat_completeness auto
termination
  by (relation "measure (\<lambda>(E, apk, central_size, capacity, pos, consumed, items). central_size - consumed)") auto

declare read_central.simps [simp del]

definition read_zip_entries :: "apk_env \<Rightarrow> u8 list \<Rightarrow> (string, zip_entry list) res" where
  "read_zip_entries E apk =
     rbind (file_size E apk) (\<lambda>sz.
     if sz < 22 then Err ''APK is too small to be a ZIP file''
     else rbind (find_eocd E apk sz) (\<lambda>eocd_offset.
     rbind (seek_abs E eocd_offset) (\<lambda>pos.
     rbind (read_exact apk pos 22) (\<lambda>(eocd, _).
     if rd16 (drop 4 eocd) \<noteq> 0 \<or> rd16 (drop 6 eocd) \<noteq> 0 then Err ''multi-disk ZIP/APK files are not supported''
     else let entry_count_disk = rd16 (drop 8 eocd); entry_count_total = rd16 (drop 10 eocd);
              central_size = rd32 (drop 12 eocd); central_offset = rd32 (drop 16 eocd)
       in if entry_count_disk \<noteq> entry_count_total then Err ''inconsistent ZIP central directory entry count''
          else if entry_count_total = ZIP64_SENTINEL_16 \<or> central_size = ZIP64_SENTINEL_32 \<or> central_offset = ZIP64_SENTINEL_32
            then Err ''ZIP64 APK files are not supported''
          else if unat central_offset + unat central_size > sz then Err ''ZIP central directory is outside the APK''
          else rbind (xmalloc E (unat entry_count_total * 32)) (\<lambda>_.
               rbind (seek_abs E (unat central_offset)) (\<lambda>pos.
               read_central E apk (unat central_size) (unat entry_count_total) pos 0 []))))))"

definition local_data_offset :: "apk_env \<Rightarrow> u8 list \<Rightarrow> zip_entry \<Rightarrow> (string, nat) res" where
  "local_data_offset E apk entry =
     rbind (seek_abs E (unat (ze_local_header_offset entry))) (\<lambda>pos.
     rbind (read_exact apk pos 30) (\<lambda>(header, _).
     if rd32 header \<noteq> ZIP_LOCAL_SIG then Err ''invalid ZIP local file header''
     else Ok (unat (ze_local_header_offset entry) + 30 + unat (rd16 (drop 26 header)) + unat (rd16 (drop 28 header)))))"

section \<open>Writing\<close>

text \<open>The program ends: with the message and the files as they are.\<close>

type_synonym 'a run = "(string \<times> apk_fs, 'a) res"

definition fatal :: "string \<Rightarrow> apk_fs \<Rightarrow> 'a run" where
  "fatal message fs = Err (message, fs)"

fun or_fatal :: "apk_fs \<Rightarrow> (string, 'a) res \<Rightarrow> 'a run" where
  "or_fatal fs (Ok x) = Ok x"
| "or_fatal fs (Err e) = fatal e fs"
| "or_fatal fs Fault = Fault"

definition put_file :: "cstring \<Rightarrow> u8 list \<Rightarrow> apk_fs \<Rightarrow> apk_fs" where
  "put_file path data fs = fs\<lparr>ap_files := (ap_files fs)(path \<mapsto> data)\<rparr>"

definition append_file :: "cstring \<Rightarrow> u8 list \<Rightarrow> apk_fs \<Rightarrow> apk_fs" where
  "append_file path data fs = put_file path ((case ap_files fs path of None \<Rightarrow> [] | Some d \<Rightarrow> d) @ data) fs"

definition mkdir_one :: "apk_env \<Rightarrow> cstring \<Rightarrow> apk_fs \<Rightarrow> apk_fs run" where
  "mkdir_one E path fs = (if ax_mkdir E path then Ok (fs\<lparr>ap_dirs := insert path (ap_dirs fs)\<rparr>) else fatal ''mkdir'' fs)"

definition mkdirs_for_file :: "apk_env \<Rightarrow> cstring \<Rightarrow> apk_fs \<Rightarrow> apk_fs run" where
  "mkdirs_for_file E path fs =
     rbind (or_fatal fs (xmalloc E (length path + 1))) (\<lambda>_.
     rfold (\<lambda>i fs. if path ! i = slash then mkdir_one E (take i path) fs else Ok fs) [1..<length path] fs)"

definition is_safe_asset_name :: "cstring \<Rightarrow> bool" where
  "is_safe_asset_name name \<longleftrightarrow>
     \<not> (length name \<le> 7 \<or> take 7 name \<noteq> bytes_of ''assets/'') \<and>
     \<not> (hd name = slash \<or> sublist (bytes_of ''../'') name \<or> sublist (bytes_of ''/..'') name \<or> sublist (bytes_of ''//'') name)"

definition should_extract_asset :: "cstring \<Rightarrow> bool" where
  "should_extract_asset name = is_safe_asset_name name"

definition join_asset_path :: "cstring \<Rightarrow> cstring \<Rightarrow> cstring" where
  "join_asset_path asset_dir zip_name =
     (let relative = drop 7 zip_name in snprintf (length asset_dir + 1 + length relative + 1) (asset_dir @ [slash] @ relative))"

text \<open>The loop that copies chunk by chunk; \<open>i\<close> counts them. Its result is the checksum.\<close>

function copy_chunks :: "apk_env \<Rightarrow> u8 list \<Rightarrow> cstring \<Rightarrow> nat \<Rightarrow> nat \<Rightarrow> nat \<Rightarrow> u32 \<Rightarrow> apk_fs \<Rightarrow> (u32 \<times> apk_fs) run" where
  "copy_chunks E apk out_path pos remaining i crc fs =
     (if remaining = 0 then Ok (crc, fs)
      else let chunk = (if remaining > COPY_BUFFER_SIZE then COPY_BUFFER_SIZE else remaining) in
        case read_exact apk pos chunk of Err e \<Rightarrow> fatal e fs | Fault \<Rightarrow> Fault
        | Ok (buffer, pos) \<Rightarrow>
          let written = min chunk (ax_fwrite E i); fs = append_file out_path (take written buffer) fs
          in if written \<noteq> chunk then fatal ''write'' fs
             else copy_chunks E apk out_path pos (remaining - chunk) (i + 1) (crc32_update crc buffer) fs)"
  by pat_completeness auto
termination
  by (relation "measure (\<lambda>(E, apk, out_path, pos, remaining, i, crc, fs). remaining)") (auto simp: COPY_BUFFER_SIZE_def)

declare copy_chunks.simps [simp del]

definition copy_stored_entry :: "apk_env \<Rightarrow> u8 list \<Rightarrow> cstring \<Rightarrow> zip_entry \<Rightarrow> apk_fs \<Rightarrow> apk_fs run" where
  "copy_stored_entry E apk asset_dir entry fs =
     (if \<not> should_extract_asset (ze_name entry) then Ok fs
      else if ze_flags entry AND ZIP_FLAG_ENCRYPTED \<noteq> 0 then Ok fs
      else if ze_method entry \<noteq> ZIP_METHOD_STORED then Ok fs
      else let out_path = join_asset_path asset_dir (ze_name entry) in
        rbind (or_fatal fs (xmalloc E (length out_path + 1))) (\<lambda>_.
        rbind (mkdirs_for_file E out_path fs) (\<lambda>fs.
        rbind (or_fatal fs (local_data_offset E apk entry)) (\<lambda>data_offset.
        rbind (or_fatal fs (seek_abs E data_offset)) (\<lambda>pos.
        if \<not> ax_fopen E out_path then fatal ''open'' fs
        else let fs = put_file out_path [] fs in
          rbind (or_fatal fs (xmalloc E COPY_BUFFER_SIZE)) (\<lambda>_.
          rbind (copy_chunks E apk out_path pos (unat (ze_compressed_size entry)) 0 0 fs) (\<lambda>(crc, fs).
          if \<not> ax_fclose E out_path then fatal ''close'' fs
          else if crc \<noteq> ze_crc32 entry then fatal ''CRC mismatch while extracting APK asset'' fs
          else Ok fs)))))))"

section \<open>Unpacking\<close>

definition read_whole_file :: "apk_env \<Rightarrow> cstring \<Rightarrow> apk_fs \<Rightarrow> u8 list run" where
  "read_whole_file E path fs =
     (case ap_files fs path of
        None \<Rightarrow> fatal ''open'' fs
      | Some data \<Rightarrow>
        rbind (or_fatal fs (file_size E data)) (\<lambda>size64.
        if size64 > 2 ^ 32 - 1 then fatal ''file is too large'' fs
        else rbind (or_fatal fs (xmalloc E size64)) (\<lambda>_.
             rbind (or_fatal fs (read_exact data 0 size64)) (\<lambda>(bytes, _). Ok bytes))))"

definition decompress_lzma_file :: "apk_env \<Rightarrow> cstring \<Rightarrow> cstring \<Rightarrow> apk_fs \<Rightarrow> apk_fs run" where
  "decompress_lzma_file E src_path dst_path fs =
     rbind (read_whole_file E src_path fs) (\<lambda>src.
     if length src < LZMA_HEADER_SIZE then fatal ''boz.s3e is too small for an LZMA-alone header'' fs
     else let unpacked_size = rd64 (drop 5 src) in
       if unpacked_size = 0xffffffffffffffff \<or> unpacked_size = 0 \<or> unat unpacked_size > MAX_OUTPUT_SIZE
       then fatal ''boz.s3e has an unsupported unpacked size'' fs
       else rbind (or_fatal fs (xmalloc E (unat unpacked_size))) (\<lambda>_.
         let (ok, dst) = ax_lzma E (take 5 src) (drop LZMA_HEADER_SIZE src) (unat unpacked_size) in
         if \<not> ok \<or> length dst \<noteq> unat unpacked_size then fatal ''LZMA decode failed'' fs
         else rbind (mkdirs_for_file E dst_path fs) (\<lambda>fs.
           if \<not> ax_fopen E dst_path then fatal ''open'' fs
           else let written = min (length dst) (ax_fwrite E 0); fs = put_file dst_path (take written dst) fs in
             if written \<noteq> length dst then fatal ''write'' fs
             else if \<not> ax_fclose E dst_path then fatal ''close'' fs else Ok fs)))"

definition extract_entry :: "apk_env \<Rightarrow> u8 list \<Rightarrow> cstring \<Rightarrow> zip_entry \<Rightarrow> bool \<times> bool \<times> apk_fs \<Rightarrow> (bool \<times> bool \<times> apk_fs) run" where
  "extract_entry E apk asset_dir entry = (\<lambda>(saw_s3e, saw_loader, fs).
     if \<not> should_extract_asset (ze_name entry) then Ok (saw_s3e, saw_loader, fs)
     else let s3e = (ze_name entry = bytes_of ''assets/boz.s3e'');
              loader = (\<not> s3e \<and> ze_name entry = bytes_of ''assets/blackops_loader.dz'')
       in rbind (copy_stored_entry E apk asset_dir entry fs) (\<lambda>fs. Ok (saw_s3e \<or> s3e, saw_loader \<or> loader, fs)))"

definition extract_apk_assets :: "apk_env \<Rightarrow> cstring \<Rightarrow> cstring \<Rightarrow> apk_fs \<Rightarrow> apk_fs run" where
  "extract_apk_assets E apk_path asset_dir fs =
     rbind (mkdir_one E asset_dir fs) (\<lambda>fs.
     case ap_files fs apk_path of
       None \<Rightarrow> fatal ''open'' fs
     | Some apk \<Rightarrow>
       rbind (or_fatal fs (read_zip_entries E apk)) (\<lambda>entries.
       rbind (rfold (extract_entry E apk asset_dir) entries (False, False, fs)) (\<lambda>(saw_s3e, saw_loader, fs).
       if \<not> saw_s3e then fatal ''APK is missing assets/boz.s3e'' fs
       else if \<not> saw_loader then fatal ''APK is missing assets/blackops_loader.dz'' fs
       else let s3e_path = asset_dir @ bytes_of ''/boz.s3e''; unpacked_path = asset_dir @ bytes_of ''/boz.s3e.unpacked'' in
         rbind (or_fatal fs (xmalloc E (length s3e_path + 1))) (\<lambda>_.
         rbind (or_fatal fs (xmalloc E (length unpacked_path + 1))) (\<lambda>_.
         decompress_lzma_file E s3e_path unpacked_path fs)))))"

section \<open>The address in the image\<close>

definition url_needle :: cstring where
  "url_needle = bytes_of ''ResDownloadLink='' @ [34]"

definition url_char :: "u8 \<Rightarrow> bool" where
  "url_char c \<longleftrightarrow> c \<noteq> 0 \<and> c \<noteq> 34 \<and> c \<noteq> 10 \<and> c \<noteq> 13"

text \<open>The address and the offset at which the search goes on; there is memory for the address.\<close>

definition find_next_url :: "u8 list \<Rightarrow> nat \<Rightarrow> (cstring \<times> nat) option" where
  "find_next_url data offset =
     (case List.find (\<lambda>i. take (length url_needle) (drop i data) = url_needle) [offset..<length data - length url_needle] of
        None \<Rightarrow> None
      | Some i \<Rightarrow> (let start = i + length url_needle; url = takeWhile url_char (drop start data)
                  in Some (url, start + length url)))"

lemma find_next_url_advances:
  assumes "find_next_url data offset = Some (url, e)"
  shows "offset < e" "e \<le> length data"
proof -
  obtain i where i: "List.find (\<lambda>i. take (length url_needle) (drop i data) = url_needle) [offset..<length data - length url_needle] = Some i"
    using assms by (auto simp: find_next_url_def split: option.splits)
  then have "i \<in> set [offset..<length data - length url_needle]" by (auto simp: find_Some_iff in_set_conv_nth)
  moreover have "e = i + length url_needle + length (takeWhile url_char (drop (i + length url_needle) data))"
    using assms i by (auto simp: find_next_url_def Let_def)
  moreover have "0 < length url_needle" by (simp add: url_needle_def)
  moreover have "length (takeWhile url_char (drop (i + length url_needle) data)) \<le> length data - (i + length url_needle)"
    using length_takeWhile_le[of url_char "drop (i + length url_needle) data"] by simp
  ultimately show "offset < e" "e \<le> length data"
    by (auto simp del: length_greater_0_conv intro: trans_less_add1 le_less_trans[of offset i])
qed

function cdn_loop :: "u8 list \<Rightarrow> nat \<Rightarrow> cstring option \<Rightarrow> cstring option" where
  "cdn_loop data offset best =
     (case find_next_url data offset of
        None \<Rightarrow> best
      | Some (url, offset) \<Rightarrow>
        cdn_loop data offset (if best = None \<or> sublist (bytes_of ''callofduty.com'') url then Some url else best))"
  by pat_completeness auto
termination
  by (relation "measure (\<lambda>(data, offset, best). length data - offset)") (auto dest: find_next_url_advances(1,2) intro: diff_less_mono2 order_less_le_trans)

declare cdn_loop.simps [simp del]

definition print_cdn_url :: "apk_env \<Rightarrow> cstring \<Rightarrow> apk_fs \<Rightarrow> cstring run" where
  "print_cdn_url E s3e_path fs =
     rbind (read_whole_file E s3e_path fs) (\<lambda>data.
     case cdn_loop data 0 None of
       None \<Rightarrow> fatal ''could not find ResDownloadLink in unpacked S3E image'' fs
     | Some best \<Rightarrow> if best = [] then fatal ''could not find ResDownloadLink in unpacked S3E image'' fs else Ok best)"

text \<open>The exit status and what is printed, with the files.\<close>

fun exit_status :: "('a \<Rightarrow> apk_fs) \<Rightarrow> ('a \<Rightarrow> cstring list) \<Rightarrow> 'a run \<Rightarrow> (int \<times> cstring list \<times> apk_fs) option" where
  "exit_status files out (Ok x) = Some (0, out x, files x)"
| "exit_status files out (Err (message, fs)) = Some (1, [], fs)"
| "exit_status files out Fault = None"

definition apk_main :: "apk_env \<Rightarrow> cstring list \<Rightarrow> apk_fs \<Rightarrow> (int \<times> cstring list \<times> apk_fs) option" where
  "apk_main E argv fs =
     (if length argv = 4 \<and> argv ! 1 = bytes_of ''extract''
      then exit_status (\<lambda>fs. fs) (\<lambda>_. []) (extract_apk_assets E (argv ! 2) (argv ! 3) fs)
      else if length argv = 3 \<and> argv ! 1 = bytes_of ''print-cdn''
        then exit_status (\<lambda>_. fs) (\<lambda>url. [url]) (print_cdn_url E (argv ! 2) fs)
      else Some (2, [], fs))"

end
