(* ===== verification/Apk_Safety.thy ===== *)
theory Apk_Safety
  imports Apk
begin

text \<open>
  Where the extraction tool writes: only below the directory it is given, whatever the archive holds, and also
  when it gives up on the way.
\<close>

section \<open>Files that are changed\<close>

definition agree :: "cstring set \<Rightarrow> apk_fs \<Rightarrow> apk_fs \<Rightarrow> bool" where
  "agree Q fs fs' \<longleftrightarrow> (\<forall>p. p \<notin> Q \<longrightarrow> ap_files fs' p = ap_files fs p)"

definition only_writes :: "cstring set \<Rightarrow> apk_fs \<Rightarrow> ('a \<Rightarrow> apk_fs) \<Rightarrow> 'a run \<Rightarrow> bool" where
  "only_writes Q fs files r \<longleftrightarrow>
     (case r of Ok x \<Rightarrow> agree Q fs (files x) | Err (message, fs') \<Rightarrow> agree Q fs fs' | Fault \<Rightarrow> True)"

text \<open>The files that differ at the end, however the program ends.\<close>

definition written :: "apk_fs \<Rightarrow> apk_fs run \<Rightarrow> cstring set" where
  "written fs r = {p. \<exists>fs'. (r = Ok fs' \<or> (\<exists>message. r = Err (message, fs'))) \<and> ap_files fs' p \<noteq> ap_files fs p}"

named_theorems write_intros "steps that write only the given files"

lemma agree_refl [simp]: "agree Q fs fs"
  by (simp add: agree_def)

lemma agree_trans: "agree Q a b \<Longrightarrow> agree Q b c \<Longrightarrow> agree Q a c"
  by (simp add: agree_def)

lemma agree_dirs [simp]: "agree Q fs (fs'\<lparr>ap_dirs := d\<rparr>) = agree Q fs fs'"
  by (simp add: agree_def)

lemma agree_put: "p \<in> Q \<Longrightarrow> agree Q fs fs' \<Longrightarrow> agree Q fs (put_file p d fs')"
  by (auto simp: agree_def put_file_def)

lemma agree_append: "p \<in> Q \<Longrightarrow> agree Q fs fs' \<Longrightarrow> agree Q fs (append_file p d fs')"
  by (simp add: append_file_def agree_put)

lemma writes_Ok [write_intros]: "agree Q fs (files x) \<Longrightarrow> only_writes Q fs files (Ok x)"
  by (simp add: only_writes_def)

lemma writes_fatal [write_intros]: "agree Q fs fs' \<Longrightarrow> only_writes Q fs files (fatal m fs')"
  by (simp add: only_writes_def fatal_def)

lemma writes_Fault [write_intros]: "only_writes Q fs files Fault"
  by (simp add: only_writes_def)

lemma writes_if [write_intros]:
  "(b \<Longrightarrow> only_writes Q fs files r) \<Longrightarrow> (\<not> b \<Longrightarrow> only_writes Q fs files r') \<Longrightarrow> only_writes Q fs files (if b then r else r')"
  by simp

lemma writes_iff [simp]:
  "only_writes Q fs files (Ok x) = agree Q fs (files x)" "only_writes Q fs files (fatal m fs') = agree Q fs fs'"
  by (simp_all add: only_writes_def fatal_def)

lemma writes_later: "agree Q fs fs' \<Longrightarrow> only_writes Q fs' files r \<Longrightarrow> only_writes Q fs files r"
  by (auto simp: only_writes_def split: res.splits intro: agree_trans)

lemma writes_bind:
  assumes "only_writes Q fs middle m" "\<And>x. only_writes Q (middle x) files (f x)"
  shows "only_writes Q fs files (rbind m f)"
proof (cases m)
  case (Ok x)
  then have "agree Q fs (middle x)" using assms(1) by (simp add: only_writes_def)
  from writes_later[OF this assms(2)] show ?thesis using Ok by simp
qed (use assms(1) in \<open>simp_all add: only_writes_def\<close>)

lemma writes_or_fatal: "only_writes Q fs (\<lambda>_. fs) (or_fatal fs r)"
  by (cases r) (simp_all add: only_writes_def fatal_def)

lemmas writes_bind_pure = writes_bind[where middle = "\<lambda>_. fs" and fs = fs for fs, OF writes_or_fatal]

lemma writes_fold:
  "(\<And>x s. only_writes Q (files s) files (f x s)) \<Longrightarrow> only_writes Q (files s) files (rfold f xs s)"
proof (induction xs arbitrary: s)
  case (Cons x xs)
  then show ?case by (simp add: writes_bind[where middle = files])
qed (simp add: only_writes_def)

section \<open>The steps\<close>

lemma mkdir_writes: "only_writes Q fs (\<lambda>fs. fs) (mkdir_one E path fs)"
  by (simp add: mkdir_one_def only_writes_def fatal_def)

lemma mkdirs_writes: "only_writes Q fs (\<lambda>fs. fs) (mkdirs_for_file E path fs)"
proof -
  have "only_writes Q fs (\<lambda>fs. fs) (rfold (\<lambda>i fs. if path ! i = slash then mkdir_one E (take i path) fs else Ok fs) xs fs)" for xs
    by (rule writes_fold[where files = "\<lambda>fs. fs"]) (simp add: mkdir_writes writes_Ok)
  then show ?thesis unfolding mkdirs_for_file_def by (rule writes_bind_pure)
qed

lemma copy_writes: "path \<in> Q \<Longrightarrow> only_writes Q fs snd (copy_chunks E apk path pos remaining i crc fs)"
proof (induction E apk path pos remaining i crc fs rule: copy_chunks.induct)
  case (1 E apk path pos remaining i crc fs)
  show ?case
  proof (cases "remaining = 0")
    case True
    then show ?thesis by (subst copy_chunks.simps) (simp add: only_writes_def)
  next
    case False
    define chunk where "chunk = (if remaining > COPY_BUFFER_SIZE then COPY_BUFFER_SIZE else remaining)"
    show ?thesis
    proof (cases "read_exact apk pos chunk")
      case (Ok r)
      obtain buffer pos' where r: "r = (buffer, pos')" by (cases r)
      let ?fs = "append_file path (take (min chunk (ax_fwrite E i)) buffer) fs"
      have a: "agree Q fs ?fs" using 1(2) by (simp add: agree_append)
      have "only_writes Q ?fs snd (copy_chunks E apk path pos' (remaining - chunk) (i + 1) (crc32_update crc buffer) ?fs)"
        if "min chunk (ax_fwrite E i) = chunk"
        using 1(1)[OF False chunk_def Ok[unfolded r] refl refl refl _ 1(2)] that by simp
      then have "only_writes Q ?fs snd (if min chunk (ax_fwrite E i) \<noteq> chunk then fatal ''write'' ?fs
          else copy_chunks E apk path pos' (remaining - chunk) (i + 1) (crc32_update crc buffer) ?fs)"
        by (intro writes_if writes_fatal) (simp_all del: append_file_def)
      from writes_later[OF a this] show ?thesis
        by (subst copy_chunks.simps) (simp add: False chunk_def[symmetric] Ok r Let_def)
    qed (subst copy_chunks.simps; simp add: False chunk_def[symmetric] only_writes_def fatal_def Let_def)+
  qed
qed

lemma stored_writes:
  assumes "should_extract_asset (ze_name entry) \<Longrightarrow> join_asset_path asset_dir (ze_name entry) \<in> Q"
  shows "only_writes Q fs (\<lambda>fs. fs) (copy_stored_entry E apk asset_dir entry fs)"
proof (cases "should_extract_asset (ze_name entry)")
  case True
  let ?p = "join_asset_path asset_dir (ze_name entry)"
  have p: "?p \<in> Q" using assms True .
  have copy: "only_writes Q fs (\<lambda>fs. fs) (rbind (or_fatal fs (xmalloc E COPY_BUFFER_SIZE)) (\<lambda>_.
      rbind (copy_chunks E apk ?p pos n 0 0 fs) (\<lambda>(crc, fs).
        if \<not> ax_fclose E ?p then fatal ''close'' fs
        else if crc \<noteq> c then fatal ''CRC mismatch while extracting APK asset'' fs else Ok fs)))" for fs pos n c
    by (rule writes_bind_pure, rule writes_bind[OF copy_writes[OF p]])
      (auto simp: only_writes_def fatal_def)
  have put: "only_writes Q fs (\<lambda>fs. fs) (if \<not> ax_fopen E ?p then fatal ''open'' fs else
      rbind (or_fatal (put_file ?p [] fs) (xmalloc E COPY_BUFFER_SIZE)) (\<lambda>_.
      rbind (copy_chunks E apk ?p pos n 0 0 (put_file ?p [] fs)) (\<lambda>(crc, fs).
        if \<not> ax_fclose E ?p then fatal ''close'' fs
        else if crc \<noteq> c then fatal ''CRC mismatch while extracting APK asset'' fs else Ok fs)))" for fs pos n c
    by (rule writes_if, rule writes_fatal, simp, rule writes_later[OF agree_put copy]) (simp_all add: p)
  show ?thesis
    unfolding copy_stored_entry_def Let_def
    by (rule writes_if, rule writes_Ok, simp)+ (rule writes_bind_pure, rule writes_bind[OF mkdirs_writes],
        rule writes_bind_pure, rule writes_bind_pure, rule put)
qed (simp add: copy_stored_entry_def only_writes_def)

lemma read_writes: "only_writes Q fs (\<lambda>_. fs) (read_whole_file E path fs)"
  by (cases "ap_files fs path")
    (auto simp: read_whole_file_def split_beta intro!: writes_bind_pure intro: write_intros)

lemma decompress_writes:
  assumes "dst \<in> Q"
  shows "only_writes Q fs (\<lambda>fs. fs) (decompress_lzma_file E src dst fs)"
proof -
  have put: "only_writes Q fs (\<lambda>fs. fs) (if \<not> ax_fopen E dst then fatal ''open'' fs
      else let written = min (length data) (ax_fwrite E 0); fs = put_file dst (take written data) fs in
        if written \<noteq> length data then fatal ''write'' fs else if \<not> ax_fclose E dst then fatal ''close'' fs else Ok fs)"
    for fs data using assms by (auto simp: Let_def only_writes_def fatal_def agree_put)
  show ?thesis
    unfolding decompress_lzma_file_def Let_def[of LZMA_HEADER_SIZE]
    by (rule writes_bind[OF read_writes])
      (auto simp: Let_def[of "rd64 _"] split_beta intro!: write_intros writes_bind_pure writes_bind[OF mkdirs_writes] put)
qed

lemma entry_writes:
  assumes "\<And>name. should_extract_asset name \<Longrightarrow> join_asset_path asset_dir name \<in> Q"
  shows "only_writes Q (snd (snd s)) (\<lambda>(a, b, fs). fs) (extract_entry E apk asset_dir entry s)"
proof (cases s)
  case (fields a b fs)
  have "only_writes Q fs (\<lambda>(a, b, fs). fs) (rbind (copy_stored_entry E apk asset_dir entry fs) (\<lambda>fs. Ok (x, y, fs)))" for x y
    using stored_writes[OF assms] by (rule writes_bind) (simp_all add: only_writes_def)
  then show ?thesis unfolding fields extract_entry_def Let_def prod.case
    by (intro writes_if) simp_all
qed

lemma extract_writes:
  assumes "\<And>name. should_extract_asset name \<Longrightarrow> join_asset_path asset_dir name \<in> Q"
    and "asset_dir @ bytes_of ''/boz.s3e.unpacked'' \<in> Q"
  shows "only_writes Q fs (\<lambda>fs. fs) (extract_apk_assets E apk_path asset_dir fs)"
proof -
  have loop: "only_writes Q fs (\<lambda>(a, b, fs). fs) (rfold (extract_entry E apk asset_dir) entries (False, False, fs))" for fs apk entries
    using writes_fold[of Q "\<lambda>(a, b, fs). fs" "extract_entry E apk asset_dir" "(False, False, fs)" entries]
      entry_writes[OF assms(1)] by (simp add: split_beta)
  have last: "only_writes Q fs (\<lambda>fs. fs)
      (rbind (or_fatal fs (xmalloc E n)) (\<lambda>_. rbind (or_fatal fs (xmalloc E m)) (\<lambda>_.
         decompress_lzma_file E src (asset_dir @ bytes_of ''/boz.s3e.unpacked'') fs)))" for fs n m src
    by (intro writes_bind_pure decompress_writes assms(2))
  show ?thesis
    unfolding extract_apk_assets_def Let_def
  proof (rule writes_bind[OF mkdir_writes])
    fix fs
    show "only_writes Q fs (\<lambda>fs. fs) (case ap_files fs apk_path of None \<Rightarrow> fatal ''open'' fs
      | Some apk \<Rightarrow> rbind (or_fatal fs (read_zip_entries E apk)) (\<lambda>entries.
         rbind (rfold (extract_entry E apk asset_dir) entries (False, False, fs)) (\<lambda>(saw_s3e, saw_loader, fs).
         if \<not> saw_s3e then fatal ''APK is missing assets/boz.s3e'' fs
         else if \<not> saw_loader then fatal ''APK is missing assets/blackops_loader.dz'' fs
         else rbind (or_fatal fs (xmalloc E (length (asset_dir @ bytes_of ''/boz.s3e'') + 1))) (\<lambda>_.
              rbind (or_fatal fs (xmalloc E (length (asset_dir @ bytes_of ''/boz.s3e.unpacked'') + 1))) (\<lambda>_.
              decompress_lzma_file E (asset_dir @ bytes_of ''/boz.s3e'') (asset_dir @ bytes_of ''/boz.s3e.unpacked'') fs)))))"
      by (cases "ap_files fs apk_path")
        (auto intro!: write_intros writes_bind_pure writes_bind[OF loop] last)
  qed
qed

section \<open>Names that stay inside\<close>

text \<open>The parts of a path between its slashes.\<close>

fun segments :: "cstring \<Rightarrow> cstring list" where
  "segments [] = [[]]"
| "segments (c # cs) = (if c = slash then [] # segments cs else (c # hd (segments cs)) # tl (segments cs))"

lemma first_segment: "segments s = takeWhile (\<lambda>c. c \<noteq> slash) s # tl (segments s)"
proof -
  have "segments s \<noteq> [] \<and> hd (segments s) = takeWhile (\<lambda>c. c \<noteq> slash) s" by (induction s) auto
  then show ?thesis by (metis list.collapse)
qed

lemma one_segment: "slash \<notin> set s \<Longrightarrow> segments s = [s]"
  by (induction s) auto

lemma later_segment: "seg \<in> set (tl (segments s)) \<Longrightarrow> \<exists>pre post. s = pre @ slash # seg @ post"
proof (induction s)
  case (Cons c s)
  show ?case
  proof (cases "c = slash \<and> seg = hd (segments s)")
    case True
    then have "seg = takeWhile (\<lambda>c. c \<noteq> slash) s" using first_segment[of s] by (metis list.sel(1))
    then have "c # s = [] @ slash # seg @ dropWhile (\<lambda>c. c \<noteq> slash) s" using True by simp
    then show ?thesis by blast
  next
    case False
    then have "seg \<in> set (tl (segments s))"
      using Cons.prems first_segment[of s] by (cases "segments s") (auto split: if_splits)
    with Cons.IH obtain pre post where "s = pre @ slash # seg @ post" by blast
    then have "c # s = (c # pre) @ slash # seg @ post" by simp
    then show ?thesis by blast
  qed
qed simp

lemma segment_occurs: "seg \<in> set (segments s) \<Longrightarrow> sublist (slash # seg) (slash # s)"
proof -
  assume "seg \<in> set (segments s)"
  then consider "seg = takeWhile (\<lambda>c. c \<noteq> slash) s" | "seg \<in> set (tl (segments s))"
    using first_segment[of s] by (metis set_ConsD)
  then show ?thesis
  proof cases
    case 1
    then have "slash # s = [] @ (slash # seg) @ dropWhile (\<lambda>c. c \<noteq> slash) s" by simp
    then show ?thesis unfolding sublist_def by blast
  next
    case 2
    then obtain pre post where "s = pre @ slash # seg @ post" using later_segment by blast
    then have "slash # s = (slash # pre) @ (slash # seg) @ post" by simp
    then show ?thesis unfolding sublist_def by blast
  qed
qed

lemma written_only:
  assumes "only_writes Q fs (\<lambda>fs. fs) r" "p \<in> written fs r"
  shows "p \<in> Q"
proof (cases r)
  case (Ok fs')
  then show ?thesis using assms by (auto simp: written_def agree_def)
next
  case (Err e)
  then show ?thesis using assms by (cases e) (auto simp: written_def only_writes_def agree_def)
next
  case Fault
  then show ?thesis using assms(2) by (simp add: written_def)
qed

definition inside :: "cstring \<Rightarrow> cstring set" where
  "inside asset_dir = {asset_dir @ [slash] @ rel | rel. rel \<noteq> [] \<and> hd rel \<noteq> slash \<and> bytes_of ''..'' \<notin> set (segments rel)}"

lemma inside_intro:
  "rel \<noteq> [] \<Longrightarrow> hd rel \<noteq> slash \<Longrightarrow> bytes_of ''..'' \<notin> set (segments rel) \<Longrightarrow> asset_dir @ [slash] @ rel \<in> inside asset_dir"
  unfolding inside_def by blast

lemma safe_name_inside:
  assumes "should_extract_asset name"
  shows "join_asset_path asset_dir name \<in> inside asset_dir"
proof -
  define rel where "rel = drop 7 name"
  have name: "name = bytes_of ''assets'' @ slash # rel"
    using assms append_take_drop_id[of 7 name]
    by (simp add: should_extract_asset_def is_safe_asset_name_def rel_def bytes_of_def slash_def)
  have rel: "rel \<noteq> []" using assms by (simp add: should_extract_asset_def is_safe_asset_name_def rel_def)
  have part: "sublist (slash # rel) name" unfolding name sublist_def by blast
  have "\<not> sublist (bytes_of ''/..'') name" "\<not> sublist (bytes_of ''//'') name"
    using assms by (simp_all add: should_extract_asset_def is_safe_asset_name_def)
  then have no: "\<not> sublist (slash # bytes_of ''..'') (slash # rel)" "\<not> sublist [slash, slash] (slash # rel)"
    using part sublist_order.order_trans by (auto simp: bytes_of_def slash_def)
  have "hd rel \<noteq> slash"
  proof
    assume "hd rel = slash"
    then have "slash # rel = [] @ [slash, slash] @ tl rel" using rel by (cases rel) auto
    then show False using no(2) unfolding sublist_def by blast
  qed
  moreover have "join_asset_path asset_dir name = asset_dir @ [slash] @ rel"
    by (simp add: join_asset_path_def rel_def snprintf_def Let_def)
  moreover have "bytes_of ''..'' \<notin> set (segments rel)" using no(1) segment_occurs by blast
  ultimately show ?thesis using rel unfolding inside_def by blast
qed

lemma unpacked_inside: "asset_dir @ bytes_of ''/boz.s3e.unpacked'' \<in> inside asset_dir"
proof -
  define rel where "rel = bytes_of ''boz.s3e.unpacked''"
  have rel: "rel = [98, 111, 122, 46, 115, 51, 101, 46, 117, 110, 112, 97, 99, 107, 101, 100]"
    by (simp add: rel_def bytes_of_def)
  have none: "slash \<notin> set rel" by (simp add: rel slash_def)
  then have "segments rel = [rel]" by (rule one_segment)
  moreover have "rel \<noteq> bytes_of ''..''" by (simp add: rel bytes_of_def)
  ultimately have "bytes_of ''..'' \<notin> set (segments rel)" by auto
  moreover have "hd rel \<noteq> slash" "rel \<noteq> []" by (simp_all add: rel slash_def)
  moreover have "bytes_of ''/boz.s3e.unpacked'' = [slash] @ rel" by (simp add: rel bytes_of_def slash_def)
  ultimately show ?thesis using inside_intro[of rel asset_dir] by simp
qed


end
