(* ===== verification/Apk_Zip.thy ===== *)
theory Apk_Zip
  imports Image_Properties Apk_Safety
begin

text \<open>
  What the extraction tool makes of a well-formed archive: an archive with stored files is read as the files
  it was packed from, and extracting it gives these files.
\<close>

section \<open>Packing\<close>

text \<open>A file is a name and its contents. Offsets are those of the local headers.\<close>

type_synonym packed = "cstring \<times> u8 list"

definition local_header :: "packed \<Rightarrow> u8 list" where
  "local_header = (\<lambda>(name, data). le32 ZIP_LOCAL_SIG @ replicate 22 0 @ le16 (of_nat (length name)) @ le16 0)"

definition local_part :: "packed \<Rightarrow> u8 list" where
  "local_part f = local_header f @ fst f @ snd f"

definition central_header :: "nat \<Rightarrow> packed \<Rightarrow> u8 list" where
  "central_header off = (\<lambda>(name, data). le32 ZIP_CENTRAL_SIG @ replicate 4 0 @ le16 0 @ le16 0 @ replicate 4 0 @
     le32 (crc32_update 0 data) @ le32 (of_nat (length data)) @ le32 (of_nat (length data)) @
     le16 (of_nat (length name)) @ le16 0 @ le16 0 @ replicate 8 0 @ le32 (of_nat off))"

fun central_parts :: "nat \<Rightarrow> packed list \<Rightarrow> u8 list" where
  "central_parts off [] = []"
| "central_parts off (f # fs) = central_header off f @ fst f @ central_parts (off + length (local_part f)) fs"

definition end_record :: "nat \<Rightarrow> nat \<Rightarrow> nat \<Rightarrow> u8 list" where
  "end_record count central_size central_offset = le32 ZIP_EOCD_SIG @ le16 0 @ le16 0 @ le16 (of_nat count) @ le16 (of_nat count) @
     le32 (of_nat central_size) @ le32 (of_nat central_offset) @ le16 0"

definition zip_image :: "packed list \<Rightarrow> u8 list" where
  "zip_image fs = (let locals = concat (map local_part fs); central = central_parts 0 fs
     in locals @ central @ end_record (length fs) (length central) (length locals))"

fun packed_entries :: "nat \<Rightarrow> packed list \<Rightarrow> zip_entry list" where
  "packed_entries off [] = []"
| "packed_entries off (f # fs) =
     \<lparr>ze_name = fst f, ze_flags = 0, ze_method = 0, ze_crc32 = crc32_update 0 (snd f), ze_compressed_size = of_nat (length (snd f)),
      ze_uncompressed_size = of_nat (length (snd f)), ze_local_header_offset = of_nat off\<rparr>
     # packed_entries (off + length (local_part f)) fs"

definition name_ok :: "cstring \<Rightarrow> bool" where
  "name_ok name \<longleftrightarrow> length name < 65536 \<and> 0 \<notin> set name"

section \<open>Reading what was packed\<close>

lemma apk_rd16 [simp]: "Apk.rd16 (le16 v @ rest) = v"
  using le16_join[of v] by (simp add: Apk.rd16_def le16_def)

lemma apk_rd32 [simp]: "Apk.rd32 (le32 v @ rest) = v"
  using le32_join[of v] by (simp add: Apk.rd32_def le32_def)

lemma header_lengths [simp]:
  "length (local_header f) = 30" "length (central_header off f) = 46" "length (end_record n m k) = 22"
  by (simp_all add: local_header_def central_header_def end_record_def split_beta)

lemma central_fields:
  "Apk.rd32 (central_header off f) = ZIP_CENTRAL_SIG"
  "Apk.rd16 (drop 8 (central_header off f)) = 0" "Apk.rd16 (drop 10 (central_header off f)) = 0"
  "Apk.rd32 (drop 16 (central_header off f)) = crc32_update 0 (snd f)"
  "Apk.rd32 (drop 20 (central_header off f)) = of_nat (length (snd f))"
  "Apk.rd32 (drop 24 (central_header off f)) = of_nat (length (snd f))"
  "Apk.rd16 (drop 28 (central_header off f)) = of_nat (length (fst f))"
  "Apk.rd16 (drop 30 (central_header off f)) = 0" "Apk.rd16 (drop 32 (central_header off f)) = 0"
  "Apk.rd32 (drop 42 (central_header off f)) = of_nat off"
  using apk_rd32[of "of_nat off" "[]"] by (simp_all add: central_header_def split_beta)

definition resources_ok :: "apk_env \<Rightarrow> bool" where
  "resources_ok E \<longleftrightarrow> (\<forall>n. ax_malloc E n) \<and> (\<forall>p. ax_mkdir E p) \<and> (\<forall>p. ax_fopen E p) \<and>
     (\<forall>i. MAX_OUTPUT_SIZE \<le> ax_fwrite E i) \<and> (\<forall>p. ax_fclose E p)"

lemma xmalloc_ok: "resources_ok E \<Longrightarrow> xmalloc E n = Ok ()"
  by (simp add: resources_ok_def xmalloc_def)

lemma read_part: "drop pos data = xs @ rest \<Longrightarrow> length xs = n \<Longrightarrow> read_exact data pos n = Ok (xs, pos + n)"
proof -
  assume a: "drop pos data = xs @ rest" "length xs = n"
  then have "length xs \<le> length data - pos" by (metis length_append length_drop le_add1)
  then show ?thesis using a by (cases "n = 0") (auto simp: read_exact_def)
qed

lemma drop_part: "drop pos data = xs @ rest \<Longrightarrow> drop (pos + length xs) data = rest"
  by (metis add.commute append_eq_conv_conj drop_drop)

lemma name_length: "name_ok name \<Longrightarrow> unat (of_nat (length name) :: u16) = length name"
  by (simp add: name_ok_def unsigned_of_nat take_bit_nat_eq_self)

lemma read_central_packed:
  assumes "resources_ok E" "\<forall>f \<in> set fs. name_ok (fst f)" "drop pos apk = central_parts off fs @ rest"
    "consumed + length (central_parts off fs) = central_size" "length items + length fs \<le> capacity"
  shows "read_central E apk central_size capacity pos consumed items = Ok (items @ packed_entries off fs)"
  using assms(2-5)
proof (induction fs arbitrary: off pos consumed items)
  case Nil
  then show ?case by (subst read_central.simps) simp
next
  case (Cons f fs)
  let ?h = "central_header off f" and ?n = "length (fst f)"
  have ok: "name_ok (fst f)" using Cons.prems(1) by simp
  have header: "read_exact apk pos 46 = Ok (?h, pos + 46)"
    using Cons.prems(2) by (intro read_part[where rest = "fst f @ central_parts (off + length (local_part f)) fs @ rest"]) simp_all
  have rest: "drop (pos + 46) apk = fst f @ central_parts (off + length (local_part f)) fs @ rest"
    using drop_part[of pos apk ?h] Cons.prems(2) by simp
  have name: "read_exact apk (pos + 46) ?n = Ok (fst f, pos + 46 + ?n)" by (rule read_part[OF rest]) simp
  have var: "variable_len ?h = ?n" using name_length[OF ok] by (simp add: variable_len_def central_fields)
  have len: "unat (Apk.rd16 (drop 28 ?h)) = ?n" using name_length[OF ok] by (simp add: central_fields)
  have "read_central E apk central_size capacity (pos + 46 + ?n) (consumed + 46 + ?n) (items @ [Apk.entry_of ?h (cstr (fst f))])
      = Ok ((items @ [Apk.entry_of ?h (cstr (fst f))]) @ packed_entries (off + length (local_part f)) fs)"
    by (rule Cons.IH) (use Cons.prems drop_part[OF rest] in simp_all)
  moreover have "Apk.entry_of ?h (cstr (fst f)) = hd (packed_entries off (f # fs))"
    using ok by (simp add: Apk.entry_of_def central_fields cstr_id name_ok_def)
  ultimately show ?case using Cons.prems(3,4)
    by (subst read_central.simps) (simp add: header name var len central_fields(1) xmalloc_ok[OF assms(1)] add.assoc)
qed

lemma find_eocd_packed:
  assumes "resources_ok E" "apk = front @ end_record n m k" "length apk \<le> ax_long_max E"
  shows "find_eocd E apk (length apk) = Ok (length front)"
proof -
  define t where "t = (if length apk < MAX_ZIP_COMMENT + 22 then length apk else MAX_ZIP_COMMENT + 22)"
  have t: "22 \<le> t" "t \<le> length apk" using assms(2) by (auto simp: t_def MAX_ZIP_COMMENT_def)
  define tail where "tail = drop (length apk - t) apk"
  have len: "length tail = t" using t by (simp add: tail_def)
  have read: "read_exact apk (length apk - t) t = Ok (tail, length apk - t + t)"
    by (rule read_part[where rest = "[]"]) (use t in \<open>simp_all add: tail_def\<close>)
  have last: "drop (t - 22) tail = end_record n m k"
  proof -
    have "t - 22 + (length apk - t) = length front" using t assms(2) by simp
    then show ?thesis by (simp add: tail_def assms(2))
  qed
  have "take 4 (drop (t - 22) tail) = le32 ZIP_EOCD_SIG" "take 2 (drop (t - 22 + 20) tail) = le16 0"
    using last by (simp_all add: end_record_def flip: drop_drop add.commute)
  then have "eocd_at tail (t - 22) = Ok True"
    using t len apk_rd32[of ZIP_EOCD_SIG "[]"] apk_rd16[of 0 "[]"] by (simp add: eocd_at_def bytes_at_def)
  then have "eocd_scan tail (t - 22) = Ok (Some (t - 22))" by (cases "t - 22") simp_all
  moreover have "seek_abs E (length apk - t) = Ok (length apk - t)" using assms(3) by (simp add: seek_abs_def)
  moreover have "length apk - t + (t - 22) = length front"
    using t arg_cong[OF assms(2), of length] by simp
  ultimately show ?thesis unfolding find_eocd_def t_def[symmetric] Let_def
    using read t(1) by (simp add: xmalloc_ok[OF assms(1)])
qed

lemma end_fields:
  "Apk.rd16 (drop 4 (end_record n m k)) = 0" "Apk.rd16 (drop 6 (end_record n m k)) = 0"
  "Apk.rd16 (drop 8 (end_record n m k)) = of_nat n" "Apk.rd16 (drop 10 (end_record n m k)) = of_nat n"
  "Apk.rd32 (drop 12 (end_record n m k)) = of_nat m" "Apk.rd32 (drop 16 (end_record n m k)) = of_nat k"
  by (simp_all add: end_record_def)

lemma read_zip_packed:
  assumes "resources_ok E" "\<forall>f \<in> set fs. name_ok (fst f)" "length fs < 65535"
    "length (zip_image fs) \<le> ax_long_max E" "length (zip_image fs) < 2 ^ 32 - 1"
  shows "read_zip_entries E (zip_image fs) = Ok (packed_entries 0 fs)"
proof -
  let ?l = "concat (map local_part fs)" and ?c = "central_parts 0 fs" and ?z = "zip_image fs"
  let ?e = "end_record (length fs) (length ?c) (length ?l)"
  have z: "?z = (?l @ ?c) @ ?e" by (simp add: zip_image_def Let_def)
  have sizes: "length ?z = length ?l + length ?c + 22" by (simp add: z)
  then have small: "length ?l < 2 ^ 32 - 1" "length ?c < 2 ^ 32 - 1" using assms(5) by simp_all
  have u16: "unat (of_nat (length fs) :: u16) = length fs" using assms(3) by (simp add: unsigned_of_nat take_bit_nat_eq_self)
  have u32: "unat (of_nat n :: u32) = n" if "n < 2 ^ 32 - 1" for n
    using that by (simp add: unsigned_of_nat take_bit_nat_eq_self)
  have sentinel: "(of_nat (length fs) :: u16) \<noteq> ZIP64_SENTINEL_16"
  proof
    assume "(of_nat (length fs) :: u16) = ZIP64_SENTINEL_16"
    then have "length fs = unat ZIP64_SENTINEL_16" using u16 by metis
    then show False using assms(3) by (simp add: ZIP64_SENTINEL_16_def)
  qed
  have sentinel32: "(of_nat n :: u32) \<noteq> ZIP64_SENTINEL_32" if "n < 2 ^ 32 - 1" for n
  proof
    assume "(of_nat n :: u32) = ZIP64_SENTINEL_32"
    then have "n = unat ZIP64_SENTINEL_32" using u32[OF that] by metis
    then show False using that by (simp add: ZIP64_SENTINEL_32_def)
  qed
  have eocd: "find_eocd E ?z (length ?z) = Ok (length (?l @ ?c))"
    by (rule find_eocd_packed[OF assms(1) z assms(4)])
  have last: "read_exact ?z (length (?l @ ?c)) 22 = Ok (?e, length (?l @ ?c) + 22)"
    by (rule read_part[where rest = "[]"]) (simp_all add: z)
  have central: "read_central E ?z (length ?c) (length fs) (length ?l) 0 [] = Ok ([] @ packed_entries 0 fs)"
    by (rule read_central_packed[OF assms(1,2), where rest = ?e]) (simp_all add: z)
  show ?thesis
    using assms(4) sizes eocd last central u16 u32[OF small(1)] u32[OF small(2)] sentinel
      sentinel32[OF small(1)] sentinel32[OF small(2)]
    by (simp add: read_zip_entries_def file_size_def seek_abs_def end_fields Let_def xmalloc_ok[OF assms(1)])
qed

section \<open>Extracting what was packed\<close>

lemma copy_packed:
  assumes "resources_ok E" "drop pos apk = data @ rest" "ap_files fs path = Some front"
  shows "\<exists>fs'. copy_chunks E apk path pos (length data) i crc fs = Ok (crc32_update crc data, fs') \<and>
    ap_files fs' = (ap_files fs)(path \<mapsto> front @ data)"
  using assms(2,3)
proof (induction "length data" arbitrary: pos data i crc fs front rule: less_induct)
  case less
  define n where "n = min (length data) COPY_BUFFER_SIZE"
  have chunk: "(if length data > COPY_BUFFER_SIZE then COPY_BUFFER_SIZE else length data) = n" by (simp add: n_def)
  show ?case
  proof (cases "data = []")
    case True
    have "(ap_files fs)(path \<mapsto> front) = ap_files fs" using less.prems(2) by auto
    then show ?thesis using True by (subst copy_chunks.simps) (simp add: crc32_update_def xor.assoc)
  next
    case False
    then have n: "0 < n" "n \<le> length data" "n \<le> COPY_BUFFER_SIZE" by (auto simp: n_def COPY_BUFFER_SIZE_def)
    have read: "read_exact apk pos n = Ok (take n data, pos + n)"
      using less.prems(1) n by (intro read_part[where rest = "drop n data @ rest"]) simp_all
    have full: "min n (ax_fwrite E i) = n"
    proof -
      have "MAX_OUTPUT_SIZE \<le> ax_fwrite E i" using assms(1) by (simp add: resources_ok_def)
      then show ?thesis using n(3) by (simp add: COPY_BUFFER_SIZE_def MAX_OUTPUT_SIZE_def)
    qed
    let ?fs = "append_file path (take n data) fs"
    have "drop (pos + n) apk = drop n data @ rest"
      using drop_part[of pos apk "take n data" "drop n data @ rest"] less.prems(1) n by simp
    moreover have "ap_files ?fs path = Some (front @ take n data)"
      using less.prems(2) by (simp add: append_file_def put_file_def)
    ultimately obtain fs' where fs': "copy_chunks E apk path (pos + n) (length (drop n data)) (i + 1) (crc32_update crc (take n data)) ?fs
        = Ok (crc32_update (crc32_update crc (take n data)) (drop n data), fs')"
      "ap_files fs' = (ap_files ?fs)(path \<mapsto> (front @ take n data) @ drop n data)"
      using less.hyps[of "drop n data" "pos + n" ?fs "front @ take n data" "i + 1" "crc32_update crc (take n data)"] n False
      by auto
    have "ap_files fs' = (ap_files fs)(path \<mapsto> front @ data)" using fs'(2) by (simp add: append_file_def put_file_def)
    moreover have "copy_chunks E apk path pos (length data) i crc fs = Ok (crc32_update crc data, fs')"
      using False fs'(1) read full n
      by (subst copy_chunks.simps) (simp add: chunk Let_def crc32_update_append)
    ultimately show ?thesis by blast
  qed
qed

lemma mkdirs_packed:
  assumes "resources_ok E"
  shows "\<exists>fs'. mkdirs_for_file E path fs = Ok fs' \<and> ap_files fs' = ap_files fs"
proof -
  have "\<exists>fs'. rfold (\<lambda>i fs. if path ! i = slash then mkdir_one E (take i path) fs else Ok fs) xs fs = Ok fs' \<and>
      ap_files fs' = ap_files fs" for xs
  proof (induction xs arbitrary: fs)
    case (Cons x xs)
    show ?case using Cons[of fs] Cons[of "fs\<lparr>ap_dirs := insert (take x path) (ap_dirs fs)\<rparr>"] assms
      by (simp add: mkdir_one_def resources_ok_def)
  qed simp
  then show ?thesis by (simp add: mkdirs_for_file_def xmalloc_ok[OF assms])
qed

lemma local_offset_packed:
  assumes "drop off apk = local_part f @ rest" "name_ok (fst f)" "length apk \<le> ax_long_max E" "length apk < 2 ^ 32"
    "ze_local_header_offset entry = of_nat off"
  shows "local_data_offset E apk entry = Ok (off + 30 + length (fst f))"
    and "drop (off + 30 + length (fst f)) apk = snd f @ rest" and "off + 30 + length (fst f) \<le> ax_long_max E"
proof -
  have parts: "drop off apk = local_header f @ fst f @ snd f @ rest" using assms(1) by (simp add: local_part_def)
  then have "length (drop off apk) \<ge> 30 + length (fst f)" by simp
  then have bound: "off + 30 + length (fst f) \<le> length apk" by simp
  then have off: "unat (of_nat off :: u32) = off" using assms(4) by (simp add: unsigned_of_nat take_bit_nat_eq_self)
  have "read_exact apk off 30 = Ok (local_header f, off + 30)" by (rule read_part[OF parts]) simp
  moreover have "Apk.rd32 (local_header f) = ZIP_LOCAL_SIG" "unat (Apk.rd16 (drop 26 (local_header f))) = length (fst f)"
    "Apk.rd16 (drop 28 (local_header f)) = 0"
    using name_length[OF assms(2)] apk_rd16[of 0 "[]"] by (simp_all add: local_header_def split_beta)
  ultimately show "local_data_offset E apk entry = Ok (off + 30 + length (fst f))"
    using bound assms(3,5) off by (simp add: local_data_offset_def seek_abs_def)
  show "drop (off + 30 + length (fst f)) apk = snd f @ rest"
    using drop_part[OF drop_part[OF parts, simplified]] by simp
  show "off + 30 + length (fst f) \<le> ax_long_max E" using bound assms(3) by simp
qed

lemma stored_packed:
  assumes "resources_ok E" "drop off apk = local_part f @ rest" "name_ok (fst f)" "length apk \<le> ax_long_max E"
    "length apk < 2 ^ 32" "entry = hd (packed_entries off (f # fs'))"
  shows "\<exists>fs'. copy_stored_entry E apk asset_dir entry fs = Ok fs' \<and>
    ap_files fs' = (if should_extract_asset (fst f) then (ap_files fs)(join_asset_path asset_dir (fst f) \<mapsto> snd f) else ap_files fs)"
proof (cases "should_extract_asset (fst f)")
  case True
  let ?p = "join_asset_path asset_dir (fst f)"
  obtain fs1 where fs1: "mkdirs_for_file E ?p fs = Ok fs1" "ap_files fs1 = ap_files fs"
    using mkdirs_packed[OF assms(1)] by blast
  have entry: "ze_local_header_offset entry = of_nat off" "ze_name entry = fst f" "ze_flags entry = 0" "ze_method entry = 0"
    "ze_crc32 entry = crc32_update 0 (snd f)" "ze_compressed_size entry = of_nat (length (snd f))"
    using assms(6) by simp_all
  note offset = local_offset_packed[OF assms(2-5) entry(1)]
  have "length (snd f) \<le> length apk"
    using arg_cong[OF offset(2), of length] by simp
  then have size: "unat (ze_compressed_size entry) = length (snd f)"
    using assms(5) by (simp add: entry(6) unsigned_of_nat take_bit_nat_eq_self)
  obtain fs2 where fs2: "copy_chunks E apk ?p (off + 30 + length (fst f)) (length (snd f)) 0 0 (put_file ?p [] fs1)
      = Ok (crc32_update 0 (snd f), fs2)" "ap_files fs2 = (ap_files (put_file ?p [] fs1))(?p \<mapsto> [] @ snd f)"
    using copy_packed[OF assms(1) offset(2), of "put_file ?p [] fs1" ?p "[]" 0 0] by (auto simp: put_file_def)
  have "copy_stored_entry E apk asset_dir entry fs = Ok fs2"
    using True fs1(1) fs2(1) offset(1,3) size assms(1)
    by (simp add: copy_stored_entry_def entry(2-5) ZIP_METHOD_STORED_def Let_def xmalloc_ok[OF assms(1)] seek_abs_def
        resources_ok_def)
  moreover have "ap_files fs2 = (ap_files fs)(?p \<mapsto> snd f)" using fs2(2) fs1(2) by (simp add: put_file_def)
  ultimately show ?thesis using True by simp
next
  case False
  then show ?thesis using assms(6) by (simp add: copy_stored_entry_def)
qed

definition unpacked :: "cstring \<Rightarrow> packed list \<Rightarrow> (cstring \<Rightarrow> u8 list option) \<Rightarrow> cstring \<Rightarrow> u8 list option" where
  "unpacked asset_dir = fold (\<lambda>(name, data) files.
     if should_extract_asset name then files(join_asset_path asset_dir name \<mapsto> data) else files)"

lemma extract_packed:
  assumes "resources_ok E" "\<forall>f \<in> set fs. name_ok (fst f)" "length apk \<le> ax_long_max E" "length apk < 2 ^ 32"
    "drop off apk = concat (map local_part fs) @ rest"
  shows "\<exists>st'. rfold (extract_entry E apk asset_dir) (packed_entries off fs) (a, b, st) =
    Ok (a \<or> (\<exists>f \<in> set fs. should_extract_asset (fst f) \<and> fst f = bytes_of ''assets/boz.s3e''),
        b \<or> (\<exists>f \<in> set fs. should_extract_asset (fst f) \<and> fst f \<noteq> bytes_of ''assets/boz.s3e'' \<and>
               fst f = bytes_of ''assets/blackops_loader.dz''), st') \<and>
    ap_files st' = unpacked asset_dir fs (ap_files st)"
  using assms(2,5)
proof (induction fs arbitrary: off a b st)
  case Nil
  then show ?case by (simp add: unpacked_def)
next
  case (Cons f fs)
  let ?entry = "hd (packed_entries off (f # fs))"
  let ?s3e = "should_extract_asset (fst f) \<and> fst f = bytes_of ''assets/boz.s3e''"
  let ?loader = "should_extract_asset (fst f) \<and> fst f \<noteq> bytes_of ''assets/boz.s3e'' \<and> fst f = bytes_of ''assets/blackops_loader.dz''"
  have here: "drop off apk = local_part f @ concat (map local_part fs) @ rest" using Cons.prems(2) by simp
  have ok: "name_ok (fst f)" using Cons.prems(1) by simp
  obtain st1 where st1: "copy_stored_entry E apk asset_dir ?entry st = Ok st1"
    "ap_files st1 = (if should_extract_asset (fst f) then (ap_files st)(join_asset_path asset_dir (fst f) \<mapsto> snd f) else ap_files st)"
    using stored_packed[OF assms(1) here ok assms(3,4) refl] by blast
  obtain st2 where st2: "extract_entry E apk asset_dir ?entry (a, b, st) = Ok (a \<or> ?s3e, b \<or> ?loader, st2)"
    "ap_files st2 = ap_files st1"
  proof (cases "should_extract_asset (fst f)")
    case True
    then show ?thesis using st1(1) that[of st1] by (simp add: extract_entry_def Let_def)
  next
    case False
    then show ?thesis using st1(2) that[of st] by (simp add: extract_entry_def)
  qed
  have "drop (off + length (local_part f)) apk = concat (map local_part fs) @ rest" by (rule drop_part[OF here])
  from Cons.IH[OF _ this, of "a \<or> ?s3e" "b \<or> ?loader" st2] Cons.prems(1) obtain st' where st':
    "rfold (extract_entry E apk asset_dir) (packed_entries (off + length (local_part f)) fs) (a \<or> ?s3e, b \<or> ?loader, st2) =
      Ok ((a \<or> ?s3e) \<or> (\<exists>f \<in> set fs. should_extract_asset (fst f) \<and> fst f = bytes_of ''assets/boz.s3e''),
        (b \<or> ?loader) \<or> (\<exists>f \<in> set fs. should_extract_asset (fst f) \<and> fst f \<noteq> bytes_of ''assets/boz.s3e'' \<and>
               fst f = bytes_of ''assets/blackops_loader.dz''), st')"
    "ap_files st' = unpacked asset_dir fs (ap_files st2)" by auto
  have "rfold (extract_entry E apk asset_dir) (packed_entries off (f # fs)) (a, b, st) =
      rfold (extract_entry E apk asset_dir) (packed_entries (off + length (local_part f)) fs) (a \<or> ?s3e, b \<or> ?loader, st2)"
    using st2(1) by simp
  moreover have "ap_files st' = unpacked asset_dir (f # fs) (ap_files st)"
    using st'(2) st2(2) st1(2) by (simp add: unpacked_def split_beta)
  ultimately show ?case using st'(1) by (intro exI[of _ st']) (simp add: disj_assoc)
qed

lemma asset_names_safe:
  "should_extract_asset (bytes_of ''assets/boz.s3e'')" "should_extract_asset (bytes_of ''assets/blackops_loader.dz'')"
  by (simp_all add: should_extract_asset_def is_safe_asset_name_def bytes_of_def slash_def sublist_Cons_right)

section \<open>The whole extraction\<close>

lemma read_whole_packed:
  assumes "resources_ok E" "ap_files fs path = Some data" "length data \<le> ax_long_max E" "length data < 2 ^ 32"
  shows "read_whole_file E path fs = Ok data"
  using assms by (simp add: read_whole_file_def file_size_def xmalloc_ok read_exact_def)

text \<open>What the LZMA header says, and a decoder that can decode the rest.\<close>

definition lzma_ok :: "apk_env \<Rightarrow> u8 list \<Rightarrow> u8 list \<Rightarrow> bool" where
  "lzma_ok E packed out \<longleftrightarrow> LZMA_HEADER_SIZE \<le> length packed \<and> unat (rd64 (drop 5 packed)) = length out \<and>
     0 < length out \<and> length out \<le> MAX_OUTPUT_SIZE \<and>
     ax_lzma E (take 5 packed) (drop LZMA_HEADER_SIZE packed) (length out) = (True, out)"

lemma decompress_packed:
  assumes "resources_ok E" "ap_files fs src = Some data" "length data \<le> ax_long_max E" "length data < 2 ^ 32"
    "lzma_ok E data out"
  shows "\<exists>fs'. decompress_lzma_file E src dst fs = Ok fs' \<and> ap_files fs' = (ap_files fs)(dst \<mapsto> out)"
proof -
  have n: "unat (rd64 (drop 5 data)) = length out" "0 < length out" "length out \<le> MAX_OUTPUT_SIZE"
    using assms(5) by (simp_all add: lzma_ok_def)
  have "rd64 (drop 5 data) \<noteq> 0xffffffffffffffff"
  proof
    assume "rd64 (drop 5 data) = 0xffffffffffffffff"
    then have "unat (rd64 (drop 5 data)) = 0xffffffffffffffff" by simp
    then show False using n by (simp add: MAX_OUTPUT_SIZE_def)
  qed
  moreover have "rd64 (drop 5 data) \<noteq> 0" using n by auto
  moreover have "min (length out) (ax_fwrite E 0) = length out"
  proof -
    have "MAX_OUTPUT_SIZE \<le> ax_fwrite E 0" using assms(1) by (simp add: resources_ok_def)
    then show ?thesis using n(3) by simp
  qed
  moreover obtain fs1 where "mkdirs_for_file E dst fs = Ok fs1" "ap_files fs1 = ap_files fs"
    using mkdirs_packed[OF assms(1)] by blast
  ultimately show ?thesis
    using n assms(1,5) read_whole_packed[OF assms(1-4)]
    by (simp add: decompress_lzma_file_def lzma_ok_def Let_def xmalloc_ok resources_ok_def put_file_def not_le not_less)
qed


definition sample_apk_env :: apk_env where
  "sample_apk_env = \<lparr>ax_malloc = (\<lambda>n. True), ax_mkdir = (\<lambda>p. True), ax_fopen = (\<lambda>p. True),
     ax_fwrite = (\<lambda>i. MAX_OUTPUT_SIZE), ax_fclose = (\<lambda>p. True), ax_long_max = 2 ^ 31 - 1,
     ax_lzma = (\<lambda>properties packed n. (True, replicate n 42))\<rparr>"

definition sample_s3e :: "u8 list" where
  "sample_s3e = replicate 5 0 @ [3, 0, 0, 0, 0, 0, 0, 0] @ [1]"

definition sample_files :: "packed list" where
  "sample_files = [(bytes_of ''assets/boz.s3e'', sample_s3e), (bytes_of ''assets/blackops_loader.dz'', [7])]"

definition sample_apk_fs :: apk_fs where
  "sample_apk_fs = \<lparr>ap_files = [bytes_of ''game.apk'' \<mapsto> zip_image sample_files], ap_dirs = {}\<rparr>"

lemma sample_unpacked:
  "unpacked (bytes_of ''out'') sample_files files =
     files(bytes_of ''out/boz.s3e'' \<mapsto> sample_s3e, bytes_of ''out/blackops_loader.dz'' \<mapsto> [7])"
proof -
  have "join_asset_path (bytes_of ''out'') (bytes_of ''assets/boz.s3e'') = bytes_of ''out/boz.s3e''"
    "join_asset_path (bytes_of ''out'') (bytes_of ''assets/blackops_loader.dz'') = bytes_of ''out/blackops_loader.dz''"
    by (simp_all add: join_asset_path_def snprintf_def bytes_of_def slash_def)
  then show ?thesis by (simp add: unpacked_def sample_files_def asset_names_safe)
qed


section \<open>A directory with more entries than counted\<close>

text \<open>
  The array of entries has as many items as the end record counts, but the loop runs over the size of
  the directory: an archive that counts no entry and has one makes the tool write past the array.
\<close>

definition miscounted_zip :: "u8 list" where
  "miscounted_zip = central_header 0 ([], []) @ end_record 0 46 0"

lemma miscounted_zip_overflows:
  assumes "resources_ok E" "1000 \<le> ax_long_max E"
  shows "read_zip_entries E miscounted_zip = Fault"
proof -
  let ?h = "central_header 0 ([], [])" and ?e = "end_record 0 46 0" and ?z = miscounted_zip
  have len: "length ?z = 68" by (simp add: miscounted_zip_def)
  have eocd: "find_eocd E ?z 68 = Ok 46"
    using find_eocd_packed[OF assms(1) miscounted_zip_def] len assms(2) by simp
  have last: "read_exact ?z 46 22 = Ok (?e, 68)"
    using read_part[of 46 ?z ?e "[]" 22] by (simp add: miscounted_zip_def)
  have header: "read_exact ?z 0 46 = Ok (?h, 46)"
    using read_part[of 0 ?z ?h ?e 46] by (simp add: miscounted_zip_def)
  have name: "read_exact ?z 46 0 = Ok ([], 46)" by (simp add: read_exact_def)
  have "read_central E ?z 46 0 0 0 [] = Fault"
    by (subst read_central.simps) (simp add: header name central_fields variable_len_def xmalloc_ok[OF assms(1)])
  then show ?thesis
    using assms(2) len eocd last
    by (simp add: read_zip_entries_def file_size_def seek_abs_def end_fields Let_def xmalloc_ok[OF assms(1)]
        ZIP64_SENTINEL_16_def ZIP64_SENTINEL_32_def)
qed

end
