(* ===== verification/Apk_Cdn.thy ===== *)
theory Apk_Cdn
  imports Apk
begin

text \<open>Which address of the unpacked image the extraction tool prints.\<close>

section \<open>All addresses\<close>

function image_urls :: "u8 list \<Rightarrow> nat \<Rightarrow> cstring list" where
  "image_urls data offset =
     (case find_next_url data offset of None \<Rightarrow> [] | Some (url, offset) \<Rightarrow> url # image_urls data offset)"
  by pat_completeness auto
termination
  by (relation "measure (\<lambda>(data, offset). length data - offset)")
    (auto dest: find_next_url_advances(1,2) intro: diff_less_mono2 order_less_le_trans)

declare image_urls.simps [simp del]

definition of_game :: "cstring \<Rightarrow> bool" where
  "of_game url \<longleftrightarrow> sublist (bytes_of ''callofduty.com'') url"

text \<open>The last address of the game's publisher, or else the first one.\<close>

definition chosen :: "cstring list \<Rightarrow> cstring option" where
  "chosen urls = (if urls = [] then None else if list_ex of_game urls then Some (last (filter of_game urls)) else Some (hd urls))"

lemma cdn_loop_chosen:
  "cdn_loop data offset best =
    (case best of None \<Rightarrow> chosen (image_urls data offset)
     | Some url \<Rightarrow> (if list_ex of_game (image_urls data offset) then Some (last (filter of_game (image_urls data offset))) else Some url))"
proof (induction data offset best rule: cdn_loop.induct)
  case (1 data offset best)
  show ?case
  proof (cases "find_next_url data offset")
    case None
    then show ?thesis
      by (subst cdn_loop.simps, subst (1 2 3) image_urls.simps) (simp add: chosen_def split: option.splits)
  next
    case (Some r)
    obtain url e where r: "r = (url, e)" by (cases r)
    let ?next = "if best = None \<or> sublist (bytes_of ''callofduty.com'') url then Some url else best"
    have urls: "image_urls data offset = url # image_urls data e" using Some r by (subst image_urls.simps) simp
    have ex: "list_ex of_game us = (filter of_game us \<noteq> [])" for us by (induction us) auto
    have "cdn_loop data offset best = cdn_loop data e ?next" using Some r by (subst cdn_loop.simps) simp
    then show ?thesis using 1[OF Some r[symmetric]]
      by (auto simp: urls chosen_def ex of_game_def[symmetric] split: option.splits)
  qed
qed

lemma found_in_image:
  assumes "find_next_url data offset = Some (url, e)"
  shows "sublist (url_needle @ url) data" "list_all url_char url"
proof -
  obtain i where i: "List.find (\<lambda>i. take (length url_needle) (drop i data) = url_needle) [offset..<length data - length url_needle] = Some i"
    using assms by (auto simp: find_next_url_def split: option.splits)
  then have "take (length url_needle) (drop i data) = url_needle" by (auto simp: find_Some_iff)
  moreover have url: "url = takeWhile url_char (drop (i + length url_needle) data)"
    using assms i by (auto simp: find_next_url_def Let_def)
  ultimately have "drop i data = (url_needle @ url) @ dropWhile url_char (drop (i + length url_needle) data)"
    using append_take_drop_id[of "length url_needle" "drop i data"] by (simp add: add.commute)
  then have "data = take i data @ (url_needle @ url) @ dropWhile url_char (drop (i + length url_needle) data)"
    using append_take_drop_id[of i data] by metis
  then show "sublist (url_needle @ url) data" unfolding sublist_def by blast
  show "list_all url_char url" by (simp add: url list_all_iff) (metis set_takeWhileD)
qed

lemma image_urls_found: "url \<in> set (image_urls data offset) \<Longrightarrow> sublist (url_needle @ url) data \<and> list_all url_char url"
proof (induction data offset rule: image_urls.induct)
  case (1 data offset)
  show ?case
  proof (cases "find_next_url data offset")
    case None
    then show ?thesis using 1(2) by (subst (asm) image_urls.simps) simp
  next
    case (Some r)
    obtain u e where r: "r = (u, e)" by (cases r)
    have "url = u \<or> url \<in> set (image_urls data e)" using 1(2) Some r by (subst (asm) image_urls.simps) simp
    then show ?thesis using 1(1)[OF Some r[symmetric]] found_in_image[OF Some[unfolded r]] by blast
  qed
qed


end
