(* ===== verification/Spec2Isabelle.thy ===== *)
theory Spec2Isabelle
  imports Mdns_Properties Timer Zeroconf_Properties Zeroconf_Expiry
    Display Input_Modes Socket_Properties Socket_Address Audio_Signal Audio_Properties Boot
    Device_Id Memory File_Handles
    Egl_Properties Gl_Properties Gl_Resolve Host Apk_Zip Apk_Cdn
begin

text \<open>
  Verification development of the Call of Duty: Black Ops Zombies port, a host program that loads the
  game's S3E image (ARM code for the Marmalade platform), maps and relocates it, binds the functions it
  imports to its own and calls its entry. Everything the game then does with the outside goes through the
  host's components. The development models these components and proves what makes them correct. The code
  is C; every definition is named after the function it translates.

  \<^bold>\<open>The program.\<close> \<open>main\<close> (\<open>src/main.c\<close>) loads the image (\<open>src/s3e_image.c\<close>), starts the host (\<open>src/s3e_host.c\<close>),
  hands it the configuration of the image (\<open>src/s3e_config.c\<close>), maps and relocates the image with
  \<open>s3e_host_resolve\<close> (\<open>src/s3e_gl.c\<close>) as the resolver of names, patches the game
  (\<open>src/codboz_assets.c\<close>, \<open>src/codboz_frame_interpolation.c\<close>) and calls the entry. From there the game
  calls the host: files (\<open>src/s3e_file.c\<close>), memory (\<open>src/s3e_memory.c\<close>), timers (\<open>src/s3e_timer.c\<close>), input
  (\<open>src/s3e_input.c\<close>), audio (\<open>src/s3e_audio.c\<close>), sockets (\<open>src/s3e_socket.c\<close>), service discovery
  (\<open>src/s3e_zeroconf.c\<close> on the wire codec \<open>src/mdns_wire.c\<close>), EGL (\<open>src/s3e_egl.c\<close>), drawing
  (\<open>src/s3e_gl.c\<close>) and the device (\<open>src/s3e_runtime.c\<close>). The game is single threaded: while it waits in
  \<open>s3eDeviceYield\<close> and before each frame in \<open>eglSwapBuffers\<close> the host runs the pumps of the components,
  which call the callbacks the game has registered, and these may call the host again.

  \<^bold>\<open>Theories and code.\<close>

  \<^item> \<open>Prelude\<close>: machine integers, results (\<open>Ok\<close>, \<open>Err\<close>, and \<open>Fault\<close> for an access to memory that the
    code does not own), buffers, C strings, scans over fixed arrays, and the interfaces: \<open>invariant_machine\<close> (a
    component whose steps keep an invariant) and \<open>slot_table\<close> (an array whose index is a handle).
  \<^item> \<open>Mdns_Name\<close>, \<open>Mdns_Packet\<close>: the DNS names with compression, the parser and the builders of
    \<open>src/mdns_wire.c\<close>. \<open>Mdns_Name_Correct\<close>, \<open>Mdns_Packet_Correct\<close>, \<open>Mdns_Roundtrip\<close>, \<open>Mdns_Builders\<close>,
    \<open>Mdns_Service\<close> and \<open>Mdns_Properties\<close> show that no read leaves the packet, that decoding accepts exactly the
    names of a relational specification of the wire format, and that what is built is parsed back.
  \<^item> \<open>Timer\<close>: the queue of \<open>src/s3e_timer.c\<close>, sorted, bounded and without duplicates; the dispatch.
  \<^item> \<open>Zeroconf_State\<close>, \<open>Zeroconf\<close>: searches, publishers, service identifiers and packets of
    \<open>src/s3e_zeroconf.c\<close>, with the heap of the identifiers explicit. \<open>Zeroconf_Ids\<close> and \<open>Zeroconf_Inv\<close> state and keep
    the invariant that every identifier is owned once; \<open>Zeroconf_Properties\<close> and \<open>Zeroconf_Expiry\<close> give the rest.
  \<^item> \<open>Display\<close>: the geometry of drawable and surface (\<open>s3e_host_set_display_size\<close>). \<open>Input\<close>: the controller, the
    cursor, the keyboard, the touchpads and the callbacks of \<open>src/s3e_input.c\<close>. \<open>Input_Inv\<close> is the interface
    \<open>input_observer\<close> (an observation that every primitive update keeps is kept by everything),
    which \<open>Input_Properties\<close> and \<open>Input_Modes\<close> instantiate.
  \<^item> \<open>Socket_State\<close>, \<open>Socket\<close>: slots, handles, calls, lookups and the pump of \<open>src/s3e_socket.c\<close>; \<open>Socket_Inv\<close> the
    ownership of descriptors; \<open>Socket_Properties\<close>, \<open>Socket_Address\<close>.
  \<^item> \<open>Audio_Pcm\<close>, \<open>Audio_State\<close>, \<open>Audio\<close>: samples, channels and operations of \<open>src/s3e_audio.c\<close>; \<open>Audio_Signal\<close>
    the sample arithmetic; \<open>Audio_Inv\<close> the ownership of chunks; \<open>Audio_Properties\<close>.
  \<^item> \<open>Image\<close>: the loader; \<open>Image_Safety\<close> that it stays inside of the file and the mapping; \<open>Image_Properties\<close> and
    \<open>Image_Relocation\<close> that the mapping is the one the fixup table asks for. \<open>Assets\<close>, \<open>Assets_Properties\<close>: the
    patches of the game. \<open>Config\<close>, \<open>Config_Table\<close>, \<open>Config_Properties\<close>: the configuration as a finite map.
    \<open>Boot\<close>: their sequence in \<open>main\<close>.
  \<^item> \<open>File\<close>, \<open>File_Open\<close>: the search of paths, the archive and its index, opening and closing.
    \<open>File_Properties\<close>, \<open>File_Handles\<close>: contents, existence and the ownership of handles. \<open>Memory\<close>: the heaps.
    \<open>Device_Id\<close>: the identifier of the device (\<open>src/device_id.c\<close>).
  \<^item> \<open>Egl\<close>, \<open>Egl_Calls\<close>: the libraries, the SDL display and the entry points of \<open>src/s3e_egl.c\<close>; \<open>Egl_Properties\<close>
    the lifetime of its window and context. \<open>Gl\<close>, \<open>Gl_Frame\<close>: the rectangles, the overlay, the pace of frames and
    the resolution of names; \<open>Gl_Properties\<close>, \<open>Gl_Resolve\<close>.
  \<^item> \<open>Runtime\<close>: the state of the whole host, the wait with its pumps, the frame with its pumps, the answers of
    the device and the tables of the extensions. \<open>Host\<close>: start, shutdown, the invariant over all
    components for any sequence of events, and what a shutdown leaves.

  \<^item> \<open>Apk_Crc\<close>, \<open>Apk\<close>: the program that unpacks the game's files beforehand
    (\<open>tools/apk_extract/codboz_apk_extract.c\<close>). \<open>Apk_Crc\<close> shows its checksum to be the one of the standard, \<open>Apk_Safety\<close> that
    it writes only below its directory, \<open>Apk_Zip\<close> that it gives back what an archive was packed from (and that
    an archive that counts too few entries overflows its array), \<open>Apk_Cdn\<close> which address it prints.

  \<^bold>\<open>State and effects.\<close> A component's globals are a record with the names of the code; an operation takes and
  returns it. The outside is a parameter: a record of functions or answers that an operation is given, which
  may be different at each step (\<open>zc_platform\<close>, \<open>sock_os\<close>, \<open>aud_os\<close>, \<open>sdl_env\<close>, \<open>egl_env\<close>, \<open>img_env\<close>,
  \<open>cfg_env\<close>, \<open>file_env\<close>, \<open>mem_env\<close>, \<open>dev_os\<close>, \<open>apk_env\<close>, \<open>lookup_env\<close>, \<open>pass_env\<close>). Where a proof relies on what such a
  parameter does, the reliance is a named hypothesis (\<open>calloc_contract\<close>: \<open>calloc\<close> gives no block that is in use)
  and the property has a witness. Allocation failures and errors of the system are branches.
  What a C program must not do is visible: \<open>Fault\<close>, or a flag (\<open>zc_heap_error\<close>, \<open>sk_close_error\<close>,
  \<open>mm_bad_free\<close>, \<open>eg_misuse\<close>) that is never set.

  \<^bold>\<open>Callbacks, loops and bounds.\<close> A callback of the guest is a parameter that yields calls to the component
  that makes it; these run through the model's own operations and may pump again, to a depth that is an
  argument and over which the theorems quantify. A dispatch of timers runs 33 rounds: at most 32 events
  can be queued, each event that is due when the dispatch starts fires at most once, and events set
  meanwhile are left for the next one; that 33 rounds are enough is part of the property of the dispatch. An integer query of
  the configuration follows at most four references. A wait and a frame read the clock from a list of
  readings; a list that ends early is a wait that has not returned (\<open>None\<close>), and a property says when it
  returns. All other loops are recursion on lists or on indices.

  \<^bold>\<open>Not modelled.\<close>

  \<^item> Code outside of \<open>src/\<close>: SDL, SDL_mixer, EGL and OpenGL ES drivers, \<open>libc\<close>, the game itself.
  \<^item> \<open>src/zeroconf_platform_posix.c\<close>: sockets, interfaces and the clock of the operating system behind the interface
    \<open>zc_platform\<close>; it has no state of its own.
  \<^item> \<open>third_party/lzma\<close>: vendored; the decoder is a parameter of the extraction tool.
  \<^item> The signal handlers of \<open>src/main.c\<close>, and messages to \<open>stderr\<close> everywhere.
  \<^item> Functions that return a constant or only pass their arguments on: most of \<open>src/s3e_runtime.c\<close>,
    the forwarding functions of \<open>src/s3e_audio_unit.c\<close>, \<open>s3eFileRead\<close> and the like, \<open>s3eMallocBase\<close> and the like.
  \<^item> The release of the memory of the image, and positions in open files.
  \<^item> Callbacks that call another component than the one that called them. The invariant of each component
    holds for any sequence of its own steps, with calls from its own callbacks to any depth.
  \<^item> Overflow of signed integers, which C leaves undefined, is taken to wrap; pointers are numbers.
\<close>

end
